(* ===== verification/Prelude.thy ===== *)
theory Prelude
  imports Main "HOL-Library.Word" "HOL-Library.Signed_Division" "HOL-Library.Sublist"
begin

text \<open>
  The shared vocabulary of the development: Go's \<open>int64\<close> as a 64-bit word read
  through \<^const>\<open>sint\<close>, the error values of the program, the result type of a
  fallible Go function, the parts of Go's \<open>strings\<close> and \<open>strconv\<close> packages the
  sources use, and the generic lemmas and theorem collections the component
  theories rely on.
\<close>

named_theorems go_simps \<open>definitions of one-line Go methods, unfolded by simp\<close>
named_theorems go_results \<open>inversion rules for fallible operations\<close>

subsection \<open>Results\<close>

text \<open>
  One constructor per sentinel error (an \<open>errors.New\<close> variable, or an error that
  is built in place and never matched). A wrapped error (\<open>%w\<close>) is its sentinel:
  callers test with \<open>errors.Is\<close>.
\<close>

datatype err =
    ErrOverflow
  | ErrInvalidFormat
  | ErrDivisionByZero
  | ErrScan
  | ErrUnknownCurrency
  | ErrCurrencyMismatch
  | ErrNullCurrency
  | ErrInvalidTransition
  | ErrStaleStatus
  | ErrIdempotencyKeyRequired
  | ErrNoEntries
  | ErrNonPositiveAmount
  | ErrInvalidDirection
  | ErrUnbalanced
  | ErrUnknownAccountType
  | ErrRecordNotFound
  | ErrAdvanceAlreadySubmitted
  | ErrInvalidPeriod
  | ErrNoActiveEmployees
  | ErrUnsupportedCurrency
  | ErrNegativeItem
  | ErrFloorLoweringRateLimited
  | ErrAdvanceDeclined string
  | ErrPayrollNotRetryable
  | ErrNothingToRetry
  | ErrItemNotResolvable
  | ErrNotYetStuck
  | ErrQueueUnavailable
  | ErrInvalidResolution
  | ErrHardshipGrantEmployeeIneligible
  | ErrHardshipGrantPoolExhausted
  | ErrUniqueViolation
  | ErrCheckViolation
  | ErrOther string

type_synonym 'a res = "err + 'a"

definition rbind :: "'a res \<Rightarrow> ('a \<Rightarrow> 'b res) \<Rightarrow> 'b res" where
  "rbind m f = (case m of Inl e \<Rightarrow> Inl e | Inr x \<Rightarrow> f x)"

lemma rbind_simps [simp]:
  "rbind (Inl e) f = Inl e"
  "rbind (Inr x) f = f x"
  by (simp_all add: rbind_def)

lemma rbind_eq_Inr [go_results]:
  "(rbind m f = Inr y) \<longleftrightarrow> (\<exists>x. m = Inr x \<and> f x = Inr y)"
  by (cases m) auto

lemma rbind_eq_Inl [go_results]:
  "(rbind m f = Inl e) \<longleftrightarrow> (m = Inl e \<or> (\<exists>x. m = Inr x \<and> f x = Inl e))"
  by (cases m) auto

text \<open>A field of a partial update: a nil pointer keeps the old value.\<close>

definition kept :: "'v option \<Rightarrow> 'v \<Rightarrow> 'v" where
  "kept x old = (case x of None \<Rightarrow> old | Some v \<Rightarrow> v)"

lemma kept_simps [simp]: "kept None old = old" "kept (Some v) old = v"
  by (simp_all add: kept_def)

subsection \<open>Go's int64\<close>

type_synonym int64 = "64 word"

definition in64 :: "int \<Rightarrow> bool" where
  "in64 x \<longleftrightarrow> - (2 ^ 63) \<le> x \<and> x < 2 ^ 63"

definition wrap64 :: "int \<Rightarrow> int" where
  "wrap64 x = (x + 2 ^ 63) mod 2 ^ 64 - 2 ^ 63"

definition MinInt64 :: int64 where
  "MinInt64 = word_of_int (- (2 ^ 63))"

definition MaxInt64 :: int64 where
  "MaxInt64 = word_of_int (2 ^ 63 - 1)"

text \<open>
  Go's \<open>/\<close> and \<open>%\<close> truncate toward zero; \<open>MinInt64 / -1\<close> wraps to
  \<open>MinInt64\<close>. Division by zero panics, so every use in the sources is guarded.
\<close>

definition go_div :: "int64 \<Rightarrow> int64 \<Rightarrow> int64" where
  "go_div a b = word_of_int (sint a sdiv sint b)"

definition go_mod :: "int64 \<Rightarrow> int64 \<Rightarrow> int64" where
  "go_mod a b = word_of_int (sint a smod sint b)"

lemma wrap64_signed_take_bit: "signed_take_bit 63 x = wrap64 x"
  by (simp add: wrap64_def signed_take_bit_eq_take_bit_shift take_bit_eq_mod)

lemma sint64_add: "sint (a + b :: int64) = wrap64 (sint a + sint b)"
  by (simp add: sint_word_add wrap64_signed_take_bit)

lemma sint64_sub: "sint (a - b :: int64) = wrap64 (sint a - sint b)"
  by (simp add: sint_word_diff wrap64_signed_take_bit)

lemma sint64_mult: "sint (a * b :: int64) = wrap64 (sint a * sint b)"
  by (simp add: sint_word_mult wrap64_signed_take_bit)

lemma sint64_minus: "sint (- a :: int64) = wrap64 (- sint a)"
  by (simp add: sint_word_minus wrap64_signed_take_bit)

lemma sint64_of_int: "sint (word_of_int x :: int64) = wrap64 x"
  by (simp add: sint_sbintrunc' wrap64_signed_take_bit)

lemma sint64_ge: "- (2 ^ 63) \<le> sint (a :: int64)"
  using sint_ge [of a] by simp

lemma sint64_less: "sint (a :: int64) < 2 ^ 63"
  using sint_lt [of a] by simp

lemma sint64_in64 [simp]: "in64 (sint (a :: int64))"
  using sint64_ge [of a] sint64_less [of a] by (simp add: in64_def)

lemma wrap64_id [simp]: "in64 x \<Longrightarrow> wrap64 x = x"
  by (simp add: wrap64_def in64_def)

lemma wrap64_in64 [simp]: "in64 (wrap64 x)"
proof -
  have "0 \<le> (x + 2 ^ 63) mod 2 ^ 64" "(x + 2 ^ 63) mod 2 ^ 64 < (2 :: int) ^ 64"
    by simp_all
  then show ?thesis by (simp add: wrap64_def in64_def)
qed

lemma wrap64_congruent: "\<exists>c. wrap64 x = x + c * 2 ^ 64"
proof -
  have "(x + 2 ^ 63) mod 2 ^ 64 = (x + 2 ^ 63) - 2 ^ 64 * ((x + 2 ^ 63) div 2 ^ 64)"
    by (rule minus_mult_div_eq_mod [symmetric])
  then have "wrap64 x = x + (- ((x + 2 ^ 63) div 2 ^ 64)) * 2 ^ 64"
    by (simp add: wrap64_def)
  then show ?thesis by blast
qed

lemma wrap64_not_id: "\<not> in64 x \<Longrightarrow> wrap64 x \<noteq> x"
  by (metis wrap64_in64)

lemma in64_I [intro]: "- (2 ^ 63) \<le> x \<Longrightarrow> x < 2 ^ 63 \<Longrightarrow> in64 x"
  by (simp add: in64_def)

lemma in64_between: "in64 a \<Longrightarrow> in64 b \<Longrightarrow> a \<le> x \<Longrightarrow> x \<le> b \<Longrightarrow> in64 x"
  by (simp add: in64_def)

lemma sint_MinInt64 [simp]: "sint MinInt64 = - (2 ^ 63)"
  by (simp add: MinInt64_def sint64_of_int in64_def)

lemma sint_MaxInt64 [simp]: "sint MaxInt64 = 2 ^ 63 - 1"
  by (simp add: MaxInt64_def sint64_of_int in64_def)

lemma word_of_int_sint64 [simp]: "word_of_int (sint a) = (a :: int64)"
  by simp

lemma int64_eq_iff: "(a :: int64) = b \<longleftrightarrow> sint a = sint b"
  by (auto intro: signed_word_eqI)

lemma sint_eq_0_iff [simp]: "sint (a :: int64) = 0 \<longleftrightarrow> a = 0"
  using int64_eq_iff [of a 0] by simp

lemma sint64_word_of_int [simp]: "in64 x \<Longrightarrow> sint (word_of_int x :: int64) = x"
  by (simp add: sint64_of_int)


text \<open>Addition, subtraction and their wrapped results.\<close>

lemma wrap64_near:
  assumes "- (2 ^ 64) \<le> x" "x < 2 ^ 64"
  shows "wrap64 x = (if x < - (2 ^ 63) then x + 2 ^ 64
                     else if 2 ^ 63 \<le> x then x - 2 ^ 64 else x)"
proof -
  consider "x < - (2 ^ 63)" | "in64 x" | "2 ^ 63 \<le> x" by (force simp: in64_def)
  then show ?thesis
  proof cases
    case 1
    with assms have "(x + 2 ^ 63) mod 2 ^ 64 = x + 2 ^ 63 + 2 ^ 64"
      using mod_add_self2 [of "x + 2 ^ 63" "2 ^ 64"] by (simp add: mod_pos_pos_trivial)
    with 1 show ?thesis by (simp add: wrap64_def)
  next
    case 2
    then show ?thesis by (auto simp: in64_def)
  next
    case 3
    with assms have "(x + 2 ^ 63) mod 2 ^ 64 = x + 2 ^ 63 - 2 ^ 64"
      using mod_add_self2 [of "x + 2 ^ 63 - 2 ^ 64" "2 ^ 64"] by (simp add: add.commute)
    with 3 show ?thesis by (simp add: wrap64_def)
  qed
qed

lemma sint64_add_near:
  "sint (a + b :: int64) =
     (if sint a + sint b < - (2 ^ 63) then sint a + sint b + 2 ^ 64
      else if 2 ^ 63 \<le> sint a + sint b then sint a + sint b - 2 ^ 64 else sint a + sint b)"
  unfolding sint64_add
  by (rule wrap64_near)
    (use sint64_ge [of a] sint64_ge [of b] sint64_less [of a] sint64_less [of b] in simp_all)

lemma sint64_sub_near:
  "sint (a - b :: int64) =
     (if sint a - sint b < - (2 ^ 63) then sint a - sint b + 2 ^ 64
      else if 2 ^ 63 \<le> sint a - sint b then sint a - sint b - 2 ^ 64 else sint a - sint b)"
  unfolding sint64_sub
  by (rule wrap64_near)
    (use sint64_ge [of a] sint64_ge [of b] sint64_less [of a] sint64_less [of b] in simp_all)

lemma sint64_add_exact [simp]:
  "in64 (sint a + sint b) \<Longrightarrow> sint (a + b :: int64) = sint a + sint b"
  by (simp add: sint64_add)

lemma sint64_sub_exact [simp]:
  "in64 (sint a - sint b) \<Longrightarrow> sint (a - b :: int64) = sint a - sint b"
  by (simp add: sint64_sub)

subsection \<open>Signed comparison, truncating division\<close>

lemma sless_sint: "(a :: int64) <s b \<longleftrightarrow> sint a < sint b"
  by (simp add: word_sless_alt)

lemma go_div_sint:
  "\<not> (a = MinInt64 \<and> b = - 1) \<Longrightarrow> sint (go_div a b) = sint a sdiv sint b"
proof -
  assume ne: "\<not> (a = MinInt64 \<and> b = - 1)"
  have r: "- \<bar>sint a\<bar> \<le> sint a sdiv sint b" "sint a sdiv sint b \<le> \<bar>sint a\<bar>"
    using sdiv_int_range [of "sint a" "sint b"] by auto
  have "sint a sdiv sint b \<noteq> 2 ^ 63"
  proof
    assume e: "sint a sdiv sint b = 2 ^ 63"
    with r(2) sint64_ge [of a] sint64_less [of a] have a: "sint a = - (2 ^ 63)" by linarith
    then have "a = MinInt64" by (simp add: int64_eq_iff)
    moreover from a e have "sint b = - 1"
      using int_sdiv_negated_is_minus1 [of "sint a" "sint b"] by simp
    then have "b = - 1" by (simp add: int64_eq_iff)
    ultimately show False using ne by simp
  qed
  with r sint64_ge [of a] sint64_less [of a] have "in64 (sint a sdiv sint b)"
    by (auto simp: in64_def)
  then show ?thesis by (simp add: go_div_def)
qed

lemma go_mod_sint: "b \<noteq> 0 \<Longrightarrow> sint (go_mod a b) = sint a smod sint b"
proof -
  assume "b \<noteq> 0"
  then have "sint a smod sint b \<in> {- \<bar>sint b\<bar> + 1..\<bar>sint b\<bar> - 1}"
    by (intro smod_int_range) simp
  then have "in64 (sint a smod sint b)"
    using sint64_ge [of b] sint64_less [of b] by (auto simp: in64_def)
  then show ?thesis by (simp add: go_mod_def)
qed

text \<open>An \<open>int64\<close> product that survives the division check is the exact product.\<close>

lemma quotient_check_exact:
  assumes n: "n \<noteq> 0" "in64 n" and k: "wrap64 (k * n) sdiv n = k"
  shows "wrap64 (k * n) = k * n"
proof -
  obtain c where c: "wrap64 (k * n) = k * n + c * 2 ^ 64" using wrap64_congruent by blast
  have "wrap64 (k * n) = n * k + wrap64 (k * n) smod n"
    using mult_sdiv_smod_eq [of n "wrap64 (k * n)"] k by simp
  with c have "c * 2 ^ 64 = wrap64 (k * n) smod n" by (simp add: mult.commute)
  moreover have "wrap64 (k * n) smod n \<in> {- \<bar>n\<bar> + 1..\<bar>n\<bar> - 1}"
    using n(1) by (rule smod_int_range)
  ultimately have "\<bar>c * 2 ^ 64\<bar> < \<bar>n\<bar>" by auto
  with n(2) have "\<bar>c * 2 ^ 64\<bar> < 2 ^ 64" by (auto simp: in64_def)
  then have "c = 0" by (cases "c = 0") (auto simp: abs_mult)
  with c show ?thesis by simp
qed

lemma smod_2_eq_0_iff: "(q :: int) smod 2 = 0 \<longleftrightarrow> even q"
  by (auto simp: signed_modulo_int_def even_iff_mod_2_eq_zero sgn_if)

lemma sint64_one [simp]: "sint (1 :: int64) = 1" by simp
lemma sint64_two [simp]: "sint (2 :: int64) = 2" by simp

lemma abs_sdiv_half: "2 \<le> d \<Longrightarrow> 2 * \<bar>(x :: int) sdiv d\<bar> \<le> \<bar>x\<bar>"
proof -
  assume "2 \<le> d"
  then have "\<bar>x\<bar> div d \<le> \<bar>x\<bar> div 2" by (intro zdiv_mono2) auto
  moreover have "\<bar>x sdiv d\<bar> = \<bar>x\<bar> div d" if "x \<noteq> 0"
    using \<open>2 \<le> d\<close> that by (simp add: signed_divide_int_def abs_mult pos_imp_zdiv_nonneg_iff)
  ultimately show ?thesis by (cases "x = 0") auto
qed

subsection \<open>Rounding half to even\<close>

text \<open>\<open>q\<close> is \<open>x / d\<close> rounded to the nearest integer, a tie going to the even one.\<close>

definition rounds_half_even :: "int \<Rightarrow> int \<Rightarrow> int \<Rightarrow> bool" where
  "rounds_half_even x d q \<longleftrightarrow>
     2 * \<bar>x - q * d\<bar> \<le> d \<and> (2 * \<bar>x - q * d\<bar> = d \<longrightarrow> even q)"

lemma half_sandwich:
  fixes a b x y d :: int
  assumes "2 * (a - x) \<le> d" "2 * (y - b) \<le> d" "b + d \<le> a" "x \<le> y" "0 < d"
  shows "2 * (a - x) = d \<and> 2 * (y - b) = d \<and> a = b + d \<and> x - a < 0 \<and> 0 < y - b"
  using assms by arith

lemma rounds_half_even_mono:
  assumes "0 < d" "rounds_half_even x d p" "rounds_half_even y d q" "x \<le> y"
  shows "p \<le> q"
proof (rule ccontr)
  assume "\<not> p \<le> q"
  then have pq: "q + 1 \<le> p" by simp
  then have "(q + 1) * d \<le> p * d" using assms(1) by (intro mult_right_mono) auto
  then have *: "q * d + d \<le> p * d" by (simp add: algebra_simps)
  have "2 * (p * d - x) \<le> 2 * \<bar>x - p * d\<bar>" "2 * (y - q * d) \<le> 2 * \<bar>y - q * d\<bar>"
    by (rule mult_left_mono; simp)+
  with assms(2,3) have b: "2 * (p * d - x) \<le> d" "2 * (y - q * d) \<le> d"
    unfolding rounds_half_even_def by (meson order_trans)+
  have px: "2 * (p * d - x) = d" and yq: "2 * (y - q * d) = d" and "p * d = q * d + d"
    and xp: "x - p * d < 0" and qy: "0 < y - q * d"
    using half_sandwich [OF b * assms(4,1)] by blast+
  then have "p * d = (q + 1) * d" by (simp add: algebra_simps)
  with assms(1) have "p = q + 1" by simp
  moreover from xp px assms(2) have "even p" by (simp add: rounds_half_even_def)
  moreover from qy yq assms(3) have "even q" by (simp add: rounds_half_even_def)
  ultimately show False by simp
qed

lemma rounds_half_even_unique:
  "0 < d \<Longrightarrow> rounds_half_even x d p \<Longrightarrow> rounds_half_even x d q \<Longrightarrow> p = q"
  by (meson antisym order_refl rounds_half_even_mono)

lemma rounds_half_even_exact: "rounds_half_even (q * d) d q \<longleftrightarrow> 0 \<le> d \<and> (d = 0 \<longrightarrow> even q)"
  by (auto simp: rounds_half_even_def)


lemma truncated_then_adjusted:
  fixes x d q r :: int
  assumes "0 < d" "x = q * d + r" "\<bar>r\<bar> < d"
  shows "rounds_half_even x d
     (if d < 2 * r \<or> 2 * r < - d then (if 0 < r then q + 1 else q - 1)
      else if 2 * r = d \<or> 2 * r = - d
      then (if odd q then (if 0 < r then q + 1 else q - 1) else q) else q)"
proof -
  have e: "x - q * d = r" "x - (q + 1) * d = r - d" "x - (q - 1) * d = r + d"
    using assms(2) by (simp_all add: algebra_simps)
  show ?thesis using assms(1,3) by (auto simp: rounds_half_even_def e)
qed

end
