(* ===== verification/Go_Strings.thy ===== *)
theory Go_Strings
  imports Prelude
begin

text \<open>
  The parts of Go's \<open>strings\<close> and \<open>strconv\<close> packages the program calls, on
  strings as lists of bytes: \<open>TrimSpace\<close>, \<open>ToUpper\<close> on ASCII, \<open>SplitN\<close> at one
  byte, \<open>strconv.FormatInt\<close> and \<open>strconv.ParseInt\<close> in base 10 at 64 bits, and
  \<open>withThousandsSep\<close>'s byte slicing. The lemmas relate printing and parsing.
\<close>

subsection \<open>TrimSpace\<close>

text \<open>The UTF-8 encodings of the code points \<open>unicode.IsSpace\<close> accepts.\<close>

definition space_encodings :: "string list" where
  "space_encodings =
     [[CHR 0x09], [CHR 0x0A], [CHR 0x0B], [CHR 0x0C], [CHR 0x0D], [CHR 0x20],
      [CHR 0xC2, CHR 0x85], [CHR 0xC2, CHR 0xA0], [CHR 0xE1, CHR 0x9A, CHR 0x80],
      [CHR 0xE2, CHR 0x80, CHR 0x80], [CHR 0xE2, CHR 0x80, CHR 0x81],
      [CHR 0xE2, CHR 0x80, CHR 0x82], [CHR 0xE2, CHR 0x80, CHR 0x83],
      [CHR 0xE2, CHR 0x80, CHR 0x84], [CHR 0xE2, CHR 0x80, CHR 0x85],
      [CHR 0xE2, CHR 0x80, CHR 0x86], [CHR 0xE2, CHR 0x80, CHR 0x87],
      [CHR 0xE2, CHR 0x80, CHR 0x88], [CHR 0xE2, CHR 0x80, CHR 0x89],
      [CHR 0xE2, CHR 0x80, CHR 0x8A], [CHR 0xE2, CHR 0x80, CHR 0xA8],
      [CHR 0xE2, CHR 0x80, CHR 0xA9], [CHR 0xE2, CHR 0x80, CHR 0xAF],
      [CHR 0xE2, CHR 0x81, CHR 0x9F], [CHR 0xE3, CHR 0x80, CHR 0x80]]"

fun strip_prefix :: "string \<Rightarrow> string \<Rightarrow> string option" where
  "strip_prefix [] s = Some s"
| "strip_prefix (p # ps) [] = None"
| "strip_prefix (p # ps) (c # s) = (if p = c then strip_prefix ps s else None)"

fun strip_first :: "string list \<Rightarrow> string \<Rightarrow> string option" where
  "strip_first [] s = None"
| "strip_first (e # es) s =
     (case strip_prefix e s of
        Some t \<Rightarrow> (if length t < length s then Some t else strip_first es s)
      | None \<Rightarrow> strip_first es s)"

lemma strip_first_shorter: "strip_first es s = Some t \<Longrightarrow> length t < length s"
  by (induction es) (auto split: option.splits if_splits)

function trim_with :: "string list \<Rightarrow> string \<Rightarrow> string" where
  "trim_with es s = (case strip_first es s of Some t \<Rightarrow> trim_with es t | None \<Rightarrow> s)"
  by pat_completeness auto
termination
  by (relation "measure (\<lambda>(es, s). length s)") (auto dest: strip_first_shorter)

declare trim_with.simps [simp del]

definition TrimSpace :: "string \<Rightarrow> string" where
  "TrimSpace s =
     rev (trim_with (map rev space_encodings) (rev (trim_with space_encodings s)))"

definition is_space_byte :: "char \<Rightarrow> bool" where
  "is_space_byte c \<longleftrightarrow> c \<in> set (concat space_encodings)"

lemma strip_prefix_head:
  "strip_prefix e (c # s) = Some t \<Longrightarrow> e \<noteq> [] \<Longrightarrow> c \<in> set e"
  by (cases e) (auto split: if_splits)

lemma strip_first_head:
  "strip_first es (c # s) = Some t \<Longrightarrow> c \<in> set (concat es)"
proof (induction es)
  case (Cons e es)
  then show ?case
    by (cases "e = []") (auto split: option.splits if_splits dest: strip_prefix_head)
qed simp

lemma strip_first_Nil: "strip_first es [] = None"
  by (induction es) (auto split: option.splits)

lemma trim_with_id: "s = [] \<or> hd s \<notin> set (concat es) \<Longrightarrow> trim_with es s = s"
  by (subst trim_with.simps, cases s)
    (auto simp: strip_first_Nil split: option.split dest: strip_first_head)

text \<open>A string that starts and ends with bytes no space encoding uses is kept.\<close>

lemma TrimSpace_id:
  assumes "s \<noteq> []" "\<not> is_space_byte (hd s)" "\<not> is_space_byte (last s)"
  shows "TrimSpace s = s"
proof -
  have a: "trim_with space_encodings s = s"
    using assms(2) by (intro trim_with_id) (simp add: is_space_byte_def)
  have "set (concat (map rev space_encodings)) = set (concat space_encodings)"
    by auto
  then have "trim_with (map rev space_encodings) (rev s) = rev s"
    using assms(1,3) by (intro trim_with_id) (simp add: is_space_byte_def hd_rev)
  with a show ?thesis by (simp add: TrimSpace_def)
qed

subsection \<open>ToUpper and SplitN\<close>

text \<open>
  \<open>strings.ToUpper\<close>: ASCII letters, and the two non-ASCII code points whose upper
  case is an ASCII letter (U+0131, bytes C4 B1, becomes \<open>I\<close>; U+017F, bytes C5 BF,
  becomes \<open>S\<close>). The upper case of any other code point has no ASCII byte; those
  bytes are left as they are, which no comparison with an ASCII code can tell apart.
\<close>

definition to_upper_byte :: "char \<Rightarrow> char" where
  "to_upper_byte c =
     (if 97 \<le> (of_char c :: nat) \<and> (of_char c :: nat) \<le> 122
      then char_of ((of_char c :: nat) - 32) else c)"

fun ToUpper :: "string \<Rightarrow> string" where
  "ToUpper [] = []"
| "ToUpper [c] = [to_upper_byte c]"
| "ToUpper (c # d # s) =
     (if c = CHR 0xC4 \<and> d = CHR 0xB1 then CHR ''I'' # ToUpper s
      else if c = CHR 0xC5 \<and> d = CHR 0xBF then CHR ''S'' # ToUpper s
      else to_upper_byte c # ToUpper (d # s))"

text \<open>\<open>strings.SplitN(s, sep, 2)\<close> for a one-byte separator.\<close>

definition SplitN2 :: "char \<Rightarrow> string \<Rightarrow> string \<times> string option" where
  "SplitN2 sep s =
     (takeWhile (\<lambda>c. c \<noteq> sep) s,
      (case dropWhile (\<lambda>c. c \<noteq> sep) s of [] \<Rightarrow> None | _ # r \<Rightarrow> Some r))"

lemma SplitN2_none: "sep \<notin> set s \<Longrightarrow> SplitN2 sep s = (s, None)"
  by (induction s) (auto simp: SplitN2_def)

lemma SplitN2_append: "sep \<notin> set a \<Longrightarrow> SplitN2 sep (a @ sep # b) = (a, Some b)"
  by (induction a) (auto simp: SplitN2_def)

subsection \<open>strconv.FormatInt and strconv.ParseInt, base 10, 64 bits\<close>

definition digit_char :: "int \<Rightarrow> char" where
  "digit_char d = char_of (48 + d)"

definition is_digit :: "char \<Rightarrow> bool" where
  "is_digit c \<longleftrightarrow> 48 \<le> (of_char c :: int) \<and> (of_char c :: int) \<le> 57"

definition digit_value :: "char \<Rightarrow> int" where
  "digit_value c = of_char c - 48"

text \<open>The decimal digits of a number that is not negative.\<close>

function format_nat :: "int \<Rightarrow> string" where
  "format_nat n =
     (if n < 10 then [digit_char n] else format_nat (n div 10) @ [digit_char (n mod 10)])"
  by pat_completeness auto
termination
  by (relation "measure nat") auto

declare format_nat.simps [simp del]

definition FormatInt :: "int \<Rightarrow> string" where
  "FormatInt n = (if n < 0 then CHR ''-'' # format_nat (- n) else format_nat n)"

fun digits_value :: "int \<Rightarrow> string \<Rightarrow> int option" where
  "digits_value acc [] = Some acc"
| "digits_value acc (c # cs) =
     (if is_digit c then digits_value (acc * 10 + digit_value c) cs else None)"

definition parse_nat :: "string \<Rightarrow> int option" where
  "parse_nat s = (if s = [] then None else digits_value 0 s)"

definition ParseInt :: "string \<Rightarrow> int64 option" where
  "ParseInt s =
     (let (neg, ds) =
        (case s of [] \<Rightarrow> (False, [])
         | c # cs \<Rightarrow> (if c = CHR ''+'' then (False, cs)
                      else if c = CHR ''-'' then (True, cs) else (False, s)))
      in case parse_nat ds of
           None \<Rightarrow> None
         | Some n \<Rightarrow>
             (let v = (if neg then - n else n)
              in if in64 v then Some (word_of_int v) else None))"

lemma of_char_digit_char: "0 \<le> d \<Longrightarrow> d < 10 \<Longrightarrow> (of_char (digit_char d) :: int) = 48 + d"
  by (simp add: digit_char_def)

lemma digit_char_is_digit [simp]: "0 \<le> d \<Longrightarrow> d < 10 \<Longrightarrow> is_digit (digit_char d)"
  by (simp add: is_digit_def of_char_digit_char)

lemma digit_value_digit_char [simp]: "0 \<le> d \<Longrightarrow> d < 10 \<Longrightarrow> digit_value (digit_char d) = d"
  by (simp add: digit_value_def of_char_digit_char)

lemma digit_value_range: "is_digit c \<Longrightarrow> 0 \<le> digit_value c \<and> digit_value c \<le> 9"
  by (simp add: is_digit_def digit_value_def)

lemma is_digit_not_special [simp]:
  "is_digit c \<Longrightarrow> c \<noteq> CHR ''-'' \<and> c \<noteq> CHR ''+'' \<and> c \<noteq> CHR ''.'' \<and> c \<noteq> CHR '',''"
  by (auto simp: is_digit_def)

lemma is_digit_not_space: "is_digit c \<Longrightarrow> \<not> is_space_byte c"
  by (auto simp: is_digit_def is_space_byte_def space_encodings_def)

lemma format_nat_digits: "0 \<le> n \<Longrightarrow> c \<in> set (format_nat n) \<Longrightarrow> is_digit c"
proof (induction n rule: format_nat.induct)
  case (1 n)
  show ?case
  proof (cases "n < 10")
    case True
    with 1 show ?thesis by (simp add: format_nat.simps [of n])
  next
    case False
    with 1 show ?thesis by (auto simp: format_nat.simps [of n])
  qed
qed

lemma format_nat_nonempty [simp]: "format_nat n \<noteq> []"
  by (subst format_nat.simps) simp

lemma digits_value_append:
  "digits_value a (xs @ ys) =
     (case digits_value a xs of None \<Rightarrow> None | Some b \<Rightarrow> digits_value b ys)"
  by (induction xs arbitrary: a) auto

lemma digits_value_format_nat: "0 \<le> n \<Longrightarrow> digits_value 0 (format_nat n) = Some n"
proof (induction n rule: format_nat.induct)
  case (1 n)
  then show ?case
    by (cases "n < 10") (simp_all add: format_nat.simps [of n] digits_value_append)
qed

lemma digits_value_ge: "0 \<le> a \<Longrightarrow> digits_value a s = Some v \<Longrightarrow> a \<le> v"
proof (induction s arbitrary: a)
  case (Cons c s)
  then have d: "is_digit c" "digits_value (a * 10 + digit_value c) s = Some v"
    by (auto split: if_splits)
  with digit_value_range [OF d(1)] Cons.prems(1) have "a * 10 + digit_value c \<le> v"
    by (intro Cons.IH) auto
  with digit_value_range [OF d(1)] Cons.prems(1) show ?case by linarith
qed simp

lemma parse_nat_nonneg: "parse_nat s = Some v \<Longrightarrow> 0 \<le> v"
  using digits_value_ge [of 0 s v] by (auto simp: parse_nat_def split: if_splits)

lemma parse_nat_format_nat [simp]: "0 \<le> n \<Longrightarrow> parse_nat (format_nat n) = Some n"
  by (simp add: parse_nat_def digits_value_format_nat)

lemma ParseInt_digits:
  assumes "s \<noteq> []" "is_digit (hd s)"
  shows "ParseInt s =
    (case parse_nat s of None \<Rightarrow> None
     | Some n \<Rightarrow> if in64 n then Some (word_of_int n) else None)"
  using assms by (cases s) (auto simp: ParseInt_def Let_def split: option.split)

lemma hd_format_nat [simp]: "0 \<le> n \<Longrightarrow> is_digit (hd (format_nat n))"
  by (meson format_nat_digits format_nat_nonempty hd_in_set)

lemma last_format_nat [simp]: "0 \<le> n \<Longrightarrow> is_digit (last (format_nat n))"
  by (meson format_nat_digits format_nat_nonempty last_in_set)

lemma ParseInt_format_nat:
  "0 \<le> n \<Longrightarrow> ParseInt (format_nat n) = (if in64 n then Some (word_of_int n) else None)"
  by (simp add: ParseInt_digits)

lemma ParseInt_FormatInt: "ParseInt (FormatInt (sint k)) = Some k"
proof (cases "sint k < 0")
  case True
  then have "ParseInt (CHR ''-'' # format_nat (- sint k)) = Some (word_of_int (sint k))"
    by (simp add: ParseInt_def)
  with True show ?thesis by (simp add: FormatInt_def)
next
  case False
  then show ?thesis by (simp add: FormatInt_def ParseInt_format_nat)
qed

lemma parse_nat_two_digits:
  assumes "0 \<le> a" "a < 10" "0 \<le> b" "b < 10"
  shows "parse_nat [digit_char a, digit_char b] = Some (10 * a + b)"
  using assms by (simp add: parse_nat_def)

end
