(* ===== verification/Money.thy ===== *)
theory Money
  imports Go_Strings
begin

text \<open>
  \<open>pkg/money/money.go\<close>: the \<open>Kobo\<close> type, an \<open>int64\<close> count of minor units, its
  checked arithmetic, its rounding division, its parser and its printers. The lemmas
  show the overflow checks exact, \<open>Percent\<close> a round-half-to-even division, the
  printed forms faithful, and where the parser's checks stop short.
\<close>

type_synonym Kobo = int64

definition KoboPerNaira :: int64 where
  "KoboPerNaira = 100"

subsection \<open>Constructors\<close>

definition FromNaira :: "int64 \<Rightarrow> Kobo" where
  "FromNaira naira = naira * KoboPerNaira"

definition FromNairaChecked :: "int64 \<Rightarrow> Kobo res" where
  "FromNairaChecked naira =
     (if go_div MaxInt64 KoboPerNaira <s naira \<or> naira <s go_div MinInt64 KoboPerNaira
      then Inl ErrOverflow
      else Inr (naira * KoboPerNaira))"

definition FromNairaString :: "string \<Rightarrow> Kobo res" where
  "FromNairaString s0 =
     (let s = TrimSpace s0
      in if s = [] then Inl ErrInvalidFormat
      else
        (let negative = (hd s = CHR ''-'');
             s = (if negative then tl s else s);
             (whole_s, frac_s) = SplitN2 CHR ''.'' s
         in case ParseInt whole_s of
              None \<Rightarrow> Inl ErrInvalidFormat
            | Some whole \<Rightarrow>
                rbind
                  (case frac_s of
                     None \<Rightarrow> Inr 0
                   | Some frac \<Rightarrow>
                       if length frac = 0 \<or> length frac > 2 then Inl ErrInvalidFormat
                       else
                         (case ParseInt (if length frac = 1 then frac @ ''0'' else frac) of
                            None \<Rightarrow> Inl ErrInvalidFormat
                          | Some f \<Rightarrow> Inr f))
                  (\<lambda>fraction.
                     if go_div (MaxInt64 - fraction) KoboPerNaira <s whole
                     then Inl ErrOverflow
                     else
                       (let total = whole * KoboPerNaira + fraction
                        in Inr (if negative then - total else total)))))"

subsection \<open>Printing\<close>

text \<open>The comma loop over whole groups of three bytes.\<close>

fun sep_groups :: "string \<Rightarrow> string" where
  "sep_groups (a # b # c # d # s) = a # b # c # CHR '','' # sep_groups (d # s)"
| "sep_groups s = s"

definition withThousandsSep :: "int64 \<Rightarrow> string" where
  "withThousandsSep n =
     (let s = FormatInt (sint n)
      in if length s \<le> 3 then s
      else
        (let pre = length s mod 3
         in (if pre > 0
             then take pre s @ (if length s > pre then '','' else '''')
             else '''')
            @ sep_groups (drop pre s)))"

text \<open>\<open>fmt\<close>'s \<open>%0wd\<close>: the sign counts toward the width and precedes the padding.\<close>

definition pad_zero :: "nat \<Rightarrow> int \<Rightarrow> string" where
  "pad_zero w n =
     (let s = FormatInt n; z = replicate (w - length s) CHR ''0''
      in if n < 0 then CHR ''-'' # z @ tl s else z @ s)"

definition naira_sign :: string where
  "naira_sign = [CHR 0xE2, CHR 0x82, CHR 0xA6]"

definition Kobo_String :: "Kobo \<Rightarrow> string" where
  "Kobo_String k =
     (let negative = (k <s 0);
          abs = (if negative then - k else k);
          whole = go_div abs KoboPerNaira;
          frac = go_mod abs KoboPerNaira
      in (if negative then ''-'' else '''') @ naira_sign @ withThousandsSep whole
           @ ''.'' @ pad_zero 2 (sint frac))"

subsection \<open>Arithmetic\<close>

definition Kobo_Add :: "Kobo \<Rightarrow> Kobo \<Rightarrow> Kobo res" where
  "Kobo_Add k other =
     (let result = k + other
      in if (0 <s other \<and> result <s k) \<or> (other <s 0 \<and> k <s result)
         then Inl ErrOverflow else Inr result)"

text \<open>A panic is \<^const>\<open>None\<close>.\<close>

definition Kobo_MustAdd :: "Kobo \<Rightarrow> Kobo \<Rightarrow> Kobo option" where
  "Kobo_MustAdd k other = (case Kobo_Add k other of Inl _ \<Rightarrow> None | Inr r \<Rightarrow> Some r)"

definition Kobo_Sub :: "Kobo \<Rightarrow> Kobo \<Rightarrow> Kobo res" where
  "Kobo_Sub k other =
     (let result = k - other
      in if (other <s 0 \<and> result <s k) \<or> (0 <s other \<and> k <s result)
         then Inl ErrOverflow else Inr result)"

definition Kobo_MulInt :: "Kobo \<Rightarrow> int64 \<Rightarrow> Kobo res" where
  "Kobo_MulInt k n =
     (if k = 0 \<or> n = 0 then Inr 0
      else
        (let result = k * n
         in if go_div result n \<noteq> k then Inl ErrOverflow else Inr result))"

definition Kobo_Percent :: "Kobo \<Rightarrow> int64 \<Rightarrow> int64 \<Rightarrow> Kobo res" where
  "Kobo_Percent k numerator denominator =
     (if denominator = 0 then Inl ErrDivisionByZero
      else rbind (Kobo_MulInt k numerator) (\<lambda>scaled.
        (let q = go_div scaled denominator;
             r = go_mod scaled denominator;
             twiceR = 2 * r
         in Inr
              (if denominator <s twiceR \<or> twiceR <s - denominator
               then (if 0 <s r then q + 1 else q - 1)
               else if twiceR = denominator \<or> twiceR = - denominator
               then (if go_mod q 2 \<noteq> 0 then (if 0 <s r then q + 1 else q - 1) else q)
               else q))))"

definition Kobo_IsZero :: "Kobo \<Rightarrow> bool" where
  [go_simps]: "Kobo_IsZero k \<longleftrightarrow> k = 0"

definition Kobo_IsPositive :: "Kobo \<Rightarrow> bool" where
  [go_simps]: "Kobo_IsPositive k \<longleftrightarrow> 0 <s k"

definition Kobo_IsNegative :: "Kobo \<Rightarrow> bool" where
  [go_simps]: "Kobo_IsNegative k \<longleftrightarrow> k <s 0"

fun Kobo_Sum_from :: "Kobo \<Rightarrow> Kobo list \<Rightarrow> Kobo res" where
  "Kobo_Sum_from tot [] = Inr tot"
| "Kobo_Sum_from tot (v # vs) = rbind (Kobo_Add tot v) (\<lambda>next. Kobo_Sum_from next vs)"

definition Kobo_Sum :: "Kobo list \<Rightarrow> Kobo res" where
  "Kobo_Sum values = Kobo_Sum_from 0 values"

subsection \<open>Persistence and JSON\<close>

definition Kobo_MarshalJSON :: "Kobo \<Rightarrow> string" where
  "Kobo_MarshalJSON k = FormatInt (sint k)"

datatype sql_value = SqlNull | SqlInt64 int64 | SqlInt int64 | SqlBytes string | SqlString string
  | SqlOther

definition Kobo_Value :: "Kobo \<Rightarrow> sql_value" where
  "Kobo_Value k = SqlInt64 k"

fun Kobo_Scan :: "sql_value \<Rightarrow> Kobo res" where
  "Kobo_Scan SqlNull = Inr 0"
| "Kobo_Scan (SqlInt64 v) = Inr v"
| "Kobo_Scan (SqlInt v) = Inr v"
| "Kobo_Scan (SqlBytes v) = (case ParseInt v of None \<Rightarrow> Inl ErrScan | Some n \<Rightarrow> Inr n)"
| "Kobo_Scan (SqlString v) = (case ParseInt v of None \<Rightarrow> Inl ErrScan | Some n \<Rightarrow> Inr n)"
| "Kobo_Scan SqlOther = Inl ErrScan"

subsection \<open>The overflow checks are exact\<close>

lemma Kobo_Add_exact:
  "Kobo_Add k other = (if in64 (sint k + sint other) then Inr (k + other) else Inl ErrOverflow)"
  using sint64_ge [of k] sint64_less [of k] sint64_ge [of other] sint64_less [of other]
  by (auto simp: Kobo_Add_def sless_sint sint64_add_near in64_def)

lemma Kobo_Sub_exact:
  "Kobo_Sub k other = (if in64 (sint k - sint other) then Inr (k - other) else Inl ErrOverflow)"
  using sint64_ge [of k] sint64_less [of k] sint64_ge [of other] sint64_less [of other]
  by (auto simp: Kobo_Sub_def sless_sint sint64_sub_near in64_def)

lemma Kobo_Add_Inr [go_results]:
  "Kobo_Add a b = Inr c \<longleftrightarrow> sint c = sint a + sint b"
  by (auto simp: Kobo_Add_exact int64_eq_iff) (metis sint64_in64)

lemma Kobo_Sub_Inr [go_results]:
  "Kobo_Sub a b = Inr c \<longleftrightarrow> sint c = sint a - sint b"
  by (auto simp: Kobo_Sub_exact int64_eq_iff) (metis sint64_in64)

lemma Kobo_MulInt_exact:
  "Kobo_MulInt k n =
     (if in64 (sint k * sint n) \<or> (k = MinInt64 \<and> n = - 1) then Inr (k * n)
      else Inl ErrOverflow)"
proof (cases "k = 0 \<or> n = 0")
  case True
  then show ?thesis by (auto simp: Kobo_MulInt_def in64_def)
next
  case False
  then have nz: "sint n \<noteq> 0" by simp
  consider (min) "k = MinInt64" "n = - 1" | (wrapped) "k * n = MinInt64" "n = - 1" "k \<noteq> MinInt64"
    | (normal) "\<not> (k * n = MinInt64 \<and> n = - 1)" by blast
  then show ?thesis
  proof cases
    case min
    then show ?thesis by (simp add: Kobo_MulInt_def go_div_def MinInt64_def)
  next
    case wrapped
    then have "k = MinInt64" by (simp add: MinInt64_def)
    with wrapped show ?thesis by simp
  next
    case normal
    have "go_div (k * n) n = k \<longleftrightarrow> in64 (sint k * sint n)"
    proof
      assume "go_div (k * n) n = k"
      with go_div_sint [OF normal] have "wrap64 (sint k * sint n) sdiv sint n = sint k"
        by (simp add: sint64_mult)
      with nz have "wrap64 (sint k * sint n) = sint k * sint n"
        by (intro quotient_check_exact) simp_all
      then show "in64 (sint k * sint n)" by (metis wrap64_in64)
    next
      assume "in64 (sint k * sint n)"
      then have "sint (go_div (k * n) n) = (sint k * sint n) sdiv sint n"
        using go_div_sint [OF normal] by (simp add: sint64_mult)
      also have "\<dots> = sint k" using nz by (simp add: signed_divide_int_eq_divide_int)
      finally show "go_div (k * n) n = k" by (simp add: int64_eq_iff)
    qed
    moreover have "k = MinInt64 \<and> n = - 1 \<Longrightarrow> False"
      using normal by (auto simp: MinInt64_def)
    ultimately show ?thesis using False by (auto simp: Kobo_MulInt_def)
  qed
qed

subsection \<open>Percent rounds half to even\<close>

lemma Kobo_Percent_rounds:
  assumes d: "0 < sint d" "sint d \<le> 2 ^ 62" and fits: "in64 (sint k * sint n)"
  shows "\<exists>q. Kobo_Percent k n d = Inr q \<and> rounds_half_even (sint k * sint n) (sint d) (sint q)"
proof -
  define x where "x = sint k * sint n"
  define Q where "Q = x sdiv sint d"
  define R where "R = x smod sint d"
  let ?q = "go_div (k * n) d" and ?r = "go_mod (k * n) d"
  have x: "sint (k * n) = x" using fits by (simp add: x_def sint64_mult)
  have d0: "d \<noteq> 0" "d \<noteq> - 1" using d(1) by auto
  have q: "sint ?q = Q" using d0 by (simp add: go_div_sint Q_def x)
  have r: "sint ?r = R" using d0 by (simp add: go_mod_sint R_def x)
  have split: "x = Q * sint d + R" by (simp add: Q_def R_def sdiv_mult_smod_eq)
  have Rd: "\<bar>R\<bar> < sint d"
    using smod_int_range [of "sint d" x] d0 d(1) by (auto simp: R_def abs_less_iff)
  have two: "sint (2 * ?r) = 2 * R"
  proof -
    have "in64 (2 * R)" using Rd d(2) by (auto simp: in64_def)
    then show ?thesis by (simp add: sint64_mult r)
  qed
  have neg: "sint (- d) = - sint d"
    using d(1) sint64_less [of d] by (simp add: sint64_minus in64_def)
  have parity: "go_mod ?q 2 \<noteq> 0 \<longleftrightarrow> odd Q"
    using go_mod_sint [of 2 ?q] by (simp add: q smod_2_eq_0_iff int64_eq_iff [of _ 0])
  have adj: "sint (?q + 1) = Q + 1 \<and> sint (?q - 1) = Q - 1" if "R \<noteq> 0"
  proof -
    have "2 \<le> sint d" using Rd that by linarith
    then have "2 * \<bar>Q\<bar> \<le> \<bar>x\<bar>" unfolding Q_def by (rule abs_sdiv_half)
    moreover have "\<bar>x\<bar> \<le> 2 ^ 63" using fits by (auto simp: x_def in64_def)
    ultimately have "in64 (Q + 1)" "in64 (Q - 1)" by (auto simp: in64_def)
    then show ?thesis by (simp add: q)
  qed
  define res where "res =
     (if d <s 2 * ?r \<or> 2 * ?r <s - d then (if 0 <s ?r then ?q + 1 else ?q - 1)
      else if 2 * ?r = d \<or> 2 * ?r = - d
      then (if go_mod ?q 2 \<noteq> 0 then (if 0 <s ?r then ?q + 1 else ?q - 1) else ?q)
      else ?q)"
  have "Kobo_Percent k n d = Inr res"
    using d0 fits by (simp add: Kobo_Percent_def Kobo_MulInt_exact res_def Let_def)
  moreover have "sint res =
     (if sint d < 2 * R \<or> 2 * R < - sint d then (if 0 < R then Q + 1 else Q - 1)
      else if 2 * R = sint d \<or> 2 * R = - sint d
      then (if odd Q then (if 0 < R then Q + 1 else Q - 1) else Q) else Q)"
    using adj d(1) unfolding res_def int64_eq_iff [of "2 * ?r"] sless_sint two neg parity r
    by (auto simp: q)
  ultimately show ?thesis
    using truncated_then_adjusted [OF d(1) split Rd] by (auto simp: x_def)
qed

lemma Kobo_Percent_within:
  assumes d: "0 < sint d" "sint d \<le> 2 ^ 62"
    and k: "0 \<le> sint k" and n: "0 \<le> sint n" "sint n \<le> sint d" and fits: "in64 (sint k * sint n)"
  shows "\<exists>q. Kobo_Percent k n d = Inr q \<and> 0 \<le> sint q \<and> sint q \<le> sint k"
proof -
  obtain q where q: "Kobo_Percent k n d = Inr q"
    "rounds_half_even (sint k * sint n) (sint d) (sint q)"
    using Kobo_Percent_rounds [OF d fits] by blast
  have "rounds_half_even (0 * sint d) (sint d) 0"
    "rounds_half_even (sint k * sint d) (sint d) (sint k)"
    using d(1) by (auto simp: rounds_half_even_exact simp del: mult_zero_left)
  moreover have "0 * sint d \<le> sint k * sint n" "sint k * sint n \<le> sint k * sint d"
    using k n by (simp_all add: mult_left_mono)
  ultimately have "0 \<le> sint q" "sint q \<le> sint k"
    using rounds_half_even_mono [OF d(1)] q(2) by blast+
  with q(1) show ?thesis by blast
qed

subsection \<open>Sum\<close>

lemma Kobo_Sum_from_Inr:
  "Kobo_Sum_from a vs = Inr t \<Longrightarrow> sint t = sint a + sum_list (map sint vs)"
  by (induction vs arbitrary: a) (auto simp: go_results)

lemma Kobo_Sum_Inr: "Kobo_Sum vs = Inr t \<Longrightarrow> sint t = sum_list (map sint vs)"
  by (auto simp: Kobo_Sum_def dest: Kobo_Sum_from_Inr)

lemma sum_list_sint_nonneg: "\<forall>v \<in> set vs. 0 \<le> sint v \<Longrightarrow> 0 \<le> sum_list (map sint vs)"
  by (induction vs) auto

lemma Kobo_Sum_from_total:
  assumes "0 \<le> sint a" "\<forall>v \<in> set vs. 0 \<le> sint v" "in64 (sint a + sum_list (map sint vs))"
  shows "\<exists>t. Kobo_Sum_from a vs = Inr t"
  using assms
proof (induction vs arbitrary: a)
  case (Cons v vs)
  have rest: "0 \<le> sum_list (map sint vs)" using Cons.prems(2) by (simp add: sum_list_sint_nonneg)
  then have fits: "in64 (sint a + sint v)" using Cons.prems by (auto simp: in64_def)
  with Cons.prems rest have "\<exists>t. Kobo_Sum_from (a + v) vs = Inr t"
    by (intro Cons.IH) (auto simp: add.assoc)
  with fits show ?case by (simp add: Kobo_Add_exact)
qed simp

subsection \<open>Parsing and printing\<close>

text \<open>The plain decimal spelling of an amount: sign, whole Naira, two fraction digits.\<close>

definition decimal_naira :: "int \<Rightarrow> string" where
  "decimal_naira n =
     (if n < 0 then ''-'' else []) @ format_nat (\<bar>n\<bar> div 100) @ ''.''
       @ [digit_char (\<bar>n\<bar> mod 100 div 10), digit_char (\<bar>n\<bar> mod 10)]"

lemma minus_not_space: "\<not> is_space_byte CHR ''-''"
  by (simp add: is_space_byte_def space_encodings_def)

lemma FromNairaString_digits:
  assumes w: "0 \<le> w" and f: "0 \<le> f" "f < 100" and fits: "w * 100 + f < 2 ^ 63"
  shows "FromNairaString
           ((if neg then ''-'' else []) @ format_nat w @ ''.'' @ [digit_char (f div 10), digit_char (f mod 10)])
         = Inr (word_of_int (if neg then - (w * 100 + f) else w * 100 + f))"
proof -
  let ?ff = "[digit_char (f div 10), digit_char (f mod 10)]"
  let ?u = "format_nat w @ CHR ''.'' # ?ff"
  have trim: "TrimSpace ?u = ?u" "TrimSpace (CHR ''-'' # ?u) = CHR ''-'' # ?u"
    using w f by (auto intro!: TrimSpace_id simp: minus_not_space is_digit_not_space hd_append)
  have hd: "hd (format_nat w) \<noteq> CHR ''-''"
    using is_digit_not_special [OF hd_format_nat [OF w]] by simp
  have dot: "CHR ''.'' \<notin> set (format_nat w)"
    using format_nat_digits [OF w] is_digit_not_special by blast
  have split: "SplitN2 CHR ''.'' ?u = (format_nat w, Some ?ff)"
    using dot by (rule SplitN2_append)
  have pw: "ParseInt (format_nat w) = Some (word_of_int w)"
    using w f fits by (simp add: ParseInt_format_nat in64_def)
  have pf: "ParseInt ?ff = Some (word_of_int f)"
    using f parse_nat_two_digits [of "f div 10" "f mod 10"] by (simp add: ParseInt_digits in64_def)
  have sw: "sint (word_of_int w :: int64) = w" and sf: "sint (word_of_int f :: int64) = f"
    using w f fits by (auto simp: in64_def)
  have "sint (MaxInt64 - word_of_int f) = 2 ^ 63 - 1 - f"
    using f by (subst sint64_sub_exact) (auto simp: sf in64_def)
  then have "sint (go_div (MaxInt64 - word_of_int f) KoboPerNaira) = (2 ^ 63 - 1 - f) div 100"
    using f by (subst go_div_sint) (auto simp: KoboPerNaira_def signed_divide_int_eq_divide_int sgn_if)
  then have ok: "\<not> go_div (MaxInt64 - word_of_int f) KoboPerNaira <s word_of_int w"
    using fits by (simp add: sless_sint sw)
  have total: "word_of_int w * KoboPerNaira + word_of_int f = (word_of_int (w * 100 + f) :: int64)"
    by (simp add: KoboPerNaira_def)
  have "FromNairaString ?u = Inr (word_of_int (w * 100 + f))"
    "FromNairaString (CHR ''-'' # ?u) = Inr (word_of_int (- (w * 100 + f)))"
    unfolding FromNairaString_def trim list.sel Let_def
    by (simp_all add: hd hd_append split pw pf ok total)
  then show ?thesis by simp
qed

lemma sep_groups_filter: "filter (\<lambda>c. c \<noteq> CHR '','') (sep_groups s) = filter (\<lambda>c. c \<noteq> CHR '','') s"
  by (induction s rule: sep_groups.induct) auto

lemma FormatInt_no_comma: "CHR '','' \<notin> set (FormatInt n)"
  using format_nat_digits [of n "CHR '',''"] format_nat_digits [of "- n" "CHR '',''"]
    is_digit_not_special [of "CHR '',''"]
  by (auto simp: FormatInt_def)

lemma withThousandsSep_digits: "filter (\<lambda>c. c \<noteq> CHR '','') (withThousandsSep n) = FormatInt (sint n)"
proof -
  let ?s = "FormatInt (sint n)"
  have keep: "filter (\<lambda>c. c \<noteq> CHR '','') t = t" if "set t \<subseteq> set ?s" for t
    using that FormatInt_no_comma [of "sint n"] by (auto simp: filter_id_conv)
  have "filter (\<lambda>c. c \<noteq> CHR '','') (take m ?s) = take m ?s"
    "filter (\<lambda>c. c \<noteq> CHR '','') (drop m ?s) = drop m ?s" for m
    by (auto intro: keep dest: in_set_takeD in_set_dropD)
  then show ?thesis
    by (auto simp: withThousandsSep_def Let_def sep_groups_filter keep)
qed
lemma Kobo_Sum_from_error: "Kobo_Sum_from a vs = Inl e \<Longrightarrow> e = ErrOverflow"
  by (induction vs arbitrary: a) (auto simp: go_results Kobo_Add_exact split: if_splits)

subsection \<open>Persistence\<close>

lemma Kobo_Scan_Value: "Kobo_Scan (Kobo_Value k) = Inr k"
  by (simp add: Kobo_Value_def)

lemma Kobo_Scan_MarshalJSON:
  "Kobo_Scan (SqlString (Kobo_MarshalJSON k)) = Inr k \<and> Kobo_Scan (SqlBytes (Kobo_MarshalJSON k)) = Inr k"
  by (simp add: Kobo_MarshalJSON_def ParseInt_FormatInt)

subsection \<open>Properties\<close>

text \<open>
  \<open>Add\<close> and \<open>Sub\<close> return the exact integer sum and difference whenever it fits in
  64 bits and \<open>ErrOverflow\<close> in every other case; in particular no wrapped value is ever
  returned, \<open>MinInt64 + MinInt64\<close> (whose wrapped sum is zero) included.
\<close>

theorem add_sub_exact:
  "Kobo_Add a b =
     (if in64 (sint a + sint b) then Inr (word_of_int (sint a + sint b)) else Inl ErrOverflow) \<and>
   Kobo_Sub a b =
     (if in64 (sint a - sint b) then Inr (word_of_int (sint a - sint b)) else Inl ErrOverflow)"
  by (simp add: Kobo_Add_exact Kobo_Sub_exact)

text \<open>
  \<open>MulInt\<close> detects every overflow but one: it returns the exact product when that
  fits, \<open>ErrOverflow\<close> otherwise, except that \<open>MinInt64 * -1\<close> passes the division check
  (Go's \<open>MinInt64 / -1\<close> is \<open>MinInt64\<close>) and returns the wrapped \<open>MinInt64\<close> without error.
\<close>

theorem mul_int_exact:
  "Kobo_MulInt k n =
     (if k = MinInt64 \<and> n = - 1 then Inr MinInt64
      else if in64 (sint k * sint n) then Inr (word_of_int (sint k * sint n))
      else Inl ErrOverflow)"
  by (auto simp: Kobo_MulInt_exact MinInt64_def)

text \<open>
  For a positive denominator of at most \<open>2^62\<close>, \<open>Percent\<close> returns the quotient
  rounded to nearest with ties to even whenever the scaled product fits, and
  \<open>ErrOverflow\<close> when it does not (the one product \<open>MulInt\<close> misses aside). The rounded
  value is unique, so this determines the result.
\<close>

theorem percent_bankers_rounding:
  assumes "0 < sint d" "sint d \<le> 2 ^ 62" "\<not> (k = MinInt64 \<and> n = - 1)"
  shows "if in64 (sint k * sint n)
         then \<exists>!q. Kobo_Percent k n d = Inr q \<and> rounds_half_even (sint k * sint n) (sint d) (sint q)
         else Kobo_Percent k n d = Inl ErrOverflow"
proof (cases "in64 (sint k * sint n)")
  case True
  with Kobo_Percent_rounds [OF assms(1,2)] show ?thesis by auto
next
  case False
  with assms show ?thesis by (auto simp: Kobo_Percent_def Kobo_MulInt_exact)
qed

theorem percent_bankers_rounding_witness:
  "(0 :: int) < sint (100 :: int64) \<and> Kobo_Percent 125 50 100 = Inr 62 \<and>
   (\<exists>!q. Kobo_Percent 125 50 100 = Inr q \<and> rounds_half_even (sint (125 :: int64) * sint (50 :: int64)) 100 (sint q))"
proof -
  have "in64 (sint (125 :: int64) * sint (50 :: int64))" by (simp add: in64_def)
  moreover have "Kobo_Percent 125 50 100 = Inr 62"
    by (simp add: Kobo_Percent_def Kobo_MulInt_def go_div_def go_mod_def)
  ultimately show ?thesis
    using percent_bankers_rounding [of 100 125 50] by (simp add: int64_eq_iff)
qed

text \<open>
  \<open>Sum\<close> over amounts that are not negative (every amount the payroll run and the
  summaries add up) returns the exact mathematical total when it fits in 64 bits and
  \<open>ErrOverflow\<close> otherwise.
\<close>

theorem sum_exact:
  assumes "\<forall>v \<in> set vs. 0 \<le> sint v"
  shows "Kobo_Sum vs =
     (if in64 (sum_list (map sint vs)) then Inr (word_of_int (sum_list (map sint vs)))
      else Inl ErrOverflow)"
proof (cases "Kobo_Sum vs")
  case (Inl e)
  moreover from Inl have "\<not> in64 (sum_list (map sint vs))"
    using Kobo_Sum_from_total [of 0 vs] assms by (auto simp: Kobo_Sum_def)
  ultimately show ?thesis using Kobo_Sum_from_error [of 0 vs e] by (simp add: Kobo_Sum_def)
next
  case (Inr t)
  then have "sint t = sum_list (map sint vs)" by (rule Kobo_Sum_Inr)
  with Inr show ?thesis by (metis sint64_in64 word_of_int_sint64)
qed

theorem sum_exact_witness:
  "Kobo_Sum [150050, 25000] = Inr 175050 \<and> Kobo_Sum [MaxInt64, 1] = Inl ErrOverflow"
  using sum_exact [of "[150050, 25000]"] sum_exact [of "[MaxInt64, 1]"]
  by (simp add: in64_def)

text \<open>
  Every amount except \<open>MinInt64\<close> survives its decimal spelling: \<open>FromNairaString\<close>
  reads the sign, the whole Naira and exactly two fraction digits back to the same
  number of kobo, without rounding and without a spurious overflow.
\<close>

theorem naira_string_roundtrip:
  assumes "k \<noteq> MinInt64"
  shows "FromNairaString (decimal_naira (sint k)) = Inr k"
proof -
  have "sint k \<noteq> sint MinInt64" using assms by (simp only: int64_eq_iff not_False_eq_True)
  then have abs: "\<bar>sint k\<bar> < 2 ^ 63" using sint64_ge [of k] sint64_less [of k] by auto
  let ?w = "\<bar>sint k\<bar> div 100" and ?f = "\<bar>sint k\<bar> mod 100"
  have sum: "?w * 100 + ?f = \<bar>sint k\<bar>" by (rule div_mult_mod_eq)
  have "\<bar>sint k\<bar> mod 10 = ?f mod 10" by (rule mod_mod_cancel [symmetric]) simp
  then have "FromNairaString (decimal_naira (sint k)) =
      FromNairaString ((if sint k < 0 then ''-'' else []) @ format_nat ?w @ ''.''
        @ [digit_char (?f div 10), digit_char (?f mod 10)])"
    by (simp only: decimal_naira_def)
  also have "\<dots> = Inr (word_of_int (if sint k < 0 then - (?w * 100 + ?f) else ?w * 100 + ?f))"
    by (rule FromNairaString_digits)
      (simp_all only: sum abs pos_mod_sign pos_mod_bound pos_imp_zdiv_nonneg_iff abs_ge_zero zero_less_numeral)
  also have "(if sint k < 0 then - (?w * 100 + ?f) else ?w * 100 + ?f) = sint k"
    unfolding sum by simp
  finally show ?thesis by (simp only: word_of_int_sint64)
qed

theorem naira_string_roundtrip_witness:
  "(150050 :: int64) \<noteq> MinInt64 \<and> decimal_naira 150050 = ''1500.50'' \<and>
   FromNairaString ''1500.50'' = Inr 150050"
proof -
  have "(150050 :: int64) \<noteq> MinInt64" by (simp add: int64_eq_iff)
  moreover have "decimal_naira 150050 = ''1500.50''" by code_simp
  ultimately show ?thesis using naira_string_roundtrip [of 150050] by simp
qed

text \<open>
  A second sign slips past the parser, which strips one \<open>-\<close> and hands the rest to
  \<open>strconv.ParseInt\<close>: \<open>--92233720368547759\<close> is accepted with a wrapped amount although
  the comment promises an overflow check on this path, \<open>--5\<close> reads as five Naira and
  a signed fraction such as \<open>1500.+5\<close> as 1500.05.
\<close>

theorem naira_string_second_sign:
  "FromNairaString ''--92233720368547759'' = Inr (- 9223372036854775716) \<and>
   FromNairaString ''--5'' = Inr 500 \<and> FromNairaString ''1500.+5'' = Inr 150005"
  by code_simp

text \<open>
  \<open>withThousandsSep\<close> only inserts commas: dropping them from its output gives
  the decimal digits of the number back, for every \<open>int64\<close>.
\<close>

theorem thousands_sep_digits:
  "ParseInt (filter (\<lambda>c. c \<noteq> CHR '','') (withThousandsSep n)) = Some n"
  by (simp add: withThousandsSep_digits ParseInt_FormatInt)

end
