(* ===== verification/Currency.thy ===== *)
theory Currency
  imports Money
begin

text \<open>
  \<open>pkg/money/currency.go\<close>: currency codes, the minor-unit exponents, and \<open>Money\<close>, an
  amount that carries its currency and refuses to mix. The lemmas show that no
  operation crosses currencies, that the arithmetic is exact, that codes survive the
  database, and that \<open>ParseMoney\<close> and \<open>FromNairaString\<close> are the same parser for Naira.
\<close>

type_synonym Currency = string

definition NGN :: Currency where "NGN = ''NGN''"
definition USD :: Currency where "USD = ''USD''"
definition GHS :: Currency where "GHS = ''GHS''"
definition KES :: Currency where "KES = ''KES''"
definition ZAR :: Currency where "ZAR = ''ZAR''"
definition XOF :: Currency where "XOF = ''XOF''"
definition GBP :: Currency where "GBP = ''GBP''"
definition EUR :: Currency where "EUR = ''EUR''"

lemmas currency_codes = NGN_def USD_def GHS_def KES_def ZAR_def XOF_def GBP_def EUR_def

definition minorUnitExponent :: "(Currency \<times> nat) list" where
  "minorUnitExponent =
     [(NGN, 2), (USD, 2), (GHS, 2), (KES, 2), (ZAR, 2), (GBP, 2), (EUR, 2), (XOF, 0)]"

definition symbols :: "(Currency \<times> string) list" where
  "symbols =
     [(NGN, [CHR 0xE2, CHR 0x82, CHR 0xA6]), (USD, ''$''), (GHS, [CHR 0xE2, CHR 0x82, CHR 0xB5]),
      (KES, ''KSh''), (ZAR, ''R''), (GBP, [CHR 0xC2, CHR 0xA3]),
      (EUR, [CHR 0xE2, CHR 0x82, CHR 0xAC]), (XOF, ''CFA'')]"

subsection \<open>Codes\<close>

definition Currency_IsValid :: "Currency \<Rightarrow> bool" where
  "Currency_IsValid c = (map_of minorUnitExponent c \<noteq> None)"

definition Currency_Exponent :: "Currency \<Rightarrow> nat res" where
  "Currency_Exponent c =
     (case map_of minorUnitExponent c of None \<Rightarrow> Inl ErrUnknownCurrency | Some e \<Rightarrow> Inr e)"

fun scale_loop :: "nat \<Rightarrow> int64 \<Rightarrow> int64" where
  "scale_loop 0 scale = scale"
| "scale_loop (Suc i) scale = scale_loop i (scale * 10)"

definition Currency_Scale :: "Currency \<Rightarrow> int64 res" where
  "Currency_Scale c = rbind (Currency_Exponent c) (\<lambda>e. Inr (scale_loop e 1))"

definition Currency_Symbol :: "Currency \<Rightarrow> string" where
  "Currency_Symbol c = (case map_of symbols c of Some s \<Rightarrow> s | None \<Rightarrow> c)"

definition Currency_String :: "Currency \<Rightarrow> string" where
  "Currency_String c = c"

definition ParseCurrency :: "string \<Rightarrow> Currency res" where
  "ParseCurrency s =
     (let c = ToUpper (TrimSpace s)
      in if \<not> Currency_IsValid c then Inl ErrUnknownCurrency else Inr c)"

definition Currency_Value :: "Currency \<Rightarrow> sql_value res" where
  "Currency_Value c = (if \<not> Currency_IsValid c then Inl ErrUnknownCurrency else Inr (SqlString c))"

fun Currency_Scan :: "sql_value \<Rightarrow> Currency res" where
  "Currency_Scan SqlNull = Inl ErrNullCurrency"
| "Currency_Scan (SqlString v) = ParseCurrency v"
| "Currency_Scan (SqlBytes v) = ParseCurrency v"
| "Currency_Scan _ = Inl ErrScan"

subsection \<open>Money\<close>

record money =
  Minor :: int64
  Curr :: Currency

definition NewMoney :: "int64 \<Rightarrow> Currency \<Rightarrow> money res" where
  "NewMoney minor c =
     (if \<not> Currency_IsValid c then Inl ErrUnknownCurrency
      else Inr \<lparr>Minor = minor, Curr = c\<rparr>)"

definition FromMajor :: "int64 \<Rightarrow> Currency \<Rightarrow> money res" where
  "FromMajor major c =
     rbind (Currency_Scale c) (\<lambda>scale.
       if scale \<noteq> 0 \<and> (go_div MaxInt64 scale <s major \<or> major <s go_div MinInt64 scale)
       then Inl ErrOverflow
       else Inr \<lparr>Minor = major * scale, Curr = c\<rparr>)"

definition NGNFromKobo :: "Kobo \<Rightarrow> money" where
  "NGNFromKobo k = \<lparr>Minor = k, Curr = NGN\<rparr>"

definition KoboIn :: "Currency \<Rightarrow> Kobo \<Rightarrow> money" where
  "KoboIn c k = \<lparr>Minor = k, Curr = c\<rparr>"

definition Money_Kobo :: "money \<Rightarrow> Kobo res" where
  "Money_Kobo m = (if Curr m \<noteq> NGN then Inl ErrCurrencyMismatch else Inr (Minor m))"

definition assertSame :: "money \<Rightarrow> money \<Rightarrow> unit res" where
  "assertSame m other = (if Curr m \<noteq> Curr other then Inl ErrCurrencyMismatch else Inr ())"

definition Money_Add :: "money \<Rightarrow> money \<Rightarrow> money res" where
  "Money_Add m other =
     rbind (assertSame m other) (\<lambda>_.
       let result = Minor m + Minor other
       in if (0 <s Minor other \<and> result <s Minor m) \<or> (Minor other <s 0 \<and> Minor m <s result)
          then Inl ErrOverflow
          else Inr \<lparr>Minor = result, Curr = Curr m\<rparr>)"

definition Money_Sub :: "money \<Rightarrow> money \<Rightarrow> money res" where
  "Money_Sub m other =
     rbind (assertSame m other) (\<lambda>_.
       let result = Minor m - Minor other
       in if (Minor other <s 0 \<and> result <s Minor m) \<or> (0 <s Minor other \<and> Minor m <s result)
          then Inl ErrOverflow
          else Inr \<lparr>Minor = result, Curr = Curr m\<rparr>)"

definition Money_Percent :: "money \<Rightarrow> int64 \<Rightarrow> int64 \<Rightarrow> money res" where
  "Money_Percent m numerator denominator =
     rbind (Kobo_Percent (Minor m) numerator denominator) (\<lambda>k.
       Inr \<lparr>Minor = k, Curr = Curr m\<rparr>)"

definition Money_Compare :: "money \<Rightarrow> money \<Rightarrow> int res" where
  "Money_Compare m other =
     rbind (assertSame m other) (\<lambda>_.
       if Minor m <s Minor other then Inr (- 1)
       else if Minor other <s Minor m then Inr 1
       else Inr 0)"

definition Money_IsZero :: "money \<Rightarrow> bool" where
  [go_simps]: "Money_IsZero m \<longleftrightarrow> Minor m = 0"

definition Money_IsPositive :: "money \<Rightarrow> bool" where
  [go_simps]: "Money_IsPositive m \<longleftrightarrow> 0 <s Minor m"

definition Money_IsNegative :: "money \<Rightarrow> bool" where
  [go_simps]: "Money_IsNegative m \<longleftrightarrow> Minor m <s 0"

definition Money_String :: "money \<Rightarrow> string" where
  "Money_String m =
     (case Currency_Exponent (Curr m) of
        Inl _ \<Rightarrow> FormatInt (sint (Minor m)) @ '' '' @ Curr m
      | Inr exp \<Rightarrow>
          (let scale = (case Currency_Scale (Curr m) of Inl _ \<Rightarrow> 0 | Inr s \<Rightarrow> s);
               negative = (Minor m <s 0);
               abs = (if negative then - Minor m else Minor m);
               sign = (if negative then ''-'' else [])
           in if exp = 0 then sign @ Currency_Symbol (Curr m) @ withThousandsSep abs
              else sign @ Currency_Symbol (Curr m) @ withThousandsSep (go_div abs scale)
                     @ ''.'' @ pad_zero exp (sint (go_mod abs scale))))"

fun SumMoney_from :: "money \<Rightarrow> money list \<Rightarrow> money res" where
  "SumMoney_from tot [] = Inr tot"
| "SumMoney_from tot (v # vs) = rbind (Money_Add tot v) (\<lambda>next. SumMoney_from next vs)"

definition SumMoney :: "money list \<Rightarrow> Currency \<Rightarrow> money res" where
  "SumMoney values expected =
     (if \<not> Currency_IsValid expected then Inl ErrUnknownCurrency
      else SumMoney_from \<lparr>Minor = 0, Curr = expected\<rparr> values)"

text \<open>The padding loop \<open>for len(frac) < exp\<close>.\<close>

definition pad_fraction :: "nat \<Rightarrow> string \<Rightarrow> string" where
  "pad_fraction exp frac = frac @ replicate (exp - length frac) CHR ''0''"

definition ParseMoney :: "string \<Rightarrow> Currency \<Rightarrow> money res" where
  "ParseMoney s0 c =
     rbind (Currency_Exponent c) (\<lambda>exp.
       let s = TrimSpace s0
       in if s = [] then Inl ErrInvalidFormat
       else
         (let negative = (hd s = CHR ''-'');
              s = (if negative then tl s else s);
              (whole_s, frac_s) = SplitN2 CHR ''.'' s
          in case ParseInt whole_s of
               None \<Rightarrow> Inl ErrInvalidFormat
             | Some whole \<Rightarrow>
                 rbind
                   (case frac_s of
                      None \<Rightarrow> Inr 0
                    | Some frac \<Rightarrow>
                        if exp = 0 then Inl ErrInvalidFormat
                        else if length frac = 0 \<or> length frac > exp then Inl ErrInvalidFormat
                        else
                          (case ParseInt (pad_fraction exp frac) of
                             None \<Rightarrow> Inl ErrInvalidFormat
                           | Some f \<Rightarrow> Inr f))
                   (\<lambda>fraction.
                      let scale = (case Currency_Scale c of Inl _ \<Rightarrow> 0 | Inr sc \<Rightarrow> sc)
                      in if scale \<noteq> 0 \<and> go_div (MaxInt64 - fraction) scale <s whole
                         then Inl ErrOverflow
                         else
                           (let total = whole * scale + fraction
                            in Inr \<lparr>Minor = (if negative then - total else total), Curr = c\<rparr>))))"

subsection \<open>Library\<close>

lemma Currency_IsValid_iff:
  "Currency_IsValid c \<longleftrightarrow> c \<in> {NGN, USD, GHS, KES, ZAR, GBP, EUR, XOF}"
  by (auto simp: Currency_IsValid_def minorUnitExponent_def currency_codes split: if_splits)

lemma Currency_Exponent_Inr:
  "Currency_Exponent c = Inr e \<longleftrightarrow> Currency_IsValid c \<and> e = (if c = XOF then 0 else 2)"
  by (auto simp: Currency_Exponent_def Currency_IsValid_def minorUnitExponent_def currency_codes
      split: if_splits)

lemma Currency_Scale_Inr:
  "Currency_Scale c = Inr s \<longleftrightarrow> Currency_IsValid c \<and> s = (if c = XOF then 1 else 100)"
  by (auto simp: Currency_Scale_def go_results Currency_Exponent_Inr numeral_2_eq_2)

lemma Currency_invalid [simp]:
  "\<not> Currency_IsValid c \<Longrightarrow> Currency_Exponent c = Inl ErrUnknownCurrency"
  "\<not> Currency_IsValid c \<Longrightarrow> Currency_Scale c = Inl ErrUnknownCurrency"
  by (simp_all add: Currency_Scale_def Currency_Exponent_def Currency_IsValid_def)

lemma Currency_valid_codes [simp]:
  "Currency_IsValid NGN" "Currency_IsValid USD" "Currency_IsValid GHS" "Currency_IsValid KES"
  "Currency_IsValid ZAR" "Currency_IsValid XOF" "Currency_IsValid GBP" "Currency_IsValid EUR"
  by (simp_all add: Currency_IsValid_iff)

lemma NGN_not_XOF [simp]: "NGN \<noteq> XOF"
  by (simp add: currency_codes)

lemma Money_Add_Kobo:
  "Money_Add m other =
     (if Curr m \<noteq> Curr other then Inl ErrCurrencyMismatch
      else rbind (Kobo_Add (Minor m) (Minor other)) (\<lambda>k. Inr (KoboIn (Curr m) k)))"
  by (simp add: Money_Add_def assertSame_def Kobo_Add_def KoboIn_def Let_def)

lemma Money_Sub_Kobo:
  "Money_Sub m other =
     (if Curr m \<noteq> Curr other then Inl ErrCurrencyMismatch
      else rbind (Kobo_Sub (Minor m) (Minor other)) (\<lambda>k. Inr (KoboIn (Curr m) k)))"
  by (simp add: Money_Sub_def assertSame_def Kobo_Sub_def KoboIn_def Let_def)

lemma Money_Add_Inr [go_results]:
  "Money_Add a b = Inr c \<longleftrightarrow>
     Curr a = Curr b \<and> Curr c = Curr a \<and> sint (Minor c) = sint (Minor a) + sint (Minor b)"
  by (cases c) (auto simp: Money_Add_Kobo go_results KoboIn_def int64_eq_iff)

lemma SumMoney_from_Inr:
  "SumMoney_from a vs = Inr t \<Longrightarrow>
     Curr t = Curr a \<and> (\<forall>v \<in> set vs. Curr v = Curr a) \<and>
     sint (Minor t) = sint (Minor a) + sum_list (map (\<lambda>v. sint (Minor v)) vs)"
  by (induction vs arbitrary: a) (auto simp: go_results)

lemma pad_fraction_2:
  "frac \<noteq> [] \<Longrightarrow> \<not> 2 < length frac \<Longrightarrow>
     pad_fraction 2 frac = (if length frac = 1 then frac @ ''0'' else frac)"
  by (cases "length frac = 1"; cases "length frac = 2")
    (auto simp: pad_fraction_def neq_Nil_conv)

subsection \<open>Properties\<close>

text \<open>
  \<open>Money.Add\<close> and \<open>Money.Sub\<close> never mix currencies: two different currencies give
  \<open>ErrCurrencyMismatch\<close>; otherwise the result carries the common currency and the exact
  sum or difference, or the call reports \<open>ErrOverflow\<close>.
\<close>

theorem money_add_sub_safe:
  "(Curr a \<noteq> Curr b \<longrightarrow>
      Money_Add a b = Inl ErrCurrencyMismatch \<and> Money_Sub a b = Inl ErrCurrencyMismatch) \<and>
   (Curr a = Curr b \<longrightarrow>
      Money_Add a b =
        (if in64 (sint (Minor a) + sint (Minor b))
         then Inr \<lparr>Minor = word_of_int (sint (Minor a) + sint (Minor b)), Curr = Curr a\<rparr>
         else Inl ErrOverflow) \<and>
      Money_Sub a b =
        (if in64 (sint (Minor a) - sint (Minor b))
         then Inr \<lparr>Minor = word_of_int (sint (Minor a) - sint (Minor b)), Curr = Curr a\<rparr>
         else Inl ErrOverflow))"
  by (simp add: Money_Add_Kobo Money_Sub_Kobo Kobo_Add_exact Kobo_Sub_exact KoboIn_def)

theorem money_add_sub_safe_witness:
  "Money_Add \<lparr>Minor = 5, Curr = NGN\<rparr> \<lparr>Minor = 5, Curr = USD\<rparr> = Inl ErrCurrencyMismatch \<and>
   Money_Add \<lparr>Minor = 5, Curr = NGN\<rparr> \<lparr>Minor = 7, Curr = NGN\<rparr> = Inr \<lparr>Minor = 12, Curr = NGN\<rparr>"
  using money_add_sub_safe [of "\<lparr>Minor = 5, Curr = NGN\<rparr>" "\<lparr>Minor = 5, Curr = USD\<rparr>"]
    money_add_sub_safe [of "\<lparr>Minor = 5, Curr = NGN\<rparr>" "\<lparr>Minor = 7, Curr = NGN\<rparr>"]
  by (simp add: currency_codes in64_def)

text \<open>
  \<open>SumMoney\<close> folds a slice only when every value is in the expected, supported
  currency, and then returns the exact total in that currency.
\<close>

theorem sum_money_sound:
  assumes "SumMoney vs c = Inr t"
  shows "Currency_IsValid c \<and> Curr t = c \<and> (\<forall>v \<in> set vs. Curr v = c) \<and>
         sint (Minor t) = sum_list (map (\<lambda>v. sint (Minor v)) vs)"
  using assms SumMoney_from_Inr [of "\<lparr>Minor = 0, Curr = c\<rparr>" vs t]
  by (auto simp: SumMoney_def split: if_splits)

theorem sum_money_sound_witness:
  "SumMoney [KoboIn NGN 5, KoboIn NGN 7] NGN = Inr (KoboIn NGN 12) \<and>
   sint (Minor (KoboIn NGN 12)) = sum_list (map (\<lambda>v. sint (Minor v)) [KoboIn NGN 5, KoboIn NGN 7])"
proof -
  have run: "SumMoney [KoboIn NGN 5, KoboIn NGN 7] NGN = Inr (KoboIn NGN 12)"
    by (simp add: SumMoney_def Money_Add_Kobo Kobo_Add_exact KoboIn_def in64_def)
  with sum_money_sound [OF run] show ?thesis by blast
qed

text \<open>
  \<open>ParseMoney\<close> in Naira and \<open>FromNairaString\<close> are one parser: on every input
  they accept the same strings, with the same amount, and report the same error.
\<close>

theorem parse_money_ngn_is_from_naira:
  "ParseMoney s NGN = rbind (FromNairaString s) (\<lambda>k. Inr (NGNFromKobo k))"
proof -
  have ngn: "Currency_Exponent NGN = Inr 2" "Currency_Scale NGN = Inr 100"
    by (simp_all add: Currency_Exponent_Inr Currency_Scale_Inr)
  show ?thesis
    by (simp add: ParseMoney_def FromNairaString_def ngn Let_def KoboPerNaira_def NGNFromKobo_def
        pad_fraction_2 split: option.split prod.split)
qed

text \<open>
  A valid currency code written by \<open>Value\<close> is read back by \<open>Scan\<close> unchanged, from
  a text or a byte column; nothing else is ever written, and whatever \<open>Scan\<close> accepts is
  a supported code.
\<close>

theorem currency_persistence:
  "(Currency_Value c = Inr v \<longrightarrow>
      v = SqlString c \<and> Currency_Scan v = Inr c \<and> Currency_Scan (SqlBytes c) = Inr c) \<and>
   (Currency_Scan w = Inr d \<longrightarrow> Currency_IsValid d)"
proof -
  have "ParseCurrency c = Inr c" if "Currency_IsValid c"
  proof -
    from that have "TrimSpace c = c \<and> ToUpper c = c"
      unfolding Currency_IsValid_iff currency_codes
      by (elim insertE emptyE; hypsubst; intro conjI TrimSpace_id)
        (simp_all add: is_space_byte_def space_encodings_def to_upper_byte_def)
    with that show ?thesis by (simp add: ParseCurrency_def)
  qed
  moreover have "Currency_IsValid d" if "ParseCurrency s = Inr d" for s
    using that by (auto simp: ParseCurrency_def Let_def split: if_splits)
  ultimately show ?thesis
    by (cases w) (auto simp: Currency_Value_def split: if_splits)
qed

theorem currency_persistence_witness:
  "Currency_Value XOF = Inr (SqlString XOF) \<and> Currency_Scan (SqlString XOF) = Inr XOF"
  using currency_persistence [of XOF "SqlString XOF" "SqlString XOF" XOF]
  by (simp add: Currency_Value_def)

end
