(* ===== verification/Store.thy ===== *)
theory Store
  imports Currency "HOL-Library.Product_Lexorder" "HOL-Library.List_Lexorder" "HOL-Library.Char_ord"
begin

text \<open>
  The storage the services run on. A table is a list of rows in insertion order; the
  statements of the sources become list operations (\<open>WHERE\<close> a filter, \<open>UPDATE\<close> a
  conditional map, \<open>INSERT\<close> an append that fails on a duplicate primary key). A
  transaction body is a function from the state to an error or a result with the new
  state; \<open>WithOrgScope\<close> keeps the old state on an error, which is the rollback.
  Instants are nanoseconds since 1970 (UTC). The random UUIDs are a stream in the
  state: \<open>uuids\<close> is the generator's output, \<open>uuid_next\<close> how much of it is used.

  The compare-and-swap status update that every state machine of the program uses is
  the locale \<open>cas_transition\<close>.
\<close>

type_synonym time = int

definition ZeroTime :: time where
  "ZeroTime = - 62135596800 * 10 ^ 9"

definition Hour :: int where
  "Hour = 3600 * 10 ^ 9"

subsection \<open>Tables\<close>

definition update_where :: "('r \<Rightarrow> bool) \<Rightarrow> ('r \<Rightarrow> 'r) \<Rightarrow> 'r list \<Rightarrow> 'r list" where
  "update_where P f rows = map (\<lambda>r. if P r then f r else r) rows"

definition count_where :: "('r \<Rightarrow> bool) \<Rightarrow> 'r list \<Rightarrow> nat" where
  "count_where P rows = length (filter P rows)"

definition find_row :: "('r \<Rightarrow> bool) \<Rightarrow> 'r list \<Rightarrow> 'r res" where
  "find_row P rows = (case find P rows of None \<Rightarrow> Inl ErrRecordNotFound | Some r \<Rightarrow> Inr r)"

text \<open>\<open>ORDER BY key\<close> and \<open>First\<close>: the least row that matches.\<close>

definition first_by :: "('r \<Rightarrow> 'k::linorder) \<Rightarrow> ('r \<Rightarrow> bool) \<Rightarrow> 'r list \<Rightarrow> 'r res" where
  "first_by key P rows =
     (case sort_key key (filter P rows) of [] \<Rightarrow> Inl ErrRecordNotFound | r # _ \<Rightarrow> Inr r)"

definition insert_row :: "('r \<Rightarrow> string) \<Rightarrow> 'r \<Rightarrow> 'r list \<Rightarrow> 'r list res" where
  "insert_row pk r rows =
     (if pk r \<in> set (map pk rows) then Inl ErrUniqueViolation else Inr (rows @ [r]))"

lemma length_update_where [simp]: "length (update_where P f rows) = length rows"
  by (simp add: update_where_def)

lemma update_where_Nil [simp]: "update_where P f [] = []"
  by (simp add: update_where_def)

lemma update_where_Cons [simp]:
  "update_where P f (r # rows) = (if P r then f r else r) # update_where P f rows"
  by (simp add: update_where_def)

lemma update_where_none: "count_where P rows = 0 \<Longrightarrow> update_where P f rows = rows"
  by (induction rows) (auto simp: count_where_def split: if_splits)

lemma nth_update_where:
  "i < length rows \<Longrightarrow> update_where P f rows ! i = (if P (rows ! i) then f (rows ! i) else rows ! i)"
  by (simp add: update_where_def)

lemma map_update_where_same:
  "(\<And>r. P r \<Longrightarrow> g (f r) = g r) \<Longrightarrow> map g (update_where P f rows) = map g rows"
  by (induction rows) auto

lemma in_update_where:
  "r' \<in> set (update_where P f rows) \<longleftrightarrow>
     (\<exists>r \<in> set rows. r' = (if P r then f r else r))"
  by (auto simp: update_where_def)

lemma update_where_cong:
  "(\<And>r. r \<in> set rows \<Longrightarrow> P r = Q r) \<Longrightarrow> update_where P f rows = update_where Q f rows"
  by (induction rows) auto

lemma count_where_Cons: "count_where P (r # rows) = (if P r then 1 else 0) + count_where P rows"
  by (simp add: count_where_def)

lemma count_where_Nil [simp]: "count_where P [] = 0"
  by (simp add: count_where_def)

lemma count_where_append [simp]: "count_where P (xs @ ys) = count_where P xs + count_where P ys"
  by (simp add: count_where_def)

lemma count_where_eq_0_iff: "count_where P rows = 0 \<longleftrightarrow> (\<forall>r \<in> set rows. \<not> P r)"
  by (auto simp: count_where_def filter_empty_conv)

text \<open>An update pinned to a primary key changes one row, so a sum over the table by one term.\<close>

lemma sum_update_key:
  fixes g :: "'r \<Rightarrow> int"
  assumes "distinct (map pk rows)" "r \<in> set rows" "\<And>r'. P r' \<Longrightarrow> pk r' = pk r" "P r"
  shows "sum_list (map g (update_where P f rows)) = sum_list (map g rows) - g r + g (f r)"
  using assms(1,2)
proof (induction rows)
  case (Cons a rows)
  show ?case
  proof (cases "a = r")
    case True
    then have "\<forall>r' \<in> set rows. \<not> P r'" using Cons.prems(1) assms(3) by (auto simp: image_iff)
    then have "update_where P f rows = rows" by (auto intro: update_where_none simp: count_where_eq_0_iff)
    then show ?thesis using True assms(4) by simp
  next
    case False
    then have "r \<in> set rows" using Cons.prems by simp
    moreover have "\<not> P a" using Cons.prems(1) assms(3) calculation by (auto simp: image_iff)
    ultimately show ?thesis using Cons by simp
  qed
qed simp

lemma in_update_key:
  assumes "distinct (map pk rows)" "a \<in> set rows"
  shows "r' \<in> set (update_where (\<lambda>r. pk r = pk a) f rows) \<longleftrightarrow> r' = f a \<or> (r' \<in> set rows \<and> pk r' \<noteq> pk a)"
proof -
  have "r = a" if "r \<in> set rows" "pk r = pk a" for r
    using assms that by (simp add: distinct_map inj_on_def)
  then show ?thesis using assms(2) unfolding in_update_where by metis
qed

lemma count_update_where_none:
  "(\<And>r. \<not> P (f r)) \<Longrightarrow> count_where P (update_where P f rows) = 0"
  by (induction rows) (auto simp: count_where_Cons)

lemma find_row_Inr:
  "find_row P rows = Inr r \<Longrightarrow> P r \<and> r \<in> set rows"
  by (auto simp: find_row_def find_Some_iff split: option.splits)

lemma find_row_exists: "r \<in> set rows \<Longrightarrow> P r \<Longrightarrow> \<exists>q. find_row P rows = Inr q"
  by (cases "find P rows") (auto simp: find_row_def find_None_iff)

lemma find_row_Inl:
  "find_row P rows = Inl e \<longleftrightarrow> e = ErrRecordNotFound \<and> (\<forall>r \<in> set rows. \<not> P r)"
  by (auto simp: find_row_def find_None_iff find_Some_iff split: option.splits)

lemma first_by_Inr:
  assumes "first_by key P rows = Inr r"
  shows "P r \<and> r \<in> set rows \<and> (\<forall>r' \<in> set rows. P r' \<longrightarrow> key r \<le> key r')"
proof -
  obtain rs where rs: "sort_key key (filter P rows) = r # rs"
    using assms by (auto simp: first_by_def split: list.splits)
  have "sorted (map key (r # rs))" using sorted_sort_key [of key "filter P rows"] rs by simp
  moreover have "set (r # rs) = set (filter P rows)" using set_sort [of key "filter P rows"] rs by simp
  ultimately show ?thesis by auto
qed

lemma first_by_Inl:
  "first_by key P rows = Inl e \<longleftrightarrow> e = ErrRecordNotFound \<and> (\<forall>r \<in> set rows. \<not> P r)"
proof -
  have "sort_key key (filter P rows) = [] \<longleftrightarrow> (\<forall>r \<in> set rows. \<not> P r)"
    by (metis filter_empty_conv set_empty set_sort)
  then show ?thesis by (auto simp: first_by_def split: list.splits)
qed

lemma first_by_unique:
  assumes "r \<in> set rows" "P r" "\<And>r'. r' \<in> set rows \<Longrightarrow> P r' \<Longrightarrow> r' \<noteq> r \<Longrightarrow> key r < key r'"
  shows "first_by key P rows = Inr r"
proof (cases "first_by key P rows")
  case (Inl e) then show ?thesis using assms by (auto simp: first_by_Inl)
next
  case (Inr r0) then show ?thesis using assms first_by_Inr [OF Inr] by (metis leD)
qed

lemma insert_row_Inr [go_results]:
  "insert_row pk r rows = Inr rows' \<longleftrightarrow> pk r \<notin> set (map pk rows) \<and> rows' = rows @ [r]"
  by (auto simp: insert_row_def)

lemma insert_row_distinct:
  "insert_row pk r rows = Inr rows' \<Longrightarrow> distinct (map pk rows) \<Longrightarrow> distinct (map pk rows')"
  by (auto simp: insert_row_Inr)

subsection \<open>Compare-and-swap status updates\<close>

text \<open>
  \<open>TransitionStatus\<close>, \<open>TransitionAdvance\<close> and \<open>TransitionTimeEntry\<close> share one contract:
  refuse an edge that is not on the graph, then \<open>UPDATE ... WHERE id = ? AND status = ?\<close>,
  and report \<open>ErrStaleStatus\<close> when no row matched. \<open>stamp\<close> is the row after the
  \<open>SET\<close> clause.
\<close>

locale cas_transition =
  fixes can :: "'s \<Rightarrow> 's \<Rightarrow> bool"
    and rid :: "'r \<Rightarrow> string"
    and status :: "'r \<Rightarrow> 's"
    and stamp :: "'s \<Rightarrow> 'r \<Rightarrow> 'r"
    and cas :: "'r list \<Rightarrow> string \<Rightarrow> 's \<Rightarrow> 's \<Rightarrow> 'r list res"
  assumes cas_spec: "cas rows i cur nxt =
      (if \<not> can cur nxt then Inl ErrInvalidTransition
       else if count_where (\<lambda>r. rid r = i \<and> status r = cur) rows = 0 then Inl ErrStaleStatus
       else Inr (update_where (\<lambda>r. rid r = i \<and> status r = cur) (stamp nxt) rows))"
    and stamp_status: "status (stamp nxt r) = nxt"
    and stamp_rid: "rid (stamp nxt r) = rid r"
    and can_irrefl: "\<not> can s s"
begin

lemma cas_Inr_iff:
  "cas rows i cur nxt = Inr rows' \<longleftrightarrow>
     can cur nxt \<and> (\<exists>r \<in> set rows. rid r = i \<and> status r = cur) \<and>
     rows' = update_where (\<lambda>r. rid r = i \<and> status r = cur) (stamp nxt) rows"
  by (auto simp: cas_spec count_where_eq_0_iff)

lemma cas_Inl_cases:
  "cas rows i cur nxt = Inl e \<Longrightarrow> e = ErrInvalidTransition \<or> e = ErrStaleStatus"
  by (auto simp: cas_spec split: if_splits)

lemma cas_ids: "cas rows i cur nxt = Inr rows' \<Longrightarrow> map rid rows' = map rid rows"
  by (auto simp: cas_Inr_iff stamp_rid intro: map_update_where_same)

text \<open>Every row either is untouched or took exactly the edge that was asked for.\<close>

lemma cas_step:
  "cas rows i cur nxt = Inr rows' \<Longrightarrow> k < length rows \<Longrightarrow>
     rows' ! k = rows ! k \<or>
     (can (status (rows ! k)) (status (rows' ! k)) \<and> rid (rows ! k) = i)"
  by (auto simp: cas_Inr_iff nth_update_where stamp_status)

text \<open>A second writer that expects the same status loses.\<close>

lemma cas_second_writer_stale:
  assumes "cas rows i cur nxt = Inr rows'" "can cur nxt'"
  shows "cas rows' i cur nxt' = Inl ErrStaleStatus"
proof -
  have ne: "nxt \<noteq> cur" and eq: "rows' = update_where (\<lambda>r. rid r = i \<and> status r = cur) (stamp nxt) rows"
    using assms(1) can_irrefl by (auto simp: cas_Inr_iff)
  have "\<not> (rid r = i \<and> status r = cur)" if r: "r \<in> set rows'" for r
  proof -
    obtain r0 where "r = (if rid r0 = i \<and> status r0 = cur then stamp nxt r0 else r0)"
      using r [unfolded eq in_update_where] by (elim bexE)
    then show ?thesis using ne stamp_status [of nxt r0] by (cases "rid r0 = i \<and> status r0 = cur") auto
  qed
  then show ?thesis using assms(2) by (auto simp: cas_spec count_where_eq_0_iff)
qed

lemma cas_terminal_kept:
  assumes "cas rows i cur nxt = Inr rows'" "k < length rows" "\<And>s. \<not> can (status (rows ! k)) s"
  shows "rows' ! k = rows ! k"
  using cas_step [OF assms(1,2)] assms(3) by blast

end

subsection \<open>The shared part of the database and the audit log\<close>

record AuditEvent =
  aud_id :: string
  aud_org :: string
  aud_entity_type :: string
  aud_entity_id :: string
  aud_action :: string
  aud_before :: string
  aud_after :: string
  aud_ip :: string
  aud_key :: string

record base_db =
  uuids :: "nat \<Rightarrow> string"
  uuid_next :: nat
  audit_events :: "AuditEvent list"

text \<open>A generator output for the concrete states of the witnesses.\<close>

definition demo_uuids :: "nat \<Rightarrow> string" where
  "demo_uuids n = [''00000000'', ''11111111'', ''22222222'', ''33333333'', ''44444444'', ''55555555'',
     ''66666666'', ''77777777'', ''88888888'', ''99999999'', ''aaaaaaaa'', ''bbbbbbbb''] ! n"

text \<open>The \<open>BeforeCreate\<close> hooks: a prefix and the first eight characters of a UUID.\<close>

definition fresh_id :: "string \<Rightarrow> ('z base_db_scheme) \<Rightarrow> string" where
  "fresh_id pre db = pre @ take 8 (uuids db (uuid_next db))"

definition take_uuid :: "('z base_db_scheme) \<Rightarrow> ('z base_db_scheme)" where
  "take_uuid db = db\<lparr>uuid_next := Suc (uuid_next db)\<rparr>"

definition AuditEvent_BeforeCreate :: "('z base_db_scheme) \<Rightarrow> AuditEvent \<Rightarrow> AuditEvent" where
  "AuditEvent_BeforeCreate db a =
     (if aud_id a = [] then a\<lparr>aud_id := fresh_id ''AUD-'' db\<rparr> else a)"

definition appendAuditOn ::
  "('z base_db_scheme) \<Rightarrow> string \<Rightarrow> string \<Rightarrow> string \<Rightarrow> string \<Rightarrow> string \<Rightarrow> string \<Rightarrow> string \<Rightarrow> string
     \<Rightarrow> ('z base_db_scheme) res" where
  "appendAuditOn db orgID entityType entityID action before after actorIP actorKey =
     (let a = AuditEvent_BeforeCreate db
                \<lparr>aud_id = [], aud_org = orgID, aud_entity_type = entityType,
                 aud_entity_id = entityID, aud_action = action, aud_before = before,
                 aud_after = after, aud_ip = actorIP, aud_key = actorKey\<rparr>
      in rbind (insert_row aud_id a (audit_events db)) (\<lambda>rows.
           Inr ((take_uuid db)\<lparr>audit_events := rows\<rparr>)))"

definition AppendAuditTx ::
  "('z base_db_scheme) \<Rightarrow> string \<Rightarrow> string \<Rightarrow> string \<Rightarrow> string \<Rightarrow> string \<Rightarrow> string \<Rightarrow> string \<Rightarrow> string
     \<Rightarrow> ('z base_db_scheme) res" where
  "AppendAuditTx db orgID entityType entityID action before after actorIP actorKey =
     appendAuditOn db orgID entityType entityID action before after actorIP actorKey"

text \<open>
  \<open>WithOrgScope\<close>: run the body in a transaction; an error rolls every write back. The
  row-level-security filter it installs is the \<open>orgID\<close> argument of the bodies.
\<close>

definition WithOrgScope :: "'db \<Rightarrow> ('db \<Rightarrow> ('a \<times> 'db) res) \<Rightarrow> 'a res \<times> 'db" where
  "WithOrgScope db fn =
     (case fn db of Inl e \<Rightarrow> (Inl e, db) | Inr (x, db') \<Rightarrow> (Inr x, db'))"

lemma WithOrgScope_rollback [simp]: "fn db = Inl e \<Longrightarrow> WithOrgScope db fn = (Inl e, db)"
  by (simp add: WithOrgScope_def)

lemma WithOrgScope_commit [simp]: "fn db = Inr (x, db') \<Longrightarrow> WithOrgScope db fn = (Inr x, db')"
  by (simp add: WithOrgScope_def)

lemma take_uuid_simps [simp]:
  "uuids (take_uuid db) = uuids db" "uuid_next (take_uuid db) = Suc (uuid_next db)"
  "audit_events (take_uuid db) = audit_events db" "base_db.more (take_uuid db) = base_db.more db"
  by (simp_all add: take_uuid_def)

text \<open>
  Appending to the log changes nothing but the log and the UUID stream, in whatever
  extension of the record the caller works on.
\<close>

lemma AppendAuditTx_Inr:
  "AppendAuditTx db o1 et ei ac be af ip ky = Inr db' \<Longrightarrow>
     (\<exists>a. db' = db\<lparr>uuid_next := Suc (uuid_next db), audit_events := audit_events db @ [a]\<rparr> \<and>
          aud_org a = o1 \<and> aud_entity_type a = et \<and> aud_entity_id a = ei \<and> aud_action a = ac \<and>
          aud_before a = be \<and> aud_after a = af \<and> aud_ip a = ip \<and> aud_key a = ky)"
  by (auto simp: AppendAuditTx_def appendAuditOn_def Let_def go_results AuditEvent_BeforeCreate_def
      take_uuid_def)

end
