(* ===== verification/Calendar.thy ===== *)
theory Calendar
  imports Store
begin

text \<open>
  The calendar the services compute with: Go's \<open>time\<close> package in UTC, on instants in
  nanoseconds since 1970. Months are counted by one index (twelve times the year plus the
  month from zero), which is what \<open>time.Date\<close> and \<open>AddDate\<close> normalise to; a day is its
  number since 1970. The theory holds the civil date of an instant, \<open>Date\<close>, \<open>AddDate\<close>,
  \<open>Weekday\<close>, \<open>ISOWeek\<close> and the payroll period \<open>2006-01\<close> with its parser.
\<close>

definition Day :: int where
  "Day = 24 * Hour"

definition is_leap :: "int \<Rightarrow> bool" where
  "is_leap y \<longleftrightarrow> 4 dvd y \<and> (\<not> 100 dvd y \<or> 400 dvd y)"

text \<open>The number of 1 January of a year, counted in days since 1970.\<close>

definition jan1 :: "int \<Rightarrow> int" where
  "jan1 y = 365 * (y - 1970) + (y - 1) div 4 - (y - 1) div 100 + (y - 1) div 400 - 477"

definition month_offsets :: "int list" where
  "month_offsets = [0, 31, 59, 90, 120, 151, 181, 212, 243, 273, 304, 334]"

definition days_before :: "bool \<Rightarrow> int \<Rightarrow> int" where
  "days_before leap m = month_offsets ! nat m + (if leap \<and> 2 \<le> m then 1 else 0)"

text \<open>The first day of the month with a given index.\<close>

definition month_start :: "int \<Rightarrow> int" where
  "month_start n = jan1 (n div 12) + days_before (is_leap (n div 12)) (n mod 12)"

definition year_of_day :: "int \<Rightarrow> int" where
  "year_of_day z =
     (let y = 1970 + (400 * z) div 146097
      in if z < jan1 y then y - 1 else if jan1 (y + 1) \<le> z then y + 1 else y)"

primrec scan_month :: "bool \<Rightarrow> int \<Rightarrow> nat \<Rightarrow> int" where
  "scan_month leap d 0 = 0"
| "scan_month leap d (Suc k) = (if days_before leap (int (Suc k)) \<le> d then int (Suc k) else scan_month leap d k)"

definition month_in_year :: "bool \<Rightarrow> int \<Rightarrow> int" where
  "month_in_year leap d = scan_month leap d 11"

definition month_of_day :: "int \<Rightarrow> int" where
  "month_of_day z = (let y = year_of_day z in 12 * y + month_in_year (is_leap y) (z - jan1 y))"

text \<open>
  Evaluation starts only on a numeral: the equations match the constructors of the integers, so
  that a run is not unfolded for an instant that is still a variable.
\<close>

definition month_of_day_at :: "int \<Rightarrow> int" where
  "month_of_day_at z = (let y = year_of_day z in 12 * y + month_in_year (is_leap y) (z - jan1 y))"

lemma month_of_day_code [code]:
  "month_of_day 0 = month_of_day_at 0"
  "month_of_day (Int.Pos k) = month_of_day_at (Int.Pos k)"
  "month_of_day (Int.Neg k) = month_of_day_at (Int.Neg k)"
  by (simp_all only: month_of_day_def month_of_day_at_def)

subsection \<open>Operations of package time\<close>

definition Year :: "time \<Rightarrow> int" where
  "Year t = month_of_day (t div Day) div 12"

definition Month :: "time \<Rightarrow> int" where
  "Month t = month_of_day (t div Day) mod 12 + 1"

definition DayOfMonth :: "time \<Rightarrow> int" where
  "DayOfMonth t = t div Day - month_start (month_of_day (t div Day)) + 1"

definition Date :: "int \<Rightarrow> int \<Rightarrow> int \<Rightarrow> time" where
  "Date y m d = Day * (month_start (12 * y + (m - 1)) + (d - 1))"

definition AddDate :: "time \<Rightarrow> int \<Rightarrow> int \<Rightarrow> int \<Rightarrow> time" where
  "AddDate t ys ms ds = Date (Year t + ys) (Month t + ms) (DayOfMonth t + ds) + t mod Day"

definition truncateToDay :: "time \<Rightarrow> time" where
  "truncateToDay t = Date (Year t) (Month t) (DayOfMonth t)"

text \<open>Sunday is 0; 1 January 1970 was a Thursday.\<close>

definition Weekday :: "time \<Rightarrow> int" where
  "Weekday t = (t div Day + 4) mod 7"

text \<open>\<open>ISOWeek\<close>: the year and week of the Thursday of the same Monday-to-Sunday week.\<close>

definition ISOWeek :: "time \<Rightarrow> int \<times> int" where
  "ISOWeek t =
     (let z = t div Day; thursday = z - (z + 3) mod 7 + 3; y = year_of_day thursday
      in (y, (thursday - jan1 y) div 7 + 1))"

subsection \<open>Payroll periods\<close>

definition pad0 :: "nat \<Rightarrow> string \<Rightarrow> string" where
  "pad0 w s = replicate (w - length s) CHR ''0'' @ s"

text \<open>\<open>t.Format("2006-01")\<close> and \<open>t.Format("2006-01-02")\<close>.\<close>

definition format_period :: "time \<Rightarrow> string" where
  "format_period t =
     (let y = Year t
      in (if y < 0 then ''-'' @ pad0 4 (format_nat (- y)) else pad0 4 (format_nat y)) @
         ''-'' @ pad0 2 (format_nat (Month t)))"

definition format_date :: "time \<Rightarrow> string" where
  "format_date t = format_period t @ ''-'' @ pad0 2 (format_nat (DayOfMonth t))"

text \<open>\<open>time.ParseInLocation("2006-01", s, UTC)\<close>: four digits, a dash, two digits, no more.\<close>

definition ParsePeriod :: "string \<Rightarrow> time res" where
  "ParsePeriod s =
     (case s of
        [a, b, c, d, e, f, g] \<Rightarrow>
          (case (parse_nat [a, b, c, d], parse_nat [f, g]) of
             (Some y, Some m) \<Rightarrow>
               if e = CHR ''-'' \<and> 1 \<le> m \<and> m \<le> 12 then Inr (Date y m 1) else Inl ErrInvalidPeriod
           | _ \<Rightarrow> Inl ErrInvalidPeriod)
      | _ \<Rightarrow> Inl ErrInvalidPeriod)"

subsection \<open>Library\<close>

lemma Day_pos [simp]: "0 < Day"
  by (simp add: Day_def Hour_def)

lemma jan1_bounds:
  "400 * jan1 y \<le> 146097 * (y - 1970) + 800 \<and> 146097 * (y - 1970) - 800 \<le> 400 * jan1 y"
proof -
  have bounds: "k * ((y - 1) div k) \<le> y - 1 \<and> y - 1 < k * ((y - 1) div k) + k" if "0 < k" for k :: int
    using that mult_div_mod_eq [of k "y - 1"] pos_mod_sign [of k "y - 1"] pos_mod_bound [of k "y - 1"] by linarith
  show ?thesis using bounds [of 4] bounds [of 100] bounds [of 400] by (auto simp: jan1_def)
qed

lemma div_pred:
  fixes y k :: int
  assumes k: "0 < k"
  shows "y div k = (y - 1) div k + (if k dvd y then 1 else 0)"
proof (cases "k dvd y")
  case True
  then obtain q where y: "y = k * q" by (elim dvdE)
  have "k * q - 1 = k * (q - 1) + (k - 1)" by (simp add: right_diff_distrib)
  from int_div_pos_eq [OF this] k have "(k * q - 1) div k = q - 1" by simp
  then show ?thesis using k True y by simp
next
  case False
  then have "y mod k \<noteq> 0" by (simp add: dvd_eq_mod_eq_0)
  then have "0 < y mod k" "y mod k < k" using k pos_mod_sign [of k y] pos_mod_bound [of k y] by linarith+
  then have "(y - 1) div k = y div k"
    using int_div_pos_eq [of "y - 1" k "y div k" "y mod k - 1"] by simp
  then show ?thesis using False by simp
qed

lemma leap_arith:
  fixes a b c :: int
  assumes "q \<longrightarrow> p" "r \<longrightarrow> q"
  shows "x + (a + (if p then 1 else 0)) - (b + (if q then 1 else 0)) + (c + (if r then 1 else 0)) =
    x + a - b + c + (if p \<and> (\<not> q \<or> r) then 1 else 0)"
  using assms by (cases p; cases q; cases r) simp_all

lemma jan1_Suc: "jan1 (y + 1) = jan1 y + 365 + (if is_leap y then 1 else 0)"
proof -
  have d: "100 dvd y \<longrightarrow> 4 dvd y" "400 dvd y \<longrightarrow> 100 dvd y"
    using dvd_trans [of 4 100 y] dvd_trans [of 100 400 y] by simp_all
  have "jan1 (y + 1) = (365 * (y - 1969) - 477) + y div 4 - y div 100 + y div 400"
    by (simp add: jan1_def)
  also have "\<dots> = (365 * (y - 1969) - 477) + (y - 1) div 4 - (y - 1) div 100 + (y - 1) div 400 +
      (if is_leap y then 1 else 0)"
    using leap_arith [OF d] div_pred [of 4 y] div_pred [of 100 y] div_pred [of 400 y]
    by (simp only: is_leap_def)
  also have "\<dots> = jan1 y + 365 + (if is_leap y then 1 else 0)" by (simp add: jan1_def)
  finally show ?thesis .
qed

lemma year_of_day: "jan1 (year_of_day z) \<le> z \<and> z < jan1 (year_of_day z + 1)"
proof -
  define y where "y = 1970 + (400 * z) div 146097"
  have "146097 * (y - 1970) \<le> 400 * z" "400 * z < 146097 * (y - 1970) + 146097"
    by (simp_all add: y_def)
  then have "jan1 (y - 1) \<le> z" "z < jan1 (y + 2)"
    using jan1_bounds [of "y - 1"] jan1_bounds [of "y + 2"] by auto
  then show ?thesis
    by (auto simp: year_of_day_def Let_def y_def [symmetric] add.commute)
qed

lemma month_cases:
  fixes m :: int
  assumes "0 \<le> m" "m < 12"
  obtains "m = 0" | "m = 1" | "m = 2" | "m = 3" | "m = 4" | "m = 5" | "m = 6" | "m = 7" | "m = 8"
    | "m = 9" | "m = 10" | "m = 11"
proof -
  have "m = 0 \<or> m = 1 \<or> m = 2 \<or> m = 3 \<or> m = 4 \<or> m = 5 \<or> m = 6 \<or> m = 7 \<or> m = 8 \<or> m = 9 \<or> m = 10 \<or> m = 11"
    using assms by presburger
  then show thesis using that by blast
qed

lemmas days_before_eval = days_before_def month_offsets_def

lemma scan_month:
  assumes "0 \<le> d"
  shows "0 \<le> scan_month leap d k \<and> scan_month leap d k \<le> int k \<and>
    days_before leap (scan_month leap d k) \<le> d \<and>
    (scan_month leap d k < int k \<longrightarrow> d < days_before leap (scan_month leap d k + 1))"
proof (induction k)
  case 0
  then show ?case using assms by (simp add: days_before_eval)
next
  case (Suc k)
  then show ?case by (cases "scan_month leap d k = int k") (auto simp: add.commute)
qed

lemma month_in_year:
  assumes "0 \<le> d"
  shows "0 \<le> month_in_year leap d \<and> month_in_year leap d < 12 \<and>
    days_before leap (month_in_year leap d) \<le> d \<and>
    (month_in_year leap d < 11 \<longrightarrow> d < days_before leap (month_in_year leap d + 1))"
  using scan_month [OF assms, of leap 11] by (simp add: month_in_year_def)

lemma days_before_step:
  assumes "0 \<le> m" "m < 11"
  shows "days_before leap m + 28 \<le> days_before leap (m + 1) \<and> days_before leap (m + 1) \<le> days_before leap m + 31"
proof -
  have "m < 12" using assms(2) by simp
  from assms(1) this assms(2) show ?thesis by (cases rule: month_cases) (simp_all add: days_before_eval)
qed

lemma month_start_step:
  "month_start n + 28 \<le> month_start (n + 1) \<and> month_start (n + 1) \<le> month_start n + 31"
proof -
  obtain q m where n: "n = 12 * q + m" and m: "0 \<le> m" "m < 12"
    using mult_div_mod_eq [of 12 n] pos_mod_sign [of 12 n] pos_mod_bound [of 12 n] by (metis zero_less_numeral)
  show ?thesis
  proof (cases "m = 11")
    case True
    then have n1: "n + 1 = 12 * (q + 1)" using n by simp
    show ?thesis unfolding month_start_def n1 using n True by (simp add: jan1_Suc days_before_eval)
  next
    case False
    then have n1: "n + 1 = 12 * q + (m + 1)" "m < 11" using n m by simp_all
    show ?thesis
      unfolding month_start_def n1(1) using n m n1(2) days_before_step [of m "is_leap q"] by simp
  qed
qed

lemma month_start_strict: "m < n \<Longrightarrow> month_start m < month_start n"
proof (induction rule: int_gr_induct)
  case base
  then show ?case using month_start_step [of m] by simp
next
  case (step n)
  then show ?case using month_start_step [of n] by simp
qed

lemma month_start_less_iff [simp]: "month_start m < month_start n \<longleftrightarrow> m < n"
  by (metis month_start_strict linorder_neqE_linordered_idom order_less_asym)

lemma month_start_le_iff [simp]: "month_start m \<le> month_start n \<longleftrightarrow> m \<le> n"
  by (simp add: linorder_not_less [symmetric])

text \<open>The month of a day is the one whose range of days holds it, and the only one.\<close>

lemma month_of_day: "month_start (month_of_day z) \<le> z \<and> z < month_start (month_of_day z + 1)"
proof -
  define y where "y = year_of_day z"
  define m where "m = month_in_year (is_leap y) (z - jan1 y)"
  have z: "jan1 y \<le> z" "z < jan1 y + 365 + (if is_leap y then 1 else 0)"
    using year_of_day [of z] by (simp_all add: y_def jan1_Suc)
  then have m: "0 \<le> m" "m < 12" "days_before (is_leap y) m \<le> z - jan1 y"
    "m < 11 \<longrightarrow> z - jan1 y < days_before (is_leap y) (m + 1)"
    using month_in_year [of "z - jan1 y" "is_leap y"] by (simp_all add: m_def)
  have n: "month_of_day z = 12 * y + m" by (simp add: month_of_day_def Let_def y_def m_def)
  have lower: "month_start (12 * y + m) \<le> z"
    using m by (simp add: month_start_def)
  have "z < month_start (12 * y + m + 1)"
  proof (cases "m = 11")
    case True
    have "(12 * y + 12) div 12 = y + 1" "(12 * y + 12) mod 12 = 0" by presburger+
    then show ?thesis using z True by (simp add: month_start_def jan1_Suc days_before_eval add.assoc)
  next
    case False
    then have "(12 * y + (m + 1)) div 12 = y" "(12 * y + (m + 1)) mod 12 = m + 1" using m by simp_all
    then show ?thesis using m False by (simp add: month_start_def add.assoc)
  qed
  with lower show ?thesis by (simp add: n)
qed

lemma month_of_day_unique: "month_start n \<le> z \<Longrightarrow> z < month_start (n + 1) \<Longrightarrow> month_of_day z = n"
  using month_of_day [of z] by (smt (verit) month_start_le_iff)

lemma month_of_day_start [simp]: "month_of_day (month_start n) = n"
  using month_start_step [of n] by (intro month_of_day_unique) simp_all

lemma month_of_day_mono: "a \<le> b \<Longrightarrow> month_of_day a \<le> month_of_day b"
  using month_of_day [of a] month_of_day [of b]
  by (metis month_start_less_iff linorder_not_le order_le_less_trans order_less_le_trans zle_add1_eq_le)

subsection \<open>Instants\<close>

lemma Date_civil [simp]: "Date (Year t) (Month t) (DayOfMonth t) = Day * (t div Day)"
  by (simp add: Date_def Year_def Month_def DayOfMonth_def)

lemma truncateToDay: "truncateToDay t = Day * (t div Day)"
  by (simp add: truncateToDay_def)

lemma truncateToDay_le: "truncateToDay t \<le> t" "t < truncateToDay t + Day"
proof -
  have "0 \<le> t mod Day" "t mod Day < Day" by simp_all
  moreover have "Day * (t div Day) + t mod Day = t" by simp
  ultimately show "truncateToDay t \<le> t" "t < truncateToDay t + Day" unfolding truncateToDay by linarith+
qed

lemma truncateToDay_mono: "a \<le> b \<Longrightarrow> truncateToDay a \<le> truncateToDay b"
  by (simp add: truncateToDay zdiv_mono1)

lemma day_of_day [simp]: "Day * d div Day = d" "Day * d mod Day = 0"
  by (simp_all add: Day_def Hour_def)

lemma AddDate_days: "AddDate t 0 0 k = t + Day * k"
proof -
  have "AddDate t 0 0 k = Day * (t div Day + k) + t mod Day"
    by (simp add: AddDate_def Date_def Year_def Month_def DayOfMonth_def algebra_simps)
  then show ?thesis by (simp add: distrib_left)
qed

lemma month_of_Date: "1 \<le> m \<Longrightarrow> m \<le> 12 \<Longrightarrow> month_of_day (Date y m 1 div Day) = 12 * y + (m - 1)"
  by (simp add: Date_def)

lemma Date_1: "Date y m 1 = Day * month_start (12 * y + (m - 1))"
  by (simp add: Date_def)

lemma AddDate_month_start:
  "AddDate (Day * month_start n) 0 k 0 = Day * month_start (n + k)"
  by (simp add: AddDate_def Date_def Year_def Month_def DayOfMonth_def algebra_simps)

lemma month_index_split: "12 * Year t + (Month t - 1) = month_of_day (t div Day)"
  by (simp add: Year_def Month_def)

lemma Month_range: "1 \<le> Month t \<and> Month t \<le> 12"
  by (simp add: Month_def)

lemma ParsePeriod_Inr:
  assumes "ParsePeriod s = Inr t"
  obtains n where "t = Day * month_start n" "0 \<le> n"
proof -
  from assms obtain a b c d e f g y m where s: "s = [a, b, c, d, e, f, g]"
    and y: "parse_nat [a, b, c, d] = Some y" and m: "1 \<le> m" and t: "t = Date y m 1"
    by (auto simp: ParsePeriod_def split: list.splits option.splits if_splits)
  have "0 \<le> y" using y by (rule parse_nat_nonneg)
  then show thesis using that [of "12 * y + (m - 1)"] t m by (simp add: Date_1)
qed

text \<open>The instant lies in the month that its own period names.\<close>

lemma instant_in_month:
  "Day * month_start (month_of_day (t div Day)) \<le> t \<and> t < Day * month_start (month_of_day (t div Day) + 1)"
proof -
  have "Day * month_start (month_of_day (t div Day)) \<le> Day * (t div Day)"
    using month_of_day [of "t div Day"] by (simp add: Day_def Hour_def)
  moreover have "Day * (t div Day) + Day \<le> Day * month_start (month_of_day (t div Day) + 1)"
    using month_of_day [of "t div Day"] by (simp add: Day_def Hour_def)
  ultimately show ?thesis using truncateToDay_le [of t] unfolding truncateToDay by linarith
qed

lemma format_nat_small: "0 \<le> n \<Longrightarrow> n < 10 \<Longrightarrow> format_nat n = [digit_char n]"
  by (simp add: format_nat.simps)

lemma length_format_nat_le: "0 \<le> n \<Longrightarrow> n < 10 ^ k \<Longrightarrow> 0 < k \<Longrightarrow> length (format_nat n) \<le> k"
proof (induction n arbitrary: k rule: format_nat.induct)
  case (1 n)
  show ?case
  proof (cases "n < 10")
    case True
    with 1 show ?thesis by (simp add: format_nat.simps)
  next
    case False
    obtain j where k: "k = Suc j" using 1(4) by (cases k) simp_all
    have "0 < j" using False 1(3) k by (cases j) simp_all
    moreover have "n div 10 < 10 ^ j" using 1(3) k by (simp add: div_less_iff_less_mult mult.commute)
    ultimately have "length (format_nat (n div 10)) \<le> j" using 1(1) [OF False, of j] 1(2) by simp
    then show ?thesis using False k by (subst format_nat.simps) simp
  qed
qed

lemma digits_value_zeros: "digits_value 0 (replicate k CHR ''0'' @ s) = digits_value 0 s"
  by (induction k) (simp_all add: is_digit_def digit_value_def)

lemma parse_pad0:
  assumes "0 \<le> n" "n < 10 ^ w" "0 < w"
  shows "length (pad0 w (format_nat n)) = w" "parse_nat (pad0 w (format_nat n)) = Some n"
  using length_format_nat_le [OF assms] assms(1,3)
  by (simp_all add: pad0_def parse_nat_def digits_value_zeros digits_value_format_nat)

lemma list_of_length4: "length xs = 4 \<Longrightarrow> \<exists>a b c d. xs = [a, b, c, d]"
  by (auto simp: length_Suc_conv eval_nat_numeral)

lemma list_of_length2: "length xs = 2 \<Longrightarrow> \<exists>a b. xs = [a, b]"
  by (auto simp: length_Suc_conv eval_nat_numeral)

lemma parse_format_period:
  assumes "0 \<le> Year t" "Year t < 10000"
  shows "ParsePeriod (format_period t) = Inr (Day * month_start (month_of_day (t div Day)))"
proof -
  note y = parse_pad0 [of "Year t" 4, simplified, OF assms]
  have "Month t < 10 ^ 2" "0 \<le> Month t" using Month_range [of t] by simp_all
  note m = parse_pad0 [OF this(2,1), simplified]
  obtain a b c d where abcd: "pad0 4 (format_nat (Year t)) = [a, b, c, d]"
    using list_of_length4 [OF y(1)] by blast
  obtain f g where fg: "pad0 2 (format_nat (Month t)) = [f, g]"
    using list_of_length2 [OF m(1)] by blast
  show ?thesis
    using y(2) m(2) Month_range [of t] assms(1) unfolding format_period_def abcd fg
    by (simp add: ParsePeriod_def abcd fg Date_1 month_index_split)
qed

end
