(* ===== verification/Float64.thy ===== *)
theory Float64
  imports Complex_Main Prelude
begin

text \<open>
  Go's \<open>float64\<close> arithmetic, as far as the dependency score uses it: every operation is
  the exact rational operation followed by rounding to the nearest 53-bit number, ties to
  even. Values are rationals; overflow to infinity, subnormals and NaN cannot occur for
  the magnitudes involved (ratios of \<open>int64\<close> values), so they are not represented. What
  the clients need of the rounding is the locale \<open>rounding\<close>, interpreted on \<open>rnd64\<close>.
\<close>

type_synonym float64 = rat

definition pow2 :: "int \<Rightarrow> rat" where
  "pow2 e = 2 powi e"

text \<open>Round half to even on rationals.\<close>

definition round_even :: "rat \<Rightarrow> int" where
  "round_even x =
     (let f = \<lfloor>x\<rfloor>; d = x - of_int f
      in if d < 1 / 2 then f else if 1 / 2 < d then f + 1 else if even f then f else f + 1)"

text \<open>The number of binary digits of a positive integer.\<close>

function bits :: "int \<Rightarrow> int" where
  "bits n = (if n \<le> 0 then 0 else 1 + bits (n div 2))"
  by pat_completeness auto
termination by (relation "measure nat") auto

declare bits.simps [simp del]

text \<open>\<open>log2_floor x\<close> is the binary exponent of a positive rational.\<close>

definition log2_floor :: "rat \<Rightarrow> int" where
  "log2_floor x =
     (let (p, q) = quotient_of x; k = bits p - bits q
      in if pow2 k \<le> x then k else k - 1)"

definition rnd_pos :: "rat \<Rightarrow> rat" where
  "rnd_pos x = (let u = pow2 (log2_floor x - 52) in of_int (round_even (x / u)) * u)"

definition rnd64 :: "rat \<Rightarrow> float64" where
  "rnd64 x = (if x = 0 then 0 else if 0 < x then rnd_pos x else - rnd_pos (- x))"

definition float64_of_int :: "int \<Rightarrow> float64" where
  "float64_of_int n = rnd64 (of_int n)"

definition fadd :: "float64 \<Rightarrow> float64 \<Rightarrow> float64" where "fadd a b = rnd64 (a + b)"
definition fsub :: "float64 \<Rightarrow> float64 \<Rightarrow> float64" where "fsub a b = rnd64 (a - b)"
definition fmul :: "float64 \<Rightarrow> float64 \<Rightarrow> float64" where "fmul a b = rnd64 (a * b)"
definition fdiv :: "float64 \<Rightarrow> float64 \<Rightarrow> float64" where "fdiv a b = rnd64 (a / b)"

text \<open>\<open>int(f)\<close> truncates toward zero.\<close>

definition int_of_float64 :: "float64 \<Rightarrow> int" where
  "int_of_float64 x = (if 0 \<le> x then \<lfloor>x\<rfloor> else - \<lfloor>- x\<rfloor>)"

subsection \<open>Rounding is monotone and exact on small integers\<close>

lemma pow2_pos [simp]: "0 < pow2 e"
  by (simp add: pow2_def)

lemma pow2_nonneg [simp]: "0 \<le> pow2 e" "pow2 e \<noteq> 0"
  using pow2_pos [of e] by linarith+

lemma pow2_add: "pow2 (a + b) = pow2 a * pow2 b"
  by (simp add: pow2_def power_int_add)

lemma pow2_mono: "a \<le> b \<Longrightarrow> pow2 a \<le> pow2 b"
  by (simp add: pow2_def power_int_increasing)

lemma pow2_nat: "pow2 (int n) = 2 ^ n"
  by (simp add: pow2_def)

lemma round_even_int [simp]: "round_even (of_int n) = n"
  by (simp add: round_even_def)

lemma round_even_mono: "x \<le> y \<Longrightarrow> round_even x \<le> round_even y"
proof -
  assume le: "x \<le> y"
  have fl: "\<lfloor>x\<rfloor> \<le> \<lfloor>y\<rfloor>" using le by (rule floor_mono)
  show ?thesis
  proof (cases "\<lfloor>x\<rfloor> = \<lfloor>y\<rfloor>")
    case True
    then have "x - of_int \<lfloor>x\<rfloor> \<le> y - of_int \<lfloor>y\<rfloor>" using le by simp
    then show ?thesis using True by (auto simp: round_even_def Let_def)
  next
    case False
    then have "\<lfloor>x\<rfloor> + 1 \<le> \<lfloor>y\<rfloor>" using fl by simp
    then show ?thesis by (auto simp: round_even_def Let_def)
  qed
qed

lemma bits_pow2:
  assumes "0 < p"
  shows "pow2 (bits p - 1) \<le> of_int p \<and> of_int p < pow2 (bits p)"
  using assms
proof (induction p rule: bits.induct)
  case (1 n)
  show ?case
  proof (cases "n = 1")
    case True then show ?thesis by (simp add: bits.simps pow2_def)
  next
    case False
    let ?m = "n div 2"
    have m: "0 < ?m" "2 * ?m \<le> n" "n < 2 * (?m + 1)" using False 1(2) by presburger+
    have "pow2 (bits ?m - 1) \<le> of_int ?m" and up: "of_int ?m < pow2 (bits ?m)" using 1 m by simp_all
    have k: "bits n = 1 + bits ?m" using 1(2) by (simp add: bits.simps [of n])
    have two: "pow2 (1 + e) = 2 * pow2 e" for e using pow2_add [of 1 e] by (simp add: pow2_def)
    have "0 \<le> bits j" for j by (induction j rule: bits.induct) (simp add: bits.simps)
    then have "pow2 (bits ?m) = of_int (2 ^ nat (bits ?m))" using pow2_nat [of "nat (bits ?m)"] by simp
    then have "(of_int ?m :: rat) < of_int (2 ^ nat (bits ?m))" using up by simp
    then have "?m < 2 ^ nat (bits ?m)" by (simp only: of_int_less_iff)
    then have "(of_int (?m + 1) :: rat) \<le> of_int (2 ^ nat (bits ?m))" by (simp only: of_int_le_iff)
    then have "(of_int ?m :: rat) + 1 \<le> pow2 (bits ?m)" using \<open>pow2 (bits ?m) = of_int (2 ^ nat (bits ?m))\<close> by simp
    moreover have "(of_int (2 * ?m) :: rat) \<le> of_int n" "(of_int n :: rat) < of_int (2 * (?m + 1))"
      using m(2,3) by (simp_all only: of_int_le_iff of_int_less_iff)
    then have "(2 :: rat) * of_int ?m \<le> of_int n" "(of_int n :: rat) < 2 * (of_int ?m + 1)"
      by (simp_all only: of_int_mult of_int_add of_int_numeral of_int_1)
    moreover have "pow2 (bits n - 1) = 2 * pow2 (bits ?m - 1)" "pow2 (bits n) = 2 * pow2 (bits ?m)"
      using two [of "bits ?m - 1"] two [of "bits ?m"] by (simp_all add: k)
    ultimately show ?thesis using \<open>pow2 (bits ?m - 1) \<le> of_int ?m\<close> by linarith
  qed
qed

lemma log2_floor_bounds:
  assumes "0 < x"
  shows "pow2 (log2_floor x) \<le> x" "x < pow2 (log2_floor x + 1)"
proof -
  obtain p q where pq: "quotient_of x = (p, q)" by fastforce
  have q: "0 < q" using quotient_of_denom_pos [OF pq] .
  have x: "x = of_int p / of_int q" using quotient_of_div [OF pq] .
  have p: "0 < p" using assms q unfolding x by (simp add: zero_less_divide_iff)
  let ?a = "bits p" and ?b = "bits q"
  note fp = bits_pow2 [OF p, THEN conjunct1] bits_pow2 [OF p, THEN conjunct2]
    and fq = bits_pow2 [OF q, THEN conjunct1] bits_pow2 [OF q, THEN conjunct2]
  have "x \<le> of_int p / pow2 (?b - 1)" unfolding x using fq(1) p q by (intro divide_left_mono) auto
  also have "\<dots> < pow2 ?a / pow2 (?b - 1)" using fp(2) by (simp add: divide_strict_right_mono)
  also have "\<dots> = pow2 (?a - ?b + 1)"
    using pow2_add [of "?a - ?b + 1" "?b - 1"] by (simp add: field_simps)
  finally have up: "x < pow2 (?a - ?b + 1)" .
  have "pow2 (?a - ?b - 1) = pow2 (?a - 1) / pow2 ?b"
    using pow2_add [of "?a - ?b - 1" "?b"] by (simp add: field_simps)
  also have "\<dots> \<le> of_int p / pow2 ?b" using fp(1) by (simp add: divide_right_mono)
  also have "\<dots> \<le> x" unfolding x using fq(2) p q by (intro divide_left_mono) auto
  finally have lo: "pow2 (?a - ?b - 1) \<le> x" .
  show "pow2 (log2_floor x) \<le> x" "x < pow2 (log2_floor x + 1)"
    using up lo by (auto simp: log2_floor_def pq Let_def)
qed

lemma log2_floor_mono:
  assumes "0 < x" "x \<le> y"
  shows "log2_floor x \<le> log2_floor y"
proof (rule ccontr)
  assume "\<not> log2_floor x \<le> log2_floor y"
  then have "pow2 (log2_floor y + 1) \<le> pow2 (log2_floor x)" by (intro pow2_mono) simp
  then show False using log2_floor_bounds [of x] log2_floor_bounds [of y] assms by linarith
qed

lemma rnd_pos_bounds:
  assumes "0 < x"
  shows "pow2 (log2_floor x) \<le> rnd_pos x" "rnd_pos x \<le> pow2 (log2_floor x + 1)"
proof -
  let ?e = "log2_floor x" and ?u = "pow2 (log2_floor x - 52)"
  have u: "pow2 ?e = 2 ^ 52 * ?u" "pow2 (?e + 1) = 2 ^ 53 * ?u"
    using pow2_add [of 52 "?e - 52"] pow2_add [of 53 "?e - 52"] pow2_nat [of 52] pow2_nat [of 53]
    by (simp_all add: add.commute)
  note b = log2_floor_bounds [OF assms]
  have "of_int (2 ^ 52) \<le> x / ?u" "x / ?u \<le> of_int (2 ^ 53)"
    using b u by (simp_all add: field_simps)
  then have "2 ^ 52 \<le> round_even (x / ?u)" "round_even (x / ?u) \<le> 2 ^ 53"
    using round_even_mono [of "of_int (2 ^ 52)" "x / ?u"] round_even_mono [of "x / ?u" "of_int (2 ^ 53)"]
    by (simp_all only: round_even_int)
  then have "(of_int (2 ^ 52) :: rat) \<le> of_int (round_even (x / ?u))" "(of_int (round_even (x / ?u)) :: rat) \<le> of_int (2 ^ 53)"
    by (simp_all only: of_int_le_iff)
  then show "pow2 ?e \<le> rnd_pos x" "rnd_pos x \<le> pow2 (?e + 1)"
    unfolding u rnd_pos_def Let_def by (simp_all add: mult_right_mono)
qed

lemma rnd_pos_mono:
  assumes "0 < x" "x \<le> y"
  shows "rnd_pos x \<le> rnd_pos y"
proof (cases "log2_floor x = log2_floor y")
  case True
  have "x / pow2 (log2_floor y - 52) \<le> y / pow2 (log2_floor y - 52)"
    using assms(2) pow2_pos [of "log2_floor y - 52"] by (intro divide_right_mono) simp_all
  from round_even_mono [OF this] show ?thesis by (simp add: rnd_pos_def Let_def True)
next
  case False
  then have "pow2 (log2_floor x + 1) \<le> pow2 (log2_floor y)"
    using log2_floor_mono [OF assms] by (intro pow2_mono) simp
  with rnd_pos_bounds(2) [of x] rnd_pos_bounds(1) [of y] assms show ?thesis by simp
qed

lemma rnd_pos_positive: "0 < x \<Longrightarrow> 0 < rnd_pos x"
  using rnd_pos_bounds(1) [of x] pow2_pos [of "log2_floor x"] by linarith

lemma rnd64_mono: "x \<le> y \<Longrightarrow> rnd64 x \<le> rnd64 y"
  using rnd_pos_mono [of x y] rnd_pos_mono [of "- y" "- x"] rnd_pos_positive [of y] rnd_pos_positive [of "- x"]
  by (auto simp: rnd64_def)

lemma pow2_int: "0 \<le> e \<Longrightarrow> pow2 e = of_int (2 ^ nat e)"
  using pow2_nat [of "nat e"] by simp

lemma rnd_pos_int:
  assumes "0 < n" "n < 2 ^ 53"
  shows "rnd_pos (of_int n) = of_int n"
proof -
  let ?e = "log2_floor (of_int n)"
  have b: "pow2 ?e \<le> of_int n" "of_int n < pow2 (?e + 1)" using log2_floor_bounds [of "of_int n"] assms by simp_all
  have "?e \<le> 52"
  proof (rule ccontr)
    assume "\<not> ?e \<le> 52"
    then have "pow2 53 \<le> pow2 ?e" by (intro pow2_mono) simp
    then have "pow2 53 \<le> of_int n" using b(1) by simp
    moreover have "pow2 53 = of_int (2 ^ 53)" using pow2_int [of 53] by simp
    ultimately show False using assms(2) by (simp only: of_int_le_iff)
  qed
  then have "of_int n / pow2 (?e - 52) = (of_int (n * 2 ^ nat (52 - ?e)) :: rat)"
    using pow2_add [of "?e - 52" "52 - ?e"] pow2_int [of "52 - ?e"] pow2_pos [of "?e - 52"]
    by (simp add: pow2_def field_simps)
  then show ?thesis
    using pow2_pos [of "?e - 52"] unfolding rnd_pos_def Let_def
    by (metis nonzero_eq_divide_eq order_less_irrefl round_even_int)
qed

lemma rnd64_int: "\<bar>n\<bar> < 2 ^ 53 \<Longrightarrow> rnd64 (of_int n) = of_int n"
  using rnd_pos_int [of n] rnd_pos_int [of "- n"] by (cases "n = 0"; cases "0 < n") (auto simp: rnd64_def)

locale rounding =
  fixes rnd :: "rat \<Rightarrow> rat"
  assumes rnd_mono: "x \<le> y \<Longrightarrow> rnd x \<le> rnd y"
    and rnd_int: "\<bar>n\<bar> < 2 ^ 53 \<Longrightarrow> rnd (of_int n) = of_int n"
begin

lemma rnd_0 [simp]: "rnd 0 = 0"
  using rnd_int [of 0] by simp

lemma rnd_nonneg: "0 \<le> x \<Longrightarrow> 0 \<le> rnd x"
  using rnd_mono [of 0 x] by simp

text \<open>
  The shape of \<open>scaleScore\<close>: scaling by a non-negative factor and dividing by a positive
  width is monotone, whatever the rounding errors.
\<close>

lemma scaled_mono:
  assumes "a \<le> b" "0 \<le> m" "0 < w"
  shows "rnd (rnd (m * rnd a) / w) \<le> rnd (rnd (m * rnd b) / w)"
  using assms by (intro rnd_mono divide_right_mono mult_left_mono) auto

end

interpretation f64: rounding rnd64
  by unfold_locales (auto intro: rnd64_mono rnd64_int)

lemma int_of_float64_mono: "x \<le> y \<Longrightarrow> 0 \<le> x \<Longrightarrow> int_of_float64 x \<le> int_of_float64 y"
  by (auto simp: int_of_float64_def intro: floor_mono)

lemma int_of_float64_nonneg: "0 \<le> x \<Longrightarrow> 0 \<le> int_of_float64 x"
  by (simp add: int_of_float64_def)

end
