(* ===== verification/Accrual.thy ===== *)
theory Accrual
  imports Calendar Float64
begin

text \<open>
  Wages earned so far (\<open>ewa_service.go\<close>): straight-line accrual over the working days of a
  month for salaried staff, over the predicted pay cycle for D2C workers, and the pay
  dates the other services derive from an instant.
\<close>

function work_loop :: "time \<Rightarrow> time \<Rightarrow> int \<Rightarrow> int" where
  "work_loop d to count =
     (if d < to
      then work_loop (AddDate d 0 0 1) to
             (if Weekday d \<noteq> 6 \<and> Weekday d \<noteq> 0 then count + 1 else count)
      else count)"
  by pat_completeness auto
termination
  by (relation "measure (\<lambda>(d, to, _). nat (to - d))") (auto simp: AddDate_days)

declare work_loop.simps [simp del]

definition workingDaysBetween :: "time \<Rightarrow> time \<Rightarrow> int" where
  "workingDaysBetween from to = work_loop (truncateToDay from) to 0"

definition AccruedToDate :: "Kobo \<Rightarrow> string \<Rightarrow> time \<Rightarrow> Kobo res" where
  "AccruedToDate salary period asOf =
     rbind (ParsePeriod period) (\<lambda>start.
       if \<not> Kobo_IsPositive salary then Inr 0
       else
         let total = workingDaysBetween start (AddDate start 0 1 0)
         in if total = 0 then Inr 0
            else if asOf < start then Inr 0
            else if \<not> asOf < AddDate start 0 1 0 then Inr salary
            else
              let elapsed = workingDaysBetween start (truncateToDay asOf)
              in if elapsed \<le> 0 then Inr 0
                 else Kobo_Percent salary (word_of_int elapsed) (word_of_int total))"

text \<open>\<open>t.Sub(u)\<close> saturates at the range of a \<open>Duration\<close>; \<open>Hours\<close> is a \<open>float64\<close>.\<close>

definition time_Sub :: "time \<Rightarrow> time \<Rightarrow> int" where
  "time_Sub t u =
     (if t - u < - (2 ^ 63) then - (2 ^ 63) else if 2 ^ 63 \<le> t - u then 2 ^ 63 - 1 else t - u)"

definition Duration_Hours :: "int \<Rightarrow> float64" where
  "Duration_Hours d =
     fadd (float64_of_int (d sdiv Hour)) (fdiv (float64_of_int (d smod Hour)) (float64_of_int Hour))"

definition whole_days :: "time \<Rightarrow> time \<Rightarrow> int" where
  "whole_days t u = int_of_float64 (fdiv (Duration_Hours (time_Sub t u)) 24)"

definition d2cAccruedToDate :: "Kobo \<Rightarrow> time \<Rightarrow> time \<Rightarrow> time \<Rightarrow> Kobo res" where
  "d2cAccruedToDate avgAmount periodStart0 nextPredicted0 asOf0 =
     (if \<not> Kobo_IsPositive avgAmount then Inr 0
      else
        let periodStart = truncateToDay periodStart0;
            nextPredicted = truncateToDay nextPredicted0;
            asOf = truncateToDay asOf0;
            total = whole_days nextPredicted periodStart
        in if total \<le> 0 then Inr 0
           else if asOf < periodStart then Inr 0
           else if \<not> asOf < nextPredicted then Inr avgAmount
           else
             let elapsed = whole_days asOf periodStart
             in if elapsed \<le> 0 then Inr 0
                else Kobo_Percent avgAmount (word_of_int elapsed) (word_of_int total))"

definition lastPayday :: "time \<Rightarrow> time" where
  "lastPayday asOf = AddDate (Date (Year asOf) (Month asOf) 1) 0 0 (- 1)"

definition firstOfNextPeriod :: "time \<Rightarrow> time" where
  "firstOfNextPeriod asOf = AddDate (Date (Year asOf) (Month asOf) 1) 0 1 0"

subsection \<open>Library\<close>

definition is_workday :: "int \<Rightarrow> bool" where
  "is_workday z \<longleftrightarrow> (z + 4) mod 7 \<noteq> 6 \<and> (z + 4) mod 7 \<noteq> 0"

definition workdays :: "int \<Rightarrow> int \<Rightarrow> int" where
  "workdays a b = int (card {z. a \<le> z \<and> z < b \<and> is_workday z})"

lemma workdays_finite [simp]: "finite {z::int. a \<le> z \<and> z < b \<and> P z}"
  by (rule finite_subset [of _ "{a..<b}"]) auto

lemma workdays_empty: "b \<le> a \<Longrightarrow> workdays a b = 0"
  by (auto simp: workdays_def)

lemma workdays_step: "a < b \<Longrightarrow> workdays a b = workdays (a + 1) b + (if is_workday a then 1 else 0)"
proof -
  assume "a < b"
  then have "{z. a \<le> z \<and> z < b \<and> is_workday z} =
    (if is_workday a then insert a {z. a + 1 \<le> z \<and> z < b \<and> is_workday z} else {z. a + 1 \<le> z \<and> z < b \<and> is_workday z})"
    by (auto simp: order_le_less)
  then show ?thesis by (simp add: workdays_def)
qed

lemma workdays_nonneg [simp]: "0 \<le> workdays a b"
  by (simp add: workdays_def)

lemma workdays_mono: "b \<le> c \<Longrightarrow> workdays a b \<le> workdays a c"
  unfolding workdays_def by (rule iffD2 [OF of_nat_le_iff], rule card_mono) auto

lemma workdays_split: "a \<le> b \<Longrightarrow> b \<le> c \<Longrightarrow> workdays a b + workdays b c = workdays a c"
proof -
  assume *: "a \<le> b" "b \<le> c"
  have "{z. a \<le> z \<and> z < c \<and> is_workday z} =
    {z. a \<le> z \<and> z < b \<and> is_workday z} \<union> {z. b \<le> z \<and> z < c \<and> is_workday z}" using * by auto
  moreover have "{z. a \<le> z \<and> z < b \<and> is_workday z} \<inter> {z. b \<le> z \<and> z < c \<and> is_workday z} = {}" by auto
  ultimately show ?thesis
    unfolding workdays_def by (simp only: card_Un_disjoint [OF workdays_finite workdays_finite] of_nat_add)
qed

lemma workdays_le: "a \<le> b \<Longrightarrow> workdays a b \<le> b - a"
proof -
  assume "a \<le> b"
  have "card {z. a \<le> z \<and> z < b \<and> is_workday z} \<le> card {a..<b}" by (rule card_mono) auto
  then show ?thesis using \<open>a \<le> b\<close> by (simp add: workdays_def)
qed

lemma is_workday_shift: "is_workday (a + k) \<longleftrightarrow> ((a + 4) mod 7 + k) mod 7 \<notin> {0, 6}"
proof -
  have "(a + k + 4) mod 7 = ((a + 4) mod 7 + k) mod 7" by (simp add: mod_simps ac_simps)
  then show ?thesis by (auto simp: is_workday_def)
qed

lemma workdays_week: "workdays a (a + 7) = 5"
proof -
  have r: "(a + 4) mod 7 = 0 \<or> (a + 4) mod 7 = 1 \<or> (a + 4) mod 7 = 2 \<or> (a + 4) mod 7 = 3 \<or>
    (a + 4) mod 7 = 4 \<or> (a + 4) mod 7 = 5 \<or> (a + 4) mod 7 = 6" by presburger
  have "workdays a (a + 7) = (if is_workday (a + 0) then 1 else 0) + (if is_workday (a + 1) then 1 else 0) +
      (if is_workday (a + 2) then 1 else 0) + (if is_workday (a + 3) then 1 else 0) +
      (if is_workday (a + 4) then 1 else 0) + (if is_workday (a + 5) then 1 else 0) +
      (if is_workday (a + 6) then 1 else 0)"
    by (simp add: workdays_step workdays_empty add.commute [of _ a] split del: if_split)
  also have "\<dots> = 5" unfolding is_workday_shift using r by (elim disjE) simp_all
  finally show ?thesis .
qed

text \<open>The number of days that begin before an instant: the days \<open>d\<close> with \<open>Day * d < to\<close>.\<close>

definition day_limit :: "time \<Rightarrow> int" where
  "day_limit t = - ((- t) div Day)"

lemma day_limit: "Day * z < t \<longleftrightarrow> z < day_limit t"
proof -
  define q where "q = (- t) div Day"
  have q: "Day * q \<le> - t" "- t < Day * q + Day"
    using truncateToDay_le [of "- t"] by (simp_all add: truncateToDay q_def)
  have "z < - q \<longleftrightarrow> Day * (z + 1) \<le> Day * (- q)" using Day_pos by (simp only: mult_le_cancel_left_pos) arith
  also have "\<dots> \<longleftrightarrow> Day * z < t"
  proof
    assume "Day * (z + 1) \<le> Day * (- q)"
    then show "Day * z < t" using q by (simp add: distrib_left)
  next
    assume "Day * z < t"
    then have "Day * z < Day * (- q)" using q by simp
    then have "z < - q" by (simp only: mult_less_cancel_left_pos [OF Day_pos])
    then show "Day * (z + 1) \<le> Day * (- q)" using Day_pos by (simp only: mult_le_cancel_left_pos)
  qed
  finally show ?thesis by (simp add: day_limit_def q_def)
qed

lemma day_limit_day [simp]: "day_limit (Day * b) = b"
proof -
  have "- (Day * b) = Day * (- b)" by simp
  then show ?thesis unfolding day_limit_def by (simp only: day_of_day) 
qed

lemma work_loop: "work_loop (Day * a) t c = c + workdays a (day_limit t)"
proof (induction "nat (day_limit t - a)" arbitrary: a c rule: less_induct)
  case less
  have wd: "Weekday (Day * a) \<noteq> 6 \<and> Weekday (Day * a) \<noteq> 0 \<longleftrightarrow> is_workday a"
    by (simp add: Weekday_def is_workday_def)
  have nxt: "AddDate (Day * a) 0 0 1 = Day * (a + 1)" by (simp add: AddDate_days distrib_left)
  show ?case
  proof (cases "a < day_limit t")
    case True
    then have "work_loop (Day * a) t c = work_loop (Day * (a + 1)) t (if is_workday a then c + 1 else c)"
      by (subst work_loop.simps) (simp only: wd nxt day_limit if_True)
    then show ?thesis using less [of "a + 1"] True by (simp add: workdays_step [of a])
  next
    case False
    then show ?thesis by (subst work_loop.simps) (simp add: day_limit workdays_empty)
  qed
qed

lemma workingDaysBetween: "workingDaysBetween from to = workdays (from div Day) (day_limit to)"
  by (simp add: workingDaysBetween_def truncateToDay work_loop)


subsection \<open>Accrual\<close>

text \<open>The accrual of a month, by the day: what the working days before \<open>d\<close> have earned.\<close>

lemma month_workdays: "20 \<le> workdays (month_start n) (month_start (n + 1))"
  "workdays (month_start n) (month_start (n + 1)) \<le> 31"
proof -
  let ?a = "month_start n"
  have "workdays ?a (?a + 7) + workdays (?a + 7) (?a + 14) + workdays (?a + 14) (?a + 21) +
      workdays (?a + 21) (?a + 28) = workdays ?a (?a + 28)"
    by (simp add: workdays_split)
  then have "workdays ?a (?a + 28) = 20"
    using workdays_week [of ?a] workdays_week [of "?a + 7"] workdays_week [of "?a + 14"]
      workdays_week [of "?a + 21"] by (simp add: add.commute)
  then show "20 \<le> workdays ?a (month_start (n + 1))"
    using workdays_mono [of "?a + 28" "month_start (n + 1)" ?a] month_start_step [of n] by simp
  show "workdays ?a (month_start (n + 1)) \<le> 31"
    using workdays_le [of ?a "month_start (n + 1)"] month_start_step [of n] by simp
qed

lemma AccruedToDate_alt:
  assumes p: "ParsePeriod period = Inr (Day * month_start n)"
  shows "AccruedToDate salary period asOf =
    (if \<not> Kobo_IsPositive salary \<or> asOf < Day * month_start n then Inr 0
     else if Day * month_start (n + 1) \<le> asOf then Inr salary
     else if workdays (month_start n) (asOf div Day) = 0 then Inr 0
     else Kobo_Percent salary (word_of_int (workdays (month_start n) (asOf div Day)))
       (word_of_int (workdays (month_start n) (month_start (n + 1)))))"
proof -
  have "workingDaysBetween (Day * month_start n) (truncateToDay asOf) = workdays (month_start n) (asOf div Day)"
    by (simp add: workingDaysBetween truncateToDay)
  moreover have "workingDaysBetween (Day * month_start n) (Day * month_start (n + 1)) =
      workdays (month_start n) (month_start (n + 1))"
    by (simp add: workingDaysBetween)
  moreover have "workdays (month_start n) (asOf div Day) \<le> 0 \<longleftrightarrow> workdays (month_start n) (asOf div Day) = 0"
    using workdays_nonneg [of "month_start n" "asOf div Day"] by linarith
  ultimately show ?thesis
    using month_workdays(1) [of n]
    by (simp add: AccruedToDate_def p AddDate_month_start Let_def not_less)
qed


lemma instant_before: "t < Day * z \<longleftrightarrow> t div Day < z"
proof
  assume "t < Day * z"
  then have "Day * (t div Day) < Day * z" using truncateToDay_le(1) [of t] by (simp only: truncateToDay)
  then show "t div Day < z" by (simp only: mult_less_cancel_left_pos [OF Day_pos])
next
  assume "t div Day < z"
  then have "Day * (t div Day + 1) \<le> Day * z" using Day_pos by (simp only: mult_le_cancel_left_pos)
  then show "t < Day * z" using truncateToDay_le(2) [of t] by (simp add: truncateToDay distrib_left)
qed

definition earned_days :: "int \<Rightarrow> time \<Rightarrow> int" where
  "earned_days n t = workdays (month_start n) (min (month_start (n + 1)) (t div Day))"

lemma earned_days_bounds:
  "0 \<le> earned_days n t" "earned_days n t \<le> workdays (month_start n) (month_start (n + 1))"
  by (simp_all add: earned_days_def workdays_mono)

lemma earned_days_mono: "t \<le> u \<Longrightarrow> earned_days n t \<le> earned_days n u"
  unfolding earned_days_def by (intro workdays_mono min.mono order_refl zdiv_mono1) simp_all

lemma sint64_small: "0 \<le> x \<Longrightarrow> x \<le> 2 ^ 62 \<Longrightarrow> sint (word_of_int x :: int64) = x"
  by (intro sint64_word_of_int in64_I) simp_all

lemma AccruedToDate_rounds:
  assumes p: "ParsePeriod period = Inr (Day * month_start n)"
    and s: "0 \<le> sint salary" "31 * sint salary < 2 ^ 63"
  shows "\<exists>a. AccruedToDate salary period asOf = Inr a \<and>
    rounds_half_even (sint salary * earned_days n asOf)
      (workdays (month_start n) (month_start (n + 1))) (sint a)"
proof -
  let ?T = "workdays (month_start n) (month_start (n + 1))" and ?e = "workdays (month_start n) (asOf div Day)"
  have T: "20 \<le> ?T" "?T \<le> 31" by (rule month_workdays)+
  note alt = AccruedToDate_alt [OF p, of salary asOf]
  consider (none) "sint salary = 0 \<or> asOf < Day * month_start n"
    | (full) "sint salary > 0" "Day * month_start (n + 1) \<le> asOf"
    | (part) "sint salary > 0" "Day * month_start n \<le> asOf" "asOf < Day * month_start (n + 1)"
    using s by linarith
  then show ?thesis
  proof cases
    case none
    then have "sint salary * earned_days n asOf = 0"
      by (auto simp: earned_days_def instant_before intro!: workdays_empty)
    moreover have "AccruedToDate salary period asOf = Inr 0" using none s alt by (auto simp: go_simps sless_sint)
    ultimately show ?thesis using T by (auto simp: rounds_half_even_def)
  next
    case full
    then have f: "month_start (n + 1) \<le> asOf div Day" using instant_before [of asOf "month_start (n + 1)"] by linarith
    then have "month_start n \<le> asOf div Day" using month_start_step [of n] by linarith
    then have "\<not> asOf < Day * month_start n" using instant_before [of asOf "month_start n"] by linarith
    then have "AccruedToDate salary period asOf = Inr salary" using full alt by (auto simp: go_simps sless_sint)
    then show ?thesis using T f by (auto simp: earned_days_def min_def rounds_half_even_def)
  next
    case part
    then have m: "asOf div Day < month_start (n + 1)" using instant_before [of asOf "month_start (n + 1)"] by linarith
    then have e: "earned_days n asOf = ?e" by (simp add: earned_days_def)
    then have e': "0 \<le> ?e" "?e \<le> ?T" using earned_days_bounds [of n asOf] by simp_all
    show ?thesis
    proof (cases "?e = 0")
      case True
      then have "AccruedToDate salary period asOf = Inr 0" using part by (simp add: alt)
      then show ?thesis using T True by (simp add: e rounds_half_even_def)
    next
      case False
      have w: "sint (word_of_int ?e :: int64) = ?e" "sint (word_of_int ?T :: int64) = ?T"
        using e' T sint64_small [of ?e] sint64_small [of ?T] by simp_all
      have "sint salary * ?e \<le> sint salary * 31" using e' T s by (intro mult_left_mono) simp_all
      moreover have "0 \<le> sint salary * ?e" using s e' by simp
      ultimately have "in64 (sint salary * ?e)" using s by (intro in64_I) linarith+
      then have "in64 (sint salary * sint (word_of_int ?e :: int64))" by (simp add: w)
      from Kobo_Percent_rounds [OF _ _ this, of "word_of_int ?T"] T
      have "\<exists>a. Kobo_Percent salary (word_of_int ?e) (word_of_int ?T) = Inr a \<and>
          rounds_half_even (sint salary * ?e) ?T (sint a)"
        by (simp add: w)
      moreover have "AccruedToDate salary period asOf = Kobo_Percent salary (word_of_int ?e) (word_of_int ?T)"
        using part False by (simp add: alt go_simps sless_sint)
      ultimately show ?thesis by (simp only: e)
    qed
  qed
qed


lemma Hour_pos [simp]: "0 < Hour"
  by (simp add: Hour_def)

lemma sdiv_exact:
  fixes h c :: int
  assumes "0 < h"
  shows "h * c sdiv h = c" "h * c smod h = 0"
  using assms by (simp_all add: signed_divide_int_def signed_modulo_int_def sgn_mult abs_mult mult_sgn_abs)

lemma whole_days_exact:
  assumes "- (2 ^ 63) \<le> Day * k" "Day * k < 2 ^ 63"
  shows "whole_days (Day * (z + k)) (Day * z) = k"
proof -
  have sub: "time_Sub (Day * (z + k)) (Day * z) = Day * k"
    using assms by (simp add: time_Sub_def distrib_left)
  have k: "\<bar>k\<bar> < 2 ^ 20" using assms by (simp add: Day_def Hour_def)
  have "Day * k = Hour * (24 * k)" by (simp add: Day_def)
  then have h: "Day * k sdiv Hour = 24 * k" "Day * k smod Hour = 0"
    using sdiv_exact [OF Hour_pos, of "24 * k"] by (simp_all only:)
  have i: "float64_of_int (24 * k) = of_int (24 * k)"
    unfolding float64_of_int_def by (rule f64.rnd_int) (use k in simp)
  have "Duration_Hours (Day * k) = of_int (24 * k)"
    using f64.rnd_int [of "24 * k"] k unfolding Duration_Hours_def h i
    by (simp add: fadd_def fdiv_def float64_of_int_def)
  then have "fdiv (Duration_Hours (Day * k)) 24 = of_int k"
    using f64.rnd_int [of k] k by (simp add: fdiv_def)
  then show ?thesis by (simp add: whole_days_def sub int_of_float64_def)
qed



lemma day_aligned_less: "Day * a < Day * b \<longleftrightarrow> a < (b :: int)"
  by (rule mult_less_cancel_left_pos [OF Day_pos])

lemma d2cAccruedToDate_rounds:
  assumes cyc: "T = np div Day - ps div Day" "0 < T" "Day * T < 2 ^ 63"
    and avg: "0 \<le> sint avg" "sint avg * T < 2 ^ 63"
  shows "\<exists>a. d2cAccruedToDate avg ps np t = Inr a \<and>
    rounds_half_even (sint avg * max 0 (min T (t div Day - ps div Day))) T (sint a)"
proof -
  define z where "z = ps div Day"
  define e where "e = t div Day - z"
  have np: "np div Day = z + T" and td: "t div Day = z + e" using cyc by (simp_all add: z_def e_def)
  have total: "whole_days (Day * (z + T)) (Day * z) = T"
    using cyc by (intro whole_days_exact) (auto simp: order_trans [of _ 0] less_imp_le)
  have elapsed: "whole_days (Day * (z + e)) (Day * z) = e" if "0 \<le> e" "e < T"
  proof (rule whole_days_exact)
    have "Day * e < Day * T" using that by (simp only: day_aligned_less)
    then show "Day * e < 2 ^ 63" using cyc by linarith
    have "0 \<le> Day * e" using that by (simp add: less_imp_le)
    then show "- (2 ^ 63) \<le> Day * e" by simp
  qed
  have alt: "d2cAccruedToDate avg ps np t =
    (if \<not> Kobo_IsPositive avg \<or> e < 0 then Inr 0 else if T \<le> e then Inr avg
     else if e = 0 then Inr 0 else Kobo_Percent avg (word_of_int e) (word_of_int T))"
    using cyc elapsed
    by (auto simp: d2cAccruedToDate_def truncateToDay np td z_def [symmetric] total day_aligned_less Let_def)
  consider (none) "sint avg = 0 \<or> e \<le> 0" | (full) "0 < sint avg" "T \<le> e" | (part) "0 < sint avg" "0 < e" "e < T"
    using avg by linarith
  then show ?thesis
  proof cases
    case none
    then have "d2cAccruedToDate avg ps np t = Inr 0" using cyc unfolding alt by (auto simp: go_simps sless_sint)
    moreover have "sint avg * max 0 (min T (t div Day - ps div Day)) = 0" using none by (auto simp: e_def z_def)
    ultimately show ?thesis using cyc(2) by (simp only: rounds_half_even_def) simp
  next
    case full
    then have "d2cAccruedToDate avg ps np t = Inr avg" using cyc unfolding alt by (simp add: go_simps sless_sint)
    moreover have "max 0 (min T e) = T" using full cyc by simp
    ultimately show ?thesis using cyc by (simp add: e_def z_def rounds_half_even_def)
  next
    case part
    have T: "T \<le> 2 ^ 62" using cyc by (simp add: Day_def Hour_def)
    have w: "sint (word_of_int e :: int64) = e" "sint (word_of_int T :: int64) = T"
      using part cyc(2) T by (auto intro!: sint64_small)
    have "sint avg * e \<le> sint avg * T" using part by (intro mult_left_mono) simp_all
    moreover have "0 \<le> sint avg * e" using part by simp
    ultimately have "in64 (sint avg * e)" using avg by (intro in64_I) linarith+
    then have "in64 (sint avg * sint (word_of_int e :: int64))" by (simp add: w)
    from Kobo_Percent_rounds [OF _ _ this, of "word_of_int T"] T cyc(2)
    have "\<exists>a. Kobo_Percent avg (word_of_int e) (word_of_int T) = Inr a \<and> rounds_half_even (sint avg * e) T (sint a)"
      by (simp add: w)
    moreover have "d2cAccruedToDate avg ps np t = Kobo_Percent avg (word_of_int e) (word_of_int T)"
      using part unfolding alt by (simp add: go_simps sless_sint)
    moreover have "max 0 (min T e) = e" using part by simp
    ultimately show ?thesis by (simp add: e_def z_def)
  qed
qed

text \<open>The pay dates around an instant: the last one is before it, the next period after.\<close>

lemma lastPayday_before: "lastPayday t < t"
proof -
  have "lastPayday t = Day * month_start (month_of_day (t div Day)) - Day"
    by (simp add: lastPayday_def AddDate_days Date_1 month_index_split)
  then show ?thesis using instant_in_month [of t] Day_pos by linarith
qed

lemma firstOfNextPeriod_after: "t < firstOfNextPeriod t"
proof -
  have "firstOfNextPeriod t = Day * month_start (month_of_day (t div Day) + 1)"
    by (simp add: firstOfNextPeriod_def Date_1 month_index_split AddDate_month_start)
  then show ?thesis using instant_in_month [of t] by simp
qed

subsection \<open>Properties\<close>

text \<open>
  C37: the loop of \<open>workingDaysBetween\<close> terminates for every pair of instants and counts
  exactly the Monday-to-Friday days whose midnight lies in the range.
\<close>

theorem working_days_reference:
  "workingDaysBetween from to =
     int (card {z. from div Day \<le> z \<and> Day * z < to \<and> Weekday (Day * z) \<notin> {0, 6}})"
proof -
  have "{z. from div Day \<le> z \<and> Day * z < to \<and> Weekday (Day * z) \<notin> {0, 6}} =
    {z. from div Day \<le> z \<and> z < day_limit to \<and> is_workday z}"
    by (auto simp: day_limit Weekday_def is_workday_def)
  then show ?thesis by (simp add: workingDaysBetween workdays_def)
qed



text \<open>
  For a D2C worker the accrual over the predicted cycle never errs, lies between zero
  and the average deposit and never decreases as time passes, whenever the deposit times
  the length of the cycle fits in an \<open>int64\<close> (the \<open>float64\<close> day count is exact).
\<close>

theorem d2c_accrual_sound:
  assumes cyc: "0 < np div Day - ps div Day" "Day * (np div Day - ps div Day) < 2 ^ 63"
    and avg: "0 \<le> sint avg" "sint avg * (np div Day - ps div Day) < 2 ^ 63" and le: "t \<le> u"
  shows "\<exists>a b. d2cAccruedToDate avg ps np t = Inr a \<and> d2cAccruedToDate avg ps np u = Inr b \<and>
    0 \<le> sint a \<and> sint a \<le> sint b \<and> sint b \<le> sint avg \<and>
    (t div Day \<le> ps div Day \<longrightarrow> a = 0) \<and> (np \<le> u \<longrightarrow> b = avg)"
proof -
  define T where "T = np div Day - ps div Day"
  define f where "f x = max 0 (min T (x div Day - ps div Day))" for x
  have T: "0 < T" using cyc by (simp add: T_def)
  have f: "0 \<le> f x" "f x \<le> T" "f t \<le> f u" for x
    using T zdiv_mono1 [OF le Day_pos] by (auto simp: f_def)
  obtain a where a: "d2cAccruedToDate avg ps np t = Inr a" "rounds_half_even (sint avg * f t) T (sint a)"
    using d2cAccruedToDate_rounds [OF T_def] cyc avg unfolding f_def T_def by blast
  obtain b where b: "d2cAccruedToDate avg ps np u = Inr b" "rounds_half_even (sint avg * f u) T (sint b)"
    using d2cAccruedToDate_rounds [OF T_def] cyc avg unfolding f_def T_def by blast
  have zero: "rounds_half_even 0 T 0" and all: "rounds_half_even (sint avg * T) T (sint avg)"
    using T by (simp_all add: rounds_half_even_def)
  have "0 \<le> sint a" "sint a \<le> sint b" "sint b \<le> sint avg"
    using rounds_half_even_mono [OF T zero a(2)] rounds_half_even_mono [OF T a(2) b(2)]
      rounds_half_even_mono [OF T b(2) all] avg f
    by (simp_all add: mult_left_mono)
  moreover have "a = 0" if "t div Day \<le> ps div Day"
    using rounds_half_even_unique [OF T a(2), of 0] zero that T by (simp add: f_def)
  moreover have "b = avg" if "np \<le> u"
  proof -
    have "f u = T" using zdiv_mono1 [OF that Day_pos] T by (simp add: f_def T_def)
    then show ?thesis using rounds_half_even_unique [OF T b(2), of "sint avg"] all by (simp add: int64_eq_iff)
  qed
  ultimately show ?thesis using a(1) b(1) by blast
qed

theorem d2c_accrual_sound_witness:
  "\<exists>a b. d2cAccruedToDate 90000 (Date 2026 1 1 + Hour) (Date 2026 1 31) (Date 2026 1 1 + 2 * Hour) = Inr a \<and>
     d2cAccruedToDate 90000 (Date 2026 1 1 + Hour) (Date 2026 1 31) (Date 2026 1 31) = Inr b \<and> a = 0 \<and> b = 90000"
proof -
  have "0 < Date 2026 1 31 div Day - (Date 2026 1 1 + Hour) div Day"
    "Day * (Date 2026 1 31 div Day - (Date 2026 1 1 + Hour) div Day) < 2 ^ 63"
    "sint (90000 :: int64) * (Date 2026 1 31 div Day - (Date 2026 1 1 + Hour) div Day) < 2 ^ 63"
    "Date 2026 1 1 + 2 * Hour \<le> Date 2026 1 31"
    "(Date 2026 1 1 + 2 * Hour) div Day \<le> (Date 2026 1 1 + Hour) div Day"
    by code_simp+
  then show ?thesis
    using d2c_accrual_sound [of "Date 2026 1 31" "Date 2026 1 1 + Hour" 90000 "Date 2026 1 1 + 2 * Hour" "Date 2026 1 31"]
    by auto
qed

end
