(* ===== verification/Organization.thy ===== *)
theory Organization
  imports Store
begin

text \<open>
  \<open>models/organization.go\<close>, the \<open>Employee\<close> rows of \<open>models/models.go\<close> and the consent
  endpoints of \<open>handlers/consent_handler.go\<close>. Consent is append-only: a withdrawal is a
  new row, and only the newest row of an (organization, employee, type) triple counts.
  Encrypted columns are read and written as their plaintext (\<open>EncryptedString\<close> encrypts
  on \<open>Value\<close> and decrypts on \<open>Scan\<close>); the blind index on the email is not represented.
\<close>

datatype WageType = WageSalaried | WageHourly

record Employee =
  emp_id :: string
  emp_org :: string
  emp_name :: string
  emp_email :: string
  emp_account_number :: string
  emp_bank_code :: string
  emp_salary :: Kobo
  emp_wage_type :: WageType
  emp_hourly_rate :: Kobo
  emp_active :: bool
  emp_created_at :: time

definition Employee_IsHourly :: "Employee \<Rightarrow> bool" where
  [go_simps]: "Employee_IsHourly e \<longleftrightarrow> emp_wage_type e = WageHourly"

record Organization =
  org_id :: string
  org_name :: string
  org_role :: string
  org_region :: string
  org_currency :: Currency
  org_is_d2c :: bool
  org_active :: bool

record ConsentRecord =
  con_id :: string
  con_org :: string
  con_employee :: string
  con_type :: string
  con_granted :: bool
  con_ip :: string
  con_agent :: string
  con_at :: time
  con_expires :: "time option"

record org_db = base_db +
  organizations :: "Organization list"
  employees :: "Employee list"
  consent_records :: "ConsentRecord list"

definition Employee_BeforeCreate :: "('z base_db_scheme) \<Rightarrow> Employee \<Rightarrow> Employee" where
  "Employee_BeforeCreate db e = (if emp_id e = [] then e\<lparr>emp_id := fresh_id ''EMP-'' db\<rparr> else e)"

definition Organization_BeforeCreate :: "('z base_db_scheme) \<Rightarrow> Organization \<Rightarrow> Organization" where
  "Organization_BeforeCreate db o1 =
     (if org_id o1 = [] then o1\<lparr>org_id := fresh_id ''ORG-'' db\<rparr> else o1)"

definition ConsentRecord_BeforeCreate :: "('z base_db_scheme) \<Rightarrow> ConsentRecord \<Rightarrow> ConsentRecord" where
  "ConsentRecord_BeforeCreate db cr =
     (if con_id cr = [] then cr\<lparr>con_id := fresh_id ''CON-'' db\<rparr> else cr)"

definition OrgCurrencyTx :: "('z org_db_scheme) \<Rightarrow> string \<Rightarrow> Currency res" where
  "OrgCurrencyTx db orgID =
     rbind (find_row (\<lambda>o1. org_id o1 = orgID) (organizations db)) (\<lambda>o1. Inr (org_currency o1))"

subsection \<open>Consent\<close>

definition HasActiveConsent ::
  "time \<Rightarrow> ('z org_db_scheme) \<Rightarrow> string \<Rightarrow> string \<Rightarrow> string \<Rightarrow> bool" where
  "HasActiveConsent now db orgID employeeID consentType =
     (case first_by (\<lambda>c. (- con_at c, con_id c))
             (\<lambda>c. con_org c = orgID \<and> con_employee c = employeeID \<and> con_type c = consentType)
             (consent_records db) of
        Inl _ \<Rightarrow> False
      | Inr latest \<Rightarrow>
          con_granted latest \<and>
          (case con_expires latest of None \<Rightarrow> True | Some t \<Rightarrow> now < t))"

definition RecordConsent ::
  "time \<Rightarrow> ('z org_db_scheme) \<Rightarrow> string \<Rightarrow> string \<Rightarrow> string \<Rightarrow> bool \<Rightarrow> time option \<Rightarrow> string \<Rightarrow> string
     \<Rightarrow> ConsentRecord res \<times> ('z org_db_scheme)" where
  "RecordConsent now db orgID employeeID consentType granted expiresAt clientIP userAgent =
     (if employeeID = [] \<or> consentType = [] then (Inl (ErrOther ''invalid request body''), db)
      else WithOrgScope db (\<lambda>db.
        if count_where (\<lambda>e. emp_id e = employeeID \<and> emp_org e = orgID) (employees db) = 0
        then Inl (ErrOther ''employee not found'')
        else
          let record = ConsentRecord_BeforeCreate db
                \<lparr>con_id = [], con_org = orgID, con_employee = employeeID, con_type = consentType,
                 con_granted = granted, con_ip = clientIP, con_agent = userAgent, con_at = now,
                 con_expires = expiresAt\<rparr>
          in rbind (insert_row con_id record (consent_records db)) (\<lambda>rows.
             rbind (AppendAuditTx ((take_uuid db)\<lparr>consent_records := rows\<rparr>) orgID ''ConsentRecord''
                      (con_id record) ''consent_recorded'' [] consentType clientIP []) (\<lambda>db'.
             Inr (record, db')))))"

definition GetConsent :: "('z org_db_scheme) \<Rightarrow> string \<Rightarrow> string \<Rightarrow> ConsentRecord list" where
  "GetConsent db orgID employeeID =
     sort_key (\<lambda>c. - con_at c)
       (filter (\<lambda>c. con_org c = orgID \<and> con_employee c = employeeID) (consent_records db))"

subsection \<open>Library\<close>

lemma take_uuid_org [simp]:
  "organizations (take_uuid db) = organizations db" "employees (take_uuid db) = employees db"
  "consent_records (take_uuid db) = consent_records db"
  "org_db.more (take_uuid db) = org_db.more db"
  by (simp_all add: take_uuid_def)

lemma RecordConsent_Inr:
  assumes "RecordConsent now db orgID emp ty granted ex ip ag = (Inr r, db')"
  shows "consent_records db' = consent_records db @ [r] \<and> con_org r = orgID \<and> con_employee r = emp \<and>
    con_type r = ty \<and> con_granted r = granted \<and> con_at r = now \<and> con_expires r = ex \<and>
    employees db' = employees db \<and> organizations db' = organizations db \<and>
    (\<exists>e \<in> set (employees db). emp_id e = emp \<and> emp_org e = orgID)"
  using assms
  by (auto simp: RecordConsent_def WithOrgScope_def go_results Let_def count_where_eq_0_iff
      ConsentRecord_BeforeCreate_def split: if_splits sum.splits dest!: AppendAuditTx_Inr)

subsection \<open>Properties\<close>

text \<open>
  Recording consent takes effect at once and only where it was recorded: when the
  clock has moved past every earlier row, the new row alone decides whether that
  employee's consent of that type is active (so a withdrawal defeats every earlier
  grant), and the answer for every other (organization, employee, type) is unchanged.
\<close>

theorem latest_consent_wins:
  assumes rec: "RecordConsent now db orgID emp ty granted ex ip ag = (Inr r, db')"
    and clock: "\<forall>c \<in> set (consent_records db). con_at c < now"
  shows "HasActiveConsent later db' orgID emp ty =
           (granted \<and> (case ex of None \<Rightarrow> True | Some t \<Rightarrow> later < t)) \<and>
         ((o2, e2, t2) \<noteq> (orgID, emp, ty) \<longrightarrow>
            HasActiveConsent later db' o2 e2 t2 = HasActiveConsent later db o2 e2 t2)"
proof -
  note r = RecordConsent_Inr [OF rec]
  have "first_by (\<lambda>c. (- con_at c, con_id c))
      (\<lambda>c. con_org c = orgID \<and> con_employee c = emp \<and> con_type c = ty) (consent_records db') = Inr r"
    using r clock by (intro first_by_unique) auto
  then show ?thesis using r by (auto simp: HasActiveConsent_def first_by_def)
qed

definition consent_demo_db :: org_db where
  "consent_demo_db =
     \<lparr>uuids = demo_uuids, uuid_next = 0, audit_events = [],
      organizations = [],
      employees = [\<lparr>emp_id = ''EMP-1'', emp_org = ''ORG-1'', emp_name = ''A'', emp_email = ''a'',
        emp_account_number = ''1'', emp_bank_code = ''2'', emp_salary = 0, emp_wage_type = WageSalaried,
        emp_hourly_rate = 0, emp_active = True, emp_created_at = 0\<rparr>],
      consent_records = [\<lparr>con_id = ''CON-x'', con_org = ''ORG-1'', con_employee = ''EMP-1'',
        con_type = ''ewa_access'', con_granted = True, con_ip = [], con_agent = [], con_at = 5,
        con_expires = None\<rparr>]\<rparr>"

theorem latest_consent_wins_witness:
  "HasActiveConsent 20 consent_demo_db ''ORG-1'' ''EMP-1'' ''ewa_access'' \<and>
   \<not> HasActiveConsent 20
       (snd (RecordConsent 10 consent_demo_db ''ORG-1'' ''EMP-1'' ''ewa_access'' False None [] []))
       ''ORG-1'' ''EMP-1'' ''ewa_access''"
proof -
  obtain r where "RecordConsent 10 consent_demo_db ''ORG-1'' ''EMP-1'' ''ewa_access'' False None [] [] =
    (Inr r, snd (RecordConsent 10 consent_demo_db ''ORG-1'' ''EMP-1'' ''ewa_access'' False None [] []))"
    by (simp add: RecordConsent_def consent_demo_db_def count_where_def Let_def insert_row_def
        ConsentRecord_BeforeCreate_def fresh_id_def WithOrgScope_def AppendAuditTx_def appendAuditOn_def
        AuditEvent_BeforeCreate_def demo_uuids_def)
  from latest_consent_wins [OF this, of 20 "[]" "[]" "[]"]
  have "\<not> HasActiveConsent 20
       (snd (RecordConsent 10 consent_demo_db ''ORG-1'' ''EMP-1'' ''ewa_access'' False None [] []))
       ''ORG-1'' ''EMP-1'' ''ewa_access''" by (simp add: consent_demo_db_def)
  then show ?thesis by (simp add: HasActiveConsent_def consent_demo_db_def first_by_def)
qed

end
