(* ===== verification/Ledger.thy ===== *)
theory Ledger
  imports Organization
begin

text \<open>
  \<open>models/ledger.go\<close>: the double-entry ledger. Accounts and transactions are rows,
  balances are derived from the entries. Two database constraints the code relies on are
  part of the insert: the currency trigger of migration 000015 (an entry's account exists
  in the organization and has the entry's currency) and the uniqueness of the account
  identity. The deferred balance trigger of migration 000013 is not assumed: that it can
  never fire is a consequence of the invariant proved here.
\<close>

datatype Direction = Debit | Credit | OtherDirection string

datatype AccountType =
    AccountEmployerFunding
  | AccountAdvanceReceivable
  | AccountWagePayable
  | AccountCashSettlement
  | AccountFeeIncome
  | AccountWriteOffExpense
  | AccountEmployeeSavings
  | AccountHardshipGrantExpense
  | OtherAccountType string

fun normalBalances :: "AccountType \<Rightarrow> Direction option" where
  "normalBalances AccountEmployerFunding = Some Credit"
| "normalBalances AccountAdvanceReceivable = Some Debit"
| "normalBalances AccountWagePayable = Some Credit"
| "normalBalances AccountCashSettlement = Some Credit"
| "normalBalances AccountFeeIncome = Some Credit"
| "normalBalances AccountWriteOffExpense = Some Debit"
| "normalBalances AccountEmployeeSavings = Some Credit"
| "normalBalances AccountHardshipGrantExpense = Some Debit"
| "normalBalances (OtherAccountType _) = None"

record LedgerAccount =
  acc_id :: string
  acc_org :: string
  acc_employee :: "string option"
  acc_type :: AccountType
  acc_normal :: Direction
  acc_currency :: Currency

record LedgerTransaction =
  ltx_id :: string
  ltx_org :: string
  ltx_kind :: string
  ltx_reference :: string
  ltx_key :: string

record LedgerEntry =
  ent_tx :: string
  ent_account :: string
  ent_org :: string
  ent_direction :: Direction
  ent_amount :: int64
  ent_currency :: Currency

record ledger_db = org_db +
  ledger_accounts :: "LedgerAccount list"
  ledger_transactions :: "LedgerTransaction list"
  ledger_entries :: "LedgerEntry list"

record EntryInput =
  in_account :: string
  in_direction :: Direction
  in_amount :: money

record PostingRequest =
  req_org :: string
  req_kind :: string
  req_reference :: string
  req_key :: string
  req_entries :: "EntryInput list"

definition LedgerAccount_BeforeCreate :: "('z base_db_scheme) \<Rightarrow> LedgerAccount \<Rightarrow> LedgerAccount" where
  "LedgerAccount_BeforeCreate db a = (if acc_id a = [] then a\<lparr>acc_id := fresh_id ''LACC-'' db\<rparr> else a)"

definition LedgerTransaction_BeforeCreate ::
  "('z base_db_scheme) \<Rightarrow> LedgerTransaction \<Rightarrow> LedgerTransaction" where
  "LedgerTransaction_BeforeCreate db t = (if ltx_id t = [] then t\<lparr>ltx_id := fresh_id ''LTX-'' db\<rparr> else t)"

definition LedgerEntry_Money :: "LedgerEntry \<Rightarrow> money" where
  "LedgerEntry_Money e = \<lparr>Minor = ent_amount e, Curr = ent_currency e\<rparr>"

subsection \<open>Validation\<close>

fun validate_entries :: "Currency \<Rightarrow> money \<Rightarrow> money \<Rightarrow> EntryInput list \<Rightarrow> (money \<times> money) res" where
  "validate_entries c debits credits [] = Inr (debits, credits)"
| "validate_entries c debits credits (e # es) =
     (if Curr (in_amount e) \<noteq> c then Inl ErrCurrencyMismatch
      else if \<not> Money_IsPositive (in_amount e) then Inl ErrNonPositiveAmount
      else case in_direction e of
        Debit \<Rightarrow> rbind (Money_Add debits (in_amount e)) (\<lambda>d. validate_entries c d credits es)
      | Credit \<Rightarrow> rbind (Money_Add credits (in_amount e)) (\<lambda>cr. validate_entries c debits cr es)
      | OtherDirection _ \<Rightarrow> Inl ErrInvalidDirection)"

definition ValidatePosting :: "PostingRequest \<Rightarrow> unit res" where
  "ValidatePosting req =
     (if req_key req = [] then Inl ErrIdempotencyKeyRequired
      else case req_entries req of
        e0 # _ # _ \<Rightarrow>
          let c = Curr (in_amount e0)
          in if \<not> Currency_IsValid c then Inl ErrUnknownCurrency
             else rbind (validate_entries c \<lparr>Minor = 0, Curr = c\<rparr> \<lparr>Minor = 0, Curr = c\<rparr> (req_entries req))
               (\<lambda>(debits, credits).
                  if Minor debits \<noteq> Minor credits then Inl ErrUnbalanced else Inr ())
      | _ \<Rightarrow> Inl ErrNoEntries)"

subsection \<open>Posting\<close>

text \<open>The row-level checks of \<open>ledger_entries\<close>: amount, direction, account and currency.\<close>

definition entry_insertable :: "LedgerAccount list \<Rightarrow> LedgerEntry \<Rightarrow> bool" where
  "entry_insertable accs e \<longleftrightarrow>
     0 <s ent_amount e \<and> ent_direction e \<in> {Debit, Credit} \<and>
     (case find (\<lambda>a. acc_id a = ent_account e \<and> acc_org a = ent_org e) accs of
        None \<Rightarrow> False | Some a \<Rightarrow> acc_currency a = ent_currency e)"

definition create_entries :: "('z ledger_db_scheme) \<Rightarrow> LedgerEntry list \<Rightarrow> ('z ledger_db_scheme) res" where
  "create_entries db es =
     (if list_all (entry_insertable (ledger_accounts db)) es
      then Inr (db\<lparr>ledger_entries := ledger_entries db @ es\<rparr>)
      else Inl ErrCheckViolation)"

definition entry_of :: "string \<Rightarrow> string \<Rightarrow> EntryInput \<Rightarrow> LedgerEntry" where
  "entry_of tid orgID e =
     \<lparr>ent_tx = tid, ent_account = in_account e, ent_org = orgID, ent_direction = in_direction e,
      ent_amount = Minor (in_amount e), ent_currency = Curr (in_amount e)\<rparr>"

definition PostTransaction ::
  "('z ledger_db_scheme) \<Rightarrow> PostingRequest \<Rightarrow> (LedgerTransaction \<times> 'z ledger_db_scheme) res" where
  "PostTransaction db req =
     rbind (ValidatePosting req) (\<lambda>_.
       case find_row (\<lambda>t. ltx_org t = req_org req \<and> ltx_key t = req_key req) (ledger_transactions db) of
         Inr existing \<Rightarrow> Inr (existing, db)
       | Inl _ \<Rightarrow>
           let ltx = LedgerTransaction_BeforeCreate db
                 \<lparr>ltx_id = [], ltx_org = req_org req, ltx_kind = req_kind req,
                  ltx_reference = req_reference req, ltx_key = req_key req\<rparr>
           in rbind (insert_row ltx_id ltx (ledger_transactions db)) (\<lambda>rows.
              rbind (create_entries ((take_uuid db)\<lparr>ledger_transactions := rows\<rparr>)
                       (map (entry_of (ltx_id ltx) (req_org req)) (req_entries req))) (\<lambda>db'.
              Inr (ltx, db'))))"

definition EnsureAccount ::
  "('z ledger_db_scheme) \<Rightarrow> string \<Rightarrow> string \<Rightarrow> AccountType \<Rightarrow> Currency
     \<Rightarrow> (LedgerAccount \<times> 'z ledger_db_scheme) res" where
  "EnsureAccount db orgID employeeID at currency =
     (case normalBalances at of
        None \<Rightarrow> Inl ErrUnknownAccountType
      | Some normal \<Rightarrow>
          if \<not> Currency_IsValid currency then Inl ErrUnknownCurrency
          else
            let emp = (if employeeID = [] then None else Some employeeID)
            in case find_row (\<lambda>a. acc_org a = orgID \<and> acc_type a = at \<and> acc_currency a = currency \<and>
                                 acc_employee a = emp) (ledger_accounts db) of
                 Inr acct \<Rightarrow> Inr (acct, db)
               | Inl _ \<Rightarrow>
                   let acct = LedgerAccount_BeforeCreate db
                         \<lparr>acc_id = [], acc_org = orgID, acc_employee = emp, acc_type = at,
                          acc_normal = normal, acc_currency = currency\<rparr>
                   in rbind (insert_row acc_id acct (ledger_accounts db)) (\<lambda>rows.
                      Inr (acct, (take_uuid db)\<lparr>ledger_accounts := rows\<rparr>)))"

text \<open>
  \<open>SUM\<close> of a \<open>bigint\<close> column is an exact \<open>numeric\<close>; reading it into an \<open>int64\<close> field
  fails when it does not fit. The organization is the scope of the transaction.
\<close>

definition scan_sum :: "int64 list \<Rightarrow> int64 res" where
  "scan_sum xs = (let s = sum_list (map sint xs) in if in64 s then Inr (word_of_int s) else Inl ErrScan)"

definition AccountBalance :: "('z ledger_db_scheme) \<Rightarrow> string \<Rightarrow> string \<Rightarrow> money res" where
  "AccountBalance db orgID accountID =
     rbind (find_row (\<lambda>a. acc_id a = accountID \<and> acc_org a = orgID) (ledger_accounts db)) (\<lambda>acct.
       let es = filter (\<lambda>e. ent_account e = accountID \<and> ent_org e = orgID) (ledger_entries db)
       in rbind (scan_sum (map ent_amount (filter (\<lambda>e. ent_direction e = Debit) es))) (\<lambda>debits.
          rbind (scan_sum (map ent_amount (filter (\<lambda>e. ent_direction e = Credit) es))) (\<lambda>credits.
            let balance = (if acc_normal acct = Debit then debits - credits else credits - debits)
            in Inr \<lparr>Minor = balance, Curr = acc_currency acct\<rparr>)))"

subsection \<open>What a valid posting is\<close>

definition in_total :: "Direction \<Rightarrow> EntryInput list \<Rightarrow> int" where
  "in_total d es = sum_list (map (\<lambda>e. sint (Minor (in_amount e))) (filter (\<lambda>e. in_direction e = d) es))"

definition input_ok :: "Currency \<Rightarrow> EntryInput \<Rightarrow> bool" where
  "input_ok c e \<longleftrightarrow> Curr (in_amount e) = c \<and> 0 < sint (Minor (in_amount e)) \<and> in_direction e \<in> {Debit, Credit}"

lemma in_total_simps [simp]:
  "in_total d [] = 0"
  "in_total d (e # es) = (if in_direction e = d then sint (Minor (in_amount e)) else 0) + in_total d es"
  by (simp_all add: in_total_def)

lemma in_total_nonneg: "list_all (input_ok c) es \<Longrightarrow> 0 \<le> in_total d es"
  by (induction es) (auto simp: input_ok_def)

lemma Money_Add_ok:
  "Curr a = c \<Longrightarrow> Curr b = c \<Longrightarrow> in64 (sint (Minor a) + sint (Minor b)) \<Longrightarrow>
     \<exists>m. Money_Add a b = Inr m \<and> Curr m = c \<and> sint (Minor m) = sint (Minor a) + sint (Minor b)"
  by (simp add: Money_Add_Kobo Kobo_Add_exact KoboIn_def)

lemma money_eq_iff: "(a :: money) = b \<longleftrightarrow> sint (Minor a) = sint (Minor b) \<and> Curr a = Curr b"
  by (cases a; cases b) (simp add: int64_eq_iff)

lemma validate_entries_sound:
  "validate_entries c d cr es = Inr (d', cr') \<Longrightarrow>
     list_all (input_ok c) es \<and>
     sint (Minor d') = sint (Minor d) + in_total Debit es \<and> 
     sint (Minor cr') = sint (Minor cr) + in_total Credit es"
proof (induction es arbitrary: d cr)
  case (Cons e es)
  then have e: "Curr (in_amount e) = c" "0 < sint (Minor (in_amount e))"
    by (auto simp: Money_IsPositive_def sless_sint split: if_splits)
  show ?case
  proof (cases "in_direction e")
    case Debit
    with Cons.prems e obtain m where "Money_Add d (in_amount e) = Inr m"
      "validate_entries c m cr es = Inr (d', cr')"
      by (auto simp: rbind_eq_Inr split: if_splits)
    with Cons.IH [of m cr] e Debit show ?thesis by (simp add: Money_Add_Inr input_ok_def)
  next
    case Credit
    with Cons.prems e obtain m where "Money_Add cr (in_amount e) = Inr m"
      "validate_entries c d m es = Inr (d', cr')"
      by (auto simp: rbind_eq_Inr split: if_splits)
    with Cons.IH [of d m] e Credit show ?thesis by (simp add: Money_Add_Inr input_ok_def)
  qed (use Cons.prems in \<open>auto split: if_splits\<close>)
qed simp

lemma validate_entries_complete:
  "list_all (input_ok c) es \<Longrightarrow> Curr d = c \<Longrightarrow> Curr cr = c \<Longrightarrow>
   0 \<le> sint (Minor d) \<Longrightarrow> 0 \<le> sint (Minor cr) \<Longrightarrow>
   sint (Minor d) + in_total Debit es < 2 ^ 63 \<Longrightarrow> sint (Minor cr) + in_total Credit es < 2 ^ 63 \<Longrightarrow>
   \<exists>d' cr'. validate_entries c d cr es = Inr (d', cr')"
proof (induction es arbitrary: d cr)
  case Nil then show ?case by simp
next
  case (Cons e es)
  let ?a = "sint (Minor (in_amount e))"
  have e: "Curr (in_amount e) = c" "0 < ?a" "in_direction e \<in> {Debit, Credit}"
    using Cons.prems(1) by (auto simp: input_ok_def)
  have es: "list_all (input_ok c) es" using Cons.prems(1) by simp
  have nonneg: "0 \<le> in_total Debit es" "0 \<le> in_total Credit es" using es by (auto intro: in_total_nonneg)
  show ?case
  proof (cases "in_direction e")
    case Debit
    have "in64 (sint (Minor d) + ?a)" using Cons.prems e nonneg Debit by (intro in64_I) auto
    with Money_Add_ok [OF Cons.prems(2) e(1)] obtain m where
      m: "Money_Add d (in_amount e) = Inr m" "Curr m = c" "sint (Minor m) = sint (Minor d) + ?a" by blast
    with Cons.IH [OF es m(2) Cons.prems(3)] Cons.prems e Debit show ?thesis
      by (auto simp: Money_IsPositive_def sless_sint add.assoc)
  next
    case Credit
    have "in64 (sint (Minor cr) + ?a)" using Cons.prems e nonneg Credit by (intro in64_I) auto
    with Money_Add_ok [OF Cons.prems(3) e(1)] obtain m where
      m: "Money_Add cr (in_amount e) = Inr m" "Curr m = c" "sint (Minor m) = sint (Minor cr) + ?a" by blast
    with Cons.IH [OF es Cons.prems(2) m(2)] Cons.prems e Credit show ?thesis
      by (auto simp: Money_IsPositive_def sless_sint add.assoc)
  next
    case (OtherDirection x) then show ?thesis using e by simp
  qed
qed

lemma ValidatePosting_iff:
  "ValidatePosting req = Inr () \<longleftrightarrow>
     req_key req \<noteq> [] \<and> 2 \<le> length (req_entries req) \<and>
     (\<exists>c. Currency_IsValid c \<and> list_all (input_ok c) (req_entries req)) \<and>
     in_total Debit (req_entries req) = in_total Credit (req_entries req) \<and>
     in_total Debit (req_entries req) < 2 ^ 63" (is "?L \<longleftrightarrow> ?R")
proof
  assume ?L
  then obtain e0 e1 es where es: "req_entries req = e0 # e1 # es" and key: "req_key req \<noteq> []"
    by (auto simp: ValidatePosting_def split: if_splits list.splits)
  let ?c = "Curr (in_amount e0)"
  from \<open>?L\<close> es key obtain d cr where
    v: "validate_entries ?c \<lparr>Minor = 0, Curr = ?c\<rparr> \<lparr>Minor = 0, Curr = ?c\<rparr> (req_entries req) = Inr (d, cr)"
      "Minor d = Minor cr" and c: "Currency_IsValid ?c"
    by (auto simp: ValidatePosting_def Let_def go_results split: if_splits prod.splits)
  from validate_entries_sound [OF v(1)] v(2) sint64_less [of "Minor d"] c key es
  show ?R by auto
next
  assume R: ?R
  then obtain e0 e1 es where es: "req_entries req = e0 # e1 # es"
    by (cases "req_entries req"; cases "tl (req_entries req)") auto
  from R obtain c where c: "Currency_IsValid c" "list_all (input_ok c) (req_entries req)" by blast
  then have e0: "Curr (in_amount e0) = c" by (simp add: es input_ok_def)
  obtain d cr where
    v: "validate_entries c \<lparr>Minor = 0, Curr = c\<rparr> \<lparr>Minor = 0, Curr = c\<rparr> (req_entries req) = Inr (d, cr)"
    using validate_entries_complete [OF c(2), of "\<lparr>Minor = 0, Curr = c\<rparr>" "\<lparr>Minor = 0, Curr = c\<rparr>"] R by auto
  have "Minor d = Minor cr" using validate_entries_sound [OF v] R by (simp add: int64_eq_iff)
  then show ?L using R c v e0 es by (simp add: ValidatePosting_def Let_def)
qed

subsection \<open>The effect of the operations\<close>

lemma take_uuid_ledger [simp]:
  "ledger_accounts (take_uuid db) = ledger_accounts db"
  "ledger_transactions (take_uuid db) = ledger_transactions db"
  "ledger_entries (take_uuid db) = ledger_entries db"
  by (simp_all add: take_uuid_def)

text \<open>The transaction row a posting writes, and the entries it adds.\<close>

definition posting_row :: "('z base_db_scheme) \<Rightarrow> PostingRequest \<Rightarrow> LedgerTransaction" where
  "posting_row db req =
     \<lparr>ltx_id = fresh_id ''LTX-'' db, ltx_org = req_org req, ltx_kind = req_kind req,
      ltx_reference = req_reference req, ltx_key = req_key req\<rparr>"

definition posting_entries :: "('z base_db_scheme) \<Rightarrow> PostingRequest \<Rightarrow> LedgerEntry list" where
  "posting_entries db req = map (entry_of (fresh_id ''LTX-'' db) (req_org req)) (req_entries req)"

definition posted :: "('z ledger_db_scheme) \<Rightarrow> string \<Rightarrow> string \<Rightarrow> bool" where
  "posted db orgID key \<longleftrightarrow> (\<exists>t \<in> set (ledger_transactions db). ltx_org t = orgID \<and> ltx_key t = key)"

lemma PostTransaction_replay:
  assumes "ValidatePosting req = Inr ()" "posted db (req_org req) (req_key req)"
  obtains t where "PostTransaction db req = Inr (t, db)" "t \<in> set (ledger_transactions db)"
    "ltx_org t = req_org req" "ltx_key t = req_key req"
  using assms
  by (cases "find_row (\<lambda>t. ltx_org t = req_org req \<and> ltx_key t = req_key req) (ledger_transactions db)")
    (auto simp: PostTransaction_def posted_def find_row_Inl dest: find_row_Inr)

lemma PostTransaction_new:
  assumes "ValidatePosting req = Inr ()" "\<not> posted db (req_org req) (req_key req)"
  shows "PostTransaction db req =
    (if fresh_id ''LTX-'' db \<in> ltx_id ` set (ledger_transactions db) then Inl ErrUniqueViolation
     else if \<not> list_all (entry_insertable (ledger_accounts db)) (posting_entries db req)
     then Inl ErrCheckViolation
     else Inr (posting_row db req,
       db\<lparr>uuid_next := Suc (uuid_next db),
          ledger_transactions := ledger_transactions db @ [posting_row db req],
          ledger_entries := ledger_entries db @ posting_entries db req\<rparr>))"
proof -
  have "find_row (\<lambda>t. ltx_org t = req_org req \<and> ltx_key t = req_key req) (ledger_transactions db)
      = Inl ErrRecordNotFound"
    using assms(2) by (auto simp: find_row_Inl posted_def)
  then show ?thesis
    using assms(1)
    by (simp add: PostTransaction_def Let_def LedgerTransaction_BeforeCreate_def insert_row_def
        create_entries_def posting_row_def posting_entries_def take_uuid_def)
qed

lemma PostTransaction_Inr:
  assumes "PostTransaction db req = Inr (t, db')"
  obtains (replay) "ValidatePosting req = Inr ()" "db' = db" "posted db (req_org req) (req_key req)"
      "t \<in> set (ledger_transactions db)" "ltx_org t = req_org req" "ltx_key t = req_key req"
    | (fresh) "ValidatePosting req = Inr ()" "\<not> posted db (req_org req) (req_key req)" "t = posting_row db req"
      "ltx_id t \<notin> ltx_id ` set (ledger_transactions db)"
      "list_all (entry_insertable (ledger_accounts db)) (posting_entries db req)"
      "db' = db\<lparr>uuid_next := Suc (uuid_next db), ledger_transactions := ledger_transactions db @ [t],
                ledger_entries := ledger_entries db @ posting_entries db req\<rparr>"
proof -
  have v: "ValidatePosting req = Inr ()" using assms by (auto simp: PostTransaction_def go_results)
  show thesis
  proof (cases "posted db (req_org req) (req_key req)")
    case True
    from PostTransaction_replay [OF v True] obtain t' where "PostTransaction db req = Inr (t', db)"
      "t' \<in> set (ledger_transactions db)" "ltx_org t' = req_org req" "ltx_key t' = req_key req" .
    with assms replay [OF v _ True] show thesis by simp
  next
    case False
    with assms PostTransaction_new [OF v False] fresh [OF v False] show thesis
      by (auto simp: posting_row_def split: if_splits)
  qed
qed

lemma EnsureAccount_Inr:
  assumes "EnsureAccount db orgID emp at c = Inr (a, db')"
  obtains new where
    "db' = db\<lparr>uuid_next := uuid_next db + length new, ledger_accounts := ledger_accounts db @ new\<rparr>"
    "new = [] \<or> (new = [a] \<and> acc_id a \<notin> acc_id ` set (ledger_accounts db) \<and>
       \<not> (\<exists>b \<in> set (ledger_accounts db). acc_org b = orgID \<and> acc_type b = at \<and> acc_currency b = c \<and>
             acc_employee b = acc_employee a))"
    "a \<in> set (ledger_accounts db')" "acc_org a = orgID" "acc_type a = at" "acc_currency a = c"
    "acc_employee a = (if emp = [] then None else Some emp)" "Currency_IsValid c"
    "new = [a] \<Longrightarrow> normalBalances at = Some (acc_normal a)"
proof -
  let ?P = "\<lambda>a. acc_org a = orgID \<and> acc_type a = at \<and> acc_currency a = c \<and>
      acc_employee a = (if emp = [] then None else Some emp)"
  obtain normal where n: "normalBalances at = Some normal" "Currency_IsValid c"
    using assms by (auto simp: EnsureAccount_def split: option.splits if_splits)
  show thesis
  proof (cases "find_row ?P (ledger_accounts db)")
    case (Inr b)
    with assms n have "db' = db" "a = b" by (auto simp: EnsureAccount_def)
    with find_row_Inr [OF Inr] n show thesis by (intro that [of "[]"]) auto
  next
    case (Inl e)
    with assms n show thesis
      by (intro that [of "[a]"])
        (auto simp: EnsureAccount_def Let_def go_results LedgerAccount_BeforeCreate_def find_row_Inl
          take_uuid_def)
  qed
qed

subsection \<open>The ledger invariant\<close>

definition acc_identity :: "LedgerAccount \<Rightarrow> string \<times> string option \<times> AccountType \<times> Currency" where
  "acc_identity a = (acc_org a, acc_employee a, acc_type a, acc_currency a)"

definition entry_value :: "LedgerEntry \<Rightarrow> int" where
  "entry_value e =
     (case ent_direction e of Debit \<Rightarrow> sint (ent_amount e) | Credit \<Rightarrow> - sint (ent_amount e)
      | OtherDirection _ \<Rightarrow> 0)"

definition net :: "LedgerEntry list \<Rightarrow> int" where
  "net es = sum_list (map entry_value es)"

text \<open>The condition of the deferred trigger \<open>ledger_transaction_balanced\<close>.\<close>

definition transaction_balanced :: "LedgerEntry list \<Rightarrow> string \<Rightarrow> bool" where
  "transaction_balanced es tid \<longleftrightarrow>
     (let ts = filter (\<lambda>e. ent_tx e = tid) es
      in ts \<noteq> [] \<and> list_all (\<lambda>e. ent_currency e = ent_currency (hd ts)) ts \<and> net ts = 0)"

definition accounts_inv :: "LedgerAccount list \<Rightarrow> bool" where
  "accounts_inv accs \<longleftrightarrow>
     distinct (map acc_id accs) \<and> distinct (map acc_identity accs) \<and>
     list_all (\<lambda>a. normalBalances (acc_type a) = Some (acc_normal a) \<and> Currency_IsValid (acc_currency a)) accs"

definition postings_inv :: "LedgerAccount list \<Rightarrow> LedgerTransaction list \<Rightarrow> LedgerEntry list \<Rightarrow> bool" where
  "postings_inv accs ts es \<longleftrightarrow>
     distinct (map ltx_id ts) \<and> distinct (map (\<lambda>t. (ltx_org t, ltx_key t)) ts) \<and>
     list_all (entry_insertable accs) es \<and>
     list_all (\<lambda>e. (ent_tx e, ent_org e) \<in> set (map (\<lambda>t. (ltx_id t, ltx_org t)) ts)) es \<and>
     list_all (\<lambda>t. transaction_balanced es (ltx_id t)) ts"

definition ledger_inv :: "('z ledger_db_scheme) \<Rightarrow> bool" where
  "ledger_inv db \<longleftrightarrow>
     accounts_inv (ledger_accounts db) \<and>
     postings_inv (ledger_accounts db) (ledger_transactions db) (ledger_entries db)"

lemma net_simps [simp]:
  "net [] = 0" "net (e # es) = entry_value e + net es" "net (xs @ ys) = net xs + net ys"
  by (simp_all add: net_def)

lemma net_posting:
  "list_all (input_ok c) es \<Longrightarrow> net (map (entry_of tid orgID) es) = in_total Debit es - in_total Credit es"
  by (induction es) (auto simp: input_ok_def entry_value_def entry_of_def split: Direction.splits)

lemma entry_insertable_more:
  "entry_insertable accs e \<Longrightarrow> entry_insertable (accs @ accs') e"
proof -
  have "find P (accs @ accs') = (case find P accs of None \<Rightarrow> find P accs' | Some x \<Rightarrow> Some x)" for P
    by (induction accs) auto
  then show "entry_insertable accs e \<Longrightarrow> entry_insertable (accs @ accs') e"
    by (auto simp: entry_insertable_def split: option.splits)
qed

lemma entry_insertable_account:
  assumes "entry_insertable accs e"
  obtains b where "b \<in> set accs" "acc_id b = ent_account e" "acc_org b = ent_org e"
    "acc_currency b = ent_currency e"
proof -
  obtain b where "find (\<lambda>a. acc_id a = ent_account e \<and> acc_org a = ent_org e) accs = Some b"
    "acc_currency b = ent_currency e"
    using assms by (auto simp: entry_insertable_def split: option.splits)
  then show thesis using that [of b] by (auto simp: find_Some_iff)
qed

lemma EnsureAccount_inv:
  assumes "EnsureAccount db orgID emp at c = Inr (a, db')" "ledger_inv db"
  shows "ledger_inv db'"
  using assms(1)
proof (rule EnsureAccount_Inr)
  fix new
  assume db': "db' = db\<lparr>uuid_next := uuid_next db + length new, ledger_accounts := ledger_accounts db @ new\<rparr>"
    and new: "new = [] \<or> (new = [a] \<and> acc_id a \<notin> acc_id ` set (ledger_accounts db) \<and>
       \<not> (\<exists>b \<in> set (ledger_accounts db). acc_org b = orgID \<and> acc_type b = at \<and> acc_currency b = c \<and>
             acc_employee b = acc_employee a))"
    and a: "acc_org a = orgID" "acc_type a = at" "acc_currency a = c" "Currency_IsValid c"
      "new = [a] \<Longrightarrow> normalBalances at = Some (acc_normal a)"
  have "accounts_inv (ledger_accounts db')"
    using new a assms(2) by (auto simp: db' ledger_inv_def accounts_inv_def acc_identity_def image_iff)
  moreover have "postings_inv (ledger_accounts db') (ledger_transactions db') (ledger_entries db')"
    using assms(2) by (auto simp: db' ledger_inv_def postings_inv_def list_all_iff intro: entry_insertable_more)
  ultimately show ?thesis by (simp add: ledger_inv_def)
qed

lemma posting_balanced:
  assumes "ValidatePosting req = Inr ()" "fresh_id ''LTX-'' db \<notin> ent_tx ` set es"
  shows "transaction_balanced (es @ posting_entries db req) (fresh_id ''LTX-'' db)"
proof -
  from assms(1) obtain c where c: "list_all (input_ok c) (req_entries req)" "req_entries req \<noteq> []"
    "in_total Debit (req_entries req) = in_total Credit (req_entries req)"
    by (cases "req_entries req = []") (auto simp: ValidatePosting_iff)
  have "filter (\<lambda>e. ent_tx e = fresh_id ''LTX-'' db) (es @ posting_entries db req) = posting_entries db req"
    using assms(2) by (auto simp: posting_entries_def filter_empty_conv entry_of_def filter_id_conv image_iff)
  moreover have "net (posting_entries db req) = 0"
    using c net_posting [OF c(1)] by (simp add: posting_entries_def)
  ultimately show ?thesis using c
    by (simp add: transaction_balanced_def posting_entries_def list_all_iff input_ok_def entry_of_def hd_map)
qed

lemma PostTransaction_inv:
  assumes "PostTransaction db req = Inr (t, db')" "ledger_inv db"
  shows "ledger_inv db'"
  using assms(1)
proof (cases rule: PostTransaction_Inr)
  case replay then show ?thesis using assms(2) by simp
next
  case fresh
  let ?id = "fresh_id ''LTX-'' db" and ?ts = "ledger_transactions db" and ?es = "ledger_entries db"
  have id: "ltx_id t = ?id" "ltx_org t = req_org req" "ltx_key t = req_key req"
    using fresh by (simp_all add: posting_row_def)
  have inv: "postings_inv (ledger_accounts db) ?ts ?es" using assms(2) by (simp add: ledger_inv_def)
  have new: "ent_tx e = ?id" "ent_org e = req_org req" if "e \<in> set (posting_entries db req)" for e
    using that by (auto simp: posting_entries_def entry_of_def)
  have unused: "?id \<notin> ent_tx ` set ?es"
    using inv fresh id by (force simp: postings_inv_def list_all_iff)
  have old: "transaction_balanced (?es @ posting_entries db req) (ltx_id u)" if "u \<in> set ?ts" for u
  proof -
    have "ltx_id u \<noteq> ?id" using that fresh id by force
    then have "filter (\<lambda>e. ent_tx e = ltx_id u) (posting_entries db req) = []"
      using new by (auto simp: filter_empty_conv)
    then show ?thesis using inv that by (simp add: postings_inv_def list_all_iff transaction_balanced_def)
  qed
  have "postings_inv (ledger_accounts db) (?ts @ [t]) (?es @ posting_entries db req)"
    using inv fresh old posting_balanced [OF fresh(1) unused] new id
    by (auto simp: postings_inv_def list_all_iff posted_def)
  then show ?thesis using fresh assms(2) by (simp add: ledger_inv_def)
qed


subsection \<open>Trial balance\<close>

lemma net_partition:
  assumes "finite I" "\<forall>e \<in> set es. g e \<in> I"
  shows "net es = (\<Sum>i\<in>I. net (filter (\<lambda>e. g e = i) es))"
  using assms(2)
proof (induction es)
  case (Cons e es)
  have "(\<Sum>i\<in>I. net (filter (\<lambda>e. g e = i) (e # es))) =
        (\<Sum>i\<in>I. (if g e = i then entry_value e else 0) + net (filter (\<lambda>e. g e = i) es))"
    by (rule sum.cong) auto
  also have "\<dots> = entry_value e + (\<Sum>i\<in>I. net (filter (\<lambda>e. g e = i) es))"
    using Cons.prems assms(1) by (simp add: sum.distrib)
  finally show ?case using Cons by simp
qed simp

lemma entry_transaction:
  assumes "postings_inv accs ts es" "e \<in> set es"
  obtains t where "t \<in> set ts" "ltx_id t = ent_tx e" "ltx_org t = ent_org e"
proof -
  have "(ent_tx e, ent_org e) \<in> (\<lambda>t. (ltx_id t, ltx_org t)) ` set ts"
    using assms unfolding postings_inv_def list_all_iff by simp
  then show thesis using that by (elim imageE) simp
qed

lemma transaction_org:
  assumes inv: "postings_inv accs ts es" and "e \<in> set es" "e' \<in> set es" "ent_tx e = ent_tx e'"
  shows "ent_org e = ent_org e'"
proof -
  obtain t where t: "t \<in> set ts" "ltx_id t = ent_tx e" "ltx_org t = ent_org e"
    using entry_transaction [OF inv assms(2)] .
  obtain t' where t': "t' \<in> set ts" "ltx_id t' = ent_tx e'" "ltx_org t' = ent_org e'"
    using entry_transaction [OF inv assms(3)] .
  have "inj_on ltx_id (set ts)" using inv by (simp add: postings_inv_def distinct_map)
  then have "t = t'" using t t' assms(4) by (simp add: inj_on_def)
  then show ?thesis using t t' by simp
qed

lemma trial_balance:
  assumes inv: "ledger_inv db"
  shows "net (filter (\<lambda>e. ent_org e = orgID \<and> ent_currency e = c) (ledger_entries db)) = 0"
proof -
  let ?es = "ledger_entries db" and ?ts = "ledger_transactions db"
  let ?Q = "\<lambda>e. ent_org e = orgID \<and> ent_currency e = c"
  have p: "postings_inv (ledger_accounts db) ?ts ?es" using inv by (simp add: ledger_inv_def)
  have one: "net (filter (\<lambda>e. ent_tx e = i) (filter ?Q ?es)) = 0" if "i \<in> ltx_id ` set ?ts" for i
  proof -
    let ?t = "filter (\<lambda>e. ent_tx e = i) ?es"
    have b: "transaction_balanced ?es i" using p that by (auto simp: postings_inv_def list_all_iff)
    have cur: "\<forall>e \<in> set ?t. ent_currency e = ent_currency (hd ?t)"
      using b unfolding transaction_balanced_def Let_def list_all_iff by blast
    have same: "?Q e \<longleftrightarrow> ?Q e'" if "e \<in> set ?t" "e' \<in> set ?t" for e e'
    proof -
      have "ent_org e = ent_org e'" using transaction_org [OF p, of e e'] that by simp
      moreover have "ent_currency e = ent_currency e'" using cur that by metis
      ultimately show ?thesis by simp
    qed
    have "filter ?Q ?t = [] \<or> filter ?Q ?t = ?t"
      unfolding filter_empty_conv filter_id_conv using same by blast
    then have "net (filter ?Q ?t) = 0" using b by (auto simp: transaction_balanced_def Let_def)
    then show ?thesis by (simp add: conj_commute)
  qed
  have "\<forall>e \<in> set (filter ?Q ?es). ent_tx e \<in> ltx_id ` set ?ts"
    using entry_transaction [OF p] by (metis filter_is_subset imageI subsetD)
  then have "net (filter ?Q ?es) = (\<Sum>i \<in> ltx_id ` set ?ts. net (filter (\<lambda>e. ent_tx e = i) (filter ?Q ?es)))"
    by (intro net_partition) auto
  then show ?thesis using one by simp
qed

subsection \<open>Balances\<close>

definition entries_of :: "('z ledger_db_scheme) \<Rightarrow> string \<Rightarrow> LedgerEntry list" where
  "entries_of db aid = filter (\<lambda>e. ent_account e = aid) (ledger_entries db)"

text \<open>
  The abstract ledger: a signed balance per account, debits positive. A posting adds its
  lines; that is all an observer of the balances sees of it.
\<close>

definition balance :: "('z ledger_db_scheme) \<Rightarrow> string \<Rightarrow> int" where
  "balance db aid = net (entries_of db aid)"

definition posting_delta :: "EntryInput list \<Rightarrow> string \<Rightarrow> int" where
  "posting_delta es aid =
     in_total Debit (filter (\<lambda>e. in_account e = aid) es) - in_total Credit (filter (\<lambda>e. in_account e = aid) es)"

lemma balance_posting:
  assumes "ValidatePosting req = Inr ()"
  shows "net (filter (\<lambda>e. ent_account e = aid) (posting_entries db req)) = posting_delta (req_entries req) aid"
proof -
  obtain c where "list_all (input_ok c) (req_entries req)" using assms by (auto simp: ValidatePosting_iff)
  then have "list_all (input_ok c) (filter (\<lambda>e. in_account e = aid) (req_entries req))"
    by (simp add: list_all_iff)
  from net_posting [OF this] show ?thesis
    by (simp add: posting_entries_def posting_delta_def filter_map comp_def entry_of_def)
qed

lemma net_totals:
  "list_all (entry_insertable accs) es \<Longrightarrow>
     net es = sum_list (map (sint \<circ> ent_amount) (filter (\<lambda>e. ent_direction e = Debit) es)) -
              sum_list (map (sint \<circ> ent_amount) (filter (\<lambda>e. ent_direction e = Credit) es))"
  by (induction es) (auto simp: entry_insertable_def entry_value_def)


lemma sum_filter_nonneg:
  "list_all (entry_insertable accs) es \<Longrightarrow>
     0 \<le> sum_list (map (sint \<circ> ent_amount) (filter P es))"
  by (induction es) (auto simp: entry_insertable_def sless_sint)

lemma entries_of_scope:
  assumes inv: "ledger_inv db" and a: "a \<in> set (ledger_accounts db)"
  shows "filter (\<lambda>e. ent_account e = acc_id a \<and> ent_org e = acc_org a) (ledger_entries db) = entries_of db (acc_id a)"
proof -
  have ok: "list_all (entry_insertable (ledger_accounts db)) (ledger_entries db)"
    and ids: "inj_on acc_id (set (ledger_accounts db))"
    using inv by (simp_all add: ledger_inv_def postings_inv_def accounts_inv_def distinct_map)
  have "ent_org e = acc_org a" if "e \<in> set (ledger_entries db)" "ent_account e = acc_id a" for e
  proof -
    have "entry_insertable (ledger_accounts db) e" using ok that by (simp add: list_all_iff)
    then obtain b where "b \<in> set (ledger_accounts db)" "acc_id b = ent_account e" "acc_org b = ent_org e"
      by (rule entry_insertable_account)
    moreover from this have "b = a" using ids a that by (simp add: inj_on_def)
    ultimately show ?thesis by simp
  qed
  then show ?thesis unfolding entries_of_def by (intro filter_cong) auto
qed

lemma side_totals:
  assumes "ledger_inv db"
  shows "list_all (entry_insertable (ledger_accounts db)) (entries_of db i)"
    "0 \<le> sum_list (map (sint \<circ> ent_amount) (filter (\<lambda>e. ent_direction e = d) (entries_of db i)))"
    "filter (\<lambda>e. ent_direction e = OtherDirection x) (entries_of db i) = []"
proof -
  show ok: "list_all (entry_insertable (ledger_accounts db)) (entries_of db i)"
    using assms by (simp add: ledger_inv_def postings_inv_def list_all_iff entries_of_def)
  show "0 \<le> sum_list (map (sint \<circ> ent_amount) (filter (\<lambda>e. ent_direction e = d) (entries_of db i)))"
    by (rule sum_filter_nonneg [OF ok])
  show "filter (\<lambda>e. ent_direction e = OtherDirection x) (entries_of db i) = []"
    using ok by (auto simp: filter_empty_conv list_all_iff entry_insertable_def)
qed

lemma AccountBalance_exact:
  assumes inv: "ledger_inv db" and a: "a \<in> set (ledger_accounts db)"
    and fits: "\<And>d. sum_list (map (sint \<circ> ent_amount)
      (filter (\<lambda>e. ent_direction e = d) (entries_of db (acc_id a)))) < 2 ^ 63"
  shows "\<exists>m. AccountBalance db (acc_org a) (acc_id a) = Inr m \<and> Curr m = acc_currency a \<and>
    sint (Minor m) = (if acc_normal a = Debit then balance db (acc_id a) else - balance db (acc_id a)) \<and>
    - (2 ^ 63) < sint (Minor m)"
proof -
  let ?s = "\<lambda>d. sum_list (map (sint \<circ> ent_amount) (filter (\<lambda>e. ent_direction e = d) (entries_of db (acc_id a))))"
  note tot = side_totals [OF inv, where i = "acc_id a"]
  have s: "in64 (?s d)" for d
    using fits [of d] tot(2) [of d] by (auto intro!: in64_I)
  have diff: "in64 (?s d - ?s d')" "- (2 ^ 63) < ?s d - ?s d'" for d d'
    using tot(2) [of d] tot(2) [of d'] fits [of d] fits [of d'] by (auto intro!: in64_I)
  have ids: "inj_on acc_id (set (ledger_accounts db))"
    using inv by (simp add: ledger_inv_def accounts_inv_def distinct_map)
  have find: "find_row (\<lambda>b. acc_id b = acc_id a \<and> acc_org b = acc_org a) (ledger_accounts db) = Inr a"
  proof (cases "find_row (\<lambda>b. acc_id b = acc_id a \<and> acc_org b = acc_org a) (ledger_accounts db)")
    case (Inl e) then show ?thesis using a by (auto simp: find_row_Inl)
  next
    case (Inr b) then show ?thesis using find_row_Inr [OF Inr] ids a by (simp add: inj_on_def)
  qed
  have "balance db (acc_id a) = ?s Debit - ?s Credit" unfolding balance_def by (rule net_totals [OF tot(1)])
  then show ?thesis
    using s [of Debit] s [of Credit] diff
    by (simp add: AccountBalance_def find entries_of_scope [OF inv a] scan_sum_def Let_def comp_def)
qed

lemma AccountBalance_Inr:
  assumes inv: "ledger_inv db" and a: "a \<in> set (ledger_accounts db)"
    and b: "AccountBalance db (acc_org a) (acc_id a) = Inr m"
  shows "Curr m = acc_currency a \<and> - (2 ^ 63) < sint (Minor m) \<and>
    sint (Minor m) = (if acc_normal a = Debit then balance db (acc_id a) else - balance db (acc_id a))"
proof -
  let ?s = "\<lambda>d. sum_list (map (sint \<circ> ent_amount) (filter (\<lambda>e. ent_direction e = d) (entries_of db (acc_id a))))"
  have "in64 (?s Debit)" "in64 (?s Credit)"
    using b by (auto simp: AccountBalance_def go_results scan_sum_def Let_def entries_of_scope [OF inv a] comp_def
        split: if_splits)
  then have "?s d < 2 ^ 63" for d
    by (cases d) (auto simp: in64_def side_totals(3) [OF inv])
  from AccountBalance_exact [OF inv a this] b show ?thesis by auto
qed

subsection \<open>The interface the clients of the ledger use\<close>

type_synonym account_identity = "string \<times> string option \<times> AccountType \<times> Currency"

definition transfer :: "account_identity \<Rightarrow> account_identity \<Rightarrow> int \<Rightarrow> (account_identity \<Rightarrow> int) \<Rightarrow> account_identity \<Rightarrow> int" where
  "transfer to_debit to_credit m f =
     (\<lambda>k. f k + (if k = to_debit then m else 0) - (if k = to_credit then m else 0))"

definition owner :: "string \<Rightarrow> string option" where
  "owner employeeID = (if employeeID = [] then None else Some employeeID)"

definition pair_request :: "string \<Rightarrow> string \<Rightarrow> string \<Rightarrow> string \<Rightarrow> string \<Rightarrow> string \<Rightarrow> money \<Rightarrow> PostingRequest" where
  "pair_request orgID kind ref key debited credited m =
     \<lparr>req_org = orgID, req_kind = kind, req_reference = ref, req_key = key,
      req_entries = [\<lparr>in_account = debited, in_direction = Debit, in_amount = m\<rparr>,
                     \<lparr>in_account = credited, in_direction = Credit, in_amount = m\<rparr>]\<rparr>"

text \<open>
  What the money-moving services rely on: an account that was ensured stays, ensuring
  moves no money, and a two-line posting either is a replay, and changes nothing, or
  transfers exactly its amount between the two accounts.
\<close>

locale double_entry =
  fixes inv :: "'db \<Rightarrow> bool"
    and holds :: "'db \<Rightarrow> LedgerAccount \<Rightarrow> bool"
    and bal :: "'db \<Rightarrow> account_identity \<Rightarrow> int"
    and is_posted :: "'db \<Rightarrow> string \<Rightarrow> string \<Rightarrow> bool"
    and ensure :: "'db \<Rightarrow> string \<Rightarrow> string \<Rightarrow> AccountType \<Rightarrow> Currency \<Rightarrow> (LedgerAccount \<times> 'db) res"
    and post :: "'db \<Rightarrow> PostingRequest \<Rightarrow> (LedgerTransaction \<times> 'db) res"
  assumes ensure_law: "inv db \<Longrightarrow> ensure db orgID emp at c = Inr (a, db') \<Longrightarrow>
      inv db' \<and> bal db' = bal db \<and> is_posted db' = is_posted db \<and> holds db' a \<and>
      acc_identity a = (orgID, owner emp, at, c)"
    and ensure_keeps: "ensure db orgID emp at c = Inr (a, db') \<Longrightarrow> holds db b \<Longrightarrow> holds db' b"
    and post_law: "inv db \<Longrightarrow> holds db a \<Longrightarrow> holds db b \<Longrightarrow>
      post db (pair_request orgID kind ref key (acc_id a) (acc_id b) m) = Inr (t, db') \<Longrightarrow>
      inv db' \<and> 0 < sint (Minor m) \<and>
      is_posted db' = (\<lambda>o1 k. is_posted db o1 k \<or> (o1 = orgID \<and> k = key)) \<and>
      (is_posted db orgID key \<longrightarrow> db' = db) \<and>
      (\<not> is_posted db orgID key \<longrightarrow>
         bal db' = transfer (acc_identity a) (acc_identity b) (sint (Minor m)) (bal db))"
begin

lemma pair_posting:
  assumes "inv db"
    and e1: "ensure db orgID emp1 at1 c = Inr (a, db1)"
    and e2: "ensure db1 orgID emp2 at2 c = Inr (b, db2)"
    and cases: "(x = a \<and> y = b) \<or> (x = b \<and> y = a)"
    and p: "post db2 (pair_request orgID kind ref key (acc_id x) (acc_id y) m) = Inr (t, db3)"
  shows "inv db3 \<and> 0 < sint (Minor m) \<and>
    is_posted db3 = (\<lambda>o1 k. is_posted db o1 k \<or> (o1 = orgID \<and> k = key)) \<and>
    bal db3 = (if is_posted db orgID key then bal db
               else transfer (acc_identity x) (acc_identity y) (sint (Minor m)) (bal db)) \<and>
    acc_identity a = (orgID, owner emp1, at1, c) \<and> acc_identity b = (orgID, owner emp2, at2, c)"
proof -
  note l1 = ensure_law [OF assms(1) e1]
  then have l2: "inv db2 \<and> bal db2 = bal db1 \<and> is_posted db2 = is_posted db1 \<and> holds db2 b \<and>
      acc_identity b = (orgID, owner emp2, at2, c)" using ensure_law [OF _ e2] by blast
  have "holds db2 a" using ensure_keeps [OF e2] l1 by blast
  with l2 cases have "holds db2 x" "holds db2 y" by auto
  with post_law [OF _ this p] l1 l2 show ?thesis by auto
qed

end

definition holds_account :: "('z ledger_db_scheme) \<Rightarrow> LedgerAccount \<Rightarrow> bool" where
  "holds_account db a \<longleftrightarrow> a \<in> set (ledger_accounts db)"

definition ledger_balance :: "('z ledger_db_scheme) \<Rightarrow> account_identity \<Rightarrow> int" where
  "ledger_balance db k =
     (case find (\<lambda>a. acc_identity a = k) (ledger_accounts db) of None \<Rightarrow> 0 | Some a \<Rightarrow> balance db (acc_id a))"

lemma find_identity:
  assumes "accounts_inv accs" "a \<in> set accs"
  shows "find (\<lambda>b. acc_identity b = acc_identity a) accs = Some a"
proof -
  have inj: "inj_on acc_identity (set accs)" using assms(1) by (simp add: accounts_inv_def distinct_map)
  show ?thesis
  proof (cases "find (\<lambda>b. acc_identity b = acc_identity a) accs")
    case None then show ?thesis using assms(2) by (auto simp: find_None_iff)
  next
    case (Some b) then show ?thesis using assms(2) inj by (auto simp: find_Some_iff inj_on_def)
  qed
qed

lemma no_entries_of_unknown:
  assumes "ledger_inv db" "i \<notin> acc_id ` set (ledger_accounts db)"
  shows "entries_of db i = []"
proof -
  have "ent_account e \<in> acc_id ` set (ledger_accounts db)" if "e \<in> set (ledger_entries db)" for e
  proof -
    have "entry_insertable (ledger_accounts db) e"
      using assms(1) that by (simp add: ledger_inv_def postings_inv_def list_all_iff)
    then show ?thesis by (rule entry_insertable_account) (metis imageI)
  qed
  then show ?thesis using assms(2) by (auto simp: entries_of_def filter_empty_conv)
qed


lemma EnsureAccount_balance:
  assumes inv: "ledger_inv db" and e: "EnsureAccount db orgID emp at c = Inr (a, db')"
  shows "ledger_balance db' = ledger_balance db"
  using e
proof (rule EnsureAccount_Inr)
  fix new
  assume db': "db' = db\<lparr>uuid_next := uuid_next db + length new, ledger_accounts := ledger_accounts db @ new\<rparr>"
    and new: "new = [] \<or> (new = [a] \<and> acc_id a \<notin> acc_id ` set (ledger_accounts db) \<and>
       \<not> (\<exists>b \<in> set (ledger_accounts db). acc_org b = orgID \<and> acc_type b = at \<and> acc_currency b = c \<and>
             acc_employee b = acc_employee a))"
    and a: "acc_org a = orgID" "acc_type a = at" "acc_currency a = c"
  have es: "entries_of db' = entries_of db" by (auto simp: db' entries_of_def fun_eq_iff)
  have app: "find P (xs @ [a]) = (case find P xs of None \<Rightarrow> if P a then Some a else None | Some x \<Rightarrow> Some x)"
    for P and xs by (induction xs) auto
  have "balance db (acc_id a) = 0" if "new = [a]"
    using new that no_entries_of_unknown [OF inv] by (simp add: balance_def)
  moreover have "find (\<lambda>b. acc_identity b = acc_identity a) (ledger_accounts db) = None" if "new = [a]"
    using new that a by (auto simp: find_None_iff acc_identity_def)
  ultimately show ?thesis using new
    by (auto simp: db' fun_eq_iff ledger_balance_def app balance_def entries_of_def split: option.splits if_splits)
qed

lemma PostTransaction_balance:
  assumes inv: "ledger_inv db" and p: "PostTransaction db req = Inr (t, db')"
    and new: "\<not> posted db (req_org req) (req_key req)"
  shows "balance db' aid = balance db aid + posting_delta (req_entries req) aid"
  using p
proof (cases rule: PostTransaction_Inr)
  case replay then show ?thesis using new by simp
next
  case fresh
  then show ?thesis using balance_posting [OF fresh(1)] by (simp add: balance_def entries_of_def)
qed

lemma PostTransaction_pair:
  assumes inv: "ledger_inv db" and a: "holds_account db a" and b: "holds_account db b"
    and p: "PostTransaction db (pair_request orgID kind ref key (acc_id a) (acc_id b) m) = Inr (t, db')"
    and new: "\<not> posted db orgID key"
  shows "ledger_balance db' = transfer (acc_identity a) (acc_identity b) (sint (Minor m)) (ledger_balance db)"
proof
  fix k
  let ?req = "pair_request orgID kind ref key (acc_id a) (acc_id b) m" and ?accs = "ledger_accounts db"
  have acc: "accounts_inv ?accs" using inv by (simp add: ledger_inv_def)
  then have ids: "inj_on acc_id (set ?accs)" and idents: "inj_on acc_identity (set ?accs)"
    by (simp_all add: accounts_inv_def distinct_map)
  have same: "ledger_accounts db' = ?accs" using p by (cases rule: PostTransaction_Inr) auto
  have delta: "balance db' aid = balance db aid + posting_delta (req_entries ?req) aid" for aid
    using PostTransaction_balance [OF inv p] new by (simp add: pair_request_def)
  show "ledger_balance db' k = transfer (acc_identity a) (acc_identity b) (sint (Minor m)) (ledger_balance db) k"
  proof (cases "find (\<lambda>a. acc_identity a = k) ?accs")
    case None
    then have "k \<noteq> acc_identity a" "k \<noteq> acc_identity b" using a b by (auto simp: find_None_iff holds_account_def)
    then show ?thesis using None by (simp add: ledger_balance_def same transfer_def)
  next
    case (Some x)
    then have x: "x \<in> set ?accs" "acc_identity x = k" by (auto simp: find_Some_iff)
    have "(acc_id y = acc_id x) = (k = acc_identity y)" if "holds_account db y" for y
      using x that ids idents by (metis holds_account_def inj_on_def)
    then show ?thesis using Some a b delta [of "acc_id x"]
      by (simp add: ledger_balance_def same transfer_def posting_delta_def pair_request_def)
  qed
qed

interpretation de: double_entry ledger_inv holds_account ledger_balance posted EnsureAccount PostTransaction
proof (unfold_locales, goal_cases)
  case (1 db orgID emp at c a db')
  from 1(2) have "posted db' = posted db \<and> holds_account db' a \<and> acc_identity a = (orgID, owner emp, at, c)"
    by (rule EnsureAccount_Inr) (auto simp: holds_account_def acc_identity_def owner_def posted_def fun_eq_iff)
  with EnsureAccount_inv [OF 1(2,1)] EnsureAccount_balance [OF 1] show ?case by blast
next
  case (2 db orgID emp at c a db' b)
  then show ?case by (elim EnsureAccount_Inr) (auto simp: holds_account_def)
next
  case (3 db a b orgID kind ref key m t db')
  have "ValidatePosting (pair_request orgID kind ref key (acc_id a) (acc_id b) m) = Inr ()"
    using 3(4) by (cases rule: PostTransaction_Inr)
  then have "0 < sint (Minor m)" by (auto simp: ValidatePosting_iff pair_request_def input_ok_def)
  moreover have "posted db' = (\<lambda>o1 k. posted db o1 k \<or> (o1 = orgID \<and> k = key)) \<and>
      (posted db orgID key \<longrightarrow> db' = db)"
    using 3(4)
    by (cases rule: PostTransaction_Inr)
      (auto simp: posted_def pair_request_def posting_row_def fun_eq_iff)
  ultimately show ?case using PostTransaction_inv [OF 3(4,1)] PostTransaction_pair [OF 3(1-4)] by blast
qed

subsection \<open>Frames\<close>

text \<open>Ledger operations leave every table but the ledger's own alone.\<close>

definition ledger_frame :: "('z ledger_db_scheme) \<Rightarrow> ('z ledger_db_scheme) \<Rightarrow> bool" where
  "ledger_frame db db' \<longleftrightarrow>
     db' = db\<lparr>uuid_next := uuid_next db', ledger_accounts := ledger_accounts db',
             ledger_transactions := ledger_transactions db', ledger_entries := ledger_entries db'\<rparr>"

lemma ledger_frame_refl [simp]: "ledger_frame db db"
  by (simp add: ledger_frame_def)

lemma ledger_frame_trans: "ledger_frame a b \<Longrightarrow> ledger_frame b c \<Longrightarrow> ledger_frame a c"
  unfolding ledger_frame_def by (cases a; cases b; cases c) simp

lemma EnsureAccount_frame: "EnsureAccount db orgID emp at c = Inr (a, db') \<Longrightarrow> ledger_frame db db'"
  by (erule EnsureAccount_Inr) (simp add: ledger_frame_def)

lemma PostTransaction_frame: "PostTransaction db req = Inr (t, db') \<Longrightarrow> ledger_frame db db'"
  by (erule PostTransaction_Inr) (simp_all add: ledger_frame_def)

text \<open>
  The one pattern every money movement of the program follows: two accounts are ensured
  and a two-line posting is made under a key.
\<close>

definition moved ::
  "('z ledger_db_scheme) \<Rightarrow> ('z ledger_db_scheme) \<Rightarrow> string \<Rightarrow> string \<Rightarrow> account_identity \<Rightarrow>
   account_identity \<Rightarrow> int \<Rightarrow> bool" where
  "moved db db' orgID key debited credited m \<longleftrightarrow>
     ledger_inv db' \<and> ledger_frame db db' \<and> 0 < m \<and>
     posted db' = (\<lambda>o1 k. posted db o1 k \<or> (o1 = orgID \<and> k = key)) \<and>
     ledger_balance db' = (if posted db orgID key then ledger_balance db
                           else transfer debited credited m (ledger_balance db))"

lemma ensure_pair_post:
  assumes "ledger_inv db"
    and "EnsureAccount db orgID emp1 at1 c = Inr (a, db1)"
    and "EnsureAccount db1 orgID emp2 at2 c = Inr (b, db2)"
    and "(x = a \<and> y = b) \<or> (x = b \<and> y = a)"
    and "PostTransaction db2 (pair_request orgID kind ref key (acc_id x) (acc_id y) m) = Inr (t, db3)"
  shows "moved db db3 orgID key (acc_identity x) (acc_identity y) (sint (Minor m)) \<and>
    acc_identity a = (orgID, owner emp1, at1, c) \<and> acc_identity b = (orgID, owner emp2, at2, c)"
  using de.pair_posting [OF assms]
    ledger_frame_trans [OF EnsureAccount_frame [OF assms(2)]
      ledger_frame_trans [OF EnsureAccount_frame [OF assms(3)] PostTransaction_frame [OF assms(5)]]]
  by (simp add: moved_def)

text \<open>What the ledger's predicates do not look at.\<close>

lemma ledger_cong:
  assumes "ledger_accounts db' = ledger_accounts db" "ledger_transactions db' = ledger_transactions db"
    "ledger_entries db' = ledger_entries db"
  shows "ledger_inv db' = ledger_inv db" "posted db' = posted db" "ledger_balance db' = ledger_balance db"
proof -
  have "balance db' = balance db" using assms by (simp add: balance_def entries_of_def fun_eq_iff)
  then show "ledger_balance db' = ledger_balance db" using assms
    by (intro ext) (simp add: ledger_balance_def split: option.split)
qed (use assms in \<open>simp_all add: ledger_inv_def posted_def fun_eq_iff\<close>)

lemma ledger_cong_audit [simp]:
  "ledger_inv (db\<lparr>uuid_next := u, audit_events := a\<rparr>) = ledger_inv db"
  "posted (db\<lparr>uuid_next := u, audit_events := a\<rparr>) = posted db"
  "ledger_balance (db\<lparr>uuid_next := u, audit_events := a\<rparr>) = ledger_balance db"
  by (rule ledger_cong; simp)+

subsection \<open>Reachable ledgers\<close>

text \<open>
  The states a ledger goes through: it starts empty and changes by \<open>EnsureAccount\<close> and
  \<open>PostTransaction\<close>; whatever else the program does leaves the three tables alone.
\<close>

inductive ledger_reachable :: "('z ledger_db_scheme) \<Rightarrow> bool" where
  empty: "ledger_accounts db = [] \<Longrightarrow> ledger_transactions db = [] \<Longrightarrow> ledger_entries db = [] \<Longrightarrow>
    ledger_reachable db"
| ensure: "ledger_reachable db \<Longrightarrow> EnsureAccount db orgID emp at c = Inr (a, db') \<Longrightarrow> ledger_reachable db'"
| post: "ledger_reachable db \<Longrightarrow> PostTransaction db req = Inr (t, db') \<Longrightarrow> ledger_reachable db'"
| elsewhere: "ledger_reachable db \<Longrightarrow> ledger_accounts db' = ledger_accounts db \<Longrightarrow>
    ledger_transactions db' = ledger_transactions db \<Longrightarrow> ledger_entries db' = ledger_entries db \<Longrightarrow>
    ledger_reachable db'"

lemma ledger_reachable_inv: "ledger_reachable db \<Longrightarrow> ledger_inv db"
proof (induction rule: ledger_reachable.induct)
  case (empty db)
  then show ?case by (simp add: ledger_inv_def accounts_inv_def postings_inv_def)
next
  case (elsewhere db db')
  then show ?case by (simp add: ledger_inv_def)
qed (auto intro: EnsureAccount_inv PostTransaction_inv)

subsection \<open>Properties\<close>

text \<open>
  \<open>ValidatePosting\<close> accepts exactly the postings double-entry bookkeeping allows: a
  non-empty idempotency key, at least two lines, one supported currency, strictly
  positive amounts on a debit or credit side, and debit and credit totals that are equal
  as integers and fit in an \<open>int64\<close>.
\<close>

theorem validate_posting_exact:
  "ValidatePosting req = Inr () \<longleftrightarrow>
     req_key req \<noteq> [] \<and> 2 \<le> length (req_entries req) \<and>
     (\<exists>c. Currency_IsValid c \<and>
        list_all (\<lambda>e. Curr (in_amount e) = c \<and> 0 < sint (Minor (in_amount e)) \<and>
                      in_direction e \<in> {Debit, Credit}) (req_entries req)) \<and>
     in_total Debit (req_entries req) = in_total Credit (req_entries req) \<and>
     in_total Debit (req_entries req) < 2 ^ 63"
proof -
  have "input_ok c = (\<lambda>e. Curr (in_amount e) = c \<and> 0 < sint (Minor (in_amount e)) \<and>
      in_direction e \<in> {Debit, Credit})" for c
    by (simp add: input_ok_def fun_eq_iff)
  then show ?thesis by (simp only: ValidatePosting_iff)
qed

text \<open>
  C1: in every reachable ledger each transaction balances in a single currency (so the
  deferred constraint trigger never fires), every line is strictly positive and in its
  account's currency and organization, and the books of each organization balance to
  zero in each currency separately.
\<close>

theorem books_always_balance:
  assumes "ledger_reachable db"
  shows "(\<forall>t \<in> set (ledger_transactions db). transaction_balanced (ledger_entries db) (ltx_id t)) \<and>
         (\<forall>e \<in> set (ledger_entries db). 0 < sint (ent_amount e) \<and>
            (\<exists>a \<in> set (ledger_accounts db). acc_id a = ent_account e \<and> acc_org a = ent_org e \<and>
               acc_currency a = ent_currency e)) \<and>
         net (filter (\<lambda>e. ent_org e = orgID \<and> ent_currency e = c) (ledger_entries db)) = 0"
proof (intro conjI ballI)
  have inv: "ledger_inv db" using assms by (rule ledger_reachable_inv)
  show "net (filter (\<lambda>e. ent_org e = orgID \<and> ent_currency e = c) (ledger_entries db)) = 0"
    using inv by (rule trial_balance)
  show "transaction_balanced (ledger_entries db) (ltx_id t)" if "t \<in> set (ledger_transactions db)" for t
    using inv that by (simp add: ledger_inv_def postings_inv_def list_all_iff)
  fix e assume "e \<in> set (ledger_entries db)"
  then have ok: "entry_insertable (ledger_accounts db) e"
    using inv by (simp add: ledger_inv_def postings_inv_def list_all_iff)
  then show "0 < sint (ent_amount e)" by (simp add: entry_insertable_def sless_sint)
  from ok show "\<exists>a \<in> set (ledger_accounts db). acc_id a = ent_account e \<and> acc_org a = ent_org e \<and>
      acc_currency a = ent_currency e"
    by (rule entry_insertable_account) blast
qed

definition demo_ledger :: ledger_db where
  "demo_ledger =
     \<lparr>uuids = demo_uuids, uuid_next = 0, audit_events = [], organizations = [], employees = [],
      consent_records = [], ledger_accounts = [], ledger_transactions = [], ledger_entries = []\<rparr>"

text \<open>A first deposit on an empty ledger, for the witnesses.\<close>

definition demo_deposit :: PostingRequest where
  "demo_deposit = pair_request ''ORG-1'' ''employer_funding_deposit'' ''R'' ''k''
     ''LACC-00000000'' ''LACC-11111111'' (KoboIn NGN 500)"

definition demo_accounts :: "LedgerAccount list" where
  "demo_accounts =
     [\<lparr>acc_id = ''LACC-00000000'', acc_org = ''ORG-1'', acc_employee = None,
       acc_type = AccountCashSettlement, acc_normal = Credit, acc_currency = NGN\<rparr>,
      \<lparr>acc_id = ''LACC-11111111'', acc_org = ''ORG-1'', acc_employee = None,
       acc_type = AccountEmployerFunding, acc_normal = Credit, acc_currency = NGN\<rparr>]"

definition demo_opened :: ledger_db where
  "demo_opened = demo_ledger\<lparr>uuid_next := 2, ledger_accounts := demo_accounts\<rparr>"

definition demo_books :: ledger_db where
  "demo_books = demo_opened\<lparr>uuid_next := 3,
     ledger_transactions := [posting_row demo_opened demo_deposit],
     ledger_entries := posting_entries demo_opened demo_deposit\<rparr>"

lemma demo_opened_run:
  "EnsureAccount demo_ledger ''ORG-1'' [] AccountCashSettlement NGN =
     Inr (hd demo_accounts, demo_ledger\<lparr>uuid_next := 1, ledger_accounts := [hd demo_accounts]\<rparr>)"
  "EnsureAccount (demo_ledger\<lparr>uuid_next := 1, ledger_accounts := [hd demo_accounts]\<rparr>)
     ''ORG-1'' [] AccountEmployerFunding NGN = Inr (demo_accounts ! 1, demo_opened)"
  by (simp_all add: demo_accounts_def demo_ledger_def demo_opened_def EnsureAccount_def find_row_def
      insert_row_def LedgerAccount_BeforeCreate_def fresh_id_def take_uuid_def demo_uuids_def Let_def)

lemma demo_deposit_valid: "ValidatePosting demo_deposit = Inr ()"
  by (auto simp: ValidatePosting_iff demo_deposit_def pair_request_def input_ok_def KoboIn_def
      intro: exI [of _ NGN])

lemma demo_books_run:
  "PostTransaction demo_opened demo_deposit = Inr (posting_row demo_opened demo_deposit, demo_books)"
proof -
  have "\<not> posted demo_opened (req_org demo_deposit) (req_key demo_deposit)"
    by (simp add: posted_def demo_opened_def demo_ledger_def)
  from PostTransaction_new [OF demo_deposit_valid this] show ?thesis
    by (simp add: demo_books_def demo_opened_def demo_ledger_def posting_entries_def demo_deposit_def
        pair_request_def entry_of_def entry_insertable_def demo_accounts_def KoboIn_def word_sless_alt)
qed

lemma demo_books_reachable: "ledger_reachable demo_books"
proof -
  have "ledger_reachable demo_ledger" by (rule ledger_reachable.empty) (simp_all add: demo_ledger_def)
  from ledger_reachable.post [OF ledger_reachable.ensure [OF ledger_reachable.ensure
      [OF this demo_opened_run(1)] demo_opened_run(2)] demo_books_run] show ?thesis .
qed

theorem books_always_balance_witness:
  "ledger_reachable demo_books \<and> length (ledger_entries demo_books) = 2 \<and>
   net (filter (\<lambda>e. ent_org e = ''ORG-1'' \<and> ent_currency e = NGN) (ledger_entries demo_books)) = 0"
  using books_always_balance [OF demo_books_reachable, of "''ORG-1''" NGN] demo_books_reachable
  by (simp add: demo_books_def posting_entries_def demo_deposit_def pair_request_def)

text \<open>
  C14: a posting is idempotent on (organization, key): once it succeeded, every later
  valid posting under the same key returns the same transaction and writes nothing,
  whatever its lines are.
\<close>

theorem posting_idempotent:
  assumes inv: "ledger_inv db" and p: "PostTransaction db req = Inr (t, db')"
    and again: "ValidatePosting req2 = Inr ()" "req_org req2 = req_org req" "req_key req2 = req_key req"
  shows "PostTransaction db' req2 = Inr (t, db')"
proof -
  have t: "t \<in> set (ledger_transactions db')" "ltx_org t = req_org req" "ltx_key t = req_key req"
    using p by (cases rule: PostTransaction_Inr; simp add: posting_row_def)+
  then have "posted db' (req_org req2) (req_key req2)" using again by (auto simp: posted_def)
  from PostTransaction_replay [OF again(1) this] obtain t' where t': "PostTransaction db' req2 = Inr (t', db')"
    "t' \<in> set (ledger_transactions db')" "ltx_org t' = req_org req2" "ltx_key t' = req_key req2" .
  have "inj_on (\<lambda>t. (ltx_org t, ltx_key t)) (set (ledger_transactions db'))"
    using PostTransaction_inv [OF p inv] by (simp add: ledger_inv_def postings_inv_def distinct_map)
  then have "t' = t" using t t' again by (simp add: inj_on_def)
  then show ?thesis using t' by simp
qed

theorem posting_idempotent_witness:
  "PostTransaction demo_books demo_deposit = Inr (posting_row demo_opened demo_deposit, demo_books)"
proof -
  have "ledger_inv demo_opened"
    by (simp add: ledger_inv_def accounts_inv_def postings_inv_def demo_opened_def demo_ledger_def
        demo_accounts_def acc_identity_def)
  from posting_idempotent [OF this demo_books_run demo_deposit_valid] show ?thesis by simp
qed

text \<open>
  C13: \<open>PostTransaction\<close> refines the abstract ledger (a signed balance per account): a
  fresh posting changes each balance by exactly its own lines, a replay changes none;
  the invariant is kept and no table outside the ledger is touched.
\<close>

theorem posting_refines_balances:
  assumes "ledger_inv db" "PostTransaction db req = Inr (t, db')"
  shows "ledger_inv db' \<and> ledger_frame db db' \<and>
    (\<forall>aid. balance db' aid = balance db aid +
       (if posted db (req_org req) (req_key req) then 0 else posting_delta (req_entries req) aid))"
  using PostTransaction_inv [OF assms(2,1)] PostTransaction_frame [OF assms(2)]
    PostTransaction_balance [OF assms] assms(2)
  by (auto elim: PostTransaction_Inr)

theorem posting_refines_balances_witness:
  "balance demo_books ''LACC-00000000'' = 500 \<and> balance demo_books ''LACC-11111111'' = - 500"
proof -
  have "ledger_inv demo_opened"
    by (simp add: ledger_inv_def accounts_inv_def postings_inv_def demo_opened_def demo_ledger_def
        demo_accounts_def acc_identity_def)
  from posting_refines_balances [OF this demo_books_run] show ?thesis
    by (simp add: posted_def balance_def entries_of_def demo_opened_def demo_ledger_def posting_delta_def
        demo_deposit_def pair_request_def KoboIn_def)
qed

text \<open>
  \<open>AccountBalance\<close> reports the account's exact balance in its own currency and normal
  direction (debits minus credits for a debit-normal account, the reverse otherwise),
  whenever each side's total fits in an \<open>int64\<close>.
\<close>

theorem account_balance_exact:
  assumes "ledger_inv db" "a \<in> set (ledger_accounts db)"
    and "\<forall>d. sum_list (map (sint \<circ> ent_amount)
      (filter (\<lambda>e. ent_direction e = d) (entries_of db (acc_id a)))) < 2 ^ 63"
  shows "\<exists>m. AccountBalance db (acc_org a) (acc_id a) = Inr m \<and> Curr m = acc_currency a \<and>
    sint (Minor m) = (if acc_normal a = Debit then balance db (acc_id a) else - balance db (acc_id a))"
  using AccountBalance_exact [OF assms(1,2)] assms(3) by blast

theorem account_balance_exact_witness:
  "\<exists>m. AccountBalance demo_books ''ORG-1'' ''LACC-11111111'' = Inr m \<and> sint (Minor m) = 500"
proof -
  have a: "demo_accounts ! 1 \<in> set (ledger_accounts demo_books)"
    by (simp add: demo_books_def demo_opened_def demo_accounts_def)
  have e: "entries_of demo_books ''LACC-11111111'' =
      [entry_of ''LTX-22222222'' ''ORG-1'' \<lparr>in_account = ''LACC-11111111'', in_direction = Credit, in_amount = KoboIn NGN 500\<rparr>]"
    by (simp add: entries_of_def demo_books_def demo_opened_def demo_ledger_def posting_entries_def
        demo_deposit_def pair_request_def entry_of_def fresh_id_def demo_uuids_def)
  have "\<forall>d. sum_list (map (sint \<circ> ent_amount)
      (filter (\<lambda>e. ent_direction e = d) (entries_of demo_books (acc_id (demo_accounts ! 1))))) < 2 ^ 63"
    by (simp add: e demo_accounts_def entry_of_def KoboIn_def)
  from account_balance_exact [OF ledger_reachable_inv [OF demo_books_reachable] a this] e show ?thesis
    by (auto simp: demo_accounts_def entry_of_def KoboIn_def balance_def entry_value_def)
qed

end
