(* ===== verification/Advances.thy ===== *)
theory Advances
  imports Ledger
begin

text \<open>
  \<open>models/ewa.go\<close>, \<open>models/ewa_ledger.go\<close> and \<open>models/user.go\<close>: the advance lifecycle
  (a state machine driven by compare-and-swap updates) and the ledger postings that go
  with a cancellation, a write-off and a confirmation. Every \<open>time.Now()\<close> of one call is
  the argument \<open>now\<close>. The lemmas show which edges exist, that a second writer always
  loses, and what each operation does to the advance's row and to the worker's
  receivable account.
\<close>

subsection \<open>The advance lifecycle\<close>

datatype AdvanceStatus =
    AdvanceRequested
  | AdvanceApproved
  | AdvanceDisbursed
  | AdvanceSettled
  | AdvanceDeclined
  | AdvanceCancelled
  | AdvanceWrittenOff

fun AdvanceStatus_string :: "AdvanceStatus \<Rightarrow> string" where
  "AdvanceStatus_string AdvanceRequested = ''requested''"
| "AdvanceStatus_string AdvanceApproved = ''approved''"
| "AdvanceStatus_string AdvanceDisbursed = ''disbursed''"
| "AdvanceStatus_string AdvanceSettled = ''settled''"
| "AdvanceStatus_string AdvanceDeclined = ''declined''"
| "AdvanceStatus_string AdvanceCancelled = ''cancelled''"
| "AdvanceStatus_string AdvanceWrittenOff = ''written_off''"

fun validAdvanceTransitions :: "AdvanceStatus \<Rightarrow> AdvanceStatus list" where
  "validAdvanceTransitions AdvanceRequested = [AdvanceApproved, AdvanceDeclined, AdvanceCancelled]"
| "validAdvanceTransitions AdvanceApproved = [AdvanceDisbursed, AdvanceCancelled]"
| "validAdvanceTransitions AdvanceDisbursed = [AdvanceSettled, AdvanceWrittenOff]"
| "validAdvanceTransitions AdvanceSettled = []"
| "validAdvanceTransitions AdvanceDeclined = []"
| "validAdvanceTransitions AdvanceCancelled = []"
| "validAdvanceTransitions AdvanceWrittenOff = []"

definition CanTransitionAdvance :: "AdvanceStatus \<Rightarrow> AdvanceStatus \<Rightarrow> bool" where
  "CanTransitionAdvance from_st to_st = list_ex (\<lambda>allowed. allowed = to_st) (validAdvanceTransitions from_st)"

datatype DependencyTier = TierHealthy | TierElevated | TierStrained | TierDependent

record EWAAdvance =
  adv_id :: string
  adv_org :: string
  adv_employee :: string
  adv_user :: "string option"
  adv_period :: string
  adv_amount :: Kobo
  adv_fee :: Kobo
  adv_status :: AdvanceStatus
  adv_recovered :: Kobo
  adv_accrued :: Kobo
  adv_available :: Kobo
  adv_score :: int
  adv_tier :: DependencyTier
  adv_decline_reason :: string
  adv_key :: "string option"
  adv_settled_item :: "string option"
  adv_provider :: "string option"
  adv_provider_ref :: "string option"
  adv_requested_at :: time
  adv_disbursed_at :: "time option"
  adv_settled_at :: "time option"
  adv_updated_at :: time

record EWAPolicy =
  pol_org :: string
  pol_enabled :: bool
  pol_max_accrual_pct :: int64
  pol_absolute_cap :: Kobo
  pol_min_draw :: Kobo
  pol_max_draws :: nat
  pol_cooling_off_hours :: int
  pol_emergency_floor :: Kobo
  pol_require_funding :: bool
  pol_counselling_name :: string
  pol_counselling_contact :: string

record EWAWorkerPreference =
  pref_org :: string
  pref_employee :: string
  pref_protected_minor :: int64
  pref_last_changed :: "time option"

record User =
  usr_id :: string
  usr_employee :: string
  usr_org :: string
  usr_phone :: string
  usr_active :: bool

record ewa_db = ledger_db +
  advances :: "EWAAdvance list"
  ewa_policies :: "EWAPolicy list"
  worker_prefs :: "EWAWorkerPreference list"
  users :: "User list"

definition EWAAdvance_BeforeCreate :: "time \<Rightarrow> ('z base_db_scheme) \<Rightarrow> EWAAdvance \<Rightarrow> EWAAdvance" where
  "EWAAdvance_BeforeCreate now db a =
     (let a1 = (if adv_id a = [] then a\<lparr>adv_id := fresh_id ''EWA-'' db\<rparr> else a)
      in if adv_requested_at a1 = ZeroTime then a1\<lparr>adv_requested_at := now\<rparr> else a1)"

definition EWAAdvance_IsOutstanding :: "EWAAdvance \<Rightarrow> bool" where
  "EWAAdvance_IsOutstanding a \<longleftrightarrow> adv_status a = AdvanceApproved \<or> adv_status a = AdvanceDisbursed"

definition EWAAdvance_RemainingKobo :: "EWAAdvance \<Rightarrow> Kobo" where
  "EWAAdvance_RemainingKobo a =
     (case Kobo_Sub (adv_amount a) (adv_recovered a) of
        Inl _ \<Rightarrow> 0
      | Inr remaining \<Rightarrow> if Kobo_IsNegative remaining then 0 else remaining)"

definition ProtectedPayday :: "EWAWorkerPreference \<Rightarrow> Kobo" where
  "ProtectedPayday p = pref_protected_minor p"

subsection \<open>Default policy\<close>

definition defaultEWAPolicyMajorUnits :: "(Currency \<times> int64 \<times> int64 \<times> int64) list" where
  "defaultEWAPolicyMajorUnits =
     [(NGN, 200000, 1000, 5000), (USD, 500, 5, 20), (GHS, 3000, 30, 150), (KES, 30000, 300, 1500),
      (ZAR, 4000, 50, 200), (XOF, 150000, 1500, 7500), (GBP, 400, 4, 15), (EUR, 450, 5, 18)]"

definition minor_or_zero :: "money res \<Rightarrow> int64" where
  "minor_or_zero r = (case r of Inl _ \<Rightarrow> 0 | Inr m \<Rightarrow> Minor m)"

definition DefaultEWAPolicy :: "string \<Rightarrow> Currency \<Rightarrow> EWAPolicy" where
  "DefaultEWAPolicy orgID currency0 =
     (let (currency, amounts) =
        (case map_of defaultEWAPolicyMajorUnits currency0 of
           Some a \<Rightarrow> (currency0, a)
         | None \<Rightarrow> (NGN, the (map_of defaultEWAPolicyMajorUnits NGN)));
        (cap, min, floor) = amounts
      in \<lparr>pol_org = orgID, pol_enabled = True, pol_max_accrual_pct = 30,
          pol_absolute_cap = minor_or_zero (FromMajor cap currency),
          pol_min_draw = minor_or_zero (FromMajor min currency),
          pol_max_draws = 4, pol_cooling_off_hours = 24,
          pol_emergency_floor = minor_or_zero (FromMajor floor currency),
          pol_require_funding = False, pol_counselling_name = [], pol_counselling_contact = []\<rparr>)"

subsection \<open>Transitions\<close>

text \<open>The \<open>SET\<close> clause of \<open>TransitionAdvance\<close>.\<close>

definition stamp_advance :: "time \<Rightarrow> AdvanceStatus \<Rightarrow> EWAAdvance \<Rightarrow> EWAAdvance" where
  "stamp_advance now nxt r =
     (let r1 = r\<lparr>adv_status := nxt, adv_updated_at := now\<rparr>
      in case nxt of
           AdvanceDisbursed \<Rightarrow> r1\<lparr>adv_disbursed_at := Some now\<rparr>
         | AdvanceSettled \<Rightarrow> r1\<lparr>adv_settled_at := Some now\<rparr>
         | _ \<Rightarrow> r1)"

definition cas_advance ::
  "time \<Rightarrow> EWAAdvance list \<Rightarrow> string \<Rightarrow> AdvanceStatus \<Rightarrow> AdvanceStatus \<Rightarrow> EWAAdvance list res" where
  "cas_advance now rows advID current nxt =
     (if \<not> CanTransitionAdvance current nxt then Inl ErrInvalidTransition
      else
        let P = (\<lambda>r. adv_id r = advID \<and> adv_status r = current)
        in if count_where P rows = 0 then Inl ErrStaleStatus
           else Inr (update_where P (stamp_advance now nxt) rows))"

definition TransitionAdvance ::
  "time \<Rightarrow> ('z ewa_db_scheme) \<Rightarrow> EWAAdvance \<Rightarrow> AdvanceStatus \<Rightarrow> AdvanceStatus
     \<Rightarrow> (EWAAdvance \<times> 'z ewa_db_scheme) res" where
  "TransitionAdvance now db adv current nxt =
     rbind (cas_advance now (advances db) (adv_id adv) current nxt) (\<lambda>rows.
       Inr (adv\<lparr>adv_status := nxt\<rparr>, db\<lparr>advances := rows\<rparr>))"

definition update_advance ::
  "time \<Rightarrow> ('z ewa_db_scheme) \<Rightarrow> string \<Rightarrow> (EWAAdvance \<Rightarrow> EWAAdvance) \<Rightarrow> ('z ewa_db_scheme)" where
  "update_advance now db advID f =
     db\<lparr>advances := update_where (\<lambda>r. adv_id r = advID) (\<lambda>r. (f r)\<lparr>adv_updated_at := now\<rparr>) (advances db)\<rparr>"

text \<open>The idempotency keys of the advance postings.\<close>

definition advance_key :: "string \<Rightarrow> string" where
  "advance_key advID = ''ewa_advance:'' @ advID"

definition cancellation_key :: "string \<Rightarrow> string" where
  "cancellation_key advID = ''ewa_cancellation:'' @ advID"

definition write_off_key :: "string \<Rightarrow> string" where
  "write_off_key advID = ''ewa_write_off:'' @ advID"

definition settlement_key :: "string \<Rightarrow> string \<Rightarrow> string" where
  "settlement_key advID itemID = ''ewa_settlement:'' @ advID @ '':'' @ itemID"

lemma advance_keys_simps [simp]:
  "advance_key i = advance_key j \<longleftrightarrow> i = j" "cancellation_key i = cancellation_key j \<longleftrightarrow> i = j"
  "write_off_key i = write_off_key j \<longleftrightarrow> i = j" "settlement_key i m = settlement_key j m \<longleftrightarrow> i = j"
  "advance_key i \<noteq> cancellation_key j" "advance_key i \<noteq> write_off_key j" "advance_key i \<noteq> settlement_key j m"
  "cancellation_key i \<noteq> advance_key j" "cancellation_key i \<noteq> write_off_key j"
  "cancellation_key i \<noteq> settlement_key j m" "write_off_key i \<noteq> advance_key j"
  "write_off_key i \<noteq> cancellation_key j" "write_off_key i \<noteq> settlement_key j m"
  "settlement_key j m \<noteq> advance_key i" "settlement_key j m \<noteq> cancellation_key i"
  "settlement_key j m \<noteq> write_off_key i"
  by (simp_all add: advance_key_def cancellation_key_def write_off_key_def settlement_key_def)

definition CancelAdvance ::
  "time \<Rightarrow> ('z ewa_db_scheme) \<Rightarrow> EWAAdvance \<Rightarrow> AdvanceStatus \<Rightarrow> string
     \<Rightarrow> (EWAAdvance \<times> 'z ewa_db_scheme) res" where
  "CancelAdvance now db adv from_st reason =
     rbind (TransitionAdvance now db adv from_st AdvanceCancelled) (\<lambda>(adv', db1).
     let db2 = update_advance now db1 (adv_id adv) (\<lambda>r. r\<lparr>adv_decline_reason := reason\<rparr>)
     in rbind (OrgCurrencyTx db2 (adv_org adv)) (\<lambda>currency.
     rbind (EnsureAccount db2 (adv_org adv) (adv_employee adv) AccountAdvanceReceivable currency) (\<lambda>(receivable, db3).
     rbind (EnsureAccount db3 (adv_org adv) [] AccountCashSettlement currency) (\<lambda>(cash, db4).
     rbind (PostTransaction db4 (pair_request (adv_org adv) ''ewa_cancellation'' (adv_id adv)
              (cancellation_key (adv_id adv)) (acc_id cash) (acc_id receivable)
              (KoboIn currency (adv_amount adv)))) (\<lambda>(_, db5).
     rbind (AppendAuditTx db5 (adv_org adv) ''EWAAdvance'' (adv_id adv) ''cancelled''
              (AdvanceStatus_string from_st) reason ''internal'' []) (\<lambda>db6.
     Inr (adv', db6)))))))"

definition WriteOffAdvance ::
  "time \<Rightarrow> ('z ewa_db_scheme) \<Rightarrow> EWAAdvance \<Rightarrow> string \<Rightarrow> (EWAAdvance \<times> 'z ewa_db_scheme) res" where
  "WriteOffAdvance now db adv reason =
     rbind (TransitionAdvance now db adv AdvanceDisbursed AdvanceWrittenOff) (\<lambda>(adv', db1).
     let db2 = update_advance now db1 (adv_id adv) (\<lambda>r. r\<lparr>adv_decline_reason := reason\<rparr>)
     in rbind (OrgCurrencyTx db2 (adv_org adv)) (\<lambda>currency.
     rbind (EnsureAccount db2 (adv_org adv) (adv_employee adv) AccountAdvanceReceivable currency) (\<lambda>(receivable, db3).
     rbind (EnsureAccount db3 (adv_org adv) [] AccountWriteOffExpense currency) (\<lambda>(writeOff, db4).
     rbind (PostTransaction db4 (pair_request (adv_org adv) ''ewa_write_off'' (adv_id adv)
              (write_off_key (adv_id adv)) (acc_id writeOff) (acc_id receivable)
              (KoboIn currency (adv_amount adv)))) (\<lambda>(_, db5).
     rbind (AppendAuditTx db5 (adv_org adv) ''EWAAdvance'' (adv_id adv) ''written_off''
              (AdvanceStatus_string AdvanceDisbursed) reason ''internal'' []) (\<lambda>db6.
     Inr (adv', db6)))))))"

definition MarkSubmittedToProvider ::
  "time \<Rightarrow> ('z ewa_db_scheme) \<Rightarrow> string \<Rightarrow> string \<Rightarrow> string \<Rightarrow> ('z ewa_db_scheme) res" where
  "MarkSubmittedToProvider now db advID providerName providerReference =
     (let P = (\<lambda>r. adv_id r = advID \<and> adv_provider_ref r = None)
      in if count_where P (advances db) = 0 then Inl ErrAdvanceAlreadySubmitted
         else if list_ex (\<lambda>r. adv_provider r = Some providerName \<and>
                                adv_provider_ref r = Some providerReference) (advances db)
         then Inl ErrUniqueViolation
         else Inr (db\<lparr>advances := update_where P
                (\<lambda>r. r\<lparr>adv_provider := Some providerName, adv_provider_ref := Some providerReference,
                       adv_updated_at := now\<rparr>) (advances db)\<rparr>))"

definition ConfirmDisbursed ::
  "time \<Rightarrow> ('z ewa_db_scheme) \<Rightarrow> EWAAdvance \<Rightarrow> (EWAAdvance \<times> 'z ewa_db_scheme) res" where
  "ConfirmDisbursed now db adv =
     rbind (TransitionAdvance now db adv AdvanceApproved AdvanceDisbursed) (\<lambda>(adv', db1).
     rbind (AppendAuditTx db1 (adv_org adv) ''EWAAdvance'' (adv_id adv) ''disbursed''
              (AdvanceStatus_string AdvanceApproved) (AdvanceStatus_string AdvanceDisbursed) ''internal'' []) (\<lambda>db2.
     Inr (adv', db2)))"

subsection \<open>The state machine\<close>

lemma CanTransitionAdvance_iff:
  "CanTransitionAdvance a b \<longleftrightarrow>
     (a = AdvanceRequested \<and> b \<in> {AdvanceApproved, AdvanceDeclined, AdvanceCancelled}) \<or>
     (a = AdvanceApproved \<and> b \<in> {AdvanceDisbursed, AdvanceCancelled}) \<or>
     (a = AdvanceDisbursed \<and> b \<in> {AdvanceSettled, AdvanceWrittenOff})"
  by (cases a) (auto simp: CanTransitionAdvance_def)

lemma stamp_advance_simps [simp]:
  "adv_status (stamp_advance now nxt r) = nxt" "adv_id (stamp_advance now nxt r) = adv_id r"
  "adv_org (stamp_advance now nxt r) = adv_org r" "adv_employee (stamp_advance now nxt r) = adv_employee r"
  "adv_amount (stamp_advance now nxt r) = adv_amount r" "adv_recovered (stamp_advance now nxt r) = adv_recovered r"
  "adv_period (stamp_advance now nxt r) = adv_period r" "adv_key (stamp_advance now nxt r) = adv_key r"
  "adv_requested_at (stamp_advance now nxt r) = adv_requested_at r"
  "adv_provider_ref (stamp_advance now nxt r) = adv_provider_ref r"
  by (cases nxt; simp add: stamp_advance_def)+

interpretation adv: cas_transition CanTransitionAdvance adv_id adv_status "stamp_advance now" "cas_advance now"
  for now
  by unfold_locales (simp_all add: cas_advance_def Let_def, auto simp: CanTransitionAdvance_iff)

inductive advance_path :: "AdvanceStatus \<Rightarrow> AdvanceStatus \<Rightarrow> bool" where
  refl: "advance_path s s"
| step: "advance_path s t \<Longrightarrow> CanTransitionAdvance t u \<Longrightarrow> advance_path s u"

inductive_cases advance_path_stepE: "advance_path s t"

lemma advance_path_terminal:
  "advance_path s t \<Longrightarrow> s \<in> {AdvanceSettled, AdvanceDeclined, AdvanceCancelled, AdvanceWrittenOff} \<Longrightarrow> t = s"
  by (induction rule: advance_path.induct) (auto simp: CanTransitionAdvance_iff)

lemma advance_path_disbursed:
  "advance_path s t \<Longrightarrow> s = AdvanceDisbursed \<Longrightarrow> t \<in> {AdvanceDisbursed, AdvanceSettled, AdvanceWrittenOff}"
  by (induction rule: advance_path.induct) (auto simp: CanTransitionAdvance_iff)

subsection \<open>Advances and the receivable\<close>

definition advance_ok :: "EWAAdvance \<Rightarrow> bool" where
  "advance_ok a \<longleftrightarrow>
     adv_employee a \<noteq> [] \<and> 0 < sint (adv_amount a) \<and>
     0 \<le> sint (adv_recovered a) \<and> sint (adv_recovered a) \<le> sint (adv_amount a) \<and>
     (adv_status a \<in> {AdvanceRequested, AdvanceApproved, AdvanceDeclined, AdvanceCancelled} \<longrightarrow>
        adv_recovered a = 0)"

definition owed_by :: "string \<Rightarrow> string \<Rightarrow> EWAAdvance \<Rightarrow> int" where
  "owed_by orgID emp a =
     (if adv_org a = orgID \<and> adv_employee a = emp \<and> EWAAdvance_IsOutstanding a
      then sint (adv_amount a) - sint (adv_recovered a) else 0)"

definition owed :: "EWAAdvance list \<Rightarrow> string \<Rightarrow> string \<Rightarrow> int" where
  "owed rows orgID emp = sum_list (map (owed_by orgID emp) rows)"

definition receivable_of :: "string \<Rightarrow> string \<Rightarrow> Currency \<Rightarrow> account_identity" where
  "receivable_of orgID emp c = (orgID, Some emp, AccountAdvanceReceivable, c)"

definition cash_of :: "string \<Rightarrow> Currency \<Rightarrow> account_identity" where
  "cash_of orgID c = (orgID, None, AccountCashSettlement, c)"

text \<open>The postings that exist are those of advances in the matching state.\<close>

definition advance_keys_inv :: "EWAAdvance list \<Rightarrow> (string \<Rightarrow> string \<Rightarrow> bool) \<Rightarrow> bool" where
  "advance_keys_inv rows is_posted \<longleftrightarrow>
     (\<forall>o1 i.
        (is_posted o1 (advance_key i) \<longrightarrow> (\<exists>a \<in> set rows. adv_id a = i)) \<and>
        (is_posted o1 (cancellation_key i) \<longrightarrow>
           (\<exists>a \<in> set rows. adv_id a = i \<and> adv_status a = AdvanceCancelled)) \<and>
        (is_posted o1 (write_off_key i) \<longrightarrow>
           (\<exists>a \<in> set rows. adv_id a = i \<and> adv_status a = AdvanceWrittenOff)))"

definition receivables_match :: "EWAAdvance list \<Rightarrow> (account_identity \<Rightarrow> int) \<Rightarrow> (string \<Rightarrow> Currency res) \<Rightarrow> bool" where
  "receivables_match rows bal cur \<longleftrightarrow>
     (\<forall>orgID emp c. cur orgID = Inr c \<longrightarrow> emp \<noteq> [] \<longrightarrow> bal (receivable_of orgID emp c) = owed rows orgID emp)"

definition ewa_inv :: "('z ewa_db_scheme) \<Rightarrow> bool" where
  "ewa_inv db \<longleftrightarrow>
     ledger_inv db \<and> distinct (map adv_id (advances db)) \<and> list_all advance_ok (advances db) \<and>
     advance_keys_inv (advances db) (posted db) \<and>
     receivables_match (advances db) (ledger_balance db) (OrgCurrencyTx db)"

lemma ledger_frame_ewa:
  assumes "ledger_frame db db'"
  shows "advances db' = advances db" "ewa_policies db' = ewa_policies db"
    "worker_prefs db' = worker_prefs db" "users db' = users db"
    "organizations db' = organizations db" "employees db' = employees db"
    "consent_records db' = consent_records db" "audit_events db' = audit_events db" "uuids db' = uuids db"
    "ewa_db.more db' = ewa_db.more db" "OrgCurrencyTx db' = OrgCurrencyTx db"
proof -
  note e = assms [unfolded ledger_frame_def]
  show "advances db' = advances db" by (subst e) simp
  show "ewa_policies db' = ewa_policies db" by (subst e) simp
  show "worker_prefs db' = worker_prefs db" by (subst e) simp
  show "users db' = users db" by (subst e) simp
  show "employees db' = employees db" by (subst e) simp
  show "consent_records db' = consent_records db" by (subst e) simp
  show "audit_events db' = audit_events db" by (subst e) simp
  show "uuids db' = uuids db" by (subst e) simp
  show "ewa_db.more db' = ewa_db.more db" by (subst e) simp
  show o1: "organizations db' = organizations db" by (subst e) simp
  show "OrgCurrencyTx db' = OrgCurrencyTx db" by (simp add: OrgCurrencyTx_def fun_eq_iff o1)
qed

lemma ledger_cong_advances [simp]:
  "ledger_inv (db\<lparr>advances := a\<rparr>) = ledger_inv db" "posted (db\<lparr>advances := a\<rparr>) = posted db"
  "ledger_balance (db\<lparr>advances := a\<rparr>) = ledger_balance db" "OrgCurrencyTx (db\<lparr>advances := a\<rparr>) = OrgCurrencyTx db"
  by (rule ledger_cong; simp)+ (simp add: OrgCurrencyTx_def fun_eq_iff)

lemma OrgCurrencyTx_audit [simp]: "OrgCurrencyTx (db\<lparr>uuid_next := u, audit_events := a\<rparr>) = OrgCurrencyTx db"
  by (simp add: OrgCurrencyTx_def fun_eq_iff)

lemma cas_advance_Inr:
  "cas_advance now rows i cur nxt = Inr rows' \<Longrightarrow>
     CanTransitionAdvance cur nxt \<and> (\<exists>r \<in> set rows. adv_id r = i \<and> adv_status r = cur) \<and>
     rows' = update_where (\<lambda>r. adv_id r = i \<and> adv_status r = cur) (stamp_advance now nxt) rows"
  by (simp add: adv.cas_Inr_iff)

text \<open>The rows after a transition and the \<open>decline_reason\<close> update that follows it.\<close>

definition closed_rows :: "time \<Rightarrow> EWAAdvance list \<Rightarrow> string \<Rightarrow> AdvanceStatus \<Rightarrow> AdvanceStatus \<Rightarrow> string \<Rightarrow> EWAAdvance list" where
  "closed_rows now rows i cur nxt reason =
     update_where (\<lambda>r. adv_id r = i) (\<lambda>r. r\<lparr>adv_decline_reason := reason, adv_updated_at := now\<rparr>)
       (update_where (\<lambda>r. adv_id r = i \<and> adv_status r = cur) (stamp_advance now nxt) rows)"

lemma update_advance_rows:
  "update_advance now (db\<lparr>advances := rows\<rparr>) i (\<lambda>r. r\<lparr>adv_decline_reason := reason\<rparr>) =
     db\<lparr>advances := update_where (\<lambda>r. adv_id r = i)
        (\<lambda>r. r\<lparr>adv_decline_reason := reason, adv_updated_at := now\<rparr>) rows\<rparr>"
  by (simp add: update_advance_def)

lemma owner_simps [simp]: "owner [] = None" "emp \<noteq> [] \<Longrightarrow> owner emp = Some emp"
  by (simp_all add: owner_def)

lemma close_posting:
  assumes inv: "ledger_inv db" and t: "TransitionAdvance now db adv from_st nxt = Inr (adv', db1)"
    and e1: "EnsureAccount (update_advance now db1 (adv_id adv) (\<lambda>r. r\<lparr>adv_decline_reason := reason\<rparr>))
        (adv_org adv) (adv_employee adv) AccountAdvanceReceivable cur = Inr (receivable, db3)"
    and e2: "EnsureAccount db3 (adv_org adv) [] at cur = Inr (other, db4)"
    and p: "PostTransaction db4 (pair_request (adv_org adv) kind ref key (acc_id other) (acc_id receivable)
        (KoboIn cur (adv_amount adv))) = Inr (tx, db5)"
  shows "CanTransitionAdvance from_st nxt \<and>
    (\<exists>r \<in> set (advances db). adv_id r = adv_id adv \<and> adv_status r = from_st) \<and>
    moved (db\<lparr>advances := closed_rows now (advances db) (adv_id adv) from_st nxt reason\<rparr>) db5
      (adv_org adv) key (adv_org adv, None, at, cur)
      (adv_org adv, owner (adv_employee adv), AccountAdvanceReceivable, cur) (sint (adv_amount adv))"
proof -
  obtain rows where rows: "cas_advance now (advances db) (adv_id adv) from_st nxt = Inr rows"
      "db1 = db\<lparr>advances := rows\<rparr>"
    using t by (auto simp: TransitionAdvance_def go_results)
  note r = cas_advance_Inr [OF rows(1)]
  have upd: "update_advance now db1 (adv_id adv) (\<lambda>r. r\<lparr>adv_decline_reason := reason\<rparr>) =
      db\<lparr>advances := closed_rows now (advances db) (adv_id adv) from_st nxt reason\<rparr>"
    using r by (simp add: rows(2) update_advance_rows closed_rows_def)
  have "ledger_inv (update_advance now db1 (adv_id adv) (\<lambda>r. r\<lparr>adv_decline_reason := reason\<rparr>))"
    using inv by (simp add: upd)
  from ensure_pair_post [OF this e1 e2 _ p] r show ?thesis by (auto simp: upd KoboIn_def)
qed

lemma CancelAdvance_Inr:
  assumes inv: "ledger_inv db" and c: "CancelAdvance now db adv from_st reason = Inr (adv', db')"
  obtains cur db5 a where "OrgCurrencyTx db (adv_org adv) = Inr cur"
    "CanTransitionAdvance from_st AdvanceCancelled"
    "\<exists>r \<in> set (advances db). adv_id r = adv_id adv \<and> adv_status r = from_st"
    "moved (db\<lparr>advances := closed_rows now (advances db) (adv_id adv) from_st AdvanceCancelled reason\<rparr>) db5
      (adv_org adv) (cancellation_key (adv_id adv)) (cash_of (adv_org adv) cur)
      (adv_org adv, owner (adv_employee adv), AccountAdvanceReceivable, cur) (sint (adv_amount adv))"
    "db' = db5\<lparr>uuid_next := Suc (uuid_next db5), audit_events := audit_events db5 @ [a]\<rparr>"
    "aud_entity_id a = adv_id adv" "aud_action a = ''cancelled''"
proof -
  from c obtain db1 cur receivable db3 cash db4 tx db5 db6 where
    t: "TransitionAdvance now db adv from_st AdvanceCancelled = Inr (adv', db1)"
    and cur: "OrgCurrencyTx (update_advance now db1 (adv_id adv) (\<lambda>r. r\<lparr>adv_decline_reason := reason\<rparr>))
      (adv_org adv) = Inr cur"
    and e1: "EnsureAccount (update_advance now db1 (adv_id adv) (\<lambda>r. r\<lparr>adv_decline_reason := reason\<rparr>))
        (adv_org adv) (adv_employee adv) AccountAdvanceReceivable cur = Inr (receivable, db3)"
    and e2: "EnsureAccount db3 (adv_org adv) [] AccountCashSettlement cur = Inr (cash, db4)"
    and p: "PostTransaction db4 (pair_request (adv_org adv) ''ewa_cancellation'' (adv_id adv)
        (cancellation_key (adv_id adv)) (acc_id cash) (acc_id receivable)
        (KoboIn cur (adv_amount adv))) = Inr (tx, db5)"
    and au: "AppendAuditTx db5 (adv_org adv) ''EWAAdvance'' (adv_id adv) ''cancelled''
        (AdvanceStatus_string from_st) reason ''internal'' [] = Inr db'"
    by (auto simp: CancelAdvance_def go_results Let_def)
  have "OrgCurrencyTx db (adv_org adv) = Inr cur"
    using cur t by (auto simp: TransitionAdvance_def go_results update_advance_def)
  with close_posting [OF inv t e1 e2 p] AppendAuditTx_Inr [OF au] show thesis
    using that by (auto simp: cash_of_def)
qed

lemma WriteOffAdvance_Inr:
  assumes inv: "ledger_inv db" and c: "WriteOffAdvance now db adv reason = Inr (adv', db')"
  obtains cur db5 a where "OrgCurrencyTx db (adv_org adv) = Inr cur"
    "\<exists>r \<in> set (advances db). adv_id r = adv_id adv \<and> adv_status r = AdvanceDisbursed"
    "moved (db\<lparr>advances := closed_rows now (advances db) (adv_id adv) AdvanceDisbursed AdvanceWrittenOff reason\<rparr>)
      db5 (adv_org adv) (write_off_key (adv_id adv)) (adv_org adv, None, AccountWriteOffExpense, cur)
      (adv_org adv, owner (adv_employee adv), AccountAdvanceReceivable, cur) (sint (adv_amount adv))"
    "db' = db5\<lparr>uuid_next := Suc (uuid_next db5), audit_events := audit_events db5 @ [a]\<rparr>"
    "aud_entity_id a = adv_id adv" "aud_action a = ''written_off''"
proof -
  from c obtain db1 cur receivable db3 writeOff db4 tx db5 where
    t: "TransitionAdvance now db adv AdvanceDisbursed AdvanceWrittenOff = Inr (adv', db1)"
    and cur: "OrgCurrencyTx (update_advance now db1 (adv_id adv) (\<lambda>r. r\<lparr>adv_decline_reason := reason\<rparr>))
      (adv_org adv) = Inr cur"
    and e1: "EnsureAccount (update_advance now db1 (adv_id adv) (\<lambda>r. r\<lparr>adv_decline_reason := reason\<rparr>))
        (adv_org adv) (adv_employee adv) AccountAdvanceReceivable cur = Inr (receivable, db3)"
    and e2: "EnsureAccount db3 (adv_org adv) [] AccountWriteOffExpense cur = Inr (writeOff, db4)"
    and p: "PostTransaction db4 (pair_request (adv_org adv) ''ewa_write_off'' (adv_id adv)
        (write_off_key (adv_id adv)) (acc_id writeOff) (acc_id receivable)
        (KoboIn cur (adv_amount adv))) = Inr (tx, db5)"
    and au: "AppendAuditTx db5 (adv_org adv) ''EWAAdvance'' (adv_id adv) ''written_off''
        (AdvanceStatus_string AdvanceDisbursed) reason ''internal'' [] = Inr db'"
    by (auto simp: WriteOffAdvance_def go_results Let_def)
  have "OrgCurrencyTx db (adv_org adv) = Inr cur"
    using cur t by (auto simp: TransitionAdvance_def go_results update_advance_def)
  with close_posting [OF inv t e1 e2 p] AppendAuditTx_Inr [OF au] show thesis using that by auto
qed


lemma by_id:
  "distinct (map adv_id rows) \<Longrightarrow> a \<in> set rows \<Longrightarrow> b \<in> set rows \<Longrightarrow> adv_id b = adv_id a \<Longrightarrow> b = a"
  by (simp add: distinct_map inj_on_def)

lemma closed_rows_eq:
  assumes "distinct (map adv_id rows)" "adv \<in> set rows" "adv_status adv = cur"
  shows "closed_rows now rows (adv_id adv) cur nxt reason =
    update_where (\<lambda>r. adv_id r = adv_id adv)
      (\<lambda>r. (stamp_advance now nxt r)\<lparr>adv_decline_reason := reason, adv_updated_at := now\<rparr>) rows"
  using by_id [OF assms(1,2)] assms(3) by (auto simp: closed_rows_def update_where_def)

lemma owed_update:
  assumes "distinct (map adv_id rows)" "adv \<in> set rows"
  shows "owed (update_where (\<lambda>r. adv_id r = adv_id adv) f rows) o1 e =
    owed rows o1 e - owed_by o1 e adv + owed_by o1 e (f adv)"
  unfolding owed_def by (rule sum_update_key [OF assms]) auto

lemma keys_inv_update:
  assumes k: "advance_keys_inv rows is_posted" and d: "distinct (map adv_id rows)" and a: "adv \<in> set rows"
    and f: "\<And>r. adv_id (f r) = adv_id r"
    and keep: "adv_status (f adv) = adv_status adv \<or>
      (adv_status adv \<noteq> AdvanceCancelled \<and> adv_status adv \<noteq> AdvanceWrittenOff)"
  shows "advance_keys_inv (update_where (\<lambda>r. adv_id r = adv_id adv) f rows) is_posted"
proof -
  let ?rows = "update_where (\<lambda>r. adv_id r = adv_id adv) f rows"
  have mem: "\<exists>b \<in> set ?rows. adv_id b = i" if "\<exists>b \<in> set rows. adv_id b = i" for i
  proof (cases "i = adv_id adv")
    case True then show ?thesis using f by (intro bexI [of _ "f adv"]) (auto simp: in_update_key [OF d a])
  next
    case False then show ?thesis using that by (auto simp: in_update_key [OF d a])
  qed
  have st: "\<exists>b \<in> set ?rows. adv_id b = i \<and> adv_status b = s"
    if "\<exists>b \<in> set rows. adv_id b = i \<and> adv_status b = s" "s = AdvanceCancelled \<or> s = AdvanceWrittenOff" for i s
    using that by_id [OF d a] keep f unfolding in_update_key [OF d a] Bex_def by metis
  show ?thesis unfolding advance_keys_inv_def
  proof (intro allI conjI impI)
    fix o1 i
    note k1 = k [unfolded advance_keys_inv_def, rule_format, of o1 i]
    show "is_posted o1 (advance_key i) \<Longrightarrow> \<exists>b \<in> set ?rows. adv_id b = i" using k1 mem by blast
    show "is_posted o1 (cancellation_key i) \<Longrightarrow>
        \<exists>b \<in> set ?rows. adv_id b = i \<and> adv_status b = AdvanceCancelled" using k1 st by blast
    show "is_posted o1 (write_off_key i) \<Longrightarrow>
        \<exists>b \<in> set ?rows. adv_id b = i \<and> adv_status b = AdvanceWrittenOff" using k1 st by blast
  qed
qed

text \<open>
  Closing an outstanding advance posts its full amount against the receivable. The
  receivable then equals what is owed, less whatever had already been recovered.
\<close>

lemma close_receivable:
  assumes d: "distinct (map adv_id rows)" and a: "adv \<in> set rows" "adv_employee adv \<noteq> []"
    and out: "EWAAdvance_IsOutstanding adv" and cur: "cur (adv_org adv) = Inr c"
    and m: "receivables_match rows bal cur"
    and nxt: "nxt \<noteq> AdvanceApproved" "nxt \<noteq> AdvanceDisbursed"
    and other: "at \<noteq> AccountAdvanceReceivable"
    and rows': "rows' = closed_rows now rows (adv_id adv) (adv_status adv) nxt reason"
    and bal': "bal' = transfer (adv_org adv, None, at, c)
      (adv_org adv, owner (adv_employee adv), AccountAdvanceReceivable, c) (sint (adv_amount adv)) bal"
    and q: "cur o1 = Inr c1" "e \<noteq> []"
  shows "bal' (receivable_of o1 e c1) = owed rows' o1 e -
    (if o1 = adv_org adv \<and> e = adv_employee adv then sint (adv_recovered adv) else 0)"
proof -
  have "bal (receivable_of o1 e c1) = owed rows o1 e" using m q by (simp add: receivables_match_def)
  moreover have "owed rows' o1 e = owed rows o1 e - owed_by o1 e adv"
    unfolding rows' closed_rows_eq [OF d a(1) HOL.refl] owed_update [OF d a(1)]
    using nxt by (simp add: owed_by_def EWAAdvance_IsOutstanding_def)
  ultimately show ?thesis
    using out cur q other a(2) unfolding bal' by (auto simp: transfer_def receivable_of_def owed_by_def)
qed

lemma closed_rows_ok:
  assumes "distinct (map adv_id rows)" "adv \<in> set rows" "adv_status adv = cur" "list_all advance_ok rows"
    "nxt = AdvanceCancelled \<longrightarrow> adv_recovered adv = 0" "nxt \<in> {AdvanceCancelled, AdvanceWrittenOff}"
  shows "list_all advance_ok (closed_rows now rows (adv_id adv) cur nxt reason)"
    "map adv_id (closed_rows now rows (adv_id adv) cur nxt reason) = map adv_id rows"
proof -
  note eq = closed_rows_eq [OF assms(1-3)]
  show "map adv_id (closed_rows now rows (adv_id adv) cur nxt reason) = map adv_id rows"
    unfolding eq by (rule map_update_where_same) simp
  have "advance_ok ((stamp_advance now nxt adv)\<lparr>adv_decline_reason := reason, adv_updated_at := now\<rparr>)"
    using assms by (auto simp: advance_ok_def list_all_iff)
  then show "list_all advance_ok (closed_rows now rows (adv_id adv) cur nxt reason)"
    using assms(4) by (auto simp: eq list_all_iff in_update_key [OF assms(1,2)])
qed


lemma keys_inv_closed:
  assumes "advance_keys_inv rows is_posted" "distinct (map adv_id rows)" "adv \<in> set rows"
    "EWAAdvance_IsOutstanding adv"
    "(nxt = AdvanceCancelled \<and> key = cancellation_key (adv_id adv)) \<or>
     (nxt = AdvanceWrittenOff \<and> key = write_off_key (adv_id adv))"
  shows "advance_keys_inv (closed_rows now rows (adv_id adv) (adv_status adv) nxt reason)
      (\<lambda>o1 k. is_posted o1 k \<or> (o1 = orgID \<and> k = key))"
    "\<not> is_posted o1 key"
proof -
  note eq = closed_rows_eq [OF assms(2,3) HOL.refl]
  let ?f = "\<lambda>r. (stamp_advance now nxt r)\<lparr>adv_decline_reason := reason, adv_updated_at := now\<rparr>"
  let ?rows = "closed_rows now rows (adv_id adv) (adv_status adv) nxt reason"
  have "advance_keys_inv ?rows is_posted"
    unfolding eq using assms(4) by (intro keys_inv_update [OF assms(1,2,3)]) (auto simp: EWAAdvance_IsOutstanding_def)
  moreover have "\<exists>a \<in> set ?rows. adv_id a = adv_id adv \<and> adv_status a = nxt"
    by (rule bexI [of _ "?f adv"]) (simp_all add: eq in_update_key [OF assms(2,3)])
  ultimately show "advance_keys_inv ?rows (\<lambda>o1 k. is_posted o1 k \<or> (o1 = orgID \<and> k = key))"
    using assms(5) unfolding advance_keys_inv_def by auto
  show "\<not> is_posted o1 key"
    using assms(1,4,5) by_id [OF assms(2,3)] unfolding advance_keys_inv_def EWAAdvance_IsOutstanding_def
    by (metis AdvanceStatus.distinct)
qed

lemma CancelAdvance_inv:
  assumes inv: "ewa_inv db" and a: "adv \<in> set (advances db)" and st: "adv_status adv = AdvanceApproved"
    and c: "CancelAdvance now db adv AdvanceApproved reason = Inr (adv', db')"
  shows "ewa_inv db'"
proof -
  have d: "distinct (map adv_id (advances db))" and led: "ledger_inv db" and ok: "list_all advance_ok (advances db)"
    and keys: "advance_keys_inv (advances db) (posted db)"
    and rec: "receivables_match (advances db) (ledger_balance db) (OrgCurrencyTx db)"
    using inv by (simp_all add: ewa_inv_def)
  have adv: "adv_employee adv \<noteq> []" "adv_recovered adv = 0" "EWAAdvance_IsOutstanding adv"
    using ok a st by (auto simp: list_all_iff advance_ok_def EWAAdvance_IsOutstanding_def)
  let ?rows = "closed_rows now (advances db) (adv_id adv) AdvanceApproved AdvanceCancelled reason"
  obtain cur db5 au where cur: "OrgCurrencyTx db (adv_org adv) = Inr cur"
    and mv: "moved (db\<lparr>advances := ?rows\<rparr>) db5
      (adv_org adv) (cancellation_key (adv_id adv)) (cash_of (adv_org adv) cur)
      (adv_org adv, owner (adv_employee adv), AccountAdvanceReceivable, cur) (sint (adv_amount adv))"
    and db': "db' = db5\<lparr>uuid_next := Suc (uuid_next db5), audit_events := audit_events db5 @ [au]\<rparr>"
    using CancelAdvance_Inr [OF led c] by metis
  have fr: "advances db5 = ?rows" "OrgCurrencyTx db5 = OrgCurrencyTx db"
    using ledger_frame_ewa [of "db\<lparr>advances := ?rows\<rparr>" db5] mv by (simp_all add: moved_def)
  note k = keys_inv_closed [OF keys d a adv(3), of AdvanceCancelled "cancellation_key (adv_id adv)", unfolded st, simplified]
  have bal: "ledger_balance db5 = transfer (adv_org adv, None, AccountCashSettlement, cur)
      (adv_org adv, owner (adv_employee adv), AccountAdvanceReceivable, cur) (sint (adv_amount adv)) (ledger_balance db)"
    using mv k(2) by (simp add: moved_def cash_of_def)
  have "receivables_match ?rows (ledger_balance db5) (OrgCurrencyTx db)"
    using close_receivable [OF d a adv(1,3) cur rec _ _ _ _ bal, of AdvanceCancelled ?rows now reason] adv(2) st
    by (auto simp: receivables_match_def)
  then show ?thesis
    using mv k(1) closed_rows_ok [OF d a st ok] adv(2) d
    by (simp add: ewa_inv_def db' fr moved_def)
qed


lemma ewa_inv_row_update:
  assumes inv: "ewa_inv db" and a: "adv \<in> set (advances db)"
    and f: "\<And>r. adv_id (f r) = adv_id r"
      "adv_org (f adv) = adv_org adv" "adv_employee (f adv) = adv_employee adv"
      "adv_amount (f adv) = adv_amount adv" "adv_recovered (f adv) = adv_recovered adv"
      "EWAAdvance_IsOutstanding (f adv) = EWAAdvance_IsOutstanding adv"
      "adv_status (f adv) = adv_status adv \<or> (adv_status adv \<noteq> AdvanceCancelled \<and> adv_status adv \<noteq> AdvanceWrittenOff)"
      "advance_ok (f adv)"
  shows "ewa_inv (db\<lparr>advances := update_where (\<lambda>r. adv_id r = adv_id adv) f (advances db)\<rparr>)"
proof -
  have d: "distinct (map adv_id (advances db))" using inv by (simp add: ewa_inv_def)
  have "owed (update_where (\<lambda>r. adv_id r = adv_id adv) f (advances db)) = owed (advances db)"
    by (intro ext) (simp add: owed_update [OF d a] owed_by_def f(2-6))
  moreover have "map adv_id (update_where (\<lambda>r. adv_id r = adv_id adv) f (advances db)) = map adv_id (advances db)"
    using f(1) by (intro map_update_where_same)
  moreover have "list_all advance_ok (update_where (\<lambda>r. adv_id r = adv_id adv) f (advances db))"
    using inv f(8) by (auto simp: ewa_inv_def list_all_iff in_update_key [OF d a])
  moreover have "advance_keys_inv (update_where (\<lambda>r. adv_id r = adv_id adv) f (advances db)) (posted db)"
    using inv keys_inv_update [OF _ d a f(1,7)] by (simp add: ewa_inv_def)
  ultimately show ?thesis using inv by (simp add: ewa_inv_def receivables_match_def)
qed

lemma ewa_inv_audit [simp]: "ewa_inv (db\<lparr>uuid_next := u, audit_events := a\<rparr>) = ewa_inv db"
  by (simp add: ewa_inv_def)

lemma cas_rows_eq:
  assumes "distinct (map adv_id rows)" "adv \<in> set rows" "adv_status adv = cur"
  shows "update_where (\<lambda>r. adv_id r = adv_id adv \<and> adv_status r = cur) f rows =
    update_where (\<lambda>r. adv_id r = adv_id adv) f rows"
  using by_id [OF assms(1,2)] assms(3) by (auto intro!: update_where_cong)

lemma ConfirmDisbursed_inv:
  assumes inv: "ewa_inv db" and a: "adv \<in> set (advances db)" and st: "adv_status adv = AdvanceApproved"
    and c: "ConfirmDisbursed now db adv = Inr (adv', db')"
  shows "ewa_inv db'"
proof -
  have d: "distinct (map adv_id (advances db))" using inv by (simp add: ewa_inv_def)
  obtain rows db1 where rows: "cas_advance now (advances db) (adv_id adv) AdvanceApproved AdvanceDisbursed = Inr rows"
    and au: "AppendAuditTx (db\<lparr>advances := rows\<rparr>) (adv_org adv) ''EWAAdvance'' (adv_id adv) ''disbursed''
       (AdvanceStatus_string AdvanceApproved) (AdvanceStatus_string AdvanceDisbursed) ''internal'' [] = Inr db'"
    using c by (auto simp: ConfirmDisbursed_def TransitionAdvance_def go_results)
  have "rows = update_where (\<lambda>r. adv_id r = adv_id adv) (stamp_advance now AdvanceDisbursed) (advances db)"
    using cas_advance_Inr [OF rows] cas_rows_eq [OF d a st] by simp
  moreover have "advance_ok (stamp_advance now AdvanceDisbursed adv)"
    using inv a by (auto simp: ewa_inv_def list_all_iff advance_ok_def)
  ultimately have "ewa_inv (db\<lparr>advances := rows\<rparr>)"
    using ewa_inv_row_update [OF inv a, of "stamp_advance now AdvanceDisbursed"] st
    by (simp add: EWAAdvance_IsOutstanding_def)
  then show ?thesis using AppendAuditTx_Inr [OF au] by auto
qed

lemma WriteOffAdvance_receivable:
  assumes inv: "ewa_inv db" and a: "adv \<in> set (advances db)" and st: "adv_status adv = AdvanceDisbursed"
    and c: "WriteOffAdvance now db adv reason = Inr (adv', db')"
    and q: "OrgCurrencyTx db o1 = Inr c1" "e \<noteq> []"
  shows "ledger_balance db' (receivable_of o1 e c1) = owed (advances db') o1 e -
    (if o1 = adv_org adv \<and> e = adv_employee adv then sint (adv_recovered adv) else 0) \<and>
    ledger_inv db' \<and> list_all advance_ok (advances db') \<and> distinct (map adv_id (advances db')) \<and>
    advance_keys_inv (advances db') (posted db') \<and> OrgCurrencyTx db' = OrgCurrencyTx db"
proof -
  have d: "distinct (map adv_id (advances db))" and led: "ledger_inv db" and ok: "list_all advance_ok (advances db)"
    and keys: "advance_keys_inv (advances db) (posted db)"
    and rec: "receivables_match (advances db) (ledger_balance db) (OrgCurrencyTx db)"
    using inv by (simp_all add: ewa_inv_def)
  have adv: "adv_employee adv \<noteq> []" "EWAAdvance_IsOutstanding adv"
    using ok a st by (auto simp: list_all_iff advance_ok_def EWAAdvance_IsOutstanding_def)
  let ?rows = "closed_rows now (advances db) (adv_id adv) AdvanceDisbursed AdvanceWrittenOff reason"
  obtain cur db5 au where cur: "OrgCurrencyTx db (adv_org adv) = Inr cur"
    and mv: "moved (db\<lparr>advances := ?rows\<rparr>) db5
      (adv_org adv) (write_off_key (adv_id adv)) (adv_org adv, None, AccountWriteOffExpense, cur)
      (adv_org adv, owner (adv_employee adv), AccountAdvanceReceivable, cur) (sint (adv_amount adv))"
    and db': "db' = db5\<lparr>uuid_next := Suc (uuid_next db5), audit_events := audit_events db5 @ [au]\<rparr>"
    using WriteOffAdvance_Inr [OF led c] by metis
  have fr: "advances db5 = ?rows" "OrgCurrencyTx db5 = OrgCurrencyTx db"
    using ledger_frame_ewa [of "db\<lparr>advances := ?rows\<rparr>" db5] mv by (simp_all add: moved_def)
  note k = keys_inv_closed [OF keys d a adv(2), of AdvanceWrittenOff "write_off_key (adv_id adv)", unfolded st, simplified]
  have bal: "ledger_balance db5 = transfer (adv_org adv, None, AccountWriteOffExpense, cur)
      (adv_org adv, owner (adv_employee adv), AccountAdvanceReceivable, cur) (sint (adv_amount adv)) (ledger_balance db)"
    using mv k(2) by (simp add: moved_def)
  show ?thesis
    using close_receivable [OF d a adv cur rec _ _ _ _ bal q, of AdvanceWrittenOff ?rows now reason] st
      mv k(1) closed_rows_ok [OF d a st ok] d
    by (simp add: db' fr moved_def)
qed

lemma MarkSubmittedToProvider_inv:
  assumes inv: "ewa_inv db" and m: "MarkSubmittedToProvider now db i p r = Inr db'"
  shows "ewa_inv db'"
proof -
  let ?P = "\<lambda>r. adv_id r = i \<and> adv_provider_ref r = None"
  let ?f = "\<lambda>x. x\<lparr>adv_provider := Some p, adv_provider_ref := Some r, adv_updated_at := now\<rparr>"
  have d: "distinct (map adv_id (advances db))" using inv by (simp add: ewa_inv_def)
  from m have db': "db' = db\<lparr>advances := update_where ?P ?f (advances db)\<rparr>" and "count_where ?P (advances db) \<noteq> 0"
    by (simp_all add: MarkSubmittedToProvider_def Let_def split: if_splits)
  then obtain a where a: "a \<in> set (advances db)" "adv_id a = i" "adv_provider_ref a = None"
    by (auto simp: count_where_eq_0_iff)
  have "update_where ?P ?f (advances db) = update_where (\<lambda>r. adv_id r = adv_id a) ?f (advances db)"
  proof (rule update_where_cong)
    show "?P r = (adv_id r = adv_id a)" if "r \<in> set (advances db)" for r
      using by_id [OF d a(1) that] a by auto
  qed
  moreover have "advance_ok (?f a)" using inv a(1) by (auto simp: ewa_inv_def list_all_iff advance_ok_def)
  ultimately show ?thesis
    using ewa_inv_row_update [OF inv a(1), of ?f] by (simp add: db' EWAAdvance_IsOutstanding_def)
qed

text \<open>The tables after an advance was cancelled or written off.\<close>

lemma closing_effect:
  assumes d: "distinct (map adv_id (advances db))" and a: "adv \<in> set (advances db)" "adv_status adv = st"
    and m: "moved (db\<lparr>advances := closed_rows now (advances db) (adv_id adv) st nxt reason\<rparr>) db5 o1 k x y n"
    and db1: "db1 = db5\<lparr>uuid_next := Suc (uuid_next db5), audit_events := audit_events db5 @ [e]\<rparr>"
  shows "advances db1 = update_where (\<lambda>r. adv_id r = adv_id adv)
      (\<lambda>r. (stamp_advance now nxt r)\<lparr>adv_decline_reason := reason, adv_updated_at := now\<rparr>) (advances db)"
    "ledger_inv db1" "employees db1 = employees db" "users db1 = users db"
proof -
  have f: "ledger_frame (db\<lparr>advances := closed_rows now (advances db) (adv_id adv) st nxt reason\<rparr>) db5" and l: "ledger_inv db5"
    using m by (simp_all add: moved_def)
  show "ledger_inv db1" using l ledger_cong(1) [of db1 db5] db1 by simp
  note fr = ledger_frame_ewa [OF f]
  show "employees db1 = employees db" "users db1 = users db" using fr(4,6) db1 by simp_all
  show "advances db1 = update_where (\<lambda>r. adv_id r = adv_id adv)
      (\<lambda>r. (stamp_advance now nxt r)\<lparr>adv_decline_reason := reason, adv_updated_at := now\<rparr>) (advances db)"
    using fr(1) db1 closed_rows_eq [OF d a] by simp
qed

lemma CancelAdvance_effect:
  assumes l: "ledger_inv db" and d: "distinct (map adv_id (advances db))" and a: "adv \<in> set (advances db)" "adv_status adv = st"
    and c: "CancelAdvance now db adv st reason = Inr (adv', db1)"
  shows "advances db1 = update_where (\<lambda>r. adv_id r = adv_id adv)
      (\<lambda>r. (stamp_advance now AdvanceCancelled r)\<lparr>adv_decline_reason := reason, adv_updated_at := now\<rparr>) (advances db)"
    "ledger_inv db1" "employees db1 = employees db" "users db1 = users db"
proof -
  from l c obtain cur db5 e where m: "moved (db\<lparr>advances := closed_rows now (advances db) (adv_id adv) st AdvanceCancelled reason\<rparr>) db5
      (adv_org adv) (cancellation_key (adv_id adv)) (cash_of (adv_org adv) cur)
      (adv_org adv, owner (adv_employee adv), AccountAdvanceReceivable, cur) (sint (adv_amount adv))"
    and db1: "db1 = db5\<lparr>uuid_next := Suc (uuid_next db5), audit_events := audit_events db5 @ [e]\<rparr>"
    by (rule CancelAdvance_Inr)
  show "advances db1 = update_where (\<lambda>r. adv_id r = adv_id adv)
      (\<lambda>r. (stamp_advance now AdvanceCancelled r)\<lparr>adv_decline_reason := reason, adv_updated_at := now\<rparr>) (advances db)"
    "ledger_inv db1" "employees db1 = employees db" "users db1 = users db" by (rule closing_effect [OF d a m db1])+
qed

lemma WriteOffAdvance_effect:
  assumes l: "ledger_inv db" and d: "distinct (map adv_id (advances db))" and a: "adv \<in> set (advances db)" "adv_status adv = AdvanceDisbursed"
    and c: "WriteOffAdvance now db adv reason = Inr (adv', db1)"
  shows "advances db1 = update_where (\<lambda>r. adv_id r = adv_id adv)
      (\<lambda>r. (stamp_advance now AdvanceWrittenOff r)\<lparr>adv_decline_reason := reason, adv_updated_at := now\<rparr>) (advances db)"
    "ledger_inv db1" "employees db1 = employees db" "users db1 = users db"
proof -
  from l c obtain cur db5 e where m: "moved (db\<lparr>advances := closed_rows now (advances db) (adv_id adv) AdvanceDisbursed AdvanceWrittenOff reason\<rparr>)
      db5 (adv_org adv) (write_off_key (adv_id adv)) (adv_org adv, None, AccountWriteOffExpense, cur)
      (adv_org adv, owner (adv_employee adv), AccountAdvanceReceivable, cur) (sint (adv_amount adv))"
    and db1: "db1 = db5\<lparr>uuid_next := Suc (uuid_next db5), audit_events := audit_events db5 @ [e]\<rparr>"
    by (rule WriteOffAdvance_Inr)
  show "advances db1 = update_where (\<lambda>r. adv_id r = adv_id adv)
      (\<lambda>r. (stamp_advance now AdvanceWrittenOff r)\<lparr>adv_decline_reason := reason, adv_updated_at := now\<rparr>) (advances db)"
    "ledger_inv db1" "employees db1 = employees db" "users db1 = users db" by (rule closing_effect [OF d a m db1])+
qed

lemma RemainingKobo_ok: "advance_ok a \<Longrightarrow> sint (EWAAdvance_RemainingKobo a) = sint (adv_amount a) - sint (adv_recovered a)"
  using sint64_less [of "adv_amount a"]
  by (auto simp: advance_ok_def EWAAdvance_RemainingKobo_def Kobo_Sub_exact Kobo_IsNegative_def sless_sint in64_def)

subsection \<open>Properties\<close>

text \<open>
  C22: a successful \<open>TransitionAdvance\<close> moves exactly the named advance along exactly the
  requested legal edge and touches no other row; a terminal advance (settled, declined,
  cancelled, written off) never changes again; and whoever still expects the old status
  gets an error instead of a second transition.
\<close>

theorem advance_transition_safe:
  assumes "TransitionAdvance now db adv cur nxt = Inr (adv', db')"
  shows "CanTransitionAdvance cur nxt \<and> length (advances db') = length (advances db) \<and>
    (\<forall>k < length (advances db).
       advances db' ! k = advances db ! k \<or>
       (adv_id (advances db ! k) = adv_id adv \<and> adv_status (advances db ! k) = cur \<and>
        advances db' ! k = stamp_advance now nxt (advances db ! k))) \<and>
    (\<forall>k < length (advances db).
       adv_status (advances db ! k) \<in> {AdvanceSettled, AdvanceDeclined, AdvanceCancelled, AdvanceWrittenOff} \<longrightarrow>
       advances db' ! k = advances db ! k) \<and>
    (CanTransitionAdvance cur nxt2 \<longrightarrow> TransitionAdvance now2 db' adv cur nxt2 = Inl ErrStaleStatus)"
proof -
  obtain rows where rows: "cas_advance now (advances db) (adv_id adv) cur nxt = Inr rows"
    and db': "advances db' = rows"
    using assms by (auto simp: TransitionAdvance_def go_results)
  have "CanTransitionAdvance cur nxt2 \<longrightarrow> TransitionAdvance now2 db' adv cur nxt2 = Inl ErrStaleStatus"
  proof
    assume can: "CanTransitionAdvance cur nxt2"
    have "cas_advance now2 rows (adv_id adv) cur nxt2 = cas_advance now rows (adv_id adv) cur nxt2 \<or>
        cas_advance now2 rows (adv_id adv) cur nxt2 = Inl ErrStaleStatus"
      using adv.cas_second_writer_stale [OF rows can] can
      by (auto simp: cas_advance_def Let_def split: if_splits)
    with adv.cas_second_writer_stale [OF rows can]
    have "cas_advance now2 rows (adv_id adv) cur nxt2 = Inl ErrStaleStatus" by simp
    then show "TransitionAdvance now2 db' adv cur nxt2 = Inl ErrStaleStatus"
      by (simp add: TransitionAdvance_def db')
  qed
  moreover have "advances db' ! k = advances db ! k"
    if "k < length (advances db)"
      "adv_status (advances db ! k) \<in> {AdvanceSettled, AdvanceDeclined, AdvanceCancelled, AdvanceWrittenOff}" for k
    using adv.cas_terminal_kept [OF rows that(1)] that(2) by (auto simp: db' CanTransitionAdvance_iff)
  moreover note cas_advance_Inr [OF rows]
  ultimately show ?thesis by (auto simp: db' nth_update_where)
qed

definition demo_advance :: EWAAdvance where
  "demo_advance =
     \<lparr>adv_id = ''EWA-1'', adv_org = ''ORG-1'', adv_employee = ''EMP-1'', adv_user = None,
      adv_period = ''2026-08'', adv_amount = 100, adv_fee = 0, adv_status = AdvanceDisbursed,
      adv_recovered = 40, adv_accrued = 500, adv_available = 200, adv_score = 0, adv_tier = TierHealthy,
      adv_decline_reason = [], adv_key = None, adv_settled_item = None, adv_provider = None,
      adv_provider_ref = None, adv_requested_at = 0, adv_disbursed_at = None, adv_settled_at = None,
      adv_updated_at = 0\<rparr>"

definition demo_organization :: Organization where
  "demo_organization =
     \<lparr>org_id = ''ORG-1'', org_name = ''Acme'', org_role = ''admin'', org_region = ''ng'', org_currency = NGN,
      org_is_d2c = False, org_active = True\<rparr>"

definition demo_ewa_accounts :: "LedgerAccount list" where
  "demo_ewa_accounts =
     [\<lparr>acc_id = ''A0'', acc_org = ''ORG-1'', acc_employee = Some ''EMP-1'', acc_type = AccountAdvanceReceivable,
       acc_normal = Debit, acc_currency = NGN\<rparr>,
      \<lparr>acc_id = ''A1'', acc_org = ''ORG-1'', acc_employee = None, acc_type = AccountCashSettlement,
       acc_normal = Credit, acc_currency = NGN\<rparr>,
      \<lparr>acc_id = ''A2'', acc_org = ''ORG-1'', acc_employee = Some ''EMP-1'', acc_type = AccountWagePayable,
       acc_normal = Credit, acc_currency = NGN\<rparr>,
      \<lparr>acc_id = ''A3'', acc_org = ''ORG-1'', acc_employee = None, acc_type = AccountWriteOffExpense,
       acc_normal = Debit, acc_currency = NGN\<rparr>]"

definition demo_entry :: "string \<Rightarrow> string \<Rightarrow> Direction \<Rightarrow> int64 \<Rightarrow> LedgerEntry" where
  "demo_entry tid aid d m = \<lparr>ent_tx = tid, ent_account = aid, ent_org = ''ORG-1'', ent_direction = d,
     ent_amount = m, ent_currency = NGN\<rparr>"

text \<open>An advance of 100 of which a payroll run has recovered 40.\<close>

definition demo_ewa :: ewa_db where
  "demo_ewa =
     \<lparr>uuids = demo_uuids, uuid_next = 0, audit_events = [], organizations = [demo_organization],
      employees = [], consent_records = [], ledger_accounts = demo_ewa_accounts,
      ledger_transactions =
        [\<lparr>ltx_id = ''T1'', ltx_org = ''ORG-1'', ltx_kind = ''ewa_advance'', ltx_reference = ''EWA-1'',
          ltx_key = advance_key ''EWA-1''\<rparr>,
         \<lparr>ltx_id = ''T2'', ltx_org = ''ORG-1'', ltx_kind = ''ewa_settlement'', ltx_reference = ''EWA-1'',
          ltx_key = settlement_key ''EWA-1'' ''ITEM-1''\<rparr>],
      ledger_entries =
        [demo_entry ''T1'' ''A0'' Debit 100, demo_entry ''T1'' ''A1'' Credit 100,
         demo_entry ''T2'' ''A2'' Debit 40, demo_entry ''T2'' ''A0'' Credit 40],
      advances = [demo_advance], ewa_policies = [], worker_prefs = [], users = []\<rparr>"

lemma demo_ewa_inv: "ewa_inv demo_ewa"
proof -
  have "ledger_inv demo_ewa"
    by (simp add: ledger_inv_def accounts_inv_def postings_inv_def demo_ewa_def demo_ewa_accounts_def
        acc_identity_def entry_insertable_def demo_entry_def word_sless_alt transaction_balanced_def entry_value_def)
  moreover have "receivables_match (advances demo_ewa) (ledger_balance demo_ewa) (OrgCurrencyTx demo_ewa)"
    unfolding receivables_match_def
    by (auto simp: demo_ewa_def demo_advance_def demo_organization_def OrgCurrencyTx_def find_row_def
        owed_def owed_by_def EWAAdvance_IsOutstanding_def ledger_balance_def receivable_of_def
        demo_ewa_accounts_def acc_identity_def balance_def entries_of_def demo_entry_def entry_value_def)
  moreover have "advance_keys_inv (advances demo_ewa) (posted demo_ewa)"
    by (auto simp: advance_keys_inv_def demo_ewa_def demo_advance_def posted_def)
  moreover have "list_all advance_ok (advances demo_ewa)"
    by (simp add: demo_ewa_def demo_advance_def advance_ok_def)
  ultimately show ?thesis by (simp add: ewa_inv_def demo_ewa_def)
qed

lemma demo_write_off_run:
  obtains adv' db' where "WriteOffAdvance 0 demo_ewa demo_advance ''employee_terminated'' = Inr (adv', db')"
proof -
  have "case WriteOffAdvance 0 demo_ewa demo_advance ''employee_terminated'' of Inr _ \<Rightarrow> True | _ \<Rightarrow> False"
    by code_simp
  then show thesis using that by (auto split: sum.splits)
qed

theorem advance_transition_safe_witness:
  "TransitionAdvance 7 demo_ewa demo_advance AdvanceDisbursed AdvanceSettled =
     Inr (demo_advance\<lparr>adv_status := AdvanceSettled\<rparr>,
          demo_ewa\<lparr>advances := [stamp_advance 7 AdvanceSettled demo_advance]\<rparr>) \<and>
   TransitionAdvance 8 (demo_ewa\<lparr>advances := [stamp_advance 7 AdvanceSettled demo_advance]\<rparr>) demo_advance
     AdvanceDisbursed AdvanceWrittenOff = Inl ErrStaleStatus"
proof -
  have run: "TransitionAdvance 7 demo_ewa demo_advance AdvanceDisbursed AdvanceSettled =
     Inr (demo_advance\<lparr>adv_status := AdvanceSettled\<rparr>,
          demo_ewa\<lparr>advances := [stamp_advance 7 AdvanceSettled demo_advance]\<rparr>)"
    by (simp add: TransitionAdvance_def cas_advance_def CanTransitionAdvance_def demo_ewa_def demo_advance_def count_where_def)
  with advance_transition_safe [OF run, of AdvanceWrittenOff 8] show ?thesis
    by (simp add: CanTransitionAdvance_iff)
qed

text \<open>
  \<open>WriteOffAdvance\<close> credits the worker's receivable with the advance's full amount.
  The receivable therefore ends at what the worker's other advances still owe minus
  whatever had been recovered of this one: it matches when nothing was recovered, and
  falls short by exactly the recovered part after a partial recovery.
\<close>

theorem write_off_receivable:
  assumes "ewa_inv db" "adv \<in> set (advances db)" "adv_status adv = AdvanceDisbursed"
    and "WriteOffAdvance now db adv reason = Inr (adv', db')" "OrgCurrencyTx db (adv_org adv) = Inr c"
  shows "ledger_inv db' \<and>
    ledger_balance db' (receivable_of (adv_org adv) (adv_employee adv) c) =
      owed (advances db') (adv_org adv) (adv_employee adv) - sint (adv_recovered adv) \<and>
    (adv_recovered adv = 0 \<longrightarrow> ewa_inv db')"
proof -
  have emp: "adv_employee adv \<noteq> []" using assms(1,2) by (auto simp: ewa_inv_def list_all_iff advance_ok_def)
  note w = WriteOffAdvance_receivable [OF assms(1-4)]
  have "receivables_match (advances db') (ledger_balance db') (OrgCurrencyTx db')" if "adv_recovered adv = 0"
    using w [OF assms(5) emp] w that by (auto simp: receivables_match_def)
  then show ?thesis using w [OF assms(5) emp] by (simp add: ewa_inv_def)
qed

theorem write_off_receivable_witness:
  "\<exists>adv' db'. WriteOffAdvance 0 demo_ewa demo_advance ''employee_terminated'' = Inr (adv', db') \<and>
     ledger_balance db' (receivable_of ''ORG-1'' ''EMP-1'' NGN) = owed (advances db') ''ORG-1'' ''EMP-1'' - 40"
proof -
  obtain adv' db' where run: "WriteOffAdvance 0 demo_ewa demo_advance ''employee_terminated'' = Inr (adv', db')"
    using demo_write_off_run .
  have "demo_advance \<in> set (advances demo_ewa)" "adv_status demo_advance = AdvanceDisbursed"
    "OrgCurrencyTx demo_ewa (adv_org demo_advance) = Inr NGN"
    by (simp_all add: demo_ewa_def demo_advance_def OrgCurrencyTx_def find_row_def demo_organization_def)
  from write_off_receivable [OF demo_ewa_inv this(1,2) run this(3)] run show ?thesis
    by (auto simp: demo_advance_def)
qed

end
