(* ===== verification/Grants.thy ===== *)
theory Grants
  imports Advances
begin

text \<open>
  \<open>models/funding.go\<close>, \<open>models/hardship_grant.go\<close>, \<open>services/ewa_hardship_grant_service.go\<close>
  and \<open>services/funding_service.go\<close>: the employer's funding pool and the hardship grants
  paid from it. The pool's exposure is the balance of the organization's
  \<open>cash_settlement\<close> account. The task queue is the list \<open>tasks\<close>; whether an enqueue
  succeeds is the argument \<open>enqueue_ok\<close>, and the reserved-account call to the payment
  provider is the function argument \<open>reserve\<close>.
\<close>

datatype HardshipGrantStatus = GrantPending | GrantSubmitted | GrantDisbursed | GrantFailed

fun HardshipGrantStatus_string :: "HardshipGrantStatus \<Rightarrow> string" where
  "HardshipGrantStatus_string GrantPending = ''pending''"
| "HardshipGrantStatus_string GrantSubmitted = ''submitted''"
| "HardshipGrantStatus_string GrantDisbursed = ''disbursed''"
| "HardshipGrantStatus_string GrantFailed = ''failed''"

record EWAHardshipGrant =
  gr_id :: string
  gr_org :: string
  gr_employee :: string
  gr_amount :: Kobo
  gr_reason :: string
  gr_approved_by_ip :: string
  gr_status :: HardshipGrantStatus
  gr_provider :: "string option"
  gr_provider_ref :: "string option"
  gr_failure_reason :: "string option"
  gr_submitted_at :: "time option"
  gr_disbursed_at :: "time option"
  gr_created_at :: time

record OrganizationFundingAccount =
  fa_org :: string
  fa_provider :: string
  fa_reference :: string
  fa_number :: string
  fa_name :: string
  fa_bank_name :: string
  fa_bank_code :: string

datatype task =
    TaskDisburseAdvance string string
  | TaskDisburseGrant string string
  | TaskProcessPayroll string string

record grants_db = ewa_db +
  hardship_grants :: "EWAHardshipGrant list"
  funding_accounts :: "OrganizationFundingAccount list"
  tasks :: "task list"

definition EWAHardshipGrant_BeforeCreate :: "('z base_db_scheme) \<Rightarrow> EWAHardshipGrant \<Rightarrow> EWAHardshipGrant" where
  "EWAHardshipGrant_BeforeCreate db g = (if gr_id g = [] then g\<lparr>gr_id := fresh_id ''GRANT-'' db\<rparr> else g)"

subsection \<open>The funding pool\<close>

definition funding_key :: "string \<Rightarrow> string" where
  "funding_key ref = ''employer_funding:'' @ ref"

definition RecordEmployerFunding ::
  "('z ledger_db_scheme) \<Rightarrow> string \<Rightarrow> money \<Rightarrow> string \<Rightarrow> ('z ledger_db_scheme) res" where
  "RecordEmployerFunding db orgID amount providerReference =
     rbind (EnsureAccount db orgID [] AccountCashSettlement (Curr amount)) (\<lambda>(cash, db1).
     rbind (EnsureAccount db1 orgID [] AccountEmployerFunding (Curr amount)) (\<lambda>(funding, db2).
     rbind (PostTransaction db2 (pair_request orgID ''employer_funding_deposit'' providerReference
              (funding_key providerReference) (acc_id cash) (acc_id funding) amount)) (\<lambda>(_, db3).
     Inr db3)))"

definition FundingExposure ::
  "('z ledger_db_scheme) \<Rightarrow> string \<Rightarrow> Currency \<Rightarrow> (money \<times> 'z ledger_db_scheme) res" where
  "FundingExposure db orgID currency =
     rbind (EnsureAccount db orgID [] AccountCashSettlement currency) (\<lambda>(cash, db1).
     rbind (AccountBalance db1 orgID (acc_id cash)) (\<lambda>bal. Inr (bal, db1)))"

text \<open>\<open>fundingHeadroom\<close>: what has been deposited beyond what was paid out.\<close>

definition funding_headroom :: "money \<Rightarrow> Kobo" where
  "funding_headroom exposure = (if Minor exposure <s 0 then - Minor exposure else 0)"

definition policyTx :: "('z ewa_db_scheme) \<Rightarrow> string \<Rightarrow> EWAPolicy res" where
  "policyTx db orgID =
     (case find_row (\<lambda>p. pol_org p = orgID) (ewa_policies db) of
        Inr p \<Rightarrow> Inr p
      | Inl _ \<Rightarrow> rbind (OrgCurrencyTx db orgID) (\<lambda>c. Inr (DefaultEWAPolicy orgID c)))"

definition ProvisionAccount ::
  "(string \<Rightarrow> string \<Rightarrow> string \<Rightarrow> (bool \<times> string \<times> string \<times> (string \<times> string \<times> string) list) res)
     \<Rightarrow> ('z grants_db_scheme) \<Rightarrow> string \<Rightarrow> string
     \<Rightarrow> OrganizationFundingAccount res \<times> ('z grants_db_scheme)" where
  "ProvisionAccount reserve db orgID contactEmail = WithOrgScope db (\<lambda>db.
     case find_row (\<lambda>f. fa_org f = orgID) (funding_accounts db) of
       Inr existing \<Rightarrow> Inr (existing, db)
     | Inl _ \<Rightarrow>
       rbind (find_row (\<lambda>o1. org_id o1 = orgID) (organizations db)) (\<lambda>o1.
       rbind (reserve (''FUND-'' @ orgID) (org_name o1) contactEmail) (\<lambda>(successful, ref, name, accs).
         if \<not> successful then Inl (ErrOther ''funding account provider rejected'')
         else case accs of
           [] \<Rightarrow> Inl (ErrOther ''funding account provider rejected'')
         | (number, bankName, bankCode) # _ \<Rightarrow>
             let record = \<lparr>fa_org = orgID, fa_provider = ''monnify'', fa_reference = ref, fa_number = number,
                   fa_name = name, fa_bank_name = bankName, fa_bank_code = bankCode\<rparr>
             in rbind (insert_row fa_org record (funding_accounts db)) (\<lambda>rows.
                if list_ex (\<lambda>f. fa_provider f = ''monnify'' \<and> fa_reference f = ref) (funding_accounts db)
                then Inl ErrUniqueViolation
                else
                  rbind (AppendAuditTx (db\<lparr>funding_accounts := rows\<rparr>) orgID ''OrganizationFundingAccount''
                    orgID ''provisioned'' [] number [] []) (\<lambda>db'.
                  Inr (record, db'))))))"

definition GetFundingStatus ::
  "('z grants_db_scheme) \<Rightarrow> string
     \<Rightarrow> (OrganizationFundingAccount option \<times> money) res \<times> ('z grants_db_scheme)" where
  "GetFundingStatus db orgID = WithOrgScope db (\<lambda>db.
     let account = (case find_row (\<lambda>f. fa_org f = orgID) (funding_accounts db) of
                      Inr a \<Rightarrow> Some a | Inl _ \<Rightarrow> None)
     in rbind (FundingExposure db orgID NGN) (\<lambda>(exposure, db'). Inr ((account, exposure), db')))"

subsection \<open>Hardship grants\<close>

definition grant_key :: "string \<Rightarrow> string" where
  "grant_key gid = ''hardship_grant:'' @ gid"

definition grant_reversal_key :: "string \<Rightarrow> string" where
  "grant_reversal_key gid = ''hardship_grant_reversal:'' @ gid"

text \<open>The gate on the funding pool.\<close>

definition pool_gate :: "('z ledger_db_scheme) \<Rightarrow> EWAPolicy \<Rightarrow> string \<Rightarrow> Currency \<Rightarrow> Kobo \<Rightarrow> ('z ledger_db_scheme) res" where
  "pool_gate db policy orgID currency amount =
     (if pol_require_funding policy
      then rbind (FundingExposure db orgID currency) (\<lambda>(exposure, db0).
             if funding_headroom exposure <s amount then Inl ErrHardshipGrantPoolExhausted else Inr db0)
      else Inr db)"

definition IssueHardshipGrant ::
  "bool \<Rightarrow> time \<Rightarrow> ('z grants_db_scheme) \<Rightarrow> string \<Rightarrow> string \<Rightarrow> Kobo \<Rightarrow> string \<Rightarrow> string
     \<Rightarrow> EWAHardshipGrant res \<times> ('z grants_db_scheme)" where
  "IssueHardshipGrant enqueue_ok now db orgID employeeID amount reason actorIP =
     (if \<not> Kobo_IsPositive amount then (Inl (ErrOther ''amount must be positive''), db)
      else if reason = [] then (Inl (ErrOther ''reason is required''), db)
      else WithOrgScope db (\<lambda>db.
        case find_row (\<lambda>e. emp_id e = employeeID \<and> emp_org e = orgID) (employees db) of
          Inl _ \<Rightarrow> Inl ErrHardshipGrantEmployeeIneligible
        | Inr emp \<Rightarrow>
          if \<not> emp_active emp then Inl ErrHardshipGrantEmployeeIneligible
          else
            rbind (policyTx db orgID) (\<lambda>policy.
            rbind (OrgCurrencyTx db orgID) (\<lambda>currency.
            rbind (pool_gate db policy orgID currency amount) (\<lambda>db1.
            let g = EWAHardshipGrant_BeforeCreate db1
                  \<lparr>gr_id = [], gr_org = orgID, gr_employee = employeeID, gr_amount = amount,
                   gr_reason = reason, gr_approved_by_ip = actorIP, gr_status = GrantPending,
                   gr_provider = None, gr_provider_ref = None, gr_failure_reason = None,
                   gr_submitted_at = None, gr_disbursed_at = None, gr_created_at = now\<rparr>
            in rbind (insert_row gr_id g (hardship_grants db1)) (\<lambda>rows.
            rbind (EnsureAccount ((take_uuid db1)\<lparr>hardship_grants := rows\<rparr>) orgID [] AccountCashSettlement currency)
              (\<lambda>(cash, db2).
            rbind (EnsureAccount db2 orgID [] AccountHardshipGrantExpense currency) (\<lambda>(expense, db3).
            rbind (PostTransaction db3 (pair_request orgID ''hardship_grant'' (gr_id g) (grant_key (gr_id g))
                     (acc_id expense) (acc_id cash) (KoboIn currency amount))) (\<lambda>(_, db4).
            rbind (AppendAuditTx db4 orgID ''EWAHardshipGrant'' (gr_id g) ''issued'' [] reason actorIP []) (\<lambda>db5.
            if \<not> enqueue_ok then Inl ErrQueueUnavailable
            else Inr (g, db5\<lparr>tasks := tasks db5 @ [TaskDisburseGrant orgID (gr_id g)]\<rparr>)))))))))))"

definition ListHardshipGrants :: "('z grants_db_scheme) \<Rightarrow> string \<Rightarrow> string \<Rightarrow> EWAHardshipGrant list" where
  "ListHardshipGrants db orgID employeeID =
     sort_key (\<lambda>g. - gr_created_at g)
       (filter (\<lambda>g. gr_org g = orgID \<and> gr_employee g = employeeID) (hardship_grants db))"

definition MarkGrantSubmitted ::
  "time \<Rightarrow> ('z grants_db_scheme) \<Rightarrow> string \<Rightarrow> string \<Rightarrow> string \<Rightarrow> ('z grants_db_scheme) res" where
  "MarkGrantSubmitted now db grantID providerName providerReference =
     (let P = (\<lambda>g. gr_id g = grantID \<and> gr_status g = GrantPending)
      in if count_where P (hardship_grants db) = 0 then Inl ErrStaleStatus
         else if list_ex (\<lambda>g. gr_provider g = Some providerName \<and>
                gr_provider_ref g = Some providerReference) (hardship_grants db)
         then Inl ErrUniqueViolation
         else Inr (db\<lparr>hardship_grants := update_where P
                (\<lambda>g. g\<lparr>gr_status := GrantSubmitted, gr_provider := Some providerName,
                       gr_provider_ref := Some providerReference, gr_submitted_at := Some now\<rparr>)
                (hardship_grants db)\<rparr>))"

definition grant_open :: "string \<Rightarrow> EWAHardshipGrant \<Rightarrow> bool" where
  "grant_open grantID g \<longleftrightarrow> gr_id g = grantID \<and> gr_status g \<in> {GrantPending, GrantSubmitted}"

definition ConfirmGrantDisbursed ::
  "time \<Rightarrow> ('z grants_db_scheme) \<Rightarrow> EWAHardshipGrant \<Rightarrow> (EWAHardshipGrant \<times> 'z grants_db_scheme) res" where
  "ConfirmGrantDisbursed now db g =
     (if count_where (grant_open (gr_id g)) (hardship_grants db) = 0 then Inl ErrStaleStatus
      else
        let db1 = db\<lparr>hardship_grants := update_where (grant_open (gr_id g))
              (\<lambda>r. r\<lparr>gr_status := GrantDisbursed, gr_disbursed_at := Some now\<rparr>) (hardship_grants db)\<rparr>
        in rbind (AppendAuditTx db1 (gr_org g) ''EWAHardshipGrant'' (gr_id g) ''disbursed''
              (HardshipGrantStatus_string (gr_status g)) (HardshipGrantStatus_string GrantDisbursed) ''internal'' [])
            (\<lambda>db2. Inr (g\<lparr>gr_status := GrantDisbursed, gr_disbursed_at := Some now\<rparr>, db2)))"

definition FailGrant ::
  "('z grants_db_scheme) \<Rightarrow> EWAHardshipGrant \<Rightarrow> string \<Rightarrow> (EWAHardshipGrant \<times> 'z grants_db_scheme) res" where
  "FailGrant db g reason =
     (if count_where (grant_open (gr_id g)) (hardship_grants db) = 0 then Inl ErrStaleStatus
      else
        let db1 = db\<lparr>hardship_grants := update_where (grant_open (gr_id g))
              (\<lambda>r. r\<lparr>gr_status := GrantFailed, gr_failure_reason := Some reason\<rparr>) (hardship_grants db)\<rparr>
        in rbind (OrgCurrencyTx db1 (gr_org g)) (\<lambda>currency.
           rbind (EnsureAccount db1 (gr_org g) [] AccountCashSettlement currency) (\<lambda>(cash, db2).
           rbind (EnsureAccount db2 (gr_org g) [] AccountHardshipGrantExpense currency) (\<lambda>(expense, db3).
           rbind (PostTransaction db3 (pair_request (gr_org g) ''hardship_grant_reversal'' (gr_id g)
                    (grant_reversal_key (gr_id g)) (acc_id cash) (acc_id expense)
                    (KoboIn currency (gr_amount g)))) (\<lambda>(_, db4).
           rbind (AppendAuditTx db4 (gr_org g) ''EWAHardshipGrant'' (gr_id g) ''failed''
                    (HardshipGrantStatus_string (gr_status g)) reason ''internal'' []) (\<lambda>db5.
           Inr (g\<lparr>gr_status := GrantFailed, gr_failure_reason := Some reason\<rparr>, db5)))))))"

subsection \<open>Library\<close>

lemma FundingExposure_Inr:
  assumes inv: "ledger_inv db" and f: "FundingExposure db orgID c = Inr (m, db')"
  shows "ledger_inv db' \<and> ledger_frame db db' \<and> posted db' = posted db \<and> ledger_balance db' = ledger_balance db \<and>
    Curr m = c \<and> - (2 ^ 63) < sint (Minor m) \<and> sint (Minor m) = - ledger_balance db (cash_of orgID c)"
proof -
  from f obtain cash where e: "EnsureAccount db orgID [] AccountCashSettlement c = Inr (cash, db')"
    and b: "AccountBalance db' orgID (acc_id cash) = Inr m"
    by (auto simp: FundingExposure_def go_results)
  note l = de.ensure_law [OF inv e]
  then have cash: "cash \<in> set (ledger_accounts db')" "acc_identity cash = cash_of orgID c"
    by (simp_all add: holds_account_def cash_of_def)
  then have "acc_org cash = orgID" "acc_currency cash = c" by (simp_all add: acc_identity_def cash_of_def)
  moreover have acc: "accounts_inv (ledger_accounts db')" using l by (simp add: ledger_inv_def)
  have "acc_normal cash = Credit"
    using acc cash by (auto simp: accounts_inv_def list_all_iff acc_identity_def cash_of_def)
  moreover have "ledger_balance db' (cash_of orgID c) = balance db' (acc_id cash)"
    using find_identity [OF acc cash(1)] cash(2) by (simp add: ledger_balance_def)
  ultimately show ?thesis
    using AccountBalance_Inr [of db' cash m] l cash(1) b EnsureAccount_frame [OF e] by simp
qed

lemma funding_headroom_exact:
  "- (2 ^ 63) < sint (Minor m) \<Longrightarrow> sint (funding_headroom m) = max 0 (- sint (Minor m))"
  using sint64_ge [of "Minor m"] sint64_less [of "Minor m"]
  by (auto simp: funding_headroom_def sless_sint sint64_minus wrap64_def max_def)

lemma RecordEmployerFunding_moved:
  assumes "ledger_inv db" "RecordEmployerFunding db orgID amount ref = Inr db'"
  shows "moved db db' orgID (funding_key ref) (cash_of orgID (Curr amount))
    (orgID, None, AccountEmployerFunding, Curr amount) (sint (Minor amount))"
proof -
  from assms(2) obtain cash db1 funding db2 t where
    "EnsureAccount db orgID [] AccountCashSettlement (Curr amount) = Inr (cash, db1)"
    "EnsureAccount db1 orgID [] AccountEmployerFunding (Curr amount) = Inr (funding, db2)"
    "PostTransaction db2 (pair_request orgID ''employer_funding_deposit'' ref
              (funding_key ref) (acc_id cash) (acc_id funding) amount) = Inr (t, db')"
    by (auto simp: RecordEmployerFunding_def go_results)
  from ensure_pair_post [OF assms(1) this(1,2) _ this(3)] show ?thesis by (auto simp: cash_of_def)
qed

lemma ledger_frame_grants:
  assumes "ledger_frame db db'"
  shows "hardship_grants db' = hardship_grants db" "funding_accounts db' = funding_accounts db" "tasks db' = tasks db"
proof -
  note e = assms [unfolded ledger_frame_def]
  show "hardship_grants db' = hardship_grants db" by (subst e) simp
  show "funding_accounts db' = funding_accounts db" by (subst e) simp
  show "tasks db' = tasks db" by (subst e) simp
qed

lemma take_uuid_grants [simp]:
  "hardship_grants (take_uuid db) = hardship_grants db" "tasks (take_uuid db) = tasks db"
  "funding_accounts (take_uuid db) = funding_accounts db"
  by (simp_all add: take_uuid_def)

lemma ledger_cong_grants [simp]:
  "ledger_inv (db\<lparr>hardship_grants := g\<rparr>) = ledger_inv db" "posted (db\<lparr>hardship_grants := g\<rparr>) = posted db"
  "ledger_balance (db\<lparr>hardship_grants := g\<rparr>) = ledger_balance db"
  "OrgCurrencyTx (db\<lparr>hardship_grants := g\<rparr>) = OrgCurrencyTx db"
  "ledger_inv (db\<lparr>tasks := t\<rparr>) = ledger_inv db" "posted (db\<lparr>tasks := t\<rparr>) = posted db"
  "ledger_balance (db\<lparr>tasks := t\<rparr>) = ledger_balance db" "OrgCurrencyTx (db\<lparr>tasks := t\<rparr>) = OrgCurrencyTx db"
  by (rule ledger_cong; simp | simp add: OrgCurrencyTx_def fun_eq_iff)+

lemma ledger_cong_uuid [simp]:
  "ledger_inv (take_uuid db) = ledger_inv db" "posted (take_uuid db) = posted db"
  "ledger_balance (take_uuid db) = ledger_balance db" "OrgCurrencyTx (take_uuid db) = OrgCurrencyTx db"
  by (rule ledger_cong; simp | simp add: OrgCurrencyTx_def fun_eq_iff)+

definition grants_inv :: "('z grants_db_scheme) \<Rightarrow> bool" where
  "grants_inv db \<longleftrightarrow>
     ledger_inv db \<and> distinct (map gr_id (hardship_grants db)) \<and>
     (\<forall>o1 i. posted db o1 (grant_key i) \<longrightarrow> (\<exists>g \<in> set (hardship_grants db). gr_id g = i)) \<and>
     (\<forall>o1 i. posted db o1 (grant_reversal_key i) \<longrightarrow>
        (\<exists>g \<in> set (hardship_grants db). gr_id g = i \<and> gr_status g = GrantFailed))"

lemma grant_keys_fresh:
  assumes "grants_inv db" "i \<notin> gr_id ` set (hardship_grants db)"
  shows "\<not> posted db o1 (grant_key i)" "\<not> posted db o1 (grant_reversal_key i)"
  using assms unfolding grants_inv_def by (metis imageI)+

lemma grant_keys_simps [simp]:
  "grant_key i = grant_key j \<longleftrightarrow> i = j" "grant_reversal_key i = grant_reversal_key j \<longleftrightarrow> i = j"
  "grant_key i \<noteq> grant_reversal_key j" "grant_reversal_key i \<noteq> grant_key j"
  by (simp_all add: grant_key_def grant_reversal_key_def)

definition expense_of :: "string \<Rightarrow> Currency \<Rightarrow> account_identity" where
  "expense_of orgID c = (orgID, None, AccountHardshipGrantExpense, c)"

lemma pool_gate_Inr:
  assumes inv: "ledger_inv db" and g: "pool_gate db policy orgID c amount = Inr db1" and pos: "0 < sint amount"
  shows "ledger_inv db1 \<and> ledger_frame db db1 \<and> posted db1 = posted db \<and> ledger_balance db1 = ledger_balance db \<and>
    (pol_require_funding policy \<longrightarrow> sint amount \<le> ledger_balance db (cash_of orgID c))"
proof (cases "pol_require_funding policy")
  case True
  then obtain m where f: "FundingExposure db orgID c = Inr (m, db1)" and h: "\<not> funding_headroom m <s amount"
    using g by (auto simp: pool_gate_def go_results split: if_splits)
  note e = FundingExposure_Inr [OF inv f]
  then show ?thesis using h pos funding_headroom_exact [of m] by (auto simp: sless_sint)
next
  case False then show ?thesis using g inv by (simp add: pool_gate_def)
qed

lemma IssueHardshipGrant_Inr:
  assumes inv: "grants_inv db"
    and i: "IssueHardshipGrant enq now db orgID emp amount reason ip = (Inr g, db')"
  obtains c policy where "OrgCurrencyTx db orgID = Inr c" "policyTx db orgID = Inr policy"
    "hardship_grants db' = hardship_grants db @ [g]" "tasks db' = tasks db @ [TaskDisburseGrant orgID (gr_id g)]"
    "gr_id g \<notin> gr_id ` set (hardship_grants db)" "gr_org g = orgID" "gr_amount g = amount" "gr_status g = GrantPending"
    "ledger_inv db'" "posted db' = (\<lambda>o1 k. posted db o1 k \<or> (o1 = orgID \<and> k = grant_key (gr_id g)))"
    "ledger_balance db' = transfer (expense_of orgID c) (cash_of orgID c) (sint amount) (ledger_balance db)"
    "OrgCurrencyTx db' = OrgCurrencyTx db" "0 < sint amount"
    "pol_require_funding policy \<longrightarrow> sint amount \<le> ledger_balance db (cash_of orgID c)"
proof -
  have pos: "0 < sint amount"
    using i by (auto simp: IssueHardshipGrant_def Kobo_IsPositive_def sless_sint split: if_splits)
  have led: "ledger_inv db" using inv by (simp add: grants_inv_def)
  from i obtain policy c db1 rows cash db2 expense db3 t db4 db5 where
    pol: "policyTx db orgID = Inr policy" and c: "OrgCurrencyTx db orgID = Inr c"
    and gate: "pool_gate db policy orgID c amount = Inr db1"
    and rows: "insert_row gr_id g (hardship_grants db1) = Inr rows"
    and e1: "EnsureAccount ((take_uuid db1)\<lparr>hardship_grants := rows\<rparr>) orgID [] AccountCashSettlement c = Inr (cash, db2)"
    and e2: "EnsureAccount db2 orgID [] AccountHardshipGrantExpense c = Inr (expense, db3)"
    and p: "PostTransaction db3 (pair_request orgID ''hardship_grant'' (gr_id g) (grant_key (gr_id g))
                     (acc_id expense) (acc_id cash) (KoboIn c amount)) = Inr (t, db4)"
    and au: "AppendAuditTx db4 orgID ''EWAHardshipGrant'' (gr_id g) ''issued'' [] reason ip [] = Inr db5"
    and db': "db' = db5\<lparr>tasks := tasks db5 @ [TaskDisburseGrant orgID (gr_id g)]\<rparr>"
    and g: "gr_org g = orgID" "gr_amount g = amount" "gr_status g = GrantPending"
    by (auto simp: IssueHardshipGrant_def WithOrgScope_def go_results Let_def
        EWAHardshipGrant_BeforeCreate_def split: if_splits sum.splits)
  note gt = pool_gate_Inr [OF led gate pos]
  have fr1: "hardship_grants db1 = hardship_grants db" "tasks db1 = tasks db" "OrgCurrencyTx db1 = OrgCurrencyTx db"
    using gt ledger_frame_grants [of db db1] ledger_frame_ewa [of db db1] by simp_all
  have new: "gr_id g \<notin> gr_id ` set (hardship_grants db)" "rows = hardship_grants db @ [g]"
    using rows fr1 by (simp_all add: insert_row_Inr)
  let ?db = "(take_uuid db1)\<lparr>hardship_grants := rows\<rparr>"
  have "ledger_inv ?db" using gt by simp
  from ensure_pair_post [OF this e1 e2 _ p]
  have mv: "moved ?db db4 orgID (grant_key (gr_id g)) (expense_of orgID c) (cash_of orgID c) (sint amount)"
    by (auto simp: KoboIn_def expense_of_def cash_of_def)
  have fr2: "hardship_grants db4 = rows" "tasks db4 = tasks db" "OrgCurrencyTx db4 = OrgCurrencyTx db"
    using mv ledger_frame_grants [of ?db db4] ledger_frame_ewa [of ?db db4] fr1 by (simp_all add: moved_def)
  have "\<not> posted db orgID (grant_key (gr_id g))" using inv new(1) by (rule grant_keys_fresh)
  moreover obtain a where "db5 = db4\<lparr>uuid_next := Suc (uuid_next db4), audit_events := audit_events db4 @ [a]\<rparr>"
    using AppendAuditTx_Inr [OF au] by blast
  ultimately show thesis
    using that [OF c pol] mv gt fr2 new g pos db' by (simp add: moved_def)
qed


lemma FailGrant_Inr:
  assumes inv: "ledger_inv db" and f: "FailGrant db g reason = Inr (g', db')"
  obtains c where "OrgCurrencyTx db (gr_org g) = Inr c"
    "\<exists>r \<in> set (hardship_grants db). grant_open (gr_id g) r"
    "hardship_grants db' = update_where (grant_open (gr_id g))
       (\<lambda>r. r\<lparr>gr_status := GrantFailed, gr_failure_reason := Some reason\<rparr>) (hardship_grants db)"
    "ledger_inv db'" "posted db' = (\<lambda>o1 k. posted db o1 k \<or> (o1 = gr_org g \<and> k = grant_reversal_key (gr_id g)))"
    "ledger_balance db' = (if posted db (gr_org g) (grant_reversal_key (gr_id g)) then ledger_balance db
       else transfer (cash_of (gr_org g) c) (expense_of (gr_org g) c) (sint (gr_amount g)) (ledger_balance db))"
proof -
  let ?rows = "update_where (grant_open (gr_id g))
       (\<lambda>r. r\<lparr>gr_status := GrantFailed, gr_failure_reason := Some reason\<rparr>) (hardship_grants db)"
  let ?db = "db\<lparr>hardship_grants := ?rows\<rparr>"
  from f obtain c cash db2 expense db3 t db4 where op: "count_where (grant_open (gr_id g)) (hardship_grants db) \<noteq> 0"
    and c: "OrgCurrencyTx db (gr_org g) = Inr c"
    and e1: "EnsureAccount ?db (gr_org g) [] AccountCashSettlement c = Inr (cash, db2)"
    and e2: "EnsureAccount db2 (gr_org g) [] AccountHardshipGrantExpense c = Inr (expense, db3)"
    and p: "PostTransaction db3 (pair_request (gr_org g) ''hardship_grant_reversal'' (gr_id g)
                    (grant_reversal_key (gr_id g)) (acc_id cash) (acc_id expense)
                    (KoboIn c (gr_amount g))) = Inr (t, db4)"
    and au: "AppendAuditTx db4 (gr_org g) ''EWAHardshipGrant'' (gr_id g) ''failed''
                    (HardshipGrantStatus_string (gr_status g)) reason ''internal'' [] = Inr db'"
    by (auto simp: FailGrant_def go_results Let_def split: if_splits)
  have "ledger_inv ?db" using inv by simp
  from ensure_pair_post [OF this e1 e2 _ p]
  have mv: "moved ?db db4 (gr_org g) (grant_reversal_key (gr_id g)) (cash_of (gr_org g) c)
      (expense_of (gr_org g) c) (sint (gr_amount g))"
    by (auto simp: KoboIn_def expense_of_def cash_of_def)
  then have "hardship_grants db4 = ?rows" using ledger_frame_grants [of ?db db4] by (simp add: moved_def)
  moreover obtain a where "db' = db4\<lparr>uuid_next := Suc (uuid_next db4), audit_events := audit_events db4 @ [a]\<rparr>"
    using AppendAuditTx_Inr [OF au] by blast
  ultimately show thesis using that [OF c] mv op by (auto simp: moved_def count_where_eq_0_iff)
qed

subsection \<open>Properties\<close>

text \<open>
  A deposit is recorded once and moves exactly its amount from the pool's
  \<open>employer_funding\<close> side to \<open>cash_settlement\<close>: whatever the number of webhook deliveries
  under one provider reference, the second one changes nothing.
\<close>

theorem deposit_recorded_once:
  assumes inv: "ledger_inv db" and new: "\<not> posted db orgID (funding_key ref)"
    and first: "RecordEmployerFunding db orgID amount ref = Inr db1"
    and again: "RecordEmployerFunding db1 orgID amount ref = Inr db2"
  shows "ledger_balance db1 = transfer (cash_of orgID (Curr amount)) (orgID, None, AccountEmployerFunding, Curr amount)
           (sint (Minor amount)) (ledger_balance db) \<and>
         ledger_balance db2 = ledger_balance db1 \<and> ledger_inv db2 \<and> ledger_frame db db2"
proof -
  note m1 = RecordEmployerFunding_moved [OF inv first]
  then have "ledger_inv db1" by (simp add: moved_def)
  note m2 = RecordEmployerFunding_moved [OF this again]
  show ?thesis using m1 m2 new ledger_frame_trans [of db db1 db2] by (simp add: moved_def)
qed

text \<open>
  C38: with funding coverage required, a hardship grant is only issued when the pool
  covers it: the organization's cash account holds at least the amount before, is
  reduced by exactly the amount, and is not overdrawn after.
\<close>

theorem grant_covered_by_pool:
  assumes "grants_inv db" "policyTx db orgID = Inr policy" "pol_require_funding policy"
    and "OrgCurrencyTx db orgID = Inr c"
    and "IssueHardshipGrant enq now db orgID emp amount reason ip = (Inr g, db')"
  shows "0 < sint amount \<and> sint amount \<le> ledger_balance db (cash_of orgID c) \<and>
    ledger_balance db' (cash_of orgID c) = ledger_balance db (cash_of orgID c) - sint amount \<and>
    0 \<le> ledger_balance db' (cash_of orgID c) \<and> enq \<and>
    tasks db' = tasks db @ [TaskDisburseGrant orgID (gr_id g)]"
proof -
  have enq: "enq" using assms(5)
    by (auto simp: IssueHardshipGrant_def WithOrgScope_def go_results Let_def split: if_splits sum.splits)
  show ?thesis
    by (rule IssueHardshipGrant_Inr [OF assms(1,5)])
      (use assms enq in \<open>auto simp: transfer_def cash_of_def expense_of_def\<close>)
qed

text \<open>
  A failed grant is undone exactly: after issuing a grant and failing it, every
  ledger balance is back where it was before the grant, and neither a second failure nor
  a late confirmation of the same grant goes through.
\<close>

theorem failed_grant_is_reversed:
  assumes inv: "grants_inv db"
    and issue: "IssueHardshipGrant enq now db orgID emp amount reason ip = (Inr g, db1)"
    and fail: "FailGrant db1 g why = Inr (g', db2)"
  shows "ledger_balance db2 = ledger_balance db \<and>
    FailGrant db2 g why2 = Inl ErrStaleStatus \<and> ConfirmGrantDisbursed now2 db2 g = Inl ErrStaleStatus"
proof (rule IssueHardshipGrant_Inr [OF inv issue])
  fix c policy
  assume i: "OrgCurrencyTx db orgID = Inr c" "hardship_grants db1 = hardship_grants db @ [g]"
    "gr_id g \<notin> gr_id ` set (hardship_grants db)" "gr_org g = orgID" "gr_amount g = amount"
    "ledger_inv db1" "posted db1 = (\<lambda>o1 k. posted db o1 k \<or> (o1 = orgID \<and> k = grant_key (gr_id g)))"
    "ledger_balance db1 = transfer (expense_of orgID c) (cash_of orgID c) (sint amount) (ledger_balance db)"
    "OrgCurrencyTx db1 = OrgCurrencyTx db"
  have "\<not> posted db orgID (grant_reversal_key (gr_id g))" using inv i(3) by (rule grant_keys_fresh)
  then have np: "\<not> posted db1 (gr_org g) (grant_reversal_key (gr_id g))" using i by simp
  show ?thesis
  proof (rule FailGrant_Inr [OF i(6) fail])
    fix c'
    assume f: "OrgCurrencyTx db1 (gr_org g) = Inr c'"
      "hardship_grants db2 = update_where (grant_open (gr_id g))
         (\<lambda>r. r\<lparr>gr_status := GrantFailed, gr_failure_reason := Some why\<rparr>) (hardship_grants db1)"
      "ledger_balance db2 = (if posted db1 (gr_org g) (grant_reversal_key (gr_id g)) then ledger_balance db1
         else transfer (cash_of (gr_org g) c') (expense_of (gr_org g) c') (sint (gr_amount g)) (ledger_balance db1))"
    have "c' = c" using f(1) i by simp
    then have "ledger_balance db2 = ledger_balance db"
      using f(3) np i by (simp add: transfer_def fun_eq_iff)
    moreover have "count_where (grant_open (gr_id g)) (hardship_grants db2) = 0"
      unfolding f(2) by (rule count_update_where_none) (simp add: grant_open_def)
    ultimately show ?thesis by (simp add: FailGrant_def ConfirmGrantDisbursed_def)
  qed
qed


definition demo_policy :: EWAPolicy where
  "demo_policy = (DefaultEWAPolicy ''ORG-1'' NGN)\<lparr>pol_require_funding := True\<rparr>"

definition demo_employee :: Employee where
  "demo_employee = \<lparr>emp_id = ''EMP-1'', emp_org = ''ORG-1'', emp_name = ''Ada'', emp_email = ''a'',
     emp_account_number = ''1'', emp_bank_code = ''2'', emp_salary = 2200, emp_wage_type = WageSalaried,
     emp_hourly_rate = 0, emp_active = True, emp_created_at = 0\<rparr>"

definition demo_pool_accounts :: "LedgerAccount list" where
  "demo_pool_accounts =
     [\<lparr>acc_id = ''A1'', acc_org = ''ORG-1'', acc_employee = None, acc_type = AccountCashSettlement,
       acc_normal = Credit, acc_currency = NGN\<rparr>,
      \<lparr>acc_id = ''A2'', acc_org = ''ORG-1'', acc_employee = None, acc_type = AccountEmployerFunding,
       acc_normal = Credit, acc_currency = NGN\<rparr>,
      \<lparr>acc_id = ''A3'', acc_org = ''ORG-1'', acc_employee = None, acc_type = AccountHardshipGrantExpense,
       acc_normal = Debit, acc_currency = NGN\<rparr>]"

text \<open>A pool with one deposit of 500.\<close>

definition demo_pool :: grants_db where
  "demo_pool =
     \<lparr>uuids = demo_uuids, uuid_next = 0, audit_events = [], organizations = [demo_organization],
      employees = [demo_employee], consent_records = [], ledger_accounts = demo_pool_accounts,
      ledger_transactions =
        [\<lparr>ltx_id = ''T1'', ltx_org = ''ORG-1'', ltx_kind = ''employer_funding_deposit'', ltx_reference = ''R'',
          ltx_key = funding_key ''R''\<rparr>],
      ledger_entries = [demo_entry ''T1'' ''A1'' Debit 500, demo_entry ''T1'' ''A2'' Credit 500],
      advances = [], ewa_policies = [demo_policy], worker_prefs = [], users = [],
      hardship_grants = [], funding_accounts = [], tasks = []\<rparr>"

lemma funding_key_simps [simp]:
  "funding_key r = funding_key r' \<longleftrightarrow> r = r'" "funding_key r \<noteq> grant_key i" "funding_key r \<noteq> grant_reversal_key i"
  "grant_key i \<noteq> funding_key r" "grant_reversal_key i \<noteq> funding_key r" "funding_key r \<noteq> []" "grant_key i \<noteq> []"
  "grant_reversal_key i \<noteq> []"
  by (simp_all add: funding_key_def grant_key_def grant_reversal_key_def)

lemma demo_pool_inv: "grants_inv demo_pool"
  by (simp add: grants_inv_def ledger_inv_def accounts_inv_def postings_inv_def demo_pool_def demo_pool_accounts_def
      acc_identity_def entry_insertable_def demo_entry_def word_sless_alt transaction_balanced_def entry_value_def
      posted_def)

lemma demo_grant_run:
  obtains g db1 g' db2 where
    "IssueHardshipGrant True 0 demo_pool ''ORG-1'' ''EMP-1'' 300 ''rent'' ''ip'' = (Inr g, db1)"
    "FailGrant db1 g ''bounced'' = Inr (g', db2)"
proof -
  have "case IssueHardshipGrant True 0 demo_pool ''ORG-1'' ''EMP-1'' 300 ''rent'' ''ip'' of
     (Inr g, db1) \<Rightarrow> (case FailGrant db1 g ''bounced'' of Inr _ \<Rightarrow> True | _ \<Rightarrow> False) | _ \<Rightarrow> False"
    by code_simp
  then show thesis using that by (auto split: prod.splits sum.splits)
qed

theorem deposit_recorded_once_witness:
  "\<exists>db1 db2. RecordEmployerFunding demo_pool ''ORG-1'' (KoboIn NGN 200) ''S'' = Inr db1 \<and>
     RecordEmployerFunding db1 ''ORG-1'' (KoboIn NGN 200) ''S'' = Inr db2 \<and>
     ledger_balance db2 = ledger_balance db1"
proof -
  have "case RecordEmployerFunding demo_pool ''ORG-1'' (KoboIn NGN 200) ''S'' of
     Inr db1 \<Rightarrow> (case RecordEmployerFunding db1 ''ORG-1'' (KoboIn NGN 200) ''S'' of Inr _ \<Rightarrow> True | _ \<Rightarrow> False)
     | _ \<Rightarrow> False" by code_simp
  then obtain db1 db2 where run: "RecordEmployerFunding demo_pool ''ORG-1'' (KoboIn NGN 200) ''S'' = Inr db1"
    "RecordEmployerFunding db1 ''ORG-1'' (KoboIn NGN 200) ''S'' = Inr db2" by (auto split: sum.splits)
  have "ledger_inv demo_pool" "\<not> posted demo_pool ''ORG-1'' (funding_key ''S'')"
    using demo_pool_inv by (simp_all add: grants_inv_def) (simp add: demo_pool_def posted_def)
  from deposit_recorded_once [OF this run] run show ?thesis by blast
qed

theorem grant_covered_by_pool_witness:
  "\<exists>g db'. IssueHardshipGrant True 0 demo_pool ''ORG-1'' ''EMP-1'' 300 ''rent'' ''ip'' = (Inr g, db') \<and>
     0 \<le> ledger_balance db' (cash_of ''ORG-1'' NGN)"
proof -
  obtain g db1 where run: "IssueHardshipGrant True 0 demo_pool ''ORG-1'' ''EMP-1'' 300 ''rent'' ''ip'' = (Inr g, db1)"
    using demo_grant_run by blast
  have "policyTx demo_pool ''ORG-1'' = Inr demo_policy" "OrgCurrencyTx demo_pool ''ORG-1'' = Inr NGN"
      "pol_require_funding demo_policy"
    by (simp_all add: policyTx_def OrgCurrencyTx_def find_row_def demo_pool_def demo_policy_def
        DefaultEWAPolicy_def demo_organization_def defaultEWAPolicyMajorUnits_def)
  from grant_covered_by_pool [OF demo_pool_inv this(1,3,2) run] run show ?thesis by blast
qed

theorem failed_grant_is_reversed_witness:
  "\<exists>g db1 g' db2. IssueHardshipGrant True 0 demo_pool ''ORG-1'' ''EMP-1'' 300 ''rent'' ''ip'' = (Inr g, db1) \<and>
     FailGrant db1 g ''bounced'' = Inr (g', db2) \<and> ledger_balance db2 = ledger_balance demo_pool"
proof -
  obtain g db1 g' db2 where run: "IssueHardshipGrant True 0 demo_pool ''ORG-1'' ''EMP-1'' 300 ''rent'' ''ip'' = (Inr g, db1)"
    "FailGrant db1 g ''bounced'' = Inr (g', db2)" using demo_grant_run .
  from failed_grant_is_reversed [OF demo_pool_inv run] run show ?thesis by blast
qed

end
