(* ===== verification/Time_Entries.thy ===== *)
theory Time_Entries
  imports Accrual Grants
begin

text \<open>
  Timesheets (\<open>models/time_entry.go\<close>, \<open>services/time_entry_service.go\<close>): the entry
  lifecycle, the per-day cap of 24 hours, and the queries accrual and payroll read. The
  row-level-security scope of the queries is the \<open>orgID\<close> argument; \<open>lockEmployeeDay\<close> only
  serialises transactions and has no effect on the state.
\<close>

datatype TimeEntryStatus = TimeEntryPending | TimeEntryApproved | TimeEntryRejected

fun validTimeEntryTransitions :: "TimeEntryStatus \<Rightarrow> TimeEntryStatus list" where
  "validTimeEntryTransitions TimeEntryPending = [TimeEntryApproved, TimeEntryRejected]"
| "validTimeEntryTransitions TimeEntryApproved = []"
| "validTimeEntryTransitions TimeEntryRejected = []"

definition CanTransitionTimeEntry :: "TimeEntryStatus \<Rightarrow> TimeEntryStatus \<Rightarrow> bool" where
  "CanTransitionTimeEntry from to \<longleftrightarrow> to \<in> set (validTimeEntryTransitions from)"

datatype TimeEntryShiftType = ShiftRegular | ShiftNight | ShiftWeekend | ShiftHoliday | OtherShift string

record TimeEntry =
  te_id :: string
  te_org :: string
  te_employee :: string
  te_work_date :: time
  te_minutes :: int
  te_shift :: TimeEntryShiftType
  te_status :: TimeEntryStatus
  te_note :: string
  te_paid_item :: "string option"
  te_rejection_reason :: string
  te_approved_by :: string
  te_approved_at :: "time option"
  te_created_at :: time
  te_updated_at :: time

record time_db = grants_db +
  time_entries :: "TimeEntry list"

definition TimeEntry_BeforeCreate :: "('z base_db_scheme) \<Rightarrow> TimeEntry \<Rightarrow> TimeEntry" where
  "TimeEntry_BeforeCreate db t = (if te_id t = [] then t\<lparr>te_id := fresh_id ''TE-'' db\<rparr> else t)"

text \<open>The \<open>SET\<close> clause of \<open>TransitionTimeEntry\<close>.\<close>

definition stamp_time_entry :: "time \<Rightarrow> string \<Rightarrow> string \<Rightarrow> TimeEntryStatus \<Rightarrow> TimeEntry \<Rightarrow> TimeEntry" where
  "stamp_time_entry now actor reason nxt r =
     (let r1 = r\<lparr>te_status := nxt, te_updated_at := now\<rparr>
      in case nxt of
           TimeEntryApproved \<Rightarrow> r1\<lparr>te_approved_by := actor, te_approved_at := Some now\<rparr>
         | TimeEntryRejected \<Rightarrow> r1\<lparr>te_rejection_reason := reason\<rparr>
         | _ \<Rightarrow> r1)"

definition cas_time_entry ::
  "time \<Rightarrow> string \<Rightarrow> string \<Rightarrow> TimeEntry list \<Rightarrow> string \<Rightarrow> TimeEntryStatus \<Rightarrow> TimeEntryStatus \<Rightarrow> TimeEntry list res" where
  "cas_time_entry now actor reason rows i current nxt =
     (if \<not> CanTransitionTimeEntry current nxt then Inl ErrInvalidTransition
      else
        let P = (\<lambda>r. te_id r = i \<and> te_status r = current)
        in if count_where P rows = 0 then Inl ErrStaleStatus
           else Inr (update_where P (stamp_time_entry now actor reason nxt) rows))"

definition TransitionTimeEntry ::
  "time \<Rightarrow> ('z time_db_scheme) \<Rightarrow> TimeEntry \<Rightarrow> TimeEntryStatus \<Rightarrow> TimeEntryStatus \<Rightarrow> string \<Rightarrow> string
     \<Rightarrow> (TimeEntry \<times> 'z time_db_scheme) res" where
  "TransitionTimeEntry now db entry current nxt actor reason =
     rbind (cas_time_entry now actor reason (time_entries db) (te_id entry) current nxt) (\<lambda>rows.
       Inr ((case nxt of
               TimeEntryApproved \<Rightarrow> entry\<lparr>te_status := nxt, te_approved_by := actor, te_approved_at := Some now\<rparr>
             | TimeEntryRejected \<Rightarrow> entry\<lparr>te_status := nxt, te_rejection_reason := reason\<rparr>
             | _ \<Rightarrow> entry\<lparr>te_status := nxt\<rparr>), db\<lparr>time_entries := rows\<rparr>))"

definition periodUpperBound :: "string \<Rightarrow> time \<Rightarrow> time res" where
  "periodUpperBound period asOf =
     rbind (ParsePeriod period) (\<lambda>start.
       let period_end = AddDate start 0 1 0;
           asOfDate = Date (Year asOf) (Month asOf) (DayOfMonth asOf);
           upperExclusive = AddDate asOfDate 0 0 1
       in Inr (if period_end < upperExclusive then period_end else upperExclusive))"

definition ApprovedEntriesForPeriod ::
  "('z time_db_scheme) \<Rightarrow> string \<Rightarrow> string \<Rightarrow> string \<Rightarrow> time \<Rightarrow> TimeEntry list res" where
  "ApprovedEntriesForPeriod db orgID employeeID period asOf =
     rbind (ParsePeriod period) (\<lambda>start.
     rbind (periodUpperBound period asOf) (\<lambda>upperExclusive.
       Inr (sort_key (\<lambda>e. (te_work_date e, te_id e))
         (filter (\<lambda>e. te_org e = orgID \<and> te_employee e = employeeID \<and> te_status e = TimeEntryApproved \<and>
                     start \<le> te_work_date e \<and> te_work_date e < upperExclusive) (time_entries db)))))"

definition UnpaidApprovedEntriesThrough ::
  "('z time_db_scheme) \<Rightarrow> string \<Rightarrow> string \<Rightarrow> string \<Rightarrow> time \<Rightarrow> TimeEntry list res" where
  "UnpaidApprovedEntriesThrough db orgID employeeID period asOf =
     rbind (periodUpperBound period asOf) (\<lambda>upperExclusive.
       Inr (sort_key (\<lambda>e. (te_work_date e, te_id e))
         (filter (\<lambda>e. te_org e = orgID \<and> te_employee e = employeeID \<and> te_status e = TimeEntryApproved \<and>
                     te_paid_item e = None \<and> te_work_date e < upperExclusive) (time_entries db))))"

definition PaidMinutesInISOWeek :: "('z time_db_scheme) \<Rightarrow> string \<Rightarrow> string \<Rightarrow> int \<times> int \<Rightarrow> int" where
  "PaidMinutesInISOWeek db orgID employeeID week =
     sum_list (map te_minutes
       (filter (\<lambda>e. te_org e = orgID \<and> te_employee e = employeeID \<and> te_status e = TimeEntryApproved \<and>
                   te_paid_item e \<noteq> None \<and> ISOWeek (te_work_date e) = week) (time_entries db)))"

definition MarkTimeEntriesPaid ::
  "time \<Rightarrow> ('z time_db_scheme) \<Rightarrow> string \<Rightarrow> string list \<Rightarrow> string \<Rightarrow> ('z time_db_scheme)" where
  "MarkTimeEntriesPaid now db orgID entryIDs payrollItemID =
     (if entryIDs = [] then db
      else db\<lparr>time_entries := update_where (\<lambda>e. te_org e = orgID \<and> te_id e \<in> set entryIDs)
             (\<lambda>e. e\<lparr>te_paid_item := Some payrollItemID, te_updated_at := now\<rparr>) (time_entries db)\<rparr>)"

definition SumApprovedMinutes ::
  "('z time_db_scheme) \<Rightarrow> string \<Rightarrow> string \<Rightarrow> string \<Rightarrow> time \<Rightarrow> int res" where
  "SumApprovedMinutes db orgID employeeID period asOf =
     rbind (ApprovedEntriesForPeriod db orgID employeeID period asOf) (\<lambda>entries.
       Inr (sum_list (map te_minutes entries)))"

subsection \<open>TimeEntryService\<close>

definition maxMinutesPerEntry :: int where
  "maxMinutesPerEntry = 1440"

definition validShiftTypes :: "TimeEntryShiftType \<Rightarrow> bool" where
  "validShiftTypes s \<longleftrightarrow> s \<in> {ShiftRegular, ShiftNight, ShiftWeekend, ShiftHoliday}"

definition dayMinutes ::
  "TimeEntry list \<Rightarrow> string \<Rightarrow> string \<Rightarrow> time \<Rightarrow> TimeEntryStatus list \<Rightarrow> string \<Rightarrow> int" where
  "dayMinutes rows orgID employeeID day statuses excludeID =
     sum_list (map te_minutes
       (filter (\<lambda>e. te_org e = orgID \<and> te_employee e = employeeID \<and> te_work_date e = day \<and>
                   te_status e \<in> set statuses \<and> te_id e \<noteq> excludeID) rows))"

definition submitted_note :: "int \<Rightarrow> time \<Rightarrow> string" where
  "submitted_note minutes day =
     FormatInt minutes @ '' minutes on '' @ format_date day"

definition SubmitTimeEntry ::
  "time \<Rightarrow> ('z time_db_scheme) \<Rightarrow> string \<Rightarrow> string \<Rightarrow> time \<Rightarrow> int \<Rightarrow> TimeEntryShiftType \<Rightarrow> string
     \<Rightarrow> TimeEntry res \<times> ('z time_db_scheme)" where
  "SubmitTimeEntry now db orgID employeeID workDate minutesWorked shiftType0 note =
     (if minutesWorked \<le> 0 \<or> maxMinutesPerEntry < minutesWorked
      then (Inl (ErrOther ''time entry: minutes worked out of range''), db)
      else
        let shiftType = (if shiftType0 = OtherShift [] then ShiftRegular else shiftType0);
            day = truncateToDay workDate
        in if \<not> validShiftTypes shiftType then (Inl (ErrOther ''time entry: invalid shift type''), db)
           else if truncateToDay now < day then (Inl (ErrOther ''time entry: work date is in the future''), db)
           else WithOrgScope db (\<lambda>db.
             rbind (find_row (\<lambda>e. emp_id e = employeeID \<and> emp_org e = orgID) (employees db)) (\<lambda>emp.
             if \<not> Employee_IsHourly emp then Inl (ErrOther ''time entry: employee is not an hourly worker'')
             else if \<not> emp_active emp then Inl (ErrOther ''time entry: employee is no longer active'')
             else
               let claimed = dayMinutes (time_entries db) orgID employeeID day [TimeEntryPending, TimeEntryApproved] []
               in if maxMinutesPerEntry < claimed + minutesWorked
                  then Inl (ErrOther ''time entry: total minutes for this day would exceed 24 hours'')
                  else
                    let record = TimeEntry_BeforeCreate db
                          \<lparr>te_id = [], te_org = orgID, te_employee = employeeID, te_work_date = day,
                           te_minutes = minutesWorked, te_shift = shiftType, te_status = TimeEntryPending,
                           te_note = note, te_paid_item = None, te_rejection_reason = [], te_approved_by = [],
                           te_approved_at = None, te_created_at = now, te_updated_at = now\<rparr>
                    in rbind (insert_row te_id record (time_entries db)) (\<lambda>rows.
                       rbind (AppendAuditTx ((take_uuid db)\<lparr>time_entries := rows\<rparr>) orgID ''TimeEntry''
                                (te_id record) ''submitted'' [] (submitted_note minutesWorked day) [] []) (\<lambda>db'.
                       Inr (record, db'))))))"

text \<open>\<open>ErrStaleStatus\<close> is reported as \<open>ErrTimeEntryAlreadyResolved\<close>.\<close>

definition resolve_time_entry ::
  "time \<Rightarrow> ('z time_db_scheme) \<Rightarrow> TimeEntry \<Rightarrow> TimeEntryStatus \<Rightarrow> string \<Rightarrow> string
     \<Rightarrow> (TimeEntry \<times> 'z time_db_scheme) res" where
  "resolve_time_entry now db e nxt actor reason =
     (case TransitionTimeEntry now db e TimeEntryPending nxt actor reason of
        Inl err \<Rightarrow> Inl (if err = ErrStaleStatus then ErrOther ''time entry: already approved or rejected'' else err)
      | Inr r \<Rightarrow> Inr r)"

definition ApproveTimeEntry ::
  "time \<Rightarrow> ('z time_db_scheme) \<Rightarrow> string \<Rightarrow> string \<Rightarrow> string \<Rightarrow> string \<Rightarrow> TimeEntry res \<times> ('z time_db_scheme)" where
  "ApproveTimeEntry now db orgID entryID actor actorIP = WithOrgScope db (\<lambda>db.
     rbind (find_row (\<lambda>e. te_id e = entryID \<and> te_org e = orgID) (time_entries db)) (\<lambda>e.
       if maxMinutesPerEntry <
            dayMinutes (time_entries db) orgID (te_employee e) (te_work_date e) [TimeEntryApproved] (te_id e) + te_minutes e
       then Inl (ErrOther ''time entry: total minutes for this day would exceed 24 hours'')
       else
         rbind (resolve_time_entry now db e TimeEntryApproved actor []) (\<lambda>(e', db1).
         rbind (AppendAuditTx db1 orgID ''TimeEntry'' (te_id e) ''approved'' ''pending'' ''approved'' actorIP actor) (\<lambda>db2.
         Inr (e', db2)))))"

definition RejectTimeEntry ::
  "time \<Rightarrow> ('z time_db_scheme) \<Rightarrow> string \<Rightarrow> string \<Rightarrow> string \<Rightarrow> string \<Rightarrow> string
     \<Rightarrow> TimeEntry res \<times> ('z time_db_scheme)" where
  "RejectTimeEntry now db orgID entryID actor actorIP reason = WithOrgScope db (\<lambda>db.
     rbind (find_row (\<lambda>e. te_id e = entryID \<and> te_org e = orgID) (time_entries db)) (\<lambda>e.
       rbind (resolve_time_entry now db e TimeEntryRejected actor reason) (\<lambda>(e', db1).
       rbind (AppendAuditTx db1 orgID ''TimeEntry'' (te_id e) ''rejected'' ''pending'' reason actorIP actor) (\<lambda>db2.
       Inr (e', db2)))))"

definition ListTimeEntries ::
  "('z time_db_scheme) \<Rightarrow> string \<Rightarrow> string \<Rightarrow> TimeEntryStatus option \<Rightarrow> int \<Rightarrow> TimeEntry list" where
  "ListTimeEntries db orgID employeeID status limit0 =
     (let limit = (if limit0 \<le> 0 \<or> 200 < limit0 then 100 else limit0)
      in take (nat limit) (sort_key (\<lambda>e. (- te_work_date e, - te_created_at e))
           (filter (\<lambda>e. te_org e = orgID \<and> (employeeID = [] \<or> te_employee e = employeeID) \<and>
                       (case status of None \<Rightarrow> True | Some s \<Rightarrow> te_status e = s)) (time_entries db))))"

subsection \<open>Library\<close>

lemma CanTransitionTimeEntry_iff:
  "CanTransitionTimeEntry a b \<longleftrightarrow> a = TimeEntryPending \<and> b \<in> {TimeEntryApproved, TimeEntryRejected}"
  by (cases a) (auto simp: CanTransitionTimeEntry_def)

lemma stamp_time_entry_simps [simp]:
  "te_id (stamp_time_entry now actor reason nxt r) = te_id r"
  "te_status (stamp_time_entry now actor reason nxt r) = nxt"
  "te_org (stamp_time_entry now actor reason nxt r) = te_org r"
  "te_employee (stamp_time_entry now actor reason nxt r) = te_employee r"
  "te_work_date (stamp_time_entry now actor reason nxt r) = te_work_date r"
  "te_minutes (stamp_time_entry now actor reason nxt r) = te_minutes r"
  "te_paid_item (stamp_time_entry now actor reason nxt r) = te_paid_item r"
  by (cases nxt; simp add: stamp_time_entry_def)+

interpretation te: cas_transition CanTransitionTimeEntry te_id te_status "stamp_time_entry now actor reason"
  "cas_time_entry now actor reason" for now actor reason
  by unfold_locales (simp_all add: cas_time_entry_def Let_def, auto simp: CanTransitionTimeEntry_iff)


text \<open>A row's contribution to a day's total, and the total as a plain sum over the table.\<close>

definition day_share :: "string \<Rightarrow> string \<Rightarrow> time \<Rightarrow> TimeEntryStatus list \<Rightarrow> TimeEntry \<Rightarrow> int" where
  "day_share orgID employeeID day statuses e =
     (if te_org e = orgID \<and> te_employee e = employeeID \<and> te_work_date e = day \<and>
         te_status e \<in> set statuses \<and> te_id e \<noteq> [] then te_minutes e else 0)"

lemma dayMinutes_sum:
  "dayMinutes rows orgID employeeID day statuses [] = sum_list (map (day_share orgID employeeID day statuses) rows)"
  by (induction rows) (simp_all add: dayMinutes_def day_share_def)

lemma sum_update_le:
  fixes g :: "'r \<Rightarrow> int"
  assumes "\<And>r. r \<in> set rows \<Longrightarrow> P r \<Longrightarrow> g (f r) \<le> g r"
  shows "sum_list (map g (update_where P f rows)) \<le> sum_list (map g rows)"
  using assms by (induction rows) (auto intro!: add_mono)

definition time_inv :: "('z time_db_scheme) \<Rightarrow> bool" where
  "time_inv db \<longleftrightarrow>
     distinct (map te_id (time_entries db)) \<and>
     (\<forall>e \<in> set (time_entries db). te_id e \<noteq> [] \<and> 0 < te_minutes e \<and> te_minutes e \<le> 1440 \<and>
        truncateToDay (te_work_date e) = te_work_date e) \<and>
     (\<forall>orgID emp day. dayMinutes (time_entries db) orgID emp day [TimeEntryPending, TimeEntryApproved] [] \<le> 1440)"

lemma time_inv_cong: "time_entries db' = time_entries db \<Longrightarrow> time_inv db' = time_inv db"
  by (simp add: time_inv_def)

lemma truncate_idem: "truncateToDay (truncateToDay t) = truncateToDay t"
  by (simp add: truncateToDay)

lemma fresh_id_nonempty [simp]: "fresh_id (c # cs) db \<noteq> []"
  by (simp add: fresh_id_def)

lemma SubmitTimeEntry_Inr:
  assumes "SubmitTimeEntry now db orgID emp workDate mins shift note = (Inr e, db')"
  shows "time_entries db' = time_entries db @ [e] \<and> te_id e \<notin> set (map te_id (time_entries db)) \<and> te_id e \<noteq> [] \<and>
    te_org e = orgID \<and> te_employee e = emp \<and> te_work_date e = truncateToDay workDate \<and> te_minutes e = mins \<and>
    0 < mins \<and> mins \<le> 1440 \<and> te_status e = TimeEntryPending \<and> te_paid_item e = None \<and>
    dayMinutes (time_entries db) orgID emp (truncateToDay workDate) [TimeEntryPending, TimeEntryApproved] [] + mins \<le> 1440"
  using assms
  by (auto simp: SubmitTimeEntry_def Let_def TimeEntry_BeforeCreate_def maxMinutesPerEntry_def WithOrgScope_def
      go_results split: if_splits sum.splits dest!: AppendAuditTx_Inr)

lemma SubmitTimeEntry_inv:
  assumes "time_inv db" "SubmitTimeEntry now db orgID emp workDate mins shift note = (r, db')"
  shows "time_inv db'"
proof (cases r)
  case (Inr e)
  note S = SubmitTimeEntry_Inr [OF assms(2) [unfolded Inr]]
  have "dayMinutes (time_entries db') o2 e2 d2 [TimeEntryPending, TimeEntryApproved] [] \<le> 1440" for o2 e2 d2
  proof (cases "(o2, e2, d2) = (orgID, emp, truncateToDay workDate)")
    case True
    then show ?thesis using S by (simp add: dayMinutes_sum day_share_def)
  next
    case False
    then have "day_share o2 e2 d2 [TimeEntryPending, TimeEntryApproved] e = 0" using S by (auto simp: day_share_def)
    then show ?thesis using S assms(1) by (simp add: dayMinutes_sum time_inv_def)
  qed
  then show ?thesis using S assms(1) by (auto simp: time_inv_def truncate_idem)
next
  case (Inl err)
  then have "db' = db"
    using assms(2) by (auto simp: SubmitTimeEntry_def Let_def WithOrgScope_def split: if_splits sum.splits)
  then show ?thesis using assms(1) by simp
qed

lemma resolve_inv:
  assumes inv: "time_inv db" and t: "resolve_time_entry now db e nxt actor reason = Inr (e', db')"
  shows "time_inv db'"
proof -
  have c: "cas_time_entry now actor reason (time_entries db) (te_id e) TimeEntryPending nxt = Inr (time_entries db')"
    using t by (auto simp: resolve_time_entry_def TransitionTimeEntry_def go_results split: sum.splits)
  then have rows: "time_entries db' = update_where (\<lambda>r. te_id r = te_id e \<and> te_status r = TimeEntryPending)
      (stamp_time_entry now actor reason nxt) (time_entries db)" and nxt: "nxt \<noteq> TimeEntryPending"
    using te.cas_Inr_iff by (auto simp: CanTransitionTimeEntry_iff)
  have "dayMinutes (time_entries db') o2 e2 d2 [TimeEntryPending, TimeEntryApproved] [] \<le> 1440" for o2 e2 d2
  proof -
    have "dayMinutes (time_entries db') o2 e2 d2 [TimeEntryPending, TimeEntryApproved] [] \<le>
        dayMinutes (time_entries db) o2 e2 d2 [TimeEntryPending, TimeEntryApproved] []"
      unfolding dayMinutes_sum rows
      by (rule sum_update_le) (use inv in \<open>auto simp: day_share_def time_inv_def\<close>)
    then show ?thesis using inv by (auto simp: time_inv_def intro: order_trans)
  qed
  moreover have "distinct (map te_id (time_entries db'))"
    using te.cas_ids [OF c] inv by (simp add: time_inv_def)
  moreover have "te_id x \<noteq> [] \<and> 0 < te_minutes x \<and> te_minutes x \<le> 1440 \<and> truncateToDay (te_work_date x) = te_work_date x"
    if "x \<in> set (time_entries db')" for x
    using that inv by (auto simp: rows in_update_where time_inv_def split: if_splits)
  ultimately show ?thesis by (simp add: time_inv_def)
qed


lemma WithOrgScope_inv:
  assumes "WithOrgScope db fn = (r, db')" "P db" "\<And>x d. fn db = Inr (x, d) \<Longrightarrow> P d"
  shows "P db'"
  using assms by (cases "fn db") (auto simp: WithOrgScope_def split: prod.splits)

lemma AppendAuditTx_time_inv:
  "AppendAuditTx db a b c d e f g h = Inr db' \<Longrightarrow> time_inv db' = time_inv db"
  by (drule AppendAuditTx_Inr) (auto intro!: time_inv_cong)

lemma ApproveTimeEntry_inv:
  assumes inv: "time_inv db" and a: "ApproveTimeEntry now db orgID eid actor ip = (r, db')"
  shows "time_inv db'"
  using a [unfolded ApproveTimeEntry_def] inv
proof (rule WithOrgScope_inv)
  fix x d
  assume "rbind (find_row (\<lambda>e. te_id e = eid \<and> te_org e = orgID) (time_entries db)) (\<lambda>e.
       if maxMinutesPerEntry <
            dayMinutes (time_entries db) orgID (te_employee e) (te_work_date e) [TimeEntryApproved] (te_id e) + te_minutes e
       then Inl (ErrOther ''time entry: total minutes for this day would exceed 24 hours'')
       else
         rbind (resolve_time_entry now db e TimeEntryApproved actor []) (\<lambda>(e', db1).
         rbind (AppendAuditTx db1 orgID ''TimeEntry'' (te_id e) ''approved'' ''pending'' ''approved'' ip actor) (\<lambda>db2.
         Inr (e', db2)))) = Inr (x, d)"
  then obtain e e' db1 where "resolve_time_entry now db e TimeEntryApproved actor [] = Inr (e', db1)"
    "AppendAuditTx db1 orgID ''TimeEntry'' (te_id e) ''approved'' ''pending'' ''approved'' ip actor = Inr d"
    by (auto simp: go_results split: if_splits)
  then show "time_inv d" using resolve_inv [OF inv] AppendAuditTx_time_inv by blast
qed

lemma RejectTimeEntry_inv:
  assumes inv: "time_inv db" and a: "RejectTimeEntry now db orgID eid actor ip reason = (r, db')"
  shows "time_inv db'"
  using a [unfolded RejectTimeEntry_def] inv
proof (rule WithOrgScope_inv)
  fix x d
  assume "rbind (find_row (\<lambda>e. te_id e = eid \<and> te_org e = orgID) (time_entries db)) (\<lambda>e.
       rbind (resolve_time_entry now db e TimeEntryRejected actor reason) (\<lambda>(e', db1).
       rbind (AppendAuditTx db1 orgID ''TimeEntry'' (te_id e) ''rejected'' ''pending'' reason ip actor) (\<lambda>db2.
       Inr (e', db2)))) = Inr (x, d)"
  then obtain e e' db1 where "resolve_time_entry now db e TimeEntryRejected actor reason = Inr (e', db1)"
    "AppendAuditTx db1 orgID ''TimeEntry'' (te_id e) ''rejected'' ''pending'' reason ip actor = Inr d"
    by (auto simp: go_results)
  then show "time_inv d" using resolve_inv [OF inv] AppendAuditTx_time_inv by blast
qed

lemma MarkTimeEntriesPaid_inv:
  assumes "time_inv db"
  shows "time_inv (MarkTimeEntriesPaid now db orgID ids item)"
proof -
  have eq: "time_entries (MarkTimeEntriesPaid now db orgID ids item) =
      (if ids = [] then time_entries db else update_where (\<lambda>e. te_org e = orgID \<and> te_id e \<in> set ids)
        (\<lambda>e. e\<lparr>te_paid_item := Some item, te_updated_at := now\<rparr>) (time_entries db))"
    by (simp add: MarkTimeEntriesPaid_def)
  have "dayMinutes (time_entries (MarkTimeEntriesPaid now db orgID ids item)) o2 e2 d2 ss [] =
      dayMinutes (time_entries db) o2 e2 d2 ss []" for o2 e2 d2 ss
    unfolding dayMinutes_sum eq
    using map_update_where_same [of "\<lambda>e. te_org e = orgID \<and> te_id e \<in> set ids" "day_share o2 e2 d2 ss"]
    by (simp add: day_share_def)
  moreover have "map te_id (time_entries (MarkTimeEntriesPaid now db orgID ids item)) = map te_id (time_entries db)"
    unfolding eq by (auto intro: map_update_where_same)
  ultimately show ?thesis
    using assms unfolding time_inv_def by (auto simp: eq in_update_where split: if_splits)
qed

text \<open>
  The runs of the timesheet component: its four writing operations in any order,
  interleaved with anything that leaves the table alone.
\<close>

inductive time_step :: "('z time_db_scheme) \<Rightarrow> ('z time_db_scheme) \<Rightarrow> bool" where
  submit: "SubmitTimeEntry now db orgID emp workDate mins shift note = (r, db') \<Longrightarrow> time_step db db'"
| approve: "ApproveTimeEntry now db orgID eid actor ip = (r, db') \<Longrightarrow> time_step db db'"
| reject: "RejectTimeEntry now db orgID eid actor ip reason = (r, db') \<Longrightarrow> time_step db db'"
| paid: "db' = MarkTimeEntriesPaid now db orgID ids item \<Longrightarrow> time_step db db'"
| elsewhere: "time_entries db' = time_entries db \<Longrightarrow> time_step db db'"

inductive time_reachable :: "('z time_db_scheme) \<Rightarrow> bool" where
  start: "time_entries db = [] \<Longrightarrow> time_reachable db"
| step: "time_reachable db \<Longrightarrow> time_step db db' \<Longrightarrow> time_reachable db'"

lemma time_step_inv: "time_step db db' \<Longrightarrow> time_inv db \<Longrightarrow> time_inv db'"
proof (induction rule: time_step.induct)
  case (submit now db orgID emp workDate mins sh nt r db')
  then show ?case by (rule SubmitTimeEntry_inv [rotated])
next
  case (approve now db orgID eid actor ip r db')
  then show ?case by (rule ApproveTimeEntry_inv [rotated])
next
  case (reject now db orgID eid actor ip reason r db')
  then show ?case by (rule RejectTimeEntry_inv [rotated])
next
  case (elsewhere db' db)
  then show ?case using time_inv_cong [of db' db] by simp
qed (simp add: MarkTimeEntriesPaid_inv)

lemma time_reachable_inv: "time_reachable db \<Longrightarrow> time_inv db"
proof (induction rule: time_reachable.induct)
  case (start db)
  then show ?case by (simp add: time_inv_def dayMinutes_def)
qed (rule time_step_inv)

lemma dayMinutes_approved_le:
  assumes "time_inv db"
  shows "dayMinutes (time_entries db) orgID emp day [TimeEntryApproved] [] \<le>
    dayMinutes (time_entries db) orgID emp day [TimeEntryPending, TimeEntryApproved] []"
  unfolding dayMinutes_sum
  by (rule sum_list_mono) (use assms in \<open>auto simp: day_share_def time_inv_def\<close>)

subsection \<open>Properties\<close>

text \<open>
  C34: in every reachable state, however submissions, approvals, rejections and payroll
  runs interleave, the minutes an employee has claimed for one day (pending or approved)
  stay within 24 hours, hence so do the approved minutes that accrual and payroll pay.
\<close>

theorem day_never_exceeds_24h:
  assumes "time_reachable db"
  shows "dayMinutes (time_entries db) orgID emp day [TimeEntryPending, TimeEntryApproved] [] \<le> 24 * 60 \<and>
    dayMinutes (time_entries db) orgID emp day [TimeEntryApproved] [] \<le> 24 * 60"
proof -
  note inv = time_reachable_inv [OF assms]
  then have "dayMinutes (time_entries db) orgID emp day [TimeEntryPending, TimeEntryApproved] [] \<le> 1440"
    by (simp add: time_inv_def)
  then show ?thesis using dayMinutes_approved_le [OF inv, of orgID emp day] by simp
qed

definition demo_hourly :: Employee where
  "demo_hourly = demo_employee\<lparr>emp_id := ''EMP-h'', emp_wage_type := WageHourly, emp_hourly_rate := 600\<rparr>"

definition demo_time :: time_db where
  "demo_time = grants_db.extend (demo_pool\<lparr>employees := [demo_hourly]\<rparr>) \<lparr>time_entries = []\<rparr>"

definition demo_submitted :: "time_db" where
  "demo_submitted = snd (SubmitTimeEntry (Date 2026 8 12) demo_time (emp_org demo_hourly) ''EMP-h''
     (Date 2026 8 11 + Hour) 1000 ShiftNight [])"

theorem day_never_exceeds_24h_witness:
  "time_entries demo_submitted \<noteq> [] \<and>
   dayMinutes (time_entries demo_submitted) (emp_org demo_hourly) ''EMP-h'' (Date 2026 8 11)
     [TimeEntryPending, TimeEntryApproved] [] \<le> 24 * 60"
proof -
  have "time_reachable demo_time" by (rule time_reachable.start) (simp add: demo_time_def grants_db.defs)
  moreover have "time_step demo_time demo_submitted"
    unfolding demo_submitted_def by (rule time_step.submit [OF prod.collapse [symmetric]])
  ultimately have "time_reachable demo_submitted" by (rule time_reachable.step)
  moreover have "time_entries demo_submitted \<noteq> []" by code_simp
  ultimately show ?thesis using day_never_exceeds_24h by blast
qed

end
