(* ===== verification/Hourly_Pay.thy ===== *)
theory Hourly_Pay
  imports Time_Entries
begin

text \<open>
  Gross pay of hourly workers (\<open>hourly_pay_service.go\<close>, \<open>payroll_policy.go\<close>,
  \<open>payroll_policy_service.go\<close>): shift differentials on every minute, a weekly overtime
  premium on the minutes past the threshold, and the sweep of approved entries no
  earlier run has paid. Minute counts and basis points are small \<open>int\<close>s in the source
  and integers here; the conversion to \<open>int64\<close> is where they meet money.
\<close>

record PayrollPolicy =
  pp_org :: string
  pp_overtime_threshold :: int
  pp_overtime_bps :: int
  pp_night_bps :: int
  pp_weekend_bps :: int
  pp_holiday_bps :: int

record pay_db = time_db +
  payroll_policies :: "PayrollPolicy list"

definition DefaultPayrollPolicy :: "string \<Rightarrow> PayrollPolicy" where
  "DefaultPayrollPolicy orgID =
     \<lparr>pp_org = orgID, pp_overtime_threshold = 2400, pp_overtime_bps = 15000, pp_night_bps = 10000,
      pp_weekend_bps = 10000, pp_holiday_bps = 10000\<rparr>"

definition MultiplierBps :: "PayrollPolicy \<Rightarrow> TimeEntryShiftType \<Rightarrow> int" where
  "MultiplierBps p shiftType =
     (case shiftType of
        ShiftNight \<Rightarrow> pp_night_bps p
      | ShiftWeekend \<Rightarrow> pp_weekend_bps p
      | ShiftHoliday \<Rightarrow> pp_holiday_bps p
      | _ \<Rightarrow> 10000)"

definition payrollPolicyTx :: "('z pay_db_scheme) \<Rightarrow> string \<Rightarrow> PayrollPolicy" where
  "payrollPolicyTx db orgID =
     (case find_row (\<lambda>p. pp_org p = orgID) (payroll_policies db) of
        Inr p \<Rightarrow> p | Inl _ \<Rightarrow> DefaultPayrollPolicy orgID)"

record PayrollPolicyUpdate =
  up_overtime_threshold :: "int option"
  up_overtime_bps :: "int option"
  up_night_bps :: "int option"
  up_weekend_bps :: "int option"
  up_holiday_bps :: "int option"

text \<open>One optional field: left alone, refused below its bound, or set.\<close>

definition set_field :: "int \<Rightarrow> int option \<Rightarrow> (int \<Rightarrow> 'p \<Rightarrow> 'p) \<Rightarrow> 'p \<Rightarrow> 'p res" where
  "set_field bound v upd p =
     (case v of None \<Rightarrow> Inr p | Some x \<Rightarrow> if x < bound then Inl (ErrOther ''invalid policy value'') else Inr (upd x p))"

definition upsert :: "('r \<Rightarrow> 'k) \<Rightarrow> 'r \<Rightarrow> 'r list \<Rightarrow> 'r list" where
  "upsert pk r rows =
     (if list_ex (\<lambda>r'. pk r' = pk r) rows then update_where (\<lambda>r'. pk r' = pk r) (\<lambda>_. r) rows else rows @ [r])"

definition GetPayrollPolicy :: "('z pay_db_scheme) \<Rightarrow> string \<Rightarrow> PayrollPolicy" where
  "GetPayrollPolicy db orgID = payrollPolicyTx db orgID"

definition UpdatePayrollPolicy ::
  "(PayrollPolicy \<Rightarrow> string) \<Rightarrow> ('z pay_db_scheme) \<Rightarrow> string \<Rightarrow> PayrollPolicyUpdate \<Rightarrow> string
     \<Rightarrow> PayrollPolicy res \<times> ('z pay_db_scheme)" where
  "UpdatePayrollPolicy marshal db orgID upd actorIP = WithOrgScope db (\<lambda>db.
     let current = payrollPolicyTx db orgID
     in rbind (set_field 1 (up_overtime_threshold upd) (\<lambda>x p. p\<lparr>pp_overtime_threshold := x\<rparr>) current) (\<lambda>p1.
        rbind (set_field 10000 (up_overtime_bps upd) (\<lambda>x p. p\<lparr>pp_overtime_bps := x\<rparr>) p1) (\<lambda>p2.
        rbind (set_field 10000 (up_night_bps upd) (\<lambda>x p. p\<lparr>pp_night_bps := x\<rparr>) p2) (\<lambda>p3.
        rbind (set_field 10000 (up_weekend_bps upd) (\<lambda>x p. p\<lparr>pp_weekend_bps := x\<rparr>) p3) (\<lambda>p4.
        rbind (set_field 10000 (up_holiday_bps upd) (\<lambda>x p. p\<lparr>pp_holiday_bps := x\<rparr>) p4) (\<lambda>p5.
        rbind (AppendAuditTx (db\<lparr>payroll_policies := upsert pp_org p5 (payroll_policies db)\<rparr>) orgID
                 ''PayrollPolicy'' orgID ''policy_updated'' (marshal current) (marshal p5) actorIP []) (\<lambda>db'.
        Inr (p5, db'))))))))"

subsection \<open>ComputeHourlyGross\<close>

record HourlyPayBreakdown =
  RegularMinutes :: int
  OvertimeMinutes :: int
  BaseKobo :: Kobo
  OvertimePremiumKobo :: Kobo
  GrossKobo :: Kobo
  EntryIDs :: "string list"

text \<open>The accumulators of the loop; \<open>run_weeks\<close> is \<open>weekMinutes\<close>, with the seeded keys.\<close>

record hourly_run =
  run_weeks :: "((int \<times> int) \<times> int) list"
  run_regular :: int
  run_overtime :: int
  run_base :: "Kobo list"
  run_premium :: "Kobo list"
  run_ids :: "string list"

definition week_before :: "((int \<times> int) \<Rightarrow> int) \<Rightarrow> ((int \<times> int) \<times> int) list \<Rightarrow> int \<times> int \<Rightarrow> int" where
  "week_before paid weeks key = (case map_of weeks key of Some m \<Rightarrow> m | None \<Rightarrow> paid key)"

definition regular_portion :: "int \<Rightarrow> int \<Rightarrow> int \<Rightarrow> int" where
  "regular_portion threshold before minutes =
     (if threshold \<le> before then 0
      else if threshold < before + minutes then threshold - before
      else minutes)"

definition entry_premium :: "PayrollPolicy \<Rightarrow> Kobo \<Rightarrow> int \<Rightarrow> Kobo list res" where
  "entry_premium policy shiftRate overtimePortion =
     (if 0 < overtimePortion then
        let extraBps = pp_overtime_bps policy - 10000
        in if 0 < extraBps then
             rbind (Kobo_Percent shiftRate (word_of_int extraBps) 10000) (\<lambda>extraRate.
             rbind (Kobo_Percent extraRate (word_of_int overtimePortion) 60) (\<lambda>premium. Inr [premium]))
           else Inr []
      else Inr [])"

definition hourly_step ::
  "PayrollPolicy \<Rightarrow> Kobo \<Rightarrow> ((int \<times> int) \<Rightarrow> int) \<Rightarrow> TimeEntry \<Rightarrow> hourly_run \<Rightarrow> hourly_run res" where
  "hourly_step policy hourlyRate paid entry run =
     (let key = ISOWeek (te_work_date entry);
          before = week_before paid (run_weeks run) key;
          regularPortion = regular_portion (pp_overtime_threshold policy) before (te_minutes entry);
          overtimePortion = te_minutes entry - regularPortion
      in rbind (Kobo_Percent hourlyRate (word_of_int (MultiplierBps policy (te_shift entry))) 10000) (\<lambda>shiftRate.
         rbind (Kobo_Percent shiftRate (word_of_int (te_minutes entry)) 60) (\<lambda>entryBase.
         rbind (entry_premium policy shiftRate overtimePortion) (\<lambda>premium.
         Inr \<lparr>run_weeks = (key, before + te_minutes entry) # run_weeks run,
              run_regular = run_regular run + regularPortion,
              run_overtime = run_overtime run + overtimePortion,
              run_base = run_base run @ [entryBase],
              run_premium = run_premium run @ premium,
              run_ids = run_ids run @ [te_id entry]\<rparr>))))"

fun hourly_loop ::
  "PayrollPolicy \<Rightarrow> Kobo \<Rightarrow> ((int \<times> int) \<Rightarrow> int) \<Rightarrow> TimeEntry list \<Rightarrow> hourly_run \<Rightarrow> hourly_run res" where
  "hourly_loop policy hourlyRate paid [] run = Inr run"
| "hourly_loop policy hourlyRate paid (e # es) run =
     rbind (hourly_step policy hourlyRate paid e run) (hourly_loop policy hourlyRate paid es)"

definition ComputeHourlyGross ::
  "('z pay_db_scheme) \<Rightarrow> string \<Rightarrow> string \<Rightarrow> string \<Rightarrow> time \<Rightarrow> Kobo \<Rightarrow> HourlyPayBreakdown res" where
  "ComputeHourlyGross db orgID employeeID period asOf hourlyRate =
     (let policy = payrollPolicyTx db orgID
      in rbind (UnpaidApprovedEntriesThrough db orgID employeeID period asOf) (\<lambda>entries.
         rbind (hourly_loop policy hourlyRate (PaidMinutesInISOWeek db orgID employeeID) entries
                  \<lparr>run_weeks = [], run_regular = 0, run_overtime = 0, run_base = [], run_premium = [], run_ids = []\<rparr>) (\<lambda>run.
         rbind (Kobo_Sum (run_base run)) (\<lambda>base.
         rbind (Kobo_Sum (run_premium run)) (\<lambda>premium.
         rbind (Kobo_Add base premium) (\<lambda>gross.
         Inr \<lparr>RegularMinutes = run_regular run, OvertimeMinutes = run_overtime run, BaseKobo = base,
              OvertimePremiumKobo = premium, GrossKobo = gross, EntryIDs = run_ids run\<rparr>))))))"


subsection \<open>Library\<close>

definition week_minutes :: "TimeEntry list \<Rightarrow> int \<times> int \<Rightarrow> int" where
  "week_minutes es w = sum_list (map te_minutes (filter (\<lambda>e. ISOWeek (te_work_date e) = w) es))"

definition beyond :: "int \<Rightarrow> int \<Rightarrow> int" where
  "beyond threshold m = max 0 (m - threshold)"

lemma overtime_telescopes:
  "0 \<le> m \<Longrightarrow> m - regular_portion th before m = beyond th (before + m) - beyond th before"
  by (auto simp: regular_portion_def beyond_def)

lemma week_minutes_Cons:
  "week_minutes (e # es) w = (if ISOWeek (te_work_date e) = w then te_minutes e else 0) + week_minutes es w"
  by (simp add: week_minutes_def)

lemma hourly_step_Inr:
  assumes "hourly_step policy rate paid e run = Inr run'"
  shows "run_regular run' + run_overtime run' = run_regular run + run_overtime run + te_minutes e"
    "run_overtime run' = run_overtime run + (te_minutes e - regular_portion (pp_overtime_threshold policy)
       (week_before paid (run_weeks run) (ISOWeek (te_work_date e))) (te_minutes e))"
    "run_ids run' = run_ids run @ [te_id e]"
    "week_before paid (run_weeks run') w = week_before paid (run_weeks run) w +
       (if ISOWeek (te_work_date e) = w then te_minutes e else 0)"
  using assms by (auto simp: hourly_step_def Let_def go_results week_before_def)

lemma hourly_loop_Inr:
  assumes "hourly_loop policy rate paid es run = Inr run'"
  shows "run_regular run' + run_overtime run' = run_regular run + run_overtime run + sum_list (map te_minutes es)"
    and "run_ids run' = run_ids run @ map te_id es"
  using assms by (induction es arbitrary: run) (auto simp: go_results dest: hourly_step_Inr)

lemma hourly_loop_overtime:
  assumes "hourly_loop policy rate paid es run = Inr run'" "\<forall>e \<in> set es. 0 \<le> te_minutes e"
    and "finite W" "(\<lambda>e. ISOWeek (te_work_date e)) ` set es \<subseteq> W"
  shows "run_overtime run' = run_overtime run +
    (\<Sum>w\<in>W. beyond (pp_overtime_threshold policy) (week_before paid (run_weeks run) w + week_minutes es w) -
             beyond (pp_overtime_threshold policy) (week_before paid (run_weeks run) w))"
  using assms(1,2,4)
proof (induction es arbitrary: run)
  case Nil
  then show ?case by (simp add: week_minutes_def)
next
  case (Cons e es)
  let ?th = "pp_overtime_threshold policy" and ?k = "ISOWeek (te_work_date e)"
  let ?b = "week_before paid (run_weeks run)"
  obtain r1 where step: "hourly_step policy rate paid e run = Inr r1"
    and rest: "hourly_loop policy rate paid es r1 = Inr run'"
    using Cons.prems(1) by (auto simp: go_results)
  note s = hourly_step_Inr [OF step]
  have k: "?k \<in> W" using Cons.prems by simp
  have "run_overtime run' = run_overtime r1 + (\<Sum>w\<in>W. beyond ?th (week_before paid (run_weeks r1) w + week_minutes es w) -
      beyond ?th (week_before paid (run_weeks r1) w))"
    using Cons.IH [OF rest] Cons.prems by simp
  also have "\<dots> = run_overtime r1 + (\<Sum>w\<in>W. beyond ?th (?b w + week_minutes (e # es) w) -
      beyond ?th (?b w + (if ?k = w then te_minutes e else 0)))"
    by (simp add: s(4) week_minutes_Cons add.assoc)
  also have "\<dots> = run_overtime r1 + (\<Sum>w\<in>W. beyond ?th (?b w + week_minutes (e # es) w) - beyond ?th (?b w)) -
      (\<Sum>w\<in>W. if w = ?k then beyond ?th (?b ?k + te_minutes e) - beyond ?th (?b ?k) else 0)"
  proof -
    have "beyond ?th (?b w + week_minutes (e # es) w) - beyond ?th (?b w + (if ?k = w then te_minutes e else 0)) =
        (beyond ?th (?b w + week_minutes (e # es) w) - beyond ?th (?b w)) -
        (if w = ?k then beyond ?th (?b ?k + te_minutes e) - beyond ?th (?b ?k) else 0)" for w
      by simp
    then show ?thesis by (simp only: sum_subtractf)
  qed
  also have "\<dots> = run_overtime r1 + (\<Sum>w\<in>W. beyond ?th (?b w + week_minutes (e # es) w) - beyond ?th (?b w)) -
      (beyond ?th (?b ?k + te_minutes e) - beyond ?th (?b ?k))"
    using k assms(3) by (simp add: sum.delta)
  also have "run_overtime r1 = run_overtime run + (beyond ?th (?b ?k + te_minutes e) - beyond ?th (?b ?k))"
    using s(2) overtime_telescopes [of "te_minutes e" ?th "?b ?k"] Cons.prems(2) by simp
  finally show ?case by simp
qed


lemma ComputeHourlyGross_Inr:
  assumes "ComputeHourlyGross db orgID emp period asOf rate = Inr b"
  obtains es run where "UnpaidApprovedEntriesThrough db orgID emp period asOf = Inr es"
    "hourly_loop (payrollPolicyTx db orgID) rate (PaidMinutesInISOWeek db orgID emp) es
       \<lparr>run_weeks = [], run_regular = 0, run_overtime = 0, run_base = [], run_premium = [], run_ids = []\<rparr> = Inr run"
    "RegularMinutes b = run_regular run" "OvertimeMinutes b = run_overtime run" "EntryIDs b = run_ids run"
    "Kobo_Sum (run_base run) = Inr (BaseKobo b)" "Kobo_Sum (run_premium run) = Inr (OvertimePremiumKobo b)"
    "Kobo_Add (BaseKobo b) (OvertimePremiumKobo b) = Inr (GrossKobo b)"
  using assms by (auto simp: ComputeHourlyGross_def Let_def go_results)

lemma UnpaidApprovedEntriesThrough_Inr:
  assumes "UnpaidApprovedEntriesThrough db orgID emp period asOf = Inr es" "e \<in> set es"
  shows "e \<in> set (time_entries db)" "te_org e = orgID" "te_employee e = emp" "te_status e = TimeEntryApproved"
    "te_paid_item e = None"
  using assms by (auto simp: UnpaidApprovedEntriesThrough_def go_results)

text \<open>The entries a payroll run has paid; no step takes one out again.\<close>

definition paid_ids :: "('z time_db_scheme) \<Rightarrow> string set" where
  "paid_ids db = {te_id e | e. e \<in> set (time_entries db) \<and> te_paid_item e \<noteq> None}"

lemma paid_ids_update:
  assumes "\<And>e. te_id (f e) = te_id e" "\<And>e. te_paid_item e \<noteq> None \<Longrightarrow> te_paid_item (f e) \<noteq> None"
    and "time_entries db' = update_where P f (time_entries db)"
  shows "paid_ids db \<subseteq> paid_ids db'"
proof
  fix i assume "i \<in> paid_ids db"
  then obtain e where e: "e \<in> set (time_entries db)" "te_paid_item e \<noteq> None" "i = te_id e"
    by (auto simp: paid_ids_def)
  let ?e = "if P e then f e else e"
  have "?e \<in> set (time_entries db')" using e(1) assms(3) by (auto simp: in_update_where)
  moreover have "te_id ?e = i" "te_paid_item ?e \<noteq> None" using e assms(1,2) by simp_all
  ultimately show "i \<in> paid_ids db'" unfolding paid_ids_def by blast
qed

lemma resolve_paid_ids:
  assumes "resolve_time_entry now db e nxt actor reason = Inr (e', db')"
  shows "paid_ids db \<subseteq> paid_ids db'"
proof -
  have "cas_time_entry now actor reason (time_entries db) (te_id e) TimeEntryPending nxt = Inr (time_entries db')"
    using assms by (auto simp: resolve_time_entry_def TransitionTimeEntry_def go_results split: sum.splits)
  then have "time_entries db' = update_where (\<lambda>r. te_id r = te_id e \<and> te_status r = TimeEntryPending)
      (stamp_time_entry now actor reason nxt) (time_entries db)"
    using te.cas_Inr_iff by auto
  then show ?thesis by (intro paid_ids_update) auto
qed

lemma AppendAuditTx_time_entries:
  "AppendAuditTx db a b c d e f g h = Inr db' \<Longrightarrow> time_entries db' = time_entries db"
  by (drule AppendAuditTx_Inr) auto

lemma paid_ids_cong: "time_entries db' = time_entries db \<Longrightarrow> paid_ids db' = paid_ids db"
  by (simp add: paid_ids_def)

lemma time_step_paid: "time_step db db' \<Longrightarrow> paid_ids db \<subseteq> paid_ids db'"
proof (induction rule: time_step.induct)
  case (submit now db orgID emp workDate mins sh nt r db')
  show ?case
  proof (cases r)
    case (Inr e)
    then show ?thesis using SubmitTimeEntry_Inr [of now db orgID emp workDate mins sh nt e db'] submit
      by (auto simp: paid_ids_def)
  next
    case (Inl err)
    then have "db' = db"
      using submit by (auto simp: SubmitTimeEntry_def Let_def WithOrgScope_def split: if_splits sum.splits)
    then show ?thesis by simp
  qed
next
  case (approve now db orgID eid actor ip r db')
  then show ?case unfolding ApproveTimeEntry_def
    by (rule WithOrgScope_inv)
      (auto simp: go_results split: if_splits dest!: resolve_paid_ids dest: paid_ids_cong [OF AppendAuditTx_time_entries])
next
  case (reject now db orgID eid actor ip reason r db')
  then show ?case unfolding RejectTimeEntry_def
    by (rule WithOrgScope_inv)
      (auto simp: go_results split: if_splits dest!: resolve_paid_ids dest: paid_ids_cong [OF AppendAuditTx_time_entries])
next
  case (paid db' now db orgID ids item)
  then show ?case
  proof (cases "ids = []")
    case False
    then have "time_entries db' = update_where (\<lambda>e. te_org e = orgID \<and> te_id e \<in> set ids)
        (\<lambda>e. e\<lparr>te_paid_item := Some item, te_updated_at := now\<rparr>) (time_entries db)"
      using paid by (simp add: MarkTimeEntriesPaid_def)
    then show ?thesis by (rule paid_ids_update [rotated -1]) simp_all
  qed (simp add: MarkTimeEntriesPaid_def)
next
  case (elsewhere db' db)
  then show ?case by (simp add: paid_ids_def)
qed

lemma time_steps_paid: "time_step\<^sup>*\<^sup>* db db' \<Longrightarrow> paid_ids db \<subseteq> paid_ids db'"
  by (induction rule: rtranclp_induct) (use time_step_paid in blast)+

lemma marked_are_paid:
  assumes "set ids \<subseteq> {te_id e | e. e \<in> set (time_entries db) \<and> te_org e = orgID}"
  shows "set ids \<subseteq> paid_ids (MarkTimeEntriesPaid now db orgID ids item)"
proof
  fix i assume i: "i \<in> set ids"
  then obtain e where e: "e \<in> set (time_entries db)" "te_org e = orgID" "te_id e = i" using assms by blast
  let ?e = "e\<lparr>te_paid_item := Some item, te_updated_at := now\<rparr>"
  have "?e \<in> set (time_entries (MarkTimeEntriesPaid now db orgID ids item))"
    using e i by (auto simp: MarkTimeEntriesPaid_def in_update_where intro!: bexI [of _ e])
  moreover have "te_id ?e = i" "te_paid_item ?e \<noteq> None" using e by simp_all
  ultimately show "i \<in> paid_ids (MarkTimeEntriesPaid now db orgID ids item)"
    unfolding paid_ids_def by blast
qed

lemma unpaid_not_paid:
  assumes "time_inv db" "e \<in> set (time_entries db)" "te_paid_item e = None"
  shows "te_id e \<notin> paid_ids db"
  using assms by (auto simp: paid_ids_def time_inv_def distinct_map inj_on_def)

subsection \<open>Properties\<close>


definition demo_entry_row :: "string \<Rightarrow> int \<Rightarrow> int \<Rightarrow> TimeEntryShiftType \<Rightarrow> TimeEntry" where
  "demo_entry_row i d mins sh =
     \<lparr>te_id = i, te_org = ''ORG-1'', te_employee = ''EMP-h'', te_work_date = Date 2026 8 d, te_minutes = mins,
      te_shift = sh, te_status = TimeEntryApproved, te_note = [], te_paid_item = None, te_rejection_reason = [],
      te_approved_by = ''admin'', te_approved_at = Some 0, te_created_at = 0, te_updated_at = 0\<rparr>"

definition demo_pay :: pay_db where
  "demo_pay = time_db.extend (demo_time\<lparr>time_entries :=
       [demo_entry_row ''TE-1'' 10 1400 ShiftRegular, demo_entry_row ''TE-2'' 12 1400 ShiftNight]\<rparr>)
     \<lparr>payroll_policies = [(DefaultPayrollPolicy ''ORG-1'')\<lparr>pp_night_bps := 12000\<rparr>]\<rparr>"

definition demo_gross :: "HourlyPayBreakdown res" where
  "demo_gross = ComputeHourlyGross demo_pay ''ORG-1'' ''EMP-h'' ''2026-08'' (Date 2026 9 1) 60000"

lemma demo_pay_inv: "time_inv demo_pay"
proof -
  have "dayMinutes (time_entries demo_pay) o1 e1 d1 ss [] \<le> 1440" for o1 e1 d1 ss
  proof -
    have "Date 2026 8 10 \<noteq> Date 2026 8 12" by code_simp
    then show ?thesis by (auto simp: dayMinutes_def demo_pay_def demo_entry_row_def time_db.defs)
  qed
  moreover have "\<forall>e \<in> set (time_entries demo_pay). te_id e \<noteq> [] \<and> 0 < te_minutes e \<and> te_minutes e \<le> 1440 \<and>
      truncateToDay (te_work_date e) = te_work_date e"
    by (simp add: demo_pay_def demo_entry_row_def time_db.defs truncateToDay Date_def)
  ultimately show ?thesis
    by (simp add: time_inv_def) (simp add: demo_pay_def demo_entry_row_def time_db.defs)
qed

lemma demo_gross_value:
  "demo_gross = Inr \<lparr>RegularMinutes = 2400, OvertimeMinutes = 400, BaseKobo = 3080000,
     OvertimePremiumKobo = 240000, GrossKobo = 3320000, EntryIDs = [''TE-1'', ''TE-2'']\<rparr>"
  by code_simp


text \<open>
  C23: an approved entry is paid at most once. Once a run's entries are marked paid, no
  later gross of any employee, period or instant contains one of them, however
  submissions, approvals, rejections and other runs interleave.
\<close>

theorem entries_paid_once:
  assumes inv: "time_inv db" and g: "ComputeHourlyGross db orgID emp period asOf rate = Inr b"
    and later: "time_step\<^sup>*\<^sup>* (MarkTimeEntriesPaid now db orgID (EntryIDs b) item) db'"
    and g': "ComputeHourlyGross db' org2 emp2 period2 asOf2 rate2 = Inr b'"
  shows "set (EntryIDs b') \<inter> set (EntryIDs b) = {}"
proof -
  let ?m = "MarkTimeEntriesPaid now db orgID (EntryIDs b) item"
  have ids: "\<exists>es. UnpaidApprovedEntriesThrough d o1 e1 p1 a1 = Inr es \<and> EntryIDs x = map te_id es"
    if "ComputeHourlyGross d o1 e1 p1 a1 r1 = Inr x" for d :: "'a pay_db_scheme" and o1 e1 p1 a1 r1 x
    using that by (rule ComputeHourlyGross_Inr) (auto dest: hourly_loop_Inr(2))
  obtain es where es: "UnpaidApprovedEntriesThrough db orgID emp period asOf = Inr es" "EntryIDs b = map te_id es"
    using ids [OF g] by blast
  have "set (EntryIDs b) \<subseteq> paid_ids ?m"
    using UnpaidApprovedEntriesThrough_Inr [OF es(1)] unfolding es(2) by (intro marked_are_paid) auto
  then have paid: "set (EntryIDs b) \<subseteq> paid_ids db'" using time_steps_paid [OF later] by blast
  have "time_inv ?m" using inv by (rule MarkTimeEntriesPaid_inv)
  with later have inv': "time_inv db'" by (induction rule: rtranclp_induct) (auto intro: time_step_inv)
  obtain es' where es': "UnpaidApprovedEntriesThrough db' org2 emp2 period2 asOf2 = Inr es'" "EntryIDs b' = map te_id es'"
    using ids [OF g'] by blast
  have "i \<notin> paid_ids db'" if "i \<in> set (EntryIDs b')" for i
    using that UnpaidApprovedEntriesThrough_Inr(1,5) [OF es'(1)] unpaid_not_paid [OF inv'] unfolding es'(2) by auto
  then show ?thesis using paid by blast
qed


theorem entries_paid_once_witness:
  "\<exists>b b'. demo_gross = Inr b \<and> EntryIDs b = [''TE-1'', ''TE-2''] \<and>
    ComputeHourlyGross (MarkTimeEntriesPaid 0 demo_pay ''ORG-1'' (EntryIDs b) ''ITEM-1'') ''ORG-1'' ''EMP-h'' ''2026-09''
      (Date 2026 10 1) 60000 = Inr b' \<and> set (EntryIDs b') \<inter> set (EntryIDs b) = {}"
proof -
  obtain b where b: "demo_gross = Inr b" "EntryIDs b = [''TE-1'', ''TE-2'']"
    using demo_gross_value by simp
  let ?later = "ComputeHourlyGross (MarkTimeEntriesPaid 0 demo_pay ''ORG-1'' [''TE-1'', ''TE-2''] ''ITEM-1'')
      ''ORG-1'' ''EMP-h'' ''2026-09'' (Date 2026 10 1) 60000"
  have "case ?later of Inr _ \<Rightarrow> True | _ \<Rightarrow> False" by code_simp
  then obtain b' where b': "?later = Inr b'" by (auto split: sum.splits)
  have "set (EntryIDs b') \<inter> set (EntryIDs b) = {}"
    using entries_paid_once [OF demo_pay_inv b(1) [unfolded demo_gross_def] rtranclp.rtrancl_refl] b' b(2) by simp
  then show ?thesis using b b' by auto
qed

end
