(* ===== verification/Dependency.thy ===== *)
theory Dependency
  imports Advances Float64
begin

text \<open>
  \<open>services/ewa_dependency.go\<close>: the dependency score of a worker's draw history, the
  tier it falls into, and what the tier does to the cap and the waiting time. The score
  is computed in \<open>float64\<close>; the model keeps the rounding of every operation. The lemmas
  show that each signal stays within its ceiling and the score within 0 to 100, that the
  patterns the comments single out land in the tier they are meant to, and that a tier
  narrows access but never below the emergency floor.
\<close>

definition dependencyWindow :: int where "dependencyWindow = 90 * 24 * Hour"
definition recentWindow :: int where "recentWindow = 30 * 24 * Hour"
definition maxFrequencyScore :: int where "maxFrequencyScore = 20"
definition maxUtilizationScore :: int where "maxUtilizationScore = 35"
definition maxEscalationScore :: int where "maxEscalationScore = 30"
definition maxImmediacyScore :: int where "maxImmediacyScore = 15"
definition immediacyThreshold :: int where "immediacyThreshold = 72 * Hour"
definition freqScoreFloor :: float64 where "freqScoreFloor = 3"
definition freqScoreCeil :: float64 where "freqScoreCeil = 8"
definition utilScoreFloor :: float64 where "utilScoreFloor = rnd64 (20 / 100)"
definition utilScoreCeil :: float64 where "utilScoreCeil = rnd64 (50 / 100)"
definition escalationScoreFloor :: float64 where "escalationScoreFloor = rnd64 (30 / 100)"
definition escalationScoreCeil :: float64 where "escalationScoreCeil = 1"
definition tierElevatedFloor :: int where "tierElevatedFloor = 35"
definition tierStrainedFloor :: int where "tierStrainedFloor = 60"
definition tierDependentFloor :: int where "tierDependentFloor = 80"

lemmas score_consts = maxFrequencyScore_def maxUtilizationScore_def maxEscalationScore_def
  maxImmediacyScore_def tierElevatedFloor_def tierStrainedFloor_def tierDependentFloor_def

record DrawEvent =
  draw_at :: time
  draw_amount :: Kobo

record DependencyInput =
  dep_now :: time
  dep_draws :: "DrawEvent list"
  dep_salary :: Kobo
  dep_last_payday :: time

record CounsellingReferral =
  ref_message :: string
  ref_resource :: string
  ref_contact :: string

record DependencyAssessment =
  dep_score :: int
  dep_tier :: DependencyTier
  dep_signals :: "(string \<times> int) list"
  dep_reasons :: "string list"
  dep_nudge :: string
  dep_referral :: "CounsellingReferral option"

definition em_dash :: string where
  "em_dash = [CHR 0xE2, CHR 0x80, CHR 0x94]"

definition TierCounsellingReferral :: "DependencyTier \<Rightarrow> EWAPolicy \<Rightarrow> CounsellingReferral option" where
  "TierCounsellingReferral tier policy =
     (if tier \<noteq> TierStrained \<and> tier \<noteq> TierDependent then None
      else if pol_counselling_name policy \<noteq> [] \<or> pol_counselling_contact policy \<noteq> []
      then Some \<lparr>ref_message = ''Your employer offers financial counselling that may help more than another advance.'',
                 ref_resource = pol_counselling_name policy, ref_contact = pol_counselling_contact policy\<rparr>
      else Some \<lparr>ref_message = ''Consider speaking with a financial counsellor about your options '' @ em_dash
                                @ '' it may help more than another advance.'',
                 ref_resource = [], ref_contact = []\<rparr>)"

definition TierNudge :: "DependencyTier \<Rightarrow> string" where
  "TierNudge tier =
     (case tier of
        TierElevated \<Rightarrow> ''You've been accessing pay early a bit more than usual. This doesn't affect what you can draw ''
          @ em_dash @ '' just something worth keeping an eye on.''
      | TierStrained \<Rightarrow> ''Your early pay access has been climbing, so your limit is reduced for now to help protect your next payday. It eases back as the pattern does.''
      | TierDependent \<Rightarrow> ''Most of your pay is being accessed before payday arrives. You still have access to an emergency amount ''
          @ em_dash @ '' if it would help, ask your employer about other options.''
      | TierHealthy \<Rightarrow> [])"

definition tierFor :: "int \<Rightarrow> DependencyTier" where
  "tierFor score =
     (if tierDependentFloor \<le> score then TierDependent
      else if tierStrainedFloor \<le> score then TierStrained
      else if tierElevatedFloor \<le> score then TierElevated
      else TierHealthy)"

definition scaleScore :: "float64 \<Rightarrow> float64 \<Rightarrow> float64 \<Rightarrow> int \<Rightarrow> int" where
  "scaleScore value low high mx =
     (if value \<le> low then 0
      else if high \<le> value then mx
      else int_of_float64 (fdiv (fmul (float64_of_int mx) (fsub value low)) (fsub high low)))"

subsection \<open>The signals\<close>

definition draws_in_window :: "DependencyInput \<Rightarrow> DrawEvent list" where
  "draws_in_window inp =
     sort_key draw_at
       (filter (\<lambda>d. dep_now inp - dependencyWindow < draw_at d \<and> draw_at d \<le> dep_now inp) (dep_draws inp))"

definition draws_per_month :: "DrawEvent list \<Rightarrow> float64" where
  "draws_per_month inWindow = fdiv (float64_of_int (int (length inWindow))) 3"

definition frequency_signal :: "DrawEvent list \<Rightarrow> int" where
  "frequency_signal inWindow = scaleScore (draws_per_month inWindow) freqScoreFloor freqScoreCeil maxFrequencyScore"

fun drawn_total :: "Kobo \<Rightarrow> DrawEvent list \<Rightarrow> Kobo" where
  "drawn_total drawn [] = drawn"
| "drawn_total drawn (d # ds) =
     (case Kobo_Add drawn (draw_amount d) of Inr s \<Rightarrow> drawn_total s ds | Inl _ \<Rightarrow> drawn_total drawn ds)"

definition utilization :: "DependencyInput \<Rightarrow> DrawEvent list \<Rightarrow> float64" where
  "utilization inp inWindow =
     (if Kobo_IsPositive (dep_salary inp)
      then let windowEarnings = fmul (float64_of_int (sint (dep_salary inp))) 3
           in if 0 < windowEarnings
              then fdiv (float64_of_int (sint (drawn_total 0 inWindow))) windowEarnings else 0
      else 0)"

definition utilization_signal :: "DependencyInput \<Rightarrow> DrawEvent list \<Rightarrow> int" where
  "utilization_signal inp inWindow = scaleScore (utilization inp inWindow) utilScoreFloor utilScoreCeil maxUtilizationScore"

definition escalation_signal :: "DependencyInput \<Rightarrow> DrawEvent list \<Rightarrow> int" where
  "escalation_signal inp inWindow =
     (let recentStart = dep_now inp - recentWindow; priorStart = dep_now inp - 2 * recentWindow;
          recent = int (count_where (\<lambda>d. recentStart < draw_at d) inWindow);
          prior = int (count_where (\<lambda>d. \<not> recentStart < draw_at d \<and> priorStart < draw_at d) inWindow)
      in if 0 < prior \<and> prior < recent
         then scaleScore (fdiv (float64_of_int (recent - prior)) (float64_of_int prior))
                escalationScoreFloor escalationScoreCeil maxEscalationScore
         else if prior = 0 \<and> 3 \<le> recent then maxEscalationScore div 2
         else 0)"

definition saturated :: "DependencyInput \<Rightarrow> DrawEvent list \<Rightarrow> bool" where
  "saturated inp inWindow \<longleftrightarrow>
     maxFrequencyScore \<le> frequency_signal inWindow \<and> maxUtilizationScore \<le> utilization_signal inp inWindow"

definition escalation_score :: "DependencyInput \<Rightarrow> DrawEvent list \<Rightarrow> int" where
  "escalation_score inp inWindow =
     (let escalation = escalation_signal inp inWindow
      in if saturated inp inWindow \<and> escalation < maxEscalationScore then maxEscalationScore else escalation)"

definition post_payday :: "DependencyInput \<Rightarrow> DrawEvent list \<Rightarrow> nat" where
  "post_payday inp inWindow =
     (if dep_last_payday inp = ZeroTime then 0
      else count_where (\<lambda>d. dep_last_payday inp < draw_at d \<and>
                            draw_at d - dep_last_payday inp \<le> immediacyThreshold) inWindow)"

definition immediacy_signal :: "DependencyInput \<Rightarrow> DrawEvent list \<Rightarrow> int" where
  "immediacy_signal inp inWindow =
     (if 0 < post_payday inp inWindow
      then scaleScore (float64_of_int (int (post_payday inp inWindow))) 1 3 maxImmediacyScore else 0)"

definition score_reasons :: "DependencyInput \<Rightarrow> DrawEvent list \<Rightarrow> string list" where
  "score_reasons inp inWindow =
     (if freqScoreFloor \<le> draws_per_month inWindow
      then [''You've been drawing early pay more often than most people do.''] else []) @
     (if rnd64 (30 / 100) \<le> utilization inp inWindow
      then [''Close to a third of your recent pay has been drawn before payday.''] else []) @
     (if saturated inp inWindow
      then [''Almost all of your pay is being drawn before payday, every period.'']
      else if maxEscalationScore div 2 \<le> escalation_score inp inWindow
      then [''Your use of early pay has been increasing month over month.''] else []) @
     (if 0 < post_payday inp inWindow
      then [''You've needed early pay within a few days of being paid.''] else [])"

definition ScoreDependency :: "DependencyInput \<Rightarrow> DependencyAssessment" where
  "ScoreDependency inp =
     (let inWindow = draws_in_window inp
      in if inWindow = []
         then \<lparr>dep_score = 0, dep_tier = TierHealthy,
               dep_signals = [(''frequency'', 0), (''utilization'', 0), (''escalation'', 0), (''immediacy'', 0)],
               dep_reasons = [], dep_nudge = TierNudge TierHealthy, dep_referral = None\<rparr>
         else
           let freq = frequency_signal inWindow; util = utilization_signal inp inWindow;
               escalation = escalation_score inp inWindow; immediacy = immediacy_signal inp inWindow;
               total = freq + util + escalation + immediacy;
               score = (if 100 < total then 100 else total)
           in \<lparr>dep_score = score, dep_tier = tierFor score,
               dep_signals = [(''frequency'', freq), (''utilization'', util), (''escalation'', escalation),
                              (''immediacy'', immediacy)],
               dep_reasons = score_reasons inp inWindow, dep_nudge = TierNudge (tierFor score),
               dep_referral = None\<rparr>)"

subsection \<open>What a tier does\<close>

definition TierCap :: "DependencyTier \<Rightarrow> Kobo \<Rightarrow> EWAPolicy \<Rightarrow> Kobo" where
  "TierCap tier policyCap policy =
     (case tier of
        TierDependent \<Rightarrow>
          if pol_emergency_floor policy <s policyCap then pol_emergency_floor policy else policyCap
      | TierStrained \<Rightarrow>
          (case Kobo_Percent policyCap 50 100 of
             Inl _ \<Rightarrow> pol_emergency_floor policy
           | Inr halved \<Rightarrow>
               if halved <s pol_emergency_floor policy
               then (if pol_emergency_floor policy <s policyCap then pol_emergency_floor policy else policyCap)
               else halved)
      | _ \<Rightarrow> policyCap)"

text \<open>A \<open>time.Duration\<close> is an \<open>int64\<close> of nanoseconds: the products wrap around.\<close>

definition cooling_off :: "EWAPolicy \<Rightarrow> int" where
  "cooling_off policy = wrap64 (pol_cooling_off_hours policy * Hour)"

definition TierCoolingOff :: "DependencyTier \<Rightarrow> EWAPolicy \<Rightarrow> int" where
  "TierCoolingOff tier policy =
     (let base = cooling_off policy
      in case tier of TierStrained \<Rightarrow> wrap64 (base * 2) | TierDependent \<Rightarrow> wrap64 (base * 2) | _ \<Rightarrow> base)"

lemma cooling_off_hours: "0 \<le> pol_cooling_off_hours p \<Longrightarrow> pol_cooling_off_hours p \<le> 2562047 \<Longrightarrow> cooling_off p = pol_cooling_off_hours p * Hour"
  by (simp add: cooling_off_def wrap64_def Hour_def)

subsection \<open>Library\<close>

text \<open>A scale is sound when the top of its range is not rounded past the ceiling.\<close>

definition sound_scale :: "float64 \<Rightarrow> float64 \<Rightarrow> int \<Rightarrow> bool" where
  "sound_scale low high mx \<longleftrightarrow>
     0 \<le> mx \<and> 0 \<le> float64_of_int mx \<and> low < high \<and> 0 < fsub high low \<and>
     int_of_float64 (fdiv (fmul (float64_of_int mx) (fsub high low)) (fsub high low)) \<le> mx"

lemma the_scales_are_sound:
  "sound_scale freqScoreFloor freqScoreCeil maxFrequencyScore"
  "sound_scale utilScoreFloor utilScoreCeil maxUtilizationScore"
  "sound_scale escalationScoreFloor escalationScoreCeil maxEscalationScore"
  "sound_scale 1 3 maxImmediacyScore"
  by code_simp+

lemma scaled_value_mono:
  assumes "v \<le> v'" "0 \<le> m" "0 < w"
  shows "fdiv (fmul m (fsub v low)) w \<le> fdiv (fmul m (fsub v' low)) w"
  unfolding fdiv_def fmul_def fsub_def using assms by (intro f64.scaled_mono) auto

lemma scaled_value_nonneg:
  assumes "low \<le> v" "0 \<le> m" "0 < w"
  shows "0 \<le> fdiv (fmul m (fsub v low)) w"
  unfolding fdiv_def fmul_def fsub_def using assms by (intro f64.rnd_nonneg divide_nonneg_pos mult_nonneg_nonneg) auto

lemma scaleScore_bounds:
  assumes "sound_scale low high mx"
  shows "0 \<le> scaleScore v low high mx" "scaleScore v low high mx \<le> mx"
proof -
  let ?f = "\<lambda>v. fdiv (fmul (float64_of_int mx) (fsub v low)) (fsub high low)"
  have s: "0 \<le> mx" "0 \<le> float64_of_int mx" "0 < fsub high low" "int_of_float64 (?f high) \<le> mx"
    using assms by (simp_all add: sound_scale_def)
  have "0 \<le> int_of_float64 (?f v) \<and> int_of_float64 (?f v) \<le> mx" if "low < v" "v < high"
  proof -
    have "0 \<le> ?f v" using that s by (intro scaled_value_nonneg) auto
    moreover have "?f v \<le> ?f high" using that s by (intro scaled_value_mono) auto
    ultimately show ?thesis using int_of_float64_nonneg int_of_float64_mono [of "?f v" "?f high"] s(4) by force
  qed
  then show "0 \<le> scaleScore v low high mx" "scaleScore v low high mx \<le> mx"
    using s(1) by (auto simp: scaleScore_def)
qed

lemma scaleScore_mono:
  assumes sc: "sound_scale low high mx" and le: "v \<le> v'"
  shows "scaleScore v low high mx \<le> scaleScore v' low high mx"
proof -
  let ?f = "\<lambda>v. fdiv (fmul (float64_of_int mx) (fsub v low)) (fsub high low)"
  have s: "0 \<le> float64_of_int mx" "0 < fsub high low" using sc by (simp_all add: sound_scale_def)
  show ?thesis
  proof (cases "low < v \<and> v' < high")
    case True
    then have "0 \<le> ?f v" "?f v \<le> ?f v'" using le s by (auto intro: scaled_value_nonneg scaled_value_mono)
    then show ?thesis using True le by (auto simp: scaleScore_def intro: int_of_float64_mono)
  next
    case False
    then show ?thesis
      using le scaleScore_bounds(1) [OF sc, of v'] scaleScore_bounds(2) [OF sc, of v]
      by (auto simp: scaleScore_def [of v] scaleScore_def [of v'] split: if_splits)
  qed
qed

lemma signal_bounds:
  "0 \<le> frequency_signal ds" "frequency_signal ds \<le> 20"
  "0 \<le> utilization_signal i ds" "utilization_signal i ds \<le> 35"
  "0 \<le> escalation_score i ds" "escalation_score i ds \<le> 30"
  "0 \<le> immediacy_signal i ds" "immediacy_signal i ds \<le> 15"
  using scaleScore_bounds [OF the_scales_are_sound(1)] scaleScore_bounds [OF the_scales_are_sound(2)]
    scaleScore_bounds [OF the_scales_are_sound(3)] scaleScore_bounds [OF the_scales_are_sound(4)]
  by (auto simp: frequency_signal_def utilization_signal_def escalation_score_def escalation_signal_def
      immediacy_signal_def score_consts Let_def)

lemma ScoreDependency_signals:
  "dep_score (ScoreDependency inp) = sum_list (map snd (dep_signals (ScoreDependency inp)))"
  "dep_tier (ScoreDependency inp) = tierFor (dep_score (ScoreDependency inp))"
  using signal_bounds(1,2) [of "draws_in_window inp"] signal_bounds(3,4,5,6,7,8) [of inp "draws_in_window inp"]
  by (auto simp: ScoreDependency_def Let_def tierFor_def score_consts)

subsection \<open>Properties\<close>

text \<open>
  Whatever the draw history and the rounding of \<open>float64\<close>, each signal lies between 0
  and its ceiling (20, 35, 30, 15), the score is their sum and lies between 0 and 100, and
  the tier is the band of the score.
\<close>

theorem dependency_score_bounds:
  "\<exists>f u e i. dep_signals (ScoreDependency inp) =
       [(''frequency'', f), (''utilization'', u), (''escalation'', e), (''immediacy'', i)] \<and>
     f \<in> {0..20} \<and> u \<in> {0..35} \<and> e \<in> {0..30} \<and> i \<in> {0..15} \<and>
     dep_score (ScoreDependency inp) = f + u + e + i \<and> dep_score (ScoreDependency inp) \<in> {0..100} \<and>
     dep_tier (ScoreDependency inp) = tierFor (dep_score (ScoreDependency inp))"
proof (cases "draws_in_window inp = []")
  case True
  then show ?thesis by (simp add: ScoreDependency_def tierFor_def score_consts)
next
  case False
  let ?ds = "draws_in_window inp"
  have s: "dep_signals (ScoreDependency inp) = [(''frequency'', frequency_signal ?ds), (''utilization'', utilization_signal inp ?ds),
       (''escalation'', escalation_score inp ?ds), (''immediacy'', immediacy_signal inp ?ds)]"
    using False by (simp add: ScoreDependency_def Let_def)
  then show ?thesis
    using signal_bounds(1,2) [of ?ds] signal_bounds(3-8) [of inp ?ds] ScoreDependency_signals [of inp] by simp
qed

text \<open>
  A worker at the ceiling of both frequency and utilization is classified dependent,
  however flat the trajectory, and a worker who has drawn half or more of the window's
  earnings is never classified healthy.
\<close>

theorem extreme_use_is_flagged:
  assumes "draws_in_window inp \<noteq> []"
  shows "(saturated inp (draws_in_window inp) \<longrightarrow> dep_tier (ScoreDependency inp) = TierDependent) \<and>
    (utilScoreCeil \<le> utilization inp (draws_in_window inp) \<longrightarrow> dep_tier (ScoreDependency inp) \<noteq> TierHealthy)"
proof -
  let ?ds = "draws_in_window inp"
  note b = signal_bounds(1,2) [of ?ds] signal_bounds(3-8) [of inp ?ds]
  have sat: "80 \<le> frequency_signal ?ds + utilization_signal inp ?ds + escalation_score inp ?ds + immediacy_signal inp ?ds"
    if "saturated inp ?ds"
    using that b by (auto simp: saturated_def escalation_score_def score_consts Let_def)
  have util: "35 \<le> utilization_signal inp ?ds" if "utilScoreCeil \<le> utilization inp ?ds"
    using that the_scales_are_sound(2)
    by (auto simp: utilization_signal_def scaleScore_def sound_scale_def score_consts)
  show ?thesis
    using assms sat util b by (auto simp: ScoreDependency_def Let_def tierFor_def score_consts)
qed

definition demo_heavy_user :: DependencyInput where
  "demo_heavy_user =
     \<lparr>dep_now = 90 * 24 * Hour, dep_draws = map (\<lambda>i. \<lparr>draw_at = i * 24 * Hour, draw_amount = 100\<rparr>) [3, 6, 9, 12, 15, 18, 21, 24,
        27, 30, 33, 36, 39, 42, 45, 48, 51, 54, 57, 60, 63, 66, 69, 72, 75, 78],
      dep_salary = 1000, dep_last_payday = 80 * 24 * Hour\<rparr>"

theorem extreme_use_is_flagged_witness:
  "draws_in_window demo_heavy_user \<noteq> [] \<and> dep_tier (ScoreDependency demo_heavy_user) = TierDependent"
proof -
  have ne: "draws_in_window demo_heavy_user \<noteq> []" by code_simp
  have "saturated demo_heavy_user (draws_in_window demo_heavy_user)" by code_simp
  with extreme_use_is_flagged [OF ne] ne show ?thesis by blast
qed

text \<open>
  A tier narrows access and never closes it: for a non-negative cap and floor, every
  tier's cap lies between the smaller of emergency floor and policy cap and the policy
  cap; healthy and elevated workers keep the full cap, a strained worker's cap is at
  most that and a dependent worker's at most the strained one.
\<close>

theorem tier_cap_bounds:
  assumes cap: "0 \<le> sint cap" "50 * sint cap < 2 ^ 63" and fl: "0 \<le> sint (pol_emergency_floor policy)"
  shows "min (sint (pol_emergency_floor policy)) (sint cap) \<le> sint (TierCap tier cap policy) \<and>
    sint (TierCap tier cap policy) \<le> sint cap \<and>
    TierCap TierHealthy cap policy = cap \<and> TierCap TierElevated cap policy = cap \<and>
    sint (TierCap TierDependent cap policy) \<le> sint (TierCap TierStrained cap policy) \<and>
    sint (TierCap TierDependent cap policy) = min (sint (pol_emergency_floor policy)) (sint cap)"
proof -
  have "in64 (sint cap * sint (50 :: int64))" using cap by (auto intro!: in64_I)
  then obtain h where h: "Kobo_Percent cap 50 100 = Inr h" "0 \<le> sint h" "sint h \<le> sint cap"
    using Kobo_Percent_within [of 100 cap 50] cap(1) by auto
  have st: "TierCap TierStrained cap policy =
      (if sint h < sint (pol_emergency_floor policy)
       then (if sint (pol_emergency_floor policy) < sint cap then pol_emergency_floor policy else cap) else h)"
    by (simp add: TierCap_def h(1) sless_sint)
  have dp: "TierCap TierDependent cap policy =
      (if sint (pol_emergency_floor policy) < sint cap then pol_emergency_floor policy else cap)"
    by (simp add: TierCap_def sless_sint)
  have full: "TierCap TierHealthy cap policy = cap" "TierCap TierElevated cap policy = cap"
    by (simp_all add: TierCap_def)
  show ?thesis using h full by (cases tier) (auto simp: st dp)
qed

theorem tier_cap_bounds_witness:
  "sint (TierCap TierStrained 20000 (DefaultEWAPolicy ''O'' USD)) \<le> 20000 \<and>
   sint (TierCap TierDependent 20000 (DefaultEWAPolicy ''O'' USD)) = 2000"
proof -
  have "sint (pol_emergency_floor (DefaultEWAPolicy ''O'' USD)) = 2000" by code_simp
  with tier_cap_bounds [of 20000 "DefaultEWAPolicy ''O'' USD" TierStrained] show ?thesis by simp
qed

end
