(* ===== verification/Payday_Prediction.thy ===== *)
theory Payday_Prediction
  imports Accrual
begin

text \<open>
  Payday prediction from observed deposits (\<open>payday_prediction.go\<close>): the largest chain of
  similar credits, its gaps, and the next date. Arithmetic on days and amounts is \<open>float64\<close>
  as in the source. \<open>sort.Slice\<close> leaves the order of equal keys open; the model sorts stably.
\<close>

datatype TransactionDirection = BankCredit | BankDebit | OtherTransactionDirection string

record Transaction =
  txn_date :: time
  txn_amount :: Kobo
  txn_direction :: TransactionDirection
  txn_narration :: string

datatype PaydayConfidence = ConfidenceLow | ConfidenceMedium | ConfidenceHigh

record PaydayPrediction =
  NextPredictedDate :: time
  IntervalDays :: int
  AverageAmountKobo :: Kobo
  OccurrencesSeen :: nat
  Confidence :: PaydayConfidence

definition ErrInsufficientPaydayHistory :: err where
  "ErrInsufficientPaydayHistory = ErrOther ''payday prediction: no confident recurring income pattern''"

definition amountClusterTolerance :: float64 where "amountClusterTolerance = rnd64 (10 / 100)"
definition intervalConsistencyTolerance :: float64 where "intervalConsistencyTolerance = rnd64 (20 / 100)"
definition minIntervalDays :: float64 where "minIntervalDays = 5"
definition maxIntervalDays :: float64 where "maxIntervalDays = 35"

definition relativeDiff :: "float64 \<Rightarrow> float64 \<Rightarrow> float64" where
  "relativeDiff a b =
     (if a = 0 \<and> b = 0 then 0
      else
        let diff = fsub a b;
            diff = (if diff < 0 then - diff else diff);
            denom = (if a < b then b else a)
        in fdiv diff denom)"

definition float_mean :: "float64 list \<Rightarrow> float64" where
  "float_mean values =
     (if values = [] then 0 else fdiv (foldl fadd 0 values) (float64_of_int (int (length values))))"

text \<open>The loop of \<open>largestAmountCluster\<close>: the finished clusters and the current one.\<close>

definition extend_cluster ::
  "Transaction list list \<times> Transaction list \<Rightarrow> Transaction \<Rightarrow> Transaction list list \<times> Transaction list" where
  "extend_cluster st txn =
     (case st of (clusters, current) \<Rightarrow>
        if current \<noteq> [] \<and> amountClusterTolerance <
             relativeDiff (float64_of_int (sint (txn_amount txn))) (float64_of_int (sint (txn_amount (last current))))
        then (clusters @ [current], [txn])
        else (clusters, current @ [txn]))"

definition amount_clusters :: "Transaction list \<Rightarrow> Transaction list list" where
  "amount_clusters ts =
     (let (clusters, current) = foldl extend_cluster ([], []) ts
      in if current \<noteq> [] then clusters @ [current] else clusters)"

definition longer :: "Transaction list \<Rightarrow> Transaction list \<Rightarrow> Transaction list" where
  "longer best c = (if length best < length c then c else best)"

definition largestAmountCluster :: "Transaction list \<Rightarrow> Transaction list" where
  "largestAmountCluster credits =
     foldl longer [] (amount_clusters (sort_key (\<lambda>t. sint (txn_amount t)) credits))"

definition gap_days :: "Transaction \<Rightarrow> Transaction \<Rightarrow> float64" where
  "gap_days a b = fdiv (Duration_Hours (time_Sub (txn_date b) (txn_date a))) 24"

definition intervals :: "Transaction list \<Rightarrow> float64 list" where
  "intervals cluster = map (\<lambda>(a, b). gap_days a b) (zip cluster (tl cluster))"

definition usable_credits :: "Transaction list \<Rightarrow> time \<Rightarrow> Transaction list" where
  "usable_credits transactions asOf =
     filter (\<lambda>t. txn_direction t = BankCredit \<and> txn_date t \<le> asOf \<and> Kobo_IsPositive (txn_amount t)) transactions"

definition PredictNextPayday :: "Transaction list \<Rightarrow> time \<Rightarrow> PaydayPrediction res" where
  "PredictNextPayday transactions asOf =
     (let credits = usable_credits transactions asOf
      in if length credits < 2 then Inl ErrInsufficientPaydayHistory
      else
        let cluster0 = largestAmountCluster credits
        in if length cluster0 < 2 then Inl ErrInsufficientPaydayHistory
        else
          let cluster = sort_key txn_date cluster0;
              gaps = intervals cluster;
              meanInterval = float_mean gaps
          in if meanInterval < minIntervalDays \<or> maxIntervalDays < meanInterval then Inl ErrInsufficientPaydayHistory
          else if list_ex (\<lambda>gap. intervalConsistencyTolerance < relativeDiff gap meanInterval) gaps
          then Inl ErrInsufficientPaydayHistory
          else
            rbind (Kobo_Sum (map txn_amount cluster)) (\<lambda>amountSum.
              let roundedInterval = int_of_float64 (fadd meanInterval (1 / 2))
              in Inr \<lparr>NextPredictedDate = AddDate (txn_date (last cluster)) 0 0 roundedInterval,
                      IntervalDays = roundedInterval,
                      AverageAmountKobo = go_div amountSum (word_of_int (int (length cluster))),
                      OccurrencesSeen = length cluster,
                      Confidence = (if 4 \<le> length cluster then ConfidenceHigh
                        else if length cluster = 3 then ConfidenceMedium else ConfidenceLow)\<rparr>))"

subsection \<open>Library\<close>

lemma extend_clusters_concat:
  "concat (fst (foldl extend_cluster st ts)) @ snd (foldl extend_cluster st ts) = concat (fst st) @ snd st @ ts"
  by (induction ts arbitrary: st) (auto simp: extend_cluster_def split: prod.splits)

text \<open>Clustering only cuts the sorted history into consecutive pieces.\<close>

lemma concat_amount_clusters: "concat (amount_clusters ts) = ts"
  using extend_clusters_concat [of "([], [])" ts] by (auto simp: amount_clusters_def split_beta)

lemma length_le_concat: "c \<in> set cs \<Longrightarrow> length c \<le> length (concat cs)"
  by (induction cs) auto

lemma foldl_longer_in: "foldl longer b cs = b \<or> foldl longer b cs \<in> set cs"
  by (induction cs arbitrary: b) (auto simp: longer_def)

lemma largestAmountCluster_piece:
  "set (largestAmountCluster credits) \<subseteq> set credits" "length (largestAmountCluster credits) \<le> length credits"
proof -
  let ?s = "sort_key (\<lambda>t. sint (txn_amount t)) credits"
  let ?c = "largestAmountCluster credits"
  have c: "?c = [] \<or> ?c \<in> set (amount_clusters ?s)"
    unfolding largestAmountCluster_def by (rule foldl_longer_in)
  then show "length ?c \<le> length credits"
    using length_le_concat [of ?c "amount_clusters ?s"] by (auto simp: concat_amount_clusters)
  have "set ?c \<subseteq> set (concat (amount_clusters ?s))" using c by auto
  then show "set ?c \<subseteq> set credits" by (simp only: concat_amount_clusters set_sort)
qed

lemma rounded_interval:
  assumes "5 \<le> m" "m \<le> 35"
  shows "5 \<le> int_of_float64 (fadd m (1 / 2)) \<and> int_of_float64 (fadd m (1 / 2)) \<le> 35"
proof -
  have r: "rnd64 (11 / 2) = 11 / 2" "rnd64 (71 / 2) = 71 / 2" by code_simp+
  have "rnd64 (11 / 2) \<le> fadd m (1 / 2)" "fadd m (1 / 2) \<le> rnd64 (71 / 2)"
    using assms by (auto simp: fadd_def intro!: f64.rnd_mono)
  then have "11 / 2 \<le> fadd m (1 / 2)" "fadd m (1 / 2) \<le> 71 / 2" using r by simp_all
  then have "int_of_float64 (11 / 2) \<le> int_of_float64 (fadd m (1 / 2))" "int_of_float64 (fadd m (1 / 2)) \<le> int_of_float64 (71 / 2)"
    by (auto intro!: int_of_float64_mono)
  moreover have "int_of_float64 (11 / 2) = 5" "int_of_float64 (71 / 2) = 35" by code_simp+
  ultimately show ?thesis by simp
qed

lemma average_between:
  fixes xs :: "int64 list"
  assumes "Kobo_Sum xs = Inr s" "xs \<noteq> []" "int (length xs) < 2 ^ 63" "\<forall>x \<in> set xs. lo \<le> sint x \<and> sint x \<le> hi" "0 \<le> lo"
  shows "lo \<le> sint (go_div s (word_of_int (int (length xs)))) \<and> sint (go_div s (word_of_int (int (length xs)))) \<le> hi"
proof -
  let ?n = "int (length xs)"
  have n: "0 < ?n" using assms(2) by simp
  have w: "sint (word_of_int ?n :: int64) = ?n" using n assms(3) by (intro sint64_word_of_int in64_I) simp_all
  have "?n * lo \<le> sum_list (map sint xs) \<and> sum_list (map sint xs) \<le> ?n * hi"
    using assms(4) by (induction xs) (auto simp: algebra_simps)
  then have s: "?n * lo \<le> sint s" "sint s \<le> ?n * hi" using Kobo_Sum_Inr [OF assms(1)] by simp_all
  have "0 \<le> sint s" using s(1) assms(5) n by (meson mult_nonneg_nonneg order_trans less_imp_le)
  then have "\<not> (s = MinInt64 \<and> word_of_int ?n = (- 1 :: int64))" by auto
  then have "sint (go_div s (word_of_int ?n)) = sint s sdiv ?n" using go_div_sint [of s "word_of_int ?n"] w by simp
  then have "sint (go_div s (word_of_int ?n)) = sint s div ?n"
    using \<open>0 \<le> sint s\<close> n by (simp add: signed_divide_int_def sgn_if)
  moreover have "lo \<le> sint s div ?n" "sint s div ?n \<le> hi"
    using zdiv_mono1 [OF s(1) n] zdiv_mono1 [OF s(2) n] assms(2) by simp_all
  ultimately show ?thesis by simp
qed

text \<open>
  A prediction rests on at least two credits of the history up to now and on a cadence
  of 5 to 35 days: the next date is that many whole days after one of those credits, and
  the average lies between the smallest and the largest of the history's credits.
\<close>

theorem prediction_sound:
  assumes p: "PredictNextPayday txns asOf = Inr p" and len: "length txns < 2 ^ 62"
    and amounts: "\<forall>t \<in> set (usable_credits txns asOf). lo \<le> sint (txn_amount t) \<and> sint (txn_amount t) \<le> hi" "0 < lo"
  shows "2 \<le> OccurrencesSeen p \<and> 5 \<le> IntervalDays p \<and> IntervalDays p \<le> 35 \<and>
    lo \<le> sint (AverageAmountKobo p) \<and> sint (AverageAmountKobo p) \<le> hi \<and>
    (\<exists>t \<in> set txns. txn_direction t = BankCredit \<and> txn_date t \<le> asOf \<and>
       NextPredictedDate p = txn_date t + Day * IntervalDays p)"
proof -
  define cluster where "cluster = sort_key txn_date (largestAmountCluster (usable_credits txns asOf))"
  from p have len2: "2 \<le> length cluster" and
    mean: "minIntervalDays \<le> float_mean (intervals cluster)" "float_mean (intervals cluster) \<le> maxIntervalDays"
    and s: "\<exists>s. Kobo_Sum (map txn_amount cluster) = Inr s \<and>
       AverageAmountKobo p = go_div s (word_of_int (int (length cluster)))"
    and np: "NextPredictedDate p = AddDate (txn_date (last cluster)) 0 0 (IntervalDays p)"
    and iv: "IntervalDays p = int_of_float64 (fadd (float_mean (intervals cluster)) (1 / 2))"
    and occ: "OccurrencesSeen p = length cluster"
    unfolding PredictNextPayday_def Let_def cluster_def [symmetric]
    by (auto simp: go_results cluster_def split: if_splits)
  have sub: "set cluster \<subseteq> set (usable_credits txns asOf)"
    using largestAmountCluster_piece(1) by (simp add: cluster_def)
  obtain s where s': "Kobo_Sum (map txn_amount cluster) = Inr s"
    "AverageAmountKobo p = go_div s (word_of_int (int (length cluster)))" using s by blast
  have "length cluster \<le> length (usable_credits txns asOf)"
    using largestAmountCluster_piece(2) by (simp add: cluster_def)
  also have "\<dots> \<le> length txns" by (simp add: usable_credits_def)
  finally have "length cluster \<le> length txns" .
  then have "int (length cluster) < 2 ^ 63" using len by simp
  then have "lo \<le> sint (AverageAmountKobo p) \<and> sint (AverageAmountKobo p) \<le> hi"
    using average_between [OF s'(1), of lo hi] amounts sub len2 unfolding s'(2) by fastforce
  moreover have "5 \<le> IntervalDays p \<and> IntervalDays p \<le> 35"
    using rounded_interval mean unfolding iv minIntervalDays_def maxIntervalDays_def by blast
  moreover have "last cluster \<in> set (usable_credits txns asOf)"
    using sub len2 last_in_set [of cluster] by (cases cluster) auto
  then have "\<exists>t \<in> set txns. txn_direction t = BankCredit \<and> txn_date t \<le> asOf \<and>
       NextPredictedDate p = txn_date t + Day * IntervalDays p"
    by (intro bexI [of _ "last cluster"]) (auto simp: usable_credits_def np AddDate_days)
  ultimately show ?thesis using occ len2 by simp
qed


definition demo_deposits :: "Transaction list" where
  "demo_deposits =
     [\<lparr>txn_date = Date 2026 1 25, txn_amount = 100000, txn_direction = BankCredit, txn_narration = []\<rparr>,
      \<lparr>txn_date = Date 2026 1 28, txn_amount = 4000, txn_direction = BankDebit, txn_narration = []\<rparr>,
      \<lparr>txn_date = Date 2026 2 24, txn_amount = 102000, txn_direction = BankCredit, txn_narration = []\<rparr>]"

lemma demo_prediction:
  "PredictNextPayday demo_deposits (Date 2026 7 1) =
     Inr \<lparr>NextPredictedDate = Date 2026 3 26, IntervalDays = 30, AverageAmountKobo = 101000,
          OccurrencesSeen = 2, Confidence = ConfidenceLow\<rparr>"
  by code_simp

theorem prediction_sound_witness:
  "\<exists>p. PredictNextPayday demo_deposits (Date 2026 7 1) = Inr p \<and> 100000 \<le> sint (AverageAmountKobo p) \<and>
     sint (AverageAmountKobo p) \<le> 102000 \<and> IntervalDays p \<le> 35"
proof -
  have "usable_credits demo_deposits (Date 2026 7 1) = [demo_deposits ! 0, demo_deposits ! 2]" by code_simp
  then have "\<forall>t \<in> set (usable_credits demo_deposits (Date 2026 7 1)). 100000 \<le> sint (txn_amount t) \<and> sint (txn_amount t) \<le> 102000"
    by (simp add: demo_deposits_def)
  from prediction_sound [OF demo_prediction _ this] demo_prediction show ?thesis
    by (simp add: demo_deposits_def)
qed

text \<open>
  Income that has stopped still counts in full. The prediction never looks at how long
  ago the last deposit was, so its date can lie in the past, and the accrual then credits
  the whole average deposit: deposits that ended in February are earned income in July.
\<close>

theorem stopped_income_accrues:
  "\<exists>p. PredictNextPayday demo_deposits (Date 2026 7 1) = Inr p \<and> NextPredictedDate p < Date 2026 7 1 \<and>
     d2cAccruedToDate (AverageAmountKobo p) (AddDate (NextPredictedDate p) 0 0 (- IntervalDays p))
       (NextPredictedDate p) (Date 2026 7 1) = Inr (AverageAmountKobo p)"
proof -
  have "Date 2026 3 26 < Date 2026 7 1" by code_simp
  moreover have "d2cAccruedToDate 101000 (AddDate (Date 2026 3 26) 0 0 (- 30)) (Date 2026 3 26) (Date 2026 7 1) = Inr 101000"
    by code_simp
  ultimately show ?thesis using demo_prediction by simp
qed

end
