(* ===== verification/Settlement.thy ===== *)
theory Settlement
  imports Advances "HOL-Library.Multiset"
begin

text \<open>
  Settlement of advances against a payroll item (\<open>SettleAdvancesForPayrollItem\<close> in
  \<open>ewa_service.go\<close>): disbursed advances are recovered oldest first until the item's pay runs
  out, approved ones that never went out are cancelled.
\<close>

definition settleable :: "string \<Rightarrow> string \<Rightarrow> string \<Rightarrow> EWAAdvance \<Rightarrow> bool" where
  "settleable orgID employeeID period a \<longleftrightarrow>
     adv_org a = orgID \<and> adv_employee a = employeeID \<and> adv_period a \<le> period \<and>
     adv_status a \<in> {AdvanceApproved, AdvanceDisbursed}"

text \<open>The branch for an advance that was approved but never disbursed.\<close>

definition cancel_undisbursed ::
  "time \<Rightarrow> ('z ewa_db_scheme) \<Rightarrow> EWAAdvance \<Rightarrow> ('z ewa_db_scheme) res" where
  "cancel_undisbursed now db adv =
     (case CancelAdvance now db adv AdvanceApproved ''settled_before_disbursement'' of
        Inr (_, db') \<Rightarrow> Inr db'
      | Inl e \<Rightarrow> if e = ErrStaleStatus then Inr db else Inl e)"

text \<open>The compare-and-swap on \<open>recovered_kobo\<close>.\<close>

definition record_recovery ::
  "time \<Rightarrow> ('z ewa_db_scheme) \<Rightarrow> EWAAdvance \<Rightarrow> Kobo \<Rightarrow> ('z ewa_db_scheme) res" where
  "record_recovery now db adv recoveredTotal =
     (let P = (\<lambda>r. adv_id r = adv_id adv \<and> adv_recovered r = adv_recovered adv)
      in if count_where P (advances db) = 0 then Inl ErrStaleStatus
         else Inr (db\<lparr>advances := update_where P (\<lambda>r. r\<lparr>adv_recovered := recoveredTotal, adv_updated_at := now\<rparr>)
                (advances db)\<rparr>))"

text \<open>What follows a recovery: the advance is settled, or the partial recovery is audited.\<close>

definition close_or_audit ::
  "time \<Rightarrow> ('z ewa_db_scheme) \<Rightarrow> string \<Rightarrow> string \<Rightarrow> EWAAdvance \<Rightarrow> Kobo \<Rightarrow> ('z ewa_db_scheme) res" where
  "close_or_audit now db orgID itemID adv portion =
     (if \<not> adv_recovered adv <s adv_amount adv
      then (case TransitionAdvance now db adv AdvanceDisbursed AdvanceSettled of
              Inl e \<Rightarrow> if e = ErrStaleStatus then Inr db else Inl e
            | Inr (_, db1) \<Rightarrow> Inr (update_advance now db1 (adv_id adv) (\<lambda>r. r\<lparr>adv_settled_item := Some itemID\<rparr>)))
      else AppendAuditTx db orgID ''EWAAdvance'' (adv_id adv) ''partially_settled'' (Kobo_String portion)
             (''remaining='' @ Kobo_String (EWAAdvance_RemainingKobo adv) @ '' payroll_item='' @ itemID)
             ''internal'' [])"

definition recovered_portion :: "EWAAdvance \<Rightarrow> Kobo \<Rightarrow> Kobo" where
  "recovered_portion adv remaining =
     (let owed = EWAAdvance_RemainingKobo adv in if remaining <s owed then remaining else owed)"

definition settle_advance ::
  "time \<Rightarrow> string \<Rightarrow> string \<Rightarrow> Currency \<Rightarrow> string \<Rightarrow> string \<Rightarrow> EWAAdvance
     \<Rightarrow> Kobo \<times> Kobo \<times> 'z ewa_db_scheme \<Rightarrow> (Kobo \<times> Kobo \<times> 'z ewa_db_scheme) res" where
  "settle_advance now orgID itemID currency receivable payable adv st =
     (case st of (withheld, remaining, db) \<Rightarrow>
        if adv_status adv = AdvanceApproved
        then rbind (cancel_undisbursed now db adv) (\<lambda>db'. Inr (withheld, remaining, db'))
        else if \<not> Kobo_IsPositive (EWAAdvance_RemainingKobo adv) then Inr st
        else
          let portion = recovered_portion adv remaining
          in if \<not> Kobo_IsPositive portion then Inr st
             else
               rbind (PostTransaction db (pair_request orgID ''ewa_settlement'' (adv_id adv)
                        (settlement_key (adv_id adv) itemID) payable receivable (KoboIn currency portion))) (\<lambda>(_, db1).
               rbind (Kobo_Add (adv_recovered adv) portion) (\<lambda>recoveredTotal.
               rbind (record_recovery now db1 adv recoveredTotal) (\<lambda>db2.
               rbind (close_or_audit now db2 orgID itemID (adv\<lparr>adv_recovered := recoveredTotal\<rparr>) portion) (\<lambda>db3.
               rbind (Kobo_Add withheld portion) (\<lambda>withheld'.
               rbind (Kobo_Sub remaining portion) (\<lambda>remaining'.
               Inr (withheld', remaining', db3))))))))"

fun settle_loop ::
  "time \<Rightarrow> string \<Rightarrow> string \<Rightarrow> Currency \<Rightarrow> string \<Rightarrow> string \<Rightarrow> EWAAdvance list
     \<Rightarrow> Kobo \<times> Kobo \<times> 'z ewa_db_scheme \<Rightarrow> (Kobo \<times> Kobo \<times> 'z ewa_db_scheme) res" where
  "settle_loop now orgID itemID currency receivable payable [] st = Inr st"
| "settle_loop now orgID itemID currency receivable payable (a # as) st =
     rbind (settle_advance now orgID itemID currency receivable payable a st)
       (settle_loop now orgID itemID currency receivable payable as)"

definition SettleAdvancesForPayrollItem ::
  "time \<Rightarrow> ('z ewa_db_scheme) \<Rightarrow> string \<Rightarrow> string \<Rightarrow> string \<Rightarrow> string \<Rightarrow> Kobo
     \<Rightarrow> (Kobo \<times> 'z ewa_db_scheme) res" where
  "SettleAdvancesForPayrollItem now db orgID employeeID period itemID available =
     (let rows = sort_key adv_requested_at (filter (settleable orgID employeeID period) (advances db))
      in if rows = [] then Inr (0, db)
         else
           rbind (OrgCurrencyTx db orgID) (\<lambda>currency.
           rbind (EnsureAccount db orgID employeeID AccountAdvanceReceivable currency) (\<lambda>(receivable, db1).
           rbind (EnsureAccount db1 orgID employeeID AccountWagePayable currency) (\<lambda>(payable, db2).
           rbind (settle_loop now orgID itemID currency (acc_id receivable) (acc_id payable) rows (0, available, db2))
             (\<lambda>(withheld, _, db3). Inr (withheld, db3))))))"


subsection \<open>Library\<close>

lemma update_pinned:
  assumes "distinct (map adv_id rows)" "adv \<in> set rows" "Q adv" "\<And>r. Q r \<Longrightarrow> adv_id r = adv_id adv"
  shows "update_where Q f rows = update_where (\<lambda>r. adv_id r = adv_id adv) f rows"
  using by_id [OF assms(1,2)] assms(3,4) by (intro update_where_cong) metis

lemma update_twice:
  assumes "\<And>r. adv_id (f r) = adv_id r"
  shows "update_where (\<lambda>r. adv_id r = i) g (update_where (\<lambda>r. adv_id r = i) f rows) =
    update_where (\<lambda>r. adv_id r = i) (g \<circ> f) rows"
  using assms by (simp add: update_where_def)

lemma CancelAdvance_accounts:
  assumes "CancelAdvance now db adv from_st reason = Inr (adv', db')"
  shows "set (ledger_accounts db) \<subseteq> set (ledger_accounts db')"
proof -
  from assms obtain db1 cur receivable db3 cash db4 tx db5 where
    t: "TransitionAdvance now db adv from_st AdvanceCancelled = Inr (adv', db1)"
    and e1: "EnsureAccount (update_advance now db1 (adv_id adv) (\<lambda>r. r\<lparr>adv_decline_reason := reason\<rparr>))
        (adv_org adv) (adv_employee adv) AccountAdvanceReceivable cur = Inr (receivable, db3)"
    and e2: "EnsureAccount db3 (adv_org adv) [] AccountCashSettlement cur = Inr (cash, db4)"
    and p: "PostTransaction db4 (pair_request (adv_org adv) ''ewa_cancellation'' (adv_id adv)
        (cancellation_key (adv_id adv)) (acc_id cash) (acc_id receivable)
        (KoboIn cur (adv_amount adv))) = Inr (tx, db5)"
    and au: "AppendAuditTx db5 (adv_org adv) ''EWAAdvance'' (adv_id adv) ''cancelled''
        (AdvanceStatus_string from_st) reason ''internal'' [] = Inr db'"
    by (auto simp: CancelAdvance_def go_results Let_def)
  have "ledger_accounts (update_advance now db1 (adv_id adv) (\<lambda>r. r\<lparr>adv_decline_reason := reason\<rparr>)) = ledger_accounts db"
    using t by (auto simp: TransitionAdvance_def go_results update_advance_def)
  moreover have keep: "set (ledger_accounts d) \<subseteq> set (ledger_accounts d')" if "EnsureAccount d o1 e1 a1 c1 = Inr (x, d')"
    for d d' :: "'a ewa_db_scheme" and o1 e1 a1 c1 x
    using that by (rule EnsureAccount_Inr) auto
  moreover have "ledger_accounts db5 = ledger_accounts db4" using p by (rule PostTransaction_Inr) simp_all
  moreover have "ledger_accounts db' = ledger_accounts db5" using AppendAuditTx_Inr [OF au] by auto
  ultimately show ?thesis using keep [OF e1] keep [OF e2] by simp
qed

text \<open>\<open>ErrStaleStatus\<close> is reported by the compare-and-swap updates and by nothing else.\<close>

lemma Money_Add_not_stale [simp]: "Money_Add a b \<noteq> Inl ErrStaleStatus"
  by (auto simp: Money_Add_def assertSame_def Let_def split: if_splits)

lemma validate_entries_not_stale: "validate_entries c d cr es \<noteq> Inl ErrStaleStatus"
  by (induction es arbitrary: d cr) (auto simp: rbind_eq_Inl split: Direction.splits)

lemma PostTransaction_not_stale: "PostTransaction db req \<noteq> Inl ErrStaleStatus"
  using validate_entries_not_stale
  by (auto simp: PostTransaction_def ValidatePosting_def Let_def rbind_eq_Inl insert_row_def create_entries_def
      split: list.splits if_splits sum.splits prod.splits)

lemma EnsureAccount_not_stale: "EnsureAccount db orgID emp at c \<noteq> Inl ErrStaleStatus"
  by (auto simp: EnsureAccount_def Let_def rbind_eq_Inl insert_row_def split: option.splits sum.splits if_splits)

lemma AppendAuditTx_not_stale: "AppendAuditTx db a b c d e f g h \<noteq> Inl ErrStaleStatus"
  by (auto simp: AppendAuditTx_def appendAuditOn_def Let_def rbind_eq_Inl insert_row_def split: if_splits)

lemma OrgCurrencyTx_not_stale: "OrgCurrencyTx db orgID \<noteq> Inl ErrStaleStatus"
  by (auto simp: OrgCurrencyTx_def rbind_eq_Inl find_row_Inl)

lemma CancelAdvance_not_stale:
  assumes "adv \<in> set (advances db)" "adv_status adv = AdvanceApproved"
  shows "CancelAdvance now db adv AdvanceApproved reason \<noteq> Inl ErrStaleStatus"
proof -
  have "\<exists>r. TransitionAdvance now db adv AdvanceApproved AdvanceCancelled = Inr r"
    using assms by (auto simp: TransitionAdvance_def cas_advance_def CanTransitionAdvance_iff count_where_eq_0_iff Let_def)
  then show ?thesis
    by (auto simp: CancelAdvance_def rbind_eq_Inl Let_def PostTransaction_not_stale EnsureAccount_not_stale
        AppendAuditTx_not_stale OrgCurrencyTx_not_stale split: prod.splits)
qed

text \<open>
  What one round of the loop does to the state: \<open>p\<close> is the portion it withholds. Rows of
  other advances, other keys and the accounts stay.
\<close>

definition settle_round ::
  "string \<Rightarrow> string \<Rightarrow> EWAAdvance \<Rightarrow> int \<Rightarrow> ('z ewa_db_scheme) \<Rightarrow> ('z ewa_db_scheme) \<Rightarrow> bool" where
  "settle_round orgID itemID adv p db db' \<longleftrightarrow>
     ewa_inv db' \<and> OrgCurrencyTx db' = OrgCurrencyTx db \<and>
     set (ledger_accounts db) \<subseteq> set (ledger_accounts db') \<and>
     (\<forall>b. adv_id b \<noteq> adv_id adv \<longrightarrow> b \<in> set (advances db) \<longrightarrow> b \<in> set (advances db')) \<and>
     (\<forall>i. i \<noteq> adv_id adv \<longrightarrow> posted db' orgID (settlement_key i itemID) \<longrightarrow> posted db orgID (settlement_key i itemID)) \<and>
     (\<forall>o1 e. owed (advances db') o1 e = owed (advances db) o1 e -
        (if o1 = adv_org adv \<and> e = adv_employee adv
         then (if adv_status adv = AdvanceApproved then sint (adv_amount adv) else p) else 0)) \<and>
     (\<forall>o1 c. ledger_balance db' (o1, Some (adv_employee adv), AccountWagePayable, c) =
        ledger_balance db (o1, Some (adv_employee adv), AccountWagePayable, c) +
        (if o1 = orgID \<and> OrgCurrencyTx db orgID = Inr c then p else 0))"

lemma settle_round_refl: "ewa_inv db \<Longrightarrow> adv_status adv \<noteq> AdvanceApproved \<Longrightarrow> settle_round orgID itemID adv 0 db db"
  by (simp add: settle_round_def)

lemma cancel_round:
  assumes inv: "ewa_inv db" and a: "adv \<in> set (advances db)" and st: "adv_status adv = AdvanceApproved"
    and c: "cancel_undisbursed now db adv = Inr db'"
  shows "settle_round orgID itemID adv 0 db db'"
proof -
  have d: "distinct (map adv_id (advances db))" and led: "ledger_inv db"
    and ok: "advance_ok adv" using inv a by (auto simp: ewa_inv_def list_all_iff)
  have "CancelAdvance now db adv AdvanceApproved ''settled_before_disbursement'' \<noteq> Inl ErrStaleStatus"
    using CancelAdvance_not_stale [OF a st] .
  then obtain adv' where can: "CancelAdvance now db adv AdvanceApproved ''settled_before_disbursement'' = Inr (adv', db')"
    using c by (auto simp: cancel_undisbursed_def split: sum.splits if_splits)
  note inv' = CancelAdvance_inv [OF inv a st can] and acc = CancelAdvance_accounts [OF can]
  from led can obtain cur db5 au where cur: "OrgCurrencyTx db (adv_org adv) = Inr cur"
    and m: "moved (db\<lparr>advances := closed_rows now (advances db) (adv_id adv) AdvanceApproved AdvanceCancelled
        ''settled_before_disbursement''\<rparr>) db5
      (adv_org adv) (cancellation_key (adv_id adv)) (cash_of (adv_org adv) cur)
      (adv_org adv, owner (adv_employee adv), AccountAdvanceReceivable, cur) (sint (adv_amount adv))"
    and db': "db' = db5\<lparr>uuid_next := Suc (uuid_next db5), audit_events := audit_events db5 @ [au]\<rparr>"
    by (rule CancelAdvance_Inr)
  note fr = ledger_frame_ewa [OF m [unfolded moved_def, THEN conjunct2, THEN conjunct1]]
  have rows: "advances db' = update_where (\<lambda>r. adv_id r = adv_id adv)
      (\<lambda>r. (stamp_advance now AdvanceCancelled r)\<lparr>adv_decline_reason := ''settled_before_disbursement'', adv_updated_at := now\<rparr>)
      (advances db)"
    using closed_rows_eq [OF d a st] fr(1) by (simp add: db')
  have owed: "owed (advances db') o1 e = owed (advances db) o1 e -
        (if o1 = adv_org adv \<and> e = adv_employee adv then sint (adv_amount adv) else 0)" for o1 e
    unfolding rows owed_update [OF d a]
    using ok st by (simp add: owed_by_def EWAAdvance_IsOutstanding_def advance_ok_def)
  have keep: "b \<in> set (advances db')" if "b \<in> set (advances db)" "adv_id b \<noteq> adv_id adv" for b
    using that by (auto simp: rows in_update_key [OF d a])
  have po: "posted db' = (\<lambda>o1 k. posted db o1 k \<or> (o1 = adv_org adv \<and> k = cancellation_key (adv_id adv)))"
    using m by (simp add: db' moved_def)
  have bal: "ledger_balance db' (o1, Some (adv_employee adv), AccountWagePayable, c) =
      ledger_balance db (o1, Some (adv_employee adv), AccountWagePayable, c)" for o1 c
    using m by (simp add: db' moved_def transfer_def cash_of_def)
  have "OrgCurrencyTx db' = OrgCurrencyTx db" using fr(11) by (simp add: db')
  then show ?thesis using inv' acc keep owed st bal by (auto simp: settle_round_def po)
qed


text \<open>The row of a recovered advance: still disbursed with more recovered, or settled in full.\<close>

definition recovered_row :: "Kobo \<Rightarrow> EWAAdvance \<Rightarrow> EWAAdvance \<Rightarrow> bool" where
  "recovered_row tot a b \<longleftrightarrow>
     adv_id b = adv_id a \<and> adv_org b = adv_org a \<and> adv_employee b = adv_employee a \<and> adv_amount b = adv_amount a \<and>
     adv_recovered b = tot \<and>
     (if sint tot < sint (adv_amount a) then adv_status b = AdvanceDisbursed else adv_status b = AdvanceSettled)"

lemma recovery_rows:
  assumes d: "distinct (map adv_id (advances db))" and a: "adv \<in> set (advances db)"
    and st: "adv_status adv = AdvanceDisbursed"
    and r: "record_recovery now db adv tot = Inr db2"
    and c: "close_or_audit now db2 orgID itemID (adv\<lparr>adv_recovered := tot\<rparr>) p = Inr db3"
  obtains g u au where "\<And>r. adv_id (g r) = adv_id r" "recovered_row tot adv (g adv)"
    "db3 = db\<lparr>uuid_next := u, audit_events := au, advances := update_where (\<lambda>r. adv_id r = adv_id adv) g (advances db)\<rparr>"
proof -
  let ?f = "\<lambda>r. r\<lparr>adv_recovered := tot, adv_updated_at := now\<rparr>"
  let ?rows = "update_where (\<lambda>r. adv_id r = adv_id adv) ?f (advances db)"
  have "update_where (\<lambda>r. adv_id r = adv_id adv \<and> adv_recovered r = adv_recovered adv) ?f (advances db) = ?rows"
    by (rule update_pinned [OF d a]) simp_all
  then have db2: "db2 = db\<lparr>advances := ?rows\<rparr>"
    using r by (auto simp: record_recovery_def Let_def split: if_splits)
  have a': "?f adv \<in> set ?rows" using in_update_key [OF d a] by blast
  have d': "distinct (map adv_id ?rows)" using d by (subst map_update_where_same) simp_all
  show thesis
  proof (cases "sint tot < sint (adv_amount adv)")
    case True
    then obtain au u where "db3 = db2\<lparr>uuid_next := u, audit_events := au\<rparr>"
      using c by (auto simp: close_or_audit_def sless_sint dest!: AppendAuditTx_Inr)
    moreover have "recovered_row tot adv (?f adv)" using True st by (simp add: recovered_row_def)
    ultimately show thesis using that [of ?f au u] by (simp add: db2)
  next
    case False
    let ?g = "\<lambda>r. (stamp_advance now AdvanceSettled r)\<lparr>adv_settled_item := Some itemID, adv_updated_at := now\<rparr>"
    have "\<exists>r \<in> set ?rows. adv_id r = adv_id adv \<and> adv_status r = AdvanceDisbursed"
      using a' st by (intro bexI [of _ "?f adv"]) simp_all
    then have "TransitionAdvance now db2 (adv\<lparr>adv_recovered := tot\<rparr>) AdvanceDisbursed AdvanceSettled =
        Inr (adv\<lparr>adv_recovered := tot, adv_status := AdvanceSettled\<rparr>,
          db2\<lparr>advances := update_where (\<lambda>r. adv_id r = adv_id adv \<and> adv_status r = AdvanceDisbursed)
            (stamp_advance now AdvanceSettled) ?rows\<rparr>)"
      by (auto simp: TransitionAdvance_def cas_advance_def Let_def db2 count_where_eq_0_iff CanTransitionAdvance_iff)
    moreover have "update_where (\<lambda>r. adv_id r = adv_id adv \<and> adv_status r = AdvanceDisbursed)
        (stamp_advance now AdvanceSettled) ?rows =
      update_where (\<lambda>r. adv_id r = adv_id adv) (stamp_advance now AdvanceSettled) ?rows"
      using update_pinned [OF d' a', of "\<lambda>r. adv_id r = adv_id adv \<and> adv_status r = AdvanceDisbursed"] st by simp
    ultimately have "db3 = db\<lparr>advances := update_where (\<lambda>r. adv_id r = adv_id adv)
        ((\<lambda>r. r\<lparr>adv_settled_item := Some itemID, adv_updated_at := now\<rparr>) \<circ> (stamp_advance now AdvanceSettled \<circ> ?f)) (advances db)\<rparr>"
      using c False by (simp add: close_or_audit_def sless_sint update_advance_def db2 update_twice)
    moreover have "recovered_row tot adv (((\<lambda>r. r\<lparr>adv_settled_item := Some itemID, adv_updated_at := now\<rparr>) \<circ>
        (stamp_advance now AdvanceSettled \<circ> ?f)) adv)"
      using False by (simp add: recovered_row_def)
    ultimately show thesis
      using that [of "(\<lambda>r. r\<lparr>adv_settled_item := Some itemID, adv_updated_at := now\<rparr>) \<circ> (stamp_advance now AdvanceSettled \<circ> ?f)"
        "audit_events db" "uuid_next db"] by simp
  qed
qed


lemma recovery_round:
  assumes inv: "ewa_inv db" and a: "adv \<in> set (advances db)" and st: "adv_status adv = AdvanceDisbursed"
    and org: "adv_org adv = orgID" and cur: "OrgCurrencyTx db orgID = Inr c"
    and held: "receivable \<in> set (ledger_accounts db)" "payable \<in> set (ledger_accounts db)"
    and ids: "acc_identity receivable = (orgID, Some (adv_employee adv), AccountAdvanceReceivable, c)"
      "acc_identity payable = (orgID, Some (adv_employee adv), AccountWagePayable, c)"
    and new: "\<not> posted db orgID (settlement_key (adv_id adv) itemID)"
    and p: "0 < sint portion" "sint portion \<le> sint (adv_amount adv) - sint (adv_recovered adv)"
    and post: "PostTransaction db (pair_request orgID ''ewa_settlement'' (adv_id adv) (settlement_key (adv_id adv) itemID)
        (acc_id payable) (acc_id receivable) (KoboIn c portion)) = Inr (t, db1)"
    and add: "Kobo_Add (adv_recovered adv) portion = Inr recoveredTotal"
    and rec: "record_recovery now db1 adv recoveredTotal = Inr db2"
    and close: "close_or_audit now db2 orgID itemID (adv\<lparr>adv_recovered := recoveredTotal\<rparr>) portion = Inr db3"
  shows "settle_round orgID itemID adv (sint portion) db db3"
proof -
  have led: "ledger_inv db" and d: "distinct (map adv_id (advances db))" and ok: "advance_ok adv"
    using inv a by (auto simp: ewa_inv_def list_all_iff)
  have law: "ledger_inv db1" "posted db1 = (\<lambda>o1 k. posted db o1 k \<or> (o1 = orgID \<and> k = settlement_key (adv_id adv) itemID))"
    "ledger_balance db1 = transfer (orgID, Some (adv_employee adv), AccountWagePayable, c)
       (orgID, Some (adv_employee adv), AccountAdvanceReceivable, c) (sint portion) (ledger_balance db)"
    using de.post_law [OF led _ _ post] held new ids by (auto simp: holds_account_def KoboIn_def)
  note fr = ledger_frame_ewa [OF PostTransaction_frame [OF post]]
  have acc: "ledger_accounts db1 = ledger_accounts db" using post by (rule PostTransaction_Inr) simp_all
  obtain g u au where g: "\<And>r. adv_id (g r) = adv_id r" "recovered_row recoveredTotal adv (g adv)"
    and db3: "db3 = db1\<lparr>uuid_next := u, audit_events := au,
       advances := update_where (\<lambda>r. adv_id r = adv_id adv) g (advances db1)\<rparr>"
    using recovery_rows [OF _ _ st rec close] d a fr(1) by metis
  let ?rows = "update_where (\<lambda>r. adv_id r = adv_id adv) g (advances db)"
  have rows: "advances db3 = ?rows" by (simp add: db3 fr(1))
  have tot: "sint recoveredTotal = sint (adv_recovered adv) + sint portion" using add by (simp add: Kobo_Add_Inr)
  have owed: "owed ?rows o1 e = owed (advances db) o1 e - (if o1 = orgID \<and> e = adv_employee adv then sint portion else 0)"
    for o1 e
    unfolding owed_update [OF d a] using g(2) st tot p org
    by (auto simp: owed_by_def EWAAdvance_IsOutstanding_def recovered_row_def split: if_splits)
  have bal: "ledger_balance db3 = ledger_balance db1" "ledger_inv db3" "posted db3 = posted db1"
    "OrgCurrencyTx db3 = OrgCurrencyTx db" "ledger_accounts db3 = ledger_accounts db"
    using law(1) fr(11) acc by (simp_all add: db3)
  have "map adv_id ?rows = map adv_id (advances db)" using g(1) by (intro map_update_where_same)
  moreover have "advance_ok (g adv)"
    using ok g(2) tot p by (auto simp: advance_ok_def recovered_row_def split: if_splits)
  then have "list_all advance_ok ?rows"
    using inv by (auto simp: ewa_inv_def list_all_iff in_update_key [OF d a])
  moreover have "advance_keys_inv ?rows (posted db)"
    using inv keys_inv_update [OF _ d a g(1)] st by (simp add: ewa_inv_def)
  then have "advance_keys_inv ?rows (posted db1)" by (simp add: advance_keys_inv_def law(2))
  moreover have "receivables_match ?rows (ledger_balance db1) (OrgCurrencyTx db)"
    using inv cur by (auto simp: ewa_inv_def receivables_match_def owed law(3) transfer_def receivable_of_def)
  ultimately have "ewa_inv db3" using d bal by (simp add: ewa_inv_def rows)
  moreover have "b \<in> set ?rows" if "b \<in> set (advances db)" "adv_id b \<noteq> adv_id adv" for b
    using that by (auto simp: in_update_key [OF d a])
  ultimately show ?thesis
    using bal owed st org cur by (auto simp: settle_round_def rows law(2,3) transfer_def)
qed

text \<open>The recoverable part of an advance, as the loop reads it.\<close>

definition recoverable :: "EWAAdvance \<Rightarrow> int" where
  "recoverable a = (if adv_status a = AdvanceDisbursed then sint (adv_amount a) - sint (adv_recovered a) else 0)"

lemma settle_advance_round:
  assumes inv: "ewa_inv db" and a: "adv \<in> set (advances db)" and s: "settleable orgID emp period adv"
    and cur: "OrgCurrencyTx db orgID = Inr c"
    and held: "receivable \<in> set (ledger_accounts db)" "payable \<in> set (ledger_accounts db)"
    and ids: "acc_identity receivable = (orgID, Some emp, AccountAdvanceReceivable, c)"
      "acc_identity payable = (orgID, Some emp, AccountWagePayable, c)"
    and new: "\<not> posted db orgID (settlement_key (adv_id adv) itemID)" and rem: "0 \<le> sint remaining"
    and step: "settle_advance now orgID itemID c (acc_id receivable) (acc_id payable) adv (withheld, remaining, db) =
      Inr (withheld', remaining', db')"
  shows "settle_round orgID itemID adv (min (sint remaining) (recoverable adv)) db db' \<and>
    sint withheld' = sint withheld + min (sint remaining) (recoverable adv) \<and>
    sint remaining' = sint remaining - min (sint remaining) (recoverable adv)"
proof (cases "adv_status adv = AdvanceApproved")
  case True
  then have "cancel_undisbursed now db adv = Inr db'" "withheld' = withheld" "remaining' = remaining"
    using step by (auto simp: settle_advance_def go_results)
  then show ?thesis using cancel_round [OF inv a True] True rem by (simp add: recoverable_def)
next
  case False
  then have st: "adv_status adv = AdvanceDisbursed" and emp: "adv_employee adv = emp" "adv_org adv = orgID"
    using s by (auto simp: settleable_def)
  have ok: "advance_ok adv" using inv a by (auto simp: ewa_inv_def list_all_iff)
  note R = RemainingKobo_ok [OF ok]
  have rec: "recoverable adv = sint (EWAAdvance_RemainingKobo adv)" "0 \<le> recoverable adv"
    using st R ok by (simp_all add: recoverable_def advance_ok_def)
  have portion: "sint (recovered_portion adv remaining) = min (sint remaining) (recoverable adv)"
    by (simp add: recovered_portion_def Let_def sless_sint rec(1))
  show ?thesis
  proof (cases "0 < min (sint remaining) (recoverable adv)")
    case True
    then have "0 < sint (EWAAdvance_RemainingKobo adv)" using rec by simp
    then obtain t db1 tot db2 where post: "PostTransaction db (pair_request orgID ''ewa_settlement'' (adv_id adv)
        (settlement_key (adv_id adv) itemID) (acc_id payable) (acc_id receivable)
        (KoboIn c (recovered_portion adv remaining))) = Inr (t, db1)"
      and r: "Kobo_Add (adv_recovered adv) (recovered_portion adv remaining) = Inr tot"
        "record_recovery now db1 adv tot = Inr db2"
        "close_or_audit now db2 orgID itemID (adv\<lparr>adv_recovered := tot\<rparr>) (recovered_portion adv remaining) = Inr db'"
      and w: "Kobo_Add withheld (recovered_portion adv remaining) = Inr withheld'"
        "Kobo_Sub remaining (recovered_portion adv remaining) = Inr remaining'"
      using step False True portion
      by (auto simp: settle_advance_def Let_def go_simps sless_sint rbind_eq_Inr split: if_splits)
    have "sint (recovered_portion adv remaining) \<le> sint (adv_amount adv) - sint (adv_recovered adv)"
      using portion rec R by simp
    from recovery_round [OF inv a st emp(2) cur held ids [folded emp(1)] new _ this post r] True
    show ?thesis using w portion by (simp add: Kobo_Add_Inr Kobo_Sub_Inr)
  next
    case F: False
    then have m: "min (sint remaining) (recoverable adv) = 0" using rec rem by linarith
    then have "withheld' = withheld \<and> remaining' = remaining \<and> db' = db"
      using step False portion by (auto simp: settle_advance_def Let_def go_simps sless_sint split: if_splits)
    then show ?thesis using m settle_round_refl [OF inv, of adv orgID itemID] st by simp
  qed
qed


definition cancelled_part :: "EWAAdvance \<Rightarrow> int" where
  "cancelled_part a = (if adv_status a = AdvanceApproved then sint (adv_amount a) else 0)"

lemma recoverable_nonneg: "ewa_inv db \<Longrightarrow> a \<in> set (advances db) \<Longrightarrow> 0 \<le> recoverable a"
  by (auto simp: ewa_inv_def list_all_iff recoverable_def advance_ok_def)

lemma min_split: "0 \<le> x \<Longrightarrow> 0 \<le> y \<Longrightarrow> min r x + min (r - min r x) y = min r (x + y)" for r x y :: int
  by (simp add: min_def)

lemma settle_loop_rounds:
  assumes "ewa_inv db" "\<forall>a \<in> set as. a \<in> set (advances db) \<and> settleable orgID emp period a \<and>
      \<not> posted db orgID (settlement_key (adv_id a) itemID)" "distinct (map adv_id as)"
    and "OrgCurrencyTx db orgID = Inr c"
    and "receivable \<in> set (ledger_accounts db)" "payable \<in> set (ledger_accounts db)"
    and ids: "acc_identity receivable = (orgID, Some emp, AccountAdvanceReceivable, c)"
      "acc_identity payable = (orgID, Some emp, AccountWagePayable, c)"
    and "0 \<le> sint remaining"
    and "settle_loop now orgID itemID c (acc_id receivable) (acc_id payable) as (withheld, remaining, db) = Inr (w, r, db')"
  shows "ewa_inv db' \<and> OrgCurrencyTx db' = OrgCurrencyTx db \<and>
    sint w = sint withheld + min (sint remaining) (sum_list (map recoverable as)) \<and>
    (\<forall>o1 e. owed (advances db') o1 e = owed (advances db) o1 e -
       (if o1 = orgID \<and> e = emp then sint w - sint withheld + sum_list (map cancelled_part as) else 0)) \<and>
    ledger_balance db' (orgID, Some emp, AccountWagePayable, c) =
      ledger_balance db (orgID, Some emp, AccountWagePayable, c) + (sint w - sint withheld)"
  using assms(1-6,9,10)
proof (induction as arbitrary: withheld remaining db)
  case Nil
  then show ?case by auto
next
  case (Cons a as)
  obtain w1 r1 db1 where step: "settle_advance now orgID itemID c (acc_id receivable) (acc_id payable) a (withheld, remaining, db) =
      Inr (w1, r1, db1)"
    and rest: "settle_loop now orgID itemID c (acc_id receivable) (acc_id payable) as (w1, r1, db1) = Inr (w, r, db')"
    using Cons.prems(8) by (auto simp: go_results)
  have a: "a \<in> set (advances db)" "settleable orgID emp period a" "\<not> posted db orgID (settlement_key (adv_id a) itemID)"
    using Cons.prems(2) by simp_all
  have rn: "settle_round orgID itemID a (min (sint remaining) (recoverable a)) db db1"
    and w1: "sint w1 = sint withheld + min (sint remaining) (recoverable a)"
    and r1: "sint r1 = sint remaining - min (sint remaining) (recoverable a)"
    using settle_advance_round [OF Cons.prems(1) a(1,2) Cons.prems(4-6) ids a(3) Cons.prems(7) step] by blast+
  have nn: "0 \<le> recoverable a" "0 \<le> sum_list (map recoverable as)"
    using recoverable_nonneg [OF Cons.prems(1)] Cons.prems(2) by (auto intro!: sum_list_nonneg)
  have todo: "\<forall>b \<in> set as. b \<in> set (advances db1) \<and> settleable orgID emp period b \<and>
      \<not> posted db1 orgID (settlement_key (adv_id b) itemID)"
  proof
    fix b assume b: "b \<in> set as"
    then have "adv_id b \<noteq> adv_id a" using Cons.prems(3) by (auto simp: image_iff)
    then show "b \<in> set (advances db1) \<and> settleable orgID emp period b \<and> \<not> posted db1 orgID (settlement_key (adv_id b) itemID)"
      using rn Cons.prems(2) b by (auto simp: settle_round_def)
  qed
  have IH: "ewa_inv db' \<and> OrgCurrencyTx db' = OrgCurrencyTx db1 \<and>
    sint w = sint w1 + min (sint r1) (sum_list (map recoverable as)) \<and>
    (\<forall>o1 e. owed (advances db') o1 e = owed (advances db1) o1 e -
       (if o1 = orgID \<and> e = emp then sint w - sint w1 + sum_list (map cancelled_part as) else 0)) \<and>
    ledger_balance db' (orgID, Some emp, AccountWagePayable, c) =
      ledger_balance db1 (orgID, Some emp, AccountWagePayable, c) + (sint w - sint w1)"
    using rn Cons.prems r1 nn by (intro Cons.IH [OF _ todo _ _ _ _ _ rest]) (auto simp: settle_round_def)
  have ow: "owed (advances db1) o1 e = owed (advances db) o1 e -
      (if o1 = orgID \<and> e = emp then min (sint remaining) (recoverable a) + cancelled_part a else 0)" for o1 e
    using rn a(2) Cons.prems(7) by (auto simp: settle_round_def settleable_def cancelled_part_def recoverable_def)
  have "sint w = sint withheld + min (sint remaining) (sum_list (map recoverable (a # as)))"
    using IH w1 r1 min_split [OF nn, of "sint remaining"] by simp
  moreover have "ledger_balance db1 (orgID, Some emp, AccountWagePayable, c) =
      ledger_balance db (orgID, Some emp, AccountWagePayable, c) + min (sint remaining) (recoverable a)"
    using rn a(2) Cons.prems(4) by (auto simp: settle_round_def settleable_def)
  moreover have "OrgCurrencyTx db1 = OrgCurrencyTx db" using rn by (simp add: settle_round_def)
  ultimately show ?case using IH w1 ow by auto
qed

lemma ewa_inv_ensure:
  assumes "ewa_inv db" "EnsureAccount db orgID emp at c = Inr (a, db')"
  shows "ewa_inv db' \<and> advances db' = advances db \<and> posted db' = posted db \<and> OrgCurrencyTx db' = OrgCurrencyTx db \<and>
    ledger_balance db' = ledger_balance db \<and> a \<in> set (ledger_accounts db') \<and> acc_identity a = (orgID, owner emp, at, c) \<and>
    set (ledger_accounts db) \<subseteq> set (ledger_accounts db')"
proof -
  have "ledger_inv db" using assms(1) by (simp add: ewa_inv_def)
  note l = de.ensure_law [OF this assms(2)]
  note fr = ledger_frame_ewa [OF EnsureAccount_frame [OF assms(2)]]
  have "set (ledger_accounts db) \<subseteq> set (ledger_accounts db')" using assms(2) by (rule EnsureAccount_Inr) auto
  then show ?thesis using l fr(1,11) assms(1) by (simp add: ewa_inv_def holds_account_def)
qed

lemma sum_filter_settleable:
  "sum_list (map f (sort_key k (filter P rows))) = sum_list (map (\<lambda>a. if P a then f a else (0 :: int)) rows)"
proof -
  have "sum_list (map f (sort_key k (filter P rows))) = sum_list (map f (filter P rows))"
    by (metis mset_map mset_sort sum_mset_sum_list)
  also have "\<dots> = sum_list (map (\<lambda>a. if P a then f a else 0) rows)" by (induction rows) simp_all
  finally show ?thesis .
qed

subsection \<open>Properties\<close>

text \<open>
  C7: settling against a payroll item withholds exactly the smaller of the pay available and
  what the worker's disbursed advances up to the period still owe, never more; the
  receivable stays equal to what is owed, which falls by the amount withheld and by the
  undisbursed advances that are cancelled instead (these withhold nothing); and the wages
  payable are reduced by what is withheld.
\<close>

theorem settlement_exact:
  assumes inv: "ewa_inv db" and emp: "emp \<noteq> []" and av: "0 \<le> sint available"
    and new: "\<forall>i. \<not> posted db orgID (settlement_key i itemID)" and cur: "OrgCurrencyTx db orgID = Inr c"
    and s: "SettleAdvancesForPayrollItem now db orgID emp period itemID available = Inr (withheld, db')"
  shows "sint withheld = min (sint available)
      (sum_list (map (\<lambda>a. if settleable orgID emp period a then recoverable a else 0) (advances db))) \<and>
    0 \<le> sint withheld \<and> sint withheld \<le> sint available \<and> ewa_inv db' \<and>
    ledger_balance db' (receivable_of orgID emp c) = ledger_balance db (receivable_of orgID emp c) - sint withheld -
      sum_list (map (\<lambda>a. if settleable orgID emp period a then cancelled_part a else 0) (advances db)) \<and>
    ledger_balance db' (orgID, Some emp, AccountWagePayable, c) =
      ledger_balance db (orgID, Some emp, AccountWagePayable, c) + sint withheld"
proof -
  define rows where "rows = sort_key adv_requested_at (filter (settleable orgID emp period) (advances db))"
  have sums: "sum_list (map (\<lambda>a. if settleable orgID emp period a then f a else 0) (advances db)) = sum_list (map f rows)"
    for f :: "EWAAdvance \<Rightarrow> int" by (simp add: rows_def sum_filter_settleable)
  have rows: "\<forall>a \<in> set rows. a \<in> set (advances db) \<and> settleable orgID emp period a" by (auto simp: rows_def)
  have nn: "0 \<le> sum_list (map recoverable rows)"
    using recoverable_nonneg [OF inv] rows by (auto intro!: sum_list_nonneg)
  have match: "ledger_balance d (receivable_of orgID emp c) = owed (advances d) orgID emp"
    if "ewa_inv d" "OrgCurrencyTx d orgID = Inr c" for d :: "'a ewa_db_scheme"
    using that emp by (auto simp: ewa_inv_def receivables_match_def)
  show ?thesis
  proof (cases "rows = []")
    case True
    then have "withheld = 0" "db' = db" using s by (simp_all add: SettleAdvancesForPayrollItem_def rows_def Let_def)
    then show ?thesis using True inv av unfolding sums by simp
  next
    case False
    obtain receivable db1 payable db2 r where
      e1: "EnsureAccount db orgID emp AccountAdvanceReceivable c = Inr (receivable, db1)"
      and e2: "EnsureAccount db1 orgID emp AccountWagePayable c = Inr (payable, db2)"
      and loop: "settle_loop now orgID itemID c (acc_id receivable) (acc_id payable) rows (0, available, db2) = Inr (withheld, r, db')"
      using s False cur by (auto simp: SettleAdvancesForPayrollItem_def rows_def [symmetric] Let_def go_results)
    note l1 = ewa_inv_ensure [OF inv e1]
    note l2 = ewa_inv_ensure [OF l1 [THEN conjunct1] e2]
    have "distinct (map adv_id rows)"
      using inv by (simp add: rows_def ewa_inv_def distinct_map_filter distinct_map inj_on_def)
    moreover have "receivable \<in> set (ledger_accounts db2)" "payable \<in> set (ledger_accounts db2)"
      "acc_identity receivable = (orgID, Some emp, AccountAdvanceReceivable, c)"
      "acc_identity payable = (orgID, Some emp, AccountWagePayable, c)" "ewa_inv db2"
      "OrgCurrencyTx db2 orgID = Inr c" "\<forall>a \<in> set rows. a \<in> set (advances db2) \<and> settleable orgID emp period a \<and>
        \<not> posted db2 orgID (settlement_key (adv_id a) itemID)"
      using l1 l2 rows new cur emp by auto
    ultimately have "ewa_inv db' \<and> OrgCurrencyTx db' = OrgCurrencyTx db2 \<and>
      sint withheld = sint (0 :: int64) + min (sint available) (sum_list (map recoverable rows)) \<and>
      (\<forall>o1 e. owed (advances db') o1 e = owed (advances db2) o1 e -
         (if o1 = orgID \<and> e = emp then sint withheld - sint (0 :: int64) + sum_list (map cancelled_part rows) else 0)) \<and>
      ledger_balance db' (orgID, Some emp, AccountWagePayable, c) =
        ledger_balance db2 (orgID, Some emp, AccountWagePayable, c) + (sint withheld - sint (0 :: int64))"
      using av loop by (intro settle_loop_rounds)
    then have L: "ewa_inv db'" "OrgCurrencyTx db' = OrgCurrencyTx db"
      "sint withheld = min (sint available) (sum_list (map recoverable rows))"
      "owed (advances db') orgID emp = owed (advances db) orgID emp - (sint withheld + sum_list (map cancelled_part rows))"
      "ledger_balance db' (orgID, Some emp, AccountWagePayable, c) =
        ledger_balance db (orgID, Some emp, AccountWagePayable, c) + sint withheld"
      using l1 l2 by simp_all
    then show ?thesis using match [OF L(1)] match [OF inv cur] cur av nn unfolding sums by simp
  qed
qed


lemma last_settlement_key: "m \<noteq> [] \<Longrightarrow> last (settlement_key i m) = last m"
  by (simp add: settlement_key_def)

theorem settlement_exact_witness:
  "\<exists>withheld db'. SettleAdvancesForPayrollItem 0 demo_ewa ''ORG-1'' ''EMP-1'' ''2026-09'' ''ITEM-2'' 50 =
     Inr (withheld, db') \<and> sint withheld = 50 \<and> ewa_inv db' \<and>
     ledger_balance db' (receivable_of ''ORG-1'' ''EMP-1'' NGN) =
       ledger_balance demo_ewa (receivable_of ''ORG-1'' ''EMP-1'' NGN) - 50"
proof -
  let ?run = "SettleAdvancesForPayrollItem 0 demo_ewa ''ORG-1'' ''EMP-1'' ''2026-09'' ''ITEM-2'' 50"
  have "case ?run of Inr _ \<Rightarrow> True | _ \<Rightarrow> False" by code_simp
  then obtain withheld db' where run: "?run = Inr (withheld, db')" by (auto split: sum.splits)
  have cur: "OrgCurrencyTx demo_ewa ''ORG-1'' = Inr NGN" by code_simp
  have new: "\<forall>i. \<not> posted demo_ewa ''ORG-1'' (settlement_key i ''ITEM-2'')"
  proof
    fix i
    have "settlement_key i ''ITEM-2'' \<noteq> settlement_key ''EWA-1'' ''ITEM-1''"
      using last_settlement_key [of "''ITEM-2''" i] last_settlement_key [of "''ITEM-1''" "''EWA-1''"] by auto
    then show "\<not> posted demo_ewa ''ORG-1'' (settlement_key i ''ITEM-2'')"
      by (auto simp: posted_def demo_ewa_def)
  qed
  have rec: "(if settleable ''ORG-1'' ''EMP-1'' ''2026-09'' demo_advance then recoverable demo_advance else 0) = 60"
    "(if settleable ''ORG-1'' ''EMP-1'' ''2026-09'' demo_advance then cancelled_part demo_advance else 0) = 0"
    by code_simp+
  have "advances demo_ewa = [demo_advance]" by (simp add: demo_ewa_def)
  then show ?thesis
    using settlement_exact [OF demo_ewa_inv _ _ new cur run] run rec by auto
qed

end
