(* ===== verification/EWA_Service.thy ===== *)
theory EWA_Service
  imports Hourly_Pay Dependency Payday_Prediction Settlement
begin

text \<open>
  Earned wage access (\<open>ewa_service.go\<close>): what a worker may draw now and why, and the request
  that draws it. The bank-link provider is not part of the repository's own code paths: its
  \<open>GetTransactions\<close> is the argument \<open>provider\<close> (\<open>None\<close> when none is configured).
\<close>

datatype D2CBankLinkStatus = D2CBankLinkLinked | D2CBankLinkRevoked

record D2CBankLink =
  bl_id :: string
  bl_org :: string
  bl_employee :: string
  bl_provider :: string
  bl_account_ref :: string
  bl_status :: D2CBankLinkStatus
  bl_mandate_ref :: "string option"
  bl_debit_authorized_at :: "time option"
  bl_linked_at :: time
  bl_revoked_at :: "time option"
  bl_last_synced_at :: "time option"

record link_db = pay_db +
  bank_links :: "D2CBankLink list"

definition D2CBankLink_BeforeCreate :: "('z base_db_scheme) \<Rightarrow> D2CBankLink \<Rightarrow> D2CBankLink" where
  "D2CBankLink_BeforeCreate db l = (if bl_id l = [] then l\<lparr>bl_id := fresh_id ''D2CBL-'' db\<rparr> else l)"

type_synonym bank_provider = "(string \<Rightarrow> time \<Rightarrow> Transaction list res) option"

definition d2cTransactionLookback :: int where
  "d2cTransactionLookback = - 6"

definition ConsentTypeD2CBankLinkRead :: string where
  "ConsentTypeD2CBankLinkRead = ''d2c_bank_link_read''"

definition DeclineEWADisabled :: string where "DeclineEWADisabled = ''ewa_disabled''"
definition DeclineBelowMinimum :: string where "DeclineBelowMinimum = ''below_minimum''"
definition DeclineExceedsEarned :: string where "DeclineExceedsEarned = ''exceeds_earned''"
definition DeclineCoolingOff :: string where "DeclineCoolingOff = ''cooling_off''"
definition DeclineDrawLimit :: string where "DeclineDrawLimit = ''draw_limit_reached''"
definition DeclineNoSalaryOnFile :: string where "DeclineNoSalaryOnFile = ''no_salary_on_file''"
definition DeclineInactiveAccount :: string where "DeclineInactiveAccount = ''inactive_account''"
definition DeclineFundingPoolExhausted :: string where "DeclineFundingPoolExhausted = ''funding_pool_exhausted''"
definition DeclineNoIncomeHistory :: string where "DeclineNoIncomeHistory = ''no_income_history''"

definition ErrD2CNoLinkedAccount :: err where
  "ErrD2CNoLinkedAccount = ErrOther ''ewa: d2c worker has no linked bank account''"
definition ErrD2CProviderUnavailable :: err where
  "ErrD2CProviderUnavailable = ErrOther ''ewa: no banklink provider is configured''"
definition ErrD2CConsentWithdrawn :: err where
  "ErrD2CConsentWithdrawn = ErrOther ''ewa: d2c worker's bank-link read consent is not active''"

subsection \<open>Income basis\<close>

definition accruedHourlyToDateTx ::
  "('z time_db_scheme) \<Rightarrow> string \<Rightarrow> string \<Rightarrow> Kobo \<Rightarrow> string \<Rightarrow> time \<Rightarrow> Kobo res" where
  "accruedHourlyToDateTx db orgID employeeID hourlyRate period asOf =
     rbind (SumApprovedMinutes db orgID employeeID period asOf) (\<lambda>minutes.
       Kobo_Percent hourlyRate (word_of_int minutes) 60)"

definition hourlyMonthlyEarningsBasisTx ::
  "('z time_db_scheme) \<Rightarrow> string \<Rightarrow> string \<Rightarrow> Kobo \<Rightarrow> time \<Rightarrow> Kobo res" where
  "hourlyMonthlyEarningsBasisTx db orgID employeeID hourlyRate asOf =
     (let asOfDate = truncateToDay asOf;
          windowStart = AddDate asOfDate 0 0 (- 90);
          upperExclusive = AddDate asOfDate 0 0 1;
          totalMinutes = sum_list (map te_minutes
            (filter (\<lambda>e. te_org e = orgID \<and> te_employee e = employeeID \<and> te_status e = TimeEntryApproved \<and>
                        windowStart \<le> te_work_date e \<and> te_work_date e < upperExclusive) (time_entries db)))
      in rbind (Kobo_Percent hourlyRate (word_of_int totalMinutes) 60) (\<lambda>earned. Kobo_Percent earned 1 3))"

text \<open>The linked account \<open>First\<close> returns: the one with the least identifier.\<close>

definition linked_account :: "('z link_db_scheme) \<Rightarrow> string \<Rightarrow> string \<Rightarrow> D2CBankLink res" where
  "linked_account db orgID employeeID =
     first_by bl_id (\<lambda>l. bl_org l = orgID \<and> bl_employee l = employeeID \<and> bl_status l = D2CBankLinkLinked) (bank_links db)"

definition d2cIncomeBasisTx ::
  "bank_provider \<Rightarrow> time \<Rightarrow> ('z link_db_scheme) \<Rightarrow> string \<Rightarrow> string \<Rightarrow> time \<Rightarrow> (Kobo \<times> Kobo) res" where
  "d2cIncomeBasisTx provider now db orgID employeeID asOf =
     (case provider of
        None \<Rightarrow> Inl ErrD2CProviderUnavailable
      | Some getTransactions \<Rightarrow>
          (case linked_account db orgID employeeID of
             Inl _ \<Rightarrow> Inl ErrD2CNoLinkedAccount
           | Inr link \<Rightarrow>
               if \<not> HasActiveConsent now db (bl_org link) employeeID ConsentTypeD2CBankLinkRead
               then Inl ErrD2CConsentWithdrawn
               else
                 rbind (getTransactions (bl_account_ref link) (AddDate asOf 0 d2cTransactionLookback 0)) (\<lambda>txs.
                 rbind (PredictNextPayday txs asOf) (\<lambda>pred.
                 rbind (d2cAccruedToDate (AverageAmountKobo pred)
                          (AddDate (NextPredictedDate pred) 0 0 (- IntervalDays pred)) (NextPredictedDate pred) asOf) (\<lambda>acc.
                 Inr (AverageAmountKobo pred, acc))))))"

subsection \<open>Draws so far\<close>

definition drawHistoryTx :: "('z ewa_db_scheme) \<Rightarrow> string \<Rightarrow> string \<Rightarrow> time \<Rightarrow> DrawEvent list" where
  "drawHistoryTx db orgID employeeID asOf =
     map (\<lambda>r. \<lparr>draw_at = adv_requested_at r, draw_amount = adv_amount r\<rparr>)
       (filter (\<lambda>r. adv_org r = orgID \<and> adv_employee r = employeeID \<and> asOf - dependencyWindow \<le> adv_requested_at r \<and>
                   adv_status r \<in> {AdvanceApproved, AdvanceDisbursed, AdvanceSettled}) (advances db))"

definition current_period_draws :: "('z ewa_db_scheme) \<Rightarrow> string \<Rightarrow> string \<Rightarrow> string \<Rightarrow> EWAAdvance list" where
  "current_period_draws db orgID employeeID period =
     filter (\<lambda>r. adv_org r = orgID \<and> adv_employee r = employeeID \<and> adv_period r = period \<and>
                 adv_status r \<in> {AdvanceApproved, AdvanceDisbursed, AdvanceSettled}) (advances db)"

definition last_draw_at :: "EWAAdvance list \<Rightarrow> time" where
  "last_draw_at rows = foldl (\<lambda>t r. if t < adv_requested_at r then adv_requested_at r else t) ZeroTime rows"

fun sum_open :: "EWAAdvance list \<Rightarrow> Kobo \<times> Kobo \<Rightarrow> (Kobo \<times> Kobo) res" where
  "sum_open [] acc = Inr acc"
| "sum_open (r # rs) (out, rec) =
     rbind (Kobo_Add out (EWAAdvance_RemainingKobo r)) (\<lambda>out'.
     rbind (if adv_status r = AdvanceDisbursed then Kobo_Add rec (EWAAdvance_RemainingKobo r) else Inr rec)
       (\<lambda>rec'. sum_open rs (out', rec')))"

definition outstandingTx ::
  "('z ewa_db_scheme) \<Rightarrow> string \<Rightarrow> string \<Rightarrow> string \<Rightarrow> (Kobo \<times> Kobo \<times> nat \<times> time) res" where
  "outstandingTx db orgID employeeID period =
     (let current = current_period_draws db orgID employeeID period;
          open_rows = filter (settleable orgID employeeID period) (advances db)
      in rbind (sum_open open_rows (0, 0)) (\<lambda>(out, rec).
         Inr (out, rec, length current, last_draw_at current)))"

definition workerPreferenceTx :: "('z ewa_db_scheme) \<Rightarrow> string \<Rightarrow> string \<Rightarrow> EWAWorkerPreference" where
  "workerPreferenceTx db orgID employeeID =
     (case find_row (\<lambda>p. pref_org p = orgID \<and> pref_employee p = employeeID) (worker_prefs db) of
        Inr p \<Rightarrow> p
      | Inl _ \<Rightarrow> \<lparr>pref_org = orgID, pref_employee = employeeID, pref_protected_minor = 0, pref_last_changed = None\<rparr>)"

text \<open>The \<open>users\<close> table is not under row-level security.\<close>

definition userIDForEmployee :: "('z ewa_db_scheme) \<Rightarrow> string \<Rightarrow> string res" where
  "userIDForEmployee db employeeID =
     rbind (find_row (\<lambda>u. usr_employee u = employeeID) (users db)) (\<lambda>u. Inr (usr_id u))"

definition currentDependencyTierTx ::
  "('z time_db_scheme) \<Rightarrow> string \<Rightarrow> string \<Rightarrow> Employee \<Rightarrow> time \<Rightarrow> DependencyTier res" where
  "currentDependencyTierTx db orgID employeeID emp asOf =
     rbind (if Employee_IsHourly emp then hourlyMonthlyEarningsBasisTx db orgID employeeID (emp_hourly_rate emp) asOf
            else Inr (emp_salary emp)) (\<lambda>monthlySalary.
       Inr (dep_tier (ScoreDependency
         \<lparr>dep_now = asOf, dep_draws = drawHistoryTx db orgID employeeID asOf, dep_salary = monthlySalary,
          dep_last_payday = lastPayday asOf\<rparr>)))"


subsection \<open>Eligibility\<close>

record Eligibility =
  el_employee :: string
  el_period :: string
  el_monthly_salary :: Kobo
  el_accrued :: Kobo
  el_policy_cap :: Kobo
  el_tier_cap :: Kobo
  el_outstanding :: Kobo
  el_available :: Kobo
  el_minimum_draw :: Kobo
  el_projected_payday :: Kobo
  el_projected_if_max :: Kobo
  el_protected_payday :: Kobo
  el_draws :: nat
  el_max_draws :: nat
  el_next_eligible :: "time option"
  el_dependency :: DependencyAssessment
  el_blocked :: bool
  el_blocked_reason :: string
  el_funding_bound :: bool
  el_grant_suggested :: bool

definition initial_eligibility :: "Employee \<Rightarrow> EWAPolicy \<Rightarrow> string \<Rightarrow> Eligibility" where
  "initial_eligibility emp policy period =
     \<lparr>el_employee = emp_id emp, el_period = period, el_monthly_salary = 0, el_accrued = 0, el_policy_cap = 0,
      el_tier_cap = 0, el_outstanding = 0, el_available = 0, el_minimum_draw = pol_min_draw policy,
      el_projected_payday = 0, el_projected_if_max = 0, el_protected_payday = 0, el_draws = 0,
      el_max_draws = pol_max_draws policy, el_next_eligible = None,
      el_dependency = \<lparr>dep_score = 0, dep_tier = TierHealthy, dep_signals = [], dep_reasons = [], dep_nudge = [],
        dep_referral = None\<rparr>,
      el_blocked = False, el_blocked_reason = [], el_funding_bound = False, el_grant_suggested = False\<rparr>"

definition block_with :: "string \<Rightarrow> Eligibility \<Rightarrow> Eligibility" where
  "block_with reason el = el\<lparr>el_blocked := True, el_blocked_reason := reason\<rparr>"

definition no_income_error :: "err \<Rightarrow> bool" where
  "no_income_error e \<longleftrightarrow>
     e \<in> {ErrInsufficientPaydayHistory, ErrD2CNoLinkedAccount, ErrD2CProviderUnavailable, ErrD2CConsentWithdrawn}"

text \<open>The \<open>switch\<close> over the kind of worker: \<open>None\<close> is the early return without income history.\<close>

definition income_basis ::
  "bank_provider \<Rightarrow> time \<Rightarrow> ('z link_db_scheme) \<Rightarrow> string \<Rightarrow> Employee \<Rightarrow> Organization \<Rightarrow> string \<Rightarrow> time
     \<Rightarrow> (Kobo \<times> Kobo) option res" where
  "income_basis provider now db orgID emp org period asOf =
     (if org_is_d2c org then
        (case d2cIncomeBasisTx provider now db orgID (emp_id emp) asOf of
           Inl e \<Rightarrow> if no_income_error e then Inr None else Inl e
         | Inr b \<Rightarrow> Inr (Some b))
      else if Employee_IsHourly emp then
        rbind (hourlyMonthlyEarningsBasisTx db orgID (emp_id emp) (emp_hourly_rate emp) asOf) (\<lambda>basis.
        rbind (accruedHourlyToDateTx db orgID (emp_id emp) (emp_hourly_rate emp) period asOf) (\<lambda>acc.
        Inr (Some (basis, acc))))
      else
        rbind (AccruedToDate (emp_salary emp) period asOf) (\<lambda>acc. Inr (Some (emp_salary emp, acc))))"

definition sub_or_zero :: "Kobo \<Rightarrow> Kobo \<Rightarrow> Kobo" where
  "sub_or_zero a b = (case Kobo_Sub a b of Inl _ \<Rightarrow> 0 | Inr d \<Rightarrow> if Kobo_IsNegative d then 0 else d)"

definition kobo_min :: "Kobo \<Rightarrow> Kobo \<Rightarrow> Kobo" where
  "kobo_min a b = (if b <s a then b else a)"

text \<open>The worker's own floor narrows what is available.\<close>

definition protect_floor :: "Kobo \<Rightarrow> Kobo \<Rightarrow> Kobo \<Rightarrow> Kobo \<Rightarrow> Kobo" where
  "protect_floor earnings protected outstanding available =
     (if Kobo_IsPositive protected
      then kobo_min available (sub_or_zero (sub_or_zero earnings protected) outstanding)
      else available)"

text \<open>Employer funding coverage; the account of the exposure may be opened by the query.\<close>

definition fund_cover ::
  "('z ledger_db_scheme) \<Rightarrow> EWAPolicy \<Rightarrow> string \<Rightarrow> Kobo \<Rightarrow> (Kobo \<times> bool \<times> 'z ledger_db_scheme) res" where
  "fund_cover db policy orgID available =
     (if pol_require_funding policy
      then rbind (FundingExposure db orgID NGN) (\<lambda>(exposure, db').
             if funding_headroom exposure <s available then Inr (funding_headroom exposure, True, db')
             else Inr (available, False, db'))
      else Inr (available, False, db))"

definition project_payday :: "Kobo \<Rightarrow> Kobo \<Rightarrow> Kobo \<Rightarrow> Eligibility \<Rightarrow> Eligibility" where
  "project_payday earnings rec available el =
     (case Kobo_Sub earnings rec of
        Inl _ \<Rightarrow> el
      | Inr projected \<Rightarrow>
          if Kobo_IsNegative projected then el
          else
            let el1 = el\<lparr>el_projected_payday := projected\<rparr>
            in case Kobo_Sub projected available of
                 Inl _ \<Rightarrow> el1
               | Inr worst \<Rightarrow> if Kobo_IsNegative worst then el1 else el1\<lparr>el_projected_if_max := worst\<rparr>)"

text \<open>The velocity guardrails and the minimum draw, in the order of the code.\<close>

definition velocity_gate :: "EWAPolicy \<Rightarrow> time \<Rightarrow> time \<Rightarrow> Eligibility \<Rightarrow> Eligibility" where
  "velocity_gate policy asOf lastDrawAt el =
     (let tier = dep_tier (el_dependency el);
          ready = lastDrawAt + TierCoolingOff tier policy
      in if pol_max_draws policy \<le> el_draws el then
           (block_with DeclineDrawLimit el)\<lparr>el_next_eligible := Some (firstOfNextPeriod asOf),
              el_grant_suggested := (tier = TierStrained \<or> tier = TierDependent)\<rparr>
         else if lastDrawAt \<noteq> ZeroTime \<and> asOf < ready then
           (block_with DeclineCoolingOff el)\<lparr>el_next_eligible := Some ready\<rparr>
         else if el_available el <s pol_min_draw policy then
           block_with (if el_funding_bound el then DeclineFundingPoolExhausted else DeclineExceedsEarned) el
         else el)"

text \<open>The dependency signal, with the counselling referral of the policy.\<close>

definition assess_worker ::
  "('z ewa_db_scheme) \<Rightarrow> string \<Rightarrow> string \<Rightarrow> EWAPolicy \<Rightarrow> time \<Rightarrow> Kobo \<Rightarrow> DependencyAssessment" where
  "assess_worker db orgID employeeID policy asOf basis =
     (let a = ScoreDependency
        \<lparr>dep_now = asOf, dep_draws = drawHistoryTx db orgID employeeID asOf, dep_salary = basis,
         dep_last_payday = lastPayday asOf\<rparr>
      in a\<lparr>dep_referral := TierCounsellingReferral (dep_tier a) policy\<rparr>)"

definition eligibility_from_income ::
  "('z link_db_scheme) \<Rightarrow> string \<Rightarrow> Employee \<Rightarrow> Organization \<Rightarrow> EWAPolicy \<Rightarrow> time \<Rightarrow> Kobo \<Rightarrow> Kobo \<Rightarrow> Eligibility
     \<Rightarrow> (Eligibility \<times> 'z link_db_scheme) res" where
  "eligibility_from_income db orgID emp org policy asOf basis accrued el0 =
     (let earnings = (if Employee_IsHourly emp \<or> org_is_d2c org then accrued else emp_salary emp)
      in rbind (Kobo_Percent accrued (pol_max_accrual_pct policy) 100) (\<lambda>share.
         let policyCap = kobo_min share (pol_absolute_cap policy);
             assessment = assess_worker db orgID (emp_id emp) policy asOf basis;
             tierCap = TierCap (dep_tier assessment) policyCap policy
         in rbind (outstandingTx db orgID (emp_id emp) (el_period el0)) (\<lambda>(out, rec, draws, lastDrawAt).
            let protected = ProtectedPayday (workerPreferenceTx db orgID (emp_id emp))
            in rbind (fund_cover db policy orgID (protect_floor earnings protected out (sub_or_zero tierCap out)))
                 (\<lambda>(available, bound, db').
               Inr (velocity_gate policy asOf lastDrawAt
                      (project_payday earnings rec available
                        (el0\<lparr>el_monthly_salary := basis, el_accrued := accrued, el_policy_cap := policyCap,
                             el_dependency := assessment, el_tier_cap := tierCap, el_outstanding := out,
                             el_draws := draws, el_protected_payday := protected, el_funding_bound := bound,
                             el_available := available\<rparr>)), db')))))"

definition no_pay_on_file :: "Employee \<Rightarrow> Organization \<Rightarrow> bool" where
  "no_pay_on_file emp org \<longleftrightarrow>
     \<not> org_is_d2c org \<and>
     (if Employee_IsHourly emp then \<not> Kobo_IsPositive (emp_hourly_rate emp) else \<not> Kobo_IsPositive (emp_salary emp))"

definition eligibilityTx ::
  "bank_provider \<Rightarrow> time \<Rightarrow> ('z link_db_scheme) \<Rightarrow> string \<Rightarrow> string \<Rightarrow> time \<Rightarrow> (Eligibility \<times> 'z link_db_scheme) res" where
  "eligibilityTx provider now db orgID employeeID asOf =
     rbind (find_row (\<lambda>e. emp_id e = employeeID \<and> emp_org e = orgID) (employees db)) (\<lambda>emp.
     rbind (find_row (\<lambda>o1. org_id o1 = orgID) (organizations db)) (\<lambda>org.
     rbind (policyTx db orgID) (\<lambda>policy.
       let el = initial_eligibility emp policy (format_period asOf)
       in if \<not> pol_enabled policy then Inr (block_with DeclineEWADisabled el, db)
          else if \<not> emp_active emp then Inr (block_with DeclineInactiveAccount el, db)
          else if no_pay_on_file emp org then Inr (block_with DeclineNoSalaryOnFile el, db)
          else
            rbind (income_basis provider now db orgID emp org (format_period asOf) asOf) (\<lambda>income.
              case income of
                None \<Rightarrow> Inr (block_with DeclineNoIncomeHistory el, db)
              | Some (basis, accrued) \<Rightarrow>
                  eligibility_from_income db orgID emp org policy asOf basis accrued el))))"

definition GetEligibility ::
  "bank_provider \<Rightarrow> time \<Rightarrow> ('z link_db_scheme) \<Rightarrow> string \<Rightarrow> string \<Rightarrow> time \<Rightarrow> Eligibility res \<times> ('z link_db_scheme)" where
  "GetEligibility provider now db orgID employeeID asOf =
     WithOrgScope db (\<lambda>db. eligibilityTx provider now db orgID employeeID asOf)"


subsection \<open>Requesting an advance\<close>

text \<open>The row constraints of \<open>ewa_advances\<close>: amount, evidence, and one row per idempotency key.\<close>

definition insert_advance :: "EWAAdvance \<Rightarrow> EWAAdvance list \<Rightarrow> EWAAdvance list res" where
  "insert_advance a rows =
     (if \<not> 0 <s adv_amount a \<or> adv_accrued a <s 0 \<or> adv_available a <s 0 then Inl ErrCheckViolation
      else if adv_key a \<noteq> None \<and>
        list_ex (\<lambda>r. adv_org r = adv_org a \<and> adv_employee r = adv_employee a \<and> adv_key r = adv_key a) rows
      then Inl ErrUniqueViolation
      else insert_row adv_id a rows)"

definition postAdvanceLedger ::
  "('z ewa_db_scheme) \<Rightarrow> string \<Rightarrow> string \<Rightarrow> EWAAdvance \<Rightarrow> ('z ewa_db_scheme) res" where
  "postAdvanceLedger db orgID employeeID adv =
     rbind (OrgCurrencyTx db orgID) (\<lambda>currency.
     rbind (EnsureAccount db orgID employeeID AccountAdvanceReceivable currency) (\<lambda>(receivable, db1).
     rbind (EnsureAccount db1 orgID [] AccountCashSettlement currency) (\<lambda>(cash, db2).
     rbind (PostTransaction db2 (pair_request orgID ''ewa_advance'' (adv_id adv) (advance_key (adv_id adv))
              (acc_id receivable) (acc_id cash) (KoboIn currency (adv_amount adv)))) (\<lambda>(_, db3).
     Inr db3))))"

definition decline_reason_for :: "Eligibility \<Rightarrow> Kobo \<Rightarrow> string" where
  "decline_reason_for el amount =
     (if el_blocked el then el_blocked_reason el
      else if amount <s el_minimum_draw el then DeclineBelowMinimum
      else if el_available el <s amount \<and> el_funding_bound el then DeclineFundingPoolExhausted
      else if el_available el <s amount then DeclineExceedsEarned
      else [])"

definition advance_record ::
  "time \<Rightarrow> string \<Rightarrow> string \<Rightarrow> Kobo \<Rightarrow> string \<Rightarrow> string res \<Rightarrow> Eligibility \<Rightarrow> EWAAdvance" where
  "advance_record now orgID employeeID amount key user el =
     \<lparr>adv_id = [], adv_org = orgID, adv_employee = employeeID,
      adv_user = (case user of Inr uid \<Rightarrow> if uid \<noteq> [] then Some uid else None | Inl _ \<Rightarrow> None),
      adv_period = el_period el, adv_amount = amount, adv_fee = 0, adv_status = AdvanceRequested,
      adv_recovered = 0, adv_accrued = el_accrued el, adv_available = el_available el,
      adv_score = dep_score (el_dependency el), adv_tier = dep_tier (el_dependency el), adv_decline_reason = [],
      adv_key = (if key \<noteq> [] then Some key else None), adv_settled_item = None, adv_provider = None,
      adv_provider_ref = None, adv_requested_at = now, adv_disbursed_at = None, adv_settled_at = None,
      adv_updated_at = now\<rparr>"

definition create_advance ::
  "time \<Rightarrow> ('z ewa_db_scheme) \<Rightarrow> EWAAdvance \<Rightarrow> (EWAAdvance \<times> 'z ewa_db_scheme) res" where
  "create_advance now db r =
     (let a = EWAAdvance_BeforeCreate now db r
      in rbind (insert_advance a (advances db)) (\<lambda>rows. Inr (a, (take_uuid db)\<lparr>advances := rows\<rparr>)))"

text \<open>The body of the transaction: a replay, a recorded decline, or an approval.\<close>

definition request_body ::
  "bank_provider \<Rightarrow> time \<Rightarrow> ('z link_db_scheme) \<Rightarrow> string \<Rightarrow> string \<Rightarrow> Kobo \<Rightarrow> string \<Rightarrow> string
     \<Rightarrow> ((EWAAdvance \<times> Eligibility option) \<times> 'z link_db_scheme) res" where
  "request_body provider now db orgID employeeID amount key actorIP =
     (case (if key = [] then Inl ErrRecordNotFound
            else find_row (\<lambda>a. adv_org a = orgID \<and> adv_employee a = employeeID \<and> adv_key a = Some key) (advances db)) of
        Inr existing \<Rightarrow> Inr ((existing, None), db)
      | Inl _ \<Rightarrow>
          rbind (eligibilityTx provider now db orgID employeeID now) (\<lambda>(el, db1).
          let r = advance_record now orgID employeeID amount key (userIDForEmployee db1 employeeID) el;
              reason = decline_reason_for el amount
          in if reason \<noteq> [] then
               rbind (create_advance now db1 (r\<lparr>adv_status := AdvanceDeclined, adv_decline_reason := reason\<rparr>)) (\<lambda>(a, db2).
               rbind (AppendAuditTx db2 orgID ''EWAAdvance'' (adv_id a) ''declined'' [] reason actorIP []) (\<lambda>db3.
               Inr ((a, Some el), db3)))
             else
               rbind (create_advance now db1 (r\<lparr>adv_status := AdvanceApproved\<rparr>)) (\<lambda>(a, db2).
               rbind (postAdvanceLedger db2 orgID employeeID a) (\<lambda>db3.
               rbind (AppendAuditTx db3 orgID ''EWAAdvance'' (adv_id a) ''approved'' [] (Kobo_String amount) actorIP []) (\<lambda>db4.
               Inr ((a, Some el), db4))))))"

text \<open>
  The whole call: the result is the advance with the eligibility, or the error (a recorded
  decline is the error \<open>ErrAdvanceDeclined\<close>). The disbursement is enqueued after the commit
  while the advance is approved and not yet submitted; a failing queue only counts a metric.
\<close>

definition RequestAdvance ::
  "bank_provider \<Rightarrow> bool \<Rightarrow> time \<Rightarrow> ('z link_db_scheme) \<Rightarrow> string \<Rightarrow> string \<Rightarrow> Kobo \<Rightarrow> string \<Rightarrow> string
     \<Rightarrow> (EWAAdvance \<times> Eligibility option) res \<times> ('z link_db_scheme)" where
  "RequestAdvance provider enqueue_ok now db orgID employeeID amount key actorIP =
     (case WithOrgScope db (\<lambda>db. request_body provider now db orgID employeeID amount key actorIP) of
        (Inl e, db') \<Rightarrow> (Inl e, db')
      | (Inr (a, el), db') \<Rightarrow>
          if adv_status a = AdvanceDeclined then (Inl (ErrAdvanceDeclined (adv_decline_reason a)), db')
          else if adv_status a = AdvanceApproved \<and> adv_provider_ref a = None \<and> enqueue_ok
          then (Inr (a, el), db'\<lparr>tasks := tasks db' @ [TaskDisburseAdvance orgID (adv_id a)]\<rparr>)
          else (Inr (a, el), db'))"

subsection \<open>The protected payday\<close>

definition SetProtectedPayday ::
  "('z ewa_db_scheme) \<Rightarrow> string \<Rightarrow> string \<Rightarrow> Kobo \<Rightarrow> time \<Rightarrow> EWAWorkerPreference res \<times> ('z ewa_db_scheme)" where
  "SetProtectedPayday db orgID employeeID amount now = WithOrgScope db (\<lambda>db.
     let current = workerPreferenceTx db orgID employeeID
     in rbind (policyTx db orgID) (\<lambda>policy.
          if amount <s ProtectedPayday current \<and>
             (case pref_last_changed current of
                None \<Rightarrow> False
              | Some changed \<Rightarrow> now < changed + cooling_off policy)
          then Inl ErrFloorLoweringRateLimited
          else if amount <s 0 \<or> count_where (\<lambda>e. emp_id e = employeeID) (employees db) = 0 then Inl ErrCheckViolation
          else
            let updated = \<lparr>pref_org = orgID, pref_employee = employeeID, pref_protected_minor = amount,
                           pref_last_changed = Some now\<rparr>
            in Inr (updated, db\<lparr>worker_prefs :=
                 upsert (\<lambda>p. (pref_org p, pref_employee p)) updated (worker_prefs db)\<rparr>)))"

subsection \<open>Library\<close>

lemma Kobo_Percent_Inr:
  assumes "Kobo_Percent k n d = Inr q" "0 < sint d" "sint d \<le> 2 ^ 62" "0 \<le> sint k"
  shows "rounds_half_even (sint k * sint n) (sint d) (sint q)"
proof -
  have "\<exists>s. Kobo_MulInt k n = Inr s" using assms(1) by (auto simp: Kobo_Percent_def go_results split: if_splits)
  moreover have "k \<noteq> MinInt64" using assms(4) by auto
  ultimately have "in64 (sint k * sint n)" by (auto simp: Kobo_MulInt_exact split: if_splits)
  then show ?thesis using Kobo_Percent_rounds [OF assms(2,3)] assms(1) by fastforce
qed

lemma sub_or_zero: "0 \<le> sint b \<Longrightarrow> sint (sub_or_zero a b) = (if in64 (sint a - sint b) then max 0 (sint a - sint b) else 0)"
  by (auto simp: sub_or_zero_def Kobo_Sub_exact go_simps sless_sint)

lemma sub_or_zero_bounds:
  assumes "0 \<le> sint b"
  shows "0 \<le> sint (sub_or_zero a b)" "0 < sint (sub_or_zero a b) \<Longrightarrow> sint (sub_or_zero a b) = sint a - sint b"
  using assms by (auto simp: sub_or_zero max_def split: if_splits)

lemma kobo_min: "sint (kobo_min a b) = min (sint a) (sint b)"
  by (simp add: kobo_min_def sless_sint)

lemma sum_open_Inr:
  assumes "sum_open rs (out, rec) = Inr (out', rec')" "list_all advance_ok rs"
  shows "sint out' = sint out + sum_list (map (\<lambda>r. sint (adv_amount r) - sint (adv_recovered r)) rs)"
  using assms
proof (induction rs arbitrary: out rec)
  case (Cons r rs)
  then obtain out1 rec1 where "Kobo_Add out (EWAAdvance_RemainingKobo r) = Inr out1" "sum_open rs (out1, rec1) = Inr (out', rec')"
    by (auto simp: rbind_eq_Inr)
  moreover have "sint (EWAAdvance_RemainingKobo r) = sint (adv_amount r) - sint (adv_recovered r)"
    using Cons.prems(2) RemainingKobo_ok [of r] by simp
  ultimately show ?case using Cons.IH [of out1 rec1] Cons.prems(2) by (auto simp: Kobo_Add_Inr)
qed simp

definition outstanding_of :: "('z ewa_db_scheme) \<Rightarrow> string \<Rightarrow> string \<Rightarrow> string \<Rightarrow> int" where
  "outstanding_of db orgID emp period =
     sum_list (map (\<lambda>r. sint (adv_amount r) - sint (adv_recovered r)) (filter (settleable orgID emp period) (advances db)))"

lemma outstandingTx_Inr:
  assumes "outstandingTx db orgID emp period = Inr (out, rec, draws, l)" "ewa_inv db"
  shows "sint out = outstanding_of db orgID emp period" "0 \<le> sint out"
    "draws = length (current_period_draws db orgID emp period)"
    "l = last_draw_at (current_period_draws db orgID emp period)"
proof -
  have "sum_open (filter (settleable orgID emp period) (advances db)) (0, 0) = Inr (out, rec)"
    using assms(1) by (auto simp: outstandingTx_def Let_def rbind_eq_Inr)
  moreover have ok: "list_all advance_ok (filter (settleable orgID emp period) (advances db))"
    using assms(2) by (auto simp: ewa_inv_def list_all_iff)
  ultimately show "sint out = outstanding_of db orgID emp period" using sum_open_Inr by (fastforce simp: outstanding_of_def)
  then show "0 \<le> sint out" using ok by (auto simp: outstanding_of_def list_all_iff advance_ok_def intro!: sum_list_nonneg)
qed (use assms(1) in \<open>auto simp: outstandingTx_def Let_def rbind_eq_Inr\<close>)

lemma last_draw_at_ge: "r \<in> set rows \<Longrightarrow> adv_requested_at r \<le> last_draw_at rows"
proof -
  let ?f = "\<lambda>t r. if t < adv_requested_at r then adv_requested_at r else t"
  have acc: "t \<le> foldl ?f t rows" for t rows
  proof (induction rows arbitrary: t)
    case (Cons x rows) show ?case using order_trans [OF _ Cons.IH [of "?f t x"], of t] by (simp split: if_splits)
  qed simp
  have "adv_requested_at r \<le> foldl ?f t rows" if "r \<in> set rows" for t using that
  proof (induction rows arbitrary: t)
    case (Cons x rows) then show ?case using acc [of "?f t x" rows] by (auto split: if_splits)
  qed simp
  then show "r \<in> set rows \<Longrightarrow> adv_requested_at r \<le> last_draw_at rows" by (simp add: last_draw_at_def)
qed

text \<open>What the constraints of \<open>ewa_policies\<close> guarantee, and a cap that can be halved.\<close>

definition policy_ok :: "EWAPolicy \<Rightarrow> bool" where
  "policy_ok p \<longleftrightarrow>
     1 \<le> sint (pol_max_accrual_pct p) \<and> sint (pol_max_accrual_pct p) \<le> 100 \<and>
     0 < sint (pol_absolute_cap p) \<and> 50 * sint (pol_absolute_cap p) < 2 ^ 63 \<and>
     0 < sint (pol_min_draw p) \<and> 0 \<le> sint (pol_emergency_floor p)"

lemma TierCap_le:
  assumes "0 \<le> sint cap" "50 * sint cap < 2 ^ 63" "0 \<le> sint (pol_emergency_floor p)"
  shows "sint (TierCap tier cap p) \<le> sint cap"
proof (cases tier)
  case TierStrained
  have "in64 (sint cap * sint (50 :: int64))" using assms by (intro in64_I) simp_all
  from Kobo_Percent_within [OF _ _ assms(1) _ _ this, of 100]
  obtain h where "Kobo_Percent cap 50 100 = Inr h" "sint h \<le> sint cap" by auto
  then show ?thesis using TierStrained by (simp add: TierCap_def sless_sint)
qed (simp_all add: TierCap_def sless_sint)

lemma velocity_gate_simps:
  "el_available (velocity_gate p asOf l el) = el_available el"
  "el_outstanding (velocity_gate p asOf l el) = el_outstanding el"
  "el_tier_cap (velocity_gate p asOf l el) = el_tier_cap el"
  "el_policy_cap (velocity_gate p asOf l el) = el_policy_cap el"
  "el_accrued (velocity_gate p asOf l el) = el_accrued el"
  "el_draws (velocity_gate p asOf l el) = el_draws el"
  "el_minimum_draw (velocity_gate p asOf l el) = el_minimum_draw el"
  "el_protected_payday (velocity_gate p asOf l el) = el_protected_payday el"
  "el_period (velocity_gate p asOf l el) = el_period el"
  "el_dependency (velocity_gate p asOf l el) = el_dependency el"
  by (simp_all add: velocity_gate_def Let_def block_with_def)

lemma project_payday_simps:
  "el_available (project_payday e r a el) = el_available el"
  "el_outstanding (project_payday e r a el) = el_outstanding el"
  "el_tier_cap (project_payday e r a el) = el_tier_cap el"
  "el_policy_cap (project_payday e r a el) = el_policy_cap el"
  "el_accrued (project_payday e r a el) = el_accrued el"
  "el_draws (project_payday e r a el) = el_draws el"
  "el_minimum_draw (project_payday e r a el) = el_minimum_draw el"
  "el_protected_payday (project_payday e r a el) = el_protected_payday el"
  "el_blocked (project_payday e r a el) = el_blocked el"
  "el_period (project_payday e r a el) = el_period el"
  "el_dependency (project_payday e r a el) = el_dependency el"
  by (simp_all add: project_payday_def Let_def split: sum.split)

lemmas eligibility_simps = velocity_gate_simps project_payday_simps

lemma velocity_gate_open:
  assumes "\<not> el_blocked (velocity_gate p asOf l el)"
  shows "el_draws el < pol_max_draws p" "sint (pol_min_draw p) \<le> sint (el_available el)"
    "l \<noteq> ZeroTime \<Longrightarrow> l + TierCoolingOff (dep_tier (el_dependency el)) p \<le> asOf"
  using assms by (auto simp: velocity_gate_def Let_def block_with_def sless_sint split: if_splits)

lemma protect_floor_bounds:
  assumes "0 \<le> sint prot" "0 \<le> sint out"
  shows "sint (protect_floor earn prot out av) \<le> sint av"
    "0 < sint prot \<Longrightarrow> 0 < sint (protect_floor earn prot out av) \<Longrightarrow>
       sint prot + sint out + sint (protect_floor earn prot out av) \<le> sint earn"
proof -
  let ?s = "sub_or_zero earn prot"
  show "sint (protect_floor earn prot out av) \<le> sint av" by (simp add: protect_floor_def kobo_min)
  assume p: "0 < sint prot" "0 < sint (protect_floor earn prot out av)"
  then have f: "sint (protect_floor earn prot out av) = min (sint av) (sint (sub_or_zero ?s out))"
    by (simp add: protect_floor_def go_simps sless_sint kobo_min)
  then have pos: "0 < sint (sub_or_zero ?s out)" using p by simp
  then have "sint (sub_or_zero ?s out) = sint ?s - sint out" using sub_or_zero_bounds(2) [OF assms(2)] by blast
  moreover from this pos have "0 < sint ?s" using assms by linarith
  then have "sint ?s = sint earn - sint prot" using sub_or_zero_bounds(2) [OF assms(1)] by blast
  ultimately show "sint prot + sint out + sint (protect_floor earn prot out av) \<le> sint earn" using f by simp
qed

lemma fund_cover_Inr:
  assumes "ewa_inv db" "fund_cover db policy orgID av = Inr (av', bound, db')"
  shows "sint av' \<le> sint av \<and> ewa_inv db' \<and> ledger_frame db db' \<and> ledger_balance db' = ledger_balance db \<and>
    posted db' = posted db \<and>
    (pol_require_funding policy \<longrightarrow> sint av' \<le> max 0 (ledger_balance db (cash_of orgID NGN)))"
proof (cases "pol_require_funding policy")
  case True
  then obtain m where f: "FundingExposure db orgID NGN = Inr (m, db')"
    and av: "av' = (if funding_headroom m <s av then funding_headroom m else av)"
    using assms(2) by (auto simp: fund_cover_def rbind_eq_Inr split: if_splits)
  have "ledger_inv db" using assms(1) by (simp add: ewa_inv_def)
  note F = FundingExposure_Inr [OF this f]
  have "sint (funding_headroom m) = max 0 (ledger_balance db (cash_of orgID NGN))"
    using F funding_headroom_exact [of m] by auto
  moreover have "ewa_inv db'" using F assms(1) ledger_frame_ewa(1,11) [of db db'] by (simp add: ewa_inv_def)
  ultimately show ?thesis using F av by (auto simp: sless_sint)
next
  case False
  then show ?thesis using assms by (simp add: fund_cover_def)
qed

lemmas decline_defs = DeclineEWADisabled_def DeclineBelowMinimum_def DeclineExceedsEarned_def DeclineCoolingOff_def
  DeclineDrawLimit_def DeclineNoSalaryOnFile_def DeclineInactiveAccount_def DeclineFundingPoolExhausted_def
  DeclineNoIncomeHistory_def

lemma eligibility_from_income_Inr:
  assumes "eligibility_from_income db orgID emp org policy asOf basis accrued el0 = Inr (el, db')"
  obtains share out rec draws l av bound where
    "Kobo_Percent accrued (pol_max_accrual_pct policy) 100 = Inr share"
    "outstandingTx db orgID (emp_id emp) (el_period el0) = Inr (out, rec, draws, l)"
    "fund_cover db policy orgID
       (protect_floor (if Employee_IsHourly emp \<or> org_is_d2c org then accrued else emp_salary emp)
          (ProtectedPayday (workerPreferenceTx db orgID (emp_id emp))) out
          (sub_or_zero (TierCap (dep_tier (assess_worker db orgID (emp_id emp) policy asOf basis))
             (kobo_min share (pol_absolute_cap policy)) policy) out)) = Inr (av, bound, db')"
    "el = velocity_gate policy asOf l
       (project_payday (if Employee_IsHourly emp \<or> org_is_d2c org then accrued else emp_salary emp) rec av
          (el0\<lparr>el_monthly_salary := basis, el_accrued := accrued,
             el_policy_cap := kobo_min share (pol_absolute_cap policy),
             el_dependency := assess_worker db orgID (emp_id emp) policy asOf basis,
             el_tier_cap := TierCap (dep_tier (assess_worker db orgID (emp_id emp) policy asOf basis))
               (kobo_min share (pol_absolute_cap policy)) policy,
             el_outstanding := out, el_draws := draws,
             el_protected_payday := ProtectedPayday (workerPreferenceTx db orgID (emp_id emp)),
             el_funding_bound := bound, el_available := av\<rparr>))"
  using assms by (auto simp: eligibility_from_income_def Let_def rbind_eq_Inr)

lemma eligibility_from_income_blocked:
  assumes "eligibility_from_income db orgID emp org policy asOf basis accrued el0 = Inr (el, db')"
    "\<not> el_blocked el0" "el_blocked el"
  shows "el_blocked_reason el \<noteq> []"
proof -
  have "el_blocked_reason (velocity_gate p a l e) \<noteq> []" if "el_blocked (velocity_gate p a l e)" "\<not> el_blocked e" for p a l e
    using that by (auto simp: velocity_gate_def Let_def block_with_def decline_defs split: if_splits)
  note v = this
  from assms(1) show ?thesis
    by (rule eligibility_from_income_Inr) (use assms(2,3) v in \<open>simp add: project_payday_simps\<close>)
qed

lemma initial_eligibility_simps [simp]:
  "el_period (initial_eligibility emp policy period) = period" "\<not> el_blocked (initial_eligibility emp policy period)"
  by (simp_all add: initial_eligibility_def)

text \<open>A gate that is open was reached through the income computation.\<close>

lemma eligibilityTx_open:
  assumes "eligibilityTx provider now db orgID employeeID asOf = Inr (el, db')" "\<not> el_blocked el"
    "find_row (\<lambda>e. emp_id e = employeeID \<and> emp_org e = orgID) (employees db) = Inr emp"
    "find_row (\<lambda>o1. org_id o1 = orgID) (organizations db) = Inr org" "policyTx db orgID = Inr policy"
  obtains basis accrued where "eligibility_from_income db orgID emp org policy asOf basis accrued
      (initial_eligibility emp policy (format_period asOf)) = Inr (el, db')" "pol_enabled policy" "emp_active emp"
  using assms by (auto simp: eligibilityTx_def rbind_eq_Inr Let_def block_with_def split: if_splits option.splits)

lemma eligibilityTx_blocked_reason:
  assumes "eligibilityTx provider now db orgID employeeID asOf = Inr (el, db')" "el_blocked el"
  shows "el_blocked_reason el \<noteq> []"
  using assms(1)
  by (auto simp: eligibilityTx_def rbind_eq_Inr Let_def block_with_def decline_defs split: if_splits option.splits
      dest!: eligibility_from_income_blocked [OF _ _ assms(2)])

text \<open>What an open gate promises.\<close>

definition within_limits ::
  "('z link_db_scheme) \<Rightarrow> string \<Rightarrow> Employee \<Rightarrow> Organization \<Rightarrow> EWAPolicy \<Rightarrow> time \<Rightarrow> Eligibility \<Rightarrow> int \<Rightarrow> bool" where
  "within_limits db orgID emp org policy now el m \<longleftrightarrow>
     (let out = outstanding_of db orgID (emp_id emp) (format_period now);
          drawn = current_period_draws db orgID (emp_id emp) (format_period now);
          floor = sint (ProtectedPayday (workerPreferenceTx db orgID (emp_id emp)));
          earnings = (if Employee_IsHourly emp \<or> org_is_d2c org then sint (el_accrued el) else sint (emp_salary emp))
      in m + out \<le> sint (el_tier_cap el) \<and> sint (el_tier_cap el) \<le> sint (el_policy_cap el) \<and>
         sint (el_policy_cap el) \<le> sint (pol_absolute_cap policy) \<and>
         100 * sint (el_policy_cap el) \<le> sint (pol_max_accrual_pct policy) * sint (el_accrued el) + 50 \<and>
         length drawn < pol_max_draws policy \<and>
         (\<forall>r \<in> set drawn. ZeroTime < adv_requested_at r \<longrightarrow>
            adv_requested_at r + TierCoolingOff (dep_tier (el_dependency el)) policy \<le> now) \<and>
         (0 < floor \<longrightarrow> floor + out + m \<le> earnings) \<and>
         (pol_require_funding policy \<longrightarrow> m \<le> ledger_balance db (cash_of orgID NGN)))"

lemma income_within_limits:
  assumes inv: "ewa_inv db" and pol: "policy_ok policy"
    and prot: "0 \<le> sint (ProtectedPayday (workerPreferenceTx db orgID (emp_id emp)))"
    and e: "eligibility_from_income db orgID emp org policy asOf basis accrued
      (initial_eligibility emp policy (format_period asOf)) = Inr (el, db')"
    and op: "\<not> el_blocked el" and acc: "0 \<le> sint (el_accrued el)" and m: "0 < m" "m \<le> sint (el_available el)"
  shows "within_limits db orgID emp org policy asOf el m"
proof -
  let ?E = "if Employee_IsHourly emp \<or> org_is_d2c org then accrued else emp_salary emp"
  let ?prot = "ProtectedPayday (workerPreferenceTx db orgID (emp_id emp))"
  define assessment where "assessment = assess_worker db orgID (emp_id emp) policy asOf basis"
  obtain share out rec draws l av bound where
    share: "Kobo_Percent accrued (pol_max_accrual_pct policy) 100 = Inr share"
    and ot: "outstandingTx db orgID (emp_id emp) (format_period asOf) = Inr (out, rec, draws, l)"
    and fc: "fund_cover db policy orgID (protect_floor ?E ?prot out
       (sub_or_zero (TierCap (dep_tier assessment) (kobo_min share (pol_absolute_cap policy)) policy) out)) = Inr (av, bound, db')"
    and el: "el = velocity_gate policy asOf l (project_payday ?E rec av
       ((initial_eligibility emp policy (format_period asOf))\<lparr>el_monthly_salary := basis, el_accrued := accrued,
         el_policy_cap := kobo_min share (pol_absolute_cap policy), el_dependency := assessment,
         el_tier_cap := TierCap (dep_tier assessment) (kobo_min share (pol_absolute_cap policy)) policy,
         el_outstanding := out, el_draws := draws, el_protected_payday := ?prot, el_funding_bound := bound,
         el_available := av\<rparr>))"
    using that by (rule eligibility_from_income_Inr [OF e, unfolded initial_eligibility_simps, folded assessment_def])
  let ?cap = "kobo_min share (pol_absolute_cap policy)"
  let ?tier = "TierCap (dep_tier assessment) ?cap policy"
  let ?free = "protect_floor ?E ?prot out (sub_or_zero ?tier out)"
  have els: "el_accrued el = accrued" "el_policy_cap el = ?cap" "el_tier_cap el = ?tier" "el_available el = av"
    "el_dependency el = assessment"
    by (simp_all add: el eligibility_simps)
  note O = outstandingTx_Inr [OF ot inv]
  note gate = velocity_gate_open [OF op [unfolded el], unfolded eligibility_simps, simplified]
  have "rounds_half_even (sint accrued * sint (pol_max_accrual_pct policy)) (sint (100 :: int64)) (sint share)"
    using acc els by (intro Kobo_Percent_Inr [OF share]) simp_all
  then have sh: "100 * sint share \<le> sint (pol_max_accrual_pct policy) * sint accrued + 50"
    by (auto simp: rounds_half_even_def mult.commute)
  have sh0: "0 \<le> sint share"
  proof -
    have "0 \<le> sint accrued * sint (pol_max_accrual_pct policy)" using acc els pol by (simp add: policy_ok_def)
    moreover have "rounds_half_even (0 * 100) 100 0" by (simp add: rounds_half_even_def)
    ultimately show ?thesis
      using rounds_half_even_mono [of 100 0 0 "sint accrued * sint (pol_max_accrual_pct policy)" "sint share"] Kobo_Percent_Inr [OF share] acc els by simp
  qed
  have cap: "0 \<le> sint ?cap" "sint ?cap \<le> sint (pol_absolute_cap policy)" "sint ?cap \<le> sint share"
    using sh0 pol by (simp_all add: kobo_min policy_ok_def)
  have tier: "sint ?tier \<le> sint ?cap" using cap pol by (intro TierCap_le) (auto simp: policy_ok_def)
  note F = fund_cover_Inr [OF inv fc]
  have free: "m \<le> sint ?free" using m F els by simp
  have "m \<le> sint (sub_or_zero ?tier out)" using free protect_floor_bounds(1) [OF prot O(2), of ?E "sub_or_zero ?tier out"] by simp
  then have t: "m + sint out \<le> sint ?tier"
    using m(1) sub_or_zero_bounds(2) [OF O(2), of ?tier] by simp
  have f: "0 < sint ?prot \<Longrightarrow> sint ?prot + sint out + m \<le> sint ?E"
    using protect_floor_bounds(2) [OF prot O(2), of ?E "sub_or_zero ?tier out"] free m(1) by simp
  have cool: "adv_requested_at r + TierCoolingOff (dep_tier assessment) policy \<le> asOf"
    if "r \<in> set (current_period_draws db orgID (emp_id emp) (format_period asOf))" "ZeroTime < adv_requested_at r" for r
    using last_draw_at_ge [OF that(1)] that(2) gate(3) O(4) by (cases "l = ZeroTime") auto
  have "pol_require_funding policy \<Longrightarrow> m \<le> ledger_balance db (cash_of orgID NGN)"
    using F m els by auto
  then show ?thesis
    using t tier cap sh f cool gate(1) O unfolding within_limits_def Let_def els by (auto split: if_splits)
qed

lemma insert_advance_Inr:
  "insert_advance a rows = Inr rows' \<longleftrightarrow>
     0 < sint (adv_amount a) \<and> 0 \<le> sint (adv_accrued a) \<and> 0 \<le> sint (adv_available a) \<and>
     (adv_key a = None \<or> (\<forall>r \<in> set rows. \<not> (adv_org r = adv_org a \<and> adv_employee r = adv_employee a \<and> adv_key r = adv_key a))) \<and>
     adv_id a \<notin> adv_id ` set rows \<and> rows' = rows @ [a]"
  by (auto simp: insert_advance_def sless_sint insert_row_Inr list_ex_iff)

lemma BeforeCreate_advance_simps [simp]:
  "adv_org (EWAAdvance_BeforeCreate now db a) = adv_org a" "adv_employee (EWAAdvance_BeforeCreate now db a) = adv_employee a"
  "adv_amount (EWAAdvance_BeforeCreate now db a) = adv_amount a" "adv_status (EWAAdvance_BeforeCreate now db a) = adv_status a"
  "adv_recovered (EWAAdvance_BeforeCreate now db a) = adv_recovered a" "adv_key (EWAAdvance_BeforeCreate now db a) = adv_key a"
  "adv_accrued (EWAAdvance_BeforeCreate now db a) = adv_accrued a" "adv_available (EWAAdvance_BeforeCreate now db a) = adv_available a"
  "adv_decline_reason (EWAAdvance_BeforeCreate now db a) = adv_decline_reason a"
  "adv_tier (EWAAdvance_BeforeCreate now db a) = adv_tier a" "adv_provider_ref (EWAAdvance_BeforeCreate now db a) = adv_provider_ref a"
  by (simp_all add: EWAAdvance_BeforeCreate_def Let_def)

lemma create_advance_Inr:
  assumes "create_advance now db r = Inr (a, db')"
  shows "a = EWAAdvance_BeforeCreate now db r \<and> db' = (take_uuid db)\<lparr>advances := advances db @ [a]\<rparr> \<and>
    adv_id a \<notin> adv_id ` set (advances db) \<and> 0 < sint (adv_amount a) \<and> 0 \<le> sint (adv_accrued a) \<and>
    (adv_key a = None \<or> (\<forall>r \<in> set (advances db). \<not> (adv_org r = adv_org a \<and> adv_employee r = adv_employee a \<and> adv_key r = adv_key a)))"
  using assms by (auto simp: create_advance_def Let_def rbind_eq_Inr insert_advance_Inr)

text \<open>Adding a row: the books stay right when the receivable grows by what the row owes.\<close>

lemma ewa_inv_insert:
  assumes inv: "ewa_inv db" and new: "adv_id a \<notin> adv_id ` set (advances db)" and ok: "advance_ok a"
    and l: "ledger_inv db'" and rows: "advances db' = advances db @ [a]" and cur: "OrgCurrencyTx db' = OrgCurrencyTx db"
    and po: "posted db' = (\<lambda>o1 k. posted db o1 k \<or> (P \<and> o1 = adv_org a \<and> k = advance_key (adv_id a)))"
    and bal: "\<And>o1 e c. OrgCurrencyTx db o1 = Inr c \<Longrightarrow> e \<noteq> [] \<Longrightarrow>
      ledger_balance db' (receivable_of o1 e c) = ledger_balance db (receivable_of o1 e c) + owed_by o1 e a"
  shows "ewa_inv db'"
proof -
  have "advance_keys_inv (advances db @ [a]) (posted db')"
    using inv unfolding ewa_inv_def advance_keys_inv_def po by (auto; blast)
  moreover have "receivables_match (advances db @ [a]) (ledger_balance db') (OrgCurrencyTx db)"
    using inv bal by (auto simp: ewa_inv_def receivables_match_def owed_def)
  ultimately show ?thesis using inv new ok l by (simp add: ewa_inv_def rows cur)
qed

lemma advance_key_fresh:
  "ewa_inv db \<Longrightarrow> i \<notin> adv_id ` set (advances db) \<Longrightarrow> \<not> posted db o1 (advance_key i)"
  by (auto simp: ewa_inv_def advance_keys_inv_def)

lemma eligibilityTx_frame:
  assumes "ewa_inv db" "eligibilityTx provider now db orgID employeeID asOf = Inr (el, db')"
  shows "ewa_inv db' \<and> ledger_frame db db' \<and> ledger_balance db' = ledger_balance db \<and> posted db' = posted db"
proof -
  have step: "ewa_inv db' \<and> ledger_frame db db' \<and> ledger_balance db' = ledger_balance db \<and> posted db' = posted db"
    if "eligibility_from_income db orgID emp org policy asOf basis accrued el0 = Inr (el, db')" for emp org policy basis accrued el0
    using that by (rule eligibility_from_income_Inr) (use fund_cover_Inr [OF assms(1)] in blast)
  show ?thesis using assms by (auto simp: eligibilityTx_def rbind_eq_Inr Let_def split: if_splits option.splits dest!: step)
qed

text \<open>The three ways the transaction commits.\<close>

lemma request_body_cases:
  assumes "request_body provider now db orgID employeeID amount key ip = Inr ((a, oel), db')"
  obtains (replay) "key \<noteq> []" "oel = None" "db' = db" "a \<in> set (advances db)" "adv_key a = Some key"
      "adv_org a = orgID" "adv_employee a = employeeID"
  | (declined) el db1 db2 where "oel = Some el" "eligibilityTx provider now db orgID employeeID now = Inr (el, db1)"
      "decline_reason_for el amount \<noteq> []"
      "create_advance now db1 ((advance_record now orgID employeeID amount key (userIDForEmployee db1 employeeID) el)
         \<lparr>adv_status := AdvanceDeclined, adv_decline_reason := decline_reason_for el amount\<rparr>) = Inr (a, db2)"
      "AppendAuditTx db2 orgID ''EWAAdvance'' (adv_id a) ''declined'' [] (decline_reason_for el amount) ip [] = Inr db'"
  | (approved) el db1 db2 db3 where "oel = Some el" "eligibilityTx provider now db orgID employeeID now = Inr (el, db1)"
      "decline_reason_for el amount = []"
      "create_advance now db1 ((advance_record now orgID employeeID amount key (userIDForEmployee db1 employeeID) el)
         \<lparr>adv_status := AdvanceApproved\<rparr>) = Inr (a, db2)"
      "postAdvanceLedger db2 orgID employeeID a = Inr db3"
      "AppendAuditTx db3 orgID ''EWAAdvance'' (adv_id a) ''approved'' [] (Kobo_String amount) ip [] = Inr db'"
proof (cases "if key = [] then Inl ErrRecordNotFound
    else find_row (\<lambda>a. adv_org a = orgID \<and> adv_employee a = employeeID \<and> adv_key a = Some key) (advances db)")
  case (Inr x)
  then have "a = x" "oel = None" "db' = db" using assms unfolding request_body_def by simp_all
  then show thesis using Inr replay find_row_Inr [of _ "advances db" x] by (auto split: if_splits)
next
  case (Inl e)
  then obtain el db1 where el: "eligibilityTx provider now db orgID employeeID now = Inr (el, db1)"
    and rest: "(if decline_reason_for el amount \<noteq> [] then
        rbind (create_advance now db1 ((advance_record now orgID employeeID amount key (userIDForEmployee db1 employeeID) el)
           \<lparr>adv_status := AdvanceDeclined, adv_decline_reason := decline_reason_for el amount\<rparr>)) (\<lambda>(a, db2).
        rbind (AppendAuditTx db2 orgID ''EWAAdvance'' (adv_id a) ''declined'' [] (decline_reason_for el amount) ip []) (\<lambda>db3.
        Inr ((a, Some el), db3)))
      else
        rbind (create_advance now db1 ((advance_record now orgID employeeID amount key (userIDForEmployee db1 employeeID) el)
           \<lparr>adv_status := AdvanceApproved\<rparr>)) (\<lambda>(a, db2).
        rbind (postAdvanceLedger db2 orgID employeeID a) (\<lambda>db3.
        rbind (AppendAuditTx db3 orgID ''EWAAdvance'' (adv_id a) ''approved'' [] (Kobo_String amount) ip []) (\<lambda>db4.
        Inr ((a, Some el), db4))))) = Inr ((a, oel), db')"
    using assms unfolding request_body_def Let_def by (auto simp: rbind_eq_Inr)
  show thesis
  proof (cases "decline_reason_for el amount = []")
    case True then show thesis using rest approved [OF _ el] by (auto simp: rbind_eq_Inr)
  next
    case False then show thesis using rest declined [OF _ el] by (auto simp: rbind_eq_Inr)
  qed
qed

lemma advance_record_simps [simp]:
  "adv_org (advance_record now o1 e m k u el) = o1" "adv_employee (advance_record now o1 e m k u el) = e"
  "adv_amount (advance_record now o1 e m k u el) = m" "adv_recovered (advance_record now o1 e m k u el) = 0"
  "adv_accrued (advance_record now o1 e m k u el) = el_accrued el" "adv_available (advance_record now o1 e m k u el) = el_available el"
  "adv_tier (advance_record now o1 e m k u el) = dep_tier (el_dependency el)"
  "adv_key (advance_record now o1 e m k u el) = (if k \<noteq> [] then Some k else None)"
  "adv_provider_ref (advance_record now o1 e m k u el) = None"
  by (simp_all add: advance_record_def)

text \<open>The transaction and the worker's receivable.\<close>

definition drawn :: "EWAAdvance \<Rightarrow> int" where
  "drawn a = (if adv_status a = AdvanceApproved then sint (adv_amount a) else 0)"

lemma request_body_books:
  assumes inv: "ewa_inv db" and emp: "employeeID \<noteq> []" and c: "OrgCurrencyTx db orgID = Inr c"
    and r: "request_body provider now db orgID employeeID amount key ip = Inr ((a, oel), db')"
  shows "ewa_inv db' \<and> OrgCurrencyTx db' = OrgCurrencyTx db \<and>
    (if oel = None then db' = db \<and> a \<in> set (advances db)
     else advances db' = advances db @ [a] \<and> adv_amount a = amount \<and> adv_id a \<notin> adv_id ` set (advances db) \<and>
       adv_org a = orgID \<and> adv_employee a = employeeID \<and>
       ledger_balance db' = (if adv_status a = AdvanceApproved
         then transfer (receivable_of orgID employeeID c) (cash_of orgID c) (sint amount) (ledger_balance db)
         else ledger_balance db))"
  using r
proof (cases rule: request_body_cases)
  case replay then show ?thesis using inv by simp
next
  case (declined el db1 db2)
  note f = eligibilityTx_frame [OF inv declined(2)] and cr = create_advance_Inr [OF declined(4)]
  have fr: "advances db1 = advances db" "OrgCurrencyTx db1 = OrgCurrencyTx db" using f ledger_frame_ewa [of db db1] by simp_all
  obtain au where db': "db' = db2\<lparr>uuid_next := Suc (uuid_next db2), audit_events := audit_events db2 @ [au]\<rparr>"
    using AppendAuditTx_Inr [OF declined(5)] by blast
  have a: "adv_status a = AdvanceDeclined" "adv_amount a = amount" "adv_org a = orgID" "adv_employee a = employeeID"
    "adv_recovered a = 0" using cr by simp_all
  have same: "ledger_inv db'" "ledger_balance db' = ledger_balance db" "posted db' = posted db"
    "OrgCurrencyTx db' = OrgCurrencyTx db" "advances db' = advances db @ [a]"
    using f cr fr by (simp_all add: db' ewa_inv_def)
  have fresh: "adv_id a \<notin> adv_id ` set (advances db)" using cr unfolding fr by blast
  have "0 < sint (adv_amount a)" using cr by blast
  then have "advance_ok a" using a emp by (simp add: advance_ok_def)
  then have "ewa_inv db'"
    using ewa_inv_insert [OF inv fresh _ same(1,5,4), of False] same a
    by (simp add: owed_by_def EWAAdvance_IsOutstanding_def)
  then show ?thesis using declined(1) same a fresh by simp
next
  case (approved el db1 db2 db3)
  note f = eligibilityTx_frame [OF inv approved(2)] and cr = create_advance_Inr [OF approved(4)]
  have fr: "advances db1 = advances db" "OrgCurrencyTx db1 = OrgCurrencyTx db" using f ledger_frame_ewa [of db db1] by simp_all
  obtain au where db': "db' = db3\<lparr>uuid_next := Suc (uuid_next db3), audit_events := audit_events db3 @ [au]\<rparr>"
    using AppendAuditTx_Inr [OF approved(6)] by blast
  have a: "adv_status a = AdvanceApproved" "adv_amount a = amount" "adv_org a = orgID" "adv_employee a = employeeID"
    "adv_recovered a = 0" using cr by simp_all
  have cur2: "OrgCurrencyTx db2 = OrgCurrencyTx db" using cr fr by simp
  have adv2: "advances db2 = advances db @ [a]" using cr [THEN conjunct2, THEN conjunct1] fr by simp
  obtain receivable dba cash dbb t where
    e1: "EnsureAccount db2 orgID employeeID AccountAdvanceReceivable c = Inr (receivable, dba)"
    and e2: "EnsureAccount dba orgID [] AccountCashSettlement c = Inr (cash, dbb)"
    and p: "PostTransaction dbb (pair_request orgID ''ewa_advance'' (adv_id a) (advance_key (adv_id a))
        (acc_id receivable) (acc_id cash) (KoboIn c amount)) = Inr (t, db3)"
    using approved(5) c a by (auto simp: postAdvanceLedger_def rbind_eq_Inr cur2)
  have l2: "ledger_inv db2" "posted db2 = posted db" "ledger_balance db2 = ledger_balance db"
    using f cr by (simp_all add: ewa_inv_def)
  have mv: "moved db2 db3 orgID (advance_key (adv_id a)) (receivable_of orgID employeeID c) (cash_of orgID c) (sint amount)"
    using ensure_pair_post [OF l2(1) e1 e2 _ p] emp by (auto simp: KoboIn_def receivable_of_def cash_of_def)
  have fresh: "adv_id a \<notin> adv_id ` set (advances db)" using cr unfolding fr by blast
  then have np: "\<not> posted db orgID (advance_key (adv_id a))" using advance_key_fresh [OF inv] by blast
  have same: "ledger_inv db'" "advances db' = advances db @ [a]" "OrgCurrencyTx db' = OrgCurrencyTx db"
    "posted db' = (\<lambda>o1 k. posted db o1 k \<or> (o1 = orgID \<and> k = advance_key (adv_id a)))"
    "ledger_balance db' = transfer (receivable_of orgID employeeID c) (cash_of orgID c) (sint amount) (ledger_balance db)"
    using mv np adv2 cur2 ledger_frame_ewa [of db2 db3] by (simp_all add: db' moved_def l2)
  have "0 < sint (adv_amount a)" using cr by blast
  then have "advance_ok a" using a emp by (simp add: advance_ok_def)
  then have "ewa_inv db'"
    using c by (intro ewa_inv_insert [OF inv fresh _ same(1-3), of True])
      (auto simp: same a owed_by_def EWAAdvance_IsOutstanding_def transfer_def receivable_of_def cash_of_def)
  then show ?thesis using approved(1) same a fresh by simp
qed

lemma RequestAdvance_cases:
  assumes "RequestAdvance provider enq now db orgID employeeID amount key ip = (r, db')"
  obtains (failed) e where "r = Inl e" "db' = db"
      "request_body provider now db orgID employeeID amount key ip = Inl e"
  | (committed) a oel db1 ts where "request_body provider now db orgID employeeID amount key ip = Inr ((a, oel), db1)"
      "db' = db1\<lparr>tasks := tasks db1 @ ts\<rparr>" "ts = [] \<or> ts = [TaskDisburseAdvance orgID (adv_id a)]"
      "r = (if adv_status a = AdvanceDeclined then Inl (ErrAdvanceDeclined (adv_decline_reason a)) else Inr (a, oel))"
proof (cases "request_body provider now db orgID employeeID amount key ip")
  case (Inl e)
  then show thesis using assms by (intro failed [of e]) (simp_all add: RequestAdvance_def WithOrgScope_def)
next
  case (Inr x)
  then obtain a oel db1 where x: "x = ((a, oel), db1)" by (metis prod.exhaust)
  let ?ts = "if adv_status a = AdvanceApproved \<and> adv_provider_ref a = None \<and> enq
     then [TaskDisburseAdvance orgID (adv_id a)] else []"
  have "RequestAdvance provider enq now db orgID employeeID amount key ip =
     (if adv_status a = AdvanceDeclined then Inl (ErrAdvanceDeclined (adv_decline_reason a)) else Inr (a, oel),
      db1\<lparr>tasks := tasks db1 @ ?ts\<rparr>)"
    by (simp add: RequestAdvance_def WithOrgScope_def Inr x)
  then show thesis using assms Inr x by (intro committed [of a oel db1 ?ts]) simp_all
qed

lemma find_update_key:
  "find (\<lambda>r'. pk r' = k) (update_where (\<lambda>r'. pk r' = pk r) (\<lambda>_. r) rows) =
     (if k = pk r \<and> list_ex (\<lambda>r'. pk r' = pk r) rows then Some r else find (\<lambda>r'. pk r' = k) rows)"
  by (induction rows) (auto simp: update_where_def)

lemma find_snoc: "find P (rows @ [r]) = (case find P rows of None \<Rightarrow> if P r then Some r else None | Some x \<Rightarrow> Some x)"
  by (induction rows) simp_all

lemma find_upsert:
  "find_row (\<lambda>r'. pk r' = k) (upsert pk r rows) = (if k = pk r then Inr r else find_row (\<lambda>r'. pk r' = k) rows)"
proof (cases "list_ex (\<lambda>r'. pk r' = pk r) rows")
  case True
  then show ?thesis by (simp add: upsert_def find_row_def find_update_key)
next
  case False
  then have "find (\<lambda>r'. pk r' = pk r) rows = None" by (auto simp: list_ex_iff find_None_iff)
  with False show ?thesis by (auto simp: upsert_def find_row_def find_snoc split: option.split)
qed

lemma find_row_snoc: "\<forall>r \<in> set rows. \<not> P r \<Longrightarrow> P a \<Longrightarrow> find_row P (rows @ [a]) = Inr a"
  by (induction rows) (auto simp: find_row_def)

lemma ewa_cong_tasks [simp]:
  "ewa_inv (db\<lparr>tasks := ts\<rparr>) = ewa_inv db" "OrgCurrencyTx (db\<lparr>tasks := ts\<rparr>) = OrgCurrencyTx db"
  "ledger_balance (db\<lparr>tasks := ts\<rparr>) = ledger_balance db"
proof -
  note l = ledger_cong [of "db\<lparr>tasks := ts\<rparr>" db]
  show c: "OrgCurrencyTx (db\<lparr>tasks := ts\<rparr>) = OrgCurrencyTx db" by (simp add: OrgCurrencyTx_def fun_eq_iff)
  show "ledger_balance (db\<lparr>tasks := ts\<rparr>) = ledger_balance db" using l by simp
  show "ewa_inv (db\<lparr>tasks := ts\<rparr>) = ewa_inv db" using l c by (simp add: ewa_inv_def)
qed

subsection \<open>Properties\<close>

text \<open>
  C2: an advance that is approved respects every limit at the moment of the draw: it is at
  least the policy's minimum and, with everything the worker still owes, at most the cap of
  the worker's tier, which is at most the policy cap, itself at most the organization's
  absolute cap and the permitted share of the wages accrued (to half a unit); the number of
  draws and the cooling-off period are kept, the worker's protected payday stays whole,
  and with \<open>RequireEmployerFunding\<close> the pool covers it.
\<close>

theorem approved_within_limits:
  assumes "ewa_inv db" "policy_ok policy" "policyTx db orgID = Inr policy"
    and "find_row (\<lambda>e. emp_id e = employeeID \<and> emp_org e = orgID) (employees db) = Inr emp"
    and "find_row (\<lambda>o1. org_id o1 = orgID) (organizations db) = Inr org"
    and "0 \<le> sint (ProtectedPayday (workerPreferenceTx db orgID employeeID))"
    and r: "RequestAdvance provider enq now db orgID employeeID amount key ip = (Inr (a, Some el), db')"
  shows "adv_status a = AdvanceApproved \<and> adv_amount a = amount \<and> adv_accrued a = el_accrued el \<and>
    pol_enabled policy \<and> emp_active emp \<and> sint (pol_min_draw policy) \<le> sint amount \<and>
    sint amount \<le> sint (el_available el) \<and> within_limits db orgID emp org policy now el (sint amount)"
  using r
proof (cases rule: RequestAdvance_cases)
  case (committed a' oel db1 ts)
  then have a: "a' = a" "oel = Some el" "adv_status a \<noteq> AdvanceDeclined" by (auto split: if_splits)
  have emp: "emp_id emp = employeeID" using find_row_Inr [OF assms(4)] by simp
  from committed(1) show ?thesis
  proof (cases rule: request_body_cases)
    case (approved el' db1 db2 db3)
    then have el: "el' = el" using a by simp
    note cr = create_advance_Inr [OF approved(4)]
    have amt: "adv_amount a = amount" "adv_status a = AdvanceApproved" "adv_accrued a = el_accrued el"
      using cr el a(1) by simp_all
    have pos: "0 < sint amount" "0 \<le> sint (el_accrued el)" using cr amt a(1) by auto
    have e: "eligibilityTx provider now db orgID employeeID now = Inr (el, db1)" using approved(2) el by simp
    then have op: "\<not> el_blocked el" using approved(3) el eligibilityTx_blocked_reason [OF e]
      by (auto simp: decline_reason_for_def)
    then have rng: "sint (el_minimum_draw el) \<le> sint amount" "sint amount \<le> sint (el_available el)"
      using approved(3) el by (auto simp: decline_reason_for_def decline_defs sless_sint split: if_splits)
    obtain basis accrued where i: "eligibility_from_income db orgID emp org policy now basis accrued
        (initial_eligibility emp policy (format_period now)) = Inr (el, db1)" "pol_enabled policy" "emp_active emp"
      using eligibilityTx_open [OF e op assms(4,5,3)] by blast
    have "el_minimum_draw el = pol_min_draw policy"
      using i(1) by (rule eligibility_from_income_Inr) (simp add: eligibility_simps initial_eligibility_def)
    moreover have "within_limits db orgID emp org policy now el (sint amount)"
      using assms(6) emp by (intro income_within_limits [OF assms(1,2) _ i(1) op pos(2,1) rng(2)]) simp
    ultimately show ?thesis using i rng amt by simp
  next
    case declined then show ?thesis using create_advance_Inr [OF declined(4)] a by simp
  qed (use a in simp)
qed simp

text \<open>
  C5: whatever \<open>RequestAdvance\<close> answers, the books stay right: an approval adds one advance
  and raises the worker's receivable (and lowers cash) by exactly its amount, a decline is
  recorded without moving money, a replay changes no row, an error changes nothing at all.
\<close>

theorem request_keeps_books:
  assumes inv: "ewa_inv db" and emp: "employeeID \<noteq> []" and c: "OrgCurrencyTx db orgID = Inr c"
    and r: "RequestAdvance provider enq now db orgID employeeID amount key ip = (r, db')"
  shows "ewa_inv db' \<and>
    (case r of
       Inr (a, Some _) \<Rightarrow> adv_amount a = amount \<and> advances db' = advances db @ [a] \<and>
         ledger_balance db' = transfer (receivable_of orgID employeeID c) (cash_of orgID c) (sint amount) (ledger_balance db)
     | Inr (a, None) \<Rightarrow> a \<in> set (advances db) \<and> advances db' = advances db \<and> ledger_balance db' = ledger_balance db
     | Inl (ErrAdvanceDeclined _) \<Rightarrow> ledger_balance db' = ledger_balance db
     | Inl _ \<Rightarrow> ledger_balance db' = ledger_balance db)"
  using r
proof (cases rule: RequestAdvance_cases)
  case (failed e) then show ?thesis using inv by (simp split: err.split)
next
  case (committed a oel db1 ts)
  note b = request_body_books [OF inv emp c committed(1)]
  have st: "oel \<noteq> None \<Longrightarrow> adv_status a = AdvanceApproved \<or> adv_status a = AdvanceDeclined"
    using committed(1) by (rule request_body_cases) (auto dest!: create_advance_Inr)
  show ?thesis
  proof (cases oel)
    case None then show ?thesis using b inv committed(2,4) by (auto split: if_splits)
  next
    case (Some el) then show ?thesis using b inv committed(2,4) st by (auto split: if_splits)
  qed
qed

text \<open>
  C35: a request repeated under its idempotency key answers with the advance of the first
  one, whatever amount the retry carries: no second advance, no second posting, no
  second audit record.
\<close>

theorem request_replayed_once:
  assumes key: "key \<noteq> []" and emp: "employeeID \<noteq> []" and inv: "ewa_inv db" and c: "OrgCurrencyTx db orgID = Inr c"
    and r: "RequestAdvance provider enq now db orgID employeeID amount key ip = (r, db')"
    and new: "advances db' = advances db @ [a]"
  shows "\<exists>ts. RequestAdvance provider2 enq2 now2 db' orgID employeeID amount2 key ip2 =
    (if adv_status a = AdvanceDeclined then Inl (ErrAdvanceDeclined (adv_decline_reason a)) else Inr (a, None),
     db'\<lparr>tasks := tasks db' @ ts\<rparr>)"
  using r
proof (cases rule: RequestAdvance_cases)
  case (failed e) then show ?thesis using new by simp
next
  case (committed a' oel db1 ts)
  let ?P = "\<lambda>a. adv_org a = orgID \<and> adv_employee a = employeeID \<and> adv_key a = Some key"
  note b = request_body_books [OF inv emp c committed(1)]
  have oel: "oel \<noteq> None" "a' = a" using b new committed(2) by (auto split: if_splits)
  have k: "adv_key a = Some key \<and> (\<forall>r \<in> set (advances db). \<not> ?P r)"
    using committed(1)
  proof (cases rule: request_body_cases)
    case replay then show ?thesis using oel by simp
  next
    case (declined el dba dbb)
    have "advances dba = advances db" using eligibilityTx_frame [OF inv declined(2)] ledger_frame_ewa(1) by blast
    then show ?thesis using create_advance_Inr [OF declined(4)] key oel by auto
  next
    case (approved el dba dbb dbc)
    have "advances dba = advances db" using eligibilityTx_frame [OF inv approved(2)] ledger_frame_ewa(1) by blast
    then show ?thesis using create_advance_Inr [OF approved(4)] key oel by auto
  qed
  have "find_row ?P (advances db') = Inr a"
    unfolding new using k b oel by (intro find_row_snoc) (auto split: if_splits)
  then have "request_body provider2 now2 db' orgID employeeID amount2 key ip2 = Inr ((a, None), db')"
    using key by (simp add: request_body_def)
  note rb = this
  obtain r2 db2 where r2: "RequestAdvance provider2 enq2 now2 db' orgID employeeID amount2 key ip2 = (r2, db2)" by fastforce
  then show ?thesis by (cases rule: RequestAdvance_cases) (simp_all add: rb r2, blast)
qed


text \<open>
  The protected payday can be raised at any time and lowered only after the cooling-off
  period (the policy's hours as a \<open>time.Duration\<close>): once a floor is set, every attempt to lower it within that period is refused
  and changes nothing; a refusal never concerns raising it; and a change touches no
  other worker's floor.
\<close>

theorem protected_payday_ratchet:
  assumes pol: "policyTx db orgID = Inr policy"
    and s: "SetProtectedPayday db orgID employeeID amount now = (r, db')"
  shows "case r of
      Inl e \<Rightarrow> db' = db \<and> (e = ErrFloorLoweringRateLimited \<longrightarrow> sint amount < sint (ProtectedPayday (workerPreferenceTx db orgID employeeID)))
    | Inr p \<Rightarrow> workerPreferenceTx db' orgID employeeID = p \<and> ProtectedPayday p = amount \<and> 0 \<le> sint amount \<and>
        (\<forall>o1 e. (o1, e) \<noteq> (orgID, employeeID) \<longrightarrow> workerPreferenceTx db' o1 e = workerPreferenceTx db o1 e) \<and>
        (\<forall>lower later. sint lower < sint amount \<longrightarrow> later < now + cooling_off policy \<longrightarrow>
           SetProtectedPayday db' orgID employeeID lower later = (Inl ErrFloorLoweringRateLimited, db'))"
proof (cases r)
  case (Inl e)
  then show ?thesis using s pol
    by (auto simp: SetProtectedPayday_def WithOrgScope_def Let_def sless_sint split: if_splits sum.splits)
next
  case (Inr p)
  let ?pk = "\<lambda>p. (pref_org p, pref_employee p)"
  have p: "p = \<lparr>pref_org = orgID, pref_employee = employeeID, pref_protected_minor = amount, pref_last_changed = Some now\<rparr>"
    and db': "db' = db\<lparr>worker_prefs := upsert ?pk p (worker_prefs db)\<rparr>" and pos: "0 \<le> sint amount"
    using s Inr pol by (auto simp: SetProtectedPayday_def WithOrgScope_def Let_def sless_sint split: if_splits sum.splits)
  have w: "workerPreferenceTx db' o1 e = (if (o1, e) = (orgID, employeeID) then p else workerPreferenceTx db o1 e)" for o1 e
    using find_upsert [of ?pk "(o1, e)" p "worker_prefs db"] by (auto simp: workerPreferenceTx_def db' p)
  have "OrgCurrencyTx db' = OrgCurrencyTx db" "ewa_policies db' = ewa_policies db" by (simp_all add: db' OrgCurrencyTx_def fun_eq_iff)
  then have pol': "policyTx db' orgID = Inr policy" using pol unfolding policyTx_def by (simp only:)
  have "SetProtectedPayday db' orgID employeeID lower later = (Inl ErrFloorLoweringRateLimited, db')"
    if "sint lower < sint amount" "later < now + cooling_off policy" for lower later
    using that by (simp add: SetProtectedPayday_def Let_def WithOrgScope_def w pol' sless_sint) (simp add: p ProtectedPayday_def)
  then show ?thesis using Inr pos by (simp add: w) (simp add: p ProtectedPayday_def)
qed

definition demo_link :: link_db where
  "demo_link = pay_db.extend (demo_pay\<lparr>employees := [demo_hourly\<lparr>emp_hourly_rate := 60000\<rparr>], ewa_policies := []\<rparr>)
     \<lparr>bank_links = []\<rparr>"

definition demo_request :: "(EWAAdvance \<times> Eligibility option) res \<times> link_db" where
  "demo_request = RequestAdvance None True (Date 2026 8 14) demo_link ''ORG-1'' ''EMP-h'' 200000 ''k'' ''ip''"

lemma demo_request_run:
  obtains a el db' where "demo_request = (Inr (a, Some el), db')"
proof -
  have "case demo_request of (Inr (a, Some el), db) \<Rightarrow> True | _ \<Rightarrow> False" by code_simp
  moreover obtain r d where "demo_request = (r, d)" by fastforce
  ultimately show thesis using that by (auto split: sum.splits option.splits)
qed

lemma demo_link_facts:
  "ewa_inv demo_link" "OrgCurrencyTx demo_link ''ORG-1'' = Inr NGN"
  "policyTx demo_link ''ORG-1'' = Inr (DefaultEWAPolicy ''ORG-1'' NGN)" "policy_ok (DefaultEWAPolicy ''ORG-1'' NGN)"
  "find_row (\<lambda>e. emp_id e = ''EMP-h'' \<and> emp_org e = ''ORG-1'') (employees demo_link) = Inr (demo_hourly\<lparr>emp_hourly_rate := 60000\<rparr>)"
  "find_row (\<lambda>o1. org_id o1 = ''ORG-1'') (organizations demo_link) = Inr demo_organization"
  "ProtectedPayday (workerPreferenceTx demo_link ''ORG-1'' ''EMP-h'') = 0"
proof -
  have base: "ledger_accounts demo_link = ledger_accounts demo_pool" "ledger_transactions demo_link = ledger_transactions demo_pool"
    "ledger_entries demo_link = ledger_entries demo_pool" "advances demo_link = []" "worker_prefs demo_link = []"
    "organizations demo_link = [demo_organization]" "employees demo_link = [demo_hourly\<lparr>emp_hourly_rate := 60000\<rparr>]" "ewa_policies demo_link = []"
    by (simp_all add: demo_link_def demo_pay_def demo_time_def demo_pool_def pay_db.defs time_db.defs grants_db.defs)
  note l = ledger_cong [OF base(1-3)]
  have "advance_keys_inv [] (posted demo_pool)"
    by (simp add: advance_keys_inv_def demo_pool_def posted_def funding_key_def advance_key_def cancellation_key_def write_off_key_def)
  moreover have "receivables_match [] (ledger_balance demo_pool) (OrgCurrencyTx demo_link)"
    by (simp add: receivables_match_def owed_def ledger_balance_def receivable_of_def demo_pool_def demo_pool_accounts_def acc_identity_def)
  ultimately show "ewa_inv demo_link" using l demo_pool_inv by (simp add: ewa_inv_def base grants_inv_def)
  show cur: "OrgCurrencyTx demo_link ''ORG-1'' = Inr NGN"
    by (simp add: OrgCurrencyTx_def base find_row_def demo_organization_def)
  show "policyTx demo_link ''ORG-1'' = Inr (DefaultEWAPolicy ''ORG-1'' NGN)"
    by (simp add: policyTx_def base find_row_def cur)
  show "policy_ok (DefaultEWAPolicy ''ORG-1'' NGN)" by code_simp
  show "find_row (\<lambda>e. emp_id e = ''EMP-h'' \<and> emp_org e = ''ORG-1'') (employees demo_link) = Inr (demo_hourly\<lparr>emp_hourly_rate := 60000\<rparr>)"
    by (simp add: base find_row_def demo_hourly_def demo_employee_def)
  show "find_row (\<lambda>o1. org_id o1 = ''ORG-1'') (organizations demo_link) = Inr demo_organization"
    by (simp add: base find_row_def demo_organization_def)
  show "ProtectedPayday (workerPreferenceTx demo_link ''ORG-1'' ''EMP-h'') = 0"
    by (simp add: workerPreferenceTx_def base find_row_def ProtectedPayday_def)
qed

theorem approved_within_limits_witness:
  "\<exists>a el db'. demo_request = (Inr (a, Some el), db') \<and> sint (adv_amount a) = 200000 \<and> adv_status a = AdvanceApproved \<and>
     within_limits demo_link ''ORG-1'' (demo_hourly\<lparr>emp_hourly_rate := 60000\<rparr>) demo_organization
       (DefaultEWAPolicy ''ORG-1'' NGN) (Date 2026 8 14) el 200000"
proof -
  obtain a el db' where run: "demo_request = (Inr (a, Some el), db')" by (rule demo_request_run)
  from approved_within_limits [OF demo_link_facts(1,4,3,5,6) _ run [unfolded demo_request_def]] run
  show ?thesis by (intro exI [of _ a] exI [of _ el] exI [of _ db'] conjI) (simp_all add: demo_link_facts)
qed

theorem request_keeps_books_witness:
  "\<exists>a el db'. demo_request = (Inr (a, Some el), db') \<and> ewa_inv db' \<and> length (advances db') = 1 \<and>
     ledger_balance db' (receivable_of ''ORG-1'' ''EMP-h'' NGN) =
       ledger_balance demo_link (receivable_of ''ORG-1'' ''EMP-h'' NGN) + 200000"
proof -
  obtain a el db' where run: "demo_request = (Inr (a, Some el), db')" by (rule demo_request_run)
  have "advances demo_link = []" by (simp add: demo_link_def demo_pay_def demo_time_def demo_pool_def pay_db.defs time_db.defs grants_db.defs)
  with request_keeps_books [OF demo_link_facts(1) _ demo_link_facts(2) run [unfolded demo_request_def]] run
  show ?thesis
    by (intro exI [of _ a] exI [of _ el] exI [of _ db'] conjI) (simp_all add: transfer_def receivable_of_def cash_of_def)
qed

theorem request_replayed_once_witness:
  "\<exists>a el db' ts. demo_request = (Inr (a, Some el), db') \<and>
     RequestAdvance None True (Date 2026 8 15) db' ''ORG-1'' ''EMP-h'' 900000 ''k'' ''ip'' =
       (Inr (a, None), db'\<lparr>tasks := tasks db' @ ts\<rparr>)"
proof -
  obtain a el db' where run: "demo_request = (Inr (a, Some el), db')" by (rule demo_request_run)
  note run' = run [unfolded demo_request_def]
  have st: "adv_status a = AdvanceApproved"
    using run' by (rule RequestAdvance_cases) (auto elim!: request_body_cases dest!: create_advance_Inr split: if_splits)
  have "advances db' = advances demo_link @ [a]"
    using run'
  proof (cases rule: RequestAdvance_cases)
    case (committed a' oel db1 ts)
    then show ?thesis
      using request_body_books [OF demo_link_facts(1) _ demo_link_facts(2) committed(1)] by (auto split: if_splits)
  qed simp
  from request_replayed_once [OF _ _ demo_link_facts(1,2) run' this, of None True "Date 2026 8 15" 900000 "''ip''"] run st
  show ?thesis by auto
qed

theorem protected_payday_ratchet_witness:
  "\<exists>p db'. SetProtectedPayday demo_link ''ORG-1'' ''EMP-h'' 500 0 = (Inr p, db') \<and> ProtectedPayday p = 500 \<and>
     SetProtectedPayday db' ''ORG-1'' ''EMP-h'' 400 7 = (Inl ErrFloorLoweringRateLimited, db')"
proof -
  let ?run = "SetProtectedPayday demo_link ''ORG-1'' ''EMP-h'' 500 0"
  have "case ?run of (Inr _, _) \<Rightarrow> True | _ \<Rightarrow> False" by code_simp
  then obtain p db' where run: "?run = (Inr p, db')" by (auto split: prod.splits sum.splits)
  have "(7 :: int) < 0 + cooling_off (DefaultEWAPolicy ''ORG-1'' NGN)" by code_simp
  with protected_payday_ratchet [OF demo_link_facts(3) run] run show ?thesis by auto
qed

end
