(* ===== verification/Savings.thy ===== *)
theory Savings
  imports EWA_Service
begin

text \<open>
  Automated savings (\<open>ewa_savings_service.go\<close>, \<open>EWASavingsPreference\<close> in \<open>models/ewa.go\<close>): the worker's
  election and the diversion of part of the net pay at payroll.
\<close>

datatype SavingsMode = SavingsFixedPercent | SavingsRoundUp | SavingsModeOther string

record EWASavingsPreference =
  sp_org :: string
  sp_employee :: string
  sp_enabled :: bool
  sp_mode :: SavingsMode
  sp_fixed_percent :: int
  sp_round_up :: Kobo

record savings_db = link_db +
  savings_prefs :: "EWASavingsPreference list"

record SavingsPreferenceUpdate =
  spu_enabled :: bool
  spu_mode :: SavingsMode
  spu_amount :: int64

definition maxFixedSavingsPercent :: int where
  "maxFixedSavingsPercent = 90"

definition ErrInvalidSavingsPreference :: err where
  "ErrInvalidSavingsPreference = ErrOther ''invalid savings preference''"

definition valid_election :: "SavingsPreferenceUpdate \<Rightarrow> bool" where
  "valid_election upd \<longleftrightarrow>
     (case spu_mode upd of
        SavingsFixedPercent \<Rightarrow> 0 < sint (spu_amount upd) \<and> sint (spu_amount upd) \<le> maxFixedSavingsPercent
      | SavingsRoundUp \<Rightarrow> 0 < sint (spu_amount upd)
      | SavingsModeOther _ \<Rightarrow> False)"

definition election_row :: "string \<Rightarrow> string \<Rightarrow> SavingsPreferenceUpdate \<Rightarrow> EWASavingsPreference" where
  "election_row orgID employeeID upd =
     \<lparr>sp_org = orgID, sp_employee = employeeID, sp_enabled = spu_enabled upd, sp_mode = spu_mode upd,
      sp_fixed_percent = (if spu_mode upd = SavingsFixedPercent then sint (spu_amount upd) else 0),
      sp_round_up = (if spu_mode upd = SavingsRoundUp then spu_amount upd else 0)\<rparr>"

text \<open>
  What the table stores: an empty mode takes the column's default, every other value has to
  pass the \<open>CHECK\<close> constraints, and the worker has to exist.
\<close>

definition insert_election ::
  "('z savings_db_scheme) \<Rightarrow> EWASavingsPreference \<Rightarrow> (EWASavingsPreference \<times> 'z savings_db_scheme) res" where
  "insert_election db p0 =
     (let p = (if sp_mode p0 = SavingsModeOther [] then p0\<lparr>sp_mode := SavingsFixedPercent\<rparr> else p0)
      in if sp_mode p \<notin> {SavingsFixedPercent, SavingsRoundUp} \<or> sp_fixed_percent p < 0 \<or> 90 < sp_fixed_percent p \<or>
            sp_round_up p <s 0 \<or> count_where (\<lambda>e. emp_id e = sp_employee p) (employees db) = 0
         then Inl ErrCheckViolation
         else Inr (p, db\<lparr>savings_prefs := upsert (\<lambda>p. (sp_org p, sp_employee p)) p (savings_prefs db)\<rparr>))"

definition SetSavingsPreference ::
  "('z savings_db_scheme) \<Rightarrow> string \<Rightarrow> string \<Rightarrow> SavingsPreferenceUpdate
     \<Rightarrow> EWASavingsPreference res \<times> ('z savings_db_scheme)" where
  "SetSavingsPreference db orgID employeeID upd =
     (if spu_enabled upd \<and> \<not> valid_election upd then (Inl ErrInvalidSavingsPreference, db)
      else WithOrgScope db (\<lambda>db. insert_election db (election_row orgID employeeID upd)))"

definition savingsPreferenceTx :: "('z savings_db_scheme) \<Rightarrow> string \<Rightarrow> string \<Rightarrow> EWASavingsPreference" where
  "savingsPreferenceTx db orgID employeeID =
     (case find_row (\<lambda>p. (sp_org p, sp_employee p) = (orgID, employeeID)) (savings_prefs db) of
        Inr p \<Rightarrow> p
      | Inl _ \<Rightarrow> \<lparr>sp_org = orgID, sp_employee = employeeID, sp_enabled = False, sp_mode = SavingsModeOther [],
                 sp_fixed_percent = 0, sp_round_up = 0\<rparr>)"

definition GetSavingsPreference :: "('z savings_db_scheme) \<Rightarrow> string \<Rightarrow> string \<Rightarrow> EWASavingsPreference" where
  "GetSavingsPreference db orgID employeeID = savingsPreferenceTx db orgID employeeID"

definition GetSavingsBalance ::
  "('z ewa_db_scheme) \<Rightarrow> string \<Rightarrow> string \<Rightarrow> Kobo res \<times> ('z ewa_db_scheme)" where
  "GetSavingsBalance db orgID employeeID = WithOrgScope db (\<lambda>db.
     rbind (OrgCurrencyTx db orgID) (\<lambda>currency.
     rbind (EnsureAccount db orgID employeeID AccountEmployeeSavings currency) (\<lambda>(acct, db1).
     rbind (AccountBalance db1 orgID (acc_id acct)) (\<lambda>bal. Inr (Minor bal, db1)))))"

definition roundUpDelta :: "Kobo \<Rightarrow> Kobo \<Rightarrow> Kobo" where
  "roundUpDelta netPay unit =
     (if \<not> Kobo_IsPositive unit then 0
      else let remainder = go_mod netPay unit in if remainder = 0 then 0 else unit - remainder)"

definition savings_key :: "string \<Rightarrow> string" where
  "savings_key itemID = ''ewa_savings:'' @ itemID"

text \<open>What the election asks for; \<open>Inr 0\<close> wherever the code returns early.\<close>

definition savings_amount :: "EWASavingsPreference \<Rightarrow> Kobo \<Rightarrow> Kobo res" where
  "savings_amount pref netPay =
     (case sp_mode pref of
        SavingsFixedPercent \<Rightarrow>
          if sp_fixed_percent pref \<le> 0 then Inr 0 else Kobo_Percent netPay (word_of_int (sp_fixed_percent pref)) 100
      | SavingsRoundUp \<Rightarrow>
          if \<not> Kobo_IsPositive (sp_round_up pref) then Inr 0 else Inr (roundUpDelta netPay (sp_round_up pref))
      | SavingsModeOther _ \<Rightarrow> Inr 0)"

definition DivertSavingsForPayrollItem ::
  "('z savings_db_scheme) \<Rightarrow> string \<Rightarrow> string \<Rightarrow> string \<Rightarrow> Kobo \<Rightarrow> (Kobo \<times> 'z savings_db_scheme) res" where
  "DivertSavingsForPayrollItem db orgID employeeID itemID netPay =
     (if \<not> Kobo_IsPositive netPay then Inr (0, db)
      else
        let pref = savingsPreferenceTx db orgID employeeID
        in if \<not> sp_enabled pref then Inr (0, db)
           else
             rbind (savings_amount pref netPay) (\<lambda>amount.
               if \<not> Kobo_IsPositive amount \<or> \<not> amount <s netPay then Inr (0, db)
               else
                 rbind (OrgCurrencyTx db orgID) (\<lambda>currency.
                 rbind (EnsureAccount db orgID employeeID AccountWagePayable currency) (\<lambda>(payable, db1).
                 rbind (EnsureAccount db1 orgID employeeID AccountEmployeeSavings currency) (\<lambda>(savings, db2).
                 rbind (PostTransaction db2 (pair_request orgID ''ewa_savings_diversion'' employeeID (savings_key itemID)
                          (acc_id payable) (acc_id savings) (KoboIn currency amount))) (\<lambda>(_, db3).
                 Inr (amount, db3)))))))"

subsection \<open>Library\<close>

definition payable_of :: "string \<Rightarrow> string \<Rightarrow> Currency \<Rightarrow> account_identity" where
  "payable_of orgID emp c = (orgID, Some emp, AccountWagePayable, c)"

definition savings_of :: "string \<Rightarrow> string \<Rightarrow> Currency \<Rightarrow> account_identity" where
  "savings_of orgID emp c = (orgID, Some emp, AccountEmployeeSavings, c)"

lemma savings_key_simps [simp]:
  "savings_key i \<noteq> advance_key j" "savings_key i \<noteq> cancellation_key j" "savings_key i \<noteq> write_off_key j"
  "savings_key i \<noteq> settlement_key j m" "savings_key i = savings_key j \<longleftrightarrow> i = j"
  "advance_key j \<noteq> savings_key i" "cancellation_key j \<noteq> savings_key i" "write_off_key j \<noteq> savings_key i"
  "settlement_key j m \<noteq> savings_key i"
  by (simp_all add: savings_key_def advance_key_def cancellation_key_def write_off_key_def settlement_key_def)

text \<open>A posting between accounts that are no receivable, under a key that is no advance's, keeps the advances' invariant.\<close>

lemma ewa_inv_moved:
  assumes inv: "ewa_inv db" and mv: "moved db db' orgID key a b m"
    and key: "\<And>i. key \<noteq> advance_key i" "\<And>i. key \<noteq> cancellation_key i" "\<And>i. key \<noteq> write_off_key i"
    and acc: "\<And>o1 e c. receivable_of o1 e c \<noteq> a" "\<And>o1 e c. receivable_of o1 e c \<noteq> b"
  shows "ewa_inv db'"
proof -
  note fr = ledger_frame_ewa [OF mv [unfolded moved_def, THEN conjunct2, THEN conjunct1]]
  have bal: "ledger_balance db' (receivable_of o1 e c) = ledger_balance db (receivable_of o1 e c)" for o1 e c
    using mv acc [of o1 e c] by (simp add: moved_def transfer_def)
  have po: "posted db' o1 k \<longleftrightarrow> posted db o1 k \<or> o1 = orgID \<and> k = key" for o1 k using mv by (simp add: moved_def)
  have "advance_keys_inv (advances db) (posted db')"
    using inv key unfolding ewa_inv_def advance_keys_inv_def po by metis
  moreover have "receivables_match (advances db) (ledger_balance db') (OrgCurrencyTx db)"
    using inv by (simp add: ewa_inv_def receivables_match_def bal)
  moreover have "ledger_inv db'" using mv by (simp add: moved_def)
  ultimately show ?thesis using inv by (simp add: ewa_inv_def fr(1,11))
qed

lemma DivertSavings_Inr:
  assumes inv: "ewa_inv db" and emp: "employeeID \<noteq> []"
    and d: "DivertSavingsForPayrollItem db orgID employeeID itemID netPay = Inr (amount, db')"
  obtains (nothing) "amount = 0" "db' = db"
  | (diverted) c where "OrgCurrencyTx db orgID = Inr c" "0 < sint amount" "sint amount < sint netPay"
      "sp_enabled (savingsPreferenceTx db orgID employeeID)"
      "savings_amount (savingsPreferenceTx db orgID employeeID) netPay = Inr amount"
      "moved db db' orgID (savings_key itemID) (payable_of orgID employeeID c) (savings_of orgID employeeID c) (sint amount)"
proof (cases "amount = 0 \<and> db' = db")
  case False
  with d obtain a c payable db1 savings db2 t where
    p: "Kobo_IsPositive netPay" "sp_enabled (savingsPreferenceTx db orgID employeeID)"
      "savings_amount (savingsPreferenceTx db orgID employeeID) netPay = Inr amount"
      "Kobo_IsPositive amount" "amount <s netPay" "OrgCurrencyTx db orgID = Inr c"
    and e1: "EnsureAccount db orgID employeeID AccountWagePayable c = Inr (payable, db1)"
    and e2: "EnsureAccount db1 orgID employeeID AccountEmployeeSavings c = Inr (savings, db2)"
    and post: "PostTransaction db2 (pair_request orgID ''ewa_savings_diversion'' employeeID (savings_key itemID)
        (acc_id payable) (acc_id savings) (KoboIn c amount)) = Inr (t, db')"
    by (auto simp: DivertSavingsForPayrollItem_def Let_def rbind_eq_Inr split: if_splits)
  have "ledger_inv db" using inv by (simp add: ewa_inv_def)
  from ensure_pair_post [OF this e1 e2 _ post] emp
  have "moved db db' orgID (savings_key itemID) (payable_of orgID employeeID c) (savings_of orgID employeeID c) (sint amount)"
    by (auto simp: KoboIn_def payable_of_def savings_of_def)
  then show thesis using p by (intro diverted [of c]) (simp_all add: go_simps sless_sint)
qed (use nothing in simp)

lemma DivertSavings_inv:
  assumes "ewa_inv db" "employeeID \<noteq> []" "DivertSavingsForPayrollItem db orgID employeeID itemID netPay = Inr (amount, db')"
  shows "ewa_inv db'"
  using assms
proof (cases rule: DivertSavings_Inr)
  case (diverted c)
  then show ?thesis by (intro ewa_inv_moved [OF assms(1)]) (auto simp: receivable_of_def payable_of_def savings_of_def)
qed (use assms in simp)

lemma smod_nonneg: "0 \<le> a \<Longrightarrow> 0 < b \<Longrightarrow> a smod b = a mod b" for a b :: int
  by (cases "a = 0") (simp_all add: smod_int_alt_def sgn_if)

lemma roundUpDelta_sint:
  assumes "0 < sint unit" "0 \<le> sint netPay"
  shows "sint (roundUpDelta netPay unit) = (- sint netPay) mod sint unit"
proof -
  let ?r = "go_mod netPay unit"
  have r: "sint ?r = sint netPay mod sint unit"
    using assms smod_nonneg by (subst go_mod_sint) auto
  have b: "0 \<le> sint ?r" "sint ?r < sint unit" using assms by (simp_all add: r)
  have "sint (unit - ?r) = sint unit - sint ?r"
    using b sint64_less [of unit] by (simp add: sint64_sub in64_def)
  moreover have "?r = 0 \<longleftrightarrow> sint netPay mod sint unit = 0" by (simp add: int64_eq_iff r)
  ultimately show ?thesis
    using assms r by (simp add: roundUpDelta_def go_simps sless_sint Let_def zmod_zminus1_eq_if)
qed

subsection \<open>Properties\<close>


definition demo_savings :: savings_db where
  "demo_savings = link_db.extend demo_link
     \<lparr>savings_prefs = [\<lparr>sp_org = ''ORG-1'', sp_employee = ''EMP-h'', sp_enabled = True, sp_mode = SavingsRoundUp,
        sp_fixed_percent = 0, sp_round_up = 1000\<rparr>]\<rparr>"

lemma demo_savings_base:
  "ewa_inv demo_savings" "OrgCurrencyTx demo_savings ''ORG-1'' = Inr NGN" "posted demo_savings = posted demo_pool"
proof -
  have e: "ledger_accounts demo_savings = ledger_accounts demo_link" "ledger_transactions demo_savings = ledger_transactions demo_link"
    "ledger_entries demo_savings = ledger_entries demo_link" "advances demo_savings = advances demo_link"
    "organizations demo_savings = organizations demo_link"
    by (simp_all add: demo_savings_def demo_link_def link_db.defs pay_db.defs)
  note l = ledger_cong [OF e(1-3)]
  have o1: "OrgCurrencyTx demo_savings = OrgCurrencyTx demo_link" by (simp add: OrgCurrencyTx_def fun_eq_iff e)
  then show "OrgCurrencyTx demo_savings ''ORG-1'' = Inr NGN" by (simp add: demo_link_facts)
  show "ewa_inv demo_savings" using demo_link_facts(1) l o1 by (simp add: ewa_inv_def e)
  have "ledger_transactions demo_savings = ledger_transactions demo_pool"
    by (simp add: demo_savings_def demo_link_def demo_pay_def demo_time_def link_db.defs pay_db.defs time_db.defs grants_db.defs)
  then show "posted demo_savings = posted demo_pool" by (simp add: posted_def fun_eq_iff)
qed


end
