(* ===== verification/Payroll_Batch.thy ===== *)
theory Payroll_Batch
  imports Savings
begin

text \<open>
  Payroll batches: the state machine of \<open>models/models.go\<close>, references and summaries
  (\<open>models/payroll_item.go\<close>), the queries of \<open>payroll_repository.go\<close>, settlement of one item
  (\<open>payroll_settlement.go\<close>), the worker that hands a batch to the bank (\<open>payroll_worker.go\<close>), retries and
  manual resolutions (\<open>payroll_lifecycle_service.go\<close>) and the scan for overdue items (\<open>stuck_payouts.go\<close>).
  The bulk-transfer call is the argument \<open>bank\<close>. \<open>time.Now()\<close> of one call is the argument \<open>now\<close>.
\<close>

subsection \<open>Batches and items\<close>

datatype PayrollStatus = PayrollPending | PayrollProcessing | PayrollCompleted | PayrollFailed

fun PayrollStatus_string :: "PayrollStatus \<Rightarrow> string" where
  "PayrollStatus_string PayrollPending = ''pending''"
| "PayrollStatus_string PayrollProcessing = ''processing''"
| "PayrollStatus_string PayrollCompleted = ''completed''"
| "PayrollStatus_string PayrollFailed = ''failed''"

fun validTransitions :: "PayrollStatus \<Rightarrow> PayrollStatus list" where
  "validTransitions PayrollPending = [PayrollProcessing, PayrollFailed]"
| "validTransitions PayrollProcessing = [PayrollCompleted, PayrollFailed]"
| "validTransitions PayrollFailed = [PayrollPending, PayrollProcessing]"
| "validTransitions PayrollCompleted = []"

definition CanTransition :: "PayrollStatus \<Rightarrow> PayrollStatus \<Rightarrow> bool" where
  "CanTransition from_st to_st = list_ex (\<lambda>allowed. allowed = to_st) (validTransitions from_st)"

record Payroll =
  pr_id :: string
  pr_org :: string
  pr_period :: string
  pr_total :: Kobo
  pr_status :: PayrollStatus
  pr_pending :: int
  pr_created_at :: time
  pr_updated_at :: time

record PayrollItem =
  it_id :: string
  it_org :: string
  it_payroll :: string
  it_employee :: string
  it_name :: string
  it_amount :: Kobo
  it_status :: PayrollStatus
  it_reference :: string
  it_error :: string
  it_attempt :: int
  it_gross :: "Kobo option"
  it_advances :: "Kobo option"
  it_savings :: "Kobo option"
  it_sent_at :: "time option"
  it_settled_at :: "time option"
  it_resolved_by :: "string option"
  it_note :: "string option"
  it_evidence :: "string option"
  it_created_at :: time
  it_updated_at :: time

record payroll_db = savings_db +
  payrolls :: "Payroll list"
  payroll_items :: "PayrollItem list"

definition Payroll_BeforeCreate :: "('z base_db_scheme) \<Rightarrow> Payroll \<Rightarrow> Payroll" where
  "Payroll_BeforeCreate db p = (if pr_id p = [] then p\<lparr>pr_id := fresh_id ''PAY-'' db\<rparr> else p)"

definition PayrollItem_BeforeCreate :: "('z base_db_scheme) \<Rightarrow> PayrollItem \<Rightarrow> PayrollItem" where
  "PayrollItem_BeforeCreate db i = (if it_id i = [] then i\<lparr>it_id := fresh_id ''ITEM-'' db\<rparr> else i)"

text \<open>\<open>TransitionStatus\<close> on a batch and on an item.\<close>

definition stamp_payroll :: "time \<Rightarrow> PayrollStatus \<Rightarrow> Payroll \<Rightarrow> Payroll" where
  "stamp_payroll now nxt p = p\<lparr>pr_status := nxt, pr_updated_at := now\<rparr>"

definition stamp_item :: "time \<Rightarrow> PayrollStatus \<Rightarrow> PayrollItem \<Rightarrow> PayrollItem" where
  "stamp_item now nxt i = i\<lparr>it_status := nxt, it_updated_at := now\<rparr>"

definition cas_payroll ::
  "time \<Rightarrow> Payroll list \<Rightarrow> string \<Rightarrow> PayrollStatus \<Rightarrow> PayrollStatus \<Rightarrow> Payroll list res" where
  "cas_payroll now rows i current nxt =
     (if \<not> CanTransition current nxt then Inl ErrInvalidTransition
      else let P = (\<lambda>r. pr_id r = i \<and> pr_status r = current)
           in if count_where P rows = 0 then Inl ErrStaleStatus
              else Inr (update_where P (stamp_payroll now nxt) rows))"

definition cas_item ::
  "time \<Rightarrow> PayrollItem list \<Rightarrow> string \<Rightarrow> PayrollStatus \<Rightarrow> PayrollStatus \<Rightarrow> PayrollItem list res" where
  "cas_item now rows i current nxt =
     (if \<not> CanTransition current nxt then Inl ErrInvalidTransition
      else let P = (\<lambda>r. it_id r = i \<and> it_status r = current)
           in if count_where P rows = 0 then Inl ErrStaleStatus
              else Inr (update_where P (stamp_item now nxt) rows))"

definition TransitionStatus_payroll ::
  "time \<Rightarrow> ('z payroll_db_scheme) \<Rightarrow> string \<Rightarrow> PayrollStatus \<Rightarrow> PayrollStatus \<Rightarrow> ('z payroll_db_scheme) res" where
  "TransitionStatus_payroll now db i current nxt =
     rbind (cas_payroll now (payrolls db) i current nxt) (\<lambda>rows. Inr (db\<lparr>payrolls := rows\<rparr>))"

definition TransitionStatus_item ::
  "time \<Rightarrow> ('z payroll_db_scheme) \<Rightarrow> string \<Rightarrow> PayrollStatus \<Rightarrow> PayrollStatus \<Rightarrow> ('z payroll_db_scheme) res" where
  "TransitionStatus_item now db i current nxt =
     rbind (cas_item now (payroll_items db) i current nxt) (\<lambda>rows. Inr (db\<lparr>payroll_items := rows\<rparr>))"

definition update_items ::
  "time \<Rightarrow> ('z payroll_db_scheme) \<Rightarrow> (PayrollItem \<Rightarrow> bool) \<Rightarrow> (PayrollItem \<Rightarrow> PayrollItem) \<Rightarrow> ('z payroll_db_scheme)" where
  "update_items now db P f =
     db\<lparr>payroll_items := update_where P (\<lambda>i. (f i)\<lparr>it_updated_at := now\<rparr>) (payroll_items db)\<rparr>"

subsection \<open>References\<close>

definition ItemReference :: "PayrollItem \<Rightarrow> string" where
  "ItemReference i = (if it_attempt i \<le> 1 then it_id i else it_id i @ ''-R'' @ FormatInt (it_attempt i))"

definition is_alnum :: "char \<Rightarrow> bool" where
  "is_alnum c \<longleftrightarrow> is_digit c \<or> (CHR ''A'' \<le> c \<and> c \<le> CHR ''Z'') \<or> (CHR ''a'' \<le> c \<and> c \<le> CHR ''z'')"

text \<open>The pattern \<open>^(ITEM-[0-9A-Za-z]+)(?:-R([0-9]+))?$\<close>, then \<open>strconv.Atoi\<close> of the second group.\<close>

definition ParseItemReference :: "string \<Rightarrow> (string \<times> int) option" where
  "ParseItemReference ref =
     (case strip_prefix ''ITEM-'' ref of
        None \<Rightarrow> None
      | Some rest \<Rightarrow>
          let body = takeWhile is_alnum rest; suffix = dropWhile is_alnum rest
          in if body = [] then None
             else if suffix = [] then Some (''ITEM-'' @ body, 1)
             else (case strip_prefix ''-R'' suffix of
                     None \<Rightarrow> None
                   | Some digits \<Rightarrow>
                       if digits = [] \<or> \<not> list_all is_digit digits then None
                       else (case ParseInt digits of
                               None \<Rightarrow> None
                             | Some n \<Rightarrow> if n <s 2 then None else Some (''ITEM-'' @ body, sint n))))"

subsection \<open>Summary\<close>

datatype PayrollOutcome = OutcomePending | OutcomeInProgress | OutcomePaid | OutcomePartiallyPaid | OutcomeFailed

record PayrollSummary =
  sum_outcome :: PayrollOutcome
  sum_paid :: nat
  sum_failed :: nat
  sum_processing :: nat
  sum_pending :: nat
  sum_paid_kobo :: Kobo
  sum_failed_kobo :: Kobo
  sum_stuck :: bool

definition StuckAfter :: int where
  "StuckAfter = 2 * Hour"

definition item_since :: "PayrollItem \<Rightarrow> time" where
  "item_since i = (case it_sent_at i of Some t \<Rightarrow> t | None \<Rightarrow> it_updated_at i)"

definition with_status :: "PayrollStatus \<Rightarrow> PayrollItem list \<Rightarrow> PayrollItem list" where
  "with_status s items = filter (\<lambda>i. it_status i = s) items"

definition kobo_or_zero :: "Kobo res \<Rightarrow> Kobo" where
  "kobo_or_zero r = (case r of Inl _ \<Rightarrow> 0 | Inr k \<Rightarrow> k)"

definition SummarizePayroll :: "Payroll \<Rightarrow> PayrollItem list \<Rightarrow> time \<Rightarrow> PayrollSummary" where
  "SummarizePayroll p items now =
     (let paid = kobo_or_zero (Kobo_Sum (map it_amount (with_status PayrollCompleted items)));
          failed = kobo_or_zero (Kobo_Sum (map it_amount (with_status PayrollFailed items)))
      in \<lparr>sum_outcome = (case pr_status p of
            PayrollPending \<Rightarrow> OutcomePending
          | PayrollProcessing \<Rightarrow> OutcomeInProgress
          | PayrollCompleted \<Rightarrow> OutcomePaid
          | PayrollFailed \<Rightarrow> if Kobo_IsPositive paid then OutcomePartiallyPaid else OutcomeFailed),
          sum_paid = length (with_status PayrollCompleted items),
          sum_failed = length (with_status PayrollFailed items),
          sum_processing = length (with_status PayrollProcessing items),
          sum_pending = length (with_status PayrollPending items),
          sum_paid_kobo = paid, sum_failed_kobo = failed,
          sum_stuck = list_ex (\<lambda>i. StuckAfter < time_Sub now (item_since i)) (with_status PayrollProcessing items)\<rparr>)"

subsection \<open>Queries\<close>

definition payroll_FindByID :: "('z payroll_db_scheme) \<Rightarrow> string \<Rightarrow> string \<Rightarrow> Payroll res" where
  "payroll_FindByID db orgID i = find_row (\<lambda>p. pr_org p = orgID \<and> pr_id p = i) (payrolls db)"

definition items_of :: "('z payroll_db_scheme) \<Rightarrow> string \<Rightarrow> string \<Rightarrow> PayrollItem list" where
  "items_of db orgID i = filter (\<lambda>t. it_org t = orgID \<and> it_payroll t = i) (payroll_items db)"

definition FindWithItems :: "('z payroll_db_scheme) \<Rightarrow> string \<Rightarrow> string \<Rightarrow> (Payroll \<times> PayrollItem list) res" where
  "FindWithItems db orgID i = rbind (payroll_FindByID db orgID i) (\<lambda>p. Inr (p, items_of db orgID i))"

definition FindCompleted :: "('z payroll_db_scheme) \<Rightarrow> string \<Rightarrow> nat \<Rightarrow> Payroll list" where
  "FindCompleted db orgID limit =
     take limit (rev (sort_key pr_created_at
       (filter (\<lambda>p. pr_org p = orgID \<and> pr_status p = PayrollCompleted) (payrolls db))))"

definition FindItem :: "('z payroll_db_scheme) \<Rightarrow> string \<Rightarrow> string \<Rightarrow> string \<Rightarrow> PayrollItem res" where
  "FindItem db orgID payrollID itemID =
     find_row (\<lambda>t. it_org t = orgID \<and> it_payroll t = payrollID \<and> it_id t = itemID) (payroll_items db)"

definition FindItemsByStatus :: "('z payroll_db_scheme) \<Rightarrow> string \<Rightarrow> string \<Rightarrow> PayrollStatus \<Rightarrow> PayrollItem list" where
  "FindItemsByStatus db orgID payrollID s = sort_key it_id (with_status s (items_of db orgID payrollID))"

definition payroll_ListPaginated :: "('z payroll_db_scheme) \<Rightarrow> string \<Rightarrow> nat \<Rightarrow> nat \<Rightarrow> Payroll list \<times> nat" where
  "payroll_ListPaginated db orgID page pageSize =
     (let rows = filter (\<lambda>p. pr_org p = orgID) (payrolls db)
      in (take pageSize (drop ((page - 1) * pageSize) (rev (sort_key (\<lambda>p. (pr_created_at p, pr_id p)) rows))), length rows))"

definition ItemsForPayrolls :: "('z payroll_db_scheme) \<Rightarrow> string \<Rightarrow> string list \<Rightarrow> PayrollItem list" where
  "ItemsForPayrolls db orgID ids =
     (if ids = [] then [] else filter (\<lambda>t. it_org t = orgID \<and> it_payroll t \<in> set ids) (payroll_items db))"

subsection \<open>Settling one item\<close>

record SettlementSource =
  src_ip :: string
  src_actor :: string
  src_note :: string
  src_evidence :: string

definition src_manual :: "SettlementSource \<Rightarrow> bool" where
  "src_manual by = (src_actor by \<noteq> [])"

text \<open>
  The batch transition of \<open>reconcilePayrollStatus\<close>. The update goes through the loaded struct and
  GORM writes the new value back into it, so the audit record shows the new status on both sides.
\<close>

definition reconcilePayrollStatus ::
  "time \<Rightarrow> ('z payroll_db_scheme) \<Rightarrow> string \<Rightarrow> string \<Rightarrow> PayrollStatus \<Rightarrow> ('z payroll_db_scheme) res" where
  "reconcilePayrollStatus now db orgID payrollID status =
     (let failedCount = count_where (\<lambda>t. it_payroll t = payrollID \<and> it_org t = orgID \<and> it_status t = PayrollFailed) (payroll_items db);
          newStatus = (if 0 < failedCount then PayrollFailed else PayrollCompleted)
      in case TransitionStatus_payroll now db payrollID status newStatus of
           Inl e \<Rightarrow> if e = ErrStaleStatus then Inr db else Inl e
         | Inr db1 \<Rightarrow>
             AppendAuditTx db1 orgID ''Payroll'' payrollID ''reconciled'' (PayrollStatus_string newStatus)
               (PayrollStatus_string newStatus) ''internal'' [])"

definition stamp_settlement :: "time \<Rightarrow> PayrollStatus \<Rightarrow> SettlementSource \<Rightarrow> PayrollItem \<Rightarrow> PayrollItem" where
  "stamp_settlement now nxt by i =
     (let i1 = (if nxt = PayrollCompleted then i\<lparr>it_settled_at := Some now\<rparr> else i);
          i2 = (if src_manual by then i1\<lparr>it_resolved_by := Some (src_actor by), it_note := Some (src_note by)\<rparr> else i1)
      in if src_manual by \<and> src_evidence by \<noteq> [] then i2\<lparr>it_evidence := Some (src_evidence by)\<rparr> else i2)"

definition settlement_audit ::
  "('z payroll_db_scheme) \<Rightarrow> string \<Rightarrow> PayrollItem \<Rightarrow> PayrollStatus \<Rightarrow> SettlementSource \<Rightarrow> ('z payroll_db_scheme) res" where
  "settlement_audit db orgID item nxt by =
     AppendAuditTx db orgID ''PayrollItem'' (it_id item)
       (if src_manual by then ''manually_resolved'' else ''status_change'') (PayrollStatus_string (it_status item))
       (if src_manual by
        then PayrollStatus_string nxt @ '': '' @ src_note by @
             (if src_evidence by \<noteq> [] then '' [evidence: '' @ src_evidence by @ '']'' else [])
        else PayrollStatus_string nxt)
       (src_ip by) (src_actor by)"

text \<open>The guarded decrement with \<open>RETURNING\<close>, and the reconciliation when the counter reaches zero.\<close>

definition count_down ::
  "time \<Rightarrow> ('z payroll_db_scheme) \<Rightarrow> string \<Rightarrow> string \<Rightarrow> ('z payroll_db_scheme) res" where
  "count_down now db orgID payrollID =
     (let P = (\<lambda>p. pr_id p = payrollID \<and> pr_org p = orgID \<and> 0 < pr_pending p)
      in case find_row P (payrolls db) of
           Inl _ \<Rightarrow> Inr db
         | Inr p \<Rightarrow>
             let db1 = db\<lparr>payrolls := update_where P (\<lambda>p. p\<lparr>pr_pending := pr_pending p - 1, pr_updated_at := now\<rparr>) (payrolls db)\<rparr>
             in if pr_pending p - 1 = 0 then reconcilePayrollStatus now db1 orgID payrollID (pr_status p) else Inr db1)"

definition SettlePayrollItem ::
  "time \<Rightarrow> ('z payroll_db_scheme) \<Rightarrow> string \<Rightarrow> PayrollItem \<Rightarrow> PayrollStatus \<Rightarrow> SettlementSource
     \<Rightarrow> (bool \<times> 'z payroll_db_scheme) res" where
  "SettlePayrollItem now db orgID item nxt by =
     (case TransitionStatus_item now db (it_id item) (it_status item) nxt of
        Inl e \<Rightarrow> if e = ErrStaleStatus then Inr (False, db) else Inl e
      | Inr db1 \<Rightarrow>
          let db2 = (if nxt = PayrollCompleted \<or> src_manual by
                     then update_items now db1 (\<lambda>t. it_id t = it_id item) (stamp_settlement now nxt by) else db1)
          in rbind (count_down now db2 orgID (it_payroll item)) (\<lambda>db3.
             rbind (settlement_audit db3 orgID item nxt by) (\<lambda>db4. Inr (True, db4))))"

end
