(* ===== verification/Payroll_Lifecycle.thy ===== *)
theory Payroll_Lifecycle
  imports Payroll_Batch
begin

text \<open>
  The life of a payroll batch after its creation: the worker of \<open>internal/workers/payroll_worker.go\<close> with the
  request it sends to the bank and every answer it can get (parameter \<open>bank\<close>), and the operator's operations of
  \<open>payroll_lifecycle_service.go\<close> (retry of failed items, resolution of stuck ones, views and listings) with the
  stuck-payout scan of \<open>stuck_payouts.go\<close>. Each transaction is one definition; \<open>ProcessPayrollTask\<close> composes them.
\<close>

subsection \<open>The worker\<close>

definition Kobo_Naira :: "Kobo \<Rightarrow> float64" where
  "Kobo_Naira k = fdiv (float64_of_int (sint k)) 100"

record TransferDetail =
  td_amount :: float64
  td_account :: string
  td_bank :: string
  td_narration :: string
  td_reference :: string
  td_currency :: string

record BulkTransferRequest =
  bt_title :: string
  bt_batch :: string
  bt_wallet :: string
  bt_lines :: "TransferDetail list"

text \<open>The answer of \<open>InitiateBulkTransfer\<close>: no answer, a definite error, or the response with its flag.\<close>

datatype bulk_response = BulkOutcomeUnknown | BulkError err | BulkAnswer bool string

text \<open>How a task ends for the queue: done, an error that is retried, an error that is not.\<close>

datatype task_result = TaskDone | TaskRetry err | TaskSkipRetry err

definition mark_orphans :: "time \<Rightarrow> ('z payroll_db_scheme) \<Rightarrow> string set \<Rightarrow> ('z payroll_db_scheme)" where
  "mark_orphans now db ids =
     update_items now db (\<lambda>t. it_id t \<in> ids \<and> it_status t = PayrollPending)
       (\<lambda>t. t\<lparr>it_status := PayrollFailed, it_error := ''employee record not found at disbursement time''\<rparr>)"

definition mark_sent :: "time \<Rightarrow> ('z payroll_db_scheme) \<Rightarrow> PayrollItem list \<Rightarrow> ('z payroll_db_scheme) res" where
  "mark_sent now db sendable =
     (let P = (\<lambda>t. it_id t \<in> it_id ` set sendable \<and> it_status t = PayrollPending)
      in if sendable = [] then Inr db
         else if count_where P (payroll_items db) \<noteq> length sendable then Inl (ErrOther ''items were no longer pending'')
         else Inr (update_items now db P (\<lambda>t. t\<lparr>it_status := PayrollProcessing, it_sent_at := Some now\<rparr>)))"

text \<open>
  Phase 1, in one transaction: partition the items, move the batch to processing with its
  counter, then the items. The result is what has to be sent, with the employees.
\<close>

definition has_employee :: "('z payroll_db_scheme) \<Rightarrow> string \<Rightarrow> PayrollItem \<Rightarrow> bool" where
  "has_employee db orgID t \<longleftrightarrow> (\<exists>e \<in> set (employees db). emp_id e = it_employee t \<and> emp_org e = orgID)"

definition start_batch ::
  "time \<Rightarrow> ('z payroll_db_scheme) \<Rightarrow> string \<Rightarrow> string \<Rightarrow> ((Payroll \<times> PayrollItem list) \<times> 'z payroll_db_scheme) res" where
  "start_batch now db orgID payrollID =
     rbind (FindWithItems db orgID payrollID) (\<lambda>(payroll, items).
       let unsettled = with_status PayrollPending items;
           sendable = filter (has_employee db orgID) unsettled;
           orphaned = filter (\<lambda>t. \<not> has_employee db orgID t) unsettled;
           P = (\<lambda>p. pr_id p = payrollID \<and> pr_org p = orgID \<and> pr_status p \<in> {PayrollPending, PayrollFailed})
       in if count_where P (payrolls db) = 0 then Inl ErrStaleStatus
          else
            let db1 = db\<lparr>payrolls := update_where P
                  (\<lambda>p. p\<lparr>pr_status := PayrollProcessing, pr_pending := int (length sendable), pr_updated_at := now\<rparr>) (payrolls db)\<rparr>
            in rbind (mark_sent now db1 sendable) (\<lambda>db2.
               Inr ((payroll\<lparr>pr_status := PayrollProcessing, pr_pending := int (length sendable)\<rparr>, sendable),
                    mark_orphans now db2 (it_id ` set orphaned))))"

definition finalizePayroll ::
  "time \<Rightarrow> ('z payroll_db_scheme) \<Rightarrow> string \<Rightarrow> string \<Rightarrow> ('z payroll_db_scheme) res" where
  "finalizePayroll now db orgID payrollID =
     rbind (payroll_FindByID db orgID payrollID) (\<lambda>payroll.
       reconcilePayrollStatus now db orgID payrollID (pr_status payroll))"

definition failBatchBeforeSend ::
  "time \<Rightarrow> ('z payroll_db_scheme) \<Rightarrow> string \<Rightarrow> string \<Rightarrow> ('z payroll_db_scheme) res" where
  "failBatchBeforeSend now db orgID payrollID =
     rbind (TransitionStatus_payroll now db payrollID PayrollProcessing PayrollFailed) (\<lambda>db1.
       Inr (update_items now db1 (\<lambda>t. it_payroll t = payrollID \<and> it_org t = orgID \<and> it_status t = PayrollProcessing)
              (\<lambda>t. t\<lparr>it_status := PayrollPending, it_sent_at := None\<rparr>)))"

definition employee_of :: "('z payroll_db_scheme) \<Rightarrow> string \<Rightarrow> PayrollItem \<Rightarrow> Employee option" where
  "employee_of db orgID t = find (\<lambda>e. emp_id e = it_employee t \<and> emp_org e = orgID) (employees db)"

definition transfer_line :: "('z payroll_db_scheme) \<Rightarrow> string \<Rightarrow> string \<Rightarrow> PayrollItem \<Rightarrow> TransferDetail" where
  "transfer_line db orgID period t =
     \<lparr>td_amount = Kobo_Naira (it_amount t),
      td_account = (case employee_of db orgID t of Some e \<Rightarrow> emp_account_number e | None \<Rightarrow> []),
      td_bank = (case employee_of db orgID t of Some e \<Rightarrow> emp_bank_code e | None \<Rightarrow> []),
      td_narration = ''Salary for '' @ period, td_reference = ItemReference t, td_currency = ''NGN''\<rparr>"

text \<open>
  The whole task: \<open>TaskResult\<close>, the request that went to the bank (if any), and the state. After a
  definite refusal the batch and its items are put back; an error there is only logged.
\<close>

definition ProcessPayrollTask ::
  "(BulkTransferRequest \<Rightarrow> bulk_response) \<Rightarrow> string \<Rightarrow> time \<Rightarrow> ('z payroll_db_scheme) \<Rightarrow> string \<Rightarrow> string
     \<Rightarrow> task_result \<times> BulkTransferRequest option \<times> ('z payroll_db_scheme)" where
  "ProcessPayrollTask bank wallet now db orgID payrollID =
     (case start_batch now db orgID payrollID of
        Inl e \<Rightarrow> (if e = ErrStaleStatus then TaskSkipRetry e else TaskRetry e, None, db)
      | Inr ((payroll, sendable), db1) \<Rightarrow>
          if sendable = [] then
            (case finalizePayroll now db1 orgID payrollID of
               Inl e \<Rightarrow> (TaskRetry e, None, db1)
             | Inr db2 \<Rightarrow> (TaskDone, None, db2))
          else
            let req = \<lparr>bt_title = ''Payroll Batch '' @ pr_id payroll, bt_batch = pr_id payroll, bt_wallet = wallet,
                       bt_lines = map (transfer_line db1 orgID (pr_period payroll)) sendable\<rparr>;
                back = (case failBatchBeforeSend now db1 orgID payrollID of Inl _ \<Rightarrow> db1 | Inr db2 \<Rightarrow> db2)
            in case bank req of
                 BulkOutcomeUnknown \<Rightarrow> (TaskSkipRetry (ErrOther ''outcome unknown''), Some req, db1)
               | BulkError e \<Rightarrow> (TaskRetry e, Some req, back)
               | BulkAnswer ok msg \<Rightarrow>
                   if ok then (TaskDone, Some req, db1)
                   else (TaskRetry (ErrOther (''monnify said no: '' @ msg)), Some req, back))"

subsection \<open>Retry and resolution\<close>

record Actor =
  actor_name :: string
  actor_ip :: string

record SkippedItem =
  sk_employee :: string
  sk_name :: string
  sk_reason :: string

record RetryResult =
  rr_payroll :: string
  rr_retrying :: nat
  rr_skipped :: "SkippedItem list"

definition is_active :: "('z payroll_db_scheme) \<Rightarrow> string \<Rightarrow> PayrollItem \<Rightarrow> bool" where
  "is_active db orgID t = (case employee_of db orgID t of Some e \<Rightarrow> emp_active e | None \<Rightarrow> False)"

definition release_failed :: "time \<Rightarrow> ('z payroll_db_scheme) \<Rightarrow> PayrollItem list \<Rightarrow> ('z payroll_db_scheme) res" where
  "release_failed now db retry =
     (let P = (\<lambda>t. it_id t \<in> it_id ` set retry \<and> it_status t = PayrollFailed)
      in if retry = [] then Inr db
         else if count_where P (payroll_items db) \<noteq> length retry then Inl ErrStaleStatus
         else Inr (update_items now db P
           (\<lambda>t. t\<lparr>it_status := PayrollPending, it_attempt := it_attempt t + 1, it_error := [], it_sent_at := None,
                  it_settled_at := None\<rparr>)))"

text \<open>The flag says that the run found nothing to resend.\<close>

definition retry_body ::
  "time \<Rightarrow> ('z payroll_db_scheme) \<Rightarrow> string \<Rightarrow> string \<Rightarrow> Actor \<Rightarrow> ((RetryResult \<times> bool) \<times> 'z payroll_db_scheme) res" where
  "retry_body now db orgID payrollID by =
     rbind (payroll_FindByID db orgID payrollID) (\<lambda>payroll.
       if pr_status payroll \<noteq> PayrollFailed then Inl ErrPayrollNotRetryable
       else
         let failed = FindItemsByStatus db orgID payrollID PayrollFailed;
             retry = filter (is_active db orgID) failed;
             skipped = map (\<lambda>t. \<lparr>sk_employee = it_employee t, sk_name = it_name t, sk_reason = ''employee is no longer active''\<rparr>)
                           (filter (\<lambda>t. \<not> is_active db orgID t) failed)
         in rbind (release_failed now db retry) (\<lambda>db1.
            let waiting = count_where (\<lambda>t. it_payroll t = payrollID \<and> it_org t = orgID \<and> it_status t = PayrollPending) (payroll_items db1);
                result = \<lparr>rr_payroll = payrollID, rr_retrying = waiting, rr_skipped = skipped\<rparr>
            in if waiting = 0 then Inr ((result, True), db1)
               else rbind (AppendAuditTx db1 orgID ''Payroll'' payrollID ''retry_failed''
                      (FormatInt (int (length failed)) @ '' failed'')
                      (FormatInt (int waiting) @ '' resent, '' @ FormatInt (int (length skipped)) @ '' skipped'')
                      (actor_ip by) (actor_name by)) (\<lambda>db2. Inr ((result, False), db2))))"

definition RetryFailedItems ::
  "bool \<Rightarrow> time \<Rightarrow> ('z payroll_db_scheme) \<Rightarrow> string \<Rightarrow> string \<Rightarrow> Actor \<Rightarrow> RetryResult res \<times> ('z payroll_db_scheme)" where
  "RetryFailedItems enqueue_ok now db orgID payrollID by =
     (case WithOrgScope db (\<lambda>db. retry_body now db orgID payrollID by) of
        (Inl e, db') \<Rightarrow> (Inl e, db')
      | (Inr (result, nothing), db') \<Rightarrow>
          if nothing then (Inl ErrNothingToRetry, db')
          else if enqueue_ok then (Inr result, db'\<lparr>tasks := tasks db' @ [TaskProcessPayroll orgID payrollID]\<rparr>)
          else (Inl ErrQueueUnavailable, db'))"

datatype ResolveOutcome = ResolvePaid | ResolveFailed | ResolveOther string

definition resolve_target :: "ResolveOutcome \<Rightarrow> string \<Rightarrow> string \<Rightarrow> PayrollStatus res" where
  "resolve_target outcome note1 evidence =
     (case outcome of
        ResolvePaid \<Rightarrow> if note1 = [] then Inl ErrInvalidResolution else Inr PayrollCompleted
      | ResolveFailed \<Rightarrow> if note1 = [] \<or> evidence = [] then Inl ErrInvalidResolution else Inr PayrollFailed
      | ResolveOther _ \<Rightarrow> Inl ErrInvalidResolution)"

definition ResolveItem ::
  "time \<Rightarrow> ('z payroll_db_scheme) \<Rightarrow> string \<Rightarrow> string \<Rightarrow> string \<Rightarrow> ResolveOutcome \<Rightarrow> string \<Rightarrow> string \<Rightarrow> Actor
     \<Rightarrow> PayrollItem res \<times> ('z payroll_db_scheme)" where
  "ResolveItem now db orgID payrollID itemID outcome note0 evidence0 by =
     (case resolve_target outcome (TrimSpace note0) (TrimSpace evidence0) of
        Inl e \<Rightarrow> (Inl e, db)
      | Inr nxt \<Rightarrow> WithOrgScope db (\<lambda>db.
          rbind (FindItem db orgID payrollID itemID) (\<lambda>item.
            if it_status item \<noteq> PayrollProcessing then Inl ErrItemNotResolvable
            else if time_Sub now (item_since item) \<le> StuckAfter then Inl ErrNotYetStuck
            else
              rbind (SettlePayrollItem now db orgID item nxt
                \<lparr>src_ip = actor_ip by, src_actor = actor_name by, src_note = TrimSpace note0, src_evidence = TrimSpace evidence0\<rparr>)
                (\<lambda>(applied, db1).
                  if \<not> applied then Inl ErrItemNotResolvable
                  else rbind (find_row (\<lambda>t. it_id t = itemID \<and> it_org t = orgID) (payroll_items db1)) (\<lambda>t. Inr (t, db1))))))"

definition GetPayroll :: "('z payroll_db_scheme) \<Rightarrow> string \<Rightarrow> string \<Rightarrow> (Payroll \<times> PayrollItem list) res" where
  "GetPayroll db orgID i = FindWithItems db orgID i"

definition GetPayrollView ::
  "time \<Rightarrow> ('z payroll_db_scheme) \<Rightarrow> string \<Rightarrow> string \<Rightarrow> (Payroll \<times> PayrollItem list \<times> PayrollSummary) res" where
  "GetPayrollView now db orgID i =
     rbind (GetPayroll db orgID i) (\<lambda>(p, items). Inr (p, items, SummarizePayroll p items now))"

definition ListPayrolls ::
  "time \<Rightarrow> ('z payroll_db_scheme) \<Rightarrow> string \<Rightarrow> nat \<Rightarrow> nat \<Rightarrow> (Payroll \<times> PayrollSummary) list \<times> nat" where
  "ListPayrolls now db orgID page pageSize =
     (let (ps, n) = payroll_ListPaginated db orgID page pageSize;
          items = ItemsForPayrolls db orgID (map pr_id ps)
      in (map (\<lambda>p. (p, SummarizePayroll p (filter (\<lambda>t. it_payroll t = pr_id p) items) now)) ps, n))"

definition Scan :: "time \<Rightarrow> ('z payroll_db_scheme) \<Rightarrow> (string \<times> nat) list" where
  "Scan now db =
     filter (\<lambda>(_, n). 0 < n)
       (map (\<lambda>o1. (org_id o1, count_where (\<lambda>t. it_org t = org_id o1 \<and> it_status t = PayrollProcessing \<and>
                                            item_since t < now - StuckAfter) (payroll_items db)))
         (organizations db))"

end
