(* ===== verification/Payroll_Invariant.thy ===== *)
theory Payroll_Invariant
  imports Payroll_Lifecycle
begin

text \<open>
  The invariant of the payroll tables (a batch with the bank counts exactly the items that are with the bank, no other
  batch has such items, a completed batch has paid everyone) and its preservation by every transaction of
  \<open>Payroll_Batch\<close> and \<open>Payroll_Lifecycle\<close>. The two state machines are interpretations of the compare-and-swap
  locale of \<open>Store\<close>.
\<close>

subsection \<open>The batch invariant\<close>

definition items_in :: "PayrollStatus \<Rightarrow> string \<Rightarrow> PayrollItem list \<Rightarrow> nat" where
  "items_in s pid items = count_where (\<lambda>t. it_payroll t = pid \<and> it_status t = s) items"

text \<open>
  A batch with the bank has no unsent item and counts exactly the items that are with the bank;
  a batch that is not with the bank has no such item; a completed batch has paid everyone.
\<close>

definition batch_ok :: "PayrollItem list \<Rightarrow> Payroll \<Rightarrow> bool" where
  "batch_ok items p \<longleftrightarrow>
     (case pr_status p of
        PayrollProcessing \<Rightarrow>
          items_in PayrollPending (pr_id p) items = 0 \<and> pr_pending p = int (items_in PayrollProcessing (pr_id p) items)
      | PayrollCompleted \<Rightarrow> (\<forall>t \<in> set items. it_payroll t = pr_id p \<longrightarrow> it_status t = PayrollCompleted)
      | _ \<Rightarrow> items_in PayrollProcessing (pr_id p) items = 0)"

definition batches_inv :: "Payroll list \<Rightarrow> PayrollItem list \<Rightarrow> bool" where
  "batches_inv ps items \<longleftrightarrow>
     distinct (map pr_id ps) \<and> distinct (map it_id items) \<and>
     (\<forall>t \<in> set items. \<exists>p \<in> set ps. pr_id p = it_payroll t \<and> pr_org p = it_org t) \<and>
     (\<forall>p \<in> set ps. batch_ok items p)"

definition payroll_inv :: "('z payroll_db_scheme) \<Rightarrow> bool" where
  "payroll_inv db \<longleftrightarrow> batches_inv (payrolls db) (payroll_items db)"

lemma CanTransition_iff:
  "CanTransition a b \<longleftrightarrow>
     (a = PayrollPending \<and> b \<in> {PayrollProcessing, PayrollFailed}) \<or>
     (a = PayrollProcessing \<and> b \<in> {PayrollCompleted, PayrollFailed}) \<or>
     (a = PayrollFailed \<and> b \<in> {PayrollPending, PayrollProcessing})"
  by (cases a) (auto simp: CanTransition_def)

interpretation pcas: cas_transition CanTransition pr_id pr_status "stamp_payroll now" "cas_payroll now" for now
  by unfold_locales (simp_all add: cas_payroll_def stamp_payroll_def Let_def, auto simp: CanTransition_iff)

interpretation icas: cas_transition CanTransition it_id it_status "stamp_item now" "cas_item now" for now
  by unfold_locales (simp_all add: cas_item_def stamp_item_def Let_def, auto simp: CanTransition_iff)

lemma count_where_update:
  "count_where Q (update_where P f rows) = count_where (\<lambda>r. if P r then Q (f r) else Q r) rows"
  by (induction rows) (auto simp: count_where_Cons)

lemma count_where_cong:
  "(\<And>r. r \<in> set rows \<Longrightarrow> P r = Q r) \<Longrightarrow> count_where P rows = count_where Q rows"
  by (induction rows) (auto simp: count_where_Cons)

lemma count_where_drop:
  assumes "distinct (map pk rows)" "a \<in> set rows" "P a"
  shows "count_where P rows = Suc (count_where (\<lambda>r. P r \<and> pk r \<noteq> pk a) rows)"
  using assms(1,2)
proof (induction rows)
  case (Cons x rows)
  show ?case
  proof (cases "x = a")
    case True
    then have "\<forall>r \<in> set rows. pk r \<noteq> pk a" using Cons.prems(1) by (auto simp: image_iff)
    then have "count_where P rows = count_where (\<lambda>r. P r \<and> pk r \<noteq> pk a) rows" by (intro count_where_cong) auto
    then show ?thesis using True assms(3) by (simp add: count_where_Cons)
  next
    case False
    then have "a \<in> set rows" using Cons.prems by simp
    moreover have "pk x \<noteq> pk a" using Cons.prems(1) calculation by (auto simp: image_iff)
    ultimately show ?thesis using Cons by (simp add: count_where_Cons)
  qed
qed simp

text \<open>Updates that keep the keys; only batches that were touched have to be looked at.\<close>

lemma batch_ok_untouched:
  assumes "\<And>t. t \<in> set items \<Longrightarrow> it_payroll t = pr_id p \<Longrightarrow> \<not> P t" "\<And>t. it_payroll (f t) = it_payroll t"
  shows "batch_ok (update_where P f items) p = batch_ok items p"
proof -
  have "items_in s (pr_id p) (update_where P f items) = items_in s (pr_id p) items" for s
    using assms unfolding items_in_def count_where_update by (intro count_where_cong) auto
  moreover have "(\<forall>t \<in> set (update_where P f items). it_payroll t = pr_id p \<longrightarrow> it_status t = PayrollCompleted) =
      (\<forall>t \<in> set items. it_payroll t = pr_id p \<longrightarrow> it_status t = PayrollCompleted)"
    unfolding update_where_def set_map ball_simps using assms by (auto split: if_splits)
  ultimately show ?thesis by (simp add: batch_ok_def split: PayrollStatus.split)
qed

lemma batches_inv_update:
  assumes inv: "batches_inv ps items" and d: "ps' = update_where Q g ps" "items' = update_where P f items"
    and f: "\<And>t. it_id (f t) = it_id t \<and> it_payroll (f t) = it_payroll t \<and> it_org (f t) = it_org t"
    and g: "\<And>p. pr_id (g p) = pr_id p \<and> pr_org (g p) = pr_org p"
    and one: "\<And>t. t \<in> set items \<Longrightarrow> P t \<Longrightarrow> it_payroll t = pid" "\<And>p. p \<in> set ps \<Longrightarrow> Q p \<Longrightarrow> pr_id p = pid"
    and ok: "\<And>p. p \<in> set ps \<Longrightarrow> pr_id p = pid \<Longrightarrow> batch_ok items' (if Q p then g p else p)"
  shows "batches_inv ps' items'"
proof -
  have "map pr_id ps' = map pr_id ps" "map it_id items' = map it_id items"
    using f g unfolding d by (auto intro: map_update_where_same)
  moreover have "\<exists>p \<in> set ps'. pr_id p = it_payroll t \<and> pr_org p = it_org t" if t: "t \<in> set items'" for t
  proof -
    obtain t0 where t0: "t0 \<in> set items" "it_payroll t = it_payroll t0" "it_org t = it_org t0"
      using t f unfolding d in_update_where by (metis (full_types))
    then obtain p where p: "p \<in> set ps" "pr_id p = it_payroll t0" "pr_org p = it_org t0"
      using inv by (auto simp: batches_inv_def)
    let ?p = "if Q p then g p else p"
    have "?p \<in> set ps'" using p(1) unfolding d in_update_where by blast
    moreover have "pr_id ?p = it_payroll t" "pr_org ?p = it_org t" using p g t0 by simp_all
    ultimately show ?thesis by blast
  qed
  moreover have "batch_ok items' p" if p: "p \<in> set ps'" for p
  proof -
    obtain p0 where p0: "p0 \<in> set ps" "p = (if Q p0 then g p0 else p0)" using p unfolding d in_update_where by blast
    show ?thesis
    proof (cases "pr_id p0 = pid")
      case True then show ?thesis using ok p0 by blast
    next
      case False
      then have "\<not> Q p0" using one(2) p0(1) by blast
      moreover have "batch_ok items' p0 = batch_ok items p0" unfolding d(2)
        by (rule batch_ok_untouched) (use one(1) f False in auto)
      ultimately show ?thesis using p0 inv by (simp add: batches_inv_def)
    qed
  qed
  ultimately show ?thesis using inv by (auto simp: batches_inv_def)
qed

lemma batch_of:
  assumes "batches_inv ps items" "t \<in> set items" "p \<in> set ps" "pr_id p = it_payroll t"
  shows "pr_org p = it_org t" "batch_ok items p"
proof -
  obtain q where "q \<in> set ps" "pr_id q = it_payroll t" "pr_org q = it_org t" using assms by (auto simp: batches_inv_def)
  moreover have "q = p" using calculation assms by (auto simp: batches_inv_def distinct_map inj_on_def)
  ultimately show "pr_org p = it_org t" by simp
  show "batch_ok items p" using assms by (simp add: batches_inv_def)
qed

lemma items_in_pos: "t \<in> set items \<Longrightarrow> it_payroll t = pid \<Longrightarrow> it_status t = s \<Longrightarrow> items_in s pid items \<noteq> 0"
  by (auto simp: items_in_def count_where_eq_0_iff)

text \<open>What the status of an item says about its batch.\<close>

lemma batch_status_of_item:
  assumes "batch_ok items p" "t \<in> set items" "it_payroll t = pr_id p"
  shows "it_status t = PayrollProcessing \<Longrightarrow> pr_status p = PayrollProcessing"
    "it_status t = PayrollPending \<Longrightarrow> pr_status p \<in> {PayrollPending, PayrollFailed}"
  using assms items_in_pos [OF assms(2,3)] by (auto simp: batch_ok_def split: PayrollStatus.splits)

text \<open>One item moves: the counts of its batch.\<close>

lemma items_in_move:
  assumes d: "distinct (map it_id items)" and t: "t \<in> set items"
    and f: "it_payroll (f t) = it_payroll t" "it_status (f t) = nxt" and s: "s \<noteq> nxt"
  shows "items_in s (it_payroll t) items =
    items_in s (it_payroll t) (update_where (\<lambda>r. it_id r = it_id t) f items) + (if it_status t = s then 1 else 0)"
proof -
  have "items_in s (it_payroll t) (update_where (\<lambda>r. it_id r = it_id t) f items) =
      count_where (\<lambda>r. (it_payroll r = it_payroll t \<and> it_status r = s) \<and> it_id r \<noteq> it_id t) items"
    unfolding items_in_def count_where_update
  proof (rule count_where_cong)
    fix r assume "r \<in> set items"
    then show "(if it_id r = it_id t then it_payroll (f r) = it_payroll t \<and> it_status (f r) = s
        else it_payroll r = it_payroll t \<and> it_status r = s) =
      ((it_payroll r = it_payroll t \<and> it_status r = s) \<and> it_id r \<noteq> it_id t)"
      using d t f s by (cases "r = t") (auto simp: distinct_map inj_on_def)
  qed
  moreover have "items_in s (it_payroll t) items = (if it_status t = s then 1 else 0) +
      count_where (\<lambda>r. (it_payroll r = it_payroll t \<and> it_status r = s) \<and> it_id r \<noteq> it_id t) items"
  proof (cases "it_status t = s")
    case True
    then show ?thesis unfolding items_in_def
      by (subst count_where_drop [OF d t]) auto
  next
    case False
    then have "items_in s (it_payroll t) items =
        count_where (\<lambda>r. (it_payroll r = it_payroll t \<and> it_status r = s) \<and> it_id r \<noteq> it_id t) items"
      unfolding items_in_def using d t by (intro count_where_cong) (auto simp: distinct_map inj_on_def)
    then show ?thesis using False by simp
  qed
  ultimately show ?thesis by simp
qed

subsection \<open>Settlement keeps the invariant\<close>

definition closed_status :: "PayrollItem list \<Rightarrow> string \<Rightarrow> string \<Rightarrow> PayrollStatus" where
  "closed_status items orgID pid =
     (if \<exists>t \<in> set items. it_payroll t = pid \<and> it_org t = orgID \<and> it_status t = PayrollFailed
      then PayrollFailed else PayrollCompleted)"

lemma closed_status_count:
  "(if 0 < count_where (\<lambda>t. it_payroll t = pid \<and> it_org t = orgID \<and> it_status t = PayrollFailed) items
    then PayrollFailed else PayrollCompleted) = closed_status items orgID pid"
  using count_where_eq_0_iff [of "\<lambda>t. it_payroll t = pid \<and> it_org t = orgID \<and> it_status t = PayrollFailed" items]
  by (auto simp: closed_status_def)

lemma reconcile_Inr:
  assumes "reconcilePayrollStatus now db orgID pid st = Inr db'"
    and p: "p \<in> set (payrolls db)" "pr_id p = pid" "pr_status p = st"
  shows "payroll_items db' = payroll_items db" "CanTransition st (closed_status (payroll_items db) orgID pid)"
    "payrolls db' = update_where (\<lambda>p. pr_id p = pid \<and> pr_status p = st)
       (stamp_payroll now (closed_status (payroll_items db) orgID pid)) (payrolls db)"
proof -
  let ?nxt = "closed_status (payroll_items db) orgID pid"
  note a = assms(1) [unfolded reconcilePayrollStatus_def Let_def closed_status_count]
  have "cas_payroll now (payrolls db) pid st ?nxt \<noteq> Inl ErrStaleStatus"
    using p by (auto simp: cas_payroll_def Let_def count_where_eq_0_iff)
  then obtain rows where rows: "cas_payroll now (payrolls db) pid st ?nxt = Inr rows"
    using a by (cases "cas_payroll now (payrolls db) pid st ?nxt") (auto simp: TransitionStatus_payroll_def split: if_splits)
  then have "AppendAuditTx (db\<lparr>payrolls := rows\<rparr>) orgID ''Payroll'' pid ''reconciled'' (PayrollStatus_string ?nxt)
      (PayrollStatus_string ?nxt) ''internal'' [] = Inr db'" using a by (simp add: TransitionStatus_payroll_def)
  then have "payrolls db' = rows" and it: "payroll_items db' = payroll_items db" by (auto dest!: AppendAuditTx_Inr)
  then show "payroll_items db' = payroll_items db" "CanTransition st ?nxt"
    "payrolls db' = update_where (\<lambda>p. pr_id p = pid \<and> pr_status p = st) (stamp_payroll now ?nxt) (payrolls db)"
    using rows by (simp_all add: pcas.cas_Inr_iff)
qed

lemma count_down_Inr:
  assumes c: "count_down now db orgID pid = Inr db'" and d: "distinct (map pr_id (payrolls db))"
    and p: "p \<in> set (payrolls db)" "pr_id p = pid" "pr_org p = orgID"
  obtains (none) "pr_pending p \<le> 0" "db' = db"
  | (counted) g where "0 < pr_pending p" "payroll_items db' = payroll_items db"
      "\<And>q. pr_id (g q) = pr_id q \<and> pr_org (g q) = pr_org q"
      "payrolls db' = update_where (\<lambda>q. pr_id q = pid) g (payrolls db)" "pr_pending (g p) = pr_pending p - 1"
      "pr_pending p \<noteq> 1 \<Longrightarrow> pr_status (g p) = pr_status p"
      "pr_pending p = 1 \<Longrightarrow> pr_status (g p) = closed_status (payroll_items db) orgID pid \<and> CanTransition (pr_status p) (pr_status (g p))"
proof -
  let ?P = "\<lambda>q. pr_id q = pid \<and> pr_org q = orgID \<and> 0 < pr_pending q"
  let ?g = "\<lambda>q. q\<lparr>pr_pending := pr_pending q - 1, pr_updated_at := now\<rparr>"
  have uniq: "q = p" if "q \<in> set (payrolls db)" "pr_id q = pid" for q
    using that p d by (auto simp: distinct_map inj_on_def)
  show thesis
  proof (cases "0 < pr_pending p")
    case False
    then have "find_row ?P (payrolls db) = Inl ErrRecordNotFound" using p by (auto simp: find_row_Inl dest: uniq)
    then have "db' = db" using c by (simp add: count_down_def)
    then show thesis using False by (intro none) simp_all
  next
    case True
    have f: "find_row ?P (payrolls db) = Inr p"
    proof (cases "find_row ?P (payrolls db)")
      case (Inl e) then show ?thesis using p True by (auto simp: find_row_Inl)
    next
      case (Inr q) then have "q = p" using find_row_Inr [OF Inr] by (intro uniq) auto then show ?thesis using Inr by simp
    qed
    have u1: "update_where ?P ?g (payrolls db) = update_where (\<lambda>q. pr_id q = pid) ?g (payrolls db)"
      using p True by (intro update_where_cong) (auto dest: uniq)
    let ?db1 = "db\<lparr>payrolls := update_where (\<lambda>q. pr_id q = pid) ?g (payrolls db)\<rparr>"
    show thesis
    proof (cases "pr_pending p = 1")
      case False
      then have "db' = ?db1" using c by (simp add: count_down_def f u1)
      then show thesis using True False by (intro counted [of ?g]) simp_all
    next
      case one: True
      let ?nxt = "closed_status (payroll_items db) orgID pid"
      have r: "reconcilePayrollStatus now ?db1 orgID pid (pr_status p) = Inr db'"
        using c one by (simp add: count_down_def f u1)
      have "?g p \<in> set (payrolls ?db1)" using p by (auto simp: in_update_where intro!: bexI [of _ p])
      from reconcile_Inr [OF r this] p
      have rec: "payroll_items db' = payroll_items db" "CanTransition (pr_status p) ?nxt"
        "payrolls db' = update_where (\<lambda>q. pr_id q = pid \<and> pr_status q = pr_status p) (stamp_payroll now ?nxt) (payrolls ?db1)"
        by simp_all
      have "payrolls db' = update_where (\<lambda>q. pr_id q = pid) (stamp_payroll now ?nxt \<circ> ?g) (payrolls db)"
      proof -
        have "(if pr_id q = pid \<and> pr_status q = pr_status p then stamp_payroll now ?nxt q else q) =
            (if pr_id q0 = pid then (stamp_payroll now ?nxt \<circ> ?g) q0 else q0)"
          if "q0 \<in> set (payrolls db)" "q = (if pr_id q0 = pid then ?g q0 else q0)" for q q0
          using that uniq [OF that(1)] by (cases "pr_id q0 = pid") simp_all
        then show ?thesis unfolding rec(3) update_where_def by simp
      qed
      then show thesis using rec one by (intro counted [of "stamp_payroll now ?nxt \<circ> ?g"]) (simp_all add: stamp_payroll_def)
    qed
  qed
qed

text \<open>The rows of the items after the transition and the settlement stamp.\<close>

lemma SettlePayrollItem_Inr:
  assumes s: "SettlePayrollItem now db orgID item nxt by = Inr (applied, db')" and d: "distinct (map it_id (payroll_items db))"
  obtains (stale) "\<not> applied" "db' = db" "\<not> (\<exists>t \<in> set (payroll_items db). it_id t = it_id item \<and> it_status t = it_status item)"
  | (settled) t f db3 where "applied" "t \<in> set (payroll_items db)" "it_id t = it_id item" "it_status t = it_status item"
      "CanTransition (it_status t) nxt"
      "\<And>r. it_id (f r) = it_id r \<and> it_payroll (f r) = it_payroll r \<and> it_org (f r) = it_org r \<and> it_attempt (f r) = it_attempt r \<and>
         it_amount (f r) = it_amount r"
      "it_status (f t) = nxt"
      "count_down now (db\<lparr>payroll_items := update_where (\<lambda>r. it_id r = it_id t) f (payroll_items db)\<rparr>) orgID (it_payroll item) = Inr db3"
      "payrolls db' = payrolls db3" "payroll_items db' = payroll_items db3"
proof (cases "cas_item now (payroll_items db) (it_id item) (it_status item) nxt")
  case (Inl e)
  then have "e = ErrStaleStatus" "\<not> applied" "db' = db"
    using s by (auto simp: SettlePayrollItem_def TransitionStatus_item_def split: if_splits)
  moreover have "\<not> (\<exists>t \<in> set (payroll_items db). it_id t = it_id item \<and> it_status t = it_status item)"
    using Inl calculation(1) by (auto simp: cas_item_def Let_def count_where_eq_0_iff split: if_splits)
  ultimately show thesis by (intro stale)
next
  case (Inr rows)
  then obtain t where t: "t \<in> set (payroll_items db)" "it_id t = it_id item" "it_status t = it_status item"
    and can: "CanTransition (it_status item) nxt"
    and rows: "rows = update_where (\<lambda>r. it_id r = it_id item \<and> it_status r = it_status item) (stamp_item now nxt) (payroll_items db)"
    by (auto simp: icas.cas_Inr_iff)
  have uniq: "r = t" if "r \<in> set (payroll_items db)" "it_id r = it_id item" for r
    using that t d by (auto simp: distinct_map inj_on_def)
  have rows': "rows = update_where (\<lambda>r. it_id r = it_id t) (stamp_item now nxt) (payroll_items db)"
    unfolding rows using t by (intro update_where_cong) (auto dest: uniq)
  define f where "f = (if nxt = PayrollCompleted \<or> src_manual by
    then (\<lambda>i. (stamp_settlement now nxt by i)\<lparr>it_updated_at := now\<rparr>) \<circ> stamp_item now nxt else stamp_item now nxt)"
  have f: "it_id (f r) = it_id r \<and> it_payroll (f r) = it_payroll r \<and> it_org (f r) = it_org r \<and> it_attempt (f r) = it_attempt r \<and>
      it_amount (f r) = it_amount r" "it_status (f r) = nxt" for r
    by (simp_all add: f_def stamp_item_def stamp_settlement_def Let_def)
  have items: "(if nxt = PayrollCompleted \<or> src_manual by
      then update_items now (db\<lparr>payroll_items := rows\<rparr>) (\<lambda>t. it_id t = it_id item) (stamp_settlement now nxt by)
      else db\<lparr>payroll_items := rows\<rparr>) = db\<lparr>payroll_items := update_where (\<lambda>r. it_id r = it_id t) f (payroll_items db)\<rparr>"
    using t(2) by (cases "nxt = PayrollCompleted \<or> src_manual by")
      (simp_all add: update_items_def rows' f_def update_where_def stamp_item_def del: disj_not1)
  from s Inr obtain db3 where cd: "count_down now (db\<lparr>payroll_items := update_where (\<lambda>r. it_id r = it_id t) f (payroll_items db)\<rparr>)
      orgID (it_payroll item) = Inr db3" and db3: "settlement_audit db3 orgID item nxt by = Inr db'" "applied"
    by (auto simp: SettlePayrollItem_def TransitionStatus_item_def Let_def items rbind_eq_Inr)
  have "payrolls db' = payrolls db3" "payroll_items db' = payroll_items db3"
    using db3(1) by (auto simp: settlement_audit_def dest!: AppendAuditTx_Inr)
  then show thesis using can t db3(2) cd by (intro settled [OF _ t _ f(1) f(2)]) simp_all
qed

text \<open>A batch closed by the reconciliation, with nothing left to send or to hear about.\<close>

lemma closed_batch_ok:
  assumes "pr_status q = closed_status items orgID (pr_id q)" "items_in PayrollProcessing (pr_id q) items = 0"
    "items_in PayrollPending (pr_id q) items = 0"
    "\<And>r. r \<in> set items \<Longrightarrow> it_payroll r = pr_id q \<Longrightarrow> it_org r = orgID"
  shows "batch_ok items q"
proof (cases "\<exists>r \<in> set items. it_payroll r = pr_id q \<and> it_org r = orgID \<and> it_status r = PayrollFailed")
  case True then show ?thesis using assms by (simp add: batch_ok_def closed_status_def)
next
  case False
  have "it_status r = PayrollCompleted" if r: "r \<in> set items" "it_payroll r = pr_id q" for r
    using False r assms(2-4) items_in_pos [OF r] by (cases "it_status r") auto
  then show ?thesis using assms(1) False by (simp add: batch_ok_def closed_status_def)
qed

text \<open>The batch of one settled item, when the counter was not positive and when it was counted down.\<close>

lemma settled_batch_ok:
  fixes f :: "PayrollItem \<Rightarrow> PayrollItem"
  defines "rows \<equiv> \<lambda>t items. update_where (\<lambda>r. it_id r = it_id t) f items"
  assumes ok: "batch_ok items p" and t: "t \<in> set items" "it_payroll t = pr_id p" and d: "distinct (map it_id items)"
    and f: "\<And>r. it_payroll (f r) = it_payroll r" "\<And>r. it_org (f r) = it_org r" "it_status (f t) = nxt"
    and nxt: "nxt \<in> {PayrollCompleted, PayrollFailed}" "CanTransition (it_status t) nxt"
    and org: "\<And>r. r \<in> set items \<Longrightarrow> it_payroll r = pr_id p \<Longrightarrow> it_org r = orgID"
  shows "pr_pending p \<le> 0 \<Longrightarrow> batch_ok (rows t items) p"
    and "0 < pr_pending p \<Longrightarrow> pr_id q = pr_id p \<Longrightarrow> pr_pending q = pr_pending p - 1 \<Longrightarrow>
      (pr_pending p \<noteq> 1 \<Longrightarrow> pr_status q = pr_status p) \<Longrightarrow>
      (pr_pending p = 1 \<Longrightarrow> pr_status q = closed_status (rows t items) orgID (pr_id p)) \<Longrightarrow> batch_ok (rows t items) q"
proof -
  let ?n = "\<lambda>s. items_in s (pr_id p)"
  have n: "?n s items = ?n s (rows t items) + (if it_status t = s then 1 else 0)" if "s \<noteq> nxt" for s
    unfolding t(2) [symmetric] rows_def using items_in_move [where f = f, OF d t(1) f(1,3) that] .
  have st: "it_status t = PayrollProcessing \<and> pr_status p = PayrollProcessing \<or>
      it_status t = PayrollPending \<and> nxt = PayrollFailed \<and> pr_status p \<in> {PayrollPending, PayrollFailed}"
    using nxt batch_status_of_item [OF ok t] by (auto simp: CanTransition_iff)
  have org': "it_org r = orgID" if "r \<in> set (rows t items)" "it_payroll r = pr_id p" for r
    using that org f(1,2) unfolding rows_def in_update_where by (metis (full_types))
  have ne: "PayrollProcessing \<noteq> nxt" "PayrollPending \<noteq> nxt" using nxt(1) by auto
  note n2 = n [OF ne(1)] n [OF ne(2)]
  show "batch_ok (rows t items) p" if "pr_pending p \<le> 0"
    using st
  proof
    assume "it_status t = PayrollProcessing \<and> pr_status p = PayrollProcessing"
    then show ?thesis using n2 ok that by (simp add: batch_ok_def)
  next
    assume "it_status t = PayrollPending \<and> nxt = PayrollFailed \<and> pr_status p \<in> {PayrollPending, PayrollFailed}"
    then show ?thesis using n2 ok by (auto simp: batch_ok_def)
  qed
  assume q: "0 < pr_pending p" "pr_id q = pr_id p" "pr_pending q = pr_pending p - 1"
    "pr_pending p \<noteq> 1 \<Longrightarrow> pr_status q = pr_status p"
    "pr_pending p = 1 \<Longrightarrow> pr_status q = closed_status (rows t items) orgID (pr_id p)"
  from st show "batch_ok (rows t items) q"
  proof
    assume s: "it_status t = PayrollProcessing \<and> pr_status p = PayrollProcessing"
    then have "int (?n PayrollProcessing (rows t items)) = pr_pending p - 1" "?n PayrollPending (rows t items) = 0"
      using n2 ok by (simp_all add: batch_ok_def)
    then show ?thesis using q s closed_batch_ok [of q "rows t items" orgID] org'
      by (cases "pr_pending p = 1") (simp_all add: batch_ok_def)
  next
    assume s: "it_status t = PayrollPending \<and> nxt = PayrollFailed \<and> pr_status p \<in> {PayrollPending, PayrollFailed}"
    then have z: "?n PayrollProcessing (rows t items) = 0" using n2 ok by (auto simp: batch_ok_def)
    have "f t \<in> set (rows t items)" using t(1) unfolding rows_def in_update_where by (intro bexI [of _ t]) auto
    then have "closed_status (rows t items) orgID (pr_id p) = PayrollFailed"
      using s f org [OF t] t(2) unfolding closed_status_def by (auto intro!: bexI [of _ "f t"])
    then have "pr_status q \<in> {PayrollPending, PayrollFailed}" using q(4,5) s by (cases "pr_pending p = 1") auto
    then show ?thesis using z q(2) by (auto simp: batch_ok_def)
  qed
qed

lemma distinct_keyD: "distinct (map k rows) \<Longrightarrow> a \<in> set rows \<Longrightarrow> b \<in> set rows \<Longrightarrow> k a = k b \<Longrightarrow> a = b"
  by (simp add: distinct_map inj_on_def)

lemma count_down_items: "count_down now db orgID pid = Inr db' \<Longrightarrow> payroll_items db' = payroll_items db"
  by (auto simp: count_down_def reconcilePayrollStatus_def TransitionStatus_payroll_def rbind_eq_Inr Let_def
      split: sum.splits if_splits dest!: AppendAuditTx_Inr)

text \<open>The effect of one settlement on the tables.\<close>

lemma inv_parts:
  assumes "payroll_inv db"
  shows "batches_inv (payrolls db) (payroll_items db)" "distinct (map it_id (payroll_items db))"
    "distinct (map pr_id (payrolls db))"
  using assms by (simp_all add: payroll_inv_def batches_inv_def)

lemma SettlePayrollItem_effect:
  assumes inv: "payroll_inv db" and s: "SettlePayrollItem now db orgID item nxt src = Inr (applied, db')"
    and snap: "\<forall>t \<in> set (payroll_items db). it_id t = it_id item \<longrightarrow> it_payroll t = it_payroll item \<and> it_org t = orgID"
  obtains (stale) "\<not> applied" "db' = db" "\<not> (\<exists>t \<in> set (payroll_items db). it_id t = it_id item \<and> it_status t = it_status item)"
  | (settled) t f p g where "applied" "t \<in> set (payroll_items db)" "it_id t = it_id item" "it_status t = it_status item"
      "CanTransition (it_status t) nxt"
      "\<And>r. it_id (f r) = it_id r \<and> it_payroll (f r) = it_payroll r \<and> it_org (f r) = it_org r \<and> it_attempt (f r) = it_attempt r \<and>
         it_amount (f r) = it_amount r"
      "it_status (f t) = nxt" "payroll_items db' = update_where (\<lambda>r. it_id r = it_id t) f (payroll_items db)"
      "p \<in> set (payrolls db)" "pr_id p = it_payroll t" "pr_org p = orgID" "\<And>q. pr_id (g q) = pr_id q \<and> pr_org (g q) = pr_org q"
      "payrolls db' = update_where (\<lambda>q. pr_id q = it_payroll t) g (payrolls db)"
      "pr_pending (g p) = (if 0 < pr_pending p then pr_pending p - 1 else pr_pending p)"
      "pr_status (g p) = (if pr_pending p = 1 then closed_status (payroll_items db') orgID (it_payroll t) else pr_status p)"
      "pr_pending p = 1 \<Longrightarrow> CanTransition (pr_status p) (pr_status (g p))"
proof -
  note I = inv_parts [OF inv]
  from s I(2) show thesis
  proof (cases rule: SettlePayrollItem_Inr)
    case st: stale then show thesis by (intro stale) simp_all
  next
    case (settled t f db3)
    let ?items = "update_where (\<lambda>r. it_id r = it_id t) f (payroll_items db)"
    have tp: "it_payroll t = it_payroll item" "it_org t = orgID" using snap settled(2,3) by auto
    obtain p where p: "p \<in> set (payrolls db)" "pr_id p = it_payroll t" "pr_org p = orgID"
      using I(1) settled(2) tp by (auto simp: batches_inv_def)
    let ?db2 = "db\<lparr>payroll_items := ?items\<rparr>"
    have cd: "count_down now ?db2 orgID (it_payroll t) = Inr db3" using settled(8) tp by simp
    have items: "payroll_items db' = ?items" using settled(10) count_down_items [OF cd] by simp
    note to = that(2) [OF settled(1-7) items p]
    have "distinct (map pr_id (payrolls ?db2))" "p \<in> set (payrolls ?db2)" using I(3) p(1) by simp_all
    from cd this p(2,3) show thesis
    proof (cases rule: count_down_Inr)
      case none
      then have ps: "payrolls db' = update_where (\<lambda>q. pr_id q = it_payroll t) (\<lambda>q. q) (payrolls db)"
        using settled(9) by (simp add: update_where_def)
      show thesis by (rule to [of "\<lambda>q. q", OF _ ps]) (use none in auto)
    next
      case (counted g)
      then have ps: "payrolls db' = update_where (\<lambda>q. pr_id q = it_payroll t) g (payrolls db)" using settled(9) by simp
      show thesis by (rule to [of g, OF counted(3) ps]) (use counted items in auto)
    qed
  qed
qed

lemma batch_ok_cong:
  "pr_id q = pr_id p \<Longrightarrow> pr_status q = pr_status p \<Longrightarrow> pr_pending q = pr_pending p \<Longrightarrow> batch_ok items q = batch_ok items p"
  by (cases "pr_status p") (simp_all add: batch_ok_def)

lemma settle_batches_inv:
  assumes inv: "payroll_inv db" and s: "SettlePayrollItem now db orgID item nxt src = Inr (applied, db')"
    and nxt: "nxt \<in> {PayrollCompleted, PayrollFailed}"
    and snap: "\<forall>t \<in> set (payroll_items db). it_id t = it_id item \<longrightarrow> it_payroll t = it_payroll item \<and> it_org t = orgID"
  shows "payroll_inv db'"
proof -
  note I = inv_parts [OF inv]
  from inv s snap show ?thesis
  proof (cases rule: SettlePayrollItem_effect)
    case stale then show ?thesis using inv by simp
  next
    case (settled t f p g)
    have uniq: "q = p" if "q \<in> set (payrolls db)" "pr_id q = it_payroll t" for q
      using distinct_keyD [OF I(3) that(1) settled(9)] that(2) settled(10) by simp
    have org: "it_org r = orgID" if "r \<in> set (payroll_items db)" "it_payroll r = pr_id p" for r
      using batch_of(1) [OF I(1) that(1) settled(9)] that settled(11) by simp
    have fp: "it_payroll (f r) = it_payroll r" and fo: "it_org (f r) = it_org r" for r using settled(6) by simp_all
    note ok = settled_batch_ok [where f = f, OF batch_of(2) [OF I(1) settled(2,9,10)] settled(2) settled(10) [symmetric] I(2)
        fp fo settled(7) nxt settled(5) org, folded settled(8)]
    have okp: "batch_ok (payroll_items db') (g p)"
    proof (cases "0 < pr_pending p")
      case True then show ?thesis using ok(2) [of "g p"] settled(10,12,14,15) by simp
    next
      case False
      then have "batch_ok (payroll_items db') p" using ok(1) by simp
      then show ?thesis using False settled(12,14,15) batch_ok_cong [of "g p" p] by simp
    qed
    have touched: "it_id r = it_id t \<Longrightarrow> it_payroll r = it_payroll t" if "r \<in> set (payroll_items db)" for r
      using distinct_keyD [OF I(2) that settled(2)] by auto
    show ?thesis unfolding payroll_inv_def
    proof (rule batches_inv_update [where pid = "it_payroll t", OF I(1) settled(13,8)])
      fix q assume "q \<in> set (payrolls db)" "pr_id q = it_payroll t"
      then show "batch_ok (payroll_items db') (if pr_id q = it_payroll t then g q else q)" using okp uniq by simp
    qed (use settled(6,12) touched in simp_all)
  qed
qed

subsection \<open>The worker's transactions keep the invariant\<close>

text \<open>What phase 1 does to the items of the batch that are pending.\<close>

definition handed :: "time \<Rightarrow> (PayrollItem \<Rightarrow> bool) \<Rightarrow> PayrollItem \<Rightarrow> PayrollItem" where
  "handed now sendable t =
     (if sendable t then t\<lparr>it_status := PayrollProcessing, it_sent_at := Some now, it_updated_at := now\<rparr>
      else t\<lparr>it_status := PayrollFailed, it_error := ''employee record not found at disbursement time'', it_updated_at := now\<rparr>)"

lemma handed_simps [simp]:
  "it_id (handed now s t) = it_id t" "it_payroll (handed now s t) = it_payroll t" "it_org (handed now s t) = it_org t"
  "it_attempt (handed now s t) = it_attempt t" "it_amount (handed now s t) = it_amount t"
  "it_status (handed now s t) = (if s t then PayrollProcessing else PayrollFailed)"
  by (simp_all add: handed_def)

definition sendable_of :: "('z payroll_db_scheme) \<Rightarrow> string \<Rightarrow> string \<Rightarrow> PayrollItem list" where
  "sendable_of db orgID pid =
     filter (\<lambda>t. it_payroll t = pid \<and> it_status t = PayrollPending \<and> has_employee db orgID t) (payroll_items db)"

lemma mark_items:
  fixes db :: "'z payroll_db_scheme"
  assumes d: "distinct (map it_id (payroll_items db))"
    and s: "sendable = filter (\<lambda>t. B t \<and> it_status t = PayrollPending \<and> h t) (payroll_items db)"
    and o: "orphaned = filter (\<lambda>t. B t \<and> it_status t = PayrollPending \<and> \<not> h t) (payroll_items db)"
    and m: "mark_sent now db sendable = Inr db2"
  shows "mark_orphans now db2 (it_id ` set orphaned) =
    db\<lparr>payroll_items := update_where (\<lambda>t. B t \<and> it_status t = PayrollPending) (handed now h) (payroll_items db)\<rparr>"
proof -
  have id: "it_id t \<in> it_id ` set (filter P (payroll_items db)) \<longleftrightarrow> P t" if "t \<in> set (payroll_items db)" for t P
    using that d by (auto simp: distinct_map inj_on_def)
  have db2: "db2 = db\<lparr>payroll_items := update_where (\<lambda>t. it_id t \<in> it_id ` set sendable \<and> it_status t = PayrollPending)
      (\<lambda>t. t\<lparr>it_status := PayrollProcessing, it_sent_at := Some now, it_updated_at := now\<rparr>) (payroll_items db)\<rparr>"
    using m by (cases "sendable = []") (auto simp: mark_sent_def update_items_def Let_def update_where_def split: if_splits)
  have "payroll_items (mark_orphans now db2 (it_id ` set orphaned)) =
      update_where (\<lambda>t. B t \<and> it_status t = PayrollPending) (handed now h) (payroll_items db)"
    unfolding db2 mark_orphans_def update_items_def update_where_def
    by (auto simp: id s o handed_def simp del: set_filter intro!: map_cong)
  then show ?thesis unfolding db2 mark_orphans_def update_items_def by simp
qed

lemma start_batch_Inr:
  assumes inv: "payroll_inv db" and s: "start_batch now db orgID pid = Inr ((payroll, sendable), db')"
  obtains p where "p \<in> set (payrolls db)" "pr_id p = pid" "pr_org p = orgID" "pr_status p \<in> {PayrollPending, PayrollFailed}"
    "sendable = sendable_of db orgID pid" "pr_id payroll = pid" "pr_period payroll = pr_period p"
    "db' = db\<lparr>payrolls := update_where (\<lambda>q. pr_id q = pid)
         (\<lambda>q. q\<lparr>pr_status := PayrollProcessing, pr_pending := int (length sendable), pr_updated_at := now\<rparr>) (payrolls db),
       payroll_items := update_where (\<lambda>t. it_payroll t = pid \<and> it_status t = PayrollPending)
         (handed now (has_employee db orgID)) (payroll_items db)\<rparr>"
proof -
  have I: "batches_inv (payrolls db) (payroll_items db)" and di: "distinct (map it_id (payroll_items db))"
    and dp: "distinct (map pr_id (payrolls db))" using inv by (simp_all add: payroll_inv_def batches_inv_def)
  from s obtain p items where f: "FindWithItems db orgID pid = Inr (p, items)"
    by (cases "FindWithItems db orgID pid") (auto simp: start_batch_def)
  then have p: "p \<in> set (payrolls db)" "pr_id p = pid" "pr_org p = orgID" and items: "items = items_of db orgID pid"
    by (auto simp: FindWithItems_def payroll_FindByID_def rbind_eq_Inr dest!: find_row_Inr)
  have uniq: "q = p" if "q \<in> set (payrolls db)" "pr_id q = pid" for q
    using that p dp by (auto simp: distinct_map inj_on_def)
  have org: "it_org t = orgID" if "t \<in> set (payroll_items db)" "it_payroll t = pid" for t
    using batch_of(1) [OF I that(1) p(1)] that p by simp
  let ?P = "\<lambda>q. pr_id q = pid \<and> pr_org q = orgID \<and> pr_status q \<in> {PayrollPending, PayrollFailed}"
  let ?pend = "\<lambda>h. filter (\<lambda>t. it_payroll t = pid \<and> it_status t = PayrollPending \<and> h t) (payroll_items db)"
  have parts: "filter h (with_status PayrollPending items) = ?pend h" for h
    unfolding items with_status_def items_of_def filter_filter using org by (intro filter_cong) auto
  have st: "pr_status p \<in> {PayrollPending, PayrollFailed}"
  proof (rule ccontr)
    assume "pr_status p \<notin> {PayrollPending, PayrollFailed}"
    then have "count_where ?P (payrolls db) = 0" by (auto simp: count_where_eq_0_iff dest: uniq)
    then show False using s by (simp add: start_batch_def f)
  qed
  have up: "update_where ?P g (payrolls db) = update_where (\<lambda>q. pr_id q = pid) g (payrolls db)" for g
    using p st by (intro update_where_cong) (auto dest: uniq)
  let ?db1 = "db\<lparr>payrolls := update_where (\<lambda>q. pr_id q = pid)
      (\<lambda>q. q\<lparr>pr_status := PayrollProcessing, pr_pending := int (length sendable), pr_updated_at := now\<rparr>) (payrolls db)\<rparr>"
  from s obtain db2 where send: "sendable = ?pend (has_employee db orgID)" "mark_sent now ?db1 sendable = Inr db2"
    and pay: "payroll = p\<lparr>pr_status := PayrollProcessing, pr_pending := int (length sendable)\<rparr>"
    and db': "db' = mark_orphans now db2 (it_id ` set (?pend (\<lambda>t. \<not> has_employee db orgID t)))"
    by (auto simp: start_batch_def f Let_def parts up [simplified] rbind_eq_Inr split: if_splits)
  have "db' = ?db1\<lparr>payroll_items := update_where (\<lambda>t. it_payroll t = pid \<and> it_status t = PayrollPending)
      (handed now (has_employee db orgID)) (payroll_items ?db1)\<rparr>"
    unfolding db' by (rule mark_items [OF _ _ _ send(2)]) (simp_all add: di send(1))
  then show thesis using p st send(1) pay by (intro that [of p]) (simp_all add: sendable_of_def)
qed

lemma start_batch_inv:
  assumes inv: "payroll_inv db" and s: "start_batch now db orgID pid = Inr ((payroll, sendable), db')"
  shows "payroll_inv db'"
proof -
  have I: "batches_inv (payrolls db) (payroll_items db)" using inv by (simp add: payroll_inv_def)
  from inv s obtain p where p: "p \<in> set (payrolls db)" "pr_id p = pid" "pr_status p \<in> {PayrollPending, PayrollFailed}"
    and send: "sendable = sendable_of db orgID pid"
    and db': "db' = db\<lparr>payrolls := update_where (\<lambda>q. pr_id q = pid)
         (\<lambda>q. q\<lparr>pr_status := PayrollProcessing, pr_pending := int (length sendable), pr_updated_at := now\<rparr>) (payrolls db),
       payroll_items := update_where (\<lambda>t. it_payroll t = pid \<and> it_status t = PayrollPending)
         (handed now (has_employee db orgID)) (payroll_items db)\<rparr>"
    by (rule start_batch_Inr) blast
  let ?items = "update_where (\<lambda>t. it_payroll t = pid \<and> it_status t = PayrollPending) (handed now (has_employee db orgID)) (payroll_items db)"
  have "items_in PayrollProcessing pid (payroll_items db) = 0"
    using I p by (auto simp: batches_inv_def batch_ok_def)
  then have none: "it_status t \<noteq> PayrollProcessing" if "t \<in> set (payroll_items db)" "it_payroll t = pid" for t
    using that by (auto simp: items_in_def count_where_eq_0_iff)
  have "items_in PayrollPending pid ?items = 0"
    by (auto simp: items_in_def count_where_update count_where_eq_0_iff)
  moreover have "items_in PayrollProcessing pid ?items = length sendable"
  proof -
    have "length sendable = count_where (\<lambda>t. it_payroll t = pid \<and> it_status t = PayrollPending \<and> has_employee db orgID t) (payroll_items db)"
      by (simp add: send sendable_of_def count_where_def)
    then show ?thesis unfolding items_in_def count_where_update using none by (auto intro!: count_where_cong)
  qed
  ultimately have "batch_ok ?items (q\<lparr>pr_status := PayrollProcessing, pr_pending := int (length sendable), pr_updated_at := now\<rparr>)"
    if "pr_id q = pid" for q
    using that by (simp add: batch_ok_def)
  then show ?thesis unfolding payroll_inv_def db'
    by (simp, intro batches_inv_update [where pid = pid, OF I HOL.refl HOL.refl]) simp_all
qed

text \<open>Putting a refused batch back.\<close>

lemma failBatchBeforeSend_Inr:
  assumes "failBatchBeforeSend now db orgID pid = Inr db'"
  shows "\<exists>p \<in> set (payrolls db). pr_id p = pid \<and> pr_status p = PayrollProcessing"
    and "db' = db\<lparr>payrolls := update_where (\<lambda>q. pr_id q = pid \<and> pr_status q = PayrollProcessing)
           (stamp_payroll now PayrollFailed) (payrolls db),
         payroll_items := update_where (\<lambda>t. it_payroll t = pid \<and> it_org t = orgID \<and> it_status t = PayrollProcessing)
           (\<lambda>t. t\<lparr>it_status := PayrollPending, it_sent_at := None, it_updated_at := now\<rparr>) (payroll_items db)\<rparr>"
  using assms
  by (auto simp: failBatchBeforeSend_def TransitionStatus_payroll_def rbind_eq_Inr pcas.cas_Inr_iff update_items_def)

lemma failBatchBeforeSend_inv:
  assumes inv: "payroll_inv db" and f: "failBatchBeforeSend now db orgID pid = Inr db'"
    and org: "\<And>p. p \<in> set (payrolls db) \<Longrightarrow> pr_id p = pid \<Longrightarrow> pr_org p = orgID"
  shows "payroll_inv db'"
proof -
  have I: "batches_inv (payrolls db) (payroll_items db)" using inv by (simp add: payroll_inv_def)
  note F = failBatchBeforeSend_Inr [OF f]
  let ?items = "update_where (\<lambda>t. it_payroll t = pid \<and> it_org t = orgID \<and> it_status t = PayrollProcessing)
           (\<lambda>t. t\<lparr>it_status := PayrollPending, it_sent_at := None, it_updated_at := now\<rparr>) (payroll_items db)"
  obtain p where p: "p \<in> set (payrolls db)" "pr_id p = pid" "pr_status p = PayrollProcessing" using F(1) by blast
  have same: "q = p" if "q \<in> set (payrolls db)" "pr_id q = pid" for q
    using that p I by (auto simp: batches_inv_def distinct_map inj_on_def)
  have "it_org t = orgID" if "t \<in> set (payroll_items db)" "it_payroll t = pid" for t
    using batch_of(1) [OF I that(1) p(1)] that p org by simp
  then have z: "items_in PayrollProcessing pid ?items = 0"
    by (auto simp: items_in_def count_where_update count_where_eq_0_iff)
  show ?thesis unfolding payroll_inv_def F(2)
  proof (simp, rule batches_inv_update [where pid = pid, OF I HOL.refl HOL.refl])
    fix q assume "q \<in> set (payrolls db)" "pr_id q = pid"
    then show "batch_ok ?items (if pr_id q = pid \<and> pr_status q = PayrollProcessing then stamp_payroll now PayrollFailed q else q)"
      using same p z by (simp add: batch_ok_def stamp_payroll_def)
  qed (simp_all add: stamp_payroll_def)
qed

lemma finalizePayroll_Inr:
  assumes inv: "payroll_inv db" and f: "finalizePayroll now db orgID pid = Inr db'"
  obtains p where "p \<in> set (payrolls db)" "pr_id p = pid" "pr_org p = orgID" "payroll_items db' = payroll_items db"
    "CanTransition (pr_status p) (closed_status (payroll_items db) orgID pid)"
    "payrolls db' = update_where (\<lambda>q. pr_id q = pid) (stamp_payroll now (closed_status (payroll_items db) orgID pid)) (payrolls db)"
proof -
  from f obtain p where fp: "payroll_FindByID db orgID pid = Inr p"
    and r: "reconcilePayrollStatus now db orgID pid (pr_status p) = Inr db'"
    by (auto simp: finalizePayroll_def rbind_eq_Inr)
  from fp have p: "p \<in> set (payrolls db)" "pr_id p = pid" "pr_org p = orgID"
    by (auto simp: payroll_FindByID_def dest!: find_row_Inr)
  have "q = p" if "q \<in> set (payrolls db)" "pr_id q = pid" for q
    using that p inv by (auto simp: payroll_inv_def batches_inv_def distinct_map inj_on_def)
  then have "update_where (\<lambda>q. pr_id q = pid \<and> pr_status q = pr_status p) g (payrolls db) =
      update_where (\<lambda>q. pr_id q = pid) g (payrolls db)" for g
    by (intro update_where_cong) auto
  then show thesis using that p reconcile_Inr [OF r p(1,2) HOL.refl] by simp
qed

lemma finalizePayroll_inv:
  assumes inv: "payroll_inv db" and f: "finalizePayroll now db orgID pid = Inr db'"
    and idle: "items_in PayrollProcessing pid (payroll_items db) = 0" "items_in PayrollPending pid (payroll_items db) = 0"
  shows "payroll_inv db'"
proof -
  have I: "batches_inv (payrolls db) (payroll_items db)" using inv by (simp add: payroll_inv_def)
  from inv f show ?thesis
  proof (cases rule: finalizePayroll_Inr)
    case (1 p)
    have org: "it_org t = orgID" if "t \<in> set (payroll_items db)" "it_payroll t = pid" for t
      using batch_of(1) [OF I that(1) 1(1)] that 1(2,3) by simp
    have items: "payroll_items db = update_where (\<lambda>_. False) (\<lambda>t. t) (payroll_items db)" by (simp add: update_where_def)
    show ?thesis unfolding payroll_inv_def 1(4)
    proof (rule batches_inv_update [where pid = pid, OF I 1(6) items])
      fix q assume "q \<in> set (payrolls db)" "pr_id q = pid"
      then show "batch_ok (payroll_items db) (if pr_id q = pid
          then stamp_payroll now (closed_status (payroll_items db) orgID pid) q else q)"
        using idle org by (simp add: closed_batch_ok stamp_payroll_def)
    qed (simp_all add: stamp_payroll_def)
  qed
qed

text \<open>Releasing failed items for another attempt.\<close>

lemma release_failed_Inr:
  fixes db :: "'z payroll_db_scheme"
  assumes "release_failed now db retry = Inr db'"
  shows "db' = db\<lparr>payroll_items := update_where (\<lambda>t. it_id t \<in> it_id ` set retry \<and> it_status t = PayrollFailed)
     (\<lambda>t. t\<lparr>it_status := PayrollPending, it_attempt := it_attempt t + 1, it_error := [], it_sent_at := None,
            it_settled_at := None, it_updated_at := now\<rparr>) (payroll_items db)\<rparr>"
  using assms by (cases "retry = []") (auto simp: release_failed_def Let_def update_items_def update_where_def split: if_splits)

lemma retry_body_Inr:
  assumes r: "retry_body now db orgID pid by = Inr (x, db')"
  obtains p retry where "p \<in> set (payrolls db)" "pr_id p = pid" "pr_org p = orgID" "pr_status p = PayrollFailed"
    "\<And>t. t \<in> set retry \<Longrightarrow> t \<in> set (payroll_items db) \<and> it_payroll t = pid" "payrolls db' = payrolls db"
    "payroll_items db' = update_where (\<lambda>t. it_id t \<in> it_id ` set retry \<and> it_status t = PayrollFailed)
     (\<lambda>t. t\<lparr>it_status := PayrollPending, it_attempt := it_attempt t + 1, it_error := [], it_sent_at := None,
            it_settled_at := None, it_updated_at := now\<rparr>) (payroll_items db)"
proof -
  from r obtain p where fp: "payroll_FindByID db orgID pid = Inr p" by (auto simp: retry_body_def rbind_eq_Inr)
  then have p: "p \<in> set (payrolls db)" "pr_id p = pid" "pr_org p = orgID"
    by (auto simp: payroll_FindByID_def dest!: find_row_Inr)
  let ?retry = "filter (is_active db orgID) (FindItemsByStatus db orgID pid PayrollFailed)"
  from r fp obtain db1 where st: "pr_status p = PayrollFailed" and rel: "release_failed now db ?retry = Inr db1"
    and "payrolls db' = payrolls db1" "payroll_items db' = payroll_items db1"
    by (auto simp: retry_body_def Let_def rbind_eq_Inr split: if_splits dest!: AppendAuditTx_Inr)
  moreover have "t \<in> set (payroll_items db) \<and> it_payroll t = pid" if "t \<in> set ?retry" for t
    using that by (auto simp: FindItemsByStatus_def with_status_def items_of_def)
  ultimately show thesis using that [of p ?retry] p release_failed_Inr [OF rel] by simp
qed

lemma retry_body_inv:
  assumes inv: "payroll_inv db" and r: "retry_body now db orgID pid by = Inr (x, db')"
  shows "payroll_inv db'"
proof -
  have I: "batches_inv (payrolls db) (payroll_items db)" using inv by (simp add: payroll_inv_def)
  from r show ?thesis
  proof (cases rule: retry_body_Inr)
    case (1 p retry)
    have ids: "it_payroll t = pid" if m: "t \<in> set (payroll_items db)" "it_id t \<in> it_id ` set retry" for t
    proof -
      obtain r where "r \<in> set retry" "it_id t = it_id r" using m(2) by auto
      then show ?thesis using 1(5) [of r] distinct_keyD [of it_id "payroll_items db" t r] I m(1) by (simp add: batches_inv_def)
    qed
    have ps: "payrolls db' = update_where (\<lambda>_. False) (\<lambda>q. q) (payrolls db)" using 1(6) by (simp add: update_where_def)
    have z: "items_in PayrollProcessing pid (payroll_items db) = 0" using I 1 by (auto simp: batches_inv_def batch_ok_def)
    then have z': "items_in PayrollProcessing pid (payroll_items db') = 0"
      unfolding 1(7) by (auto simp: items_in_def count_where_update count_where_eq_0_iff)
    show ?thesis unfolding payroll_inv_def
    proof (rule batches_inv_update [where pid = pid, OF I ps 1(7)])
      fix q assume "q \<in> set (payrolls db)" "pr_id q = pid"
      then have "q = p" using 1(1,2) I by (auto simp: batches_inv_def distinct_map inj_on_def)
      then show "batch_ok (payroll_items db') (if False then q else q)" using 1 z' by (simp add: batch_ok_def)
    qed (use ids in simp_all)
  qed
qed

subsection \<open>A concrete batch\<close>

definition demo_item :: "string \<Rightarrow> string \<Rightarrow> Kobo \<Rightarrow> PayrollItem" where
  "demo_item i emp amount =
     \<lparr>it_id = i, it_org = ''ORG-1'', it_payroll = ''PAY-1'', it_employee = emp, it_name = ''Ada'', it_amount = amount,
      it_status = PayrollPending, it_reference = [], it_error = [], it_attempt = 1, it_gross = Some amount, it_advances = Some 0,
      it_savings = Some 0, it_sent_at = None, it_settled_at = None, it_resolved_by = None, it_note = None, it_evidence = None,
      it_created_at = 0, it_updated_at = 0\<rparr>"

definition demo_run :: "Payroll list \<Rightarrow> PayrollItem list \<Rightarrow> payroll_db" where
  "demo_run ps items = savings_db.extend demo_savings \<lparr>payrolls = ps, payroll_items = items\<rparr>"

definition demo_batch :: Payroll where
  "demo_batch = \<lparr>pr_id = ''PAY-1'', pr_org = ''ORG-1'', pr_period = ''2026-08'', pr_total = 350050, pr_status = PayrollPending,
     pr_pending = 0, pr_created_at = 0, pr_updated_at = 0\<rparr>"

definition demo_created :: payroll_db where
  "demo_created = demo_run [demo_batch] [demo_item ''ITEM-a1'' ''EMP-h'' 150050, demo_item ''ITEM-b2'' ''EMP-h'' 200000]"

definition demo_orphan :: payroll_db where
  "demo_orphan = demo_run [demo_batch] [demo_item ''ITEM-a1'' ''EMP-gone'' 150050]"

definition started :: "payroll_db \<Rightarrow> payroll_db" where
  "started db = (case start_batch (Date 2026 8 31) db ''ORG-1'' ''PAY-1'' of Inl _ \<Rightarrow> db | Inr (_, db') \<Rightarrow> db')"

lemma demo_start:
  "\<exists>p ts. start_batch (Date 2026 8 31) demo_created ''ORG-1'' ''PAY-1'' = Inr ((p, ts), started demo_created) \<and> ts \<noteq> []"
  "\<exists>p. start_batch (Date 2026 8 31) demo_orphan ''ORG-1'' ''PAY-1'' = Inr ((p, []), started demo_orphan)"
proof -
  have "case start_batch (Date 2026 8 31) demo_created ''ORG-1'' ''PAY-1'' of Inr ((_, ts), _) \<Rightarrow> ts \<noteq> [] | _ \<Rightarrow> False" by code_simp
  then show "\<exists>p ts. start_batch (Date 2026 8 31) demo_created ''ORG-1'' ''PAY-1'' = Inr ((p, ts), started demo_created) \<and> ts \<noteq> []"
    unfolding started_def by (auto split: sum.splits)
  have "case start_batch (Date 2026 8 31) demo_orphan ''ORG-1'' ''PAY-1'' of Inr ((_, ts), _) \<Rightarrow> ts = [] | _ \<Rightarrow> False" by code_simp
  then show "\<exists>p. start_batch (Date 2026 8 31) demo_orphan ''ORG-1'' ''PAY-1'' = Inr ((p, []), started demo_orphan)"
    unfolding started_def by (auto split: sum.splits)
qed

lemma demo_run_inv: "ewa_inv (demo_run ps items)"
proof -
  have e: "ledger_accounts (demo_run ps items) = ledger_accounts demo_savings" "ledger_transactions (demo_run ps items) = ledger_transactions demo_savings"
    "ledger_entries (demo_run ps items) = ledger_entries demo_savings" "advances (demo_run ps items) = advances demo_savings"
    "organizations (demo_run ps items) = organizations demo_savings"
    by (simp_all add: demo_run_def savings_db.defs)
  have "OrgCurrencyTx (demo_run ps items) = OrgCurrencyTx demo_savings" by (simp add: OrgCurrencyTx_def fun_eq_iff e)
  then show ?thesis using demo_savings_base(1) ledger_cong [OF e(1-3)] by (simp add: ewa_inv_def e)
qed

lemma ewa_cong_payroll [simp]: "ewa_inv (db\<lparr>payrolls := ps, payroll_items := items\<rparr>) = ewa_inv db"
proof -
  let ?db = "db\<lparr>payrolls := ps, payroll_items := items\<rparr>"
  have "OrgCurrencyTx ?db = OrgCurrencyTx db" by (simp add: OrgCurrencyTx_def fun_eq_iff)
  then show ?thesis using ledger_cong [of ?db db] by (simp add: ewa_inv_def)
qed

lemma demo_created_inv: "payroll_inv demo_created" "payroll_inv (started demo_created)" "ewa_inv (started demo_created)"
proof -
  show p: "payroll_inv demo_created"
    by (simp add: payroll_inv_def batches_inv_def demo_created_def demo_run_def savings_db.defs demo_batch_def demo_item_def batch_ok_def
        items_in_def count_where_Cons)
  obtain q ts where s: "start_batch (Date 2026 8 31) demo_created ''ORG-1'' ''PAY-1'' = Inr ((q, ts), started demo_created)"
    using demo_start(1) by blast
  show "payroll_inv (started demo_created)" by (rule start_batch_inv [OF p s])
  from p s show "ewa_inv (started demo_created)"
  proof (rule start_batch_Inr)
    fix ps items assume "started demo_created = demo_created\<lparr>payrolls := update_where (\<lambda>q. pr_id q = ''PAY-1'')
         (\<lambda>q. q\<lparr>pr_status := PayrollProcessing, pr_pending := int (length ts), pr_updated_at := Date 2026 8 31\<rparr>) (payrolls demo_created),
       payroll_items := update_where (\<lambda>t. it_payroll t = ''PAY-1'' \<and> it_status t = PayrollPending)
         (handed (Date 2026 8 31) (has_employee demo_created ''ORG-1'')) (payroll_items demo_created)\<rparr>"
    then show ?thesis using demo_run_inv by (simp add: demo_created_def)
  qed
qed

end
