(* ===== verification/Webhooks.thy ===== *)
theory Webhooks
  imports Payroll_Invariant
begin

text \<open>
  The bank's callbacks (\<open>webhook_handler.go\<close>). A handler first reads the row the callback names,
  outside any transaction, and decides; then it commits in a transaction of its own. Both halves are
  definitions, so that the decision and the commit can be interleaved with other transactions.
  The HMAC and the JSON decoders of the handlers are arguments; an answer is the HTTP status.
\<close>

definition HasPrefix :: "string \<Rightarrow> string \<Rightarrow> bool" where
  "HasPrefix s p \<longleftrightarrow> take (length p) s = p"

record MonnifyWebhookPayload =
  wh_event :: string
  wh_reference :: string
  wh_amount :: string

record MonnifyFundingWebhookPayload =
  fw_reference :: string
  fw_amount :: string
  fw_account :: string

definition disbursedKobo :: "MonnifyWebhookPayload \<Rightarrow> Kobo res" where
  "disbursedKobo p = FromNairaString (wh_amount p)"

definition DISBURSEMENT_SUCCESSFUL :: string where
  "DISBURSEMENT_SUCCESSFUL = ''DISBURSEMENT_SUCCESSFUL''"

definition DISBURSEMENT_FAILED :: string where
  "DISBURSEMENT_FAILED = ''DISBURSEMENT_FAILED''"

text \<open>What a handler decided: answer at once, record a wrong amount, or commit an outcome.\<close>

datatype ('r, 's) decision = Answer nat | Mismatch 'r Kobo | Commit 'r 's

definition amount_mismatch ::
  "('z payroll_db_scheme) \<Rightarrow> string \<Rightarrow> string \<Rightarrow> string \<Rightarrow> Kobo \<Rightarrow> Kobo \<Rightarrow> string \<Rightarrow> nat \<times> ('z payroll_db_scheme)" where
  "amount_mismatch db orgID entity i expected reported ip =
     (422, snd (WithOrgScope db (\<lambda>db.
        rbind (AppendAuditTx db orgID entity i ''amount_mismatch'' (Kobo_String expected) (Kobo_String reported) ip [])
          (\<lambda>db'. Inr ((), db')))))"

text \<open>\<open>handlePayrollItemWebhook\<close>\<close>

definition item_decision :: "('z payroll_db_scheme) \<Rightarrow> MonnifyWebhookPayload \<Rightarrow> string \<Rightarrow> (PayrollItem, PayrollStatus) decision" where
  "item_decision db payload ref =
     (case ParseItemReference ref of
        None \<Rightarrow> Answer 404
      | Some (itemID, attempt) \<Rightarrow>
          (case find_row (\<lambda>t. it_id t = itemID) (payroll_items db) of
             Inl _ \<Rightarrow> Answer 404
           | Inr item \<Rightarrow>
               if attempt \<noteq> it_attempt item then Answer 200
               else if it_status item = PayrollCompleted \<or> it_status item = PayrollFailed then Answer 200
               else if wh_event payload = DISBURSEMENT_SUCCESSFUL then
                 (case disbursedKobo payload of
                    Inl _ \<Rightarrow> Answer 400
                  | Inr disbursed \<Rightarrow>
                      if disbursed \<noteq> it_amount item then Mismatch item disbursed
                      else if \<not> CanTransition (it_status item) PayrollCompleted then Answer 200
                      else Commit item PayrollCompleted)
               else if wh_event payload = DISBURSEMENT_FAILED then
                 (if \<not> CanTransition (it_status item) PayrollFailed then Answer 200 else Commit item PayrollFailed)
               else Answer 200))"

definition item_commit ::
  "time \<Rightarrow> string \<Rightarrow> ('z payroll_db_scheme) \<Rightarrow> PayrollItem \<Rightarrow> PayrollStatus \<Rightarrow> nat \<times> ('z payroll_db_scheme)" where
  "item_commit now ip db item newStatus =
     (case WithOrgScope db (\<lambda>db. SettlePayrollItem now db (it_org item) item newStatus
              \<lparr>src_ip = ip, src_actor = [], src_note = [], src_evidence = []\<rparr>) of
        (Inl _, db') \<Rightarrow> (500, db')
      | (Inr _, db') \<Rightarrow> (200, db'))"

definition handlePayrollItemWebhook ::
  "time \<Rightarrow> string \<Rightarrow> ('z payroll_db_scheme) \<Rightarrow> MonnifyWebhookPayload \<Rightarrow> string \<Rightarrow> nat \<times> ('z payroll_db_scheme)" where
  "handlePayrollItemWebhook now ip db payload ref =
     (case item_decision db payload ref of
        Answer code \<Rightarrow> (code, db)
      | Mismatch item disbursed \<Rightarrow>
          amount_mismatch db (it_org item) ''PayrollItem'' (it_id item) (it_amount item) disbursed ip
      | Commit item newStatus \<Rightarrow> item_commit now ip db item newStatus)"

text \<open>\<open>handleEWAAdvanceWebhook\<close>: \<open>True\<close> is a successful transfer.\<close>

definition advance_decision :: "('z payroll_db_scheme) \<Rightarrow> MonnifyWebhookPayload \<Rightarrow> string \<Rightarrow> (EWAAdvance, bool) decision" where
  "advance_decision db payload ref =
     (case find_row (\<lambda>a. adv_id a = ref) (advances db) of
        Inl _ \<Rightarrow> Answer 404
      | Inr adv \<Rightarrow>
          if adv_status adv \<noteq> AdvanceApproved then Answer 200
          else if wh_event payload = DISBURSEMENT_SUCCESSFUL then
            (case disbursedKobo payload of
               Inl _ \<Rightarrow> Answer 400
             | Inr disbursed \<Rightarrow> if disbursed \<noteq> adv_amount adv then Mismatch adv disbursed else Commit adv True)
          else if wh_event payload = DISBURSEMENT_FAILED then Commit adv False
          else Answer 200)"

text \<open>A transaction whose \<open>ErrStaleStatus\<close> means that another delivery won.\<close>

definition commit_once :: "'db \<Rightarrow> ('db \<Rightarrow> ('a \<times> 'db) res) \<Rightarrow> nat \<times> 'db" where
  "commit_once db fn =
     (case WithOrgScope db fn of
        (Inl e, db') \<Rightarrow> if e = ErrStaleStatus then (200, db') else (500, db')
      | (Inr _, db') \<Rightarrow> (200, db'))"

definition advance_commit :: "time \<Rightarrow> ('z payroll_db_scheme) \<Rightarrow> EWAAdvance \<Rightarrow> bool \<Rightarrow> nat \<times> ('z payroll_db_scheme)" where
  "advance_commit now db adv ok =
     commit_once db (\<lambda>db. if ok then ConfirmDisbursed now db adv
                          else CancelAdvance now db adv AdvanceApproved ''provider_disbursement_failed'')"

definition handleEWAAdvanceWebhook ::
  "time \<Rightarrow> string \<Rightarrow> ('z payroll_db_scheme) \<Rightarrow> MonnifyWebhookPayload \<Rightarrow> string \<Rightarrow> nat \<times> ('z payroll_db_scheme)" where
  "handleEWAAdvanceWebhook now ip db payload ref =
     (case advance_decision db payload ref of
        Answer code \<Rightarrow> (code, db)
      | Mismatch adv disbursed \<Rightarrow>
          amount_mismatch db (adv_org adv) ''EWAAdvance'' (adv_id adv) (adv_amount adv) disbursed ip
      | Commit adv ok \<Rightarrow> advance_commit now db adv ok)"

text \<open>\<open>handleHardshipGrantWebhook\<close>\<close>

definition grant_decision :: "('z payroll_db_scheme) \<Rightarrow> MonnifyWebhookPayload \<Rightarrow> string \<Rightarrow> (EWAHardshipGrant, bool) decision" where
  "grant_decision db payload ref =
     (case find_row (\<lambda>g. gr_id g = ref) (hardship_grants db) of
        Inl _ \<Rightarrow> Answer 404
      | Inr grant \<Rightarrow>
          if gr_status grant \<noteq> GrantPending \<and> gr_status grant \<noteq> GrantSubmitted then Answer 200
          else if wh_event payload = DISBURSEMENT_SUCCESSFUL then
            (case disbursedKobo payload of
               Inl _ \<Rightarrow> Answer 400
             | Inr disbursed \<Rightarrow> if disbursed \<noteq> gr_amount grant then Mismatch grant disbursed else Commit grant True)
          else if wh_event payload = DISBURSEMENT_FAILED then Commit grant False
          else Answer 200)"

definition grant_commit :: "time \<Rightarrow> ('z payroll_db_scheme) \<Rightarrow> EWAHardshipGrant \<Rightarrow> bool \<Rightarrow> nat \<times> ('z payroll_db_scheme)" where
  "grant_commit now db grant ok =
     commit_once db (\<lambda>db. if ok then ConfirmGrantDisbursed now db grant
                          else FailGrant db grant ''provider_disbursement_failed'')"

definition handleHardshipGrantWebhook ::
  "time \<Rightarrow> string \<Rightarrow> ('z payroll_db_scheme) \<Rightarrow> MonnifyWebhookPayload \<Rightarrow> string \<Rightarrow> nat \<times> ('z payroll_db_scheme)" where
  "handleHardshipGrantWebhook now ip db payload ref =
     (case grant_decision db payload ref of
        Answer code \<Rightarrow> (code, db)
      | Mismatch grant disbursed \<Rightarrow>
          amount_mismatch db (gr_org grant) ''EWAHardshipGrant'' (gr_id grant) (gr_amount grant) disbursed ip
      | Commit grant ok \<Rightarrow> grant_commit now db grant ok)"

definition handleFundingWebhook ::
  "('z payroll_db_scheme) \<Rightarrow> MonnifyFundingWebhookPayload option \<Rightarrow> nat \<times> ('z payroll_db_scheme)" where
  "handleFundingWebhook db decoded =
     (case decoded of
        None \<Rightarrow> (400, db)
      | Some payload \<Rightarrow>
          if fw_reference payload = [] \<or> fw_account payload = [] then (400, db)
          else (case find_row (\<lambda>f. fa_reference f = fw_account payload) (funding_accounts db) of
                  Inl _ \<Rightarrow> (404, db)
                | Inr account \<Rightarrow>
                    (case FromNairaString (fw_amount payload) of
                       Inl _ \<Rightarrow> (400, db)
                     | Inr amountKobo \<Rightarrow>
                         (case WithOrgScope db (\<lambda>db.
                             rbind (OrgCurrencyTx db (fa_org account)) (\<lambda>currency.
                             rbind (RecordEmployerFunding db (fa_org account) (KoboIn currency amountKobo) (fw_reference payload))
                               (\<lambda>db'. Inr ((), db')))) of
                            (Inl _, db') \<Rightarrow> (500, db')
                          | (Inr _, db') \<Rightarrow> (200, db')))))"

text \<open>
  \<open>HandleMonnifyWebhook\<close>: \<open>hmac_hex key body\<close> is the hex digest, \<open>envelope\<close>, \<open>decode\<close> and
  \<open>decode_funding\<close> the JSON decoders for the three payload types.
\<close>

definition HandleMonnifyWebhook ::
  "(string \<Rightarrow> string \<Rightarrow> string) \<Rightarrow> (string \<Rightarrow> string option) \<Rightarrow> (string \<Rightarrow> MonnifyWebhookPayload option)
     \<Rightarrow> (string \<Rightarrow> MonnifyFundingWebhookPayload option) \<Rightarrow> string \<Rightarrow> time \<Rightarrow> string
     \<Rightarrow> ('z payroll_db_scheme) \<Rightarrow> string \<Rightarrow> string option \<Rightarrow> nat \<times> ('z payroll_db_scheme)" where
  "HandleMonnifyWebhook hmac_hex envelope decode decode_funding secret now ip db signature body0 =
     (if secret = [] then (503, db)
      else case body0 of
        None \<Rightarrow> (400, db)
      | Some body \<Rightarrow>
          if signature \<noteq> hmac_hex secret body then (401, db)
          else (case envelope body of
                  None \<Rightarrow> (400, db)
                | Some event \<Rightarrow>
                    if event = ''SUCCESSFUL_TRANSACTION'' then handleFundingWebhook db (decode_funding body)
                    else (case decode body of
                            None \<Rightarrow> (400, db)
                          | Some payload \<Rightarrow>
                              let ref = wh_reference payload
                              in if ref = [] then (400, db)
                                 else if HasPrefix ref ''EWA-'' then handleEWAAdvanceWebhook now ip db payload ref
                                 else if HasPrefix ref ''GRANT-'' then handleHardshipGrantWebhook now ip db payload ref
                                 else handlePayrollItemWebhook now ip db payload ref)))"

subsection \<open>Redelivery\<close>

lemma find_row_update:
  "find_row (\<lambda>r. k r = i) rows = Inr r \<Longrightarrow> (\<And>r. k (f r) = k r) \<Longrightarrow>
   find_row (\<lambda>r. k r = i) (update_where P f rows) = Inr (if P r then f r else r)"
  by (induction rows) (auto simp: find_row_def)

lemma decision_Commit_item:
  assumes "item_decision db payload ref = Commit item st"
  obtains attempt where "ParseItemReference ref = Some (it_id item, attempt)" "attempt = it_attempt item"
    "find_row (\<lambda>t. it_id t = it_id item) (payroll_items db) = Inr item" "item \<in> set (payroll_items db)"
    "st = PayrollCompleted \<and> wh_event payload = DISBURSEMENT_SUCCESSFUL \<and> disbursedKobo payload = Inr (it_amount item) \<or>
     st = PayrollFailed \<and> wh_event payload = DISBURSEMENT_FAILED" "CanTransition (it_status item) st"
proof -
  from assms obtain itemID attempt where p: "ParseItemReference ref = Some (itemID, attempt)"
    by (auto simp: item_decision_def split: option.splits)
  with assms obtain r where r: "find_row (\<lambda>t. it_id t = itemID) (payroll_items db) = Inr r"
    by (auto simp: item_decision_def split: sum.splits)
  from assms p r have "r = item" "attempt = it_attempt item" and
    st: "st = PayrollCompleted \<and> wh_event payload = DISBURSEMENT_SUCCESSFUL \<and> disbursedKobo payload = Inr (it_amount item) \<or>
     st = PayrollFailed \<and> wh_event payload = DISBURSEMENT_FAILED" "CanTransition (it_status item) st"
    by (auto simp: item_decision_def split: if_splits sum.splits)
  moreover have "it_id item = itemID" "item \<in> set (payroll_items db)" using find_row_Inr [OF r] \<open>r = item\<close> by auto
  ultimately show thesis using that [of attempt] p r by simp
qed

lemma item_decision_settled:
  assumes "ParseItemReference ref = Some (i, it_attempt t)" "find_row (\<lambda>t. it_id t = i) (payroll_items db) = Inr t"
    "it_status t \<in> {PayrollCompleted, PayrollFailed}"
  shows "item_decision db payload ref = Answer 200"
  using assms by (auto simp: item_decision_def)

lemma item_redelivery:
  assumes d: "distinct (map it_id (payroll_items db))" and h: "handlePayrollItemWebhook now ip db payload ref = (200, db1)"
  shows "handlePayrollItemWebhook now2 ip2 db1 payload ref = (200, db1)"
proof (cases "item_decision db payload ref")
  case (Answer code) then show ?thesis using h by (simp add: handlePayrollItemWebhook_def)
next
  case (Mismatch item k) then show ?thesis using h by (simp add: handlePayrollItemWebhook_def amount_mismatch_def)
next
  case (Commit item st)
  then obtain attempt where c: "ParseItemReference ref = Some (it_id item, attempt)" "attempt = it_attempt item"
    "find_row (\<lambda>t. it_id t = it_id item) (payroll_items db) = Inr item" "item \<in> set (payroll_items db)"
    "st \<in> {PayrollCompleted, PayrollFailed}" by (rule decision_Commit_item) auto
  from h Commit obtain applied src where "SettlePayrollItem now db (it_org item) item st src = Inr (applied, db1)"
    by (auto simp: handlePayrollItemWebhook_def item_commit_def WithOrgScope_def split: sum.splits prod.splits)
  then show ?thesis using d
  proof (cases rule: SettlePayrollItem_Inr)
    case stale then show ?thesis using c(4) by auto
  next
    case (settled t f db3)
    have t: "t = item" using distinct_keyD [OF d settled(2) c(4) settled(3)] .
    have "payroll_items db1 = update_where (\<lambda>r. it_id r = it_id item) f (payroll_items db)"
      using settled(10) count_down_items [OF settled(8)] t by simp
    then have "find_row (\<lambda>t. it_id t = it_id item) (payroll_items db1) = Inr (f item)"
      using find_row_update [OF c(3), of f "\<lambda>r. it_id r = it_id item"] settled(6) by simp
    moreover have "it_attempt (f item) = attempt" using settled(6) [of item] c(2) by simp
    ultimately have "item_decision db1 payload ref = Answer 200"
      using c(1,5) settled(7) t by (intro item_decision_settled [of ref "it_id item" "f item"]) auto
    then show ?thesis by (simp add: handlePayrollItemWebhook_def)
  qed
qed

lemma commit_once_200:
  "commit_once db fn = (200, db1) \<longleftrightarrow> (\<exists>x. fn db = Inr (x, db1)) \<or> (fn db = Inl ErrStaleStatus \<and> db1 = db)"
  by (auto simp: commit_once_def WithOrgScope_def split: sum.splits)

lemma advance_commit_rows:
  assumes inv: "ewa_inv db" and c: "advance_commit now db adv ok = (200, db1)"
    and a: "adv \<in> set (advances db)" "adv_status adv = AdvanceApproved"
  obtains f where "\<And>r. adv_id (f r) = adv_id r" "adv_status (f adv) \<noteq> AdvanceApproved"
    "advances db1 = update_where (\<lambda>r. adv_id r = adv_id adv) f (advances db)"
proof (cases ok)
  case True
  have d: "distinct (map adv_id (advances db))" using inv by (simp add: ewa_inv_def)
  have "cas_advance now (advances db) (adv_id adv) AdvanceApproved AdvanceDisbursed \<noteq> Inl ErrStaleStatus"
    using a by (auto simp: cas_advance_def Let_def count_where_eq_0_iff)
  then have "ConfirmDisbursed now db adv \<noteq> Inl ErrStaleStatus"
    by (auto simp: ConfirmDisbursed_def TransitionAdvance_def rbind_eq_Inl AppendAuditTx_not_stale)
  then obtain adv' where "ConfirmDisbursed now db adv = Inr (adv', db1)"
    using c True by (auto simp: advance_commit_def commit_once_200)
  then obtain rows where rows: "cas_advance now (advances db) (adv_id adv) AdvanceApproved AdvanceDisbursed = Inr rows"
    and "advances db1 = rows"
    by (auto simp: ConfirmDisbursed_def TransitionAdvance_def rbind_eq_Inr dest!: AppendAuditTx_Inr)
  then have "advances db1 = update_where (\<lambda>r. adv_id r = adv_id adv) (stamp_advance now AdvanceDisbursed) (advances db)"
    using cas_advance_Inr [OF rows] cas_rows_eq [OF d a] by simp
  then show thesis by (intro that [of "stamp_advance now AdvanceDisbursed"]) simp_all
next
  case False
  have d: "distinct (map adv_id (advances db))" and l: "ledger_inv db" using inv by (simp_all add: ewa_inv_def)
  from c False obtain adv' where can: "CancelAdvance now db adv AdvanceApproved ''provider_disbursement_failed'' = Inr (adv', db1)"
    using CancelAdvance_not_stale [OF a] by (auto simp: advance_commit_def commit_once_200)
  from CancelAdvance_effect(1) [OF l d a can] show thesis by (rule that [rotated 2]) simp_all
qed

lemma decision_Commit_advance:
  assumes "advance_decision db payload ref = Commit adv ok"
  shows "find_row (\<lambda>a. adv_id a = ref) (advances db) = Inr adv" "adv_status adv = AdvanceApproved"
    "adv \<in> set (advances db)" "adv_id adv = ref" "ok \<Longrightarrow> disbursedKobo payload = Inr (adv_amount adv)"
proof -
  show "find_row (\<lambda>a. adv_id a = ref) (advances db) = Inr adv" "adv_status adv = AdvanceApproved"
    "ok \<Longrightarrow> disbursedKobo payload = Inr (adv_amount adv)"
    using assms by (auto simp: advance_decision_def split: sum.splits if_splits)
  then show "adv \<in> set (advances db)" "adv_id adv = ref" by (auto dest!: find_row_Inr)
qed

lemma advance_redelivery:
  assumes inv: "ewa_inv db" and h: "handleEWAAdvanceWebhook now ip db payload ref = (200, db1)"
  shows "handleEWAAdvanceWebhook now2 ip2 db1 payload ref = (200, db1)"
proof (cases "advance_decision db payload ref")
  case (Answer code) then show ?thesis using h by (simp add: handleEWAAdvanceWebhook_def)
next
  case (Mismatch adv k) then show ?thesis using h by (simp add: handleEWAAdvanceWebhook_def amount_mismatch_def)
next
  case (Commit adv ok)
  note d = decision_Commit_advance [OF Commit]
  have "advance_commit now db adv ok = (200, db1)" using h Commit by (simp add: handleEWAAdvanceWebhook_def)
  with inv obtain f where f: "\<And>r. adv_id (f r) = adv_id r" "adv_status (f adv) \<noteq> AdvanceApproved"
    and rows: "advances db1 = update_where (\<lambda>r. adv_id r = adv_id adv) f (advances db)"
    using advance_commit_rows d(2,3) by metis
  have "find_row (\<lambda>a. adv_id a = ref) (advances db1) = Inr (f adv)"
    using find_row_update [OF d(1) f(1), of "\<lambda>r. adv_id r = adv_id adv"] rows by simp
  then show ?thesis using f(2) by (simp add: handleEWAAdvanceWebhook_def advance_decision_def)
qed

lemma FailGrant_not_stale:
  "g \<in> set (hardship_grants db) \<Longrightarrow> grant_open (gr_id g) g \<Longrightarrow> FailGrant db g reason \<noteq> Inl ErrStaleStatus"
  by (auto simp: FailGrant_def Let_def rbind_eq_Inl count_where_eq_0_iff PostTransaction_not_stale EnsureAccount_not_stale
      AppendAuditTx_not_stale OrgCurrencyTx_not_stale split: prod.splits)

lemma grant_commit_rows:
  assumes inv: "ledger_inv db" and c: "grant_commit now db g ok = (200, db1)"
    and g: "g \<in> set (hardship_grants db)" "gr_status g \<in> {GrantPending, GrantSubmitted}"
  obtains f where "\<And>r. gr_id (f r) = gr_id r" "\<And>r. gr_status (f r) \<notin> {GrantPending, GrantSubmitted}"
    "hardship_grants db1 = update_where (grant_open (gr_id g)) f (hardship_grants db)"
proof (cases ok)
  case True
  have "count_where (grant_open (gr_id g)) (hardship_grants db) \<noteq> 0" using g by (auto simp: count_where_eq_0_iff grant_open_def)
  then show thesis using c True
    by (intro that [of "\<lambda>r. r\<lparr>gr_status := GrantDisbursed, gr_disbursed_at := Some now\<rparr>"])
      (auto simp: grant_commit_def commit_once_200 ConfirmGrantDisbursed_def Let_def rbind_eq_Inr rbind_eq_Inl
        AppendAuditTx_not_stale dest!: AppendAuditTx_Inr)
next
  case False
  have "grant_open (gr_id g) g" using g by (simp add: grant_open_def)
  then obtain g' where "FailGrant db g ''provider_disbursement_failed'' = Inr (g', db1)"
    using c False FailGrant_not_stale [OF g(1)] by (auto simp: grant_commit_def commit_once_200)
  with inv show thesis
  proof (rule FailGrant_Inr)
    assume "hardship_grants db1 = update_where (grant_open (gr_id g))
       (\<lambda>r. r\<lparr>gr_status := GrantFailed, gr_failure_reason := Some ''provider_disbursement_failed''\<rparr>) (hardship_grants db)"
    then show thesis
      by (intro that [of "\<lambda>r. r\<lparr>gr_status := GrantFailed, gr_failure_reason := Some ''provider_disbursement_failed''\<rparr>"]) simp_all
  qed
qed

lemma grant_redelivery:
  assumes inv: "ledger_inv db" and h: "handleHardshipGrantWebhook now ip db payload ref = (200, db1)"
  shows "handleHardshipGrantWebhook now2 ip2 db1 payload ref = (200, db1)"
proof (cases "grant_decision db payload ref")
  case (Answer code) then show ?thesis using h by (simp add: handleHardshipGrantWebhook_def)
next
  case (Mismatch g k) then show ?thesis using h by (simp add: handleHardshipGrantWebhook_def amount_mismatch_def)
next
  case (Commit g ok)
  then have f: "find_row (\<lambda>g. gr_id g = ref) (hardship_grants db) = Inr g" and st: "gr_status g \<in> {GrantPending, GrantSubmitted}"
    by (auto simp: grant_decision_def split: sum.splits if_splits)
  then have g: "g \<in> set (hardship_grants db)" "gr_id g = ref" by (auto dest!: find_row_Inr)
  have "grant_commit now db g ok = (200, db1)" using h Commit by (simp add: handleHardshipGrantWebhook_def)
  with inv show ?thesis using g(1) st
  proof (rule grant_commit_rows)
    fix f' assume f': "\<And>r. gr_id (f' r) = gr_id r" "\<And>r. gr_status (f' r) \<notin> {GrantPending, GrantSubmitted}"
      "hardship_grants db1 = update_where (grant_open (gr_id g)) f' (hardship_grants db)"
    have "find_row (\<lambda>g. gr_id g = ref) (hardship_grants db1) = Inr (f' g)"
      using find_row_update [OF f f'(1), of "grant_open (gr_id g)"] f'(3) st by (simp add: grant_open_def)
    then show ?thesis using f'(2) [of g] by (simp add: handleHardshipGrantWebhook_def grant_decision_def)
  qed
qed

text \<open>A deposit that was recorded is recorded: the accounts exist and the key is taken.\<close>

lemma find_row_append: "find_row P rows = Inr r \<Longrightarrow> find_row P (rows @ more1) = Inr r"
  by (induction rows) (auto simp: find_row_def)

lemma EnsureAccount_again:
  assumes e: "EnsureAccount db orgID emp ty c = Inr (a, db1)" and acc: "ledger_accounts db2 = ledger_accounts db1 @ new"
  shows "EnsureAccount db2 orgID emp ty c = Inr (a, db2)"
proof -
  let ?P = "\<lambda>b. acc_org b = orgID \<and> acc_type b = ty \<and> acc_currency b = c \<and> acc_employee b = (if emp = [] then None else Some emp)"
  obtain normal where n: "normalBalances ty = Some normal" "Currency_IsValid c"
    using e by (auto simp: EnsureAccount_def split: option.splits if_splits)
  have "find_row ?P (ledger_accounts db1) = Inr a"
  proof (cases "find_row ?P (ledger_accounts db)")
    case (Inl x)
    then have none: "\<forall>b \<in> set (ledger_accounts db). \<not> ?P b" by (simp add: find_row_Inl)
    have "ledger_accounts db1 = ledger_accounts db @ [a] \<and> ?P a"
      using e n Inl by (auto simp: EnsureAccount_def Let_def rbind_eq_Inr insert_row_Inr LedgerAccount_BeforeCreate_def)
    then show ?thesis using find_row_snoc [OF none, of a] by simp
  next
    case (Inr b) then show ?thesis using e n by (simp add: EnsureAccount_def Let_def)
  qed
  from find_row_append [OF this, of new] show ?thesis using n acc by (simp add: EnsureAccount_def Let_def)
qed

lemma PostTransaction_again:
  assumes "PostTransaction db req = Inr (t, db1)" "ledger_transactions db2 = ledger_transactions db1"
  shows "\<exists>t'. PostTransaction db2 req = Inr (t', db2)" "ledger_accounts db1 = ledger_accounts db"
proof -
  from assms(1) have "ValidatePosting req = Inr () \<and> posted db1 (req_org req) (req_key req) \<and> ledger_accounts db1 = ledger_accounts db"
    by (cases rule: PostTransaction_Inr) (auto simp: posted_def posting_row_def)
  then have v: "ValidatePosting req = Inr ()" "posted db2 (req_org req) (req_key req)" "ledger_accounts db1 = ledger_accounts db"
    using assms(2) by (auto simp: posted_def)
  show "ledger_accounts db1 = ledger_accounts db" by (rule v(3))
  from v(1,2) show "\<exists>t'. PostTransaction db2 req = Inr (t', db2)" by (rule PostTransaction_replay) blast
qed

lemma RecordEmployerFunding_again:
  assumes "RecordEmployerFunding db orgID amount ref = Inr db1"
  shows "RecordEmployerFunding db1 orgID amount ref = Inr db1"
proof -
  from assms obtain cash dba funding dbb t where
    e: "EnsureAccount db orgID [] AccountCashSettlement (Curr amount) = Inr (cash, dba)"
      "EnsureAccount dba orgID [] AccountEmployerFunding (Curr amount) = Inr (funding, dbb)"
      and p: "PostTransaction dbb (pair_request orgID ''employer_funding_deposit'' ref
              (funding_key ref) (acc_id cash) (acc_id funding) amount) = Inr (t, db1)"
    by (auto simp: RecordEmployerFunding_def rbind_eq_Inr)
  obtain new where "ledger_accounts dbb = ledger_accounts dba @ new" using e(2) by (rule EnsureAccount_Inr) auto
  then have "EnsureAccount db1 orgID [] AccountCashSettlement (Curr amount) = Inr (cash, db1)"
    "EnsureAccount db1 orgID [] AccountEmployerFunding (Curr amount) = Inr (funding, db1)"
    using EnsureAccount_again [OF e(1), of db1 new] EnsureAccount_again [OF e(2), of db1 "[]"] PostTransaction_again(2) [OF p HOL.refl]
    by simp_all
  then show ?thesis using PostTransaction_again(1) [OF p HOL.refl] by (auto simp: RecordEmployerFunding_def)
qed

lemma RecordEmployerFunding_orgs:
  "RecordEmployerFunding db orgID amount ref = Inr db1 \<Longrightarrow> ledger_frame db db1"
  by (auto simp: RecordEmployerFunding_def rbind_eq_Inr
      intro!: ledger_frame_trans [OF EnsureAccount_frame ledger_frame_trans [OF EnsureAccount_frame PostTransaction_frame]])

lemma funding_redelivery:
  assumes h: "handleFundingWebhook db p = (200, db1)"
  shows "handleFundingWebhook db1 p = (200, db1)"
proof -
  obtain payload where p: "p = Some payload" using h by (cases p) (auto simp: handleFundingWebhook_def)
  obtain account where a: "find_row (\<lambda>f. fa_reference f = fw_account payload) (funding_accounts db) = Inr account"
    and ne: "fw_reference payload \<noteq> []" "fw_account payload \<noteq> []"
    using h p by (auto simp: handleFundingWebhook_def split: sum.splits if_splits)
  obtain k where k: "FromNairaString (fw_amount payload) = Inr k"
    using h p a ne by (auto simp: handleFundingWebhook_def split: sum.splits)
  obtain c where c: "OrgCurrencyTx db (fa_org account) = Inr c"
    "RecordEmployerFunding db (fa_org account) (KoboIn c k) (fw_reference payload) = Inr db1"
    using h p a ne k by (auto simp: handleFundingWebhook_def WithOrgScope_def rbind_eq_Inr split: sum.splits prod.splits)
  have fr: "ledger_frame db db1" using RecordEmployerFunding_orgs [OF c(2)] .
  then show ?thesis
    using p a ne k c ledger_frame_grants [OF fr] ledger_frame_ewa(11) [OF fr] RecordEmployerFunding_again [OF c(2)]
    by (simp add: handleFundingWebhook_def WithOrgScope_def)
qed

text \<open>The other callbacks leave the payroll tables alone.\<close>

lemma ledger_frame_payroll:
  assumes "ledger_frame db db'"
  shows "payroll_items db' = payroll_items db" "payrolls db' = payrolls db"
proof -
  note e = assms [unfolded ledger_frame_def]
  show "payroll_items db' = payroll_items db" by (subst e) simp
  show "payrolls db' = payrolls db" by (subst e) simp
qed

lemma WithOrgScope_frame:
  "(\<And>x db'. fn db = Inr (x, db') \<Longrightarrow> g db' = g db) \<Longrightarrow> g (snd (WithOrgScope db fn)) = g db"
  by (auto simp: WithOrgScope_def split: sum.splits)

lemma commit_once_frame:
  "(\<And>x db'. fn db = Inr (x, db') \<Longrightarrow> g db' = g db) \<Longrightarrow> g (snd (commit_once db fn)) = g db"
  by (auto simp: commit_once_def WithOrgScope_def split: sum.splits)

lemma amount_mismatch_frame: "payroll_items (snd (amount_mismatch db orgID en i e r ip)) = payroll_items db"
  unfolding amount_mismatch_def snd_conv by (rule WithOrgScope_frame) (auto simp: rbind_eq_Inr dest!: AppendAuditTx_Inr)

lemma ConfirmDisbursed_payroll:
  "ConfirmDisbursed now db adv = Inr (x, db1) \<Longrightarrow> payroll_items db1 = payroll_items db"
  by (auto simp: ConfirmDisbursed_def TransitionAdvance_def rbind_eq_Inr dest!: AppendAuditTx_Inr)

lemma CancelAdvance_payroll:
  "CancelAdvance now db adv st reason = Inr (x, db1) \<Longrightarrow> payroll_items db1 = payroll_items db"
  by (auto simp: CancelAdvance_def TransitionAdvance_def update_advance_def rbind_eq_Inr Let_def
      dest!: AppendAuditTx_Inr EnsureAccount_frame PostTransaction_frame ledger_frame_payroll(1))

lemma ConfirmGrantDisbursed_payroll:
  "ConfirmGrantDisbursed now db g = Inr (x, db1) \<Longrightarrow> payroll_items db1 = payroll_items db"
  by (auto simp: ConfirmGrantDisbursed_def rbind_eq_Inr Let_def split: if_splits dest!: AppendAuditTx_Inr)

lemma FailGrant_payroll: "FailGrant db g reason = Inr (x, db1) \<Longrightarrow> payroll_items db1 = payroll_items db"
  by (auto simp: FailGrant_def rbind_eq_Inr Let_def split: if_splits
      dest!: AppendAuditTx_Inr EnsureAccount_frame PostTransaction_frame ledger_frame_payroll(1))

lemmas callback_frames = ConfirmDisbursed_payroll CancelAdvance_payroll ConfirmGrantDisbursed_payroll FailGrant_payroll

lemma advance_webhook_payroll: "payroll_items (snd (handleEWAAdvanceWebhook now ip db payload ref)) = payroll_items db"
  unfolding handleEWAAdvanceWebhook_def advance_commit_def
  by (auto simp: amount_mismatch_frame split: decision.split if_splits intro!: commit_once_frame dest: callback_frames)

lemma grant_webhook_payroll: "payroll_items (snd (handleHardshipGrantWebhook now ip db payload ref)) = payroll_items db"
  unfolding handleHardshipGrantWebhook_def grant_commit_def
  by (auto simp: amount_mismatch_frame split: decision.split if_splits intro!: commit_once_frame dest: callback_frames)

lemma funding_webhook_payroll: "payroll_items (snd (handleFundingWebhook db p)) = payroll_items db"
  by (auto simp: handleFundingWebhook_def WithOrgScope_def rbind_eq_Inr split: option.split sum.splits prod.splits
      dest!: RecordEmployerFunding_orgs ledger_frame_payroll(1))

subsection \<open>Properties of the callbacks\<close>


text \<open>
  No callback without the shared secret. With no secret configured, or with a signature
  that is not the HMAC of the body, the handler refuses and changes nothing.
\<close>

theorem webhook_forged:
  assumes "secret = [] \<or> signature \<noteq> hmac_hex secret body"
  shows "HandleMonnifyWebhook hmac_hex envelope decode decode_funding secret now ip db signature (Some body) =
    (if secret = [] then 503 else 401, db)"
  using assms by (auto simp: HandleMonnifyWebhook_def)

lemma item_webhook_completes:
  assumes d: "distinct (map it_id (payroll_items db))" and h: "handlePayrollItemWebhook now ip db payload ref = (code, db1)"
    and t: "t \<in> set (payroll_items db)" "it_status t \<noteq> PayrollCompleted"
    and t': "t' \<in> set (payroll_items db1)" "it_id t' = it_id t" "it_status t' = PayrollCompleted"
  shows "wh_event payload = DISBURSEMENT_SUCCESSFUL \<and> disbursedKobo payload = Inr (it_amount t) \<and>
    ParseItemReference ref = Some (it_id t, it_attempt t) \<and> it_status t = PayrollProcessing"
proof -
  have diff: "payroll_items db1 \<noteq> payroll_items db" using distinct_keyD [OF d t(1), of t'] t(2) t' by auto
  then obtain item st where dec: "item_decision db payload ref = Commit item st"
    using h by (cases "item_decision db payload ref")
      (auto simp: handlePayrollItemWebhook_def amount_mismatch_frame dest!: arg_cong [where f = snd])
  then obtain src applied where s: "SettlePayrollItem now db (it_org item) item st src = Inr (applied, db1)"
    using h diff by (auto simp: handlePayrollItemWebhook_def item_commit_def WithOrgScope_def split: sum.splits prod.splits)
  from s d show ?thesis
  proof (cases rule: SettlePayrollItem_Inr)
    case stale then show ?thesis using diff by simp
  next
    case (settled u f db3)
    have rows: "payroll_items db1 = update_where (\<lambda>r. it_id r = it_id u) f (payroll_items db)"
      using settled(10) count_down_items [OF settled(8)] by simp
    have u: "u = t"
    proof (rule ccontr)
      assume "u \<noteq> t"
      then have "it_id u \<noteq> it_id t" using distinct_keyD [OF d settled(2) t(1)] by auto
      then have "t' \<in> set (payroll_items db)"
        using t'(1,2) rows in_update_key [OF d settled(2), of t' f] settled(6) [of u] by auto
      then show False using distinct_keyD [OF d t(1), of t'] t t' by auto
    qed
    from dec have "item = t"
      by (rule decision_Commit_item) (use distinct_keyD [OF d, of item t] settled(3) t(1) u in simp)
    moreover have "st = PayrollCompleted"
    proof -
      have "t' = f t" using t' rows in_update_key [OF d settled(2), of t' f] u by auto
      then show ?thesis using settled(7) t'(3) u by simp
    qed
    ultimately show ?thesis using dec
      by (elim decision_Commit_item) (auto simp: CanTransition_iff)
  qed
qed

text \<open>
  C8: a callback marks an item paid only when the bank reported exactly the item's amount, under a
  valid signature, for the current attempt of an item that is with the bank.
\<close>

theorem webhook_pays_exactly:
  assumes "payroll_inv db"
    and h: "HandleMonnifyWebhook hmac_hex envelope decode decode_funding secret now ip db signature (Some body) = (code, db1)"
    and t: "t \<in> set (payroll_items db)" "it_status t \<noteq> PayrollCompleted"
    and t': "t' \<in> set (payroll_items db1)" "it_id t' = it_id t" "it_status t' = PayrollCompleted"
  shows "\<exists>payload. decode body = Some payload \<and> signature = hmac_hex secret body \<and> secret \<noteq> [] \<and>
    wh_event payload = DISBURSEMENT_SUCCESSFUL \<and> FromNairaString (wh_amount payload) = Inr (it_amount t) \<and>
    ParseItemReference (wh_reference payload) = Some (it_id t, it_attempt t) \<and> it_status t = PayrollProcessing"
proof -
  have d: "distinct (map it_id (payroll_items db))" using assms(1) by (simp add: payroll_inv_def batches_inv_def)
  have diff: "payroll_items db1 \<noteq> payroll_items db" using distinct_keyD [OF d t(1), of t'] t(2) t' by auto
  have frames: "handleFundingWebhook db p \<noteq> (code, db1)" "handleEWAAdvanceWebhook now ip db payload ref \<noteq> (code, db1)"
    "handleHardshipGrantWebhook now ip db payload ref \<noteq> (code, db1)" for p payload ref
    using diff funding_webhook_payroll [of db p] advance_webhook_payroll [of now ip db payload ref]
      grant_webhook_payroll [of now ip db payload ref] by auto
  from h diff frames obtain payload where p: "decode body = Some payload" "signature = hmac_hex secret body" "secret \<noteq> []"
    "handlePayrollItemWebhook now ip db payload (wh_reference payload) = (code, db1)"
    by (auto simp: HandleMonnifyWebhook_def Let_def split: option.splits if_splits)
  from item_webhook_completes [OF d p(4) t t'] p(1-3) show ?thesis by (auto simp: disbursedKobo_def)
qed

definition demo_delivery :: "string \<Rightarrow> string \<Rightarrow> string \<Rightarrow> payroll_db \<Rightarrow> nat \<times> payroll_db" where
  "demo_delivery event amount signature db =
     HandleMonnifyWebhook (\<lambda>key body. key @ body) Some
       (\<lambda>body. Some \<lparr>wh_event = event, wh_reference = ''ITEM-a1'', wh_amount = amount\<rparr>) (\<lambda>_. None) ''k'' (Date 2026 9 1) ''ip'' db signature
       (Some ''b'')"


theorem webhook_forged_witness:
  "demo_delivery DISBURSEMENT_SUCCESSFUL ''1500.50'' ''forged'' (started demo_created) = (401, started demo_created)"
  unfolding demo_delivery_def by (subst webhook_forged) simp_all

theorem webhook_pays_exactly_witness:
  "\<exists>t t'. t \<in> set (payroll_items (started demo_created)) \<and> it_amount t = 150050 \<and> it_status t = PayrollProcessing \<and>
     t' \<in> set (payroll_items (snd (demo_delivery DISBURSEMENT_SUCCESSFUL ''1500.50'' ''kb'' (started demo_created)))) \<and>
     it_id t' = it_id t \<and> it_status t' = PayrollCompleted"
proof -
  let ?run = "demo_delivery DISBURSEMENT_SUCCESSFUL ''1500.50'' ''kb'' (started demo_created)"
  let ?paid = "\<lambda>t t'. it_status t \<noteq> PayrollCompleted \<and> it_id t' = it_id t \<and> it_status t' = PayrollCompleted"
  have "list_ex (\<lambda>t. list_ex (?paid t) (payroll_items (snd ?run))) (payroll_items (started demo_created))" by code_simp
  then obtain t t' where t: "t \<in> set (payroll_items (started demo_created))" "t' \<in> set (payroll_items (snd ?run))" "?paid t t'"
    unfolding list_ex_iff by blast
  have run: "?run = (fst ?run, snd ?run)" by simp
  from webhook_pays_exactly [OF demo_created_inv(2) run [unfolded demo_delivery_def] t(1) _ t(2) [unfolded demo_delivery_def]] t(3)
  have "FromNairaString ''1500.50'' = Inr (it_amount t)" "it_status t = PayrollProcessing" by auto
  moreover have "FromNairaString ''1500.50'' = Inr 150050" by code_simp
  ultimately show ?thesis using t by auto
qed

end
