(* ===== verification/Payroll_Machine.thy ===== *)
theory Payroll_Machine
  imports Webhooks
begin

text \<open>
  The payroll tables under interleaving. A state is the database with the set of batches a worker holds:
  \<open>(organization, batch, True)\<close> between phase 1 and the bank's decision, \<open>(organization, batch, False)\<close>
  between phase 1 and the finalization of a batch with nothing to send. Every rule is one committed
  transaction of the program, or the loss of a worker.

  Two things about the environment are guards of the rules: the bank calls back only about a batch it
  has decided on, and an operator does not resolve an item of a batch that is just being submitted
  (an item is resolvable only two hours after it was sent).
\<close>

type_synonym ticket = "string \<times> string \<times> bool"

definition may_call_back :: "ticket set \<Rightarrow> ('z payroll_db_scheme) \<Rightarrow> string \<Rightarrow> bool" where
  "may_call_back held db i \<longleftrightarrow> (\<forall>t \<in> set (payroll_items db). it_id t = i \<longrightarrow> (it_org t, it_payroll t, True) \<notin> held)"

text \<open>What \<open>CreatePayroll\<close> adds.\<close>

definition batch_created :: "('z payroll_db_scheme) \<Rightarrow> ('z payroll_db_scheme) \<Rightarrow> Payroll \<Rightarrow> PayrollItem list \<Rightarrow> bool" where
  "batch_created db db' p new \<longleftrightarrow>
     payrolls db' = payrolls db @ [p] \<and> payroll_items db' = payroll_items db @ new \<and>
     pr_id p \<notin> pr_id ` set (payrolls db) \<and> pr_status p = PayrollPending \<and>
     distinct (map it_id (payroll_items db')) \<and>
     (\<forall>t \<in> set new. it_payroll t = pr_id p \<and> it_org t = pr_org p \<and> it_status t \<in> {PayrollPending, PayrollCompleted})"

inductive payroll_step ::
  "('z payroll_db_scheme) \<times> ticket set \<Rightarrow> ('z payroll_db_scheme) \<times> ticket set \<Rightarrow> bool" where
  create: "batch_created db db' p new \<Longrightarrow> payroll_step (db, held) (db', held)"
| start: "start_batch now db orgID pid = Inr ((payroll, sendable), db') \<Longrightarrow>
    payroll_step (db, held) (db', insert (orgID, pid, sendable \<noteq> []) held)"
| finalize: "(orgID, pid, False) \<in> held \<Longrightarrow> finalizePayroll now db orgID pid = Inr db' \<Longrightarrow>
    payroll_step (db, held) (db', held - {(orgID, pid, False)})"
| accepted: "(orgID, pid, True) \<in> held \<Longrightarrow> payroll_step (db, held) (db, held - {(orgID, pid, True)})"
| refused: "(orgID, pid, True) \<in> held \<Longrightarrow> failBatchBeforeSend now db orgID pid = Inr db' \<Longrightarrow>
    payroll_step (db, held) (db', held - {(orgID, pid, True)})"
| crash: "k \<in> held \<Longrightarrow> payroll_step (db, held) (db, held - {k})"
| callback: "handlePayrollItemWebhook now ip db payload ref = (code, db') \<Longrightarrow>
    (\<And>i a. ParseItemReference ref = Some (i, a) \<Longrightarrow> may_call_back held db i) \<Longrightarrow> payroll_step (db, held) (db', held)"
| resolve: "ResolveItem now db orgID pid i outcome note1 evidence actor = (res, db') \<Longrightarrow> may_call_back held db i \<Longrightarrow>
    payroll_step (db, held) (db', held)"
| retry: "retry_body now db orgID pid actor = Inr (x, db') \<Longrightarrow> payroll_step (db, held) (db', held)"
| other: "payrolls db' = payrolls db \<Longrightarrow> payroll_items db' = payroll_items db \<Longrightarrow> payroll_step (db, held) (db', held)"

inductive_cases payroll_stepE: "payroll_step (db, held) (db', held')"

inductive payroll_reachable :: "('z payroll_db_scheme) \<times> ticket set \<Rightarrow> bool" where
  initial: "payrolls db = [] \<Longrightarrow> payroll_items db = [] \<Longrightarrow> payroll_reachable (db, {})"
| step: "payroll_reachable s \<Longrightarrow> payroll_step s s' \<Longrightarrow> payroll_reachable s'"

subsection \<open>Every transaction touches one batch\<close>

definition only_batch :: "string \<Rightarrow> ('z payroll_db_scheme) \<Rightarrow> ('z payroll_db_scheme) \<Rightarrow> bool" where
  "only_batch pid db db' \<longleftrightarrow>
     (\<forall>q. pr_id q \<noteq> pid \<longrightarrow> (q \<in> set (payrolls db') \<longleftrightarrow> q \<in> set (payrolls db))) \<and>
     (\<forall>t. it_payroll t \<noteq> pid \<longrightarrow> (t \<in> set (payroll_items db') \<longleftrightarrow> t \<in> set (payroll_items db)))"

lemma other_rows:
  assumes "\<And>r. k (f r) = k r" "\<And>r. r \<in> set rows \<Longrightarrow> P r \<Longrightarrow> k r = i" "k r \<noteq> i"
  shows "r \<in> set (update_where P f rows) \<longleftrightarrow> r \<in> set rows"
  using assms by (auto simp: in_update_where)

lemma only_batch_update:
  assumes "payrolls db' = update_where Q g (payrolls db)" "payroll_items db' = update_where P f (payroll_items db)"
    "\<And>q. pr_id (g q) = pr_id q" "\<And>t. it_payroll (f t) = it_payroll t"
    "\<And>q. q \<in> set (payrolls db) \<Longrightarrow> Q q \<Longrightarrow> pr_id q = pid" "\<And>t. t \<in> set (payroll_items db) \<Longrightarrow> P t \<Longrightarrow> it_payroll t = pid"
  shows "only_batch pid db db'"
  unfolding only_batch_def assms(1,2)
  using other_rows [of pr_id g "payrolls db" Q pid] other_rows [of it_payroll f "payroll_items db" P pid] assms(3-6) by blast

lemma update_none: "rows = update_where (\<lambda>_. False) (\<lambda>r. r) rows"
  by (simp add: update_where_def)

text \<open>What a settlement through a callback or by an operator does to the payroll tables.\<close>

definition settles :: "('z payroll_db_scheme) \<Rightarrow> ('z payroll_db_scheme) \<Rightarrow> PayrollItem \<Rightarrow> bool" where
  "settles db db' t \<longleftrightarrow> t \<in> set (payroll_items db) \<and> it_status t \<in> {PayrollPending, PayrollProcessing} \<and>
     payroll_inv db' \<and> only_batch (it_payroll t) db db' \<and>
     (\<exists>f. payroll_items db' = update_where (\<lambda>r. it_id r = it_id t) f (payroll_items db) \<and>
        (\<forall>r. it_id (f r) = it_id r \<and> it_payroll (f r) = it_payroll r \<and> it_org (f r) = it_org r \<and> it_attempt (f r) = it_attempt r \<and>
           it_amount (f r) = it_amount r))"

lemma settle_settles:
  assumes inv: "payroll_inv db" and s: "SettlePayrollItem now db orgID item nxt src = Inr (applied, db')"
    and item: "item \<in> set (payroll_items db)" "it_org item = orgID" and nxt: "nxt \<in> {PayrollCompleted, PayrollFailed}"
  shows "settles db db' item"
proof -
  note I = inv_parts [OF inv]
  have snap: "\<forall>t \<in> set (payroll_items db). it_id t = it_id item \<longrightarrow> it_payroll t = it_payroll item \<and> it_org t = orgID"
    using distinct_keyD [OF I(2) item(1)] item(2) by metis
  note inv' = settle_batches_inv [OF inv s nxt snap]
  from inv s snap show ?thesis
  proof (cases rule: SettlePayrollItem_effect)
    case stale then show ?thesis using item by blast
  next
    case (settled t f p g)
    have t: "t = item" using distinct_keyD [OF I(2) settled(2) item(1) settled(3)] .
    have "only_batch (it_payroll t) db db'"
      by (rule only_batch_update [OF settled(13,8)])
        (use settled(6,12) distinct_keyD [OF I(2) _ settled(2)] in auto)
    moreover have "it_status t \<in> {PayrollPending, PayrollProcessing}" using settled(5) nxt by (auto simp: CanTransition_iff)
    ultimately show ?thesis using settled(2,6,8) inv' t by (auto simp: settles_def)
  qed
qed

lemma callback_settles:
  assumes inv: "payroll_inv db" and h: "handlePayrollItemWebhook now ip db payload ref = (code, db')"
  obtains "payrolls db' = payrolls db" "payroll_items db' = payroll_items db"
  | item a where "ParseItemReference ref = Some (it_id item, a)" "settles db db' item"
proof (cases "item_decision db payload ref")
  case (Answer c) then show thesis using h that(1) by (simp add: handlePayrollItemWebhook_def)
next
  case (Mismatch item k)
  then show thesis using h that(1)
    by (auto simp: handlePayrollItemWebhook_def amount_mismatch_def WithOrgScope_def rbind_eq_Inr split: sum.splits dest!: AppendAuditTx_Inr)
next
  case (Commit item st)
  from h Commit consider "db' = db" | applied src where "SettlePayrollItem now db (it_org item) item st src = Inr (applied, db')"
    by (auto simp: handlePayrollItemWebhook_def item_commit_def WithOrgScope_def split: sum.splits)
  then show thesis
  proof cases
    case 1 then show thesis using that(1) by simp
  next
    case 2
    from Commit obtain a where "ParseItemReference ref = Some (it_id item, a)" "item \<in> set (payroll_items db)"
      "st \<in> {PayrollCompleted, PayrollFailed}" by (rule decision_Commit_item) auto
    then show thesis using that(2) settle_settles [OF inv 2] by blast
  qed
qed

lemma resolve_settles:
  assumes inv: "payroll_inv db" and h: "ResolveItem now db orgID pid i outcome note1 evidence actor = (res, db')"
  obtains "db' = db" | item where "it_id item = i" "settles db db' item"
proof (cases "resolve_target outcome (TrimSpace note1) (TrimSpace evidence)")
  case (Inl e) then show thesis using h that(1) by (simp add: ResolveItem_def)
next
  case (Inr nxt)
  then have nxt: "nxt \<in> {PayrollCompleted, PayrollFailed}" by (auto simp: resolve_target_def split: ResolveOutcome.splits if_splits)
  show thesis
  proof (cases "db' = db")
    case True then show thesis by (rule that(1))
  next
    case False
    then obtain item applied src where f: "FindItem db orgID pid i = Inr item"
      and s: "SettlePayrollItem now db orgID item nxt src = Inr (applied, db')"
      using h Inr by (auto simp: ResolveItem_def WithOrgScope_def rbind_eq_Inr split: sum.splits if_splits)
    from f have "item \<in> set (payroll_items db)" "it_org item = orgID" "it_id item = i" by (auto simp: FindItem_def dest!: find_row_Inr)
    then show thesis using that(2) settle_settles [OF inv s _ _ nxt] by blast
  qed
qed

subsection \<open>The invariant of the interleaving\<close>

definition batch_is :: "('z payroll_db_scheme) \<Rightarrow> string \<Rightarrow> string \<Rightarrow> PayrollStatus \<Rightarrow> bool" where
  "batch_is db orgID pid s \<longleftrightarrow> (\<exists>p \<in> set (payrolls db). pr_id p = pid \<and> pr_org p = orgID \<and> pr_status p = s)"

definition nothing_out :: "('z payroll_db_scheme) \<Rightarrow> string \<Rightarrow> bool" where
  "nothing_out db pid \<longleftrightarrow> (\<forall>t \<in> set (payroll_items db). it_payroll t = pid \<longrightarrow> it_status t \<notin> {PayrollPending, PayrollProcessing})"

definition ticket_ok :: "('z payroll_db_scheme) \<Rightarrow> ticket \<Rightarrow> bool" where
  "ticket_ok db k \<longleftrightarrow> (case k of (orgID, pid, sent) \<Rightarrow> batch_is db orgID pid PayrollProcessing \<and> (\<not> sent \<longrightarrow> nothing_out db pid))"

definition machine_inv :: "('z payroll_db_scheme) \<times> ticket set \<Rightarrow> bool" where
  "machine_inv s \<longleftrightarrow> (case s of (db, held) \<Rightarrow>
     payroll_inv db \<and> (\<forall>k \<in> held. ticket_ok db k) \<and>
     (\<forall>k \<in> held. \<forall>k' \<in> held. fst (snd k) = fst (snd k') \<longrightarrow> k = k'))"

lemma batch_is_unique: "payroll_inv db \<Longrightarrow> batch_is db o1 pid s \<Longrightarrow> batch_is db o2 pid s2 \<Longrightarrow> s = s2 \<and> o1 = o2"
  unfolding batch_is_def by (metis distinct_keyD inv_parts(3))

text \<open>Tickets of other batches are not concerned.\<close>

lemma ticket_elsewhere:
  "only_batch pid db db' \<Longrightarrow> ticket_ok db (o1, pid1, b) \<Longrightarrow> pid1 \<noteq> pid \<Longrightarrow> ticket_ok db' (o1, pid1, b)"
  unfolding only_batch_def ticket_ok_def batch_is_def nothing_out_def by auto

lemma processing_nothing_pending:
  assumes inv: "payroll_inv db" and b: "batch_is db o1 pid PayrollProcessing" and t: "t \<in> set (payroll_items db)" "it_payroll t = pid"
  shows "it_status t \<noteq> PayrollPending"
proof
  assume "it_status t = PayrollPending"
  obtain p where p: "p \<in> set (payrolls db)" "pr_id p = pid" "pr_status p = PayrollProcessing" using b by (auto simp: batch_is_def)
  then have "items_in PayrollPending pid (payroll_items db) = 0"
    using inv_parts(1) [OF inv] by (auto simp: batches_inv_def batch_ok_def)
  then show False using items_in_pos [OF t \<open>it_status t = PayrollPending\<close>] by simp
qed

lemma settle_tickets:
  assumes m: "machine_inv (db, held)" and s: "settles db db' t" and c: "may_call_back held db (it_id t)"
  shows "machine_inv (db', held)"
proof -
  have inv: "payroll_inv db" using m by (simp add: machine_inv_def)
  have t: "t \<in> set (payroll_items db)" "it_status t \<in> {PayrollPending, PayrollProcessing}" "payroll_inv db'" "only_batch (it_payroll t) db db'"
    using s by (auto simp: settles_def)
  have "ticket_ok db' k" if k: "k \<in> held" for k
  proof -
    obtain o1 pid b where kk: "k = (o1, pid, b)" by (cases k)
    have ok: "ticket_ok db (o1, pid, b)" using m k kk by (auto simp: machine_inv_def)
    have "pid \<noteq> it_payroll t"
    proof
      assume pid: "pid = it_payroll t"
      obtain p where p: "p \<in> set (payrolls db)" "pr_id p = it_payroll t" "pr_org p = o1"
        using ok pid by (auto simp: ticket_ok_def batch_is_def)
      have "it_org t = o1" using batch_of(1) [OF inv_parts(1) [OF inv] t(1) p(1,2)] p(3) by simp
      then have "\<not> b" using c t(1) k kk pid by (auto simp: may_call_back_def)
      then show False using ok t(1,2) pid by (auto simp: ticket_ok_def nothing_out_def)
    qed
    then show ?thesis using ticket_elsewhere [OF t(4) ok] kk by simp
  qed
  then show ?thesis using m t(3) by (simp add: machine_inv_def)
qed

lemma machine_inv_local:
  assumes m: "machine_inv (db, held)" and inv: "payroll_inv db'" and l: "only_batch pid db db'"
    and sub: "held' \<subseteq> held" and rest: "\<And>o1 b. (o1, pid, b) \<in> held' \<Longrightarrow> ticket_ok db' (o1, pid, b)"
  shows "machine_inv (db', held')"
proof -
  have "ticket_ok db' k" if "k \<in> held'" for k
    using that sub rest ticket_elsewhere [OF l] m by (cases k; cases "fst (snd k) = pid") (auto simp: machine_inv_def)
  moreover have "k = k'" if "k \<in> held'" "k' \<in> held'" "fst (snd k) = fst (snd k')" for k k'
    using that m sub unfolding machine_inv_def prod.case by blast
  ultimately show ?thesis using inv by (simp add: machine_inv_def)
qed

lemma create_inv:
  assumes inv: "payroll_inv db" and c: "batch_created db db' p new"
  shows "payroll_inv db'" "only_batch (pr_id p) db db'" "\<not> batch_is db o1 (pr_id p) s"
proof -
  note I = inv_parts [OF inv]
  have c': "payrolls db' = payrolls db @ [p]" "payroll_items db' = payroll_items db @ new" "pr_id p \<notin> pr_id ` set (payrolls db)"
    "pr_status p = PayrollPending" "distinct (map it_id (payroll_items db'))"
    "\<And>t. t \<in> set new \<Longrightarrow> it_payroll t = pr_id p \<and> it_org t = pr_org p \<and> it_status t \<noteq> PayrollProcessing"
    using c unfolding batch_created_def by (blast, blast, blast, blast, blast, fastforce)
  have old: "it_payroll t \<noteq> pr_id p" if "t \<in> set (payroll_items db)" for t
    using I(1) that c'(3) by (auto simp: batches_inv_def) (metis image_eqI)
  show "only_batch (pr_id p) db db'" using c' by (auto simp: only_batch_def)
  show "\<not> batch_is db o1 (pr_id p) s" using c'(3) unfolding batch_is_def by (metis image_eqI)
  have "batch_ok (payroll_items db') q" if q: "q \<in> set (payrolls db)" for q
  proof -
    have "pr_id q \<noteq> pr_id p" using q c'(3) by (metis image_eqI)
    then have "items_in s (pr_id q) (payroll_items db') = items_in s (pr_id q) (payroll_items db)" for s
      using c'(6) unfolding c'(2) items_in_def count_where_append by (auto simp: count_where_eq_0_iff)
    moreover have "(\<forall>t \<in> set (payroll_items db'). it_payroll t = pr_id q \<longrightarrow> it_status t = PayrollCompleted) =
        (\<forall>t \<in> set (payroll_items db). it_payroll t = pr_id q \<longrightarrow> it_status t = PayrollCompleted)"
      using c'(2,6) \<open>pr_id q \<noteq> pr_id p\<close> by auto
    ultimately show ?thesis using I(1) q by (cases "pr_status q") (auto simp: batches_inv_def batch_ok_def)
  qed
  moreover have "batch_ok (payroll_items db') p"
    using c'(2,4,6) old by (auto simp: batch_ok_def items_in_def count_where_eq_0_iff)
  ultimately show "payroll_inv db'"
    using I(1) c' by (auto simp: payroll_inv_def batches_inv_def)
qed

text \<open>Each rule keeps the invariant.\<close>

lemma start_tickets:
  assumes m: "machine_inv (db, held)" and s: "start_batch now db orgID pid = Inr ((payroll, sendable), db')"
  shows "machine_inv (db', insert (orgID, pid, sendable \<noteq> []) held)"
proof -
  have inv: "payroll_inv db" using m by (simp add: machine_inv_def)
  note inv' = start_batch_inv [OF inv s]
  from inv s show ?thesis
  proof (cases rule: start_batch_Inr)
    case (1 p)
    let ?g = "\<lambda>q. q\<lparr>pr_status := PayrollProcessing, pr_pending := int (length sendable), pr_updated_at := now\<rparr>"
    have "?g p \<in> set (payrolls db')" using 1(1,2) unfolding 1(8) by (auto simp: in_update_where intro!: bexI [of _ p])
    then have b: "batch_is db' orgID pid PayrollProcessing" "batch_ok (payroll_items db') (?g p)"
      using 1(2,3) inv_parts(1) [OF inv'] by (auto simp: batch_is_def batches_inv_def intro!: bexI [of _ "?g p"])
    have "nothing_out db' pid" if "sendable = []"
      using b(2) that 1(2) by (auto simp: batch_ok_def nothing_out_def items_in_def count_where_eq_0_iff)
    then have new: "ticket_ok db' (orgID, pid, sendable \<noteq> [])" using b(1) by (simp add: ticket_ok_def)
    have "batch_is db orgID pid (pr_status p)" using 1(1-3) by (auto simp: batch_is_def)
    then have free: "(o1, pid, b) \<notin> held" for o1 b
      using batch_is_unique [OF inv] 1(4) m by (fastforce simp: machine_inv_def ticket_ok_def)
    have "payrolls db' = update_where (\<lambda>q. pr_id q = pid) ?g (payrolls db)"
      "payroll_items db' = update_where (\<lambda>t. it_payroll t = pid \<and> it_status t = PayrollPending)
        (handed now (has_employee db orgID)) (payroll_items db)" by (simp_all add: 1(8))
    then have l: "only_batch pid db db'" by (rule only_batch_update) simp_all
    have "machine_inv (db', held)" by (rule machine_inv_local [OF m inv' l order.refl]) (use free in blast)
    then show ?thesis using new free unfolding machine_inv_def by auto
  qed
qed

lemma drop_ticket:
  assumes m: "machine_inv (db, held)" and k: "(o1, pid, b) \<in> held" and inv: "payroll_inv db'" and l: "only_batch pid db db'"
  shows "machine_inv (db', held - {(o1, pid, b)})"
proof (rule machine_inv_local [OF m inv l])
  fix o2 b2 assume "(o2, pid, b2) \<in> held - {(o1, pid, b)}"
  then show "ticket_ok db' (o2, pid, b2)" using m k by (force simp: machine_inv_def)
qed blast

lemma finalize_tickets:
  assumes m: "machine_inv (db, held)" and k: "(orgID, pid, False) \<in> held" and f: "finalizePayroll now db orgID pid = Inr db'"
  shows "machine_inv (db', held - {(orgID, pid, False)})"
proof -
  have inv: "payroll_inv db" and out: "nothing_out db pid" using m k by (auto simp: machine_inv_def ticket_ok_def)
  then have "items_in PayrollProcessing pid (payroll_items db) = 0" "items_in PayrollPending pid (payroll_items db) = 0"
    by (auto simp: nothing_out_def items_in_def count_where_eq_0_iff)
  note inv' = finalizePayroll_inv [OF inv f this]
  from inv f show ?thesis
  proof (cases rule: finalizePayroll_Inr)
    case (1 p)
    have "payroll_items db' = update_where (\<lambda>_. False) (\<lambda>r. r) (payroll_items db)" using 1(4) update_none by simp
    then have "only_batch pid db db'" by (rule only_batch_update [OF 1(6)]) (simp_all add: stamp_payroll_def)
    then show ?thesis by (rule drop_ticket [OF m k inv'])
  qed
qed

lemma refused_tickets:
  assumes m: "machine_inv (db, held)" and k: "(orgID, pid, True) \<in> held" and f: "failBatchBeforeSend now db orgID pid = Inr db'"
  shows "machine_inv (db', held - {(orgID, pid, True)})"
proof -
  have inv: "payroll_inv db" and b: "batch_is db orgID pid PayrollProcessing" using m k by (auto simp: machine_inv_def ticket_ok_def)
  have "pr_org p = orgID" if "p \<in> set (payrolls db)" "pr_id p = pid" for p
    using that b distinct_keyD [OF inv_parts(3) [OF inv] that(1)] unfolding batch_is_def by metis
  then have inv': "payroll_inv db'" using failBatchBeforeSend_inv [OF inv f] by blast
  have "payrolls db' = update_where (\<lambda>q. pr_id q = pid \<and> pr_status q = PayrollProcessing) (stamp_payroll now PayrollFailed) (payrolls db)"
    "payroll_items db' = update_where (\<lambda>t. it_payroll t = pid \<and> it_org t = orgID \<and> it_status t = PayrollProcessing)
      (\<lambda>t. t\<lparr>it_status := PayrollPending, it_sent_at := None, it_updated_at := now\<rparr>) (payroll_items db)"
    by (simp_all add: failBatchBeforeSend_Inr(2) [OF f])
  then have "only_batch pid db db'" by (rule only_batch_update) (simp_all add: stamp_payroll_def)
  then show ?thesis by (rule drop_ticket [OF m k inv'])
qed

lemma retry_tickets:
  assumes m: "machine_inv (db, held)" and r: "retry_body now db orgID pid actor = Inr (x, db')"
  shows "machine_inv (db', held)"
proof -
  have inv: "payroll_inv db" using m by (simp add: machine_inv_def)
  note inv' = retry_body_inv [OF inv r]
  from r show ?thesis
  proof (cases rule: retry_body_Inr)
    case (1 p retry)
    have own: "it_payroll t = pid" if m: "t \<in> set (payroll_items db)" "it_id t \<in> it_id ` set retry" for t
    proof -
      obtain r where r: "r \<in> set retry" "it_id t = it_id r" using m(2) by auto
      then show ?thesis using 1(5) [OF r(1)] distinct_keyD [OF inv_parts(2) [OF inv] m(1), of r] by simp
    qed
    have "payrolls db' = update_where (\<lambda>_. False) (\<lambda>r. r) (payrolls db)" using 1(6) update_none by simp
    then have l: "only_batch pid db db'" by (rule only_batch_update [OF _ 1(7)]) (use own in simp_all)
    have "batch_is db orgID pid PayrollFailed" using 1(1-4) by (auto simp: batch_is_def)
    then have "(o1, pid, b) \<notin> held" for o1 b
      using batch_is_unique [OF inv] m by (fastforce simp: machine_inv_def ticket_ok_def)
    then show ?thesis by (intro machine_inv_local [OF m inv' l order.refl]) blast
  qed
qed

lemma machine_inv_same:
  assumes "machine_inv (db, held)" "payrolls db' = payrolls db" "payroll_items db' = payroll_items db"
  shows "machine_inv (db', held)"
  using assms by (simp add: machine_inv_def payroll_inv_def ticket_ok_def batch_is_def nothing_out_def split: prod.splits)

lemma step_inv:
  assumes "payroll_step s s'" "machine_inv s" shows "machine_inv s'"
  using assms
proof (induction rule: payroll_step.induct)
  case (create db db' p new held)
  then have inv: "payroll_inv db" by (simp add: machine_inv_def)
  note c = create_inv [OF inv create.hyps]
  show ?case
  proof (rule machine_inv_local [OF create.prems c(1,2) order.refl])
    fix o1 b assume "(o1, pr_id p, b) \<in> held"
    then show "ticket_ok db' (o1, pr_id p, b)" using c(3) create.prems by (auto simp: machine_inv_def ticket_ok_def)
  qed
next
  case start then show ?case by (blast intro: start_tickets)
next
  case finalize then show ?case by (blast intro: finalize_tickets)
next
  case (accepted orgID pid held db) then show ?case by (auto simp: machine_inv_def)
next
  case refused then show ?case by (blast intro: refused_tickets)
next
  case (crash k held db) then show ?case by (auto simp: machine_inv_def)
next
  case (callback now ip db payload ref code db' held)
  then have inv: "payroll_inv db" by (simp add: machine_inv_def)
  from inv callback.hyps(1) show ?case
    by (rule callback_settles) (use callback in \<open>blast intro: machine_inv_same settle_tickets\<close>)+
next
  case (resolve now db orgID pid i outcome note1 evidence actor res db' held)
  then have inv: "payroll_inv db" by (simp add: machine_inv_def)
  from inv resolve.hyps(1) show ?case
    by (rule resolve_settles) (use resolve in \<open>blast intro: settle_tickets\<close>)+
next
  case retry then show ?case by (blast intro: retry_tickets)
next
  case other then show ?case by (blast intro: machine_inv_same)
qed

lemma reachable_inv: "payroll_reachable s \<Longrightarrow> machine_inv s"
proof (induction rule: payroll_reachable.induct)
  case (initial db) then show ?case by (simp add: machine_inv_def payroll_inv_def batches_inv_def)
next
  case (step s s') then show ?case using step_inv by blast
qed

subsection \<open>Items only move forward\<close>

definition items_follow :: "PayrollItem list \<Rightarrow> PayrollItem list \<Rightarrow> bool" where
  "items_follow items items' \<longleftrightarrow> (\<forall>t \<in> set items. \<exists>t' \<in> set items'.
     it_id t' = it_id t \<and> it_payroll t' = it_payroll t \<and> it_amount t' = it_amount t \<and> it_attempt t \<le> it_attempt t' \<and>
     (it_status t = PayrollCompleted \<longrightarrow> it_status t' = PayrollCompleted))"

lemma items_follow_refl: "set items \<subseteq> set items' \<Longrightarrow> items_follow items items'"
  by (auto simp: items_follow_def)

lemma items_follow_trans: "items_follow a b \<Longrightarrow> items_follow b c \<Longrightarrow> items_follow a c"
  unfolding items_follow_def by (metis order.trans)

lemma items_follow_update:
  assumes "items' = update_where P f items" "\<And>t. t \<in> set items \<Longrightarrow> P t \<Longrightarrow> it_status t \<noteq> PayrollCompleted"
    "\<And>t. it_id (f t) = it_id t \<and> it_payroll (f t) = it_payroll t \<and> it_amount (f t) = it_amount t \<and> it_attempt t \<le> it_attempt (f t)"
  shows "items_follow items items'"
  unfolding items_follow_def
proof
  fix t assume t: "t \<in> set items"
  then have "(if P t then f t else t) \<in> set items'" unfolding assms(1) in_update_where by blast
  then show "\<exists>t' \<in> set items'. it_id t' = it_id t \<and> it_payroll t' = it_payroll t \<and> it_amount t' = it_amount t \<and>
      it_attempt t \<le> it_attempt t' \<and> (it_status t = PayrollCompleted \<longrightarrow> it_status t' = PayrollCompleted)"
    by (rule bexI [rotated]) (use assms(2,3) t in auto)
qed

lemma settles_follow:
  assumes inv: "payroll_inv db" and s: "settles db db' t"
  shows "items_follow (payroll_items db) (payroll_items db')"
proof -
  obtain f where f: "payroll_items db' = update_where (\<lambda>r. it_id r = it_id t) f (payroll_items db)"
    "\<And>r. it_id (f r) = it_id r \<and> it_payroll (f r) = it_payroll r \<and> it_amount (f r) = it_amount r \<and> it_attempt (f r) = it_attempt r"
    and t: "t \<in> set (payroll_items db)" "it_status t \<noteq> PayrollCompleted" using s by (auto simp: settles_def)
  show ?thesis
  proof (rule items_follow_update [OF f(1)])
    fix r assume "r \<in> set (payroll_items db)" "it_id r = it_id t"
    then show "it_status r \<noteq> PayrollCompleted" using distinct_keyD [OF inv_parts(2) [OF inv] _ t(1)] t(2) by blast
  qed (simp add: f(2))
qed

lemma step_follow:
  assumes "payroll_step s s'" "machine_inv s"
  shows "items_follow (payroll_items (fst s)) (payroll_items (fst s'))"
  using assms
proof (induction rule: payroll_step.induct)
  case (create db db' p new held)
  then show ?case by (intro items_follow_refl) (auto simp: batch_created_def)
next
  case (start now db orgID pid payroll sendable db' held)
  have inv: "payroll_inv db" using start by (simp add: machine_inv_def)
  from inv start.hyps show ?case
  proof (cases rule: start_batch_Inr)
    case (1 p)
    have "payroll_items db' = update_where (\<lambda>t. it_payroll t = pid \<and> it_status t = PayrollPending)
        (handed now (has_employee db orgID)) (payroll_items db)" by (simp add: 1(8))
    then show ?thesis unfolding fst_conv by (rule items_follow_update) simp_all
  qed
next
  case (finalize orgID pid held now db db')
  have inv: "payroll_inv db" using finalize by (simp add: machine_inv_def)
  from inv finalize.hyps(2) show ?case by (rule finalizePayroll_Inr) (simp add: items_follow_refl)
next
  case (refused orgID pid held now db db')
  have "payroll_items db' = update_where (\<lambda>t. it_payroll t = pid \<and> it_org t = orgID \<and> it_status t = PayrollProcessing)
      (\<lambda>t. t\<lparr>it_status := PayrollPending, it_sent_at := None, it_updated_at := now\<rparr>) (payroll_items db)"
    by (simp add: failBatchBeforeSend_Inr(2) [OF refused.hyps(2)])
  then show ?case unfolding fst_conv by (rule items_follow_update) simp_all
next
  case (callback now ip db payload ref code db' held)
  have inv: "payroll_inv db" using callback by (simp add: machine_inv_def)
  from inv callback.hyps(1) show ?case by (rule callback_settles) (simp_all add: items_follow_refl settles_follow [OF inv])
next
  case (resolve now db orgID pid i outcome note1 evidence actor res db' held)
  have inv: "payroll_inv db" using resolve by (simp add: machine_inv_def)
  from inv resolve.hyps(1) show ?case by (rule resolve_settles) (simp_all add: items_follow_refl settles_follow [OF inv])
next
  case (retry now db orgID pid actor x db' held)
  from retry.hyps show ?case unfolding fst_conv
    by (rule retry_body_Inr) (erule items_follow_update, simp_all)
qed (simp_all add: items_follow_refl)

lemma run_inv: "payroll_step\<^sup>*\<^sup>* s s' \<Longrightarrow> machine_inv s \<Longrightarrow> machine_inv s'"
  by (induction rule: rtranclp_induct) (blast intro: step_inv)+

lemma run_follow:
  assumes "payroll_step\<^sup>*\<^sup>* s s'" "machine_inv s"
  shows "items_follow (payroll_items (fst s)) (payroll_items (fst s'))"
  using assms
proof (induction rule: rtranclp_induct)
  case base show ?case by (simp add: items_follow_refl)
next
  case (step y z)
  then show ?case using step_follow [OF step.hyps(2) run_inv [OF step.hyps(1)]] items_follow_trans by blast
qed

subsection \<open>A batch with nothing left to send and no worker\<close>

text \<open>A ticket nobody holds may be added: the remaining steps do not notice it.\<close>

lemma phantom_step:
  assumes "payroll_step s s'" "machine_inv s" "batch_is (fst s) orgID pid PayrollProcessing" "\<forall>o1 b. (o1, pid, b) \<notin> snd s"
  shows "payroll_step (fst s, insert (orgID, pid, False) (snd s)) (fst s', insert (orgID, pid, False) (snd s')) \<and>
    (\<forall>o1 b. (o1, pid, b) \<notin> snd s')"
  using assms
proof (induction rule: payroll_step.induct)
  case (start now db o1 pid1 payroll sendable db' held)
  have inv: "payroll_inv db" using start by (simp add: machine_inv_def)
  from inv start.hyps have "pid1 \<noteq> pid"
  proof (rule start_batch_Inr)
    fix p assume p: "p \<in> set (payrolls db)" "pr_id p = pid1" "pr_org p = o1" "pr_status p \<in> {PayrollPending, PayrollFailed}"
    then have "batch_is db o1 pid1 (pr_status p)" by (auto simp: batch_is_def)
    then show "pid1 \<noteq> pid" using batch_is_unique [OF inv, of o1 pid1 "pr_status p" orgID PayrollProcessing] start.prems(2) p(4) by auto
  qed
  then show ?case using payroll_step.start [OF start.hyps, of "insert (orgID, pid, False) held"] start.prems(3)
    by (simp add: insert_commute)
next
  case (finalize o1 pid1 held now db db')
  then have "pid1 \<noteq> pid" by auto
  then show ?case using payroll_step.finalize [of o1 pid1 "insert (orgID, pid, False) held"] finalize by (auto simp: insert_Diff_if)
next
  case (accepted o1 pid1 held db)
  then have "pid1 \<noteq> pid" by auto
  then show ?case using payroll_step.accepted [of o1 pid1 "insert (orgID, pid, False) held"] accepted by (auto simp: insert_Diff_if)
next
  case (refused o1 pid1 held now db db')
  then have "pid1 \<noteq> pid" by auto
  then show ?case using payroll_step.refused [of o1 pid1 "insert (orgID, pid, False) held"] refused by (auto simp: insert_Diff_if)
next
  case (crash k held db)
  then have "k \<noteq> (orgID, pid, False)" by auto
  then show ?case using payroll_step.crash [of k "insert (orgID, pid, False) held"] crash by (auto simp: insert_Diff_if)
next
  case (callback now ip db payload ref code db' held)
  then have "may_call_back (insert (orgID, pid, False) held) db i" if "ParseItemReference ref = Some (i, a)" for i a
    using that by (auto simp: may_call_back_def)
  then show ?case using payroll_step.callback [OF callback.hyps(1)] callback.prems by auto
next
  case (resolve now db o1 pid1 i outcome note1 evidence actor res db' held)
  then have "may_call_back (insert (orgID, pid, False) held) db i" by (auto simp: may_call_back_def)
  then show ?case using payroll_step.resolve [OF resolve.hyps(1)] resolve.prems by auto
qed (auto intro: payroll_step.intros)

lemma machine_inv_insert:
  assumes "machine_inv (db, held)" "ticket_ok db (orgID, pid, b)" "\<forall>o1 b. (o1, pid, b) \<notin> held"
  shows "machine_inv (db, insert (orgID, pid, b) held)"
proof -
  have "\<forall>k \<in> held. fst (snd k) \<noteq> pid" using assms(3) by (metis prod.collapse)
  then show ?thesis using assms(1,2) unfolding machine_inv_def prod.case by (metis fst_conv insert_iff snd_conv)
qed

definition stranded :: "('z payroll_db_scheme) \<times> ticket set \<Rightarrow> string \<Rightarrow> string \<Rightarrow> bool" where
  "stranded s orgID pid \<longleftrightarrow> batch_is (fst s) orgID pid PayrollProcessing \<and> nothing_out (fst s) pid \<and> (\<forall>o1 b. (o1, pid, b) \<notin> snd s)"

lemma stranded_step:
  assumes "payroll_step s s'" "machine_inv s" "stranded s orgID pid"
  shows "stranded s' orgID pid"
proof -
  have m: "machine_inv (fst s, insert (orgID, pid, False) (snd s))"
    using assms(2,3) by (intro machine_inv_insert) (auto simp: ticket_ok_def stranded_def)
  have p: "payroll_step (fst s, insert (orgID, pid, False) (snd s)) (fst s', insert (orgID, pid, False) (snd s'))"
    "\<forall>o1 b. (o1, pid, b) \<notin> snd s'" using phantom_step [OF assms(1,2)] assms(3) by (auto simp: stranded_def)
  from step_inv [OF p(1) m] p(2) show ?thesis by (auto simp: machine_inv_def ticket_ok_def stranded_def)
qed

lemma stranded_run:
  assumes "payroll_step\<^sup>*\<^sup>* s s'" "machine_inv s" "stranded s orgID pid"
  shows "stranded s' orgID pid"
  using assms by (induction rule: rtranclp_induct) (blast intro: stranded_step run_inv)+

subsection \<open>The worker's task is a run\<close>

lemma task_is_run:
  assumes t: "ProcessPayrollTask bank wallet now db orgID pid = (res, req, db')" and free: "\<forall>b. (orgID, pid, b) \<notin> held"
  shows "payroll_step\<^sup>*\<^sup>* (db, held) (db', held)"
proof (cases "start_batch now db orgID pid")
  case (Inl e) then show ?thesis using t by (simp add: ProcessPayrollTask_def)
next
  case (Inr x)
  obtain payroll sendable db1 where x: "x = ((payroll, sendable), db1)" by (metis prod.exhaust)
  let ?k = "(orgID, pid, sendable \<noteq> [])"
  have s: "payroll_step (db, held) (db1, insert ?k held)" using payroll_step.start [of now db orgID pid payroll sendable db1 held] Inr x by simp
  have drop: "insert ?k held - {?k} = held" using free by auto
  have c: "payroll_step (db1, insert ?k held) (db1, held)" using payroll_step.crash [of ?k "insert ?k held" db1] drop by simp
  have "payroll_step (db1, insert ?k held) (db', held)"
  proof (cases "sendable = []")
    case True
    then consider "db' = db1" | "finalizePayroll now db1 orgID pid = Inr db'"
      using t Inr x by (auto simp: ProcessPayrollTask_def split: sum.splits)
    then show ?thesis using payroll_step.finalize [of orgID pid "insert ?k held" now db1 db'] c drop True by cases auto
  next
    case False
    then consider "db' = db1" | "failBatchBeforeSend now db1 orgID pid = Inr db'"
      using t Inr x by (auto simp: ProcessPayrollTask_def Let_def split: sum.splits bulk_response.splits if_splits)
    then show ?thesis using payroll_step.refused [of orgID pid "insert ?k held" now db1 db'] c drop False by cases auto
  qed
  then show ?thesis using s by auto
qed

subsection \<open>References\<close>

definition reference_ok :: "PayrollItem \<Rightarrow> bool" where
  "reference_ok t \<longleftrightarrow> 1 \<le> it_attempt t \<and> it_attempt t < 2 ^ 63 \<and>
     take 5 (it_id t) = ''ITEM-'' \<and> drop 5 (it_id t) \<noteq> [] \<and> list_all is_alnum (drop 5 (it_id t))"

lemma strip_prefix_append [simp]: "strip_prefix p (p @ s) = Some s"
  by (induction p) auto

lemma ItemReference_parse:
  assumes "reference_ok t"
  shows "ParseItemReference (ItemReference t) = Some (it_id t, it_attempt t)"
proof -
  let ?b = "drop 5 (it_id t)" and ?n = "it_attempt t"
  have id: "it_id t = ''ITEM-'' @ ?b" using assms append_take_drop_id [of 5 "it_id t"] by (simp add: reference_ok_def)
  have b: "?b \<noteq> []" "\<forall>c \<in> set ?b. is_alnum c" and n: "1 \<le> ?n" "?n < 2 ^ 63"
    using assms by (auto simp: reference_ok_def list_all_iff)
  show ?thesis
  proof (cases "?n \<le> 1")
    case True
    have tw: "takeWhile is_alnum ?b = ?b" "dropWhile is_alnum ?b = []" using b(2) by (auto simp: takeWhile_eq_all_conv dropWhile_eq_Nil_conv)
    have "strip_prefix ''ITEM-'' (it_id t) = Some ?b" by (subst id, rule strip_prefix_append)
    moreover have "ItemReference t = it_id t" "?n = 1" using True n by (simp_all add: ItemReference_def)
    ultimately show ?thesis using b(1) id [symmetric] unfolding ParseItemReference_def Let_def by (simp add: tw del: takeWhile_eq_all_conv)
  next
    case False
    let ?s = "''-R'' @ format_nat ?n"
    have nal: "\<not> is_alnum (CHR ''-'')" by (simp add: is_alnum_def is_digit_def)
    have tw: "takeWhile is_alnum (?b @ ?s) = ?b" "dropWhile is_alnum (?b @ ?s) = ?s"
      using b(2) nal by (auto simp: takeWhile_append dropWhile_append)
    have ref: "ItemReference t = ''ITEM-'' @ (?b @ ?s)" using False id n(1) by (simp add: ItemReference_def FormatInt_def)
    have d: "list_all is_digit (format_nat ?n)" using format_nat_digits [of ?n] n by (simp add: list_all_iff)
    have "ParseInt (format_nat ?n) = Some (word_of_int ?n)" using n by (simp add: ParseInt_format_nat in64_def)
    moreover have "sint (word_of_int ?n :: int64) = ?n" using n by (simp add: in64_def)
    moreover have "strip_prefix ''-R'' ?s = Some (format_nat ?n)" by (rule strip_prefix_append)
    moreover have "\<not> (word_of_int ?n :: int64) <s 2" using calculation(2) False by (simp add: word_sless_alt)
    ultimately show ?thesis
      unfolding ParseItemReference_def ref strip_prefix_append Let_def option.case tw using b(1) d id [symmetric] by simp
  qed
qed


subsection \<open>A settlement goes through\<close>

text \<open>The next \<open>k\<close> identifiers of the UUID stream are not yet in the audit log.\<close>

definition fresh_run :: "nat \<Rightarrow> ('z base_db_scheme) \<Rightarrow> bool" where
  "fresh_run k db \<longleftrightarrow>
     (let ids = map (\<lambda>n. ''AUD-'' @ take 8 (uuids db n)) [uuid_next db..<uuid_next db + k]
      in distinct ids \<and> list_all (\<lambda>i. i \<notin> aud_id ` set (audit_events db)) ids)"

lemma fresh_run_cong:
  "uuids db' = uuids db \<Longrightarrow> uuid_next db' = uuid_next db \<Longrightarrow> audit_events db' = audit_events db \<Longrightarrow> fresh_run k db' = fresh_run k db"
  by (simp add: fresh_run_def)

lemma fresh_run_mono: "fresh_run m db \<Longrightarrow> k \<le> m \<Longrightarrow> fresh_run k db"
  by (auto simp: fresh_run_def Let_def list_all_iff distinct_map inj_on_def)

lemma AppendAuditTx_fresh:
  assumes "fresh_run (Suc k) db"
  obtains db' where "AppendAuditTx db o1 et ei ac be af ip ky = Inr db'" "fresh_run k db'"
proof -
  let ?ids = "map (\<lambda>n. ''AUD-'' @ take 8 (uuids db n)) [Suc (uuid_next db)..<Suc (uuid_next db) + k]"
  have "[uuid_next db..<uuid_next db + Suc k] = uuid_next db # [Suc (uuid_next db)..<Suc (uuid_next db) + k]"
    by (simp add: upt_conv_Cons del: upt_Suc)
  then have d: "distinct (fresh_id ''AUD-'' db # ?ids)"
    and n: "\<forall>i \<in> set (fresh_id ''AUD-'' db # ?ids). i \<notin> aud_id ` set (audit_events db)"
    using assms unfolding fresh_run_def Let_def list_all_iff fresh_id_def by (simp_all del: upt_Suc)
  then have a0: "fresh_id ''AUD-'' db \<notin> aud_id ` set (audit_events db)" by simp
  obtain db' where db': "AppendAuditTx db o1 et ei ac be af ip ky = Inr db'"
    using a0 by (simp add: AppendAuditTx_def appendAuditOn_def AuditEvent_BeforeCreate_def insert_row_def Let_def)
  then have e: "uuids db' = uuids db" "uuid_next db' = Suc (uuid_next db)"
    "aud_id ` set (audit_events db') = insert (fresh_id ''AUD-'' db) (aud_id ` set (audit_events db))"
    using a0 by (auto simp: AppendAuditTx_def appendAuditOn_def AuditEvent_BeforeCreate_def insert_row_def Let_def take_uuid_def)
  have "fresh_run k db'" unfolding fresh_run_def Let_def list_all_iff e using d n by (metis distinct.simps(2) insert_iff list.set_intros(2))
  then show thesis using that db' by blast
qed

lemma count_down_ok:
  assumes d: "distinct (map pr_id (payrolls db))" and p: "p \<in> set (payrolls db)" "pr_id p = pid" "pr_status p = PayrollProcessing"
    and k: "fresh_run (Suc k) db"
  obtains db' where "count_down now db orgID pid = Inr db'" "fresh_run k db'"
proof (cases "find_row (\<lambda>p. pr_id p = pid \<and> pr_org p = orgID \<and> 0 < pr_pending p) (payrolls db)")
  case (Inl e)
  then show thesis using that [of db] fresh_run_mono [OF k, of k] by (simp add: count_down_def)
next
  case (Inr q)
  then have st: "pr_status q = PayrollProcessing" using find_row_Inr [OF Inr] distinct_keyD [OF d _ p(1), of q] p by auto
  let ?rows = "update_where (\<lambda>p. pr_id p = pid \<and> pr_org p = orgID \<and> 0 < pr_pending p)
     (\<lambda>p. p\<lparr>pr_pending := pr_pending p - 1, pr_updated_at := now\<rparr>) (payrolls db)"
  let ?db1 = "db\<lparr>payrolls := ?rows\<rparr>"
  have k1: "fresh_run (Suc k) ?db1" using k by (simp add: fresh_run_def)
  show thesis
  proof (cases "pr_pending q = 1")
    case False
    then show thesis using that [of ?db1] Inr fresh_run_mono [OF k1, of k] by (simp add: count_down_def)
  next
    case True
    let ?nxt = "closed_status (payroll_items db) orgID pid"
    have can: "CanTransition PayrollProcessing ?nxt" by (simp add: CanTransition_iff closed_status_def)
    show thesis
    proof (cases "cas_payroll now ?rows pid PayrollProcessing ?nxt")
      case (Inl e)
      then have "e = ErrStaleStatus" using can by (auto simp: cas_payroll_def Let_def split: if_splits)
      then have "reconcilePayrollStatus now ?db1 orgID pid PayrollProcessing = Inr ?db1"
        using Inl by (simp add: reconcilePayrollStatus_def closed_status_count TransitionStatus_payroll_def Let_def)
      then show thesis using that [of ?db1] Inr True st \<open>find_row _ _ = Inr q\<close> fresh_run_mono [OF k1, of k] by (simp add: count_down_def)
    next
      case rows: (Inr rows)
      have "fresh_run (Suc k) (?db1\<lparr>payrolls := rows\<rparr>)" using k by (simp add: fresh_run_def)
      then obtain db' where "AppendAuditTx (?db1\<lparr>payrolls := rows\<rparr>) orgID ''Payroll'' pid ''reconciled'' (PayrollStatus_string ?nxt)
          (PayrollStatus_string ?nxt) ''internal'' [] = Inr db'" "fresh_run k db'" by (rule AppendAuditTx_fresh)
      moreover have "reconcilePayrollStatus now ?db1 orgID pid PayrollProcessing =
          AppendAuditTx (?db1\<lparr>payrolls := rows\<rparr>) orgID ''Payroll'' pid ''reconciled'' (PayrollStatus_string ?nxt)
          (PayrollStatus_string ?nxt) ''internal'' []"
        using rows by (simp add: reconcilePayrollStatus_def closed_status_count TransitionStatus_payroll_def Let_def)
      ultimately show thesis using that [of db'] Inr True st by (simp add: count_down_def)
    qed
  qed
qed

lemma settle_goes_through:
  assumes inv: "payroll_inv db" and t: "t \<in> set (payroll_items db)" "it_status t = PayrollProcessing"
    and nxt: "nxt \<in> {PayrollCompleted, PayrollFailed}" and k: "fresh_run (Suc (Suc k)) db"
  obtains db' where "SettlePayrollItem now db (it_org t) t nxt src = Inr (True, db')" "fresh_run k db'"
proof -
  note I = inv_parts [OF inv]
  obtain p where p: "p \<in> set (payrolls db)" "pr_id p = it_payroll t" using I(1) t(1) by (auto simp: batches_inv_def)
  have st: "pr_status p = PayrollProcessing" using batch_status_of_item(1) [OF batch_of(2) [OF I(1) t(1) p] t(1) p(2) [symmetric] t(2)] .
  have "\<exists>rows. cas_item now (payroll_items db) (it_id t) (it_status t) nxt = Inr rows"
    using t nxt by (auto simp: icas.cas_Inr_iff CanTransition_iff)
  then obtain rows where rows: "cas_item now (payroll_items db) (it_id t) (it_status t) nxt = Inr rows" by blast
  let ?db1 = "db\<lparr>payroll_items := rows\<rparr>"
  define db2 where "db2 = (if nxt = PayrollCompleted \<or> src_manual src
    then update_items now ?db1 (\<lambda>r. it_id r = it_id t) (stamp_settlement now nxt src) else ?db1)"
  have d2: "payrolls db2 = payrolls db" "fresh_run (Suc (Suc k)) db2"
    using k by (auto simp: db2_def update_items_def fresh_run_def)
  obtain db3 where db3: "count_down now db2 (it_org t) (it_payroll t) = Inr db3" "fresh_run (Suc k) db3"
    using count_down_ok [of db2 p "it_payroll t" "Suc k"] d2 I(3) p st by auto
  obtain db4 where "settlement_audit db3 (it_org t) t nxt src = Inr db4" "fresh_run k db4"
    unfolding settlement_audit_def using AppendAuditTx_fresh [OF db3(2)] by blast
  then show thesis using that [of db4] db3 rows
    by (simp add: SettlePayrollItem_def TransitionStatus_item_def db2_def [symmetric] Let_def)
qed

subsection \<open>The callbacks of a batch close it\<close>

fun deliver ::
  "time \<Rightarrow> string \<Rightarrow> ('z payroll_db_scheme) \<Rightarrow> (MonnifyWebhookPayload \<times> string) list \<Rightarrow> nat list \<times> ('z payroll_db_scheme)" where
  "deliver now ip db [] = ([], db)"
| "deliver now ip db ((payload, ref) # cs) =
     (let (code, db1) = handlePayrollItemWebhook now ip db payload ref;
          (codes, db2) = deliver now ip db1 cs
      in (code # codes, db2))"

text \<open>The callback a bank sends for one transfer: the reference it got, and the amount if it succeeded.\<close>

definition reports :: "PayrollItem \<Rightarrow> MonnifyWebhookPayload \<times> string \<Rightarrow> bool" where
  "reports t c \<longleftrightarrow> snd c = ItemReference t \<and>
     (wh_event (fst c) = DISBURSEMENT_SUCCESSFUL \<and> FromNairaString (wh_amount (fst c)) = Inr (it_amount t) \<or>
      wh_event (fst c) = DISBURSEMENT_FAILED)"

definition out_items :: "('z payroll_db_scheme) \<Rightarrow> string \<Rightarrow> PayrollItem set" where
  "out_items db pid = {t \<in> set (payroll_items db). it_payroll t = pid \<and> it_status t = PayrollProcessing}"

definition has_failed :: "('z payroll_db_scheme) \<Rightarrow> string \<Rightarrow> bool" where
  "has_failed db pid \<longleftrightarrow> (\<exists>t \<in> set (payroll_items db). it_payroll t = pid \<and> it_status t = PayrollFailed)"

lemma events_differ: "DISBURSEMENT_SUCCESSFUL \<noteq> DISBURSEMENT_FAILED"
  by (simp add: DISBURSEMENT_SUCCESSFUL_def DISBURSEMENT_FAILED_def)

lemma decision_reports:
  assumes r: "reports t (payload, ref)" "reference_ok t" and t: "t \<in> set (payroll_items db)" "it_status t = PayrollProcessing"
    and d: "distinct (map it_id (payroll_items db))"
  shows "item_decision db payload ref =
    Commit t (if wh_event payload = DISBURSEMENT_SUCCESSFUL then PayrollCompleted else PayrollFailed)"
proof -
  have p: "ParseItemReference ref = Some (it_id t, it_attempt t)" using ItemReference_parse [OF r(2)] r(1) by (simp add: reports_def)
  have f: "find_row (\<lambda>r. it_id r = it_id t) (payroll_items db) = Inr t"
  proof (cases "find_row (\<lambda>r. it_id r = it_id t) (payroll_items db)")
    case (Inl e) then show ?thesis using t(1) by (auto simp: find_row_Inl)
  next
    case (Inr r0) then show ?thesis using find_row_Inr [OF Inr] distinct_keyD [OF d _ t(1), of r0] by simp
  qed
  show ?thesis using p f r(1) t(2) events_differ
    by (auto simp: item_decision_def disbursedKobo_def CanTransition_iff reports_def)
qed

lemma pending_counts_out:
  assumes inv: "payroll_inv db" and p: "p \<in> set (payrolls db)" "pr_status p = PayrollProcessing"
    and ts: "distinct ts" "set ts = out_items db (pr_id p)"
  shows "pr_pending p = int (length ts)"
proof -
  note I = inv_parts [OF inv]
  have "pr_pending p = int (items_in PayrollProcessing (pr_id p) (payroll_items db))"
    using I(1) p by (auto simp: batches_inv_def batch_ok_def)
  moreover have "items_in PayrollProcessing (pr_id p) (payroll_items db) = card (out_items db (pr_id p))"
    using I(2) unfolding items_in_def count_where_def out_items_def
    by (subst distinct_card [symmetric]) (auto simp: distinct_map intro: distinct_filter)
  ultimately show ?thesis using distinct_card [OF ts(1)] ts(2) by simp
qed

lemma moved_item:
  assumes d: "distinct (map it_id (payroll_items db))"
    and t: "t \<in> set (payroll_items db)" "it_payroll t = pid" "it_status t = PayrollProcessing"
    and ft: "it_status (f t) = st" "it_payroll (f t) = pid" and st: "st \<in> {PayrollCompleted, PayrollFailed}"
    and rows: "payroll_items db1 = update_where (\<lambda>r. it_id r = it_id t) f (payroll_items db)"
  shows "out_items db1 pid = out_items db pid - {t}" "has_failed db1 pid \<longleftrightarrow> has_failed db pid \<or> st = PayrollFailed"
proof -
  have mem: "r \<in> set (payroll_items db1) \<longleftrightarrow> r = f t \<or> (r \<in> set (payroll_items db) \<and> r \<noteq> t)" for r
    unfolding rows in_update_key [OF d t(1)] using distinct_keyD [OF d _ t(1)] by blast
  show "out_items db1 pid = out_items db pid - {t}"
  proof (intro set_eqI iffI)
    fix r assume "r \<in> out_items db1 pid"
    then show "r \<in> out_items db pid - {t}" using mem [of r] ft(1) st by (auto simp: out_items_def)
  next
    fix r assume "r \<in> out_items db pid - {t}"
    then show "r \<in> out_items db1 pid" using mem [of r] by (auto simp: out_items_def)
  qed
  show "has_failed db1 pid \<longleftrightarrow> has_failed db pid \<or> st = PayrollFailed"
  proof
    assume "has_failed db1 pid"
    then obtain r where "r \<in> set (payroll_items db1)" "it_payroll r = pid" "it_status r = PayrollFailed" by (auto simp: has_failed_def)
    then show "has_failed db pid \<or> st = PayrollFailed" using mem [of r] ft(1) by (auto simp: has_failed_def)
  next
    assume "has_failed db pid \<or> st = PayrollFailed"
    then show "has_failed db1 pid"
    proof
      assume "has_failed db pid"
      then obtain r where r: "r \<in> set (payroll_items db)" "it_payroll r = pid" "it_status r = PayrollFailed" by (auto simp: has_failed_def)
      then have "r \<in> set (payroll_items db1)" using mem [of r] t(3) by auto
      then show ?thesis using r by (auto simp: has_failed_def)
    next
      assume "st = PayrollFailed"
      then show ?thesis using mem [of "f t"] ft by (auto simp: has_failed_def)
    qed
  qed
qed

text \<open>One callback: the item leaves, the counter follows, and the last one closes the batch.\<close>

lemma one_callback:
  assumes inv: "payroll_inv db" and p: "p \<in> set (payrolls db)" "pr_id p = pid" "pr_status p = PayrollProcessing"
    and t: "t \<in> out_items db pid" and r: "reports t (payload, ref)" "reference_ok t" and k: "fresh_run (Suc (Suc k)) db"
  obtains db1 p1 where "handlePayrollItemWebhook now ip db payload ref = (200, db1)" "payroll_inv db1" "fresh_run k db1"
    "p1 \<in> set (payrolls db1)" "pr_id p1 = pid" "pr_org p1 = pr_org p" "out_items db1 pid = out_items db pid - {t}"
    "has_failed db1 pid \<longleftrightarrow> has_failed db pid \<or> wh_event payload = DISBURSEMENT_FAILED"
    "pr_pending p1 = pr_pending p - 1"
    "pr_status p1 = (if pr_pending p = 1 then (if has_failed db1 pid then PayrollFailed else PayrollCompleted) else PayrollProcessing)"
proof -
  note I = inv_parts [OF inv]
  have t1: "t \<in> set (payroll_items db)" "it_payroll t = pid" "it_status t = PayrollProcessing" using t by (auto simp: out_items_def)
  let ?st = "if wh_event payload = DISBURSEMENT_SUCCESSFUL then PayrollCompleted else PayrollFailed"
  let ?src = "\<lparr>src_ip = ip, src_actor = [], src_note = [], src_evidence = []\<rparr>"
  have nxt: "?st \<in> {PayrollCompleted, PayrollFailed}" by simp
  obtain db1 where s: "SettlePayrollItem now db (it_org t) t ?st ?src = Inr (True, db1)" "fresh_run k db1"
    using settle_goes_through [OF inv t1(1,3) nxt k, of now ?src] by blast
  have h: "handlePayrollItemWebhook now ip db payload ref = (200, db1)"
    using decision_reports [OF r t1(1,3) I(2)] s(1) by (simp add: handlePayrollItemWebhook_def item_commit_def)
  have snap: "\<forall>u \<in> set (payroll_items db). it_id u = it_id t \<longrightarrow> it_payroll u = it_payroll t \<and> it_org u = it_org t"
    using distinct_keyD [OF I(2) _ t1(1)] by metis
  note inv1 = settle_batches_inv [OF inv s(1) nxt snap]
  from inv s(1) snap show thesis
  proof (cases rule: SettlePayrollItem_effect)
    case stale then show thesis by simp
  next
    case (settled u f p0 g)
    have u: "u = t" using distinct_keyD [OF I(2) settled(2) t1(1) settled(3)] .
    have p0: "p0 = p" using distinct_keyD [OF I(3) settled(9) p(1)] settled(10) u t1(2) p(2) by simp
    have ft: "it_status (f t) = ?st" "it_payroll (f t) = pid" using settled(6,7) u t1(2) by auto
    note mv = moved_item [OF I(2) t1 ft nxt settled(8) [unfolded u]]
    have ev: "wh_event payload = DISBURSEMENT_FAILED \<longleftrightarrow> ?st = PayrollFailed" using r(1) events_differ by (auto simp: reports_def)
    note out = mv(1) and fail = mv(2) [folded ev]
    have g: "g p \<in> set (payrolls db1)" using p(1,2) t1(2) u unfolding settled(13) by (auto simp: in_update_where intro!: bexI [of _ p])
    have "it_org q = it_org t" if "q \<in> set (payroll_items db1)" "it_payroll q = pid" for q
      using batch_of(1) [OF inv_parts(1) [OF inv1] that(1) g] settled(11,12) that p(2) p0 by auto
    then have "closed_status (payroll_items db1) (it_org t) pid = (if has_failed db1 pid then PayrollFailed else PayrollCompleted)"
      unfolding closed_status_def has_failed_def by auto
    moreover have "0 < pr_pending p"
      using batch_of(2) [OF I(1) t1(1) p(1)] items_in_pos [OF t1] by (simp add: batch_ok_def p t1)
    ultimately show thesis
      using that [OF h inv1 s(2) g _ _ out fail] settled(12,14,15) p0 p(2,3) u t1(2) by simp
  qed
qed

lemma batch_closes_lemma:
  assumes "payroll_inv db" "p \<in> set (payrolls db)" "pr_id p = pid" "pr_status p = PayrollProcessing"
    "distinct ts" "set ts = out_items db pid" "ts \<noteq> []" "list_all2 reports ts cs" "list_all reference_ok ts" "fresh_run (2 * length ts) db"
  shows "\<exists>codes db' p'. deliver now ip db cs = (codes, db') \<and> codes = replicate (length cs) 200 \<and> payroll_inv db' \<and>
    p' \<in> set (payrolls db') \<and> pr_id p' = pid \<and> pr_pending p' = 0 \<and> out_items db' pid = {} \<and>
    pr_status p' = (if has_failed db pid \<or> (\<exists>c \<in> set cs. wh_event (fst c) = DISBURSEMENT_FAILED) then PayrollFailed else PayrollCompleted)"
  using assms
proof (induction ts arbitrary: db p cs)
  case (Cons t ts)
  from Cons.prems(8) obtain c cs1 where cs: "cs = c # cs1" "reports t c" "list_all2 reports ts cs1" by (cases cs) auto
  obtain payload ref where c: "c = (payload, ref)" by (cases c)
  have pend: "pr_pending p = int (length (t # ts))"
    using pending_counts_out [OF Cons.prems(1,2,4,5)] Cons.prems(3,6) by simp
  have fr: "fresh_run (Suc (Suc (2 * length ts))) db" using Cons.prems(10) by simp
  obtain db1 p1 where h: "handlePayrollItemWebhook now ip db payload ref = (200, db1)" "payroll_inv db1" "fresh_run (2 * length ts) db1"
    "p1 \<in> set (payrolls db1)" "pr_id p1 = pid" "out_items db1 pid = out_items db pid - {t}"
    "has_failed db1 pid \<longleftrightarrow> has_failed db pid \<or> wh_event payload = DISBURSEMENT_FAILED"
    "pr_pending p1 = pr_pending p - 1"
    "pr_status p1 = (if pr_pending p = 1 then (if has_failed db1 pid then PayrollFailed else PayrollCompleted) else PayrollProcessing)"
    by (rule one_callback [OF Cons.prems(1-4) _ cs(2) [unfolded c] _ fr, where now = now and ip = ip])
      (use Cons.prems(6,9) in auto)
  have out: "set ts = out_items db1 pid" using Cons.prems(5,6) h(6) by auto
  show ?case
  proof (cases "ts = []")
    case True
    then have "deliver now ip db cs = ([200], db1)" using cs c h(1) by simp
    then show ?thesis using h(2,4-9) pend out True cs c by (intro exI [of _ "[200]"] exI [of _ db1] exI [of _ p1]) auto
  next
    case False
    then have "pr_status p1 = PayrollProcessing" using h(9) pend by simp
    from Cons.IH [OF h(2,4,5) this _ out False cs(3) _ h(3)] Cons.prems(5,9)
    obtain codes db' p' where ih: "deliver now ip db1 cs1 = (codes, db')" "codes = replicate (length cs1) 200" "payroll_inv db'"
      "p' \<in> set (payrolls db')" "pr_id p' = pid" "pr_pending p' = 0" "out_items db' pid = {}"
      "pr_status p' = (if has_failed db1 pid \<or> (\<exists>c \<in> set cs1. wh_event (fst c) = DISBURSEMENT_FAILED) then PayrollFailed else PayrollCompleted)"
      by auto
    then have "deliver now ip db cs = (200 # codes, db')" using cs c h(1) by simp
    then show ?thesis using ih h(7) cs c by (intro exI [of _ "200 # codes"] exI [of _ db'] exI [of _ p']) auto
  qed
qed simp

lemma demo_created_reachable:
  assumes "set (map it_payroll items) \<subseteq> {''PAY-1''}" "set (map it_org items) \<subseteq> {''ORG-1''}" "set (map it_status items) \<subseteq> {PayrollPending, PayrollCompleted}"
    "distinct (map it_id items)"
  shows "payroll_reachable (demo_run [demo_batch] items, {})"
proof -
  have "payroll_reachable (demo_run [] [], {})" by (rule payroll_reachable.initial) (simp_all add: demo_run_def savings_db.defs)
  moreover have "batch_created (demo_run [] []) (demo_run [demo_batch] items) demo_batch items"
    using assms by (auto simp: batch_created_def demo_run_def savings_db.defs demo_batch_def image_subset_iff)
  ultimately show ?thesis using payroll_step.create payroll_reachable.step by blast
qed

lemma demo_reachable: "payroll_reachable (demo_created, {})" "payroll_reachable (demo_orphan, {})"
  unfolding demo_created_def demo_orphan_def by (rule demo_created_reachable; simp add: demo_item_def)+

lemma demo_started_reachable:
  "payroll_reachable (started demo_created, {(''ORG-1'', ''PAY-1'', True)})" "payroll_reachable (started demo_orphan, {(''ORG-1'', ''PAY-1'', False)})"
proof -
  show "payroll_reachable (started demo_created, {(''ORG-1'', ''PAY-1'', True)})"
    using demo_start(1) payroll_step.start [of "Date 2026 8 31" demo_created "''ORG-1''" "''PAY-1''" _ _ _ "{}"]
      payroll_reachable.step [OF demo_reachable(1)] by fastforce
  show "payroll_reachable (started demo_orphan, {(''ORG-1'', ''PAY-1'', False)})"
    using demo_start(2) payroll_step.start [of "Date 2026 8 31" demo_orphan "''ORG-1''" "''PAY-1''" _ "[]" _ "{}"]
      payroll_reachable.step [OF demo_reachable(2)] by fastforce
qed

subsection \<open>Properties of the payroll run\<close>

text \<open>
  C4: in every reachable state of the interleaved program, the counter of a batch that is with the bank
  is exactly the number of its items that are with the bank, none of its items is waiting to be sent, no item of
  any other batch is with the bank, and a completed batch has paid every one of its items.
\<close>

theorem payroll_counts:
  assumes "payroll_reachable (db, held)" "p \<in> set (payrolls db)"
  shows "(pr_status p = PayrollProcessing \<longrightarrow>
      pr_pending p = int (items_in PayrollProcessing (pr_id p) (payroll_items db)) \<and> items_in PayrollPending (pr_id p) (payroll_items db) = 0) \<and>
    (pr_status p \<noteq> PayrollProcessing \<longrightarrow> items_in PayrollProcessing (pr_id p) (payroll_items db) = 0) \<and>
    (pr_status p = PayrollCompleted \<longrightarrow> (\<forall>t \<in> set (payroll_items db). it_payroll t = pr_id p \<longrightarrow> it_status t = PayrollCompleted))"
proof -
  have "batch_ok (payroll_items db) p"
    using reachable_inv [OF assms(1)] assms(2) by (auto simp: machine_inv_def payroll_inv_def batches_inv_def)
  then show ?thesis
    by (cases "pr_status p") (auto simp: batch_ok_def items_in_def count_where_eq_0_iff)
qed

theorem payroll_counts_witness:
  "\<exists>p \<in> set (payrolls (started demo_created)). pr_status p = PayrollProcessing \<and> pr_pending p = 2 \<and>
     items_in PayrollProcessing (pr_id p) (payroll_items (started demo_created)) = 2"
proof -
  have "list_ex (\<lambda>p. pr_status p = PayrollProcessing \<and> pr_pending p = 2) (payrolls (started demo_created))" by code_simp
  then obtain p where p: "p \<in> set (payrolls (started demo_created))" "pr_status p = PayrollProcessing" "pr_pending p = 2"
    by (auto simp: list_ex_iff)
  from payroll_counts [OF demo_started_reachable(1) p(1)] p show ?thesis by force
qed

text \<open>
  C3: nobody is paid twice. Once an item is completed it stays completed with its amount in every later
  state, whatever transactions, callbacks, retries and crashes come in between, and no later submission of any
  batch contains it.
\<close>

theorem paid_never_resent:
  assumes "payroll_reachable (db, held)" "t \<in> set (payroll_items db)" "it_status t = PayrollCompleted"
    and "payroll_step\<^sup>*\<^sup>* (db, held) (db', held')"
  shows "(\<exists>t' \<in> set (payroll_items db'). it_id t' = it_id t \<and> it_amount t' = it_amount t \<and> it_status t' = PayrollCompleted) \<and>
    (start_batch now db' orgID pid = Inr ((p, sendable), db'') \<longrightarrow> it_id t \<notin> it_id ` set sendable)"
proof -
  note m = reachable_inv [OF assms(1)]
  from run_follow [OF assms(4) m] assms(2,3) obtain t' where t': "t' \<in> set (payroll_items db')" "it_id t' = it_id t"
    "it_amount t' = it_amount t" "it_status t' = PayrollCompleted" by (auto simp: items_follow_def)
  have inv: "payroll_inv db'" using run_inv [OF assms(4) m] by (simp add: machine_inv_def)
  have "it_id t \<notin> it_id ` set sendable" if s: "start_batch now db' orgID pid = Inr ((p, sendable), db'')"
  proof
    assume "it_id t \<in> it_id ` set sendable"
    then obtain u where u: "u \<in> set sendable" "it_id u = it_id t" by auto
    from inv s have "sendable = sendable_of db' orgID pid" by (rule start_batch_Inr)
    then have "u \<in> set (payroll_items db')" "it_status u = PayrollPending" using u(1) by (auto simp: sendable_of_def)
    then show False using distinct_keyD [OF inv_parts(2) [OF inv] t'(1)] t'(2,4) u(2) by force
  qed
  then show ?thesis using t' by blast
qed

text \<open>
  C12: the callbacks of a batch close it. Take any batch that is with the bank, any order of its outstanding
  items, and for each one callback (the item's amount, or a failure): every callback is answered with 200, and
  after the last one the counter is zero, nothing is outstanding and the batch is completed, or failed when some item failed.
\<close>

theorem callbacks_close_batch:
  assumes "payroll_reachable (db, held)" "p \<in> set (payrolls db)" "pr_status p = PayrollProcessing"
    "distinct ts" "set ts = out_items db (pr_id p)" "ts \<noteq> []" "list_all2 reports ts cs" "list_all reference_ok ts"
    "fresh_run (2 * length ts) db"
  shows "\<exists>db' p'. deliver now ip db cs = (replicate (length cs) 200, db') \<and> p' \<in> set (payrolls db') \<and> pr_id p' = pr_id p \<and>
    pr_pending p' = 0 \<and> out_items db' (pr_id p) = {} \<and>
    pr_status p' = (if has_failed db (pr_id p) \<or> (\<exists>c \<in> set cs. wh_event (fst c) = DISBURSEMENT_FAILED)
                    then PayrollFailed else PayrollCompleted)"
proof -
  have "payroll_inv db" using reachable_inv [OF assms(1)] by (simp add: machine_inv_def)
  from batch_closes_lemma [OF this assms(2) HOL.refl assms(3-9), of now ip] show ?thesis by blast
qed

text \<open>
  C30: a worker lost between its two transactions strands the batch. When phase 1 found nothing to send and the
  worker dies before \<open>finalizePayroll\<close>, the batch stays in \<open>processing\<close> in every later state: no task,
  callback, retry or resolution closes it.
\<close>

theorem lost_worker_strands_batch:
  assumes "payroll_reachable (db, held)" "(orgID, pid, False) \<in> held"
    and "payroll_step\<^sup>*\<^sup>* (db, held - {(orgID, pid, False)}) (db', held')"
  shows "\<exists>p \<in> set (payrolls db'). pr_id p = pid \<and> pr_org p = orgID \<and> pr_status p = PayrollProcessing"
proof -
  note m = reachable_inv [OF assms(1)]
  let ?s = "(db, held - {(orgID, pid, False)})"
  have "machine_inv ?s" using step_inv [OF payroll_step.crash [OF assms(2), of db] m] .
  moreover have "ticket_ok db (orgID, pid, False)" using m assms(2) by (auto simp: machine_inv_def)
  moreover have "(o1, pid, b) \<notin> held - {(orgID, pid, False)}" for o1 b
  proof
    assume k: "(o1, pid, b) \<in> held - {(orgID, pid, False)}"
    then have "(o1, pid, b) = (orgID, pid, False)"
      using m assms(2) unfolding machine_inv_def prod.case by (metis DiffD1 fst_conv snd_conv)
    then show False using k by simp
  qed
  ultimately have "machine_inv ?s" "stranded ?s orgID pid" by (auto simp: stranded_def ticket_ok_def)
  from stranded_run [OF assms(3) this] show ?thesis by (auto simp: stranded_def batch_is_def)
qed


subsection \<open>Instances\<close>


definition demo_half_paid :: payroll_db where
  "demo_half_paid = demo_run [demo_batch]
     [(demo_item ''ITEM-a1'' ''EMP-h'' 0)\<lparr>it_status := PayrollCompleted\<rparr>, demo_item ''ITEM-b2'' ''EMP-h'' 200000]"

theorem paid_never_resent_witness:
  "\<exists>p sendable db'. start_batch (Date 2026 8 31) demo_half_paid ''ORG-1'' ''PAY-1'' = Inr ((p, sendable), db') \<and>
     sendable \<noteq> [] \<and> ''ITEM-a1'' \<notin> it_id ` set sendable"
proof -
  let ?run = "start_batch (Date 2026 8 31) demo_half_paid ''ORG-1'' ''PAY-1''"
  let ?t = "(demo_item ''ITEM-a1'' ''EMP-h'' 0)\<lparr>it_status := PayrollCompleted\<rparr>"
  have "case ?run of Inr ((_, ts), _) \<Rightarrow> ts \<noteq> [] | _ \<Rightarrow> False" by code_simp
  then obtain p sendable db' where run: "?run = Inr ((p, sendable), db')" "sendable \<noteq> []" by (auto split: sum.splits)
  have r: "payroll_reachable (demo_half_paid, {})" unfolding demo_half_paid_def by (rule demo_created_reachable) (simp_all add: demo_item_def)
  have t: "?t \<in> set (payroll_items demo_half_paid)" "it_status ?t = PayrollCompleted" "it_id ?t = ''ITEM-a1''"
    by (simp_all add: demo_half_paid_def demo_run_def savings_db.defs demo_item_def)
  from paid_never_resent [OF r t(1,2) rtranclp.rtrancl_refl, of "Date 2026 8 31" "''ORG-1''" "''PAY-1''"] run t(3) show ?thesis by auto
qed

definition demo_callbacks :: "(MonnifyWebhookPayload \<times> string) list" where
  "demo_callbacks = [(\<lparr>wh_event = DISBURSEMENT_SUCCESSFUL, wh_reference = ''ITEM-a1'', wh_amount = ''1500.50''\<rparr>, ''ITEM-a1''),
     (\<lparr>wh_event = DISBURSEMENT_FAILED, wh_reference = ''ITEM-b2'', wh_amount = []\<rparr>, ''ITEM-b2'')]"

theorem callbacks_close_batch_witness:
  "\<exists>db' p'. deliver (Date 2026 9 1) ''ip'' (started demo_created) demo_callbacks = ([200, 200], db') \<and>
     p' \<in> set (payrolls db') \<and> pr_pending p' = 0 \<and> pr_status p' = PayrollFailed"
proof -
  let ?db = "started demo_created"
  let ?ts = "filter (\<lambda>t. it_payroll t = ''PAY-1'' \<and> it_status t = PayrollProcessing) (payroll_items ?db)"
  have ts: "set ?ts = out_items ?db ''PAY-1''" by (auto simp: out_items_def)
  have d: "distinct ?ts" using inv_parts(2) [OF demo_created_inv(2)] by (simp add: distinct_map distinct_filter)
  have c: "length ?ts = 2" "?ts \<noteq> []" "list_all2 reports ?ts demo_callbacks" "list_all reference_ok ?ts" "fresh_run 4 ?db" by code_simp+
  have "list_ex (\<lambda>p. pr_id p = ''PAY-1'' \<and> pr_status p = PayrollProcessing) (payrolls ?db)" by code_simp
  then obtain p where p: "p \<in> set (payrolls ?db)" "pr_id p = ''PAY-1''" "pr_status p = PayrollProcessing" by (auto simp: list_ex_iff)
  have fr: "fresh_run (2 * length ?ts) ?db" using c(1,5) by simp
  from callbacks_close_batch [OF demo_started_reachable(1) p(1,3) d _ c(2-4) fr, of "Date 2026 9 1" "''ip''"] ts p(2)
  show ?thesis by (auto simp: demo_callbacks_def numeral_2_eq_2)
qed

theorem lost_worker_strands_batch_witness:
  "payroll_step\<^sup>*\<^sup>* (started demo_orphan, {(''ORG-1'', ''PAY-1'', False)}) (started demo_orphan, {}) \<and>
   (\<exists>p \<in> set (payrolls (started demo_orphan)). pr_id p = ''PAY-1'' \<and> pr_status p = PayrollProcessing)"
proof -
  have "payroll_step (started demo_orphan, {(''ORG-1'', ''PAY-1'', False)}) (started demo_orphan, {})"
    using payroll_step.crash [of "(''ORG-1'', ''PAY-1'', False)" "{(''ORG-1'', ''PAY-1'', False)}" "started demo_orphan"] by simp
  moreover from lost_worker_strands_batch [OF demo_started_reachable(2), of "''ORG-1''" "''PAY-1''" "started demo_orphan" "{}"]
  have "\<exists>p \<in> set (payrolls (started demo_orphan)). pr_id p = ''PAY-1'' \<and> pr_status p = PayrollProcessing" by auto
  ultimately show ?thesis by blast
qed


end
