(* ===== verification/Payroll_Service.thy ===== *)
theory Payroll_Service
  imports Payroll_Machine
begin

text \<open>
  Building a payroll run (\<open>payroll_service.go\<close>): one item per active employee, gross pay less the
  advances recovered and the savings diverted, in one transaction; then the task for the worker.
  The payment providers of \<open>provider.Registry\<close> are a list of names with the currencies they settle.
\<close>

type_synonym providers = "(string \<times> (Currency \<Rightarrow> bool)) list"

definition Registry_Select :: "providers \<Rightarrow> Currency \<Rightarrow> string res" where
  "Registry_Select ps c =
     (case find (\<lambda>p. snd p c) ps of Some p \<Rightarrow> Inr (fst p) | None \<Rightarrow> Inl (ErrOther ''no provider configured for this currency''))"

definition Registry_ByName :: "providers \<Rightarrow> string \<Rightarrow> (string \<times> (Currency \<Rightarrow> bool)) res" where
  "Registry_ByName ps name =
     (case find (\<lambda>p. fst p = name) ps of Some p \<Rightarrow> Inr p | None \<Rightarrow> Inl (ErrOther ''no provider registered with this name''))"

definition DefaultProviderRegistry :: providers where
  "DefaultProviderRegistry = [(''monnify'', \<lambda>c. c = NGN), (''paystack'', \<lambda>c. c = NGN)]"

definition ValidatePeriod :: "string \<Rightarrow> unit res" where
  "ValidatePeriod period =
     (case ParsePeriod period of
        Inl _ \<Rightarrow> Inl ErrInvalidPeriod
      | Inr t \<Rightarrow> if format_period t \<noteq> period then Inl ErrInvalidPeriod else Inr ())"

definition FindAllActive :: "('z org_db_scheme) \<Rightarrow> string \<Rightarrow> Employee list" where
  "FindAllActive db orgID = filter (\<lambda>e. emp_org e = orgID \<and> emp_active e) (employees db)"

text \<open>\<open>payrollRepo.Create\<close>, with the unique index on organization and period.\<close>

definition create_batch :: "time \<Rightarrow> ('z payroll_db_scheme) \<Rightarrow> string \<Rightarrow> string \<Rightarrow> (Payroll \<times> 'z payroll_db_scheme) res" where
  "create_batch now db orgID period =
     (let p = Payroll_BeforeCreate db
            \<lparr>pr_id = [], pr_org = orgID, pr_period = period, pr_total = 0, pr_status = PayrollPending, pr_pending = 0,
             pr_created_at = now, pr_updated_at = now\<rparr>
      in if list_ex (\<lambda>q. pr_org q = orgID \<and> pr_period q = period) (payrolls db) then Inl ErrUniqueViolation
         else rbind (insert_row pr_id p (payrolls db)) (\<lambda>rows. Inr (p, (take_uuid db)\<lparr>payrolls := rows\<rparr>)))"

definition gross_of :: "time \<Rightarrow> ('z payroll_db_scheme) \<Rightarrow> string \<Rightarrow> string \<Rightarrow> Employee \<Rightarrow> (Kobo \<times> string list) res" where
  "gross_of now db orgID period emp =
     (if Employee_IsHourly emp
      then rbind (ComputeHourlyGross db orgID (emp_id emp) period now (emp_hourly_rate emp)) (\<lambda>b. Inr (GrossKobo b, EntryIDs b))
      else Inr (emp_salary emp, []))"

definition create_item ::
  "time \<Rightarrow> ('z payroll_db_scheme) \<Rightarrow> string \<Rightarrow> string \<Rightarrow> Employee \<Rightarrow> Kobo \<Rightarrow> (PayrollItem \<times> 'z payroll_db_scheme) res" where
  "create_item now db orgID payrollID emp gross =
     (let item = PayrollItem_BeforeCreate db
            \<lparr>it_id = [], it_org = orgID, it_payroll = payrollID, it_employee = emp_id emp, it_name = emp_name emp, it_amount = gross,
             it_status = PayrollPending, it_reference = [], it_error = [], it_attempt = 1, it_gross = None, it_advances = None,
             it_savings = None, it_sent_at = None, it_settled_at = None, it_resolved_by = None, it_note = None, it_evidence = None,
             it_created_at = now, it_updated_at = now\<rparr>
      in rbind (insert_row it_id item (payroll_items db)) (\<lambda>rows. Inr (item, (take_uuid db)\<lparr>payroll_items := rows\<rparr>)))"

definition net_after :: "Kobo \<Rightarrow> Kobo \<Rightarrow> Kobo res" where
  "net_after gross withheld =
     (if Kobo_IsPositive withheld
      then rbind (Kobo_Sub gross withheld) (\<lambda>pay. if Kobo_IsNegative pay then Inl ErrNegativeItem else Inr pay)
      else Inr gross)"

definition breakdown :: "Kobo \<Rightarrow> Kobo \<Rightarrow> Kobo \<Rightarrow> Kobo \<Rightarrow> PayrollItem \<Rightarrow> PayrollItem" where
  "breakdown gross withheld diverted pay i =
     (let i1 = i\<lparr>it_gross := Some gross, it_advances := Some withheld, it_savings := Some diverted\<rparr>;
          i2 = (if Kobo_IsPositive withheld \<or> Kobo_IsPositive diverted then i1\<lparr>it_amount := pay\<rparr> else i1)
      in if \<not> Kobo_IsPositive pay then i2\<lparr>it_status := PayrollCompleted\<rparr> else i2)"

definition pay_employee ::
  "time \<Rightarrow> string \<Rightarrow> string \<Rightarrow> string \<Rightarrow> Employee \<Rightarrow> ('z payroll_db_scheme) \<Rightarrow> (Kobo \<times> 'z payroll_db_scheme) res" where
  "pay_employee now orgID period payrollID emp db =
     rbind (gross_of now db orgID period emp) (\<lambda>(gross, entryIDs).
     rbind (create_item now db orgID payrollID emp gross) (\<lambda>(item, db1).
     let db2 = MarkTimeEntriesPaid now db1 orgID entryIDs (it_id item)
     in rbind (SettleAdvancesForPayrollItem now db2 orgID (emp_id emp) period (it_id item) gross) (\<lambda>(withheld, db3).
     rbind (net_after gross withheld) (\<lambda>net0.
     rbind (DivertSavingsForPayrollItem db3 orgID (emp_id emp) (it_id item) net0) (\<lambda>(diverted, db4).
     rbind (if Kobo_IsPositive diverted then Kobo_Sub net0 diverted else Inr net0) (\<lambda>pay.
     Inr (pay, update_items now db4 (\<lambda>t. it_id t = it_id item) (breakdown gross withheld diverted pay))))))))"

fun pay_all ::
  "time \<Rightarrow> string \<Rightarrow> string \<Rightarrow> string \<Rightarrow> Employee list \<Rightarrow> ('z payroll_db_scheme) \<Rightarrow> (Kobo list \<times> 'z payroll_db_scheme) res" where
  "pay_all now orgID period payrollID [] db = Inr ([], db)"
| "pay_all now orgID period payrollID (emp # emps) db =
     rbind (pay_employee now orgID period payrollID emp db) (\<lambda>(pay, db1).
     rbind (pay_all now orgID period payrollID emps db1) (\<lambda>(nets, db2). Inr (pay # nets, db2)))"

definition create_body ::
  "providers \<Rightarrow> time \<Rightarrow> ('z payroll_db_scheme) \<Rightarrow> string \<Rightarrow> string \<Rightarrow> (Payroll \<times> 'z payroll_db_scheme) res" where
  "create_body registry now db orgID period =
     rbind (OrgCurrencyTx db orgID) (\<lambda>currency.
       case Registry_Select registry currency of
         Inl _ \<Rightarrow> Inl ErrUnsupportedCurrency
       | Inr _ \<Rightarrow>
           let emps = FindAllActive db orgID
           in if emps = [] then Inl ErrNoActiveEmployees
              else
                rbind (create_batch now db orgID period) (\<lambda>(payroll, db1).
                rbind (pay_all now orgID period (pr_id payroll) emps db1) (\<lambda>(nets, db2).
                rbind (Kobo_Sum nets) (\<lambda>tot.
                Inr (payroll\<lparr>pr_total := tot\<rparr>,
                     db2\<lparr>payrolls := update_where (\<lambda>p. pr_id p = pr_id payroll)
                        (\<lambda>p. p\<lparr>pr_total := tot, pr_updated_at := now\<rparr>) (payrolls db2)\<rparr>)))))"

definition CreatePayroll ::
  "providers \<Rightarrow> bool \<Rightarrow> time \<Rightarrow> ('z payroll_db_scheme) \<Rightarrow> string \<Rightarrow> string \<Rightarrow> Payroll res \<times> ('z payroll_db_scheme)" where
  "CreatePayroll registry enqueue_ok now db orgID period =
     (case ValidatePeriod period of
        Inl e \<Rightarrow> (Inl e, db)
      | Inr _ \<Rightarrow>
          (case WithOrgScope db (\<lambda>db. create_body registry now db orgID period) of
             (Inl e, db') \<Rightarrow> (Inl e, db')
           | (Inr payroll, db') \<Rightarrow>
               if enqueue_ok then (Inr payroll, db'\<lparr>tasks := tasks db' @ [TaskProcessPayroll orgID (pr_id payroll)]\<rparr>)
               else (Inl ErrQueueUnavailable, db')))"

subsection \<open>What settlement and savings may take\<close>

lemma settle_advance_bounds:
  assumes "settle_advance now orgID itemID c rcv pay1 a (w, r, db) = Inr (w', r', db')" "0 \<le> sint w"
  shows "sint w' + sint r' = sint w + sint r \<and> sint w \<le> sint w' \<and> (0 \<le> sint r \<longrightarrow> 0 \<le> sint r') \<and> (sint r < 0 \<longrightarrow> w' = w)"
proof -
  have p: "sint (recovered_portion a r) \<le> sint r" by (simp add: recovered_portion_def Let_def sless_sint)
  from assms(1) consider "w' = w" "r' = r"
    | "0 < sint (recovered_portion a r)" "Kobo_Add w (recovered_portion a r) = Inr w'" "Kobo_Sub r (recovered_portion a r) = Inr r'"
    by (auto simp: settle_advance_def Let_def rbind_eq_Inr go_simps sless_sint split: if_splits)
  then show ?thesis using p assms(2) by cases (auto simp: Kobo_Add_Inr Kobo_Sub_Inr)
qed

lemma settle_loop_bounds:
  assumes "settle_loop now orgID itemID c rcv pay1 as (w, r, db) = Inr (w', r', db')" "0 \<le> sint w"
  shows "sint w' + sint r' = sint w + sint r \<and> sint w \<le> sint w' \<and> (0 \<le> sint r \<longrightarrow> 0 \<le> sint r') \<and> (sint r < 0 \<longrightarrow> w' = w)"
  using assms
proof (induction as arbitrary: w r db)
  case (Cons a as)
  then obtain w1 r1 db1 where s: "settle_advance now orgID itemID c rcv pay1 a (w, r, db) = Inr (w1, r1, db1)"
    "settle_loop now orgID itemID c rcv pay1 as (w1, r1, db1) = Inr (w', r', db')" by (auto simp: rbind_eq_Inr)
  have "sint w1 + sint r1 = sint w + sint r \<and> sint w \<le> sint w1 \<and> (0 \<le> sint r \<longrightarrow> 0 \<le> sint r1) \<and> (sint r < 0 \<longrightarrow> w1 = w)"
    by (rule settle_advance_bounds [OF s(1) Cons.prems(2)])
  moreover have "sint w' + sint r' = sint w1 + sint r1 \<and> sint w1 \<le> sint w' \<and> (0 \<le> sint r1 \<longrightarrow> 0 \<le> sint r') \<and> (sint r1 < 0 \<longrightarrow> w' = w1)"
    using calculation Cons.prems(2) by (intro Cons.IH [OF s(2)]) auto
  ultimately show ?case by auto
qed auto

lemma SettleAdvances_bounds:
  assumes "SettleAdvancesForPayrollItem now db orgID emp period itemID gross = Inr (w, db')"
  shows "0 \<le> sint w" "0 \<le> sint gross \<Longrightarrow> sint w \<le> sint gross" "sint gross < 0 \<Longrightarrow> w = 0"
proof -
  have "0 \<le> sint w \<and> (0 \<le> sint gross \<longrightarrow> sint w \<le> sint gross) \<and> (sint gross < 0 \<longrightarrow> w = 0)"
    using assms by (auto simp: SettleAdvancesForPayrollItem_def Let_def rbind_eq_Inr split: if_splits dest!: settle_loop_bounds)
  then show "0 \<le> sint w" "0 \<le> sint gross \<Longrightarrow> sint w \<le> sint gross" "sint gross < 0 \<Longrightarrow> w = 0" by auto
qed

lemma DivertSavings_bounds:
  assumes "DivertSavingsForPayrollItem db orgID emp itemID n = Inr (a, db')"
  shows "0 \<le> sint a" "a = 0 \<or> 0 < sint a \<and> sint a < sint n"
proof -
  have "a = 0 \<or> 0 < sint a \<and> sint a < sint n"
    using assms by (auto simp: DivertSavingsForPayrollItem_def Let_def rbind_eq_Inr go_simps sless_sint split: if_splits)
  then show "0 \<le> sint a" "a = 0 \<or> 0 < sint a \<and> sint a < sint n" by auto
qed

subsection \<open>Nothing else writes the payroll tables\<close>

definition same_payroll :: "('z payroll_db_scheme) \<Rightarrow> ('z payroll_db_scheme) \<Rightarrow> bool" where
  "same_payroll db db' \<longleftrightarrow> payrolls db' = payrolls db \<and> payroll_items db' = payroll_items db"

lemma same_payroll_frame: "ledger_frame db db' \<Longrightarrow> same_payroll db db'"
  by (simp add: same_payroll_def ledger_frame_payroll)

lemma same_payroll_trans: "same_payroll a b \<Longrightarrow> same_payroll b c \<Longrightarrow> same_payroll a c"
  by (simp add: same_payroll_def)

lemma same_payroll_refl [simp]: "same_payroll db db"
  by (simp add: same_payroll_def)

lemma same_payroll_audit: "AppendAuditTx db o1 et ei ac be af ip ky = Inr db' \<Longrightarrow> same_payroll db db'"
  by (auto simp: same_payroll_def dest!: AppendAuditTx_Inr)

lemmas same_posting = same_payroll_frame [OF EnsureAccount_frame] same_payroll_frame [OF PostTransaction_frame] same_payroll_audit

lemma CancelAdvance_same:
  assumes "CancelAdvance now db adv st reason = Inr (x, db')" shows "same_payroll db db'"
  using assms by (auto simp: CancelAdvance_def TransitionAdvance_def update_advance_def rbind_eq_Inr Let_def
      same_payroll_def dest!: same_posting)

lemma settle_advance_same:
  assumes "settle_advance now orgID itemID c rcv pay1 a (w, r, db) = Inr (w', r', db')" shows "same_payroll db db'"
proof -
  have close: "close_or_audit now d o1 i adv k = Inr d' \<Longrightarrow> same_payroll d d'" for d d' :: "'a payroll_db_scheme" and o1 i adv k
    by (auto simp: close_or_audit_def TransitionAdvance_def update_advance_def same_payroll_def rbind_eq_Inr
        split: if_splits sum.splits dest!: same_payroll_audit)
  have rec: "record_recovery now d adv k = Inr d' \<Longrightarrow> same_payroll d d'" for d d' :: "'a payroll_db_scheme" and adv k
    by (auto simp: record_recovery_def Let_def same_payroll_def split: if_splits)
  have can: "cancel_undisbursed now d adv = Inr d' \<Longrightarrow> same_payroll d d'" for d d' :: "'a payroll_db_scheme" and adv
    by (auto simp: cancel_undisbursed_def split: sum.splits if_splits dest: CancelAdvance_same)
  show ?thesis using assms
    by (auto simp: settle_advance_def Let_def rbind_eq_Inr split: if_splits dest!: same_posting(2) close rec can
        intro: same_payroll_trans)
qed

lemma settle_loop_same:
  "settle_loop now orgID itemID c rcv pay1 as (w, r, db) = Inr (w', r', db') \<Longrightarrow> same_payroll db db'"
proof (induction as arbitrary: w r db)
  case (Cons a as)
  then obtain w1 r1 db1 where "settle_advance now orgID itemID c rcv pay1 a (w, r, db) = Inr (w1, r1, db1)"
    "settle_loop now orgID itemID c rcv pay1 as (w1, r1, db1) = Inr (w', r', db')" by (auto simp: rbind_eq_Inr)
  then show ?case using settle_advance_same Cons.IH same_payroll_trans by blast
qed auto

lemma SettleAdvances_same:
  assumes "SettleAdvancesForPayrollItem now db orgID emp period itemID gross = Inr (w, db')" shows "same_payroll db db'"
  using assms by (auto simp: SettleAdvancesForPayrollItem_def Let_def rbind_eq_Inr split: if_splits
      dest!: settle_loop_same same_posting(1) intro: same_payroll_trans)

lemma DivertSavings_same:
  assumes "DivertSavingsForPayrollItem db orgID emp itemID n = Inr (a, db')" shows "same_payroll db db'"
  using assms by (auto simp: DivertSavingsForPayrollItem_def Let_def rbind_eq_Inr split: if_splits
      dest!: same_posting intro: same_payroll_trans)

subsection \<open>The items of a run\<close>

text \<open>What one employee's item says: the gross, what was taken from it and what is left.\<close>

definition item_exact :: "Employee \<Rightarrow> PayrollItem \<Rightarrow> bool" where
  "item_exact emp t \<longleftrightarrow>
     (case (it_gross t, it_advances t, it_savings t) of
        (Some gross, Some withheld, Some diverted) \<Rightarrow>
          sint (it_amount t) = sint gross - sint withheld - sint diverted \<and> 0 \<le> sint withheld \<and> 0 \<le> sint diverted \<and>
          (0 \<le> sint gross \<longrightarrow> 0 \<le> sint (it_amount t)) \<and> (\<not> Employee_IsHourly emp \<longrightarrow> gross = emp_salary emp)
      | _ \<Rightarrow> False) \<and>
     it_employee t = emp_id emp \<and> it_attempt t = 1 \<and>
     it_status t = (if 0 < sint (it_amount t) then PayrollPending else PayrollCompleted)"

lemma MarkTimeEntriesPaid_same: "same_payroll db (MarkTimeEntriesPaid now db orgID ids i)"
  by (simp add: MarkTimeEntriesPaid_def same_payroll_def)

lemma take_uuid_payroll [simp]: "payrolls (take_uuid db) = payrolls db" "payroll_items (take_uuid db) = payroll_items db"
  by (simp_all add: take_uuid_def)

lemma create_item_Inr:
  assumes "create_item now db orgID pid emp gross = Inr (item, db1)"
  shows "payrolls db1 = payrolls db" "payroll_items db1 = payroll_items db @ [item]" "it_id item \<notin> it_id ` set (payroll_items db)"
    "it_org item = orgID" "it_payroll item = pid" "it_employee item = emp_id emp" "it_amount item = gross" "it_status item = PayrollPending"
    "it_attempt item = 1"
  using assms by (auto simp: create_item_def Let_def rbind_eq_Inr insert_row_Inr PayrollItem_BeforeCreate_def)

lemma breakdown_exact:
  assumes "net_after gross w = Inr n0" "0 \<le> sint w" "0 \<le> sint gross \<Longrightarrow> sint w \<le> sint gross"
    and "0 \<le> sint d" "d = 0 \<or> 0 < sint d \<and> sint d < sint n0"
    and "(if Kobo_IsPositive d then Kobo_Sub n0 d else Inr n0) = Inr n"
    and i: "it_amount i = gross" "it_status i = PayrollPending" "it_attempt i = 1" "it_employee i = emp_id emp"
    and g: "\<not> Employee_IsHourly emp \<Longrightarrow> gross = emp_salary emp"
  shows "item_exact emp ((breakdown gross w d n i)\<lparr>it_updated_at := now\<rparr>)" "it_amount (breakdown gross w d n i) = n"
proof -
  have n0: "sint n0 = sint gross - sint w" "sint w = 0 \<Longrightarrow> n0 = gross"
    using assms(1,2) by (auto simp: net_after_def go_simps sless_sint rbind_eq_Inr Kobo_Sub_Inr split: if_splits)
  have n: "sint n = sint n0 - sint d" "sint d = 0 \<Longrightarrow> n = n0"
    using assms(4,6) by (auto simp: go_simps sless_sint Kobo_Sub_Inr split: if_splits)
  show amt: "it_amount (breakdown gross w d n i) = n"
    using n0(2) n(2) assms(2,4) i(1) by (auto simp: breakdown_def Let_def go_simps sless_sint)
  have "0 \<le> sint n" if "0 \<le> sint gross" using that n n0(1) assms(3,5) by auto
  then show "item_exact emp ((breakdown gross w d n i)\<lparr>it_updated_at := now\<rparr>)"
    using amt n n0 assms(2,4) i g by (auto simp: item_exact_def breakdown_def Let_def go_simps sless_sint)
qed

lemma pay_employee_Inr:
  assumes "pay_employee now orgID period pid emp db = Inr (n, db')"
  obtains t where "payrolls db' = payrolls db" "payroll_items db' = payroll_items db @ [t]" "it_id t \<notin> it_id ` set (payroll_items db)"
    "it_org t = orgID" "it_payroll t = pid" "item_exact emp t" "it_amount t = n"
proof -
  from assms obtain gross ids item db1 w db3 n0 d db4 where
    g: "gross_of now db orgID period emp = Inr (gross, ids)"
    and c: "create_item now db orgID pid emp gross = Inr (item, db1)"
    and s: "SettleAdvancesForPayrollItem now (MarkTimeEntriesPaid now db1 orgID ids (it_id item)) orgID (emp_id emp) period (it_id item) gross = Inr (w, db3)"
    and n0: "net_after gross w = Inr n0"
    and d: "DivertSavingsForPayrollItem db3 orgID (emp_id emp) (it_id item) n0 = Inr (d, db4)"
    and n: "(if Kobo_IsPositive d then Kobo_Sub n0 d else Inr n0) = Inr n"
    and db': "db' = update_items now db4 (\<lambda>t. it_id t = it_id item) (breakdown gross w d n)"
    by (auto simp: pay_employee_def rbind_eq_Inr Let_def split: prod.splits)
  note C = create_item_Inr [OF c]
  have "same_payroll db1 db4"
    using MarkTimeEntriesPaid_same SettleAdvances_same [OF s] DivertSavings_same [OF d] same_payroll_trans by blast
  then have db4: "payrolls db4 = payrolls db" "payroll_items db4 = payroll_items db @ [item]" using C(1,2) by (simp_all add: same_payroll_def)
  have sal: "gross = emp_salary emp" if "\<not> Employee_IsHourly emp" using g that by (simp add: gross_of_def)
  note b = breakdown_exact [OF n0 SettleAdvances_bounds(1,2) [OF s] DivertSavings_bounds [OF d] n C(7,8,9,6) sal]
  let ?t = "(breakdown gross w d n item)\<lparr>it_updated_at := now\<rparr>"
  have keep: "it_id ?t = it_id item" "it_org ?t = it_org item" "it_payroll ?t = it_payroll item"
    by (simp_all add: breakdown_def Let_def)
  have "update_where (\<lambda>t. it_id t = it_id item) f (payroll_items db) = payroll_items db" for f
    using C(3) by (intro update_where_none) (simp add: count_where_eq_0_iff, metis image_eqI)
  then have "payroll_items db' = payroll_items db @ [?t]"
    unfolding db' update_items_def by (simp add: db4(2) update_where_def)
  moreover have "payrolls db' = payrolls db" unfolding db' update_items_def by (simp add: db4(1))
  ultimately show thesis using that [of ?t] C(3-5) b keep by simp
qed

lemma pay_all_Inr:
  assumes "pay_all now orgID period pid emps db = Inr (nets, db')" "distinct (map it_id (payroll_items db))"
  shows "\<exists>new. payrolls db' = payrolls db \<and> payroll_items db' = payroll_items db @ new \<and> distinct (map it_id (payroll_items db')) \<and>
    list_all2 item_exact emps new \<and> map it_amount new = nets \<and> (\<forall>t \<in> set new. it_org t = orgID \<and> it_payroll t = pid)"
  using assms
proof (induction emps arbitrary: db nets)
  case (Cons emp emps)
  then obtain n db1 ns where p: "pay_employee now orgID period pid emp db = Inr (n, db1)"
    and rest: "pay_all now orgID period pid emps db1 = Inr (ns, db')" "nets = n # ns" by (auto simp: rbind_eq_Inr)
  from p obtain t where t: "payrolls db1 = payrolls db" "payroll_items db1 = payroll_items db @ [t]"
    "it_id t \<notin> it_id ` set (payroll_items db)" "it_org t = orgID" "it_payroll t = pid" "item_exact emp t" "it_amount t = n"
    by (rule pay_employee_Inr)
  have "distinct (map it_id (payroll_items db1))" using Cons.prems(2) t(2,3) by simp
  from Cons.IH [OF rest(1) this] obtain new where "payrolls db' = payrolls db1" "payroll_items db' = payroll_items db1 @ new"
    "distinct (map it_id (payroll_items db'))" "list_all2 item_exact emps new" "map it_amount new = ns"
    "\<forall>t \<in> set new. it_org t = orgID \<and> it_payroll t = pid" by blast
  then show ?case using t rest(2) by (intro exI [of _ "t # new"]) simp
qed simp

subsection \<open>Properties of a new run\<close>

lemma tasks_payroll: "payrolls (db\<lparr>tasks := ts\<rparr>) = payrolls db" "payroll_items (db\<lparr>tasks := ts\<rparr>) = payroll_items db"
  by simp_all

lemma item_exact_status: "item_exact emp t \<Longrightarrow> it_status t \<in> {PayrollPending, PayrollCompleted}"
  by (simp add: item_exact_def)

lemma create_body_Inr:
  assumes c: "create_body registry now db orgID period = Inr (p, db')" and inv: "payroll_inv db"
  obtains new where "batch_created db db' p new" "list_all2 item_exact (FindAllActive db orgID) new"
    "sint (pr_total p) = sum_list (map (sint \<circ> it_amount) new)" "pr_org p = orgID" "pr_period p = period" "FindAllActive db orgID \<noteq> []"
    "\<forall>q \<in> set (payrolls db). \<not> (pr_org q = orgID \<and> pr_period q = period)"
    "\<exists>cur. OrgCurrencyTx db orgID = Inr cur \<and> (\<exists>x. Registry_Select registry cur = Inr x)"
proof -
  note I = inv_parts [OF inv]
  obtain cur x where cur: "OrgCurrencyTx db orgID = Inr cur" "Registry_Select registry cur = Inr x"
    using c by (cases "OrgCurrencyTx db orgID") (auto simp: create_body_def split: sum.splits)
  have ne: "FindAllActive db orgID \<noteq> []" using c cur by (auto simp: create_body_def)
  from c cur ne obtain p0 db1 nets db2 tot where
    b: "create_batch now db orgID period = Inr (p0, db1)"
    and pa: "pay_all now orgID period (pr_id p0) (FindAllActive db orgID) db1 = Inr (nets, db2)"
    and s: "Kobo_Sum nets = Inr tot" and p: "p = p0\<lparr>pr_total := tot\<rparr>"
    and db': "db' = db2\<lparr>payrolls := update_where (\<lambda>q. pr_id q = pr_id p0) (\<lambda>q. q\<lparr>pr_total := tot, pr_updated_at := now\<rparr>) (payrolls db2)\<rparr>"
    by (auto simp: create_body_def rbind_eq_Inr)
  from b have B: "payrolls db1 = payrolls db @ [p0]" "payroll_items db1 = payroll_items db" "pr_id p0 \<notin> pr_id ` set (payrolls db)"
    "pr_org p0 = orgID" "pr_period p0 = period" "pr_status p0 = PayrollPending" "pr_updated_at p0 = now"
    "\<forall>q \<in> set (payrolls db). \<not> (pr_org q = orgID \<and> pr_period q = period)"
    by (auto simp: create_batch_def Let_def rbind_eq_Inr insert_row_Inr Payroll_BeforeCreate_def list_ex_iff split: if_splits)
  have "distinct (map it_id (payroll_items db1))" using I(2) B(2) by simp
  from pay_all_Inr [OF pa this] obtain new where new: "payrolls db2 = payrolls db1" "payroll_items db2 = payroll_items db1 @ new"
    "distinct (map it_id (payroll_items db2))" "list_all2 item_exact (FindAllActive db orgID) new" "map it_amount new = nets"
    "\<forall>t \<in> set new. it_org t = orgID \<and> it_payroll t = pr_id p0" by blast
  have "update_where (\<lambda>q. pr_id q = pr_id p0) f (payrolls db) = payrolls db" for f
    using B(3) by (intro update_where_none) (simp add: count_where_eq_0_iff, metis image_eqI)
  then have "payrolls db' = payrolls db @ [p]"
    unfolding db' using new(1) B(1,7) p by (simp add: update_where_def)
  moreover have "\<forall>t \<in> set new. it_status t \<in> {PayrollPending, PayrollCompleted}"
    using new(4) item_exact_status by (metis in_set_conv_nth list_all2_conv_all_nth)
  moreover have "payroll_items db' = payroll_items db @ new" unfolding db' using new(2) B(2) by simp
  ultimately have "batch_created db db' p new"
    using B(3,4,6) new(2,3,6) p by (auto simp: batch_created_def db')
  moreover have "sint tot = sum_list (map (sint \<circ> it_amount) new)" using Kobo_Sum_Inr [OF s] new(5) [symmetric] by (simp add: comp_def)
  ultimately show thesis using that new(4) B(4,5,8) ne cur p by auto
qed


definition demo_run_created :: "Payroll res \<times> payroll_db" where
  "demo_run_created = CreatePayroll DefaultProviderRegistry True (Date 2026 9 1) (demo_run [] []) ''ORG-1'' ''2026-08''"


end
