(* ===== verification/Employer_Users.thy ===== *)
theory Employer_Users
  imports Payroll_Lifecycle
begin

text \<open>
  The people who log in for an employer (\<open>employer_user_service.go\<close>, \<open>employer_user.go\<close>, and the email and password
  rules of \<open>validate.go\<close>). bcrypt, Unicode lower case and \<open>net/mail\<close> are the functions of the record \<open>identity_env\<close>; a
  random password is an argument, an error when the generator fails. Deleted organizations are removed: every query hides
  them. A unique index on the lower-cased email spans all organizations.
\<close>

record identity_env =
  ie_lower :: "string \<Rightarrow> string"
  ie_address :: "string \<Rightarrow> string option"
  ie_hash :: "string \<Rightarrow> string res"
  ie_matches :: "string \<Rightarrow> string \<Rightarrow> bool"
  ie_dummy_hash :: string

definition EmployerRoleAdmin :: string where "EmployerRoleAdmin = ''admin''"
definition EmployerRoleViewer :: string where "EmployerRoleViewer = ''viewer''"
definition EmployerRoleCompliance :: string where "EmployerRoleCompliance = ''compliance''"

definition ValidEmployerRole :: "string \<Rightarrow> bool" where
  "ValidEmployerRole r \<longleftrightarrow> r = EmployerRoleAdmin \<or> r = EmployerRoleViewer \<or> r = EmployerRoleCompliance"

record EmployerUser =
  eu_id :: string
  eu_org :: string
  eu_email :: string
  eu_name :: string
  eu_password_hash :: string
  eu_role :: string
  eu_active :: bool
  eu_must_change :: bool
  eu_last_login :: "time option"
  eu_password_changed :: "time option"
  eu_created_at :: time
  eu_updated_at :: time

record identity_db = ewa_db +
  employer_users :: "EmployerUser list"

definition EmployerUser_BeforeCreate :: "('z base_db_scheme) \<Rightarrow> EmployerUser \<Rightarrow> EmployerUser" where
  "EmployerUser_BeforeCreate db u = (if eu_id u = [] then u\<lparr>eu_id := fresh_id ''EUS-'' db\<rparr> else u)"

definition ErrEmployerUserExists :: err where
  "ErrEmployerUserExists = ErrOther ''a user with that email already exists''"
definition ErrEmployerUserNotFound :: err where
  "ErrEmployerUserNotFound = ErrOther ''user not found''"
definition ErrInvalidEmployerUser :: err where
  "ErrInvalidEmployerUser = ErrOther ''invalid user''"
definition ErrLastAdmin :: err where
  "ErrLastAdmin = ErrOther ''an organization must keep at least one active admin''"
definition ErrWrongPassword :: err where
  "ErrWrongPassword = ErrOther ''current password is incorrect''"

definition valid_Email :: "identity_env \<Rightarrow> string \<Rightarrow> bool" where
  "valid_Email env e \<longleftrightarrow> ie_address env e = Some e"

definition PasswordMinLen :: nat where "PasswordMinLen = 12"
definition PasswordMaxLen :: nat where "PasswordMaxLen = 72"

definition valid_Password :: "string \<Rightarrow> string" where
  "valid_Password p =
     (if length p < PasswordMinLen then ''password must be at least 12 characters''
      else if PasswordMaxLen < length p then ''password must be at most 72 bytes''
      else [])"

definition normalizeEmail :: "identity_env \<Rightarrow> string \<Rightarrow> string" where
  "normalizeEmail env e = ie_lower env (TrimSpace e)"

text \<open>The constraints of the table: the primary key, the email, the role.\<close>

definition insert_employer_user :: "identity_env \<Rightarrow> EmployerUser \<Rightarrow> EmployerUser list \<Rightarrow> EmployerUser list res" where
  "insert_employer_user env u rows =
     (if \<not> ValidEmployerRole (eu_role u) then Inl ErrCheckViolation
      else if ie_lower env (eu_email u) \<in> (\<lambda>r. ie_lower env (eu_email r)) ` set rows then Inl ErrUniqueViolation
      else insert_row eu_id u rows)"

subsection \<open>Logging in\<close>

definition Authenticate ::
  "identity_env \<Rightarrow> time \<Rightarrow> ('z identity_db_scheme) \<Rightarrow> string \<Rightarrow> string \<Rightarrow> EmployerUser res \<times> ('z identity_db_scheme)" where
  "Authenticate env now db email password =
     (let found = find (\<lambda>u. ie_lower env (eu_email u) = ie_lower env (TrimSpace email)) (employer_users db);
          ok = ie_matches env (case found of None \<Rightarrow> ie_dummy_hash env | Some u \<Rightarrow> eu_password_hash u) password
      in case found of
           None \<Rightarrow> (Inl ErrEmployerUserNotFound, db)
         | Some u \<Rightarrow>
             if \<not> ok \<or> \<not> eu_active u then (Inl ErrEmployerUserNotFound, db)
             else (case find_row (\<lambda>o1. org_id o1 = eu_org u) (organizations db) of
                     Inl _ \<Rightarrow> (Inl ErrEmployerUserNotFound, db)
                   | Inr o1 \<Rightarrow>
                       if \<not> org_active o1 \<or> org_is_d2c o1 then (Inl ErrEmployerUserNotFound, db)
                       else (Inr u, db\<lparr>employer_users := update_where (\<lambda>r. eu_id r = eu_id u \<and> eu_org r = eu_org u)
                               (\<lambda>r. r\<lparr>eu_last_login := Some now\<rparr>) (employer_users db)\<rparr>)))"

definition employer_user_IsActive :: "('z identity_db_scheme) \<Rightarrow> string \<Rightarrow> string \<Rightarrow> bool res" where
  "employer_user_IsActive db orgID userID =
     (case find_row (\<lambda>u. eu_id u = userID \<and> eu_org u = orgID) (employer_users db) of
        Inl e \<Rightarrow> if e = ErrRecordNotFound then Inr False else Inl e
      | Inr u \<Rightarrow> Inr (eu_active u))"

subsection \<open>Managing people\<close>

definition create_user_body ::
  "time \<Rightarrow> identity_env \<Rightarrow> string \<Rightarrow> EmployerUser \<Rightarrow> Actor \<Rightarrow> ('z identity_db_scheme) \<Rightarrow> (EmployerUser \<times> 'z identity_db_scheme) res" where
  "create_user_body now env orgID u actor db =
     (let u1 = EmployerUser_BeforeCreate db u
      in rbind (insert_employer_user env u1 (employer_users db)) (\<lambda>rows.
         rbind (AppendAuditTx ((take_uuid db)\<lparr>employer_users := rows\<rparr>) orgID ''EmployerUser'' (eu_id u1) ''user_created'' []
                  (eu_role u1) (actor_ip actor) (actor_name actor)) (\<lambda>db'.
         Inr (u1, db'))))"

definition employer_Create ::
  "identity_env \<Rightarrow> string res \<Rightarrow> time \<Rightarrow> ('z identity_db_scheme) \<Rightarrow> string \<Rightarrow> string \<Rightarrow> string \<Rightarrow> string \<Rightarrow> Actor
     \<Rightarrow> (EmployerUser \<times> string) res \<times> ('z identity_db_scheme)" where
  "employer_Create env temp now db orgID email name role actor =
     (let email = normalizeEmail env email
      in if \<not> valid_Email env email then (Inl ErrInvalidEmployerUser, db)
         else if \<not> ValidEmployerRole role then (Inl ErrInvalidEmployerUser, db)
         else (case rbind temp (\<lambda>t. rbind (ie_hash env t) (\<lambda>h. Inr (t, h))) of
                 Inl e \<Rightarrow> (Inl e, db)
               | Inr (t, h) \<Rightarrow>
                   (case WithOrgScope db (create_user_body now env orgID
                        \<lparr>eu_id = [], eu_org = orgID, eu_email = email, eu_name = TrimSpace name, eu_password_hash = h, eu_role = role,
                         eu_active = True, eu_must_change = True, eu_last_login = None, eu_password_changed = None,
                         eu_created_at = now, eu_updated_at = now\<rparr> actor) of
                      (Inl e, db') \<Rightarrow> (Inl (if e = ErrUniqueViolation then ErrEmployerUserExists else e), db')
                    | (Inr u, db') \<Rightarrow> (Inr (u, t), db'))))"

definition employer_List :: "('z identity_db_scheme) \<Rightarrow> string \<Rightarrow> EmployerUser list" where
  "employer_List db orgID = sort_key (\<lambda>u. (eu_created_at u, eu_id u)) (filter (\<lambda>u. eu_org u = orgID) (employer_users db))"

record EmployerUserUpdate =
  uu_role :: "string option"
  uu_active :: "bool option"

definition role_text :: "string \<Rightarrow> bool \<Rightarrow> string" where
  "role_text role active = role @ ''/active='' @ (if active then ''true'' else ''false'')"

definition other_admins :: "('z identity_db_scheme) \<Rightarrow> string \<Rightarrow> string \<Rightarrow> nat" where
  "other_admins db orgID userID =
     count_where (\<lambda>r. eu_org r = orgID \<and> eu_role r = EmployerRoleAdmin \<and> eu_active r \<and> eu_id r \<noteq> userID) (employer_users db)"

definition update_user_body ::
  "time \<Rightarrow> string \<Rightarrow> string \<Rightarrow> EmployerUserUpdate \<Rightarrow> Actor \<Rightarrow> ('z identity_db_scheme) \<Rightarrow> (EmployerUser \<times> 'z identity_db_scheme) res" where
  "update_user_body now orgID userID upd actor db =
     (case find_row (\<lambda>u. eu_id u = userID \<and> eu_org u = orgID) (employer_users db) of
        Inl e \<Rightarrow> Inl (if e = ErrRecordNotFound then ErrEmployerUserNotFound else e)
      | Inr u \<Rightarrow>
          let newRole = (case uu_role upd of None \<Rightarrow> eu_role u | Some r \<Rightarrow> r);
              newActive = (case uu_active upd of None \<Rightarrow> eu_active u | Some a \<Rightarrow> a)
          in if eu_role u = EmployerRoleAdmin \<and> eu_active u \<and> (newRole \<noteq> EmployerRoleAdmin \<or> \<not> newActive) \<and>
                other_admins db orgID userID = 0
             then Inl ErrLastAdmin
             else
               let rows = update_where (\<lambda>r. eu_id r = eu_id u)
                            (\<lambda>r. r\<lparr>eu_role := newRole, eu_active := newActive, eu_updated_at := now\<rparr>) (employer_users db)
               in rbind (AppendAuditTx (db\<lparr>employer_users := rows\<rparr>) orgID ''EmployerUser'' (eu_id u) ''user_updated''
                          (role_text (eu_role u) (eu_active u)) (role_text newRole newActive) (actor_ip actor) (actor_name actor)) (\<lambda>db'.
                  Inr (u\<lparr>eu_role := newRole, eu_active := newActive, eu_updated_at := now\<rparr>, db')))"

definition employer_Update ::
  "time \<Rightarrow> ('z identity_db_scheme) \<Rightarrow> string \<Rightarrow> string \<Rightarrow> EmployerUserUpdate \<Rightarrow> Actor \<Rightarrow> EmployerUser res \<times> ('z identity_db_scheme)" where
  "employer_Update now db orgID userID upd actor =
     (if uu_role upd = None \<and> uu_active upd = None then (Inl ErrInvalidEmployerUser, db)
      else if (case uu_role upd of None \<Rightarrow> False | Some r \<Rightarrow> \<not> ValidEmployerRole r) then (Inl ErrInvalidEmployerUser, db)
      else WithOrgScope db (update_user_body now orgID userID upd actor))"

definition ResetPassword ::
  "identity_env \<Rightarrow> string res \<Rightarrow> time \<Rightarrow> ('z identity_db_scheme) \<Rightarrow> string \<Rightarrow> string \<Rightarrow> Actor \<Rightarrow> string res \<times> ('z identity_db_scheme)" where
  "ResetPassword env temp now db orgID userID actor =
     (case rbind temp (\<lambda>t. rbind (ie_hash env t) (\<lambda>h. Inr (t, h))) of
        Inl e \<Rightarrow> (Inl e, db)
      | Inr (t, h) \<Rightarrow>
          WithOrgScope db (\<lambda>db.
            let P = (\<lambda>u. eu_id u = userID \<and> eu_org u = orgID)
            in if count_where P (employer_users db) = 0 then Inl ErrEmployerUserNotFound
               else rbind (AppendAuditTx (db\<lparr>employer_users := update_where P
                             (\<lambda>u. u\<lparr>eu_password_hash := h, eu_must_change := True, eu_updated_at := now\<rparr>) (employer_users db)\<rparr>)
                            orgID ''EmployerUser'' userID ''password_reset'' [] [] (actor_ip actor) (actor_name actor)) (\<lambda>db'.
                    Inr (t, db'))))"

definition employer_ChangePassword ::
  "identity_env \<Rightarrow> time \<Rightarrow> ('z identity_db_scheme) \<Rightarrow> string \<Rightarrow> string \<Rightarrow> string \<Rightarrow> string \<Rightarrow> string \<Rightarrow> unit res \<times> ('z identity_db_scheme)" where
  "employer_ChangePassword env now db orgID userID current nxt ip =
     (if valid_Password nxt \<noteq> [] then (Inl ErrInvalidEmployerUser, db)
      else if current = nxt then (Inl ErrInvalidEmployerUser, db)
      else WithOrgScope db (\<lambda>db.
        case find_row (\<lambda>u. eu_id u = userID \<and> eu_org u = orgID) (employer_users db) of
          Inl _ \<Rightarrow> Inl ErrEmployerUserNotFound
        | Inr u \<Rightarrow>
            if \<not> ie_matches env (eu_password_hash u) current then Inl ErrWrongPassword
            else
              rbind (ie_hash env nxt) (\<lambda>h.
              rbind (AppendAuditTx (db\<lparr>employer_users := update_where (\<lambda>r. eu_id r = eu_id u)
                       (\<lambda>r. r\<lparr>eu_password_hash := h, eu_must_change := False, eu_password_changed := Some now, eu_updated_at := now\<rparr>)
                       (employer_users db)\<rparr>)
                      orgID ''EmployerUser'' userID ''password_changed'' [] [] ip userID) (\<lambda>db'.
              Inr ((), db')))))"

text \<open>Onboarding: the organization in a statement of its own, its first admin, and the organization deleted again when that fails.\<close>

definition CreateOrganization ::
  "identity_env \<Rightarrow> string res \<Rightarrow> time \<Rightarrow> ('z identity_db_scheme) \<Rightarrow> string \<Rightarrow> Currency \<Rightarrow> string
     \<Rightarrow> (Organization \<times> EmployerUser \<times> string) res \<times> ('z identity_db_scheme)" where
  "CreateOrganization env temp now db name currency adminEmail =
     (let name = TrimSpace name
      in if name = [] then (Inl ErrInvalidEmployerUser, db)
         else if \<not> Currency_IsValid currency then (Inl ErrInvalidEmployerUser, db)
         else
           let o1 = Organization_BeforeCreate db
                 \<lparr>org_id = [], org_name = name, org_role = EmployerRoleAdmin, org_region = ''ng'', org_currency = currency,
                  org_is_d2c = False, org_active = True\<rparr>
           in case insert_row org_id o1 (organizations db) of
                Inl e \<Rightarrow> (Inl e, db)
              | Inr orgs \<Rightarrow>
                  (case employer_Create env temp now ((take_uuid db)\<lparr>organizations := orgs\<rparr>) (org_id o1) adminEmail [] EmployerRoleAdmin
                          \<lparr>actor_name = ''onboarding-cli'', actor_ip = []\<rparr> of
                     (Inl e, db') \<Rightarrow> (Inl e, db'\<lparr>organizations := filter (\<lambda>r. org_id r \<noteq> org_id o1) (organizations db')\<rparr>)
                   | (Inr (u, t), db') \<Rightarrow> (Inr (o1, u, t), db')))"


subsection \<open>An organization keeps an admin\<close>

definition has_admin :: "EmployerUser list \<Rightarrow> string \<Rightarrow> bool" where
  "has_admin us orgID \<longleftrightarrow> (\<exists>u \<in> set us. eu_org u = orgID \<and> eu_role u = EmployerRoleAdmin \<and> eu_active u)"

definition people_ok :: "identity_env \<Rightarrow> EmployerUser list \<Rightarrow> bool" where
  "people_ok env us \<longleftrightarrow> distinct (map eu_id us) \<and> distinct (map (\<lambda>u. ie_lower env (eu_email u)) us)"

lemma AppendAuditTx_users: "AppendAuditTx db o1 et ei ac be af ip ky = Inr db' \<Longrightarrow> employer_users db' = employer_users (db :: ('z identity_db_scheme))"
  by (drule AppendAuditTx_Inr) (elim exE conjE, simp)

lemma create_body_users:
  assumes "create_user_body now env orgID u actor db = Inr (u1, db')"
  shows "employer_users db' = employer_users db @ [u1] \<and> u1 = EmployerUser_BeforeCreate db u \<and> eu_id u1 \<notin> eu_id ` set (employer_users db) \<and>
    ie_lower env (eu_email u1) \<notin> (\<lambda>r. ie_lower env (eu_email r)) ` set (employer_users db)"
  using assms
  by (auto simp: create_user_body_def Let_def insert_employer_user_def insert_row_def go_results dest!: AppendAuditTx_users split: if_splits)

definition new_user :: "identity_env \<Rightarrow> time \<Rightarrow> string \<Rightarrow> string \<Rightarrow> string \<Rightarrow> string \<Rightarrow> string \<Rightarrow> EmployerUser" where
  "new_user env now orgID email name role h =
     \<lparr>eu_id = [], eu_org = orgID, eu_email = normalizeEmail env email, eu_name = TrimSpace name, eu_password_hash = h,
      eu_role = role, eu_active = True, eu_must_change = True, eu_last_login = None, eu_password_changed = None,
      eu_created_at = now, eu_updated_at = now\<rparr>"

lemma Create_cases:
  obtains (refused) e where "employer_Create env temp now db orgID email name role actor = (Inl e, db)"
  | (created) h t u db' where "employer_Create env temp now db orgID email name role actor = (Inr (u, t), db')"
      "create_user_body now env orgID (new_user env now orgID email name role h) actor db = Inr (u, db')"
proof (cases "valid_Email env (normalizeEmail env email) \<and> ValidEmployerRole role")
  case False
  then have "employer_Create env temp now db orgID email name role actor = (Inl ErrInvalidEmployerUser, db)"
    by (auto simp: employer_Create_def Let_def)
  then show ?thesis by (rule refused)
next
  case ok: True
  show ?thesis
  proof (cases "rbind temp (\<lambda>t. rbind (ie_hash env t) (\<lambda>h. Inr (t, h)))")
    case (Inl e)
    then show ?thesis using refused ok by (simp add: employer_Create_def Let_def)
  next
    case (Inr th)
    obtain t h where th: "th = (t, h)" by (cases th)
    have eq: "employer_Create env temp now db orgID email name role actor =
        (case WithOrgScope db (create_user_body now env orgID (new_user env now orgID email name role h) actor) of
           (Inl e, db') \<Rightarrow> (Inl (if e = ErrUniqueViolation then ErrEmployerUserExists else e), db')
         | (Inr u, db') \<Rightarrow> (Inr (u, t), db'))"
      using ok Inr th by (simp add: employer_Create_def Let_def new_user_def)
    show ?thesis
    proof (cases "create_user_body now env orgID (new_user env now orgID email name role h) actor db")
      case (Inl e)
      then show ?thesis using refused eq by simp
    next
      case (Inr x)
      obtain u db' where "x = (u, db')" by (cases x)
      then show ?thesis using created eq Inr by simp
    qed
  qed
qed

text \<open>The other operations change rows in place, never their ids, organizations or emails.\<close>

definition edited :: "(EmployerUser \<Rightarrow> EmployerUser) \<Rightarrow> bool" where
  "edited f \<longleftrightarrow> (\<forall>u. eu_id (f u) = eu_id u \<and> eu_org (f u) = eu_org u \<and> eu_email (f u) = eu_email u)"

definition keeps_role :: "(EmployerUser \<Rightarrow> EmployerUser) \<Rightarrow> bool" where
  "keeps_role f \<longleftrightarrow> (\<forall>u. eu_role (f u) = eu_role u \<and> eu_active (f u) = eu_active u)"

lemma people_ok_update: "edited f \<Longrightarrow> people_ok env (update_where P f us) = people_ok env us"
  by (simp add: people_ok_def edited_def map_update_where_same)

lemma has_admin_update:
  assumes "edited f" "keeps_role f" "has_admin us orgID"
  shows "has_admin (update_where P f us) orgID"
proof -
  obtain u where u: "u \<in> set us" "eu_org u = orgID" "eu_role u = EmployerRoleAdmin" "eu_active u"
    using assms(3) by (auto simp: has_admin_def)
  then have "(if P u then f u else u) \<in> set (update_where P f us)" unfolding in_update_where by blast
  then show ?thesis using u assms(1,2) by (auto simp: has_admin_def edited_def keeps_role_def split: if_splits)
qed

definition same_people :: "EmployerUser list \<Rightarrow> EmployerUser list \<Rightarrow> bool" where
  "same_people us us' \<longleftrightarrow> us' = us \<or> (\<exists>P f. us' = update_where P f us \<and> edited f \<and> keeps_role f)"

lemma same_people_ok:
  assumes "same_people us us'"
  shows "people_ok env us \<Longrightarrow> people_ok env us'" "has_admin us orgID \<Longrightarrow> has_admin us' orgID"
  using assms by (auto simp: same_people_def people_ok_update has_admin_update)

lemma same_peopleI: "edited f \<Longrightarrow> keeps_role f \<Longrightarrow> same_people us (update_where P f us)"
  by (auto simp: same_people_def)

lemma Authenticate_users: "same_people (employer_users db) (employer_users (snd (Authenticate env now db email password)))"
  by (simp add: Authenticate_def Let_def same_peopleI edited_def keeps_role_def same_people_def [of us us for us] split: option.split sum.split)

lemma ResetPassword_users: "same_people (employer_users db) (employer_users (snd (ResetPassword env temp now db orgID userID actor)))"
proof -
  have "same_people (employer_users db) (employer_users db)" by (simp add: same_people_def)
  then show ?thesis
    by (auto simp: ResetPassword_def Let_def WithOrgScope_def go_results edited_def keeps_role_def dest!: AppendAuditTx_users
        intro!: same_peopleI split: sum.split prod.split if_splits)
qed

lemma ChangePassword_users: "same_people (employer_users db) (employer_users (snd (employer_ChangePassword env now db orgID userID current nxt ip)))"
proof -
  have "same_people (employer_users db) (employer_users db)" by (simp add: same_people_def)
  then show ?thesis
    by (auto simp: employer_ChangePassword_def Let_def WithOrgScope_def go_results edited_def keeps_role_def dest!: AppendAuditTx_users
        intro!: same_peopleI split: sum.split prod.split if_splits)
qed

lemma Update_users:
  assumes ok: "people_ok env (employer_users db)"
  shows "people_ok env (employer_users (snd (employer_Update now db orgID userID upd actor))) \<and>
    (has_admin (employer_users db) o1 \<longrightarrow> has_admin (employer_users (snd (employer_Update now db orgID userID upd actor))) o1)"
proof (cases "\<exists>u db'. update_user_body now orgID userID upd actor db = Inr (u, db') \<and> employer_Update now db orgID userID upd actor = (Inr u, db')")
  case False
  then have "employer_users (snd (employer_Update now db orgID userID upd actor)) = employer_users db"
    by (cases "update_user_body now orgID userID upd actor db") (auto simp: employer_Update_def WithOrgScope_def)
  then show ?thesis using ok by simp
next
  case True
  then obtain u' db' where body: "update_user_body now orgID userID upd actor db = Inr (u', db')"
    and up: "snd (employer_Update now db orgID userID upd actor) = db'" by auto
  from body obtain u where u: "find_row (\<lambda>u. eu_id u = userID \<and> eu_org u = orgID) (employer_users db) = Inr u"
    by (auto simp: update_user_body_def split: sum.splits)
  define newRole where "newRole = (case uu_role upd of None \<Rightarrow> eu_role u | Some r \<Rightarrow> r)"
  define newActive where "newActive = (case uu_active upd of None \<Rightarrow> eu_active u | Some a \<Rightarrow> a)"
  let ?f = "\<lambda>r. r\<lparr>eu_role := newRole, eu_active := newActive, eu_updated_at := now\<rparr>"
  have in_u: "u \<in> set (employer_users db)" "eu_id u = userID" "eu_org u = orgID" using find_row_Inr [OF u] by auto
  have rows: "employer_users db' = update_where (\<lambda>r. eu_id r = userID) ?f (employer_users db)"
    and guard: "\<not> (eu_role u = EmployerRoleAdmin \<and> eu_active u \<and> (newRole \<noteq> EmployerRoleAdmin \<or> \<not> newActive) \<and> other_admins db orgID userID = 0)"
    using body u in_u by (auto simp: update_user_body_def newRole_def [symmetric] newActive_def [symmetric] Let_def go_results
        dest!: AppendAuditTx_users split: if_splits)
  have "edited ?f" by (simp add: edited_def)
  then have "people_ok env (employer_users db')" using ok rows by (simp add: people_ok_update)
  moreover have "has_admin (employer_users db') o1" if adm: "has_admin (employer_users db) o1"
  proof -
    obtain a where a: "a \<in> set (employer_users db)" "eu_org a = o1" "eu_role a = EmployerRoleAdmin" "eu_active a"
      using adm by (auto simp: has_admin_def)
    show ?thesis
    proof (cases "eu_id a = userID")
      case False
      then have "a \<in> set (employer_users db')" unfolding rows in_update_where using a(1) by (intro bexI [of _ a]) simp_all
      then show ?thesis using a by (auto simp: has_admin_def)
    next
      case True
      then have "a = u" using ok in_u a(1) by (metis people_ok_def eq_key_imp_eq_value distinct_map inj_onD)
      show ?thesis
      proof (cases "newRole = EmployerRoleAdmin \<and> newActive")
        case True
        have "?f u \<in> set (employer_users db')" unfolding rows in_update_where using in_u by (intro bexI [of _ u]) simp_all
        moreover have "eu_org (?f u) = o1" "eu_role (?f u) = EmployerRoleAdmin" "eu_active (?f u)" using True a \<open>a = u\<close> by simp_all
        ultimately show ?thesis unfolding has_admin_def by blast
      next
        case False
        then have "other_admins db orgID userID \<noteq> 0" using guard a \<open>a = u\<close> by auto
        then obtain b where b: "b \<in> set (employer_users db)" "eu_org b = orgID" "eu_role b = EmployerRoleAdmin" "eu_active b" "eu_id b \<noteq> userID"
          by (auto simp: other_admins_def count_where_eq_0_iff)
        then have "b \<in> set (employer_users db')" unfolding rows in_update_where by (intro bexI [of _ b]) simp_all
        then show ?thesis using b a \<open>a = u\<close> in_u by (auto simp: has_admin_def)
      qed
    qed
  qed
  ultimately show ?thesis using up by simp
qed


lemma Create_people:
  assumes ok: "people_ok env (employer_users db)"
  shows "people_ok env (employer_users (snd (employer_Create env temp now db orgID email name role actor))) \<and>
    (has_admin (employer_users db) o1 \<longrightarrow> has_admin (employer_users (snd (employer_Create env temp now db orgID email name role actor))) o1)"
proof (cases rule: Create_cases [where env = env and temp = temp and now = now and db = db and orgID = orgID and email = email
      and name = name and role = role and actor = actor])
  case (refused e)
  then show ?thesis using ok by simp
next
  case (created h t u db')
  then show ?thesis using ok create_body_users [OF created(2)] by (auto simp: people_ok_def has_admin_def)
qed

lemma CreateOrganization_people:
  fixes db :: "('z identity_db_scheme)"
  assumes ok: "people_ok env (employer_users db)"
  shows "people_ok env (employer_users (snd (CreateOrganization env temp now db name currency email)))"
    and "has_admin (employer_users db) o1 \<Longrightarrow> has_admin (employer_users (snd (CreateOrganization env temp now db name currency email))) o1"
proof -
  let ?out = "employer_users (snd (CreateOrganization env temp now db name currency email))"
  let ?o1 = "Organization_BeforeCreate db \<lparr>org_id = [], org_name = TrimSpace name, org_role = EmployerRoleAdmin,
      org_region = ''ng'', org_currency = currency, org_is_d2c = False, org_active = True\<rparr>"
  let ?actor = "\<lparr>actor_name = ''onboarding-cli'', actor_ip = []\<rparr>"
  have "?out = employer_users db \<or> (\<exists>db1 :: 'z identity_db_scheme. employer_users db1 = employer_users db \<and>
      ?out = employer_users (snd (employer_Create env temp now db1 (org_id ?o1) email [] EmployerRoleAdmin ?actor)))"
  proof (cases "TrimSpace name \<noteq> [] \<and> Currency_IsValid currency")
    case False
    then show ?thesis by (auto simp: CreateOrganization_def Let_def)
  next
    case valid: True
    show ?thesis
    proof (cases "insert_row org_id ?o1 (organizations db)")
      case (Inl e)
      then show ?thesis using valid by (simp add: CreateOrganization_def Let_def)
    next
      case (Inr orgs)
      let ?db1 = "(take_uuid db)\<lparr>organizations := orgs\<rparr>"
      have "?out = employer_users (snd (employer_Create env temp now ?db1 (org_id ?o1) email [] EmployerRoleAdmin ?actor))"
        using valid Inr by (cases "employer_Create env temp now ?db1 (org_id ?o1) email [] EmployerRoleAdmin ?actor")
          (simp add: CreateOrganization_def Let_def split: sum.split prod.split)
      moreover have "employer_users ?db1 = employer_users db" by (simp add: take_uuid_def)
      ultimately show ?thesis by (intro disjI2 exI [of _ ?db1] conjI)
    qed
  qed
  then show "people_ok env ?out" and "has_admin (employer_users db) o1 \<Longrightarrow> has_admin ?out o1"
    using ok Create_people by metis+
qed

text \<open>Everything that touches the people of any organization; \<open>elsewhere\<close> is the rest of the program.\<close>

inductive employer_step :: "identity_env \<Rightarrow> ('z identity_db_scheme) \<Rightarrow> ('z identity_db_scheme) \<Rightarrow> bool" for env where
  login: "employer_step env db (snd (Authenticate env now db email password))"
| created: "employer_step env db (snd (employer_Create env temp now db orgID email name role actor))"
| updated: "employer_step env db (snd (employer_Update now db orgID userID upd actor))"
| reset: "employer_step env db (snd (ResetPassword env temp now db orgID userID actor))"
| changed: "employer_step env db (snd (employer_ChangePassword env now db orgID userID current nxt ip))"
| onboarded: "employer_step env db (snd (CreateOrganization env temp now db name currency email))"
| elsewhere: "employer_users db' = employer_users db \<Longrightarrow> employer_step env db db'"

lemma employer_step_ok:
  assumes "employer_step env db db'" "people_ok env (employer_users db)"
  shows "people_ok env (employer_users db') \<and> (has_admin (employer_users db) o1 \<longrightarrow> has_admin (employer_users db') o1)"
  using assms
proof (induction rule: employer_step.induct)
  case (login db now email password)
  then show ?case using same_people_ok [OF Authenticate_users] by blast
next
  case (created db temp now orgID email name role actor)
  then show ?case by (rule Create_people)
next
  case (updated db now orgID userID upd actor)
  then show ?case by (rule Update_users)
next
  case (reset db temp now orgID userID actor)
  then show ?case using same_people_ok [OF ResetPassword_users] by blast
next
  case (changed db now orgID userID current nxt ip)
  then show ?case using same_people_ok [OF ChangePassword_users] by blast
next
  case (onboarded db temp now name currency email)
  then show ?case using CreateOrganization_people by blast
qed simp

lemma employer_steps_ok:
  assumes "(employer_step env)\<^sup>*\<^sup>* db db'" "people_ok env (employer_users db)"
  shows "people_ok env (employer_users db') \<and> (has_admin (employer_users db) o1 \<longrightarrow> has_admin (employer_users db') o1)"
  using assms
proof (induction rule: rtranclp_induct)
  case (step db1 db2)
  then show ?case using employer_step_ok [OF step(2), of o1] by blast
qed simp

text \<open>
  C20: an onboarded organization always has somebody who can administer it. Starting from no people at all, when
  \<open>CreateOrganization\<close> succeeds the organization exists with an active admin; whatever logins, new people, updates, password
  changes and onboardings follow, it keeps an active admin, and ids and emails stay unique.
\<close>

theorem last_admin_kept:
  assumes start: "employer_users db0 = []" and before: "(employer_step env)\<^sup>*\<^sup>* db0 db"
    and created: "CreateOrganization env temp now db name currency email = (Inr (o1, u, t), db1)"
    and after: "(employer_step env)\<^sup>*\<^sup>* db1 db2"
  shows "o1 \<in> set (organizations db1) \<and> org_active o1 \<and> eu_org u = org_id o1 \<and> eu_must_change u \<and>
    has_admin (employer_users db2) (org_id o1) \<and>
    distinct (map eu_id (employer_users db2)) \<and> distinct (map (\<lambda>u. ie_lower env (eu_email u)) (employer_users db2))"
proof -
  have ok: "people_ok env (employer_users db)" using employer_steps_ok [OF before] start by (simp add: people_ok_def)
  from created obtain orgs where orgs: "insert_row org_id o1 (organizations db) = Inr orgs" and a: "org_active o1"
    and c: "employer_Create env temp now ((take_uuid db)\<lparr>organizations := orgs\<rparr>) (org_id o1) email [] EmployerRoleAdmin
              \<lparr>actor_name = ''onboarding-cli'', actor_ip = []\<rparr> = (Inr (u, t), db1)"
    by (auto simp: CreateOrganization_def Let_def Organization_BeforeCreate_def split: if_splits sum.splits prod.splits)
  from c obtain h where body: "create_user_body now env (org_id o1) (new_user env now (org_id o1) email [] EmployerRoleAdmin h)
      \<lparr>actor_name = ''onboarding-cli'', actor_ip = []\<rparr> ((take_uuid db)\<lparr>organizations := orgs\<rparr>) = Inr (u, db1)"
    by (cases rule: Create_cases [where env = env and temp = temp and now = now and orgID = "org_id o1" and email = email and name = "[]"
          and role = EmployerRoleAdmin and actor = "\<lparr>actor_name = ''onboarding-cli'', actor_ip = []\<rparr>" and
          db = "(take_uuid db)\<lparr>organizations := orgs\<rparr>"]) auto
  note u = create_body_users [OF body]
  then have fields: "eu_org u = org_id o1" "eu_role u = EmployerRoleAdmin" "eu_active u" "eu_must_change u"
    by (simp_all add: EmployerUser_BeforeCreate_def new_user_def)
  have "organizations db1 = orgs"
    using body by (auto simp: create_user_body_def Let_def go_results dest!: AppendAuditTx_Inr)
  moreover have "orgs = organizations db @ [o1]" using orgs by (simp add: insert_row_def split: if_splits)
  ultimately have "o1 \<in> set (organizations db1)" by simp
  moreover have "has_admin (employer_users db1) (org_id o1)" using u fields by (auto simp: has_admin_def)
  moreover have "people_ok env (employer_users db1)"
  proof -
    have db: "employer_users ((take_uuid db)\<lparr>organizations := orgs\<rparr>) = employer_users db" by (simp add: take_uuid_def)
    have "employer_users db1 = employer_users db @ [u]" "eu_id u \<notin> eu_id ` set (employer_users db)"
      "ie_lower env (eu_email u) \<notin> (\<lambda>r. ie_lower env (eu_email r)) ` set (employer_users db)"
      using u unfolding db by blast+
    then show ?thesis using ok by (simp add: people_ok_def)
  qed
  ultimately show ?thesis using employer_steps_ok [OF after] a fields by (simp add: people_ok_def)
qed


subsection \<open>Example\<close>

definition demo_env :: identity_env where
  "demo_env = \<lparr>ie_lower = id, ie_address = Some, ie_hash = Inr, ie_matches = (=), ie_dummy_hash = ''dummy''\<rparr>"

definition demo_people :: "EmployerUser list \<Rightarrow> identity_db" where
  "demo_people us = ewa_db.extend demo_ewa (identity_db.fields us)"

definition demo_onboarded :: "(Organization \<times> EmployerUser \<times> string) res \<times> identity_db" where
  "demo_onboarded = CreateOrganization demo_env (Inr ''temp'') 5 (demo_people []) '' Acme '' NGN ''a@b.ng''"

theorem last_admin_kept_witness:
  "\<exists>o1 u t db1. demo_onboarded = (Inr (o1, u, t), db1) \<and>
     has_admin (employer_users (snd (employer_Update 6 db1 (org_id o1) (eu_id u) \<lparr>uu_role = Some ''viewer'', uu_active = None\<rparr>
       \<lparr>actor_name = [], actor_ip = []\<rparr>))) (org_id o1)"
proof -
  have ok: "case fst demo_onboarded of Inl _ \<Rightarrow> False | Inr _ \<Rightarrow> True" by code_simp
  obtain r db1 where d: "demo_onboarded = (r, db1)" by (cases demo_onboarded)
  from ok [unfolded d] obtain x where "r = Inr x" by (cases r) auto
  with d obtain o1 u t where run: "demo_onboarded = (Inr (o1, u, t), db1)" by (cases x) auto
  have "(employer_step demo_env)\<^sup>*\<^sup>* (demo_people []) (demo_people [])" by simp
  moreover have "employer_users (demo_people []) = []" by (simp add: demo_people_def demo_ewa_def ewa_db.defs identity_db.defs)
  moreover have "(employer_step demo_env)\<^sup>*\<^sup>* db1 (snd (employer_Update 6 db1 (org_id o1) (eu_id u)
      \<lparr>uu_role = Some ''viewer'', uu_active = None\<rparr> \<lparr>actor_name = [], actor_ip = []\<rparr>))"
    by (intro r_into_rtranclp employer_step.updated)
  ultimately show ?thesis using last_admin_kept [OF _ _ run [unfolded demo_onboarded_def]] run by blast
qed

end
