(* ===== verification/EWA_Policies.thy ===== *)
theory EWA_Policies
  imports EWA_Service
begin

text \<open>
  The organization's EWA policy (\<open>ewa_policy_service.go\<close>): reading it, and an update of some of its fields. The
  audit row holds both policies as JSON, whose encoder is the parameter \<open>marshal\<close>. The table's constraints are the
  checks of the code and the range of its \<open>INTEGER\<close> columns.
\<close>

record PolicyUpdate =
  pu_enabled :: "bool option"
  pu_max_accrual_pct :: "int64 option"
  pu_absolute_cap :: "Kobo option"
  pu_min_draw :: "Kobo option"
  pu_max_draws :: "int option"
  pu_cooling_off_hours :: "int option"
  pu_emergency_floor :: "Kobo option"
  pu_require_funding :: "bool option"
  pu_counselling_name :: "string option"
  pu_counselling_contact :: "string option"

definition ErrInvalidPolicyValue :: err where
  "ErrInvalidPolicyValue = ErrOther ''policy: invalid value''"

text \<open>A field that is given must pass its check; a field that is not stays.\<close>

definition change_field :: "('v \<Rightarrow> bool) \<Rightarrow> ('v \<Rightarrow> EWAPolicy \<Rightarrow> EWAPolicy) \<Rightarrow> 'v option \<Rightarrow> EWAPolicy \<Rightarrow> EWAPolicy res" where
  "change_field ok set_to x p =
     (case x of None \<Rightarrow> Inr p | Some v \<Rightarrow> if ok v then Inr (set_to v p) else Inl ErrInvalidPolicyValue)"

definition apply_update :: "PolicyUpdate \<Rightarrow> EWAPolicy \<Rightarrow> EWAPolicy res" where
  "apply_update upd p =
     rbind (change_field (\<lambda>_. True) (\<lambda>v p. p\<lparr>pol_enabled := v\<rparr>) (pu_enabled upd) p) (\<lambda>p.
     rbind (change_field (\<lambda>v. \<not> (v <s 1 \<or> 100 <s v)) (\<lambda>v p. p\<lparr>pol_max_accrual_pct := v\<rparr>) (pu_max_accrual_pct upd) p) (\<lambda>p.
     rbind (change_field Kobo_IsPositive (\<lambda>v p. p\<lparr>pol_absolute_cap := v\<rparr>) (pu_absolute_cap upd) p) (\<lambda>p.
     rbind (change_field Kobo_IsPositive (\<lambda>v p. p\<lparr>pol_min_draw := v\<rparr>) (pu_min_draw upd) p) (\<lambda>p.
     rbind (change_field (\<lambda>v. 1 \<le> v) (\<lambda>v p. p\<lparr>pol_max_draws := nat v\<rparr>) (pu_max_draws upd) p) (\<lambda>p.
     rbind (change_field (\<lambda>v. 0 \<le> v) (\<lambda>v p. p\<lparr>pol_cooling_off_hours := v\<rparr>) (pu_cooling_off_hours upd) p) (\<lambda>p.
     rbind (change_field (\<lambda>v. \<not> Kobo_IsNegative v) (\<lambda>v p. p\<lparr>pol_emergency_floor := v\<rparr>) (pu_emergency_floor upd) p) (\<lambda>p.
     rbind (change_field (\<lambda>_. True) (\<lambda>v p. p\<lparr>pol_require_funding := v\<rparr>) (pu_require_funding upd) p) (\<lambda>p.
     rbind (change_field (\<lambda>_. True) (\<lambda>v p. p\<lparr>pol_counselling_name := v\<rparr>) (pu_counselling_name upd) p) (\<lambda>p.
     change_field (\<lambda>_. True) (\<lambda>v p. p\<lparr>pol_counselling_contact := v\<rparr>) (pu_counselling_contact upd) p)))))))))"

definition write_policy :: "EWAPolicy \<Rightarrow> EWAPolicy list \<Rightarrow> EWAPolicy list res" where
  "write_policy p rows =
     (if int (pol_max_draws p) < 2 ^ 31 \<and> pol_cooling_off_hours p < 2 ^ 31 then Inr (upsert pol_org p rows)
      else Inl (ErrOther ''integer out of range''))"

definition GetPolicy :: "('z ewa_db_scheme) \<Rightarrow> string \<Rightarrow> EWAPolicy res" where
  "GetPolicy db orgID = policyTx db orgID"

definition UpdatePolicy ::
  "(EWAPolicy \<Rightarrow> string) \<Rightarrow> ('z ewa_db_scheme) \<Rightarrow> string \<Rightarrow> PolicyUpdate \<Rightarrow> string \<Rightarrow> EWAPolicy res \<times> ('z ewa_db_scheme)" where
  "UpdatePolicy marshal db orgID upd actorIP = WithOrgScope db (\<lambda>db.
     rbind (policyTx db orgID) (\<lambda>current.
     rbind (apply_update upd current) (\<lambda>p.
     rbind (write_policy p (ewa_policies db)) (\<lambda>rows.
     rbind (AppendAuditTx (db\<lparr>ewa_policies := rows\<rparr>) orgID ''EWAPolicy'' orgID ''policy_updated'' (marshal current) (marshal p)
              actorIP []) (\<lambda>db'.
     Inr (p, db'))))))"

text \<open>The bounds every saved policy and every default keeps.\<close>

definition policy_in_bounds :: "EWAPolicy \<Rightarrow> bool" where
  "policy_in_bounds p \<longleftrightarrow>
     1 \<le> sint (pol_max_accrual_pct p) \<and> sint (pol_max_accrual_pct p) \<le> 100 \<and> 0 < sint (pol_absolute_cap p) \<and>
     0 < sint (pol_min_draw p) \<and> 1 \<le> pol_max_draws p \<and> 0 \<le> pol_cooling_off_hours p \<and> 0 \<le> sint (pol_emergency_floor p)"

lemma change_field_bounds:
  assumes "change_field ok set_to x p = Inr p'" "policy_in_bounds p" "\<And>v. ok v \<Longrightarrow> policy_in_bounds p \<Longrightarrow> policy_in_bounds (set_to v p)"
  shows "policy_in_bounds p'"
  using assms by (auto simp: change_field_def split: option.splits if_splits)

lemma apply_update_bounds:
  assumes "apply_update upd p = Inr p'" "policy_in_bounds p"
  shows "policy_in_bounds p'"
  using assms unfolding apply_update_def rbind_eq_Inr
  by (elim exE conjE)
     (erule change_field_bounds, (erule change_field_bounds)+;
      simp add: policy_in_bounds_def sless_sint Kobo_IsPositive_def Kobo_IsNegative_def not_less)

lemma change_field_Inr:
  "change_field ok set_to x p = Inr p' \<longleftrightarrow> pred_option ok x \<and> p' = (case x of None \<Rightarrow> p | Some v \<Rightarrow> set_to v p)"
  by (auto simp: change_field_def split: option.splits)

lemma rbind_change_field:
  "rbind (change_field ok set_to x p) k = Inr r \<longleftrightarrow> pred_option ok x \<and> k (case x of None \<Rightarrow> p | Some v \<Rightarrow> set_to v p) = Inr r"
  by (auto simp: rbind_eq_Inr change_field_Inr)

lemma apply_update_fields:
  assumes "apply_update upd p = Inr p'"
  shows "p' = p\<lparr>pol_enabled := kept (pu_enabled upd) (pol_enabled p), pol_max_accrual_pct := kept (pu_max_accrual_pct upd) (pol_max_accrual_pct p),
      pol_absolute_cap := kept (pu_absolute_cap upd) (pol_absolute_cap p), pol_min_draw := kept (pu_min_draw upd) (pol_min_draw p),
      pol_max_draws := kept (map_option nat (pu_max_draws upd)) (pol_max_draws p),
      pol_cooling_off_hours := kept (pu_cooling_off_hours upd) (pol_cooling_off_hours p),
      pol_emergency_floor := kept (pu_emergency_floor upd) (pol_emergency_floor p), pol_require_funding := kept (pu_require_funding upd) (pol_require_funding p),
      pol_counselling_name := kept (pu_counselling_name upd) (pol_counselling_name p),
      pol_counselling_contact := kept (pu_counselling_contact upd) (pol_counselling_contact p)\<rparr>"
proof -
  have put: "(case x of None \<Rightarrow> q | Some v \<Rightarrow> set_to v q) = set_to (kept x (get q)) q" if "\<And>q. set_to (get q) q = q"
    for x :: "'v option" and q and set_to :: "'v \<Rightarrow> EWAPolicy \<Rightarrow> EWAPolicy" and get
    using that by (simp add: kept_def split: option.split)
  have nats: "(case x of None \<Rightarrow> q | Some v \<Rightarrow> q\<lparr>pol_max_draws := nat v\<rparr>) = q\<lparr>pol_max_draws := kept (map_option nat x) (pol_max_draws q)\<rparr>"
    for x and q :: EWAPolicy
    by (simp add: kept_def split: option.split)
  note puts = put [of "\<lambda>v q. q\<lparr>pol_enabled := v\<rparr>" pol_enabled] put [of "\<lambda>v q. q\<lparr>pol_max_accrual_pct := v\<rparr>" pol_max_accrual_pct]
    put [of "\<lambda>v q. q\<lparr>pol_absolute_cap := v\<rparr>" pol_absolute_cap] put [of "\<lambda>v q. q\<lparr>pol_min_draw := v\<rparr>" pol_min_draw] nats
    put [of "\<lambda>v q. q\<lparr>pol_cooling_off_hours := v\<rparr>" pol_cooling_off_hours] put [of "\<lambda>v q. q\<lparr>pol_emergency_floor := v\<rparr>" pol_emergency_floor]
    put [of "\<lambda>v q. q\<lparr>pol_require_funding := v\<rparr>" pol_require_funding] put [of "\<lambda>v q. q\<lparr>pol_counselling_name := v\<rparr>" pol_counselling_name]
    put [of "\<lambda>v q. q\<lparr>pol_counselling_contact := v\<rparr>" pol_counselling_contact]
  from assms show ?thesis
    unfolding apply_update_def rbind_change_field change_field_Inr
    by (elim conjE) (simp add: puts)
qed

lemma policyTx_cong:
  "ewa_policies db' = ewa_policies db \<Longrightarrow> organizations db' = organizations db \<Longrightarrow> policyTx db' = policyTx db"
proof -
  assume same: "ewa_policies db' = ewa_policies db" "organizations db' = organizations db"
  then have "OrgCurrencyTx db' = OrgCurrencyTx db" by (simp add: OrgCurrencyTx_def fun_eq_iff)
  with same show ?thesis unfolding policyTx_def by (simp only:)
qed

lemma DefaultEWAPolicy_org: "pol_org (DefaultEWAPolicy orgID c) = orgID"
  by (auto simp: DefaultEWAPolicy_def Let_def split: option.split prod.split)

lemma policyTx_org: "policyTx db orgID = Inr p \<Longrightarrow> pol_org p = orgID"
  by (auto simp: policyTx_def find_row_def find_Some_iff DefaultEWAPolicy_org rbind_eq_Inr split: option.splits sum.splits)

lemma UpdatePolicy_Inr:
  assumes "UpdatePolicy marshal db orgID upd ip = (Inr p, db')" "policyTx db orgID = Inr current"
  shows "apply_update upd current = Inr p \<and> int (pol_max_draws p) < 2 ^ 31 \<and> pol_cooling_off_hours p < 2 ^ 31 \<and>
    (\<exists>a. db' = db\<lparr>ewa_policies := upsert pol_org p (ewa_policies db), uuid_next := Suc (uuid_next db), audit_events := audit_events db @ [a]\<rparr> \<and>
       aud_org a = orgID \<and> aud_action a = ''policy_updated'' \<and> aud_before a = marshal current \<and> aud_after a = marshal p)"
  using assms
  by (auto simp: UpdatePolicy_def WithOrgScope_def write_policy_def go_results split: sum.splits if_splits dest!: AppendAuditTx_Inr)

text \<open>
  An update writes what it was given and keeps the rest, for its own organization only, within the bounds; a refused
  one writes nothing.
\<close>

theorem policy_update_exact:
  assumes run: "UpdatePolicy marshal db orgID upd ip = (r, db')" and cur: "policyTx db orgID = Inr current" "policy_in_bounds current"
  shows "case r of Inl e \<Rightarrow> db' = db
    | Inr p \<Rightarrow> policyTx db' orgID = Inr p \<and> policy_in_bounds p \<and> apply_update upd current = Inr p \<and>
        (\<forall>other. other \<noteq> orgID \<longrightarrow> policyTx db' other = policyTx db other) \<and>
        (\<exists>a. audit_events db' = audit_events db @ [a] \<and> aud_before a = marshal current \<and> aud_after a = marshal p)"
proof (cases r)
  case (Inl e)
  then show ?thesis using run by (auto simp: UpdatePolicy_def WithOrgScope_def split: sum.splits)
next
  case (Inr p)
  from UpdatePolicy_Inr [OF run [unfolded Inr] cur(1)] obtain a where upd: "apply_update upd current = Inr p"
    and db': "db' = db\<lparr>ewa_policies := upsert pol_org p (ewa_policies db), uuid_next := Suc (uuid_next db), audit_events := audit_events db @ [a]\<rparr>"
    and a: "aud_before a = marshal current" "aud_after a = marshal p" by auto
  have org: "pol_org p = orgID"
    using apply_update_fields [OF upd] policyTx_org [OF cur(1)] by simp
  have cur': "OrgCurrencyTx db' = OrgCurrencyTx db" by (simp add: db' OrgCurrencyTx_def fun_eq_iff)
  have pols: "ewa_policies db' = upsert pol_org p (ewa_policies db)" by (simp add: db')
  have "policyTx db' o1 = (if o1 = orgID then Inr p else policyTx db o1)" for o1
    using find_upsert [of pol_org o1 p "ewa_policies db"] org
    unfolding policyTx_def cur' pols by simp
  then show ?thesis using Inr upd apply_update_bounds [OF upd cur(2)] a by (auto simp: db')
qed

lemma protected_payday_ratchet_frame:
  assumes pol: "policyTx db orgID = Inr policy" and s: "SetProtectedPayday db orgID employeeID amount now = (Inr p, db')"
  shows "pref_last_changed (workerPreferenceTx db' orgID employeeID) = Some now \<and> policyTx db' orgID = Inr policy \<and>
    count_where (\<lambda>e. emp_id e = employeeID) (employees db') \<noteq> 0"
proof -
  let ?pk = "\<lambda>p. (pref_org p, pref_employee p)"
  have p: "p = \<lparr>pref_org = orgID, pref_employee = employeeID, pref_protected_minor = amount, pref_last_changed = Some now\<rparr>"
    and db': "db' = db\<lparr>worker_prefs := upsert ?pk p (worker_prefs db)\<rparr>" and e: "count_where (\<lambda>e. emp_id e = employeeID) (employees db) \<noteq> 0"
    using s pol by (auto simp: SetProtectedPayday_def WithOrgScope_def Let_def split: if_splits sum.splits)
  have "policyTx db' = policyTx db" by (rule policyTx_cong) (simp_all add: db')
  moreover have "workerPreferenceTx db' orgID employeeID = p"
    using find_upsert [of ?pk "(orgID, employeeID)" p "worker_prefs db"] by (simp add: workerPreferenceTx_def db' p)
  ultimately show ?thesis using pol e by (simp add: p db')
qed

text \<open>
  The hours become a \<open>time.Duration\<close> by an unchecked product. From 2,562,048 hours on, which an update accepts and
  the column holds, it is negative: the floor a worker has just set can be lowered at once.
\<close>

lemma huge_cooling_off: "pol_cooling_off_hours p = 2562048 \<Longrightarrow> cooling_off p < 0"
  by (simp add: cooling_off_def wrap64_def Hour_def)

theorem huge_cooling_off_disabled:
  assumes run: "UpdatePolicy marshal db orgID upd ip = (Inr p, db1)" and cur: "policyTx db orgID = Inr current" "policy_in_bounds current"
    and hours: "pu_cooling_off_hours upd = Some 2562048"
    and raised: "SetProtectedPayday db1 orgID employeeID high now = (Inr pref, db2)"
    and lower: "0 \<le> sint low"
  shows "\<exists>pref' db3. SetProtectedPayday db2 orgID employeeID low now = (Inr pref', db3) \<and> ProtectedPayday pref' = low"
proof -
  from policy_update_exact [OF run cur] have pol: "policyTx db1 orgID = Inr p" "apply_update upd current = Inr p" by simp_all
  then have "pol_cooling_off_hours p = 2562048" using apply_update_fields [OF pol(2)] hours by (simp add: kept_def)
  then have neg: "\<not> now < now + cooling_off p" using huge_cooling_off [of p] by simp
  from protected_payday_ratchet_frame [OF pol(1) raised]
  have w: "pref_last_changed (workerPreferenceTx db2 orgID employeeID) = Some now" "policyTx db2 orgID = Inr p"
    "count_where (\<lambda>e. emp_id e = employeeID) (employees db2) \<noteq> 0" by auto
  then show ?thesis using neg lower
    by (auto simp: SetProtectedPayday_def Let_def WithOrgScope_def sless_sint ProtectedPayday_def)
qed

definition demo_hours_update :: PolicyUpdate where
  "demo_hours_update = \<lparr>pu_enabled = None, pu_max_accrual_pct = None, pu_absolute_cap = None, pu_min_draw = None, pu_max_draws = None,
     pu_cooling_off_hours = Some 2562048, pu_emergency_floor = None, pu_require_funding = None, pu_counselling_name = None,
     pu_counselling_contact = None\<rparr>"

theorem huge_cooling_off_disabled_witness:
  "\<exists>p db1 pref db2 pref' db3. UpdatePolicy (\<lambda>_. ''{}'') demo_link ''ORG-1'' demo_hours_update ''ip'' = (Inr p, db1) \<and>
     SetProtectedPayday db1 ''ORG-1'' ''EMP-h'' 500 0 = (Inr pref, db2) \<and>
     SetProtectedPayday db2 ''ORG-1'' ''EMP-h'' 400 0 = (Inr pref', db3) \<and> ProtectedPayday pref' = 400"
proof -
  let ?upd = "UpdatePolicy (\<lambda>_. ''{}'') demo_link ''ORG-1'' demo_hours_update ''ip''"
  let ?raise = "SetProtectedPayday (snd ?upd) ''ORG-1'' ''EMP-h'' 500 0"
  have "case ?upd of (Inr _, _) \<Rightarrow> True | _ \<Rightarrow> False" by code_simp
  then obtain p db1 where upd: "?upd = (Inr p, db1)" by (auto split: prod.splits sum.splits)
  have "case ?raise of (Inr _, _) \<Rightarrow> True | _ \<Rightarrow> False" by code_simp
  then obtain pref db2 where raise: "SetProtectedPayday db1 ''ORG-1'' ''EMP-h'' 500 0 = (Inr pref, db2)"
    by (auto simp: upd split: prod.splits sum.splits)
  have "policy_in_bounds (DefaultEWAPolicy ''ORG-1'' NGN)" by code_simp
  then have "\<exists>pref' db3. SetProtectedPayday db2 ''ORG-1'' ''EMP-h'' 400 0 = (Inr pref', db3) \<and> ProtectedPayday pref' = 400"
    by (rule huge_cooling_off_disabled [OF upd demo_link_facts(3) _ _ raise]) (simp_all add: demo_hours_update_def)
  with upd raise show ?thesis by blast
qed

end
