(* ===== verification/Payroll_API.thy ===== *)
theory Payroll_API
  imports Payroll_Service Employer_Users EWA_Policies
begin

text \<open>
  The employer's endpoints over the payroll, user and policy services: \<open>payroll_handler.go\<close>, \<open>payslip_handler.go\<close>,
  \<open>employer_user_handler.go\<close>, \<open>policy_handler.go\<close>, with the page parameters of \<open>pagination.go\<close>. A handler answers a
  status with what the body is built from, \<open>None\<close> for an error message.
\<close>

type_synonym 'a reply_body = "nat \<times> 'a option"

definition respond :: "nat \<Rightarrow> (err \<Rightarrow> nat) \<Rightarrow> 'a res \<times> 'db \<Rightarrow> 'a reply_body \<times> 'db" where
  "respond okay code = (\<lambda>(r, db). case r of Inl e \<Rightarrow> ((code e, None), db) | Inr x \<Rightarrow> ((okay, Some x), db))"

subsection \<open>Pages\<close>

definition defaultPageSize :: int where "defaultPageSize = 20"
definition maxPageSize :: int where "maxPageSize = 100"

text \<open>
  \<open>strconv.Atoi\<close> with its error dropped: zero for text that is not a number, the nearest \<open>int64\<close> for a number out of
  range. The sign and the digits are those of \<open>ParseInt\<close>.
\<close>

definition Atoi_value :: "string \<Rightarrow> int" where
  "Atoi_value s =
     (let (neg, ds) =
        (case s of [] \<Rightarrow> (False, [])
         | c # cs \<Rightarrow> (if c = CHR ''+'' then (False, cs) else if c = CHR ''-'' then (True, cs) else (False, s)))
      in case parse_nat ds of
           None \<Rightarrow> 0
         | Some n \<Rightarrow> max (- (2 ^ 63)) (min (2 ^ 63 - 1) (if neg then - n else n)))"

lemma Atoi_value_bounds: "Atoi_value s \<le> 2 ^ 63 - 1"
  by (auto simp: Atoi_value_def Let_def split: option.splits prod.splits)

definition pageParams :: "string option \<Rightarrow> string option \<Rightarrow> int \<times> int" where
  "pageParams page_param size_param =
     (let page = Atoi_value (case page_param of None \<Rightarrow> ''1'' | Some s \<Rightarrow> s);
          pageSize = Atoi_value (case size_param of None \<Rightarrow> ''20'' | Some s \<Rightarrow> s)
      in (if page < 1 then 1 else page,
          if pageSize < 1 \<or> maxPageSize < pageSize then defaultPageSize else pageSize))"

text \<open>The offset of a page is computed in \<open>int64\<close>.\<close>

definition page_offset :: "int \<times> int \<Rightarrow> int" where
  "page_offset = (\<lambda>(page, pageSize). wrap64 ((page - 1) * pageSize))"

lemma pageParams_bounds:
  "1 \<le> fst (pageParams p s)" "fst (pageParams p s) \<le> 2 ^ 63 - 1" "1 \<le> snd (pageParams p s)" "snd (pageParams p s) \<le> 100"
  using Atoi_value_bounds [of "case p of None \<Rightarrow> ''1'' | Some s \<Rightarrow> s"]
  by (simp_all add: pageParams_def Let_def maxPageSize_def defaultPageSize_def)

lemma page_offset_exact:
  assumes "fst (pageParams p s) \<le> 2 ^ 56"
  shows "page_offset (pageParams p s) = (fst (pageParams p s) - 1) * snd (pageParams p s)"
proof -
  let ?p = "fst (pageParams p s)" and ?s = "snd (pageParams p s)"
  have b: "0 \<le> ?p - 1" "?p - 1 \<le> 2 ^ 56" "0 \<le> ?s" "?s \<le> 100" using pageParams_bounds [of p s] assms by simp_all
  have "(?p - 1) * ?s \<le> 2 ^ 56 * 100" using b by (intro mult_mono) simp_all
  moreover have "0 \<le> (?p - 1) * ?s" using b by simp
  ultimately show ?thesis by (simp add: page_offset_def wrap64_def split_beta)
qed

text \<open>A page number near the limit wraps to a negative offset, which the query builder leaves out: the first page again.\<close>

lemma last_page_wraps: "page_offset (pageParams (Some ''9223372036854775807'') None) = - 40"
  by code_simp

subsection \<open>Payrolls\<close>

definition handle_CreatePayroll ::
  "providers \<Rightarrow> bool \<Rightarrow> time \<Rightarrow> ('z payroll_db_scheme) \<Rightarrow> string \<Rightarrow> string \<Rightarrow> Payroll reply_body \<times> ('z payroll_db_scheme)" where
  "handle_CreatePayroll registry enqueue_ok now db orgID period =
     (if period = [] then ((400, None), db)
      else respond 202 (\<lambda>e.
        if e = ErrInvalidPeriod then 400
        else if e = ErrUniqueViolation then 409
        else if e = ErrNoActiveEmployees then 422
        else if e = ErrUnsupportedCurrency then 422
        else 500) (CreatePayroll registry enqueue_ok now db orgID period))"

definition handle_GetPayroll ::
  "time \<Rightarrow> ('z payroll_db_scheme) \<Rightarrow> string \<Rightarrow> string \<Rightarrow> (Payroll \<times> PayrollItem list \<times> PayrollSummary) reply_body" where
  "handle_GetPayroll now db orgID i =
     (case GetPayrollView now db orgID i of
        Inl e \<Rightarrow> (if e = ErrRecordNotFound then 404 else 500, None)
      | Inr v \<Rightarrow> (200, Some v))"

datatype retry_answer = RetryQueued RetryResult | RetrySkipped "SkippedItem list" | RetryError

definition handle_RetryPayroll ::
  "bool \<Rightarrow> time \<Rightarrow> ('z payroll_db_scheme) \<Rightarrow> string \<Rightarrow> string \<Rightarrow> Actor \<Rightarrow> (nat \<times> retry_answer) \<times> ('z payroll_db_scheme)" where
  "handle_RetryPayroll enqueue_ok now db orgID payrollID by =
     (case RetryFailedItems enqueue_ok now db orgID payrollID by of
        (Inr result, db') \<Rightarrow> ((202, RetryQueued result), db')
      | (Inl e, db') \<Rightarrow>
          if e = ErrRecordNotFound then ((404, RetryError), db')
          else if e = ErrPayrollNotRetryable then ((409, RetryError), db')
          else if e = ErrNothingToRetry then
            ((409, RetrySkipped (case retry_body now db orgID payrollID by of Inr ((result, _), _) \<Rightarrow> rr_skipped result | Inl _ \<Rightarrow> [])), db')
          else if e = ErrQueueUnavailable then ((503, RetryError), db')
          else ((500, RetryError), db'))"

definition outcome_of :: "string \<Rightarrow> ResolveOutcome" where
  "outcome_of s = (if s = ''paid'' then ResolvePaid else if s = ''failed'' then ResolveFailed else ResolveOther s)"

definition handle_ResolvePayrollItem ::
  "time \<Rightarrow> ('z payroll_db_scheme) \<Rightarrow> string \<Rightarrow> string \<Rightarrow> string \<Rightarrow> string \<Rightarrow> string \<Rightarrow> string \<Rightarrow> Actor
     \<Rightarrow> PayrollItem reply_body \<times> ('z payroll_db_scheme)" where
  "handle_ResolvePayrollItem now db orgID payrollID itemID outcome note0 evidence by =
     (if outcome \<notin> {''paid'', ''failed''} \<or> note0 = [] then ((400, None), db)
      else respond 200 (\<lambda>e.
        if e = ErrRecordNotFound then 404
        else if e = ErrInvalidResolution then 400
        else if e = ErrItemNotResolvable \<or> e = ErrNotYetStuck then 409
        else 500) (ResolveItem now db orgID payrollID itemID (outcome_of outcome) note0 evidence by))"

subsection \<open>Users and policy\<close>

definition user_error :: "err \<Rightarrow> nat" where
  "user_error e =
     (if e = ErrEmployerUserNotFound then 404
      else if e = ErrEmployerUserExists \<or> e = ErrLastAdmin then 409
      else if e = ErrInvalidEmployerUser then 400 else 500)"

definition handle_CreateUser ::
  "identity_env \<Rightarrow> string res \<Rightarrow> time \<Rightarrow> ('z identity_db_scheme) \<Rightarrow> string \<Rightarrow> string \<Rightarrow> string \<Rightarrow> string \<Rightarrow> Actor
     \<Rightarrow> (EmployerUser \<times> string) reply_body \<times> ('z identity_db_scheme)" where
  "handle_CreateUser env temp now db orgID email name role actor =
     (if email = [] \<or> role = [] then ((400, None), db)
      else respond 201 user_error (employer_Create env temp now db orgID email name role actor))"

definition handle_UpdateUser ::
  "time \<Rightarrow> ('z identity_db_scheme) \<Rightarrow> string \<Rightarrow> string \<Rightarrow> EmployerUserUpdate \<Rightarrow> Actor \<Rightarrow> EmployerUser reply_body \<times> ('z identity_db_scheme)" where
  "handle_UpdateUser now db orgID userID upd actor = respond 200 user_error (employer_Update now db orgID userID upd actor)"

definition handle_ResetPassword ::
  "identity_env \<Rightarrow> string res \<Rightarrow> time \<Rightarrow> ('z identity_db_scheme) \<Rightarrow> string \<Rightarrow> string \<Rightarrow> Actor \<Rightarrow> string reply_body \<times> ('z identity_db_scheme)" where
  "handle_ResetPassword env temp now db orgID userID actor = respond 200 user_error (ResetPassword env temp now db orgID userID actor)"

definition handle_GetPolicy :: "('z ewa_db_scheme) \<Rightarrow> string \<Rightarrow> EWAPolicy reply_body" where
  "handle_GetPolicy db orgID = (case GetPolicy db orgID of Inl _ \<Rightarrow> (500, None) | Inr p \<Rightarrow> (200, Some p))"

definition handle_UpdatePolicy ::
  "(EWAPolicy \<Rightarrow> string) \<Rightarrow> ('z ewa_db_scheme) \<Rightarrow> string \<Rightarrow> PolicyUpdate \<Rightarrow> string \<Rightarrow> EWAPolicy reply_body \<times> ('z ewa_db_scheme)" where
  "handle_UpdatePolicy marshal db orgID upd ip =
     respond 200 (\<lambda>e. if e = ErrInvalidPolicyValue then 400 else 500) (UpdatePolicy marshal db orgID upd ip)"

subsection \<open>A retry whose task was not queued\<close>

lemma update_where_elem: "t \<in> set (update_where P f rows) \<Longrightarrow> \<exists>r \<in> set rows. t = r \<and> \<not> P r \<or> P r \<and> t = f r"
  by (auto simp: in_update_where split: if_splits)

lemma retry_leaves_nothing:
  assumes r: "retry_body now db orgID pid by = Inr ((result, False), db')"
  shows "\<exists>p. payroll_FindByID db' orgID pid = Inr p \<and> pr_status p = PayrollFailed"
    "filter (is_active db' orgID) (FindItemsByStatus db' orgID pid PayrollFailed) = []"
    "rr_retrying result = count_where (\<lambda>t. it_payroll t = pid \<and> it_org t = orgID \<and> it_status t = PayrollPending) (payroll_items db')"
    "0 < rr_retrying result"
proof -
  from r obtain p where fp: "payroll_FindByID db orgID pid = Inr p" by (auto simp: retry_body_def rbind_eq_Inr)
  let ?retry = "filter (is_active db orgID) (FindItemsByStatus db orgID pid PayrollFailed)"
  from r fp obtain db1 where st: "pr_status p = PayrollFailed" and rel: "release_failed now db ?retry = Inr db1"
    and same: "payrolls db' = payrolls db1" "payroll_items db' = payroll_items db1" "employees db' = employees db1"
    and res: "rr_retrying result = count_where (\<lambda>t. it_payroll t = pid \<and> it_org t = orgID \<and> it_status t = PayrollPending) (payroll_items db1)"
      "0 < rr_retrying result"
    by (auto simp: retry_body_def Let_def rbind_eq_Inr split: if_splits dest!: AppendAuditTx_Inr)
  note db1 = release_failed_Inr [OF rel]
  show "\<exists>p. payroll_FindByID db' orgID pid = Inr p \<and> pr_status p = PayrollFailed"
    using fp st same(1) db1 by (simp add: payroll_FindByID_def)
  show "rr_retrying result = count_where (\<lambda>t. it_payroll t = pid \<and> it_org t = orgID \<and> it_status t = PayrollPending) (payroll_items db')"
    "0 < rr_retrying result" using res same(2) by simp_all
  have "employees db' = employees db" using same(3) db1 by simp
  then have act: "is_active db' orgID t \<longleftrightarrow> is_active db orgID t" for t by (simp add: is_active_def employee_of_def)
  have "\<not> is_active db' orgID t" if t: "t \<in> set (FindItemsByStatus db' orgID pid PayrollFailed)" for t
  proof
    assume a: "is_active db' orgID t"
    from t have i: "t \<in> set (payroll_items db')" "it_status t = PayrollFailed" "it_org t = orgID" "it_payroll t = pid"
      by (auto simp: FindItemsByStatus_def with_status_def items_of_def)
    let ?P = "\<lambda>t. it_id t \<in> it_id ` set ?retry \<and> it_status t = PayrollFailed"
    obtain r where r: "r \<in> set (payroll_items db)" "t = r \<and> \<not> ?P r \<or> ?P r \<and> it_status t = PayrollPending"
      using update_where_elem [OF i(1) [unfolded same(2) db1, simplified]] by auto
    then have t0: "t \<in> set (payroll_items db)" "\<not> it_id t \<in> it_id ` set ?retry" using i(2) by auto
    then have "t \<in> set ?retry" using a act i by (auto simp: FindItemsByStatus_def with_status_def items_of_def)
    then show False using t0(2) by blast
  qed
  then show "filter (is_active db' orgID) (FindItemsByStatus db' orgID pid PayrollFailed) = []" by (simp add: filter_empty_conv)
qed

lemma retry_body_error: "retry_body now db orgID pid by = Inl e \<Longrightarrow> e \<noteq> ErrQueueUnavailable"
  by (auto simp: retry_body_def payroll_FindByID_def find_row_def release_failed_def AppendAuditTx_def appendAuditOn_def insert_row_def
      Let_def rbind_eq_Inl split: if_splits option.splits)

lemma retry_keeps:
  assumes "retry_body now db orgID pid by = Inr ((result, b), db')"
    and "filter (is_active db orgID) (FindItemsByStatus db orgID pid PayrollFailed) = []"
  shows "payrolls db' = payrolls db" "payroll_items db' = payroll_items db" "tasks db' = tasks db"
  using assms by (auto simp: retry_body_def Let_def rbind_eq_Inr release_failed_def split: if_splits dest!: AppendAuditTx_Inr)

text \<open>
  C21: a retry that was recorded but not queued is resumed. When the retry endpoint answers 503, sending the request
  again while the queue works is answered 202 for exactly the waiting items: their attempts are not counted up a second
  time, the tables of batches and items do not change, and the one thing added is the batch's task.
\<close>

theorem retry_resumes:
  assumes run: "handle_RetryPayroll enqueue_ok now db orgID pid by = ((503, body), db')"
    and fresh: "fresh_id ''AUD-'' db' \<notin> aud_id ` set (audit_events db')"
  shows "\<not> enqueue_ok \<and> (\<exists>result db''. handle_RetryPayroll True now2 db' orgID pid by2 = ((202, RetryQueued result), db'') \<and>
    rr_retrying result = count_where (\<lambda>t. it_payroll t = pid \<and> it_org t = orgID \<and> it_status t = PayrollPending) (payroll_items db') \<and>
    0 < rr_retrying result \<and> payrolls db'' = payrolls db' \<and> payroll_items db'' = payroll_items db' \<and>
    tasks db'' = tasks db' @ [TaskProcessPayroll orgID pid])"
proof -
  from run obtain result where ok: "\<not> enqueue_ok" and r: "retry_body now db orgID pid by = Inr ((result, False), db')"
    by (auto simp: handle_RetryPayroll_def RetryFailedItems_def WithOrgScope_def dest: retry_body_error split: sum.splits prod.splits if_splits)
  note n = retry_leaves_nothing [OF r]
  obtain p where p: "payroll_FindByID db' orgID pid = Inr p" "pr_status p = PayrollFailed" using n(1) by blast
  have audit: "\<exists>db2. AppendAuditTx db' orgID ''Payroll'' pid ''retry_failed'' b a (actor_ip by2) (actor_name by2) = Inr db2" for a b
    using fresh by (simp add: AppendAuditTx_def appendAuditOn_def AuditEvent_BeforeCreate_def insert_row_def Let_def)
  let ?f = "FindItemsByStatus db' orgID pid PayrollFailed"
  let ?sk = "map (\<lambda>t. \<lparr>sk_employee = it_employee t, sk_name = it_name t, sk_reason = ''employee is no longer active''\<rparr>)
    (filter (\<lambda>t. \<not> is_active db' orgID t) ?f)"
  let ?res = "\<lparr>rr_payroll = pid, rr_retrying = rr_retrying result, rr_skipped = ?sk\<rparr>"
  obtain db2 where db2: "AppendAuditTx db' orgID ''Payroll'' pid ''retry_failed'' (FormatInt (int (length ?f)) @ '' failed'')
      (FormatInt (int (rr_retrying result)) @ '' resent, '' @ FormatInt (int (length ?sk)) @ '' skipped'') (actor_ip by2) (actor_name by2) = Inr db2"
    using audit by blast
  have again: "retry_body now2 db' orgID pid by2 = Inr ((?res, False), db2)"
    using db2 n(4) by (simp add: retry_body_def Let_def release_failed_def p n(2) n(3) [symmetric])
  note same = retry_keeps [OF again n(2)]
  have "handle_RetryPayroll True now2 db' orgID pid by2 = ((202, RetryQueued ?res), db2\<lparr>tasks := tasks db2 @ [TaskProcessPayroll orgID pid]\<rparr>)"
    by (simp add: handle_RetryPayroll_def RetryFailedItems_def again)
  then show ?thesis using ok n(3,4) same
    by (intro conjI exI [of _ ?res] exI [of _ "db2\<lparr>tasks := tasks db2 @ [TaskProcessPayroll orgID pid]\<rparr>"]) simp_all
qed

definition demo_failed :: payroll_db where
  "demo_failed = demo_run [demo_batch\<lparr>pr_status := PayrollFailed\<rparr>]
     [(demo_item ''ITEM-a1'' ''EMP-h'' 150050)\<lparr>it_status := PayrollCompleted\<rparr>,
      (demo_item ''ITEM-b2'' ''EMP-h'' 200000)\<lparr>it_status := PayrollFailed\<rparr>]"

definition demo_actor :: Actor where
  "demo_actor = \<lparr>actor_name = ''Ada'', actor_ip = ''ip''\<rparr>"

definition demo_retry :: "bool \<Rightarrow> payroll_db \<Rightarrow> (nat \<times> retry_answer) \<times> payroll_db" where
  "demo_retry ok db = handle_RetryPayroll ok 7 db ''ORG-1'' ''PAY-1'' demo_actor"

theorem retry_resumes_witness:
  "\<exists>db' result db''. demo_retry False demo_failed = ((503, RetryError), db') \<and>
     demo_retry True db' = ((202, RetryQueued result), db'') \<and> rr_retrying result = 1 \<and>
     map it_attempt (payroll_items db'') = map it_attempt (payroll_items db') \<and>
     map it_attempt (payroll_items db') \<noteq> map it_attempt (payroll_items demo_failed)"
proof -
  have "case demo_retry False demo_failed of ((c, RetryError), db') \<Rightarrow> c = 503 \<and> fresh_id ''AUD-'' db' \<notin> aud_id ` set (audit_events db') \<and>
      count_where (\<lambda>t. it_payroll t = ''PAY-1'' \<and> it_org t = ''ORG-1'' \<and> it_status t = PayrollPending) (payroll_items db') = 1 \<and>
      map it_attempt (payroll_items db') \<noteq> map it_attempt (payroll_items demo_failed) | _ \<Rightarrow> False" by code_simp
  then obtain db' where run: "demo_retry False demo_failed = ((503, RetryError), db')"
    and f: "fresh_id ''AUD-'' db' \<notin> aud_id ` set (audit_events db')"
      "count_where (\<lambda>t. it_payroll t = ''PAY-1'' \<and> it_org t = ''ORG-1'' \<and> it_status t = PayrollPending) (payroll_items db') = 1"
      "map it_attempt (payroll_items db') \<noteq> map it_attempt (payroll_items demo_failed)"
    by (auto split: prod.splits retry_answer.splits)
  from retry_resumes [OF run [unfolded demo_retry_def] f(1), of 7 demo_actor] f(2,3) run show ?thesis
    unfolding demo_retry_def by fastforce
qed

end
