(* ===== verification/Disbursement.thy ===== *)
theory Disbursement
  imports Payroll_Service
begin

text \<open>
  The workers that submit single transfers: \<open>ewa_disbursement_worker.go\<close> for advances and
  \<open>hardship_grant_worker.go\<close> for grants. A task reads its row in one transaction, calls the provider outside any
  transaction, and records the answer in another. \<open>provide name request\<close> is the provider's \<open>InitiateTransfer\<close>;
  \<open>others\<close> is what other transactions commit while the provider is called.
\<close>

record TransferRequest =
  tr_reference :: string
  tr_amount :: money
  tr_name :: string
  tr_account :: string
  tr_bank :: string
  tr_narration :: string

record TransferResult =
  Accepted :: bool
  ProviderReference :: string
  Message :: string

subsection \<open>Advances\<close>

text \<open>The first transaction; \<open>Inr None\<close> is \<open>errNotSubmittable\<close>.\<close>

definition load_advance ::
  "('z ewa_db_scheme) \<Rightarrow> string \<Rightarrow> string \<Rightarrow> (EWAAdvance \<times> Employee \<times> Currency) option res" where
  "load_advance db orgID advanceID =
     rbind (find_row (\<lambda>a. adv_id a = advanceID \<and> adv_org a = orgID) (advances db)) (\<lambda>adv.
       if adv_provider_ref adv \<noteq> None \<or> adv_status adv \<noteq> AdvanceApproved then Inr None
       else
         rbind (OrgCurrencyTx db orgID) (\<lambda>currency.
         rbind (find_row (\<lambda>e. emp_id e = adv_employee adv \<and> emp_org e = orgID) (employees db)) (\<lambda>emp.
         Inr (Some (adv, emp, currency)))))"

definition advance_transfer :: "EWAAdvance \<Rightarrow> Employee \<Rightarrow> Currency \<Rightarrow> TransferRequest" where
  "advance_transfer adv emp currency =
     \<lparr>tr_reference = adv_id adv, tr_amount = KoboIn currency (adv_amount adv), tr_name = emp_name emp,
      tr_account = emp_account_number emp, tr_bank = emp_bank_code emp, 
      tr_narration = ''Earned wage access '' @ [CHR 0xE2, CHR 0x80, CHR 0x94] @ '' '' @ adv_period adv\<rparr>"

text \<open>The transaction after the provider's answer.\<close>

definition record_answer ::
  "time \<Rightarrow> ('z ewa_db_scheme) \<Rightarrow> EWAAdvance \<Rightarrow> string \<Rightarrow> TransferResult \<Rightarrow> task_result \<times> ('z ewa_db_scheme)" where
  "record_answer now db adv name result =
     (if \<not> Accepted result
      then (case WithOrgScope db (\<lambda>db. CancelAdvance now db adv AdvanceApproved (''provider_rejected: '' @ Message result)) of
              (Inl e, db') \<Rightarrow> (if e = ErrStaleStatus then TaskDone else TaskRetry e, db')
            | (Inr _, db') \<Rightarrow> (TaskDone, db'))
      else (case WithOrgScope db (\<lambda>db. rbind (MarkSubmittedToProvider now db (adv_id adv) name (ProviderReference result)) (\<lambda>db'. Inr ((), db'))) of
              (Inl e, db') \<Rightarrow> (TaskSkipRetry e, db')
            | (Inr _, db') \<Rightarrow> (TaskDone, db')))"

definition ProcessEWADisbursementTask ::
  "providers \<Rightarrow> (string \<Rightarrow> TransferRequest \<Rightarrow> TransferResult res) \<Rightarrow> (('z ewa_db_scheme) \<Rightarrow> ('z ewa_db_scheme)) \<Rightarrow> time \<Rightarrow>
     ('z ewa_db_scheme) \<Rightarrow> string \<Rightarrow> string
     \<Rightarrow> task_result \<times> TransferRequest option \<times> ('z ewa_db_scheme)" where
  "ProcessEWADisbursementTask registry provide others now db orgID advanceID =
     (case load_advance db orgID advanceID of
        Inl e \<Rightarrow> (TaskRetry e, None, db)
      | Inr None \<Rightarrow> (TaskDone, None, db)
      | Inr (Some (adv, emp, currency)) \<Rightarrow>
          (case Registry_Select registry currency of
             Inl e \<Rightarrow> (TaskSkipRetry e, None, db)
           | Inr name \<Rightarrow>
               let req = advance_transfer adv emp currency
               in case provide name req of
                    Inl e \<Rightarrow> (TaskRetry e, Some req, others db)
                  | Inr result \<Rightarrow> let (res, db') = record_answer now (others db) adv name result in (res, Some req, db')))"

subsection \<open>Hardship grants\<close>

definition load_grant ::
  "('z grants_db_scheme) \<Rightarrow> string \<Rightarrow> string \<Rightarrow> (EWAHardshipGrant \<times> Employee \<times> Currency) option res" where
  "load_grant db orgID grantID =
     rbind (find_row (\<lambda>g. gr_id g = grantID \<and> gr_org g = orgID) (hardship_grants db)) (\<lambda>grant.
       if gr_status grant \<noteq> GrantPending then Inr None
       else
         rbind (OrgCurrencyTx db orgID) (\<lambda>currency.
         rbind (find_row (\<lambda>e. emp_id e = gr_employee grant \<and> emp_org e = orgID) (employees db)) (\<lambda>emp.
         Inr (Some (grant, emp, currency)))))"

definition fail_grant :: "('z grants_db_scheme) \<Rightarrow> EWAHardshipGrant \<Rightarrow> string \<Rightarrow> unit res \<times> ('z grants_db_scheme)" where
  "fail_grant db grant reason =
     (case WithOrgScope db (\<lambda>db. FailGrant db grant reason) of
        (Inl e, db') \<Rightarrow> (if e = ErrStaleStatus then Inr () else Inl e, db')
      | (Inr _, db') \<Rightarrow> (Inr (), db'))"

definition record_grant_answer ::
  "time \<Rightarrow> ('z grants_db_scheme) \<Rightarrow> EWAHardshipGrant \<Rightarrow> string \<Rightarrow> TransferResult \<Rightarrow> task_result \<times> ('z grants_db_scheme)" where
  "record_grant_answer now db grant name result =
     (if \<not> Accepted result
      then (case fail_grant db grant (''provider_rejected: '' @ Message result) of
              (Inl e, db') \<Rightarrow> (TaskRetry e, db')
            | (Inr _, db') \<Rightarrow> (TaskDone, db'))
      else (case WithOrgScope db (\<lambda>db. rbind (MarkGrantSubmitted now db (gr_id grant) name (ProviderReference result)) (\<lambda>db'. Inr ((), db'))) of
              (Inl e, db') \<Rightarrow> (if e = ErrStaleStatus then TaskDone else TaskSkipRetry e, db')
            | (Inr _, db') \<Rightarrow> (TaskDone, db')))"

definition ProcessHardshipGrantDisbursementTask ::
  "providers \<Rightarrow> (string \<Rightarrow> TransferRequest \<Rightarrow> TransferResult res) \<Rightarrow> (('z grants_db_scheme) \<Rightarrow> ('z grants_db_scheme)) \<Rightarrow> time \<Rightarrow>
     ('z grants_db_scheme) \<Rightarrow> string \<Rightarrow> string
     \<Rightarrow> task_result \<times> TransferRequest option \<times> ('z grants_db_scheme)" where
  "ProcessHardshipGrantDisbursementTask registry provide others now db orgID grantID =
     (case load_grant db orgID grantID of
        Inl e \<Rightarrow> (TaskRetry e, None, db)
      | Inr None \<Rightarrow> (TaskDone, None, db)
      | Inr (Some (grant, emp, currency)) \<Rightarrow>
          (case Registry_Select registry currency of
             Inl e \<Rightarrow>
               (case fail_grant db grant ''no_provider_for_currency'' of
                  (Inl e2, db') \<Rightarrow> (TaskRetry e2, None, db')
                | (Inr _, db') \<Rightarrow> (TaskSkipRetry e, None, db'))
           | Inr name \<Rightarrow>
               let req = \<lparr>tr_reference = gr_id grant, tr_amount = KoboIn currency (gr_amount grant), tr_name = emp_name emp,
                          tr_account = emp_account_number emp, tr_bank = emp_bank_code emp, tr_narration = ''Hardship grant''\<rparr>
               in case provide name req of
                    Inl e \<Rightarrow> (TaskRetry e, Some req, others db)
                  | Inr result \<Rightarrow> let (res, db') = record_grant_answer now (others db) grant name result in (res, Some req, db')))"


subsection \<open>What a task sends\<close>

lemma load_advance_Some:
  assumes "load_advance db orgID advanceID = Inr (Some (adv, emp, currency))"
  shows "adv \<in> set (advances db)" "adv_id adv = advanceID" "adv_org adv = orgID" "adv_status adv = AdvanceApproved"
    "adv_provider_ref adv = None" "OrgCurrencyTx db orgID = Inr currency" "emp \<in> set (employees db)" "emp_id emp = adv_employee adv"
  using assms by (auto simp: load_advance_def rbind_eq_Inr split: if_splits dest!: find_row_Inr)

lemma task_request:
  assumes "ProcessEWADisbursementTask registry provide others now db orgID advanceID = (TaskDone, Some req, db')"
  obtains adv emp currency name result where "load_advance db orgID advanceID = Inr (Some (adv, emp, currency))"
    "req = advance_transfer adv emp currency" "Registry_Select registry currency = Inr name" "provide name req = Inr result"
    "record_answer now (others db) adv name result = (TaskDone, db')"
  using assms by (auto simp: ProcessEWADisbursementTask_def Let_def split: sum.splits option.splits prod.splits)

definition no_longer_submittable :: "EWAAdvance \<Rightarrow> bool" where
  "no_longer_submittable r \<longleftrightarrow> adv_provider_ref r \<noteq> None \<or> adv_status r \<noteq> AdvanceApproved"

lemma load_advance_None:
  assumes d: "distinct (map adv_id (advances db))" and r: "r \<in> set (advances db)" "adv_id r = advanceID" "adv_org r = orgID"
    and n: "no_longer_submittable r"
  shows "load_advance db orgID advanceID = Inr None"
proof -
  obtain q where q: "find_row (\<lambda>a. adv_id a = advanceID \<and> adv_org a = orgID) (advances db) = Inr q"
    using find_row_exists [OF r(1), of "\<lambda>a. adv_id a = advanceID \<and> adv_org a = orgID"] r(2,3) by auto
  then have "q = r" using by_id [OF d r(1)] r(2) by (auto dest!: find_row_Inr)
  then show ?thesis using q n by (simp add: load_advance_def no_longer_submittable_def)
qed

lemma CancelAdvance_stale:
  assumes "b \<in> set (advances db)" "adv_id b = adv_id adv" "CancelAdvance now db adv AdvanceApproved reason = Inl ErrStaleStatus"
  shows "adv_status b \<noteq> AdvanceApproved"
proof
  assume "adv_status b = AdvanceApproved"
  then have "\<exists>r. TransitionAdvance now db adv AdvanceApproved AdvanceCancelled = Inr r"
    using assms(1,2) by (auto simp: TransitionAdvance_def cas_advance_def CanTransitionAdvance_iff count_where_eq_0_iff Let_def)
  then show False using assms(3)
    by (auto simp: CancelAdvance_def rbind_eq_Inl Let_def PostTransaction_not_stale EnsureAccount_not_stale
        AppendAuditTx_not_stale OrgCurrencyTx_not_stale split: prod.splits)
qed

lemma CancelAdvance_rows:
  assumes l: "ledger_inv db" and d: "distinct (map adv_id (advances db))"
    and c: "CancelAdvance now db adv st reason = Inr (adv', db1)"
  shows "advances db1 = update_where (\<lambda>r. adv_id r = adv_id adv)
      (\<lambda>r. (stamp_advance now AdvanceCancelled r)\<lparr>adv_decline_reason := reason, adv_updated_at := now\<rparr>) (advances db)"
proof -
  from l c obtain cur db5 e r where r: "r \<in> set (advances db)" "adv_id r = adv_id adv" "adv_status r = st"
    and m: "moved (db\<lparr>advances := closed_rows now (advances db) (adv_id adv) st AdvanceCancelled reason\<rparr>) db5
      (adv_org adv) (cancellation_key (adv_id adv)) (cash_of (adv_org adv) cur)
      (adv_org adv, owner (adv_employee adv), AccountAdvanceReceivable, cur) (sint (adv_amount adv))"
    and db1: "db1 = db5\<lparr>uuid_next := Suc (uuid_next db5), audit_events := audit_events db5 @ [e]\<rparr>"
    by (rule CancelAdvance_Inr) blast
  from closing_effect(1) [OF d r(1,3) m [folded r(2)] db1] show ?thesis by (simp add: r(2))
qed

lemma record_answer_rows:
  assumes l: "ledger_inv db" and d: "distinct (map adv_id (advances db))"
    and b: "b \<in> set (advances db)" "adv_id b = adv_id adv"
    and rec: "record_answer now db adv name result = (TaskDone, db')"
  obtains f where "advances db' = update_where (\<lambda>r. adv_id r = adv_id adv) f (advances db)" "\<And>r. adv_id (f r) = adv_id r"
    "\<And>r. adv_org (f r) = adv_org r" "no_longer_submittable (f b)"
    "Accepted result \<Longrightarrow> adv_status (f b) = adv_status b \<and> adv_provider_ref (f b) \<noteq> None"
proof (cases "Accepted result")
  case True
  let ?f = "\<lambda>r. r\<lparr>adv_provider := Some name, adv_provider_ref := Some (ProviderReference result), adv_updated_at := now\<rparr>"
  let ?P = "\<lambda>r. adv_id r = adv_id adv \<and> adv_provider_ref r = None"
  have m: "MarkSubmittedToProvider now db (adv_id adv) name (ProviderReference result) = Inr db'"
    using rec True by (auto simp: record_answer_def WithOrgScope_def rbind_eq_Inr rbind_eq_Inl split: sum.splits prod.splits)
  then have rows: "advances db' = update_where ?P ?f (advances db)" and "count_where ?P (advances db) \<noteq> 0"
    by (auto simp: MarkSubmittedToProvider_def Let_def split: if_splits)
  then obtain a where a: "a \<in> set (advances db)" "?P a" by (auto simp: count_where_eq_0_iff)
  have "a = b" using by_id [OF d b(1) a(1)] a(2) b(2) by simp
  have "update_where ?P ?f (advances db) = update_where (\<lambda>r. adv_id r = adv_id adv) ?f (advances db)"
    by (rule update_where_cong) (use by_id [OF d b(1)] a(2) b(2) \<open>a = b\<close> in auto)
  with rows show thesis by (intro that [of ?f]) (simp_all add: no_longer_submittable_def)
next
  case False
  show thesis
  proof (cases "CancelAdvance now db adv AdvanceApproved (''provider_rejected: '' @ Message result)")
    case (Inl e)
    then have "e = ErrStaleStatus" "db' = db" using rec False by (auto simp: record_answer_def WithOrgScope_def split: if_splits)
    moreover from this Inl have "adv_status b \<noteq> AdvanceApproved" using CancelAdvance_stale b by metis
    ultimately show thesis by (intro that [of id]) (simp_all add: no_longer_submittable_def False update_where_def cong: if_cong)
  next
    case (Inr p)
    then obtain adv' where c: "CancelAdvance now db adv AdvanceApproved (''provider_rejected: '' @ Message result) = Inr (adv', db')"
      using rec False by (cases p) (simp add: record_answer_def WithOrgScope_def)
    let ?f = "\<lambda>r. (stamp_advance now AdvanceCancelled r)\<lparr>adv_decline_reason := ''provider_rejected: '' @ Message result, adv_updated_at := now\<rparr>"
    have "advances db' = update_where (\<lambda>r. adv_id r = adv_id adv) ?f (advances db)"
      by (rule CancelAdvance_rows [OF l d c])
    then show thesis by (rule that) (simp_all add: no_longer_submittable_def False)
  qed
qed


text \<open>
  C16: a disbursement task sends one transfer. When a run of the task that sent a request succeeds, the
  request carries the advance's identifier as its reference, its exact amount in the organization's currency and the
  account of the advance's own employee, and the advance had not been submitted before; whatever other transactions
  committed during the provider call, running the task again then sends nothing and changes nothing.
\<close>

theorem disbursement_once:
  assumes l: "ledger_inv (others db)" and d: "distinct (map adv_id (advances (others db)))"
    and kept: "\<exists>b \<in> set (advances (others db)). adv_id b = advanceID \<and> adv_org b = orgID"
    and run: "ProcessEWADisbursementTask registry provide others now db orgID advanceID = (TaskDone, Some req, db')"
  shows "(\<exists>adv \<in> set (advances db). \<exists>emp \<in> set (employees db). \<exists>currency.
      adv_id adv = advanceID \<and> adv_status adv = AdvanceApproved \<and> adv_provider_ref adv = None \<and> adv_org adv = orgID \<and>
      emp_id emp = adv_employee adv \<and> OrgCurrencyTx db orgID = Inr currency \<and>
      tr_reference req = advanceID \<and> tr_amount req = KoboIn currency (adv_amount adv) \<and>
      tr_account req = emp_account_number emp \<and> tr_bank req = emp_bank_code emp) \<and>
    ProcessEWADisbursementTask registry2 provide2 others2 now2 db' orgID advanceID = (TaskDone, None, db')"
proof -
  from run obtain adv emp currency name result where ld: "load_advance db orgID advanceID = Inr (Some (adv, emp, currency))"
    and req: "req = advance_transfer adv emp currency" and rec: "record_answer now (others db) adv name result = (TaskDone, db')"
    by (rule task_request)
  note a = load_advance_Some [OF ld]
  from kept obtain b where b: "b \<in> set (advances (others db))" "adv_id b = adv_id adv" "adv_org b = orgID" using a(2) by auto
  obtain f where rows: "advances db' = update_where (\<lambda>r. adv_id r = adv_id adv) f (advances (others db))"
    and f: "\<And>r. adv_id (f r) = adv_id r" "\<And>r. adv_org (f r) = adv_org r" "no_longer_submittable (f b)"
    by (rule record_answer_rows [OF l d b(1,2) rec]) blast
  have d': "distinct (map adv_id (advances db'))" using d f(1) by (simp add: rows map_update_where_same)
  have "f b \<in> set (advances db')" using b rows by (auto simp: in_update_where)
  from load_advance_None [OF d' this _ _ f(3)] have "load_advance db' orgID advanceID = Inr None" using f(1,2) b a(2) by simp
  then have again: "ProcessEWADisbursementTask registry2 provide2 others2 now2 db' orgID advanceID = (TaskDone, None, db')"
    by (simp add: ProcessEWADisbursementTask_def)
  show ?thesis
    by (intro conjI bexI [OF _ a(1)] bexI [OF _ a(7)] exI [of _ currency] again) (use a in \<open>simp_all add: req advance_transfer_def\<close>)
qed

text \<open>
  C32: an advance cancelled in flight is paid without a trace in the books. If another transaction cancels the
  advance (a settlement or a termination) while the provider is being called and the provider accepts, the task still
  succeeds and only notes the provider's reference on the cancelled row; every callback for that advance, also the one
  that reports the money paid, is then answered 200 and changes nothing.
\<close>

theorem cancelled_in_flight:
  assumes l: "ledger_inv (others db)" and d: "distinct (map adv_id (advances (others db)))"
    and b: "b \<in> set (advances (others db))" "adv_id b = advanceID" "adv_status b = AdvanceCancelled"
    and acc: "\<forall>name r. \<exists>result. provide name r = Inr result \<and> Accepted result"
    and run: "ProcessEWADisbursementTask registry provide others now db orgID advanceID = (TaskDone, Some req, db')"
  shows "(\<exists>r \<in> set (advances db'). adv_id r = advanceID \<and> adv_status r = AdvanceCancelled \<and> adv_provider_ref r \<noteq> None) \<and>
    handleEWAAdvanceWebhook now2 ip db' payload advanceID = (200, db')"
proof -
  from run obtain adv emp currency name result where ld: "load_advance db orgID advanceID = Inr (Some (adv, emp, currency))"
    and p: "provide name req = Inr result" and rec: "record_answer now (others db) adv name result = (TaskDone, db')"
    by (rule task_request)
  note a = load_advance_Some [OF ld]
  have acc': "Accepted result" using acc p by (metis sum.inject(2))
  have b2: "adv_id b = adv_id adv" using b a by simp
  obtain f where rows: "advances db' = update_where (\<lambda>r. adv_id r = adv_id adv) f (advances (others db))"
    and f: "\<And>r. adv_id (f r) = adv_id r" "no_longer_submittable (f b)" "adv_status (f b) = adv_status b" "adv_provider_ref (f b) \<noteq> None"
    by (rule record_answer_rows [OF l d b(1) b2 rec]) (use acc' in blast)
  have d': "distinct (map adv_id (advances db'))" using d f(1) by (simp add: rows map_update_where_same)
  have m: "f b \<in> set (advances db')" using b b2 rows by (auto simp: in_update_where)
  obtain q where q: "find_row (\<lambda>a. adv_id a = advanceID) (advances db') = Inr q"
    using find_row_exists [OF m, of "\<lambda>a. adv_id a = advanceID"] f(1) b(2) by auto
  then have "q = f b" using by_id [OF d' m] f(1) b(2) by (auto dest!: find_row_Inr)
  then have "handleEWAAdvanceWebhook now2 ip db' payload advanceID = (200, db')"
    using q f(3) b(3) by (simp add: handleEWAAdvanceWebhook_def advance_decision_def)
  then show ?thesis using m f b by auto
qed

definition demo_provide :: "string \<Rightarrow> TransferRequest \<Rightarrow> TransferResult res" where
  "demo_provide name r = Inr \<lparr>Accepted = True, ProviderReference = name @ ''-1'', Message = []\<rparr>"

definition demo_approved :: payroll_db where
  "demo_approved = (demo_run [] [])\<lparr>advances := [demo_advance\<lparr>adv_employee := ''EMP-h'', adv_status := AdvanceApproved, adv_recovered := 0\<rparr>]\<rparr>"

text \<open>A termination that commits during the call: the advance is cancelled.\<close>

definition demo_cancel :: "payroll_db \<Rightarrow> payroll_db" where
  "demo_cancel db = (case CancelAdvance 5 db (hd (advances db)) AdvanceApproved ''employee_terminated'' of Inl _ \<Rightarrow> db | Inr (_, db') \<Rightarrow> db')"

definition demo_task :: "(payroll_db \<Rightarrow> payroll_db) \<Rightarrow> payroll_db \<Rightarrow> task_result \<times> TransferRequest option \<times> payroll_db" where
  "demo_task others db = ProcessEWADisbursementTask DefaultProviderRegistry demo_provide others 7 db ''ORG-1'' ''EWA-1''"

lemma demo_approved_ledger: "ledger_inv demo_approved"
  using demo_run_inv [of "[]" "[]"] by (simp add: demo_approved_def ewa_inv_def)

theorem disbursement_once_witness:
  "\<exists>req db'. demo_task id demo_approved = (TaskDone, Some req, db') \<and> tr_reference req = ''EWA-1'' \<and>
     tr_amount req = KoboIn NGN 100 \<and> demo_task id db' = (TaskDone, None, db')"
proof -
  have "case demo_task id demo_approved of (TaskDone, Some req, db') \<Rightarrow> tr_amount req = KoboIn NGN 100 | _ \<Rightarrow> False" by code_simp
  then obtain req db' where run: "demo_task id demo_approved = (TaskDone, Some req, db')" "tr_amount req = KoboIn NGN 100"
    by (auto split: prod.splits option.splits task_result.splits)
  have "\<exists>b \<in> set (advances (id demo_approved)). adv_id b = ''EWA-1'' \<and> adv_org b = ''ORG-1''"
    by (simp add: demo_approved_def demo_advance_def)
  from disbursement_once [OF _ _ this run(1) [unfolded demo_task_def], of DefaultProviderRegistry demo_provide id 7]
    run demo_approved_ledger show ?thesis unfolding demo_task_def by (auto simp: demo_approved_def)
qed

theorem cancelled_in_flight_witness:
  "\<exists>req db' r. demo_task demo_cancel demo_approved = (TaskDone, Some req, db') \<and> tr_amount req = KoboIn NGN 100 \<and>
     r \<in> set (advances db') \<and> adv_status r = AdvanceCancelled \<and>
     handleEWAAdvanceWebhook 9 ''ip'' db' \<lparr>wh_event = DISBURSEMENT_SUCCESSFUL, wh_reference = ''EWA-1'', wh_amount = ''1.00''\<rparr> ''EWA-1'' = (200, db')"
proof -
  have "case demo_task demo_cancel demo_approved of (TaskDone, Some req, db') \<Rightarrow> tr_amount req = KoboIn NGN 100 | _ \<Rightarrow> False" by code_simp
  then obtain req db' where run: "demo_task demo_cancel demo_approved = (TaskDone, Some req, db')" "tr_amount req = KoboIn NGN 100"
    by (auto split: prod.splits option.splits task_result.splits)
  have "case CancelAdvance 5 demo_approved (hd (advances demo_approved)) AdvanceApproved ''employee_terminated'' of Inl _ \<Rightarrow> False | Inr _ \<Rightarrow> True" by code_simp
  then obtain adv' where c: "CancelAdvance 5 demo_approved (hd (advances demo_approved)) AdvanceApproved ''employee_terminated'' = Inr (adv', demo_cancel demo_approved)"
    by (auto simp: demo_cancel_def split: sum.splits)
  have d: "distinct (map adv_id (advances demo_approved))" "hd (advances demo_approved) \<in> set (advances demo_approved)"
    "adv_status (hd (advances demo_approved)) = AdvanceApproved" "adv_id (hd (advances demo_approved)) = ''EWA-1''"
    by (simp_all add: demo_approved_def demo_advance_def)
  note e = CancelAdvance_effect [OF demo_approved_ledger d(1-3) c]
  have l: "distinct (map adv_id (advances (demo_cancel demo_approved)))" unfolding e(1) using d(1) by (simp add: map_update_where_same)
  have "\<exists>b \<in> set (advances (demo_cancel demo_approved)). adv_id b = ''EWA-1'' \<and> adv_status b = AdvanceCancelled"
    unfolding e(1) by (simp add: demo_approved_def demo_advance_def)
  then obtain b where b: "b \<in> set (advances (demo_cancel demo_approved))" "adv_id b = ''EWA-1''" "adv_status b = AdvanceCancelled" by blast
  have acc: "\<forall>name r. \<exists>result. demo_provide name r = Inr result \<and> Accepted result" by (simp add: demo_provide_def)
  from cancelled_in_flight [OF e(2) l b acc run(1) [unfolded demo_task_def]] run show ?thesis by blast
qed

end
