(* ===== verification/Payment_Rails.thy ===== *)
theory Payment_Rails
  imports Disbursement
begin

text \<open>
  The two payment rails: \<open>internal/integrations/monnify/\<close> and \<open>internal/integrations/paystack/\<close>, clients and
  adapters. What the network and the remote service answer to a request is a parameter of type \<open>http_reply\<close>; the
  client state is the cached token of Monnify. The contract of \<open>provider.go\<close> that the workers rely on (a result
  without an error is a definite answer of the rail) is the locale \<open>payment_rail\<close>, interpreted on Monnify; Paystack
  does not meet it.
\<close>

subsection \<open>Naira at the boundary\<close>

text \<open>A JSON number is finite, so the test for NaN and infinities never applies.\<close>

definition FromNairaFloat :: "float64 \<Rightarrow> Kobo" where
  "FromNairaFloat f =
     (let scaled = fmul f 100
      in if 0 \<le> scaled then word_of_int (int_of_float64 (fadd scaled (1 / 2)))
         else word_of_int (int_of_float64 (fsub scaled (1 / 2))))"

lemma round_even_near: "\<bar>of_int (round_even x) - x\<bar> \<le> 1 / 2"
proof -
  have "of_int \<lfloor>x\<rfloor> \<le> x" "x < of_int \<lfloor>x\<rfloor> + 1" by linarith+
  then show ?thesis by (auto simp: round_even_def Let_def abs_le_iff)
qed

lemma rnd_pos_error:
  assumes "0 < x"
  shows "\<bar>rnd_pos x - x\<bar> \<le> x / 2 ^ 53"
proof -
  let ?u = "pow2 (log2_floor x - 52)"
  have u: "0 < ?u" by simp
  have "pow2 (log2_floor x) = 2 ^ 52 * ?u" using pow2_add [of 52 "log2_floor x - 52"] pow2_nat [of 52] by (simp add: add.commute)
  then have small: "2 ^ 52 * ?u \<le> x" using log2_floor_bounds(1) [OF assms] by simp
  have "rnd_pos x - x = (of_int (round_even (x / ?u)) - x / ?u) * ?u" using u by (simp add: rnd_pos_def Let_def field_simps)
  then have "\<bar>rnd_pos x - x\<bar> = \<bar>of_int (round_even (x / ?u)) - x / ?u\<bar> * ?u" using u by (simp add: abs_mult)
  also have "\<dots> \<le> 1 / 2 * ?u" using u round_even_near [of "x / ?u"] by (intro mult_right_mono) simp_all
  also have "\<dots> \<le> x / 2 ^ 53" using small by simp
  finally show ?thesis .
qed

lemma rnd64_error: "\<bar>rnd64 x - x\<bar> \<le> \<bar>x\<bar> / 2 ^ 53"
  using rnd_pos_error [of x] rnd_pos_error [of "- x"] by (auto simp: rnd64_def abs_if split: if_splits)

lemma near_scaled:
  fixes n a b c :: rat
  assumes "0 \<le> n" "n \<le> 1125899906842624" "\<bar>a - n / 100\<bar> \<le> n / 100 / 9007199254740992"
    "\<bar>b - a * 100\<bar> \<le> \<bar>a * 100\<bar> / 9007199254740992" "\<bar>c - (b + 1 / 2)\<bar> \<le> \<bar>b + 1 / 2\<bar> / 9007199254740992"
  shows "n \<le> c" "c < n + 1"
proof -
  have a: "a * 100 - n \<le> 1 / 8" "n - a * 100 \<le> 1 / 8" using assms(1-3) by linarith+
  then have b: "b - n \<le> 26 / 100" "n - b \<le> 26 / 100" using assms(1,2,4) by linarith+
  have "\<bar>b + 1 / 2\<bar> \<le> 1125899906842626" using b assms(1,2) by linarith
  then have "\<bar>b + 1 / 2\<bar> / 9007199254740992 \<le> 13 / 100" by simp
  with assms(5) have "\<bar>c - (b + 1 / 2)\<bar> \<le> 13 / 100" by (rule order_trans)
  then have c: "c - (b + 1 / 2) \<le> 13 / 100" "(b + 1 / 2) - c \<le> 13 / 100" by (simp_all only: abs_le_iff minus_diff_eq)
  show "n \<le> c" using b c by linarith
  show "c < n + 1" using b c by linarith
qed

lemma naira_float_nonneg:
  assumes "0 \<le> n" "n \<le> 2 ^ 50"
  shows "int_of_float64 (fadd (fmul (fdiv (float64_of_int n) 100) 100) (1 / 2)) = n"
proof -
  let ?n = "of_int n :: rat" let ?a = "rnd64 (?n / 100)" let ?b = "rnd64 (?a * 100)" let ?c = "rnd64 (?b + 1 / 2)"
  have n: "0 \<le> ?n" "?n \<le> 1125899906842624" using assms by simp_all
  have f: "float64_of_int n = ?n" using assms by (simp add: float64_of_int_def rnd64_int)
  have e: "\<bar>rnd64 x - x\<bar> \<le> \<bar>x\<bar> / 9007199254740992" for x using rnd64_error [of x] by simp
  have "\<bar>?a - ?n / 100\<bar> \<le> ?n / 100 / 9007199254740992" using e [of "?n / 100"] n(1) by simp
  note c = near_scaled [OF n this e [of "?a * 100"] e [of "?b + 1 / 2"]]
  then have "\<lfloor>?c\<rfloor> = n" by (simp add: floor_eq_iff)
  moreover have "0 \<le> ?c" using c(1) n(1) by simp
  ultimately show ?thesis by (simp add: f fadd_def fmul_def fdiv_def int_of_float64_def)
qed

lemma half_truncates: "int_of_float64 (fadd 0 (1 / 2)) = 0"
  by code_simp

lemma naira_scaled_nonneg: "0 \<le> n \<Longrightarrow> 0 \<le> fmul (fdiv (float64_of_int n) 100) 100"
  by (auto simp: fmul_def fdiv_def float64_of_int_def intro!: f64.rnd_nonneg mult_nonneg_nonneg divide_nonneg_nonneg)

lemma rnd64_minus: "rnd64 (- x) = - rnd64 x"
  by (simp add: rnd64_def)

lemma int_of_float64_minus: "int_of_float64 (- x) = - int_of_float64 x"
  by (cases "x = 0") (auto simp: int_of_float64_def)

lemma float_minus:
  "float64_of_int (- n) = - float64_of_int n" "fdiv (- x) y = - fdiv x y" "fmul (- x) y = - fmul x y" "fsub (- x) y = - fadd x y"
  using rnd64_minus [of "x + y"]
  by (simp_all add: float64_of_int_def fdiv_def fmul_def fsub_def fadd_def rnd64_minus)

text \<open>
  Amounts survive the float boundary. Every amount of up to 2^50 kobo in size that is sent as a float number of
  Naira is read back as exactly the same amount, the sign included.
\<close>

theorem naira_float_roundtrip:
  assumes "\<bar>sint k\<bar> \<le> 2 ^ 50"
  shows "FromNairaFloat (Kobo_Naira k) = k"
proof (cases "0 \<le> sint k")
  case True
  then show ?thesis using naira_float_nonneg [of "sint k"] naira_scaled_nonneg [of "sint k"] assms by (simp add: FromNairaFloat_def Kobo_Naira_def)
next
  case False
  define n where "n = - sint k"
  have n: "0 \<le> n" "n \<le> 2 ^ 50" "sint k = - n" using False assms by (simp_all add: n_def)
  let ?s = "fmul (fdiv (float64_of_int n) 100) 100"
  have s0: "0 \<le> ?s" by (rule naira_scaled_nonneg [OF n(1)])
  have e: "int_of_float64 (fadd ?s (1 / 2)) = n" by (rule naira_float_nonneg [OF n(1,2)])
  have "?s \<noteq> 0"
  proof
    assume "?s = 0"
    then have "n = 0" using e half_truncates by simp
    then show False using False n_def by simp
  qed
  then have "\<not> 0 \<le> - ?s" using s0 by simp
  then have "FromNairaFloat (Kobo_Naira k) = word_of_int (- n)"
    by (simp add: FromNairaFloat_def Kobo_Naira_def n(3) float_minus int_of_float64_minus e)
  then show ?thesis using n(3) [symmetric] by simp
qed

theorem naira_float_roundtrip_witness:
  "FromNairaFloat (Kobo_Naira (- 33)) = - 33 \<and> FromNairaFloat (Kobo_Naira 123456789) = 123456789"
  using naira_float_roundtrip [of "- 33"] naira_float_roundtrip [of 123456789] by simp

subsection \<open>Transport\<close>

text \<open>
  What \<open>http.Client.Do\<close> and the JSON decoder give: no answer at all, or a status code with the decoded body,
  \<open>None\<close> when it does not decode.
\<close>

datatype 'a http_reply = Unreachable | Answer int "'a option"

subsection \<open>The Monnify client\<close>

record monnify_client =
  mc_token :: string
  mc_expiry :: time
  mc_mock :: bool

record AuthResponse =
  ar_successful :: bool
  ar_token :: string
  ar_expires_in :: int

definition Authenticate :: "time \<Rightarrow> AuthResponse http_reply \<Rightarrow> monnify_client \<Rightarrow> unit res \<times> monnify_client" where
  "Authenticate now auth c =
     (if mc_mock c then (Inr (), c\<lparr>mc_token := ''mock_token'', mc_expiry := now + Hour\<rparr>)
      else if mc_token c \<noteq> [] \<and> now < mc_expiry c then (Inr (), c)
      else (case auth of
              Unreachable \<Rightarrow> (Inl (ErrOther ''monnify auth request failed''), c)
            | Answer _ None \<Rightarrow> (Inl (ErrOther ''monnify auth response decode failed''), c)
            | Answer _ (Some r) \<Rightarrow>
                if \<not> ar_successful r then (Inl (ErrOther ''monnify authentication failed''), c)
                else (Inr (), c\<lparr>mc_token := ar_token r, mc_expiry := now + wrap64 (ar_expires_in r * 1000000000)\<rparr>)))"

record BulkTransferResponse =
  br_successful :: bool
  br_message :: string
  br_batch :: string
  br_status :: string

text \<open>An error of \<open>InitiateBulkTransfer\<close> wraps \<open>ErrOutcomeUnknown\<close> or is definite.\<close>

datatype bulk_error = ErrOutcomeUnknown | ErrNotSent err

text \<open>The result, the request that went out (if any), and the client.\<close>

definition InitiateBulkTransfer ::
  "time \<Rightarrow> AuthResponse http_reply \<Rightarrow> (BulkTransferRequest \<Rightarrow> BulkTransferResponse http_reply) \<Rightarrow> monnify_client \<Rightarrow> BulkTransferRequest
     \<Rightarrow> (bulk_error + BulkTransferResponse) \<times> BulkTransferRequest option \<times> monnify_client" where
  "InitiateBulkTransfer now auth remote c payload =
     (if mc_mock c
      then (Inr \<lparr>br_successful = True, br_message = ''Mock Transfer Successful'', br_batch = bt_batch payload, br_status = ''SUCCESSFUL''\<rparr>, None, c)
      else (case Authenticate now auth c of
              (Inl e, c') \<Rightarrow> (Inl (ErrNotSent e), None, c')
            | (Inr _, c') \<Rightarrow>
                ((case remote payload of
                    Unreachable \<Rightarrow> Inl ErrOutcomeUnknown
                  | Answer status body \<Rightarrow>
                      if 500 \<le> status then Inl ErrOutcomeUnknown
                      else (case body of None \<Rightarrow> Inl ErrOutcomeUnknown | Some r \<Rightarrow> Inr r)), Some payload, c')))"

text \<open>What the payroll worker makes of it: its parameter \<open>bank\<close>.\<close>

definition monnify_bank ::
  "time \<Rightarrow> AuthResponse http_reply \<Rightarrow> (BulkTransferRequest \<Rightarrow> BulkTransferResponse http_reply) \<Rightarrow> monnify_client \<Rightarrow> BulkTransferRequest
     \<Rightarrow> bulk_response" where
  "monnify_bank now auth remote c payload =
     (case fst (InitiateBulkTransfer now auth remote c payload) of
        Inl ErrOutcomeUnknown \<Rightarrow> BulkOutcomeUnknown
      | Inl (ErrNotSent e) \<Rightarrow> BulkError e
      | Inr r \<Rightarrow> BulkAnswer (br_successful r) (br_message r))"

record WalletBalanceResponse =
  wb_successful :: bool
  wb_balances :: "float64 list"

definition GetWalletBalance ::
  "time \<Rightarrow> AuthResponse http_reply \<Rightarrow> WalletBalanceResponse http_reply \<Rightarrow> monnify_client \<Rightarrow> string \<Rightarrow> Kobo res \<times> monnify_client" where
  "GetWalletBalance now auth reply c walletNumber =
     (if mc_mock c then (Inr (FromNaira 1000000), c)
      else if walletNumber = [] \<or> \<not> list_all is_digit walletNumber then (Inl (ErrOther ''invalid wallet number format''), c)
      else (case Authenticate now auth c of
              (Inl e, c') \<Rightarrow> (Inl e, c')
            | (Inr _, c') \<Rightarrow>
                ((case reply of
                    Unreachable \<Rightarrow> Inl (ErrOther ''wallet balance request failed'')
                  | Answer _ None \<Rightarrow> Inl (ErrOther ''monnify wallet balance response decode failed'')
                  | Answer _ (Some r) \<Rightarrow>
                      if \<not> wb_successful r \<or> wb_balances r = [] then Inl (ErrOther ''failed to fetch wallet balance'')
                      else Inr (FromNairaFloat (hd (wb_balances r)))), c')))"

record ReserveAccountRequest =
  ra_reference :: string
  ra_name :: string
  ra_currency :: string
  ra_contract :: string
  ra_email :: string
  ra_customer :: string

record ReserveAccountResponse =
  rs_successful :: bool
  rs_message :: string
  rs_reference :: string
  rs_name :: string
  rs_accounts :: "(string \<times> string \<times> string) list"

definition CreateReservedAccount ::
  "time \<Rightarrow> AuthResponse http_reply \<Rightarrow> (ReserveAccountRequest \<Rightarrow> ReserveAccountResponse http_reply) \<Rightarrow> monnify_client \<Rightarrow> ReserveAccountRequest
     \<Rightarrow> ReserveAccountResponse res \<times> monnify_client" where
  "CreateReservedAccount now auth remote c req =
     (if mc_mock c
      then (Inr \<lparr>rs_successful = True, rs_message = ''Mock Account Created'', rs_reference = ra_reference req, rs_name = ra_name req,
                 rs_accounts = [(''Mock Bank'', ''000'', ''0000000000'')]\<rparr>, c)
      else (case Authenticate now auth c of
              (Inl e, c') \<Rightarrow> (Inl e, c')
            | (Inr _, c') \<Rightarrow>
                ((case remote req of
                    Unreachable \<Rightarrow> Inl (ErrOther ''reserved account request failed'')
                  | Answer _ None \<Rightarrow> Inl (ErrOther ''monnify reserved account response decode failed'')
                  | Answer _ (Some r) \<Rightarrow> Inr r), c')))"

lemma wallet_balance_exact:
  assumes "\<not> mc_mock c" "fst (Authenticate now auth c) = Inr ()" "w \<noteq> []" "list_all is_digit w" "\<bar>sint k\<bar> \<le> 2 ^ 50"
  shows "fst (GetWalletBalance now auth (Answer st (Some \<lparr>wb_successful = True, wb_balances = Kobo_Naira k # ks\<rparr>)) c w) = Inr k"
  using assms by (auto simp: GetWalletBalance_def naira_float_roundtrip split: sum.splits prod.splits)

subsection \<open>The Monnify adapter\<close>

definition ErrProviderUnavailable :: err where
  "ErrProviderUnavailable = ErrOther ''provider: unavailable''"

definition monnify_SupportsCurrency :: "Currency \<Rightarrow> bool" where
  "monnify_SupportsCurrency c \<longleftrightarrow> c = NGN"

definition monnify_batch :: "string \<Rightarrow> TransferRequest \<Rightarrow> Kobo \<Rightarrow> BulkTransferRequest" where
  "monnify_batch wallet req naira =
     \<lparr>bt_title = ''Disbursement '' @ tr_reference req, bt_batch = tr_reference req, bt_wallet = wallet,
      bt_lines = [\<lparr>td_amount = Kobo_Naira naira, td_account = tr_account req, td_bank = tr_bank req,
                   td_narration = tr_narration req, td_reference = tr_reference req, td_currency = ''NGN''\<rparr>]\<rparr>"

definition monnify_InitiateTransfer ::
  "string \<Rightarrow> time \<Rightarrow> AuthResponse http_reply \<Rightarrow> (BulkTransferRequest \<Rightarrow> BulkTransferResponse http_reply) \<Rightarrow> monnify_client \<Rightarrow> TransferRequest
     \<Rightarrow> TransferResult res" where
  "monnify_InitiateTransfer wallet now auth remote c req =
     (if \<not> monnify_SupportsCurrency (Curr (tr_amount req)) then Inl ErrUnsupportedCurrency
      else rbind (Money_Kobo (tr_amount req)) (\<lambda>naira.
        case fst (InitiateBulkTransfer now auth remote c (monnify_batch wallet req naira)) of
          Inl _ \<Rightarrow> Inl ErrProviderUnavailable
        | Inr resp \<Rightarrow> Inr \<lparr>Accepted = br_successful resp, ProviderReference = br_batch resp, Message = br_message resp\<rparr>))"

text \<open>Monnify has no status endpoint: \<open>GetTransferStatus\<close> always answers \<open>StatusUnknown\<close>.\<close>

datatype TransferStatus = StatusPending | StatusSuccessful | StatusFailed | StatusUnknown

definition monnify_GetTransferStatus :: "string \<Rightarrow> TransferStatus res" where
  "monnify_GetTransferStatus ref = Inr StatusUnknown"

subsection \<open>The Paystack client and adapter\<close>

record CreateRecipientRequest =
  pc_type :: string
  pc_name :: string
  pc_account :: string
  pc_bank :: string
  pc_currency :: string

record recipientResponse =
  pn_status :: bool
  pn_message :: string
  pn_code :: string

record InitiateTransferRequest =
  pi_source :: string
  pi_amount :: int64
  pi_recipient :: string
  pi_reason :: string
  pi_reference :: string
  pi_currency :: string

record TransferResponse =
  pt_status :: bool
  pt_message :: string
  pt_code :: string
  pt_reference :: string
  pt_data_status :: string

text \<open>The status code of the answer is not looked at.\<close>

definition post :: "'a http_reply \<Rightarrow> 'a res" where
  "post r = (case r of
     Unreachable \<Rightarrow> Inl (ErrOther ''paystack: request failed'')
   | Answer _ None \<Rightarrow> Inl (ErrOther ''paystack: response decode failed'')
   | Answer _ (Some out) \<Rightarrow> Inr out)"

definition CreateRecipient :: "bool \<Rightarrow> (CreateRecipientRequest \<Rightarrow> recipientResponse http_reply) \<Rightarrow> CreateRecipientRequest \<Rightarrow> string res" where
  "CreateRecipient mock remote req =
     (if mock then Inr (''RCP_mock_'' @ pc_account req)
      else rbind (post (remote req)) (\<lambda>resp.
        if \<not> pn_status resp then Inl (ErrOther (''paystack: create recipient failed: '' @ pn_message resp))
        else Inr (pn_code resp)))"

definition paystack_transfer ::
  "bool \<Rightarrow> (InitiateTransferRequest \<Rightarrow> TransferResponse http_reply) \<Rightarrow> InitiateTransferRequest \<Rightarrow> TransferResponse res" where
  "paystack_transfer mock remote req =
     (if mock then Inr \<lparr>pt_status = True, pt_message = ''Mock transfer queued'', pt_code = ''TRF_mock_'' @ pi_reference req,
                        pt_reference = pi_reference req, pt_data_status = ''success''\<rparr>
      else post (remote req))"

definition VerifyTransfer :: "bool \<Rightarrow> (string \<Rightarrow> TransferResponse http_reply) \<Rightarrow> string \<Rightarrow> TransferResponse res" where
  "VerifyTransfer mock remote reference =
     (if mock then Inr \<lparr>pt_status = True, pt_message = [], pt_code = [], pt_reference = reference, pt_data_status = ''success''\<rparr>
      else post (remote reference))"

definition paystack_SupportsCurrency :: "Currency \<Rightarrow> bool" where
  "paystack_SupportsCurrency c \<longleftrightarrow> c = NGN"

definition paystack_result :: "TransferResponse \<Rightarrow> TransferResult" where
  "paystack_result resp =
     (if pt_data_status resp = ''otp''
      then \<lparr>Accepted = False, ProviderReference = pt_code resp,
            Message = ''paystack account requires OTP confirmation for API transfers; disable OTP for API-initiated transfers in the Paystack dashboard''\<rparr>
      else \<lparr>Accepted = pt_status resp \<and> pt_data_status resp \<noteq> ''failed'', ProviderReference = pt_code resp, Message = pt_message resp\<rparr>)"

definition paystack_InitiateTransfer ::
  "bool \<Rightarrow> (CreateRecipientRequest \<Rightarrow> recipientResponse http_reply) \<Rightarrow> (InitiateTransferRequest \<Rightarrow> TransferResponse http_reply) \<Rightarrow> TransferRequest
     \<Rightarrow> TransferResult res" where
  "paystack_InitiateTransfer mock recipients transfers req =
     (if \<not> paystack_SupportsCurrency (Curr (tr_amount req)) then Inl ErrUnsupportedCurrency
      else (case CreateRecipient mock recipients
                   \<lparr>pc_type = ''nuban'', pc_name = tr_name req, pc_account = tr_account req, pc_bank = tr_bank req,
                    pc_currency = Curr (tr_amount req)\<rparr> of
              Inl _ \<Rightarrow> Inl ErrProviderUnavailable
            | Inr recipientCode \<Rightarrow>
                (case paystack_transfer mock transfers
                        \<lparr>pi_source = ''balance'', pi_amount = Minor (tr_amount req), pi_recipient = recipientCode,
                         pi_reason = tr_narration req, pi_reference = tr_reference req, pi_currency = Curr (tr_amount req)\<rparr> of
                   Inl _ \<Rightarrow> Inl ErrProviderUnavailable
                 | Inr resp \<Rightarrow> Inr (paystack_result resp))))"

definition paystack_GetTransferStatus :: "bool \<Rightarrow> (string \<Rightarrow> TransferResponse http_reply) \<Rightarrow> string \<Rightarrow> TransferStatus res" where
  "paystack_GetTransferStatus mock remote providerReference =
     (case VerifyTransfer mock remote providerReference of
        Inl _ \<Rightarrow> Inl ErrProviderUnavailable
      | Inr resp \<Rightarrow>
          let st = pt_data_status resp
          in Inr (if st = ''success'' then StatusSuccessful
                  else if st = ''failed'' \<or> st = ''reversed'' then StatusFailed
                  else if st = ''pending'' \<or> st = ''otp'' then StatusPending
                  else StatusUnknown))"

subsection \<open>The contract of a rail\<close>

text \<open>
  \<open>initiate r req\<close> is what the adapter makes of the remote answer \<open>r\<close>; \<open>definite r\<close> says that the answer settles
  whether the transfer was taken. A result without an error must rest on a definite answer.
\<close>

locale payment_rail =
  fixes initiate :: "'r \<Rightarrow> TransferRequest \<Rightarrow> TransferResult res" and definite :: "'r \<Rightarrow> bool"
  assumes definite_result: "initiate r req = Inr result \<Longrightarrow> definite r"
begin

lemma unknown_is_error: "\<not> definite r \<Longrightarrow> initiate r req \<noteq> Inr result"
  using definite_result [of r req] by blast

lemma unknown_keeps_advance:
  assumes "\<not> definite r" "ProcessEWADisbursementTask registry (\<lambda>_. initiate r) others now db orgID advanceID = (res, Some req, db')"
  shows "db' = others db \<and> (\<exists>e. res = TaskRetry e)"
  using assms(2) unknown_is_error [OF assms(1)]
  by (auto simp: ProcessEWADisbursementTask_def Let_def split: sum.splits option.splits prod.splits)

lemma unknown_keeps_grant:
  assumes "\<not> definite r" "ProcessHardshipGrantDisbursementTask registry (\<lambda>_. initiate r) others now db orgID grantID = (res, Some req, db')"
  shows "db' = others db \<and> (\<exists>e. res = TaskRetry e)"
  using assms(2) unknown_is_error [OF assms(1)]
  by (auto simp: ProcessHardshipGrantDisbursementTask_def Let_def split: sum.splits option.splits prod.splits)

end

definition settles :: "'a http_reply \<Rightarrow> bool" where
  "settles r \<longleftrightarrow> (case r of Answer status (Some _) \<Rightarrow> status < 500 | _ \<Rightarrow> False)"

definition refused :: "BulkTransferResponse http_reply \<Rightarrow> bool" where
  "refused r \<longleftrightarrow> settles r \<and> (case r of Answer _ (Some body) \<Rightarrow> \<not> br_successful body | _ \<Rightarrow> False)"

interpretation monnify: payment_rail
  "\<lambda>r. monnify_InitiateTransfer wallet now auth (\<lambda>_. r) (c\<lparr>mc_mock := False\<rparr>)" settles
  by unfold_locales
    (auto simp: monnify_InitiateTransfer_def InitiateBulkTransfer_def settles_def rbind_eq_Inr
      split: if_splits sum.splits prod.splits http_reply.splits option.splits)

text \<open>
  Paystack does not keep the contract: a gateway error with a JSON body is read as a refusal, and the worker cancels
  an advance whose transfer may have been made.
\<close>

definition gateway_error :: "TransferResponse http_reply" where
  "gateway_error = Answer 502 (Some \<lparr>pt_status = False, pt_message = ''Bad Gateway'', pt_code = [], pt_reference = [], pt_data_status = []\<rparr>)"

definition paystack_provide :: "string \<Rightarrow> TransferRequest \<Rightarrow> TransferResult res" where
  "paystack_provide name =
     paystack_InitiateTransfer False (\<lambda>_. Answer 200 (Some \<lparr>pn_status = True, pn_message = [], pn_code = ''RCP-1''\<rparr>)) (\<lambda>_. gateway_error)"

theorem paystack_gateway_error_cancels:
  "\<not> settles gateway_error \<and>
   (case ProcessEWADisbursementTask DefaultProviderRegistry paystack_provide id 7 demo_approved ''ORG-1'' ''EWA-1'' of
      (res, req, db') \<Rightarrow> res = TaskDone \<and> map adv_status (advances db') = [AdvanceCancelled])"
  by code_simp

subsection \<open>The payroll worker on Monnify\<close>

lemma monnify_bank_answer:
  assumes "\<not> mc_mock c"
  shows "(case monnify_bank now auth remote c req of
            BulkOutcomeUnknown \<Rightarrow> fst (snd (InitiateBulkTransfer now auth remote c req)) = Some req \<and> \<not> refused (remote req)
          | BulkError e \<Rightarrow> fst (snd (InitiateBulkTransfer now auth remote c req)) = None
          | BulkAnswer ok msg \<Rightarrow> fst (snd (InitiateBulkTransfer now auth remote c req)) = Some req \<and> (refused (remote req) \<longleftrightarrow> \<not> ok))"
  using assms
  by (auto simp: monnify_bank_def InitiateBulkTransfer_def refused_def settles_def
      split: sum.splits prod.splits http_reply.splits option.splits)

lemma batch_handed_over:
  assumes inv: "payroll_inv db" and s: "start_batch now db orgID pid = Inr ((payroll, sendable), db')"
  shows "sendable = sendable_of db orgID pid"
    "t \<in> set sendable \<Longrightarrow> \<exists>t' \<in> set (payroll_items db'). it_id t' = it_id t \<and> it_attempt t' = it_attempt t \<and> it_status t' = PayrollProcessing"
proof -
  obtain p where e: "sendable = sendable_of db orgID pid" and up: "db' = db\<lparr>payrolls := update_where (\<lambda>q. pr_id q = pid)
         (\<lambda>q. q\<lparr>pr_status := PayrollProcessing, pr_pending := int (length sendable), pr_updated_at := now\<rparr>) (payrolls db),
       payroll_items := update_where (\<lambda>t. it_payroll t = pid \<and> it_status t = PayrollPending)
         (handed now (has_employee db orgID)) (payroll_items db)\<rparr>"
    by (rule start_batch_Inr [OF inv s])
  have rows: "payroll_items db' = update_where (\<lambda>t. it_payroll t = pid \<and> it_status t = PayrollPending)
         (handed now (has_employee db orgID)) (payroll_items db)" by (simp add: up)
  show "sendable = sendable_of db orgID pid" by (rule e)
  assume t: "t \<in> set sendable"
  then have "handed now (has_employee db orgID) t \<in> set (payroll_items db')"
    unfolding rows e by (auto simp: sendable_of_def in_update_where)
  then show "\<exists>t' \<in> set (payroll_items db'). it_id t' = it_id t \<and> it_attempt t' = it_attempt t \<and> it_status t' = PayrollProcessing"
    using t e by (intro bexI [of _ "handed now (has_employee db orgID) t"]) (simp_all add: sendable_of_def)
qed

lemma worker_request:
  assumes "ProcessPayrollTask bank wallet now db orgID pid = (res, Some req, db')"
  obtains payroll sendable db1 where "start_batch now db orgID pid = Inr ((payroll, sendable), db1)"
    "bt_lines req = map (transfer_line db1 orgID (pr_period payroll)) sendable"
    "case bank req of
       BulkOutcomeUnknown \<Rightarrow> db' = db1 \<and> (\<exists>e. res = TaskSkipRetry e)
     | BulkError e \<Rightarrow> res = TaskRetry e
     | BulkAnswer ok msg \<Rightarrow> if ok then db' = db1 \<and> res = TaskDone else \<exists>e. res = TaskRetry e"
proof -
  obtain payroll sendable db1 where s: "start_batch now db orgID pid = Inr ((payroll, sendable), db1)" and ne: "sendable \<noteq> []"
    using assms by (auto simp: ProcessPayrollTask_def split: sum.splits prod.splits if_splits)
  show thesis
    by (rule that [OF s]) (use assms ne in \<open>auto simp: ProcessPayrollTask_def s Let_def split: bulk_response.splits if_splits\<close>)
qed

lemma bank_cases:
  assumes "case b of BulkOutcomeUnknown \<Rightarrow> sent = Some req \<and> \<not> r | BulkError e \<Rightarrow> sent = None
     | BulkAnswer ok msg \<Rightarrow> sent = Some req \<and> (r \<longleftrightarrow> \<not> ok)"
    "case b of BulkOutcomeUnknown \<Rightarrow> db' = db1 \<and> (\<exists>e. res = TaskSkipRetry e) | BulkError e \<Rightarrow> res = TaskRetry e
     | BulkAnswer ok msg \<Rightarrow> if ok then db' = db1 \<and> res = TaskDone else \<exists>e. res = TaskRetry e"
  shows "if \<exists>e. res = TaskRetry e then sent = None \<or> r else sent = Some req \<and> \<not> r \<and> db' = db1"
  using assms by (cases b) (auto split: if_splits)

text \<open>
  C15: a payroll is never put back for resending while Monnify may have it, and the bank reads exact amounts. When the
  worker has called the production client, the request names every pending item of an employee of the organization
  with its reference, and each amount of up to 2^50 kobo is read back exactly from the float on the wire. Either the
  task is retried, and then nothing was sent or Monnify refused with a definite answer, or the request went out and was
  not refused, and then the task is not retried and every item of the request is marked as being with the bank.
\<close>

theorem unknown_outcome_keeps_batch:
  assumes inv: "payroll_inv db" and prod: "\<not> mc_mock c"
    and run: "ProcessPayrollTask (monnify_bank now auth remote c) wallet now db orgID pid = (res, Some req, db')"
  shows "map td_reference (bt_lines req) = map ItemReference (sendable_of db orgID pid) \<and>
    (\<forall>i < length (bt_lines req). let k = it_amount (sendable_of db orgID pid ! i)
       in \<bar>sint k\<bar> \<le> 2 ^ 50 \<longrightarrow> FromNairaFloat (td_amount (bt_lines req ! i)) = k) \<and>
    (let sent = fst (snd (InitiateBulkTransfer now auth remote c req)) in
     if \<exists>e. res = TaskRetry e then sent = None \<or> refused (remote req)
     else sent = Some req \<and> \<not> refused (remote req) \<and>
       (\<forall>t \<in> set (sendable_of db orgID pid). \<exists>t' \<in> set (payroll_items db').
          it_id t' = it_id t \<and> it_attempt t' = it_attempt t \<and> it_status t' = PayrollProcessing))"
proof -
  obtain payroll sendable db1 where s: "start_batch now db orgID pid = Inr ((payroll, sendable), db1)"
    and lines: "bt_lines req = map (transfer_line db1 orgID (pr_period payroll)) sendable"
    and ans: "case monnify_bank now auth remote c req of
       BulkOutcomeUnknown \<Rightarrow> db' = db1 \<and> (\<exists>e. res = TaskSkipRetry e)
     | BulkError e \<Rightarrow> res = TaskRetry e
     | BulkAnswer ok msg \<Rightarrow> if ok then db' = db1 \<and> res = TaskDone else \<exists>e. res = TaskRetry e"
    by (rule worker_request [OF run])
  let ?sent = "fst (snd (InitiateBulkTransfer now auth remote c req))"
  have h: "sendable = sendable_of db orgID pid"
    "\<forall>t \<in> set sendable. \<exists>t' \<in> set (payroll_items db1). it_id t' = it_id t \<and> it_attempt t' = it_attempt t \<and> it_status t' = PayrollProcessing"
    using batch_handed_over [OF inv s] by blast+
  have refs: "map td_reference (bt_lines req) = map ItemReference (sendable_of db orgID pid)"
    unfolding lines h(1) by (simp add: transfer_line_def comp_def)
  have amounts: "\<forall>i < length (bt_lines req). let k = it_amount (sendable_of db orgID pid ! i)
       in \<bar>sint k\<bar> \<le> 2 ^ 50 \<longrightarrow> FromNairaFloat (td_amount (bt_lines req ! i)) = k"
    unfolding lines h(1) by (simp add: transfer_line_def Let_def naira_float_roundtrip)
  have "if \<exists>e. res = TaskRetry e then ?sent = None \<or> refused (remote req)
     else ?sent = Some req \<and> \<not> refused (remote req) \<and> db' = db1"
    by (rule bank_cases [OF monnify_bank_answer [OF prod, of now auth remote req] ans])
  then show ?thesis unfolding Let_def [of ?sent] using refs amounts h by simp
qed

definition demo_gateway :: "BulkTransferRequest \<Rightarrow> BulkTransferResponse http_reply" where
  "demo_gateway _ = Answer 503 None"

definition demo_client :: monnify_client where
  "demo_client = \<lparr>mc_token = ''token'', mc_expiry = 100, mc_mock = False\<rparr>"

definition demo_lost :: "task_result \<times> BulkTransferRequest option \<times> payroll_db" where
  "demo_lost = ProcessPayrollTask (monnify_bank 9 Unreachable demo_gateway demo_client) ''WALLET'' 9 demo_created ''ORG-1'' ''PAY-1''"

theorem unknown_outcome_keeps_batch_witness:
  "\<exists>res req db'. demo_lost = (res, Some req, db') \<and> length (bt_lines req) = 2 \<and>
     FromNairaFloat (td_amount (bt_lines req ! 0)) = 150050 \<and> FromNairaFloat (td_amount (bt_lines req ! 1)) = 200000 \<and>
     (\<nexists>e. res = TaskRetry e) \<and>
     (\<forall>id \<in> {''ITEM-a1'', ''ITEM-b2''}. \<exists>t' \<in> set (payroll_items db'). it_id t' = id \<and> it_status t' = PayrollProcessing)"
proof -
  have "case demo_lost of (TaskSkipRetry e, Some req, db') \<Rightarrow> length (bt_lines req) = 2 | _ \<Rightarrow> False" by code_simp
  then obtain e req db' where run: "demo_lost = (TaskSkipRetry e, Some req, db')" "length (bt_lines req) = 2"
    by (auto split: prod.splits option.splits task_result.splits)
  have s: "map it_id (sendable_of demo_created ''ORG-1'' ''PAY-1'') = [''ITEM-a1'', ''ITEM-b2'']"
    "map it_amount (sendable_of demo_created ''ORG-1'' ''PAY-1'') = [150050, 200000]" by code_simp+
  then obtain x y where xy: "sendable_of demo_created ''ORG-1'' ''PAY-1'' = [x, y]" by (auto simp: map_eq_Cons_conv)
  have m: "\<not> mc_mock demo_client" by (simp add: demo_client_def)
  note f = unknown_outcome_keeps_batch [OF demo_created_inv(1) m run(1) [unfolded demo_lost_def]]
  have i: "i < 2 \<Longrightarrow> let k = it_amount ([x, y] ! i) in \<bar>sint k\<bar> \<le> 2 ^ 50 \<longrightarrow> FromNairaFloat (td_amount (bt_lines req ! i)) = k" for i
    using f run(2) unfolding xy by simp
  have amounts: "FromNairaFloat (td_amount (bt_lines req ! 0)) = 150050" "FromNairaFloat (td_amount (bt_lines req ! 1)) = 200000"
    using i [of 0] i [of 1] s(2) unfolding xy by (simp_all add: Let_def)
  have "\<forall>id \<in> {''ITEM-a1'', ''ITEM-b2''}. \<exists>t' \<in> set (payroll_items db'). it_id t' = id \<and> it_status t' = PayrollProcessing"
    using f s(1) unfolding xy by (auto simp: Let_def)
  then show ?thesis using run amounts by (intro exI [of _ "TaskSkipRetry e"] exI [of _ req] exI [of _ db']) simp
qed

end
