(* ===== verification/BVN_Verification.thy ===== *)
theory BVN_Verification
  imports Payment_Rails
begin

text \<open>
  The identity check of an employee (\<open>bvn_worker.go\<close>, \<open>BVNVerification\<close> in \<open>models/organization.go\<close>): the task that
  asks Dojah and the one row that keeps its outcome. Encryption, SHA-256 and the JSON encoder are parameters; a task
  whose payload does not decode is \<open>None\<close>. The table of migration 000002 allows one row per employee.
\<close>

record BVNVerification =
  bv_id :: string
  bv_org :: string
  bv_employee :: string
  bv_provider :: string
  bv_status :: string
  bv_hash :: string
  bv_verified_at :: time

record bvn_db = org_db +
  bvn_verifications :: "BVNVerification list"

definition BVNVerification_BeforeCreate :: "('z base_db_scheme) \<Rightarrow> BVNVerification \<Rightarrow> BVNVerification" where
  "BVNVerification_BeforeCreate db v = (if bv_id v = [] then v\<lparr>bv_id := fresh_id ''BVN-'' db\<rparr> else v)"

text \<open>The insert with the table's constraints: primary key, both references, one row per employee.\<close>

definition insert_bvn :: "('z bvn_db_scheme) \<Rightarrow> BVNVerification \<Rightarrow> BVNVerification list res" where
  "insert_bvn db v =
     (if \<not> list_ex (\<lambda>o1. org_id o1 = bv_org v) (organizations db) \<or> \<not> list_ex (\<lambda>e. emp_id e = bv_employee v) (employees db)
      then Inl (ErrOther ''foreign key violation'')
      else if list_ex (\<lambda>r. bv_employee r = bv_employee v) (bvn_verifications db) then Inl ErrUniqueViolation
      else insert_row bv_id v (bvn_verifications db))"

definition saveBVNVerification :: "('z bvn_db_scheme) \<Rightarrow> BVNVerification \<Rightarrow> unit res \<times> ('z bvn_db_scheme)" where
  "saveBVNVerification db v = WithOrgScope db (\<lambda>db.
     rbind (insert_bvn db (BVNVerification_BeforeCreate db v)) (\<lambda>rows.
       Inr ((), (take_uuid db)\<lparr>bvn_verifications := rows\<rparr>)))"

subsection \<open>The task\<close>

text \<open>An absent key of the payload reads as the empty string.\<close>

record bvn_task =
  bk_org :: string
  bk_employee :: string
  bk_bvn :: string
  bk_bvn_enc :: string

definition bvnTaskPayload :: "(string \<Rightarrow> string res) \<Rightarrow> string \<Rightarrow> string \<Rightarrow> string \<Rightarrow> bvn_task res" where
  "bvnTaskPayload EncryptString orgID employeeID bvn =
     rbind (EncryptString bvn) (\<lambda>enc. Inr \<lparr>bk_org = orgID, bk_employee = employeeID, bk_bvn = [], bk_bvn_enc = enc\<rparr>)"

definition task_bvn :: "(string \<Rightarrow> string res) \<Rightarrow> bvn_task \<Rightarrow> string res" where
  "task_bvn DecryptString t = (if bk_bvn_enc t = [] then Inr (bk_bvn t) else DecryptString (bk_bvn_enc t))"

record dojahBVNResponse =
  dj_first :: string
  dj_last :: string
  dj_error :: string

record bvn_env =
  DecryptString :: "string \<Rightarrow> string res"
  sha_hex :: "string \<Rightarrow> string"
  dojah_json :: "dojahBVNResponse \<Rightarrow> string"
  mock_mode :: bool
  api_key :: string

text \<open>How the task ends, the number that was sent to Dojah (if any), and the database.\<close>

definition ProcessBVNTask ::
  "bvn_env \<Rightarrow> (string \<Rightarrow> dojahBVNResponse http_reply) \<Rightarrow> time \<Rightarrow> ('z bvn_db_scheme) \<Rightarrow> bvn_task option
     \<Rightarrow> task_result \<times> string option \<times> ('z bvn_db_scheme)" where
  "ProcessBVNTask env dojah now db payload =
     (case payload of
        None \<Rightarrow> (TaskSkipRetry (ErrOther ''bvn task: bad payload''), None, db)
      | Some t \<Rightarrow>
          (case task_bvn (DecryptString env) t of
             Inl e \<Rightarrow> (TaskSkipRetry e, None, db)
           | Inr bvn \<Rightarrow>
               let v = \<lparr>bv_id = [], bv_org = bk_org t, bv_employee = bk_employee t, bv_provider = [], bv_status = [], bv_hash = [],
                        bv_verified_at = now\<rparr>
               in if mock_mode env then
                    (case saveBVNVerification db
                            (v\<lparr>bv_provider := ''mock'', bv_status := ''verified'', bv_hash := sha_hex env (''mock-bvn-'' @ bvn)\<rparr>) of
                       (Inl e, db') \<Rightarrow> (TaskRetry e, None, db')
                     | (Inr _, db') \<Rightarrow> (TaskDone, None, db'))
                  else if api_key env = [] then (TaskRetry (ErrOther ''DOJAH_API_KEY not set''), None, db)
                  else
                    (case dojah bvn of
                       Unreachable \<Rightarrow> (TaskRetry (ErrOther ''dojah unreachable''), Some bvn, db)
                     | Answer _ None \<Rightarrow> (TaskRetry (ErrOther ''dojah response decode failed''), Some bvn, db)
                     | Answer code (Some r) \<Rightarrow>
                         let failed = (dj_error r \<noteq> [] \<or> code \<noteq> 200);
                             v = v\<lparr>bv_provider := ''dojah'', bv_hash := sha_hex env (dojah_json env r),
                                   bv_status := (if failed then ''failed'' else ''verified'')\<rparr>
                         in case saveBVNVerification db v of
                              (Inl e, db') \<Rightarrow> (TaskRetry e, Some bvn, db')
                            | (Inr _, db') \<Rightarrow>
                                if failed then (TaskSkipRetry (ErrOther (''BVN verification failed: '' @ dj_error r)), Some bvn, db')
                                else (TaskDone, Some bvn, db'))))"

subsection \<open>What the row keeps\<close>

text \<open>The queue never sees the number, and the task reads it back.\<close>

lemma bvn_payload_roundtrip:
  assumes "bvnTaskPayload enc orgID employeeID bvn = Inr t" "\<And>s c. enc s = Inr c \<Longrightarrow> c \<noteq> [] \<and> dec c = Inr s"
  shows "bk_bvn t = []" "task_bvn dec t = Inr bvn"
  using assms by (auto simp: bvnTaskPayload_def task_bvn_def rbind_eq_Inr)

lemma BeforeCreate_employee [simp]: "bv_employee (BVNVerification_BeforeCreate db w) = bv_employee w"
  by (simp add: BVNVerification_BeforeCreate_def)

lemma save_refused:
  assumes "v \<in> set (bvn_verifications db)" "bv_employee v = bv_employee w" "saveBVNVerification db w = (r, db')"
  shows "db' = db \<and> (\<exists>e. r = Inl e)"
proof -
  have "list_ex (\<lambda>r. bv_employee r = bv_employee w) (bvn_verifications db)" using assms by (auto simp: list_ex_iff)
  then have "\<exists>e. insert_bvn db (BVNVerification_BeforeCreate db w) = Inl e" by (simp add: insert_bvn_def)
  then show ?thesis using assms(3) by (auto simp: saveBVNVerification_def)
qed

lemma first_answer_final:
  assumes v: "v \<in> set (bvn_verifications db)" "bv_employee v = bk_employee t"
    and run: "ProcessBVNTask env dojah now db (Some t) = (res, sent, db')"
  shows "db' = db \<and> res \<noteq> TaskDone"
  using run
  by (auto simp: ProcessBVNTask_def Let_def dest!: save_refused [OF v(1), rotated] simp: v(2)
      split: sum.splits http_reply.splits option.splits prod.splits if_splits)

text \<open>
  C18: an outage of Dojah fails an employee for good. A server error with a decodable body is recorded as a failed
  verification and not retried; from then on every run of the task for this employee, whatever Dojah answers, leaves
  the database as it is and does not succeed, because there can be only one row per employee.
\<close>

theorem outage_fails_for_good:
  assumes task: "task_bvn (DecryptString env) t = Inr bvn" "\<not> mock_mode env" "api_key env \<noteq> []"
    and rows: "list_ex (\<lambda>o1. org_id o1 = bk_org t) (organizations db)" "list_ex (\<lambda>e. emp_id e = bk_employee t) (employees db)"
      "\<not> list_ex (\<lambda>r. bv_employee r = bk_employee t) (bvn_verifications db)" "fresh_id ''BVN-'' db \<notin> bv_id ` set (bvn_verifications db)"
    and outage: "dojah bvn = Answer code (Some r)" "500 \<le> code"
  shows "\<exists>e db1. ProcessBVNTask env dojah now db (Some t) = (TaskSkipRetry e, Some bvn, db1) \<and>
    (\<exists>v \<in> set (bvn_verifications db1). bv_employee v = bk_employee t \<and> bv_status v = ''failed'') \<and>
    (\<forall>env2 dojah2 now2. fst (ProcessBVNTask env2 dojah2 now2 db1 (Some t)) \<noteq> TaskDone \<and>
       snd (snd (ProcessBVNTask env2 dojah2 now2 db1 (Some t))) = db1)"
proof -
  let ?v = "\<lparr>bv_id = fresh_id ''BVN-'' db, bv_org = bk_org t, bv_employee = bk_employee t, bv_provider = ''dojah'', bv_status = ''failed'',
      bv_hash = sha_hex env (dojah_json env r), bv_verified_at = now\<rparr>"
  let ?db1 = "(take_uuid db)\<lparr>bvn_verifications := bvn_verifications db @ [?v]\<rparr>"
  have run: "ProcessBVNTask env dojah now db (Some t) = (TaskSkipRetry (ErrOther (''BVN verification failed: '' @ dj_error r)), Some bvn, ?db1)"
    using task rows outage
    by (simp add: ProcessBVNTask_def saveBVNVerification_def insert_bvn_def insert_row_def BVNVerification_BeforeCreate_def Let_def)
  have v: "?v \<in> set (bvn_verifications ?db1)" by simp
  have "fst (ProcessBVNTask env2 dojah2 now2 ?db1 (Some t)) \<noteq> TaskDone \<and> snd (snd (ProcessBVNTask env2 dojah2 now2 ?db1 (Some t))) = ?db1"
    for env2 dojah2 now2
    using first_answer_final [OF v, of t env2 dojah2 now2] by (cases "ProcessBVNTask env2 dojah2 now2 ?db1 (Some t)") auto
  then show ?thesis using run v by (intro exI conjI bexI [of _ ?v]) (rule run, simp_all)
qed

definition demo_bvn_db :: bvn_db where
  "demo_bvn_db = \<lparr>uuids = demo_uuids, uuid_next = 0, audit_events = [], organizations = organizations (demo_run [] []),
     employees = employees (demo_run [] []), consent_records = [], bvn_verifications = []\<rparr>"

definition demo_bvn_env :: bvn_env where
  "demo_bvn_env = \<lparr>DecryptString = (\<lambda>s. if take 4 s = ''enc:'' then Inr (drop 4 s) else Inl (ErrOther ''tampered'')),
     sha_hex = (\<lambda>_. ''hash''), dojah_json = dj_error, mock_mode = False, api_key = ''key''\<rparr>"

definition demo_bvn_task :: bvn_task where
  "demo_bvn_task = \<lparr>bk_org = ''ORG-1'', bk_employee = ''EMP-h'', bk_bvn = [], bk_bvn_enc = ''enc:12345678901''\<rparr>"

definition demo_dojah :: "int \<Rightarrow> string \<Rightarrow> dojahBVNResponse http_reply" where
  "demo_dojah code bvn = Answer code (Some \<lparr>dj_first = ''Ada'', dj_last = ''Obi'', dj_error = []\<rparr>)"

theorem outage_fails_for_good_witness:
  "\<exists>e db1. ProcessBVNTask demo_bvn_env (demo_dojah 503) 7 demo_bvn_db (Some demo_bvn_task) = (TaskSkipRetry e, Some ''12345678901'', db1) \<and>
     snd (snd (ProcessBVNTask demo_bvn_env (demo_dojah 200) 8 db1 (Some demo_bvn_task))) = db1 \<and>
     fst (ProcessBVNTask demo_bvn_env (demo_dojah 200) 8 db1 (Some demo_bvn_task)) \<noteq> TaskDone"
proof -
  have "task_bvn (DecryptString demo_bvn_env) demo_bvn_task = Inr ''12345678901''" "\<not> mock_mode demo_bvn_env" "api_key demo_bvn_env \<noteq> []"
    by code_simp+
  moreover have "list_ex (\<lambda>o1. org_id o1 = bk_org demo_bvn_task) (organizations demo_bvn_db)"
    "list_ex (\<lambda>e. emp_id e = bk_employee demo_bvn_task) (employees demo_bvn_db)"
    "\<not> list_ex (\<lambda>r. bv_employee r = bk_employee demo_bvn_task) (bvn_verifications demo_bvn_db)"
    "fresh_id ''BVN-'' demo_bvn_db \<notin> bv_id ` set (bvn_verifications demo_bvn_db)" by code_simp+
  moreover have "demo_dojah 503 ''12345678901'' = Answer 503 (Some \<lparr>dj_first = ''Ada'', dj_last = ''Obi'', dj_error = []\<rparr>)" "500 \<le> (503 :: int)"
    by (simp_all add: demo_dojah_def)
  ultimately show ?thesis using outage_fails_for_good by blast
qed

end
