(* ===== verification/EWA_Bills.thy ===== *)
theory EWA_Bills
  imports EWA_Service "HOL-Library.Multiset"
begin

text \<open>
  The worker's recurring bills (\<open>ewa_bill_service.go\<close>): recording, listing, removing, and the plan that lays them
  out against the next payday. \<open>sort.Slice\<close> is not stable, so the plan takes the arrangement of bills with the same due
  date as a function \<open>arrange\<close>; the statements ask of it only that it sorts.
\<close>

record EWABill =
  bill_id :: string
  bill_org :: string
  bill_employee :: string
  bill_name :: string
  bill_amount :: Kobo
  bill_due_day :: int
  bill_active :: bool

record bill_db = link_db +
  bills :: "EWABill list"

definition EWABill_BeforeCreate :: "('z base_db_scheme) \<Rightarrow> EWABill \<Rightarrow> EWABill" where
  "EWABill_BeforeCreate db b = (if bill_id b = [] then b\<lparr>bill_id := fresh_id ''BILL-'' db\<rparr> else b)"

definition ErrInvalidBill :: err where
  "ErrInvalidBill = ErrOther ''invalid bill''"

definition AddBill ::
  "('z bill_db_scheme) \<Rightarrow> string \<Rightarrow> string \<Rightarrow> string \<Rightarrow> Kobo \<Rightarrow> int \<Rightarrow> EWABill res \<times> ('z bill_db_scheme)" where
  "AddBill db orgID employeeID name amount dueDay =
     (if name = [] then (Inl ErrInvalidBill, db)
      else if \<not> Kobo_IsPositive amount then (Inl ErrInvalidBill, db)
      else if dueDay < 1 \<or> 31 < dueDay then (Inl ErrInvalidBill, db)
      else WithOrgScope db (\<lambda>db.
        let b = EWABill_BeforeCreate db
              \<lparr>bill_id = [], bill_org = orgID, bill_employee = employeeID, bill_name = name, bill_amount = amount,
               bill_due_day = dueDay, bill_active = True\<rparr>
        in rbind (insert_row bill_id b (bills db)) (\<lambda>rows. Inr (b, (take_uuid db)\<lparr>bills := rows\<rparr>))))"

definition active_bills :: "('z bill_db_scheme) \<Rightarrow> string \<Rightarrow> string \<Rightarrow> EWABill list" where
  "active_bills db orgID employeeID = filter (\<lambda>b. bill_org b = orgID \<and> bill_employee b = employeeID \<and> bill_active b) (bills db)"

definition ListBills :: "('z bill_db_scheme) \<Rightarrow> string \<Rightarrow> string \<Rightarrow> EWABill list" where
  "ListBills db orgID employeeID = sort_key bill_due_day (active_bills db orgID employeeID)"

definition RemoveBill :: "('z bill_db_scheme) \<Rightarrow> string \<Rightarrow> string \<Rightarrow> string \<Rightarrow> unit res \<times> ('z bill_db_scheme)" where
  "RemoveBill db orgID employeeID billID = WithOrgScope db (\<lambda>db.
     let P = (\<lambda>b. bill_id b = billID \<and> bill_employee b = employeeID \<and> bill_org b = orgID)
     in if count_where P (bills db) = 0 then Inl ErrRecordNotFound
        else Inr ((), db\<lparr>bills := update_where P (\<lambda>b. b\<lparr>bill_active := False\<rparr>) (bills db)\<rparr>))"

subsection \<open>Due dates\<close>

definition daysInMonth :: "int \<Rightarrow> int \<Rightarrow> int" where
  "daysInMonth year month = DayOfMonth (Date year (month + 1) 0)"

definition nextBillDueDate :: "time \<Rightarrow> int \<Rightarrow> time" where
  "nextBillDueDate asOf dueDay =
     (let y = Year asOf; m = Month asOf;
          day = (if daysInMonth y m < dueDay then daysInMonth y m else dueDay);
          candidate = Date y m day
      in if candidate < Date y m (DayOfMonth asOf)
         then Date y (m + 1) (if daysInMonth y (m + 1) < dueDay then daysInMonth y (m + 1) else dueDay)
         else candidate)"

subsection \<open>The plan\<close>

record BillTimingEntry =
  bt_bill :: EWABill
  bt_due :: time
  bt_mismatched :: bool
  bt_coverable :: bool

record BillTimingPlan =
  bp_as_of :: time
  bp_next_payday :: time
  bp_available :: Kobo
  bp_bills :: "BillTimingEntry list"
  bp_total_due :: Kobo
  bp_total_coverable :: Kobo

text \<open>One turn of the loop; \<open>remaining\<close> is what of the available amount is left.\<close>

definition plan_bill :: "EWABill \<times> time \<Rightarrow> BillTimingPlan \<times> Kobo \<Rightarrow> (BillTimingPlan \<times> Kobo) res" where
  "plan_bill = (\<lambda>(b, due) (plan, remaining).
     let entry = \<lparr>bt_bill = b, bt_due = due, bt_mismatched = due < bp_next_payday plan, bt_coverable = False\<rparr>
     in if \<not> due < bp_next_payday plan then Inr (plan\<lparr>bp_bills := bp_bills plan @ [entry]\<rparr>, remaining)
        else
          rbind (Kobo_Add (bp_total_due plan) (bill_amount b)) (\<lambda>total.
            if remaining <s bill_amount b
            then Inr (plan\<lparr>bp_total_due := total, bp_bills := bp_bills plan @ [entry]\<rparr>, remaining)
            else
              rbind (Kobo_Sub remaining (bill_amount b)) (\<lambda>remaining'.
              rbind (Kobo_Add (bp_total_coverable plan) (bill_amount b)) (\<lambda>coverable.
              Inr (plan\<lparr>bp_total_due := total, bp_total_coverable := coverable,
                       bp_bills := bp_bills plan @ [entry\<lparr>bt_coverable := True\<rparr>]\<rparr>, remaining')))))"

fun plan_loop :: "(EWABill \<times> time) list \<Rightarrow> BillTimingPlan \<times> Kobo \<Rightarrow> (BillTimingPlan \<times> Kobo) res" where
  "plan_loop [] st = Inr st"
| "plan_loop (d # ds) st = rbind (plan_bill d st) (plan_loop ds)"

definition GetBillTimingPlan ::
  "((EWABill \<times> time) list \<Rightarrow> (EWABill \<times> time) list) \<Rightarrow> bank_provider \<Rightarrow> time \<Rightarrow> ('z bill_db_scheme) \<Rightarrow> string \<Rightarrow> string \<Rightarrow> time
     \<Rightarrow> BillTimingPlan res \<times> ('z bill_db_scheme)" where
  "GetBillTimingPlan arrange provider now db orgID employeeID asOf =
     (case WithOrgScope db (\<lambda>db. rbind (eligibilityTx provider now db orgID employeeID asOf) (\<lambda>(el, db').
              Inr ((active_bills db orgID employeeID, el), db'))) of
        (Inl e, db') \<Rightarrow> (Inl e, db')
      | (Inr (bs, el), db') \<Rightarrow>
          let nextPayday = AddDate (firstOfNextPeriod asOf) 0 0 (-1);
              dueList = arrange (map (\<lambda>b. (b, nextBillDueDate asOf (bill_due_day b))) bs)
          in (rbind (plan_loop dueList (\<lparr>bp_as_of = asOf, bp_next_payday = nextPayday, bp_available = el_available el, bp_bills = [],
                  bp_total_due = 0, bp_total_coverable = 0\<rparr>, el_available el)) (\<lambda>(plan, _). Inr plan), db'))"

text \<open>The due date is the first day from today on that is the bill's day of its month.\<close>

definition due_on :: "int \<Rightarrow> time \<Rightarrow> bool" where
  "due_on dueDay t \<longleftrightarrow> DayOfMonth t = min dueDay (daysInMonth (Year t) (Month t))"

lemma daysInMonth_eq: "daysInMonth y m = month_start (12 * y + m) - month_start (12 * y + m - 1)"
proof -
  let ?n = "12 * y + m"
  have "month_of_day (month_start ?n - 1) = ?n - 1"
    using month_start_step [of "?n - 1"] by (intro month_of_day_unique) simp_all
  then show ?thesis by (simp add: daysInMonth_def DayOfMonth_def Date_def add.commute)
qed

lemma due_on_day:
  assumes "month_start n \<le> u" "u < month_start (n + 1)"
  shows "due_on dueDay (Day * u) \<longleftrightarrow> u = month_start n + min dueDay (month_start (n + 1) - month_start n) - 1"
proof -
  have n: "month_of_day u = n" using assms by (rule month_of_day_unique)
  have "12 * (n div 12) + (n mod 12 + 1) = n + 1" by (simp add: algebra_simps)
  then show ?thesis
    by (auto simp: due_on_def DayOfMonth_def daysInMonth_eq Year_def Month_def n algebra_simps)
qed

theorem next_due_is_first:
  assumes d: "1 \<le> dueDay"
  shows "\<exists>u. nextBillDueDate asOf dueDay = Day * u \<and> asOf div Day \<le> u \<and> due_on dueDay (Day * u) \<and>
    (\<forall>v. asOf div Day \<le> v \<and> v < u \<longrightarrow> \<not> due_on dueDay (Day * v))"
proof -
  define z where "z = asOf div Day"
  define n where "n = month_of_day z"
  have z: "month_start n \<le> z" "z < month_start (n + 1)" using month_of_day [of z] by (simp_all add: n_def)
  define len where "len k = month_start (k + 1) - month_start k" for k
  define the_day where "the_day k = month_start k + min dueDay (len k) - 1" for k
  have len: "28 \<le> len k" for k using month_start_step [of k] by (simp add: len_def)
  have the_day: "month_start k \<le> the_day k" "the_day k < month_start (k + 1)" for k
    using len [of k] d by (auto simp: the_day_def len_def)
  have due: "due_on dueDay (Day * u) \<longleftrightarrow> u = the_day k" if "month_start k \<le> u" "u < month_start (k + 1)" for u k
    using due_on_day [OF that, of dueDay] by (simp add: the_day_def len_def)
  have ym: "12 * Year asOf + (Month asOf - 1) = n" by (simp add: Year_def Month_def n_def z_def)
  have dim: "daysInMonth (Year asOf) (Month asOf) = len n" "daysInMonth (Year asOf) (Month asOf + 1) = len (n + 1)"
    using ym by (simp_all add: daysInMonth_eq len_def) (simp_all add: algebra_simps)
  have date: "Date (Year asOf) (Month asOf) x = Day * (month_start n + (x - 1))"
    "Date (Year asOf) (Month asOf + 1) x = Day * (month_start (n + 1) + (x - 1))" for x
    using ym by (simp_all add: Date_def algebra_simps)
  have today: "DayOfMonth asOf = z - month_start n + 1" by (simp add: DayOfMonth_def n_def z_def)
  have mn: "(if l < dueDay then l else dueDay) = min dueDay l" for l by simp
  have next_eq: "nextBillDueDate asOf dueDay = (if the_day n < z then Day * the_day (n + 1) else Day * the_day n)"
    unfolding nextBillDueDate_def Let_def dim today date mn the_day_def mult_less_cancel_left_pos [OF Day_pos] by (simp add: algebra_simps)
  show ?thesis
  proof (cases "the_day n < z")
    case True
    have "\<not> due_on dueDay (Day * v)" if v: "z \<le> v" "v < the_day (n + 1)" for v
    proof (cases "v < month_start (n + 1)")
      case True
      then show ?thesis using due [of n v] v(1) z(1) \<open>the_day n < z\<close> by auto
    next
      case False
      then show ?thesis using due [of "n + 1" v] v(2) the_day [of "n + 1"] by auto
    qed
    then show ?thesis using next_eq True the_day [of "n + 1"] z due [of "n + 1" "the_day (n + 1)"]
      by (intro exI [of _ "the_day (n + 1)"]) (auto simp: z_def [symmetric])
  next
    case False
    have "\<not> due_on dueDay (Day * v)" if v: "z \<le> v" "v < the_day n" for v
      using due [of n v] v z the_day [of n] by auto
    then show ?thesis using next_eq False the_day [of n] z due [of n "the_day n"]
      by (intro exI [of _ "the_day n"]) (auto simp: z_def [symmetric])
  qed
qed

text \<open>What a plan adds up to.\<close>

definition entry_sum :: "(BillTimingEntry \<Rightarrow> bool) \<Rightarrow> BillTimingEntry list \<Rightarrow> int" where
  "entry_sum P es = sum_list (map (\<lambda>e. if P e then sint (bill_amount (bt_bill e)) else 0) es)"

lemma entry_sum_snoc [simp]: "entry_sum P (es @ [e]) = entry_sum P es + (if P e then sint (bill_amount (bt_bill e)) else 0)"
  "entry_sum P [] = 0"
  by (simp_all add: entry_sum_def)

definition plan_ok :: "Kobo \<Rightarrow> BillTimingPlan \<times> Kobo \<Rightarrow> bool" where
  "plan_ok available = (\<lambda>(plan, remaining).
     sint (bp_total_due plan) = entry_sum bt_mismatched (bp_bills plan) \<and>
     sint (bp_total_coverable plan) = entry_sum bt_coverable (bp_bills plan) \<and>
     sint remaining = sint available - sint (bp_total_coverable plan) \<and> 0 \<le> sint remaining \<and>
     (\<forall>e \<in> set (bp_bills plan). bt_mismatched e = (bt_due e < bp_next_payday plan) \<and> (bt_coverable e \<longrightarrow> bt_mismatched e)))"

lemma plan_bill_ok:
  assumes "plan_bill (b, due) st = Inr st'" "plan_ok available st"
  shows "plan_ok available st' \<and> map (\<lambda>e. (bt_bill e, bt_due e)) (bp_bills (fst st')) = map (\<lambda>e. (bt_bill e, bt_due e)) (bp_bills (fst st)) @ [(b, due)] \<and>
    bp_next_payday (fst st') = bp_next_payday (fst st) \<and> bp_available (fst st') = bp_available (fst st)"
  using assms
  by (auto simp: plan_bill_def plan_ok_def Let_def go_results sless_sint split: if_splits prod.splits)

lemma plan_loop_ok_available: "plan_loop ds st = Inr st' \<Longrightarrow> bp_available (fst st') = bp_available (fst st)"
proof (induction ds arbitrary: st)
  case (Cons d ds)
  then obtain st1 where st1: "plan_bill d st = Inr st1" "plan_loop ds st1 = Inr st'" by (auto simp: go_results)
  have "bp_available (fst st1) = bp_available (fst st)"
    using st1(1) by (auto simp: plan_bill_def Let_def go_results split: if_splits prod.splits)
  then show ?case using Cons.IH [OF st1(2)] by simp
qed simp

lemma plan_loop_ok:
  assumes "plan_loop ds st = Inr st'" "plan_ok available st"
  shows "plan_ok available st' \<and> map (\<lambda>e. (bt_bill e, bt_due e)) (bp_bills (fst st')) = map (\<lambda>e. (bt_bill e, bt_due e)) (bp_bills (fst st)) @ ds \<and>
    bp_next_payday (fst st') = bp_next_payday (fst st) \<and> bp_available (fst st') = bp_available (fst st)"
  using assms
proof (induction ds arbitrary: st)
  case (Cons d ds)
  obtain b due where d: "d = (b, due)" by (cases d)
  from Cons.prems(1) obtain st1 where st1: "plan_bill d st = Inr st1" "plan_loop ds st1 = Inr st'" by (auto simp: go_results)
  from plan_bill_ok [OF st1(1) [unfolded d] Cons.prems(2)] Cons.IH [OF st1(2)] show ?case using d by simp
qed simp


text \<open>
  A plan is exact: it lists every active bill once, sorted by the date it is next due; the two totals are the sums
  over the bills due before payday and over those a draw can cover, and covering them never takes more than the worker may draw.
\<close>

theorem bill_plan_exact:
  assumes run: "GetBillTimingPlan arrange provider now db orgID employeeID asOf = (Inr plan, db')"
    and arrange: "\<And>ds. mset (arrange ds) = mset ds \<and> sorted (map snd (arrange ds))"
    and pos: "0 \<le> sint (bp_available plan)"
  shows "mset (map bt_bill (bp_bills plan)) = mset (active_bills db orgID employeeID) \<and> sorted (map bt_due (bp_bills plan)) \<and>
    (\<forall>e \<in> set (bp_bills plan). bt_due e = nextBillDueDate asOf (bill_due_day (bt_bill e)) \<and> bt_mismatched e = (bt_due e < bp_next_payday plan)) \<and>
    sint (bp_total_due plan) = entry_sum bt_mismatched (bp_bills plan) \<and>
    sint (bp_total_coverable plan) = entry_sum bt_coverable (bp_bills plan) \<and> sint (bp_total_coverable plan) \<le> sint (bp_available plan)"
proof -
  let ?bs = "active_bills db orgID employeeID"
  let ?ds = "arrange (map (\<lambda>b. (b, nextBillDueDate asOf (bill_due_day b))) ?bs)"
  obtain el db1 where el: "eligibilityTx provider now db orgID employeeID asOf = Inr (el, db1)"
    using run by (cases "eligibilityTx provider now db orgID employeeID asOf") (auto simp: GetBillTimingPlan_def WithOrgScope_def)
  let ?st = "(\<lparr>bp_as_of = asOf, bp_next_payday = AddDate (firstOfNextPeriod asOf) 0 0 (-1),
      bp_available = el_available el, bp_bills = [], bp_total_due = 0, bp_total_coverable = 0\<rparr>, el_available el)"
  have "fst (GetBillTimingPlan arrange provider now db orgID employeeID asOf) = rbind (plan_loop ?ds ?st) (\<lambda>(plan, _). Inr plan)"
    using el by (simp add: GetBillTimingPlan_def Let_def)
  then have "rbind (plan_loop ?ds ?st) (\<lambda>(plan, _). Inr plan) = Inr plan" using run by simp
  then obtain rem where loop: "plan_loop ?ds ?st = Inr (plan, rem)" unfolding rbind_eq_Inr by auto
  have "bp_available plan = el_available el" using plan_loop_ok_available [OF loop] by simp
  then have start: "plan_ok (el_available el) ?st"
    using pos by (simp add: plan_ok_def)
  from plan_loop_ok [OF loop start] have ok: "plan_ok (el_available el) (plan, rem)"
    and bills: "map (\<lambda>e. (bt_bill e, bt_due e)) (bp_bills plan) = ?ds" by simp_all
  have "mset (map bt_bill (bp_bills plan)) = mset ?bs" "map bt_due (bp_bills plan) = map snd ?ds"
    using arg_cong [OF bills, of "map fst"] arg_cong [OF bills, of "map snd"] arrange [of "map (\<lambda>b. (b, nextBillDueDate asOf (bill_due_day b))) ?bs"]
    by (simp_all add: o_def)  (metis (no_types, lifting) list.map_comp mset_map o_def fst_conv list.map_ident map_eq_conv)
  moreover have "bt_due e = nextBillDueDate asOf (bill_due_day (bt_bill e))" if e: "e \<in> set (bp_bills plan)" for e
  proof -
    have "(bt_bill e, bt_due e) \<in> set ?ds" unfolding bills [symmetric] using e by force
    then have "(bt_bill e, bt_due e) \<in> set (map (\<lambda>b. (b, nextBillDueDate asOf (bill_due_day b))) ?bs)"
      using arrange by (metis set_mset_mset)
    then show ?thesis by auto
  qed
  ultimately show ?thesis using ok arrange \<open>bp_available plan = _\<close> by (auto simp: plan_ok_def)
qed

end
