(* ===== verification/Employee_Records.thy ===== *)
theory Employee_Records
  imports Employer_Users
begin

text \<open>
  Creating and editing employees (\<open>employee_service.go\<close>, \<open>CreateEmployee\<close> of \<open>employee_handler.go\<close>), with the field
  rules of \<open>validate.go\<close> and the masking of \<open>encryption.go\<close>. The blind index of an email is the parameter
  \<open>BlindIndex\<close>. A text to a worker is the pair of phone and body; \<open>notifier\<close> says whether a sender is configured.
\<close>

subsection \<open>Field rules\<close>

definition is_alnum :: "char \<Rightarrow> bool" where
  "is_alnum c \<longleftrightarrow> is_digit c \<or> (65 \<le> (of_char c :: int) \<and> (of_char c :: int) \<le> 90) \<or> (97 \<le> (of_char c :: int) \<and> (of_char c :: int) \<le> 122)"

definition valid_Phone :: "string \<Rightarrow> bool" where
  "valid_Phone p =
     (case p of
        c # d # rest \<Rightarrow> c = CHR ''+'' \<and> is_digit d \<and> d \<noteq> CHR ''0'' \<and> list_all is_digit rest \<and> 7 \<le> length rest \<and> length rest \<le> 14
      | _ \<Rightarrow> False)"

definition valid_BVN :: "string \<Rightarrow> bool" where
  "valid_BVN b \<longleftrightarrow> list_all is_digit b \<and> length b = 11"

definition BankDetails :: "Currency \<Rightarrow> string \<Rightarrow> string \<Rightarrow> string" where
  "BankDetails currency accountNumber bankCode =
     (if currency = NGN then
        (if \<not> (list_all is_digit accountNumber \<and> length accountNumber = 10) then ''account_number must be a 10-digit NUBAN''
         else if \<not> (list_all is_digit bankCode \<and> 3 \<le> length bankCode \<and> length bankCode \<le> 6) then ''bank_code must be 3 to 6 digits''
         else [])
      else if \<not> (list_all is_alnum accountNumber \<and> 4 \<le> length accountNumber \<and> length accountNumber \<le> 34) then ''account_number is not valid''
      else if bankCode = [] then ''bank_code is required''
      else [])"

definition last4 :: "string \<Rightarrow> string" where
  "last4 s = (if length s \<le> 4 then s else drop (length s - 4) s)"

definition MaskPII :: "string \<Rightarrow> string" where
  "MaskPII s = (if s = [] then [] else if length s \<le> 4 then ''****'' else ''****'' @ drop (length s - 4) s)"

subsection \<open>Updating\<close>

record EmployeeUpdate =
  ue_name :: "string option"
  ue_email :: "string option"
  ue_phone :: "string option"
  ue_account :: "string option"
  ue_bank :: "string option"
  ue_salary :: "Kobo option"
  ue_rate :: "Kobo option"

definition EmployeeUpdate_IsEmpty :: "EmployeeUpdate \<Rightarrow> bool" where
  "EmployeeUpdate_IsEmpty u \<longleftrightarrow> u = \<lparr>ue_name = None, ue_email = None, ue_phone = None, ue_account = None, ue_bank = None,
     ue_salary = None, ue_rate = None\<rparr>"

definition ErrEmployeeInactive :: err where
  "ErrEmployeeInactive = ErrOther ''employee: this employee is no longer active''"

definition invalidEmployeeUpdate :: "string \<Rightarrow> string \<Rightarrow> err" where
  "invalidEmployeeUpdate field problem = ErrOther (field @ '' '' @ problem)"

text \<open>The row being edited and the changes recorded so far.\<close>

record employee_draft =
  ed_emp :: Employee
  ed_changes :: "(string \<times> string \<times> string) list"
  ed_bank_changed :: bool

definition change :: "string \<Rightarrow> string \<Rightarrow> string \<Rightarrow> bool \<Rightarrow> employee_draft \<Rightarrow> employee_draft" where
  "change field before after personal d =
     d\<lparr>ed_changes := ed_changes d @ [(field, if personal then MaskPII before else before, if personal then MaskPII after else after)]\<rparr>"

definition edit_name :: "string option \<Rightarrow> employee_draft \<Rightarrow> employee_draft res" where
  "edit_name x d =
     (case x of
        None \<Rightarrow> Inr d
      | Some v \<Rightarrow>
          let name = TrimSpace v; old = emp_name (ed_emp d)
          in if name = [] \<or> 200 < length name then Inl (invalidEmployeeUpdate ''name'' ''must be between 1 and 200 characters'')
             else if name \<noteq> old then Inr ((change ''name'' old name False d)\<lparr>ed_emp := (ed_emp d)\<lparr>emp_name := name\<rparr>\<rparr>)
             else Inr d)"

definition edit_email :: "identity_env \<Rightarrow> string option \<Rightarrow> employee_draft \<Rightarrow> employee_draft res" where
  "edit_email env x d =
     (case x of
        None \<Rightarrow> Inr d
      | Some v \<Rightarrow>
          let email = TrimSpace v; old = emp_email (ed_emp d)
          in if \<not> valid_Email env email then Inl (invalidEmployeeUpdate ''email'' ''must be a valid email address'')
             else if email \<noteq> old then Inr ((change ''email'' old email True d)\<lparr>ed_emp := (ed_emp d)\<lparr>emp_email := email\<rparr>\<rparr>)
             else Inr d)"

text \<open>Account and bank code are judged as the pair that results.\<close>

definition edit_bank :: "Currency \<Rightarrow> string option \<Rightarrow> string option \<Rightarrow> employee_draft \<Rightarrow> employee_draft res" where
  "edit_bank currency acct bank d =
     (let oldAcct = emp_account_number (ed_emp d); oldBank = emp_bank_code (ed_emp d);
          newAcct = (case acct of None \<Rightarrow> oldAcct | Some v \<Rightarrow> TrimSpace v);
          newBank = (case bank of None \<Rightarrow> oldBank | Some v \<Rightarrow> TrimSpace v);
          msg = BankDetails currency newAcct newBank
      in if acct = None \<and> bank = None then Inr d
         else if msg \<noteq> [] then Inl (ErrOther msg)
         else
           let d1 = (if newAcct \<noteq> oldAcct
                     then (change ''account_number'' oldAcct newAcct True d)\<lparr>ed_emp := (ed_emp d)\<lparr>emp_account_number := newAcct\<rparr>, ed_bank_changed := True\<rparr>
                     else d)
           in Inr (if newBank \<noteq> oldBank
                   then (change ''bank_code'' oldBank newBank True d1)\<lparr>ed_emp := (ed_emp d1)\<lparr>emp_bank_code := newBank\<rparr>, ed_bank_changed := True\<rparr>
                   else d1))"

definition edit_salary :: "Kobo option \<Rightarrow> employee_draft \<Rightarrow> employee_draft res" where
  "edit_salary x d =
     (case x of
        None \<Rightarrow> Inr d
      | Some v \<Rightarrow>
          if Employee_IsHourly (ed_emp d)
          then Inl (invalidEmployeeUpdate ''salary'' ''does not apply to an hourly employee; set hourly_rate_kobo'')
          else if \<not> Kobo_IsPositive v then Inl (invalidEmployeeUpdate ''salary'' ''must be greater than zero'')
          else if v \<noteq> emp_salary (ed_emp d)
          then Inr ((change ''salary'' (Kobo_String (emp_salary (ed_emp d))) (Kobo_String v) False d)\<lparr>ed_emp := (ed_emp d)\<lparr>emp_salary := v\<rparr>\<rparr>)
          else Inr d)"

definition edit_rate :: "Kobo option \<Rightarrow> employee_draft \<Rightarrow> employee_draft res" where
  "edit_rate x d =
     (case x of
        None \<Rightarrow> Inr d
      | Some v \<Rightarrow>
          if \<not> Employee_IsHourly (ed_emp d)
          then Inl (invalidEmployeeUpdate ''hourly_rate_kobo'' ''does not apply to a salaried employee; set salary'')
          else if \<not> Kobo_IsPositive v then Inl (invalidEmployeeUpdate ''hourly_rate_kobo'' ''must be greater than zero'')
          else if v \<noteq> emp_hourly_rate (ed_emp d)
          then Inr ((change ''hourly_rate_kobo'' (Kobo_String (emp_hourly_rate (ed_emp d))) (Kobo_String v) False d)
                      \<lparr>ed_emp := (ed_emp d)\<lparr>emp_hourly_rate := v\<rparr>\<rparr>)
          else Inr d)"

definition edit_fields :: "identity_env \<Rightarrow> Currency \<Rightarrow> EmployeeUpdate \<Rightarrow> Employee \<Rightarrow> employee_draft res" where
  "edit_fields env currency upd emp =
     rbind (edit_name (ue_name upd) \<lparr>ed_emp = emp, ed_changes = [], ed_bank_changed = False\<rparr>) (\<lambda>d.
     rbind (edit_email env (ue_email upd) d) (\<lambda>d.
     rbind (edit_bank currency (ue_account upd) (ue_bank upd) d) (\<lambda>d.
     rbind (edit_salary (ue_salary upd) d) (edit_rate (ue_rate upd)))))"

text \<open>A login with the unique indexes of its table.\<close>

definition insert_login :: "User \<Rightarrow> User list \<Rightarrow> User list res" where
  "insert_login u rows =
     (if list_ex (\<lambda>r. usr_employee r = usr_employee u \<or> usr_phone r = usr_phone u) rows then Inl ErrUniqueViolation
      else insert_row usr_id u rows)"

definition new_login :: "('z base_db_scheme) \<Rightarrow> string \<Rightarrow> string \<Rightarrow> string \<Rightarrow> User" where
  "new_login db employeeID orgID phone =
     \<lparr>usr_id = fresh_id ''USR-'' db, usr_employee = employeeID, usr_org = orgID, usr_phone = phone, usr_active = True\<rparr>"

text \<open>The phone is the worker's login: the old number when it changed, the draft, the database.\<close>

definition edit_phone ::
  "string \<Rightarrow> string option \<Rightarrow> employee_draft \<Rightarrow> ('z ewa_db_scheme) \<Rightarrow> (string \<times> employee_draft \<times> 'z ewa_db_scheme) res" where
  "edit_phone orgID x d db =
     (case x of
        None \<Rightarrow> Inr ([], d, db)
      | Some v \<Rightarrow>
          let phone = TrimSpace v; i = emp_id (ed_emp d)
          in if \<not> valid_Phone phone then Inl (invalidEmployeeUpdate ''phone'' ''must be in international format, e.g. +2348012345678'')
             else (case find_row (\<lambda>u. usr_employee u = i) (users db) of
                     Inl _ \<Rightarrow>
                       rbind (insert_login (new_login db i orgID phone) (users db)) (\<lambda>rows.
                       Inr ([], change ''phone'' [] phone True d, (take_uuid db)\<lparr>users := rows\<rparr>))
                   | Inr login \<Rightarrow>
                       if usr_phone login = phone then Inr ([], d, db)
                       else if list_ex (\<lambda>u. usr_phone u = phone) (users db) then Inl ErrUniqueViolation
                       else Inr (usr_phone login, change ''phone'' (usr_phone login) phone True d,
                                 db\<lparr>users := update_where (\<lambda>u. usr_id u = usr_id login) (\<lambda>u. u\<lparr>usr_phone := phone\<rparr>) (users db)\<rparr>)))"

definition bank_notice :: "string \<Rightarrow> string \<Rightarrow> string" where
  "bank_notice orgName account =
     ''Your bank details on '' @ orgName @ '' payroll were changed (account ending '' @ last4 account @
     ''). If this was not you, contact your employer now.''"

definition phone_notice :: "string \<Rightarrow> string" where
  "phone_notice orgName =
     ''The phone number on your '' @ orgName @ '' payroll profile was changed. If this was not you, contact your employer now.''"

text \<open>The texts of an update: the login is read again, after the change of its phone.\<close>

definition change_notices :: "bool \<Rightarrow> ('z ewa_db_scheme) \<Rightarrow> string \<Rightarrow> employee_draft \<Rightarrow> string \<Rightarrow> (string \<times> string) list" where
  "change_notices notifier db orgID d phoneChangedFrom =
     (if \<not> notifier then []
      else
        let orgName = (case find_row (\<lambda>o1. org_id o1 = orgID) (organizations db) of Inl _ \<Rightarrow> [] | Inr o1 \<Rightarrow> org_name o1)
        in (if ed_bank_changed d
            then (case find_row (\<lambda>u. usr_employee u = emp_id (ed_emp d)) (users db) of
                    Inl _ \<Rightarrow> []
                  | Inr login \<Rightarrow> if usr_phone login = [] then [] else [(usr_phone login, bank_notice orgName (emp_account_number (ed_emp d)))])
            else []) @
           (if phoneChangedFrom \<noteq> [] then [(phoneChangedFrom, phone_notice orgName)] else []))"

definition save_employee :: "(string \<Rightarrow> string) \<Rightarrow> Employee \<Rightarrow> Employee list \<Rightarrow> Employee list res" where
  "save_employee BlindIndex e rows =
     (if emp_email e \<noteq> [] \<and> list_ex (\<lambda>r. emp_org r = emp_org e \<and> emp_id r \<noteq> emp_id e \<and> emp_email r \<noteq> [] \<and>
                                             BlindIndex (emp_email r) = BlindIndex (emp_email e)) rows
      then Inl ErrUniqueViolation
      else Inr (update_where (\<lambda>r. emp_id r = emp_id e) (\<lambda>_. e) rows))"

fun join_with :: "string \<Rightarrow> string list \<Rightarrow> string" where
  "join_with sep [] = []"
| "join_with sep [s] = s"
| "join_with sep (s # t # ss) = s @ sep @ join_with sep (t # ss)"

definition audit_side :: "((string \<times> string \<times> string) \<Rightarrow> string) \<Rightarrow> (string \<times> string \<times> string) list \<Rightarrow> string" where
  "audit_side side cs = join_with ''; '' (map (\<lambda>c. fst c @ ''='' @ side c) cs)"

definition update_employee_body ::
  "identity_env \<Rightarrow> (string \<Rightarrow> string) \<Rightarrow> bool \<Rightarrow> string \<Rightarrow> string \<Rightarrow> EmployeeUpdate \<Rightarrow> Actor \<Rightarrow> ('z ewa_db_scheme)
     \<Rightarrow> ((Employee \<times> (string \<times> string) list) \<times> 'z ewa_db_scheme) res" where
  "update_employee_body env BlindIndex notifier orgID employeeID upd by db =
     rbind (find_row (\<lambda>e. emp_id e = employeeID \<and> emp_org e = orgID) (employees db)) (\<lambda>emp.
       if \<not> emp_active emp then Inl ErrEmployeeInactive
       else
         rbind (OrgCurrencyTx db orgID) (\<lambda>currency.
         rbind (edit_fields env currency upd emp) (\<lambda>d0.
         rbind (edit_phone orgID (ue_phone upd) d0 db) (\<lambda>(phoneChangedFrom, d, db1).
           let notices = change_notices notifier db1 orgID d phoneChangedFrom
           in if ed_changes d = [] then Inr ((ed_emp d, notices), db1)
              else
                rbind (save_employee BlindIndex (ed_emp d) (employees db1)) (\<lambda>rows.
                rbind (AppendAuditTx (db1\<lparr>employees := rows\<rparr>) orgID ''Employee'' (emp_id (ed_emp d)) ''updated''
                         (audit_side (fst \<circ> snd) (ed_changes d)) (audit_side (snd \<circ> snd) (ed_changes d)) (actor_ip by) (actor_name by)) (\<lambda>db2.
                Inr ((ed_emp d, notices), db2)))))))"

text \<open>\<open>UpdateEmployee\<close>: the employee, the texts sent after the commit, the database.\<close>

definition UpdateEmployee ::
  "identity_env \<Rightarrow> (string \<Rightarrow> string) \<Rightarrow> bool \<Rightarrow> ('z ewa_db_scheme) \<Rightarrow> string \<Rightarrow> string \<Rightarrow> EmployeeUpdate \<Rightarrow> Actor
     \<Rightarrow> Employee res \<times> (string \<times> string) list \<times> ('z ewa_db_scheme)" where
  "UpdateEmployee env BlindIndex notifier db orgID employeeID upd by =
     (if EmployeeUpdate_IsEmpty upd then (Inl (invalidEmployeeUpdate ''body'' ''must name at least one field to change''), [], db)
      else (case WithOrgScope db (update_employee_body env BlindIndex notifier orgID employeeID upd by) of
              (Inl e, db') \<Rightarrow> (Inl e, [], db')
            | (Inr (emp, notices), db') \<Rightarrow> (Inr emp, notices, db')))"

subsection \<open>Creating\<close>

record create_request =
  cr_name :: string
  cr_email :: string
  cr_account :: string
  cr_bank :: string
  cr_bvn :: string
  cr_phone :: string
  cr_wage_type :: string
  cr_salary :: Kobo
  cr_rate :: Kobo

definition wage_type_of :: "create_request \<Rightarrow> WageType res" where
  "wage_type_of req =
     (let ty = (if cr_wage_type req = [] then ''salaried'' else cr_wage_type req)
      in if ty = ''salaried''
         then (if \<not> Kobo_IsPositive (cr_salary req) then Inl (ErrOther ''salary is required for a salaried employee'') else Inr WageSalaried)
         else if ty = ''hourly''
         then (if \<not> Kobo_IsPositive (cr_rate req) then Inl (ErrOther ''hourly_rate_kobo is required for an hourly employee'') else Inr WageHourly)
         else Inl (ErrOther (''wage_type must be '' @ [CHR 0x27] @ ''salaried'' @ [CHR 0x27] @ '' or '' @ [CHR 0x27] @ ''hourly'' @ [CHR 0x27])))"

definition check_create_fields :: "Currency \<Rightarrow> create_request \<Rightarrow> unit res" where
  "check_create_fields currency req =
     (let msg = BankDetails currency (cr_account req) (cr_bank req)
      in if currency = NGN \<and> \<not> valid_BVN (cr_bvn req) then Inl (ErrOther ''bvn is required and must be 11 digits'')
         else if msg \<noteq> [] then Inl (ErrOther msg)
         else if cr_phone req \<noteq> [] \<and> \<not> valid_Phone (cr_phone req) then Inl (ErrOther ''phone must be in international format, e.g. +2348012345678'')
         else Inr ())"

definition insert_employee :: "(string \<Rightarrow> string) \<Rightarrow> Employee \<Rightarrow> Employee list \<Rightarrow> Employee list res" where
  "insert_employee BlindIndex e rows =
     (if list_ex (\<lambda>r. emp_org r = emp_org e \<and> emp_email r \<noteq> [] \<and> BlindIndex (emp_email r) = BlindIndex (emp_email e)) rows
      then Inl ErrUniqueViolation
      else insert_row emp_id e rows)"

text \<open>The transaction: employee, login when a phone is given, consent for a year, audit row.\<close>

definition create_employee_body ::
  "(string \<Rightarrow> string) \<Rightarrow> time \<Rightarrow> string \<Rightarrow> create_request \<Rightarrow> WageType \<Rightarrow> string \<Rightarrow> string \<Rightarrow> ('z ewa_db_scheme)
     \<Rightarrow> (Employee \<times> 'z ewa_db_scheme) res" where
  "create_employee_body BlindIndex now orgID req wt ip agent db =
     (let emp = Employee_BeforeCreate db
            \<lparr>emp_id = [], emp_org = orgID, emp_name = cr_name req, emp_email = cr_email req, emp_account_number = cr_account req,
             emp_bank_code = cr_bank req, emp_salary = cr_salary req, emp_wage_type = wt, emp_hourly_rate = cr_rate req,
             emp_active = True, emp_created_at = now\<rparr>
      in rbind (insert_employee BlindIndex emp (employees db)) (\<lambda>emps.
         let db1 = (take_uuid db)\<lparr>employees := emps\<rparr>
         in rbind (if cr_phone req = [] then Inr db1
                   else rbind (insert_login (new_login db1 (emp_id emp) orgID (cr_phone req)) (users db1)) (\<lambda>rows.
                        Inr ((take_uuid db1)\<lparr>users := rows\<rparr>))) (\<lambda>db2.
            let record = ConsentRecord_BeforeCreate db2
                  \<lparr>con_id = [], con_org = orgID, con_employee = emp_id emp, con_type = ''payroll_processing'', con_granted = True,
                   con_ip = ip, con_agent = agent, con_at = now, con_expires = Some (AddDate now 1 0 0)\<rparr>
            in rbind (insert_row con_id record (consent_records db2)) (\<lambda>cons.
               rbind (AppendAuditTx ((take_uuid db2)\<lparr>consent_records := cons\<rparr>) orgID ''Employee'' (emp_id emp) ''created'' []
                        (emp_name emp) ip []) (\<lambda>db3.
               Inr (emp, db3))))))"

text \<open>\<open>CreateEmployee\<close>: the answer, the BVN checks it queues (organization, employee, number), the database.\<close>

definition CreateEmployee ::
  "(string \<Rightarrow> bool) \<Rightarrow> (string \<Rightarrow> string) \<Rightarrow> time \<Rightarrow> ('z ewa_db_scheme) \<Rightarrow> string \<Rightarrow> create_request \<Rightarrow> string \<Rightarrow> string
     \<Rightarrow> Employee res \<times> (string \<times> string \<times> string) list \<times> ('z ewa_db_scheme)" where
  "CreateEmployee binds_email BlindIndex now db orgID req ip agent =
     (if cr_name req = [] \<or> cr_email req = [] \<or> \<not> binds_email (cr_email req) \<or> cr_account req = [] \<or> cr_bank req = []
      then (Inl (ErrOther ''invalid request body''), [], db)
      else (case rbind (wage_type_of req) (\<lambda>wt. rbind (OrgCurrencyTx db orgID) (\<lambda>c. rbind (check_create_fields c req) (\<lambda>_. Inr (wt, c)))) of
              Inl e \<Rightarrow> (Inl e, [], db)
            | Inr (wt, c) \<Rightarrow>
                (case WithOrgScope db (create_employee_body BlindIndex now orgID req wt ip agent) of
                   (Inl e, db') \<Rightarrow> (Inl e, [], db')
                 | (Inr emp, db') \<Rightarrow> (Inr emp, if c = NGN then [(orgID, emp_id emp, cr_bvn req)] else [], db'))))"

subsection \<open>Library\<close>

lemma edit_name_exact:
  "edit_name x d = Inr d' \<Longrightarrow>
     ed_emp d' = (ed_emp d)\<lparr>emp_name := kept (map_option TrimSpace x) (emp_name (ed_emp d))\<rparr> \<and>
     (ed_changes d' = [] \<longrightarrow> ed_changes d = [] \<and> ed_emp d' = ed_emp d) \<and> ed_bank_changed d' = ed_bank_changed d"
  by (auto simp: edit_name_def change_def Let_def split: option.splits if_splits)

lemma edit_email_exact:
  "edit_email env x d = Inr d' \<Longrightarrow>
     ed_emp d' = (ed_emp d)\<lparr>emp_email := kept (map_option TrimSpace x) (emp_email (ed_emp d))\<rparr> \<and>
     (ed_changes d' = [] \<longrightarrow> ed_changes d = [] \<and> ed_emp d' = ed_emp d) \<and> ed_bank_changed d' = ed_bank_changed d"
  by (auto simp: edit_email_def change_def Let_def split: option.splits if_splits)

lemma edit_bank_exact:
  "edit_bank cur a b d = Inr d' \<Longrightarrow>
     ed_emp d' = (ed_emp d)\<lparr>emp_account_number := kept (map_option TrimSpace a) (emp_account_number (ed_emp d)),
       emp_bank_code := kept (map_option TrimSpace b) (emp_bank_code (ed_emp d))\<rparr> \<and>
     (ed_changes d' = [] \<longrightarrow> ed_changes d = [] \<and> ed_emp d' = ed_emp d) \<and>
     (a \<noteq> None \<or> b \<noteq> None \<longrightarrow> BankDetails cur (emp_account_number (ed_emp d')) (emp_bank_code (ed_emp d')) = []) \<and>
     (ed_bank_changed d' \<longleftrightarrow> ed_bank_changed d \<or> emp_account_number (ed_emp d') \<noteq> emp_account_number (ed_emp d) \<or>
        emp_bank_code (ed_emp d') \<noteq> emp_bank_code (ed_emp d))"
  by (auto simp: edit_bank_def change_def Let_def split: option.splits if_splits)

lemma edit_salary_exact:
  "edit_salary x d = Inr d' \<Longrightarrow>
     ed_emp d' = (ed_emp d)\<lparr>emp_salary := kept x (emp_salary (ed_emp d))\<rparr> \<and>
     (ed_changes d' = [] \<longrightarrow> ed_changes d = [] \<and> ed_emp d' = ed_emp d) \<and> ed_bank_changed d' = ed_bank_changed d \<and>
     pred_option (\<lambda>v. \<not> Employee_IsHourly (ed_emp d) \<and> Kobo_IsPositive v) x"
  by (auto simp: edit_salary_def change_def Let_def split: option.splits if_splits)

lemma edit_rate_exact:
  "edit_rate x d = Inr d' \<Longrightarrow>
     ed_emp d' = (ed_emp d)\<lparr>emp_hourly_rate := kept x (emp_hourly_rate (ed_emp d))\<rparr> \<and>
     (ed_changes d' = [] \<longrightarrow> ed_changes d = [] \<and> ed_emp d' = ed_emp d) \<and> ed_bank_changed d' = ed_bank_changed d \<and>
     pred_option (\<lambda>v. Employee_IsHourly (ed_emp d) \<and> Kobo_IsPositive v) x"
  by (auto simp: edit_rate_def change_def Let_def split: option.splits if_splits)

text \<open>What an update makes of the row: each field given, trimmed, in place of the old one.\<close>

definition edited :: "EmployeeUpdate \<Rightarrow> Employee \<Rightarrow> Employee" where
  "edited u e = e\<lparr>emp_name := kept (map_option TrimSpace (ue_name u)) (emp_name e),
     emp_email := kept (map_option TrimSpace (ue_email u)) (emp_email e),
     emp_account_number := kept (map_option TrimSpace (ue_account u)) (emp_account_number e),
     emp_bank_code := kept (map_option TrimSpace (ue_bank u)) (emp_bank_code e),
     emp_salary := kept (ue_salary u) (emp_salary e), emp_hourly_rate := kept (ue_rate u) (emp_hourly_rate e)\<rparr>"

definition pay_fields_ok :: "Currency \<Rightarrow> EmployeeUpdate \<Rightarrow> Employee \<Rightarrow> bool" where
  "pay_fields_ok cur u e \<longleftrightarrow>
     (ue_account u \<noteq> None \<or> ue_bank u \<noteq> None \<longrightarrow> BankDetails cur (emp_account_number (edited u e)) (emp_bank_code (edited u e)) = []) \<and>
     pred_option (\<lambda>v. emp_wage_type e = WageSalaried \<and> 0 < sint v) (ue_salary u) \<and>
     pred_option (\<lambda>v. emp_wage_type e = WageHourly \<and> 0 < sint v) (ue_rate u)"

lemma edit_fields_exact:
  assumes "edit_fields env cur u emp = Inr d"
  shows "ed_emp d = edited u emp \<and> (ed_changes d = [] \<longrightarrow> edited u emp = emp) \<and> pay_fields_ok cur u emp \<and>
    (ed_bank_changed d \<longleftrightarrow> emp_account_number (edited u emp) \<noteq> emp_account_number emp \<or> emp_bank_code (edited u emp) \<noteq> emp_bank_code emp)"
proof -
  let ?d0 = "\<lparr>ed_emp = emp, ed_changes = [], ed_bank_changed = False\<rparr>"
  from assms obtain d1 d2 d3 d4 where d: "edit_name (ue_name u) ?d0 = Inr d1" "edit_email env (ue_email u) d1 = Inr d2"
    "edit_bank cur (ue_account u) (ue_bank u) d2 = Inr d3" "edit_salary (ue_salary u) d3 = Inr d4" "edit_rate (ue_rate u) d4 = Inr d"
    unfolding edit_fields_def rbind_eq_Inr by blast
  note e = edit_name_exact [OF d(1)] edit_email_exact [OF d(2)] edit_bank_exact [OF d(3)] edit_salary_exact [OF d(4)] edit_rate_exact [OF d(5)]
  have emp: "ed_emp d = edited u emp" using e by (simp add: edited_def)
  moreover have "edited u emp = emp" if none: "ed_changes d = []"
  proof -
    from e(5) none have c4: "ed_changes d4 = []" "ed_emp d = ed_emp d4" by blast+
    from e(4) c4 have c3: "ed_changes d3 = []" "ed_emp d4 = ed_emp d3" by blast+
    from e(3) c3 have c2: "ed_changes d2 = []" "ed_emp d3 = ed_emp d2" by blast+
    from e(2) c2 have c1: "ed_changes d1 = []" "ed_emp d2 = ed_emp d1" by blast+
    from e(1) c1(1) have "ed_emp d1 = ed_emp ?d0" by blast
    then have "ed_emp d1 = emp" unfolding employee_draft.select_convs .
    with c4 c3 c2 c1 emp show ?thesis by metis
  qed
  moreover have "pay_fields_ok cur u emp"
  proof -
    have w: "Employee_IsHourly (ed_emp d3) = (emp_wage_type emp = WageHourly)" "Employee_IsHourly (ed_emp d4) = (emp_wage_type emp = WageHourly)"
      using e by (simp_all add: Employee_IsHourly_def)
    have b: "BankDetails cur (emp_account_number (edited u emp)) (emp_bank_code (edited u emp)) = []"
      if "ue_account u \<noteq> None \<or> ue_bank u \<noteq> None"
    proof -
      have pair: "emp_account_number (edited u emp) = emp_account_number (ed_emp d3)" "emp_bank_code (edited u emp) = emp_bank_code (ed_emp d3)"
        unfolding emp [symmetric] by (simp_all add: e(4,5) [THEN conjunct1])
      show ?thesis unfolding pair using e(3) that by blast
    qed
    have "(t \<noteq> WageHourly) = (t = WageSalaried)" for t by (cases t) simp_all
    then show ?thesis using e(4,5) b unfolding pay_fields_ok_def w by (simp add: Kobo_IsPositive_def sless_sint)
  qed
  moreover have "ed_bank_changed d \<longleftrightarrow> emp_account_number (edited u emp) \<noteq> emp_account_number emp \<or> emp_bank_code (edited u emp) \<noteq> emp_bank_code emp"
    using e by (simp add: edited_def)
  ultimately show ?thesis by blast
qed

lemma edit_phone_exact:
  assumes "edit_phone orgID x d db = Inr (from, d', db')"
  shows "ed_emp d' = ed_emp d \<and> ed_bank_changed d' = ed_bank_changed d \<and> (ed_changes d' = [] \<longrightarrow> ed_changes d = [] \<and> db' = db) \<and>
    employees db' = employees db \<and> audit_events db' = audit_events db \<and> organizations db' = organizations db \<and>
    pred_option (\<lambda>v. valid_Phone (TrimSpace v)) x"
  using assms
  by (auto simp: edit_phone_def Let_def change_def go_results insert_login_def split: option.splits sum.splits if_splits)

lemma UpdateEmployee_body_Inr:
  assumes "update_employee_body env BlindIndex notifier orgID employeeID u by db = Inr ((emp', notices), db')"
  shows "\<exists>emp cur d0 phoneChangedFrom d db1. find_row (\<lambda>e. emp_id e = employeeID \<and> emp_org e = orgID) (employees db) = Inr emp \<and> emp_active emp \<and>
    OrgCurrencyTx db orgID = Inr cur \<and> edit_fields env cur u emp = Inr d0 \<and>
    edit_phone orgID (ue_phone u) d0 db = Inr (phoneChangedFrom, d, db1) \<and>
    notices = change_notices notifier db1 orgID d phoneChangedFrom \<and> emp' = ed_emp d \<and>
    (if ed_changes d = [] then db' = db1
     else \<exists>a. db' = db1\<lparr>employees := update_where (\<lambda>r. emp_id r = emp_id emp') (\<lambda>_. emp') (employees db1), uuid_next := Suc (uuid_next db1),
                      audit_events := audit_events db1 @ [a]\<rparr> \<and>
         aud_entity_id a = emp_id emp' \<and> aud_before a = audit_side (fst \<circ> snd) (ed_changes d) \<and> aud_after a = audit_side (snd \<circ> snd) (ed_changes d))"
proof -
  from assms obtain emp cur d0 phoneChangedFrom d db1 where s:
    "find_row (\<lambda>e. emp_id e = employeeID \<and> emp_org e = orgID) (employees db) = Inr emp" "emp_active emp"
    "OrgCurrencyTx db orgID = Inr cur" "edit_fields env cur u emp = Inr d0"
    "edit_phone orgID (ue_phone u) d0 db = Inr (phoneChangedFrom, d, db1)"
    and rest: "(let notices = change_notices notifier db1 orgID d phoneChangedFrom
           in if ed_changes d = [] then Inr ((ed_emp d, notices), db1)
              else rbind (save_employee BlindIndex (ed_emp d) (employees db1)) (\<lambda>rows.
                rbind (AppendAuditTx (db1\<lparr>employees := rows\<rparr>) orgID ''Employee'' (emp_id (ed_emp d)) ''updated''
                         (audit_side (fst \<circ> snd) (ed_changes d)) (audit_side (snd \<circ> snd) (ed_changes d)) (actor_ip by) (actor_name by)) (\<lambda>db2.
                Inr ((ed_emp d, notices), db2)))) = Inr ((emp', notices), db')"
    unfolding update_employee_body_def by (auto simp: go_results split: if_splits)
  from rest have "notices = change_notices notifier db1 orgID d phoneChangedFrom \<and> emp' = ed_emp d \<and>
    (if ed_changes d = [] then db' = db1
     else \<exists>a. db' = db1\<lparr>employees := update_where (\<lambda>r. emp_id r = emp_id emp') (\<lambda>_. emp') (employees db1), uuid_next := Suc (uuid_next db1),
                      audit_events := audit_events db1 @ [a]\<rparr> \<and>
         aud_entity_id a = emp_id emp' \<and> aud_before a = audit_side (fst \<circ> snd) (ed_changes d) \<and> aud_after a = audit_side (snd \<circ> snd) (ed_changes d))"
    by (auto simp: Let_def save_employee_def go_results split: if_splits dest!: AppendAuditTx_Inr)
  with s show ?thesis by blast
qed

text \<open>
  An update edits one active employee of the organization and nobody else: the fields given, trimmed, with pay details
  that pass the rules of the currency and of the wage type; a row that changes leaves one audit row; a refused update
  writes nothing and texts nobody.
\<close>

theorem employee_update_exact:
  assumes run: "UpdateEmployee env BlindIndex notifier db orgID employeeID u by = (r, notices, db')"
    and ids: "distinct (map emp_id (employees db))"
  shows "case r of Inl e \<Rightarrow> db' = db \<and> notices = []
    | Inr emp' \<Rightarrow> \<exists>emp cur. find_row (\<lambda>e. emp_id e = employeeID \<and> emp_org e = orgID) (employees db) = Inr emp \<and> emp_active emp \<and>
        OrgCurrencyTx db orgID = Inr cur \<and> emp' = edited u emp \<and> pay_fields_ok cur u emp \<and>
        employees db' = update_where (\<lambda>e. emp_id e = employeeID) (\<lambda>_. emp') (employees db) \<and>
        (emp' \<noteq> emp \<longrightarrow> (\<exists>a. audit_events db' = audit_events db @ [a] \<and> aud_entity_id a = employeeID))"
proof (cases r)
  case (Inl e)
  then show ?thesis using run by (auto simp: UpdateEmployee_def WithOrgScope_def split: if_splits sum.splits prod.splits)
next
  case (Inr emp')
  then have "update_employee_body env BlindIndex notifier orgID employeeID u by db = Inr ((emp', notices), db')"
    using run by (auto simp: UpdateEmployee_def WithOrgScope_def split: if_splits sum.splits prod.splits)
  from UpdateEmployee_body_Inr [OF this] obtain emp cur d0 phoneChangedFrom d db1 where s:
    "find_row (\<lambda>e. emp_id e = employeeID \<and> emp_org e = orgID) (employees db) = Inr emp" "emp_active emp"
    "OrgCurrencyTx db orgID = Inr cur" "edit_fields env cur u emp = Inr d0"
    "edit_phone orgID (ue_phone u) d0 db = Inr (phoneChangedFrom, d, db1)" "emp' = ed_emp d"
    and rest: "if ed_changes d = [] then db' = db1
     else \<exists>a. db' = db1\<lparr>employees := update_where (\<lambda>r. emp_id r = emp_id emp') (\<lambda>_. emp') (employees db1), uuid_next := Suc (uuid_next db1),
                      audit_events := audit_events db1 @ [a]\<rparr> \<and>
         aud_entity_id a = emp_id emp' \<and> aud_before a = audit_side (fst \<circ> snd) (ed_changes d) \<and> aud_after a = audit_side (snd \<circ> snd) (ed_changes d)"
    by blast
  note f = edit_fields_exact [OF s(4)] and ph = edit_phone_exact [OF s(5)]
  have emp: "emp \<in> set (employees db)" "emp_id emp = employeeID" using find_row_Inr [OF s(1)] by auto
  have emp': "emp' = edited u emp" using s(6) f ph by simp
  then have id': "emp_id emp' = employeeID" using emp by (simp add: edited_def)
  have "employees db' = update_where (\<lambda>e. emp_id e = employeeID) (\<lambda>_. emp') (employees db) \<and>
    (emp' \<noteq> emp \<longrightarrow> (\<exists>a. audit_events db' = audit_events db @ [a] \<and> aud_entity_id a = employeeID))"
  proof (cases "ed_changes d = []")
    case True
    then have same: "emp' = emp" "db' = db" using f ph emp' rest by auto
    have "e = emp" if "e \<in> set (employees db)" "emp_id e = employeeID" for e
      using that emp ids by (simp add: distinct_map inj_on_def)
    then have "update_where (\<lambda>e. emp_id e = employeeID) (\<lambda>_. emp') (employees db) = employees db"
      by (simp add: update_where_def same) (rule map_idI, simp)
    then show ?thesis by (simp add: same)
  next
    case False
    then show ?thesis using rest ph id' by auto
  qed
  then show ?thesis using Inr s f emp' by auto
qed

lemma find_map_same: "(\<And>x. P (f x) = P x) \<Longrightarrow> find P (map f xs) = map_option f (find P xs)"
  by (induction xs) auto

text \<open>
  When one update changes the bank details and the phone, the text about the bank details goes to the new phone: the
  login is read again after its phone was changed. The old phone is told only that the number changed.
\<close>

theorem bank_notice_to_new_phone:
  assumes run: "UpdateEmployee env BlindIndex True db orgID employeeID u by = (Inr emp', notices, db')"
    and emp: "find_row (\<lambda>e. emp_id e = employeeID \<and> emp_org e = orgID) (employees db) = Inr emp"
    and login: "find_row (\<lambda>l. usr_employee l = employeeID) (users db) = Inr login" "usr_phone login \<noteq> []"
    and phone: "ue_phone u = Some v" "TrimSpace v \<noteq> usr_phone login"
    and bank: "emp_account_number emp' \<noteq> emp_account_number emp"
  shows "\<exists>orgName. notices = [(TrimSpace v, bank_notice orgName (emp_account_number emp')), (usr_phone login, phone_notice orgName)]"
proof -
  from run have "update_employee_body env BlindIndex True orgID employeeID u by db = Inr ((emp', notices), db')"
    by (auto simp: UpdateEmployee_def WithOrgScope_def split: if_splits sum.splits prod.splits)
  from UpdateEmployee_body_Inr [OF this] obtain cur d0 phoneChangedFrom d db1 where s:
    "edit_fields env cur u emp = Inr d0" "edit_phone orgID (ue_phone u) d0 db = Inr (phoneChangedFrom, d, db1)"
    "notices = change_notices True db1 orgID d phoneChangedFrom" "emp' = ed_emp d" using emp by auto
  note f = edit_fields_exact [OF s(1)] and ph = edit_phone_exact [OF s(2)]
  have id: "emp_id (ed_emp d0) = employeeID" "emp_id (ed_emp d) = employeeID"
    using f ph find_row_Inr [OF emp] by (auto simp: edited_def)
  have changed: "ed_bank_changed d" using f ph bank s(4) by simp
  have db1: "phoneChangedFrom = usr_phone login"
    "users db1 = update_where (\<lambda>l. usr_id l = usr_id login) (\<lambda>l. l\<lparr>usr_phone := TrimSpace v\<rparr>) (users db)"
    using s(2) login phone id by (auto simp: edit_phone_def Let_def split: if_splits)
  have valid: "TrimSpace v \<noteq> []" using ph phone by (auto simp: valid_Phone_def)
  have "find (\<lambda>l. usr_employee l = employeeID) (users db) = Some login"
    using login by (simp add: find_row_def split: option.splits)
  then have "find_row (\<lambda>l. usr_employee l = employeeID) (users db1) = Inr (login\<lparr>usr_phone := TrimSpace v\<rparr>)"
    by (simp add: db1 update_where_def find_row_def find_map_same)
  then show ?thesis using changed valid login(2) by (simp add: s(3,4) change_notices_def id db1 Let_def) blast
qed

lemma create_employee_body_Inr:
  assumes "create_employee_body BlindIndex now orgID req wt ip agent db = Inr (emp, db')"
  shows "emp_org emp = orgID \<and> emp_name emp = cr_name req \<and> emp_account_number emp = cr_account req \<and> emp_bank_code emp = cr_bank req \<and>
    emp_wage_type emp = wt \<and> emp_salary emp = cr_salary req \<and> emp_hourly_rate emp = cr_rate req \<and> emp_active emp \<and>
    emp_id emp \<notin> emp_id ` set (employees db) \<and> employees db' = employees db @ [emp] \<and>
    (\<exists>c. consent_records db' = consent_records db @ [c] \<and> con_org c = orgID \<and> con_employee c = emp_id emp \<and>
       con_type c = ''payroll_processing'' \<and> con_granted c \<and> con_expires c = Some (AddDate now 1 0 0)) \<and>
    (if cr_phone req = [] then users db' = users db
     else \<exists>l. users db' = users db @ [l] \<and> usr_employee l = emp_id emp \<and> usr_org l = orgID \<and> usr_phone l = cr_phone req)"
  using assms
  by (auto simp: create_employee_body_def Let_def go_results insert_employee_def insert_login_def new_login_def Employee_BeforeCreate_def
      ConsentRecord_BeforeCreate_def list_ex_iff take_uuid_def split: if_splits dest!: AppendAuditTx_Inr)

text \<open>
  Creating an employee is all or nothing: on success one row with a fresh key and valid pay details, the consent that
  lets payroll run for a year, a login exactly when a phone was given, and a BVN check exactly for a naira
  organization; on an error nothing is written and nothing queued.
\<close>

theorem employee_created_exact:
  assumes run: "CreateEmployee binds_email BlindIndex now db orgID req ip agent = (r, bvn, db')"
    and fk: "\<forall>c \<in> set (consent_records db). con_employee c \<in> emp_id ` set (employees db)"
  shows "case r of Inl e \<Rightarrow> db' = db \<and> bvn = []
    | Inr emp \<Rightarrow> \<exists>cur. OrgCurrencyTx db orgID = Inr cur \<and> check_create_fields cur req = Inr () \<and> wage_type_of req = Inr (emp_wage_type emp) \<and>
        employees db' = employees db @ [emp] \<and> emp_id emp \<notin> emp_id ` set (employees db) \<and> emp_org emp = orgID \<and> emp_active emp \<and>
        (\<forall>later. HasActiveConsent later db' orgID (emp_id emp) ''payroll_processing'' = (later < AddDate now 1 0 0)) \<and>
        (cr_phone req = [] \<longrightarrow> users db' = users db) \<and>
        (cr_phone req \<noteq> [] \<longrightarrow> (\<exists>l. users db' = users db @ [l] \<and> usr_employee l = emp_id emp \<and> usr_phone l = cr_phone req)) \<and>
        bvn = (if cur = NGN then [(orgID, emp_id emp, cr_bvn req)] else [])"
proof (cases r)
  case (Inl e)
  then show ?thesis using run by (auto simp: CreateEmployee_def WithOrgScope_def split: if_splits sum.splits prod.splits)
next
  case (Inr emp)
  then obtain wt cur where w: "wage_type_of req = Inr wt" "OrgCurrencyTx db orgID = Inr cur" "check_create_fields cur req = Inr ()"
    "create_employee_body BlindIndex now orgID req wt ip agent db = Inr (emp, db')"
    "bvn = (if cur = NGN then [(orgID, emp_id emp, cr_bvn req)] else [])"
    using run by (auto simp: CreateEmployee_def WithOrgScope_def go_results split: if_splits sum.splits prod.splits)
  note b = create_employee_body_Inr [OF w(4)]
  then obtain c where c: "consent_records db' = consent_records db @ [c]" "con_org c = orgID" "con_employee c = emp_id emp"
    "con_type c = ''payroll_processing''" "con_granted c" "con_expires c = Some (AddDate now 1 0 0)" by blast
  have "emp_id emp \<notin> emp_id ` set (employees db)" using b by blast
  then have "con_employee x \<noteq> emp_id emp" if "x \<in> set (consent_records db)" for x using fk that by metis
  then have "first_by (\<lambda>c. (- con_at c, con_id c))
      (\<lambda>c. con_org c = orgID \<and> con_employee c = emp_id emp \<and> con_type c = ''payroll_processing'') (consent_records db') = Inr c"
    using c by (intro first_by_unique) auto
  then have "HasActiveConsent later db' orgID (emp_id emp) ''payroll_processing'' = (later < AddDate now 1 0 0)" for later
    using c by (simp add: HasActiveConsent_def)
  then show ?thesis using Inr w b by (auto split: if_splits)
qed

definition demo_identity :: identity_env where
  "demo_identity = \<lparr>ie_lower = id, ie_address = (\<lambda>s. Some s), ie_hash = Inr, ie_matches = (=), ie_dummy_hash = []\<rparr>"

definition demo_staff :: ewa_db where
  "demo_staff = ewa_db.truncate demo_link\<lparr>users := [\<lparr>usr_id = ''USR-1'', usr_employee = ''EMP-h'', usr_org = ''ORG-1'',
     usr_phone = ''+2348012345678'', usr_active = True\<rparr>]\<rparr>"

definition demo_takeover :: EmployeeUpdate where
  "demo_takeover = \<lparr>ue_name = None, ue_email = None, ue_phone = Some ''+2348087654321'', ue_account = Some ''9999999999'',
     ue_bank = Some ''058'', ue_salary = None, ue_rate = None\<rparr>"

definition demo_update :: "Employee res \<times> (string \<times> string) list \<times> ewa_db" where
  "demo_update = UpdateEmployee demo_identity id True demo_staff ''ORG-1'' ''EMP-h'' demo_takeover \<lparr>actor_name = ''a'', actor_ip = ''i''\<rparr>"

lemma demo_update_run:
  obtains e ns db where "demo_update = (Inr e, ns, db)" "emp_account_number e = ''9999999999''"
proof -
  have "case demo_update of (Inr e, _) \<Rightarrow> emp_account_number e = ''9999999999'' | _ \<Rightarrow> False" by code_simp
  moreover obtain r ns d where "demo_update = (r, ns, d)" by (metis prod_cases3)
  ultimately show thesis using that by (auto split: sum.splits)
qed

theorem employee_update_exact_witness:
  "\<exists>e ns db. demo_update = (Inr e, ns, db) \<and> emp_account_number e = ''9999999999'' \<and>
     employees db = update_where (\<lambda>e. emp_id e = ''EMP-h'') (\<lambda>_. e) (employees demo_staff)"
proof -
  obtain e ns db where run: "demo_update = (Inr e, ns, db)" "emp_account_number e = ''9999999999''" by (rule demo_update_run)
  have "distinct (map emp_id (employees demo_staff))" by code_simp
  from employee_update_exact [OF run(1) [unfolded demo_update_def] this] run show ?thesis by auto
qed

theorem bank_notice_to_new_phone_witness:
  "\<exists>e ns db orgName. demo_update = (Inr e, ns, db) \<and>
     ns = [(''+2348087654321'', bank_notice orgName ''9999999999''), (''+2348012345678'', phone_notice orgName)]"
proof -
  obtain e ns db where run: "demo_update = (Inr e, ns, db)" "emp_account_number e = ''9999999999''" by (rule demo_update_run)
  let ?emp = "demo_hourly\<lparr>emp_hourly_rate := 60000\<rparr>"
  have staff: "employees demo_staff = employees demo_link" by (simp add: demo_staff_def ewa_db.truncate_def)
  have login: "users demo_staff = [\<lparr>usr_id = ''USR-1'', usr_employee = ''EMP-h'', usr_org = ''ORG-1'',
     usr_phone = ''+2348012345678'', usr_active = True\<rparr>]" by (simp add: demo_staff_def)
  have acct: "emp_account_number ?emp \<noteq> ''9999999999''" by code_simp
  have trim: "TrimSpace ''+2348087654321'' = ''+2348087654321''" by code_simp
  have "\<exists>orgName. ns = [(TrimSpace ''+2348087654321'', bank_notice orgName (emp_account_number e)),
      (usr_phone (hd (users demo_staff)), phone_notice orgName)]"
    by (rule bank_notice_to_new_phone [OF run(1) [unfolded demo_update_def], of ?emp])
       (use demo_link_facts(5) acct run(2) in \<open>simp_all add: staff trim login demo_takeover_def find_row_def\<close>)
  then show ?thesis using run by (auto simp: trim login)
qed

definition demo_request_to_hire :: create_request where
  "demo_request_to_hire = \<lparr>cr_name = ''Ada'', cr_email = ''ada@b.ng'', cr_account = ''0123456789'', cr_bank = ''058'',
     cr_bvn = ''12345678901'', cr_phone = ''+2348087654321'', cr_wage_type = [], cr_salary = 10000000, cr_rate = 0\<rparr>"

theorem employee_created_exact_witness:
  "\<exists>e bvn db. CreateEmployee (\<lambda>_. True) id 0 demo_staff ''ORG-1'' demo_request_to_hire ''i'' ''a'' = (Inr e, bvn, db) \<and>
     employees db = employees demo_staff @ [e] \<and> length (users db) = 2 \<and> length bvn = 1 \<and>
     HasActiveConsent 1 db ''ORG-1'' (emp_id e) ''payroll_processing''"
proof -
  let ?run = "CreateEmployee (\<lambda>_. True) id 0 demo_staff ''ORG-1'' demo_request_to_hire ''i'' ''a''"
  have "case ?run of (Inr _, _) \<Rightarrow> True | _ \<Rightarrow> False" by code_simp
  then obtain e bvn db where run: "?run = (Inr e, bvn, db)" by (cases ?run) (auto split: sum.splits)
  have fk: "\<forall>c \<in> set (consent_records demo_staff). con_employee c \<in> emp_id ` set (employees demo_staff)" by code_simp
  have cur: "OrgCurrencyTx demo_staff ''ORG-1'' = Inr NGN" by code_simp
  have year: "1 < AddDate 0 1 0 0" by code_simp
  have one: "length (users demo_staff) = 1" "cr_phone demo_request_to_hire \<noteq> []" by code_simp+
  from employee_created_exact [OF run fk] cur year one run show ?thesis by auto
qed

end
