(* ===== verification/Employer_Dashboard.thy ===== *)
theory Employer_Dashboard
  imports EWA_Service Payroll_Service
begin

text \<open>
  The employer's aggregate view of its workforce (\<open>employer_dashboard_service.go\<close>): dependency tiers counted over the
  active employees, with buckets below ten hidden, and a second one when exactly one would be hidden.
\<close>

definition MinKAnonymity :: int where "MinKAnonymity = 10"

record TierCount =
  tc_tier :: DependencyTier
  tc_count :: "int option"
  tc_percent :: "float64 option"
  tc_suppressed :: bool

record WorkforceDependencyReport =
  wd_org :: string
  wd_as_of :: time
  wd_active :: int
  wd_suppressed :: bool
  wd_breakdown :: "TierCount list"

definition allDependencyTiers :: "DependencyTier list" where
  "allDependencyTiers = [TierHealthy, TierElevated, TierStrained, TierDependent]"

text \<open>\<open>math.Round\<close> of a non-negative number: half away from zero.\<close>

definition round_half_up :: "float64 \<Rightarrow> float64" where
  "round_half_up x = rnd64 (of_int (if x - of_int \<lfloor>x\<rfloor> < 1 / 2 then \<lfloor>x\<rfloor> else \<lfloor>x\<rfloor> + 1))"

definition percentOf :: "int \<Rightarrow> int \<Rightarrow> float64" where
  "percentOf c whole =
     (if whole = 0 then 0
      else fdiv (round_half_up (fmul (fdiv (float64_of_int c) (float64_of_int whole)) 1000)) 10)"

subsection \<open>The breakdown\<close>

definition primary_hidden :: "(DependencyTier \<Rightarrow> int) \<Rightarrow> DependencyTier list" where
  "primary_hidden counts = filter (\<lambda>t. 0 < counts t \<and> counts t < MinKAnonymity) allDependencyTiers"

text \<open>The loop for the second bucket: the candidate so far and its count.\<close>

fun pick_secondary :: "(DependencyTier \<Rightarrow> int) \<Rightarrow> DependencyTier list \<Rightarrow> DependencyTier list \<Rightarrow> DependencyTier option \<Rightarrow> int \<Rightarrow> DependencyTier option" where
  "pick_secondary counts hidden [] sec n = sec"
| "pick_secondary counts hidden (t # ts) sec n =
     (if t \<in> set hidden then pick_secondary counts hidden ts sec n
      else if n = -1 \<or> counts t < n then pick_secondary counts hidden ts (Some t) (counts t)
      else pick_secondary counts hidden ts sec n)"

definition hidden_tiers :: "(DependencyTier \<Rightarrow> int) \<Rightarrow> DependencyTier list" where
  "hidden_tiers counts =
     (let hidden = primary_hidden counts
      in if length hidden = 1
         then (case pick_secondary counts hidden allDependencyTiers None (-1) of None \<Rightarrow> hidden | Some t \<Rightarrow> t # hidden)
         else hidden)"

definition tier_bucket :: "(DependencyTier \<Rightarrow> int) \<Rightarrow> int \<Rightarrow> DependencyTier list \<Rightarrow> DependencyTier \<Rightarrow> TierCount" where
  "tier_bucket counts whole hidden t =
     (if t \<in> set hidden then \<lparr>tc_tier = t, tc_count = None, tc_percent = None, tc_suppressed = True\<rparr>
      else \<lparr>tc_tier = t, tc_count = Some (counts t), tc_percent = Some (percentOf (counts t) whole), tc_suppressed = False\<rparr>)"

definition buildBreakdown :: "(DependencyTier \<Rightarrow> int) \<Rightarrow> int \<Rightarrow> TierCount list" where
  "buildBreakdown counts whole = map (tier_bucket counts whole (hidden_tiers counts)) allDependencyTiers"

subsection \<open>The report\<close>

fun count_tiers :: "(Employee \<Rightarrow> DependencyTier res) \<Rightarrow> Employee list \<Rightarrow> (DependencyTier \<Rightarrow> int) \<Rightarrow> (DependencyTier \<Rightarrow> int) res" where
  "count_tiers tier_of [] counts = Inr counts"
| "count_tiers tier_of (e # es) counts =
     rbind (tier_of e) (\<lambda>t. count_tiers tier_of es (counts(t := counts t + 1)))"

definition GetWorkforceDependencyReport :: "('z time_db_scheme) \<Rightarrow> string \<Rightarrow> time \<Rightarrow> WorkforceDependencyReport res" where
  "GetWorkforceDependencyReport db orgID asOf =
     (let emps = FindAllActive db orgID; n = int (length emps);
          report = \<lparr>wd_org = orgID, wd_as_of = asOf, wd_active = n, wd_suppressed = False, wd_breakdown = []\<rparr>
      in if n < MinKAnonymity then Inr (report\<lparr>wd_suppressed := True\<rparr>)
         else
           rbind (count_tiers (\<lambda>e. currentDependencyTierTx db orgID (emp_id e) e asOf) emps (\<lambda>_. 0)) (\<lambda>counts.
           Inr (report\<lparr>wd_breakdown := buildBreakdown counts n\<rparr>)))"

subsection \<open>What a report gives away\<close>

definition tier_total :: "(DependencyTier \<Rightarrow> int) \<Rightarrow> int" where
  "tier_total counts = sum_list (map counts allDependencyTiers)"

lemma tier_total: "tier_total c = c TierHealthy + c TierElevated + c TierStrained + c TierDependent"
  by (simp add: tier_total_def allDependencyTiers_def)

lemma all_tiers: "t \<in> set allDependencyTiers"
  by (cases t) (simp_all add: allDependencyTiers_def)

lemma count_tiers_exact:
  "count_tiers f es c = Inr c' \<Longrightarrow>
     (\<forall>t. c' t = c t + int (length (filter (\<lambda>e. f e = Inr t) es))) \<and> tier_total c' = tier_total c + int (length es)"
proof (induction es arbitrary: c)
  case (Cons e es)
  then obtain t where t: "f e = Inr t" "count_tiers f es (c(t := c t + 1)) = Inr c'" by (auto simp: go_results)
  from Cons.IH [OF t(2)] show ?case using t(1) by (cases t) (auto simp: tier_total)
qed (simp add: tier_total)

lemma pick_secondary_some:
  "pick_secondary c hidden ts sec n = Some t \<Longrightarrow> sec = Some t \<or> (t \<in> set ts \<and> t \<notin> set hidden)"
  by (induction c hidden ts sec n rule: pick_secondary.induct) (auto split: if_splits)

lemma pick_secondary_none:
  "pick_secondary c hidden ts sec n = None \<Longrightarrow> sec = None \<and> (n = -1 \<longrightarrow> set ts \<subseteq> set hidden)"
  by (induction c hidden ts sec n rule: pick_secondary.induct) (auto split: if_splits)

lemma primary_distinct: "distinct (primary_hidden c)"
  by (simp add: primary_hidden_def allDependencyTiers_def)

lemma hidden_count: "distinct (hidden_tiers c) \<and> length (hidden_tiers c) \<noteq> 1 \<and> set (primary_hidden c) \<subseteq> set (hidden_tiers c)"
proof (cases "length (primary_hidden c) = 1")
  case True
  then obtain h where h: "primary_hidden c = [h]" by (auto simp: length_Suc_conv)
  show ?thesis
  proof (cases "pick_secondary c (primary_hidden c) allDependencyTiers None (-1)")
    case None
    from pick_secondary_none [OF this] h have "set allDependencyTiers \<subseteq> {h}" by simp
    then show ?thesis by (cases h) (auto simp: allDependencyTiers_def)
  next
    case (Some t)
    from pick_secondary_some [OF Some] h have "t \<noteq> h" by auto
    then show ?thesis using h Some by (simp add: hidden_tiers_def)
  qed
next
  case False
  then show ?thesis using primary_distinct by (simp add: hidden_tiers_def)
qed

lemma breakdown_bucket:
  assumes "b \<in> set (buildBreakdown c n)"
  shows "case tc_count b of None \<Rightarrow> tc_suppressed b \<and> tc_percent b = None
    | Some k \<Rightarrow> \<not> tc_suppressed b \<and> k = c (tc_tier b) \<and> (k \<le> 0 \<or> MinKAnonymity \<le> k) \<and> tc_percent b = Some (percentOf k n)"
proof -
  obtain t where t: "b = tier_bucket c n (hidden_tiers c) t" using assms by (auto simp: buildBreakdown_def)
  have "c t \<le> 0 \<or> MinKAnonymity \<le> c t" if "t \<notin> set (hidden_tiers c)"
    using hidden_count [of c] that all_tiers [of t] by (auto simp: primary_hidden_def not_less)
  then show ?thesis by (simp add: t tier_bucket_def)
qed

lemma hidden_buckets: "length (filter tc_suppressed (buildBreakdown c n)) = length (hidden_tiers c)"
proof -
  have "filter tc_suppressed (buildBreakdown c n) =
      map (tier_bucket c n (hidden_tiers c)) (filter (\<lambda>t. t \<in> set (hidden_tiers c)) allDependencyTiers)"
    by (simp add: buildBreakdown_def filter_map o_def tier_bucket_def)
  moreover have "set (filter (\<lambda>t. t \<in> set (hidden_tiers c)) allDependencyTiers) = set (hidden_tiers c)"
    using all_tiers by auto
  then have "length (filter (\<lambda>t. t \<in> set (hidden_tiers c)) allDependencyTiers) = length (hidden_tiers c)"
    using hidden_count [of c] distinct_card [of "hidden_tiers c"] distinct_card [of "filter (\<lambda>t. t \<in> set (hidden_tiers c)) allDependencyTiers"]
    by (simp add: allDependencyTiers_def)
  ultimately show ?thesis by simp
qed

text \<open>
  C39: what an employer sees of its workforce: nothing but the head count below ten active employees; otherwise one
  bucket per tier, each exact count shown being zero or at least ten, and never exactly one bucket hidden, so that no
  hidden count follows from the shown ones and the head count by subtraction alone.
\<close>

theorem dashboard_k_anonymous:
  assumes run: "GetWorkforceDependencyReport db orgID asOf = Inr r"
  shows "wd_active r = int (length (FindAllActive db orgID)) \<and>
    (if wd_active r < MinKAnonymity then wd_suppressed r \<and> wd_breakdown r = []
     else \<exists>counts. tier_total counts = wd_active r \<and>
       (\<forall>t. counts t = int (length (filter (\<lambda>e. currentDependencyTierTx db orgID (emp_id e) e asOf = Inr t) (FindAllActive db orgID)))) \<and>
       map tc_tier (wd_breakdown r) = allDependencyTiers \<and> length (filter tc_suppressed (wd_breakdown r)) \<noteq> 1 \<and>
       (\<forall>b \<in> set (wd_breakdown r). case tc_count b of None \<Rightarrow> tc_suppressed b \<and> tc_percent b = None
          | Some k \<Rightarrow> k = counts (tc_tier b) \<and> (k = 0 \<or> MinKAnonymity \<le> k)))"
proof (cases "int (length (FindAllActive db orgID)) < MinKAnonymity")
  case True
  then show ?thesis using run by (auto simp: GetWorkforceDependencyReport_def Let_def)
next
  case False
  then obtain counts where counts: "count_tiers (\<lambda>e. currentDependencyTierTx db orgID (emp_id e) e asOf) (FindAllActive db orgID) (\<lambda>_. 0) = Inr counts"
    and r: "wd_active r = int (length (FindAllActive db orgID))" "wd_breakdown r = buildBreakdown counts (int (length (FindAllActive db orgID)))"
    using run by (auto simp: GetWorkforceDependencyReport_def Let_def go_results)
  note c = count_tiers_exact [OF counts]
  have nonneg: "0 \<le> counts t" for t using c by simp
  have "map tc_tier (wd_breakdown r) = allDependencyTiers"
    by (simp add: r buildBreakdown_def tier_bucket_def o_def if_distrib cong: if_cong)
  moreover have "case tc_count b of None \<Rightarrow> tc_suppressed b \<and> tc_percent b = None
          | Some k \<Rightarrow> k = counts (tc_tier b) \<and> (k = 0 \<or> MinKAnonymity \<le> k)" if "b \<in> set (wd_breakdown r)" for b
    using breakdown_bucket [OF that [unfolded r]] nonneg [of "tc_tier b"] by (auto split: option.splits)
  moreover have "length (filter tc_suppressed (wd_breakdown r)) \<noteq> 1" using hidden_buckets hidden_count by (simp add: r)
  moreover have "tier_total counts = wd_active r" using c [THEN conjunct2] by (simp add: r) (simp add: tier_total)
  ultimately show ?thesis using False c r(1) by auto
qed

text \<open>
  Complementary suppression hides the first of the smallest buckets, and which bucket it picks is itself a sign. When
  everybody but one worker is healthy and the one is dependent, no other workforce has this report: the reader learns
  that exactly one worker is dependent and none has elevated use.
\<close>

theorem hidden_tier_recovered:
  assumes n: "10 \<le> n" and c: "\<And>t. 0 \<le> c t" "tier_total c = n + 1"
    and same: "buildBreakdown c (n + 1) = buildBreakdown ((\<lambda>_. 0)(TierHealthy := n, TierDependent := 1)) (n + 1)"
  shows "c TierDependent = 1 \<and> c TierElevated = 0"
proof -
  let ?d = "(\<lambda>_. 0)(TierHealthy := n, TierDependent := 1)"
  have hd: "hidden_tiers ?d = [TierElevated, TierDependent]"
    using n by (simp add: hidden_tiers_def primary_hidden_def allDependencyTiers_def MinKAnonymity_def)
  have eq: "tier_bucket c (n + 1) (hidden_tiers c) t = tier_bucket ?d (n + 1) (hidden_tiers ?d) t" for t
    using same all_tiers [of t] unfolding buildBreakdown_def by (meson map_eq_conv)
  have hidden: "t \<in> set (hidden_tiers c) \<longleftrightarrow> t = TierElevated \<or> t = TierDependent" for t
    using arg_cong [OF eq [of t], of tc_suppressed] by (simp add: tier_bucket_def hd split: if_splits)
  have shown: "c TierHealthy = n" "c TierStrained = 0"
    using arg_cong [OF eq [of TierHealthy], of tc_count] arg_cong [OF eq [of TierStrained], of tc_count] hidden
    by (simp_all add: tier_bucket_def hd)
  then have sum: "c TierElevated + c TierDependent = 1" using c(2) by (simp add: tier_total)
  have "c TierElevated \<noteq> 1"
  proof
    assume e: "c TierElevated = 1"
    then have "hidden_tiers c = [TierStrained, TierElevated]"
      using sum shown n by (simp add: hidden_tiers_def primary_hidden_def allDependencyTiers_def MinKAnonymity_def)
    then show False using hidden [of TierStrained] by simp
  qed
  then show ?thesis using sum c(1) [of TierElevated] c(1) [of TierDependent] by linarith
qed

theorem hidden_tier_recovered_witness:
  "\<exists>c. tier_total c = 12 \<and> c TierDependent = (1 :: int) \<and> c TierElevated = 0 \<and>
     tc_suppressed (buildBreakdown c 12 ! 1) \<and> tc_suppressed (buildBreakdown c 12 ! 3)"
proof -
  let ?d = "(\<lambda>_. 0 :: int)(TierHealthy := 11, TierDependent := 1)"
  have "?d TierDependent = 1 \<and> ?d TierElevated = 0"
    by (rule hidden_tier_recovered [of 11]) (simp_all add: tier_total del: fun_upd_apply, simp_all add: tier_total)
  moreover have "tc_suppressed (buildBreakdown ?d 12 ! 1)" "tc_suppressed (buildBreakdown ?d 12 ! 3)" by code_simp+
  ultimately show ?thesis by (intro exI [of _ ?d]) (simp add: tier_total)
qed

definition demo_team :: time_db where
  "demo_team = time_db.truncate demo_link\<lparr>employees :=
     map (\<lambda>n. demo_employee\<lparr>emp_id := [n], emp_org := ''ORG-1'', emp_active := True\<rparr>) ''abcdefghijk''\<rparr>"

theorem dashboard_k_anonymous_witness:
  "\<exists>r. GetWorkforceDependencyReport demo_team ''ORG-1'' (Date 2026 8 14) = Inr r \<and> wd_active r = 11 \<and>
     map tc_tier (wd_breakdown r) = allDependencyTiers \<and> (\<forall>b \<in> set (wd_breakdown r). \<forall>k. tc_count b = Some k \<longrightarrow> k = 0 \<or> 10 \<le> k)"
proof -
  let ?run = "GetWorkforceDependencyReport demo_team ''ORG-1'' (Date 2026 8 14)"
  have "case ?run of Inr _ \<Rightarrow> True | _ \<Rightarrow> False" by code_simp
  then obtain r where run: "?run = Inr r" by (auto split: sum.splits)
  have "length (FindAllActive demo_team ''ORG-1'') = 11" by code_simp
  with dashboard_k_anonymous [OF run] run show ?thesis by (auto simp: MinKAnonymity_def split: option.splits)
qed

end
