(* ===== verification/Reconciliation.thy ===== *)
theory Reconciliation
  imports Grants
begin

text \<open>
  The platform's reconciliation of the ledger against the disbursement wallet (\<open>reconciliation_job.go\<close>,
  \<open>models/reconciliation.go\<close>). The wallet balance is the answer of the Monnify client, a parameter. \<open>Run\<close> leaves
  \<open>RunAt\<close> unset and GORM writes a zero \<open>time.Time\<close> as it is (only \<open>CreatedAt\<close> is filled in); \<open>First\<close> adds the primary
  key to the order it is given.
\<close>

record ReconciliationRun =
  rr_id :: nat
  rr_run_at :: time
  rr_wallet :: Kobo
  rr_cash :: Kobo
  rr_drift :: "Kobo option"
  rr_alerted :: bool

record recon_db = ledger_db +
  recon_runs :: "ReconciliationRun list"
  recon_seq :: nat

fun sum_cash :: "Organization list \<Rightarrow> Kobo \<Rightarrow> ('z ledger_db_scheme) \<Rightarrow> Kobo res \<times> ('z ledger_db_scheme)" where
  "sum_cash [] acc db = (Inr acc, db)"
| "sum_cash (o1 # os) acc db =
     (case WithOrgScope db (\<lambda>db.
             rbind (EnsureAccount db (org_id o1) [] AccountCashSettlement NGN) (\<lambda>(acct, db1).
             rbind (AccountBalance db1 (org_id o1) (acc_id acct)) (\<lambda>bal.
             rbind (Kobo_Add acc (Minor bal)) (\<lambda>s. Inr (s, db1))))) of
        (Inl e, db') \<Rightarrow> (Inl e, db')
      | (Inr s, db') \<Rightarrow> sum_cash os s db')"

definition sumCashSettlement :: "('z ledger_db_scheme) \<Rightarrow> Kobo res \<times> ('z ledger_db_scheme)" where
  "sumCashSettlement db = sum_cash (organizations db) 0 db"

definition previous_run :: "('z recon_db_scheme) \<Rightarrow> ReconciliationRun res" where
  "previous_run db = first_by (\<lambda>r. (- rr_run_at r, rr_id r)) (\<lambda>_. True) (recon_runs db)"

definition run_drift :: "Kobo \<Rightarrow> Kobo \<Rightarrow> ReconciliationRun \<Rightarrow> Kobo res" where
  "run_drift wallet cash prev =
     rbind (Kobo_Sub wallet (rr_wallet prev)) (\<lambda>walletDelta.
     rbind (Kobo_Sub cash (rr_cash prev)) (\<lambda>cashDelta.
     Kobo_Add walletDelta cashDelta))"

definition drift_alerts :: "Kobo \<Rightarrow> Kobo \<Rightarrow> bool" where
  "drift_alerts threshold drift = (let a = (if Kobo_IsNegative drift then - drift else drift) in threshold <s a)"

definition Run ::
  "Kobo res \<Rightarrow> Kobo \<Rightarrow> ('z recon_db_scheme) \<Rightarrow> ReconciliationRun res \<times> ('z recon_db_scheme)" where
  "Run GetWalletBalance threshold db =
     (case GetWalletBalance of
        Inl e \<Rightarrow> (Inl e, db)
      | Inr wallet \<Rightarrow>
          (case sumCashSettlement db of
             (Inl e, db1) \<Rightarrow> (Inl e, db1)
           | (Inr cash, db1) \<Rightarrow>
               let run = \<lparr>rr_id = recon_seq db1, rr_run_at = ZeroTime, rr_wallet = wallet, rr_cash = cash, rr_drift = None,
                          rr_alerted = False\<rparr>;
                   save = (\<lambda>run. (Inr run, db1\<lparr>recon_runs := recon_runs db1 @ [run], recon_seq := Suc (recon_seq db1)\<rparr>))
               in (case previous_run db1 of
                     Inl _ \<Rightarrow> save run
                   | Inr prev \<Rightarrow>
                       (case run_drift wallet cash prev of
                          Inl e \<Rightarrow> (Inl e, db1)
                        | Inr drift \<Rightarrow> save (run\<lparr>rr_drift := Some drift, rr_alerted := drift_alerts threshold drift\<rparr>)))))"

subsection \<open>Library\<close>

lemma sum_cash_exact:
  assumes "ledger_inv db" "sum_cash os s db = (r, db')"
  shows "ledger_inv db' \<and> ledger_frame db db' \<and> posted db' = posted db \<and> ledger_balance db' = ledger_balance db \<and>
    (\<forall>t. r = Inr t \<longrightarrow> sint t = sint s + sum_list (map (\<lambda>o1. - ledger_balance db (cash_of (org_id o1) NGN)) os))"
  using assms
proof (induction os arbitrary: s db)
  case Nil
  then show ?case by auto
next
  case (Cons o1 os)
  let ?body = "\<lambda>db. rbind (EnsureAccount db (org_id o1) [] AccountCashSettlement NGN) (\<lambda>(acct, db1).
             rbind (AccountBalance db1 (org_id o1) (acc_id acct)) (\<lambda>bal.
             rbind (Kobo_Add s (Minor bal)) (\<lambda>s. Inr (s, db1))))"
  show ?case
  proof (cases "?body db")
    case (Inl e)
    then have "db' = db" "r = Inl e" using Cons.prems(2) by (simp_all add: WithOrgScope_def)
    then show ?thesis using Cons.prems(1) by (simp add: ledger_frame_def)
  next
    case (Inr x)
    obtain s1 db1 where x: "x = (s1, db1)" by (cases x)
    then obtain m where f: "FundingExposure db (org_id o1) NGN = Inr (m, db1)" and s1: "Kobo_Add s (Minor m) = Inr s1"
      using Inr by (auto simp: FundingExposure_def go_results)
    note l = FundingExposure_Inr [OF Cons.prems(1) f]
    have rest: "sum_cash os s1 db1 = (r, db')" using Cons.prems(2) Inr x by (simp add: WithOrgScope_def)
    from Cons.IH [OF l [THEN conjunct1] rest] l s1 ledger_frame_trans [of db db1 db']
    show ?thesis by (auto simp: go_results)
  qed
qed

definition platform_cash :: "('z ledger_db_scheme) \<Rightarrow> int" where
  "platform_cash db = sum_list (map (\<lambda>o1. - ledger_balance db (cash_of (org_id o1) NGN)) (organizations db))"

lemma frame_recon:
  fixes db :: "('z recon_db_scheme)"
  assumes "ledger_frame db db'"
  shows "recon_runs db' = recon_runs db \<and> recon_seq db' = recon_seq db \<and> organizations db' = organizations db"
  using assms unfolding ledger_frame_def by (cases db; cases db') simp

lemma run_drift_Inr:
  "run_drift w c prev = Inr d \<Longrightarrow> sint d = (sint w - sint (rr_wallet prev)) + (sint c - sint (rr_cash prev))"
  by (auto simp: run_drift_def go_results)

lemma drift_alerts_exact:
  assumes "drift \<noteq> MinInt64"
  shows "drift_alerts threshold drift \<longleftrightarrow> sint threshold < \<bar>sint drift\<bar>"
proof -
  have "sint drift \<noteq> - (2 ^ 63)" using assms by (simp add: int64_eq_iff)
  then have "sint (- drift) = - sint drift"
    using sint64_ge [of drift] sint64_less [of drift] by (simp add: sint64_minus wrap64_id in64_def)
  then show ?thesis by (simp add: drift_alerts_def Let_def Kobo_IsNegative_def sless_sint)
qed

text \<open>At the least \<open>int64\<close> the negation is its argument again, and no threshold is exceeded.\<close>

lemma min_drift_not_alerted: "0 \<le> sint threshold \<Longrightarrow> \<not> drift_alerts threshold MinInt64"
proof -
  assume t: "0 \<le> sint threshold"
  have "sint (- MinInt64) = - (2 ^ 63)" by (simp add: sint64_minus wrap64_def)
  with t show ?thesis by (simp add: drift_alerts_def Let_def Kobo_IsNegative_def sless_sint)
qed

lemma Run_Inr:
  fixes db :: "('z recon_db_scheme)"
  assumes inv: "ledger_inv db" and run: "Run (Inr wallet) threshold db = (Inr run, db')"
  shows "ledger_inv db' \<and> ledger_balance db' = ledger_balance db \<and> organizations db' = organizations db \<and>
    recon_runs db' = recon_runs db @ [run] \<and> recon_seq db' = Suc (recon_seq db) \<and> rr_id run = recon_seq db \<and> rr_run_at run = ZeroTime \<and>
    rr_wallet run = wallet \<and> sint (rr_cash run) = platform_cash db \<and>
    (case previous_run db of Inl _ \<Rightarrow> rr_drift run = None \<and> \<not> rr_alerted run
     | Inr prev \<Rightarrow> \<exists>d. run_drift wallet (rr_cash run) prev = Inr d \<and> rr_drift run = Some d \<and> rr_alerted run = drift_alerts threshold d)"
proof -
  obtain cash db1 where s: "sumCashSettlement db = (Inr cash, db1)"
    using run by (cases "sumCashSettlement db") (auto simp: Run_def split: sum.splits)
  note l = sum_cash_exact [OF inv s [unfolded sumCashSettlement_def]]
  then have fr: "recon_runs db1 = recon_runs db" "recon_seq db1 = recon_seq db" "organizations db1 = organizations db"
    using frame_recon [of db db1] by blast+
  have cash: "sint cash = platform_cash db" using l by (simp add: platform_cash_def)
  have prev: "previous_run db1 = previous_run db" by (simp add: previous_run_def fr)
  define new where "new = \<lparr>rr_id = recon_seq db, rr_run_at = ZeroTime, rr_wallet = wallet, rr_cash = cash, rr_drift = None, rr_alerted = False\<rparr>"
  have "\<exists>r. run = r \<and> db' = db1\<lparr>recon_runs := recon_runs db @ [r], recon_seq := Suc (recon_seq db)\<rparr> \<and>
    rr_id r = recon_seq db \<and> rr_run_at r = ZeroTime \<and> rr_wallet r = wallet \<and> rr_cash r = cash \<and>
    (case previous_run db of Inl _ \<Rightarrow> rr_drift r = None \<and> \<not> rr_alerted r
     | Inr prev \<Rightarrow> \<exists>d. run_drift wallet cash prev = Inr d \<and> rr_drift r = Some d \<and> rr_alerted r = drift_alerts threshold d)"
    using run by (auto simp: Run_def s prev fr Let_def split: sum.splits)
  then obtain r where r: "run = r" "db' = db1\<lparr>recon_runs := recon_runs db @ [r], recon_seq := Suc (recon_seq db)\<rparr>"
    "rr_id r = recon_seq db" "rr_run_at r = ZeroTime" "rr_wallet r = wallet" "rr_cash r = cash"
    "case previous_run db of Inl _ \<Rightarrow> rr_drift r = None \<and> \<not> rr_alerted r
     | Inr prev \<Rightarrow> \<exists>d. run_drift wallet cash prev = Inr d \<and> rr_drift r = Some d \<and> rr_alerted r = drift_alerts threshold d" by blast
  have same: "ledger_accounts db' = ledger_accounts db1" "ledger_transactions db' = ledger_transactions db1" "ledger_entries db' = ledger_entries db1"
    by (simp_all add: r(2))
  note c = ledger_cong [OF same]
  show ?thesis using l cash r(2-6) r(7) fr c unfolding r(1) by (auto split: sum.splits)
qed

subsection \<open>Which run is the previous one\<close>

text \<open>What the runs of the job leave behind: the same time in every row, keys in the order of writing.\<close>

definition run_history :: "('z recon_db_scheme) \<Rightarrow> bool" where
  "run_history db \<longleftrightarrow> (\<forall>r \<in> set (recon_runs db). rr_run_at r = ZeroTime \<and> rr_id r < recon_seq db) \<and>
     sorted_wrt (<) (map rr_id (recon_runs db))"

lemma run_history_kept:
  fixes db :: "('z recon_db_scheme)"
  assumes "ledger_inv db" "Run (Inr wallet) threshold db = (Inr run, db')" "run_history db"
  shows "run_history db'"
  using Run_Inr [OF assms(1,2)] assms(3) by (auto simp: run_history_def sorted_wrt_append)

lemma previous_is_first:
  assumes "run_history db" "recon_runs db = first # rest"
  shows "previous_run db = Inr first"
  unfolding previous_run_def
proof (rule first_by_unique)
  fix r assume "r \<in> set (recon_runs db)" "r \<noteq> first"
  then show "(- rr_run_at first, rr_id first) < (- rr_run_at r, rr_id r)"
    using assms by (auto simp: run_history_def less_prod_def)
qed (use assms in simp_all)

text \<open>
  C40: a run compares the wallet and the summed cash positions with the first run ever made, not with the one before
  it, since no run records when it ran. Its drift is the movement since the baseline, it alerts exactly when that is
  over the threshold in size, and it posts nothing: every balance is what it was.
\<close>

theorem drift_since_first_run:
  fixes db :: "('z recon_db_scheme)"
  assumes inv: "ledger_inv db" and hist: "run_history db" and runs: "recon_runs db = first # rest"
    and run: "Run (Inr wallet) threshold db = (Inr run, db')"
  shows "\<exists>d. rr_drift run = Some d \<and> sint d = (sint wallet - sint (rr_wallet first)) + (platform_cash db - sint (rr_cash first)) \<and>
    (d \<noteq> MinInt64 \<longrightarrow> rr_alerted run = (sint threshold < \<bar>sint d\<bar>)) \<and>
    recon_runs db' = recon_runs db @ [run] \<and> ledger_balance db' = ledger_balance db \<and> run_history db'"
proof -
  note r = Run_Inr [OF inv run]
  obtain d where d: "run_drift wallet (rr_cash run) first = Inr d" "rr_drift run = Some d" "rr_alerted run = drift_alerts threshold d"
    using r previous_is_first [OF hist runs] by auto
  show ?thesis using r d run_drift_Inr [OF d(1)] drift_alerts_exact [of d threshold] run_history_kept [OF inv run hist] by auto
qed

text \<open>A run right after another, with nothing moved in between, reports the whole drift of that run again.\<close>

theorem old_drift_reported_again:
  fixes db :: "('z recon_db_scheme)"
  assumes inv: "ledger_inv db" and hist: "run_history db" and runs: "recon_runs db = first # rest"
    and run: "Run (Inr wallet) threshold db = (Inr second, db2)" and again: "Run (Inr wallet) threshold db2 = (Inr third, db3)"
  shows "rr_drift third = rr_drift second \<and> rr_alerted third = rr_alerted second"
proof -
  note r2 = Run_Inr [OF inv run]
  then have inv2: "ledger_inv db2" by simp
  note r3 = Run_Inr [OF inv2 again]
  have "platform_cash db2 = platform_cash db" using r2 by (simp add: platform_cash_def)
  then have "sint (rr_cash third) = sint (rr_cash second)" using r2 r3 by simp
  then have "rr_cash third = rr_cash second" by (simp add: int64_eq_iff)
  moreover have "previous_run db2 = Inr first"
    using previous_is_first [of db2] run_history_kept [OF inv run hist] r2 runs by simp
  ultimately show ?thesis using r2 r3 previous_is_first [OF hist runs] by auto
qed

definition demo_recon :: recon_db where
  "demo_recon = ledger_db.extend (ledger_db.truncate demo_pool)
     \<lparr>recon_runs = [\<lparr>rr_id = 1, rr_run_at = ZeroTime, rr_wallet = 100000, rr_cash = 0, rr_drift = None, rr_alerted = False\<rparr>],
      recon_seq = 2\<rparr>"

lemma demo_recon_facts:
  "ledger_inv demo_recon" "run_history demo_recon"
  "recon_runs demo_recon = [\<lparr>rr_id = 1, rr_run_at = ZeroTime, rr_wallet = 100000, rr_cash = 0, rr_drift = None, rr_alerted = False\<rparr>]"
  "platform_cash demo_recon = -500"
proof -
  have "ledger_accounts demo_recon = ledger_accounts demo_pool" "ledger_transactions demo_recon = ledger_transactions demo_pool"
    "ledger_entries demo_recon = ledger_entries demo_pool"
    by (simp_all add: demo_recon_def ledger_db.extend_def ledger_db.truncate_def)
  from ledger_cong [OF this] show "ledger_inv demo_recon" using demo_pool_inv by (simp add: grants_inv_def)
  show runs: "recon_runs demo_recon = [\<lparr>rr_id = 1, rr_run_at = ZeroTime, rr_wallet = 100000, rr_cash = 0, rr_drift = None, rr_alerted = False\<rparr>]"
    by (simp add: demo_recon_def ledger_db.extend_def)
  then show "run_history demo_recon" by (simp add: run_history_def demo_recon_def ledger_db.extend_def)
  show "platform_cash demo_recon = -500" by code_simp
qed

definition demo_second :: "ReconciliationRun res \<times> recon_db" where
  "demo_second = Run (Inr 90000) 1000 demo_recon"

lemma demo_second_run:
  obtains r db where "demo_second = (Inr r, db)"
proof -
  have "case demo_second of (Inr _, _) \<Rightarrow> True | _ \<Rightarrow> False" by code_simp
  then show thesis using that by (cases demo_second) (auto split: sum.splits)
qed

theorem drift_since_first_run_witness:
  "\<exists>r db d. demo_second = (Inr r, db) \<and> rr_drift r = Some d \<and> sint d = -10500"
proof -
  obtain r db where run: "demo_second = (Inr r, db)" by (rule demo_second_run)
  from drift_since_first_run [OF demo_recon_facts(1-3) run [unfolded demo_second_def]] run show ?thesis
    by (auto simp: demo_recon_facts(4))
qed

theorem old_drift_reported_again_witness:
  "\<exists>r db r3 db3. demo_second = (Inr r, db) \<and> Run (Inr 90000) 1000 db = (Inr r3, db3) \<and> rr_drift r3 = rr_drift r"
proof -
  obtain r db where run: "demo_second = (Inr r, db)" by (rule demo_second_run)
  have "case Run (Inr 90000) 1000 (snd demo_second) of (Inr _, _) \<Rightarrow> True | _ \<Rightarrow> False" by code_simp
  then obtain r3 db3 where again: "Run (Inr 90000) 1000 db = (Inr r3, db3)"
    by (cases "Run (Inr 90000) 1000 db") (auto simp: run split: sum.splits)
  from old_drift_reported_again [OF demo_recon_facts(1-3) run [unfolded demo_second_def] again] run again show ?thesis by blast
qed

end
