(* ===== verification/Accrual_Snapshots.thy ===== *)
theory Accrual_Snapshots
  imports EWA_Service
begin

text \<open>
  The daily record of what every active employee has accrued (\<open>accrual_snapshot_collector.go\<close>). One transaction per
  organization; a statement that fails inside it aborts it, as PostgreSQL does, and its commit is then a rollback.
\<close>

record EWAAccrualSnapshot =
  as_org :: string
  as_employee :: string
  as_period :: string
  as_date :: time
  as_accrued :: Kobo
  as_salary :: Kobo
  as_wage_type :: WageType
  as_rate :: Kobo

record snapshot_db = time_db +
  snapshots :: "EWAAccrualSnapshot list"

definition snapshot_key :: "EWAAccrualSnapshot \<Rightarrow> string \<times> string \<times> time" where
  "snapshot_key s = (as_org s, as_employee s, as_date s)"

definition accrued_of :: "('z time_db_scheme) \<Rightarrow> string \<Rightarrow> string \<Rightarrow> time \<Rightarrow> Employee \<Rightarrow> Kobo res" where
  "accrued_of db orgID period asOf e =
     (if Employee_IsHourly e then accruedHourlyToDateTx db orgID (emp_id e) (emp_hourly_rate e) period asOf
      else AccruedToDate (emp_salary e) period asOf)"

text \<open>The \<open>CHECK\<close>s of the table.\<close>

definition snapshot_insertable :: "EWAAccrualSnapshot \<Rightarrow> bool" where
  "snapshot_insertable s \<longleftrightarrow> 0 \<le> sint (as_accrued s) \<and> 0 \<le> sint (as_salary s) \<and> 0 \<le> sint (as_rate s)"

text \<open>The loop over the employees: the rows, and whether a statement has failed.\<close>

fun collect_employees ::
  "(Employee \<Rightarrow> Kobo res) \<Rightarrow> string \<Rightarrow> string \<Rightarrow> time \<Rightarrow> Employee list \<Rightarrow> EWAAccrualSnapshot list \<Rightarrow> bool
     \<Rightarrow> EWAAccrualSnapshot list \<times> bool" where
  "collect_employees accrued orgID period date [] rows aborted = (rows, aborted)"
| "collect_employees accrued orgID period date (e # es) rows aborted =
     (case accrued e of
        Inl _ \<Rightarrow> collect_employees accrued orgID period date es rows aborted
      | Inr a \<Rightarrow>
          let s = \<lparr>as_org = orgID, as_employee = emp_id e, as_period = period, as_date = date, as_accrued = a,
                   as_salary = emp_salary e, as_wage_type = emp_wage_type e, as_rate = emp_hourly_rate e\<rparr>
          in if aborted \<or> \<not> snapshot_insertable s then collect_employees accrued orgID period date es rows True
             else collect_employees accrued orgID period date es (upsert snapshot_key s rows) False)"

definition collectOrg :: "('z snapshot_db_scheme) \<Rightarrow> string \<Rightarrow> string \<Rightarrow> time \<Rightarrow> time \<Rightarrow> unit res \<times> ('z snapshot_db_scheme)" where
  "collectOrg db orgID period asOfDate asOf = WithOrgScope db (\<lambda>db.
     let (rows, aborted) = collect_employees (accrued_of db orgID period asOf) orgID period asOfDate
           (filter (\<lambda>e. emp_org e = orgID \<and> emp_active e) (employees db)) (snapshots db) False
     in if aborted then Inl (ErrOther ''commit unexpectedly resulted in rollback'') else Inr ((), db\<lparr>snapshots := rows\<rparr>))"

definition Collect :: "('z snapshot_db_scheme) \<Rightarrow> time \<Rightarrow> ('z snapshot_db_scheme)" where
  "Collect db asOf =
     foldl (\<lambda>db o1. snd (collectOrg db (org_id o1) (format_period asOf) (truncateToDay asOf) asOf)) db (organizations db)"

subsection \<open>What a collection leaves behind\<close>

lemma find_upsert_key:
  "find (\<lambda>r'. pk r' = k) (upsert pk r rows) = (if k = pk r then Some r else find (\<lambda>r'. pk r' = k) rows)"
  using find_upsert [of pk k r rows] by (auto simp: find_row_def split: option.splits if_splits)

definition snapshot_at :: "EWAAccrualSnapshot list \<Rightarrow> string \<Rightarrow> string \<Rightarrow> time \<Rightarrow> EWAAccrualSnapshot option" where
  "snapshot_at rows orgID employeeID date = find (\<lambda>s. snapshot_key s = (orgID, employeeID, date)) rows"

lemma collect_employees_exact:
  assumes "collect_employees accrued orgID period date es rows False = (rows', False)" "distinct (map emp_id es)"
  shows "snapshot_at rows' o1 i d =
    (case find (\<lambda>e. emp_id e = i) es of
       None \<Rightarrow> snapshot_at rows o1 i d
     | Some e \<Rightarrow> if (o1, d) = (orgID, date) \<and> \<not> isl (accrued e)
         then Some \<lparr>as_org = orgID, as_employee = i, as_period = period, as_date = date, as_accrued = projr (accrued e),
                 as_salary = emp_salary e, as_wage_type = emp_wage_type e, as_rate = emp_hourly_rate e\<rparr>
         else snapshot_at rows o1 i d)"
  using assms
proof (induction es arbitrary: rows)
  case (Cons e es)
  have stuck: "snd (collect_employees accrued orgID period date es rows True)" for es rows
    by (induction es arbitrary: rows) (auto simp: Let_def split: sum.split)
  have fresh: "find (\<lambda>e'. emp_id e' = emp_id e) es = None"
    using Cons.prems(2) by (simp add: find_None_iff) (metis image_eqI)
  show ?case
  proof (cases "accrued e")
    case (Inl x)
    then have "collect_employees accrued orgID period date es rows False = (rows', False)" using Cons.prems(1) by simp
    moreover have "find (\<lambda>e'. emp_id e' = i) es = None" if "emp_id e = i"
      using fresh that by simp
    ultimately show ?thesis using Cons.IH [of rows] Cons.prems(2) Inl by auto
  next
    case (Inr a)
    let ?s = "\<lparr>as_org = orgID, as_employee = emp_id e, as_period = period, as_date = date, as_accrued = a,
                   as_salary = emp_salary e, as_wage_type = emp_wage_type e, as_rate = emp_hourly_rate e\<rparr>"
    have rest: "collect_employees accrued orgID period date es (upsert snapshot_key ?s rows) False = (rows', False)"
      using Cons.prems(1) Inr stuck [of es rows] by (auto simp: Let_def split: if_splits)
    have "find (\<lambda>e'. emp_id e' = i) es = None" if "emp_id e = i"
      using fresh that by simp
    moreover have "snapshot_at (upsert snapshot_key ?s rows) o1 i d = (if (o1, i, d) = (orgID, emp_id e, date) then Some ?s else snapshot_at rows o1 i d)"
      unfolding snapshot_at_def find_upsert_key by (simp add: snapshot_key_def)
    ultimately show ?thesis using Cons.IH [OF rest] Cons.prems(2) Inr by (auto split: option.split)
  qed
qed simp

lemma find_by_id:
  assumes "distinct (map emp_id es)"
  shows "find (\<lambda>e. emp_id e = i) es = Some e \<longleftrightarrow> e \<in> set es \<and> emp_id e = i"
  using assms by (induction es) (auto simp: image_iff)

text \<open>
  A collection that commits leaves, for every active employee of the organization whose accrual can be computed, the
  one row of that day with exactly that accrual and the pay terms it came from, and no other (organization, employee,
  day) row changes; one that fails changes nothing. A second collection for the day corrects the first.
\<close>

theorem snapshots_exact:
  assumes run: "collectOrg db orgID period date asOf = (r, db')" and ids: "distinct (map emp_id (employees db))"
  shows "case r of Inl _ \<Rightarrow> db' = db
    | Inr _ \<Rightarrow> (\<forall>e \<in> set (employees db). emp_org e = orgID \<and> emp_active e \<longrightarrow>
          (\<forall>a. accrued_of db orgID period asOf e = Inr a \<longrightarrow>
             (\<exists>s. snapshot_at (snapshots db') orgID (emp_id e) date = Some s \<and> as_accrued s = a \<and> as_period s = period \<and>
                as_salary s = emp_salary e \<and> as_wage_type s = emp_wage_type e \<and> as_rate s = emp_hourly_rate e))) \<and>
        (\<forall>o1 i d. o1 \<noteq> orgID \<or> d \<noteq> date \<or> \<not> (\<exists>e \<in> set (employees db). emp_id e = i \<and> emp_org e = orgID \<and> emp_active e) \<longrightarrow>
           snapshot_at (snapshots db') o1 i d = snapshot_at (snapshots db) o1 i d)"
proof -
  let ?es = "filter (\<lambda>e. emp_org e = orgID \<and> emp_active e) (employees db)"
  obtain rows ab where c: "collect_employees (accrued_of db orgID period asOf) orgID period date ?es (snapshots db) False = (rows, ab)"
    by fastforce
  show ?thesis
  proof (cases ab)
    case True
    then have "r = Inl (ErrOther ''commit unexpectedly resulted in rollback'')" "db' = db"
      using run c by (simp_all add: collectOrg_def)
    then show ?thesis by simp
  next
    case False
    then have r: "r = Inr ()" and rows: "snapshots db' = rows"
      using run c by (auto simp: collectOrg_def)
    have d: "distinct (map emp_id ?es)" using ids by (rule distinct_map_filter)
    have "ab = False" using False by simp
    note x = collect_employees_exact [OF c [unfolded this] d]
    have "\<exists>s. snapshot_at rows orgID (emp_id e) date = Some s \<and> as_accrued s = a \<and> as_period s = period \<and>
          as_salary s = emp_salary e \<and> as_wage_type s = emp_wage_type e \<and> as_rate s = emp_hourly_rate e"
      if "e \<in> set (employees db)" "emp_org e = orgID" "emp_active e" "accrued_of db orgID period asOf e = Inr a" for e a
      using x [of orgID "emp_id e" date] find_by_id [OF d, of "emp_id e" e] that by simp
    moreover have "snapshot_at rows o1 i d = snapshot_at (snapshots db) o1 i d"
      if "o1 \<noteq> orgID \<or> d \<noteq> date \<or> \<not> (\<exists>e \<in> set (employees db). emp_id e = i \<and> emp_org e = orgID \<and> emp_active e)" for o1 i d
    proof (cases "find (\<lambda>e. emp_id e = i) ?es")
      case None
      then show ?thesis using x [of o1 i d] by simp
    next
      case (Some e)
      then have "(o1, d) \<noteq> (orgID, date)" using find_by_id [OF d, of i e] that by auto
      then show ?thesis using x [of o1 i d] Some by auto
    qed
    ultimately show ?thesis unfolding r rows sum.case by blast
  qed
qed

definition demo_snapshots :: snapshot_db where
  "demo_snapshots = time_db.extend (time_db.truncate demo_link\<lparr>employees := [demo_employee\<lparr>emp_org := ''ORG-1'', emp_active := True\<rparr>]\<rparr>)
     \<lparr>snapshots = []\<rparr>"

theorem snapshots_exact_witness:
  "\<exists>db. collectOrg demo_snapshots ''ORG-1'' ''2026-08'' (Date 2026 8 14) (Date 2026 8 14) = (Inr (), db) \<and>
     (\<exists>s. snapshot_at (snapshots db) ''ORG-1'' ''EMP-1'' (Date 2026 8 14) = Some s \<and> as_period s = ''2026-08'')"
proof -
  let ?run = "collectOrg demo_snapshots ''ORG-1'' ''2026-08'' (Date 2026 8 14) (Date 2026 8 14)"
  have "case ?run of (Inr _, _) \<Rightarrow> True | _ \<Rightarrow> False" by code_simp
  then obtain db where run: "?run = (Inr (), db)" by (cases ?run) (auto split: sum.splits)
  have ids: "distinct (map emp_id (employees demo_snapshots))" by code_simp
  let ?e = "demo_employee\<lparr>emp_org := ''ORG-1'', emp_active := True\<rparr>"
  have e: "?e \<in> set (employees demo_snapshots)" "emp_id ?e = ''EMP-1''"
    by (simp_all add: demo_snapshots_def time_db.extend_def demo_employee_def)
  have "case accrued_of demo_snapshots ''ORG-1'' ''2026-08'' (Date 2026 8 14) ?e of Inr _ \<Rightarrow> True | _ \<Rightarrow> False" by code_simp
  then obtain a where "accrued_of demo_snapshots ''ORG-1'' ''2026-08'' (Date 2026 8 14) ?e = Inr a" by (auto split: sum.splits)
  with snapshots_exact [OF run ids, simplified, THEN conjunct1, rule_format, OF e(1)] e(2) have "\<exists>s. snapshot_at (snapshots db) ''ORG-1'' ''EMP-1'' (Date 2026 8 14) = Some s \<and> as_period s = ''2026-08''"
    by auto
  with run show ?thesis by blast
qed

end
