(* ===== verification/Redis_Store.thy ===== *)
theory Redis_Store
  imports Store
begin

text \<open>
  The Redis commands the program uses (\<open>GET\<close>, \<open>SETNX\<close>, \<open>SET\<close> with a time to live, \<open>DEL\<close>, \<open>INCR\<close>,
  \<open>EXPIRE\<close>) on a map from keys to values with an optional expiry. A command sees only the entries that have not
  expired. A command the client issues is answered, or refused before it ran, or run with its answer lost:
  the client sees an error in the last two cases.
\<close>

type_synonym 'v redis = "string \<rightharpoonup> 'v \<times> time option"

datatype reply = Answered | Refused | Lost

definition ErrRedis :: err where
  "ErrRedis = ErrOther ''redis''"

definition live :: "time \<Rightarrow> 'v redis \<Rightarrow> string \<Rightarrow> ('v \<times> time option) option" where
  "live now r k =
     (case r k of
        Some (v, Some t) \<Rightarrow> if t \<le> now then None else Some (v, Some t)
      | x \<Rightarrow> x)"

definition redis_GET :: "time \<Rightarrow> string \<Rightarrow> 'v redis \<Rightarrow> 'v option \<times> 'v redis" where
  "redis_GET now k r = (map_option fst (live now r k), r)"

definition redis_SET :: "time \<Rightarrow> string \<Rightarrow> 'v \<Rightarrow> time \<Rightarrow> 'v redis \<Rightarrow> unit \<times> 'v redis" where
  "redis_SET now k v ttl r = ((), r(k \<mapsto> (v, Some (now + ttl))))"

definition redis_SETNX :: "time \<Rightarrow> string \<Rightarrow> 'v \<Rightarrow> time \<Rightarrow> 'v redis \<Rightarrow> bool \<times> 'v redis" where
  "redis_SETNX now k v ttl r =
     (if live now r k = None then (True, r(k \<mapsto> (v, Some (now + ttl)))) else (False, r))"

definition redis_DEL :: "string list \<Rightarrow> 'v redis \<Rightarrow> unit \<times> 'v redis" where
  "redis_DEL ks r = ((), \<lambda>k. if k \<in> set ks then None else r k)"

definition redis_EXPIRE :: "time \<Rightarrow> string \<Rightarrow> time \<Rightarrow> 'v redis \<Rightarrow> unit \<times> 'v redis" where
  "redis_EXPIRE now k ttl r =
     (case live now r k of None \<Rightarrow> ((), r) | Some (v, _) \<Rightarrow> ((), r(k \<mapsto> (v, Some (now + ttl)))))"

text \<open>\<open>INCR\<close> creates the counter without an expiry and keeps an existing one's; it refuses a value that is no counter.\<close>

datatype counted = Text string | Count int

definition redis_INCR :: "time \<Rightarrow> string \<Rightarrow> counted redis \<Rightarrow> int res \<times> counted redis" where
  "redis_INCR now k r =
     (case live now r k of
        None \<Rightarrow> (Inr 1, r(k \<mapsto> (Count 1, None)))
      | Some (Count n, e) \<Rightarrow> (if in64 (n + 1) then (Inr (n + 1), r(k \<mapsto> (Count (n + 1), e))) else (Inl ErrRedis, r))
      | Some (Text _, e) \<Rightarrow> (Inl ErrRedis, r))"

definition redis_call :: "reply \<Rightarrow> ('s \<Rightarrow> 'a \<times> 's) \<Rightarrow> 's \<Rightarrow> 'a res \<times> 's" where
  "redis_call reply cmd r =
     (case reply of
        Answered \<Rightarrow> (Inr (fst (cmd r)), snd (cmd r))
      | Refused \<Rightarrow> (Inl ErrRedis, r)
      | Lost \<Rightarrow> (Inl ErrRedis, snd (cmd r)))"

lemma live_None [simp]: "live now Map.empty k = None"
  by (simp add: live_def)

lemma live_upd: "live now (r(k \<mapsto> (v, e))) k' =
    (if k' = k then (case e of Some t \<Rightarrow> if t \<le> now then None else Some (v, e) | None \<Rightarrow> Some (v, e)) else live now r k')"
  by (simp add: live_def split: option.splits)

lemma live_other: "k' \<noteq> k \<Longrightarrow> live now (r(k \<mapsto> x)) k' = live now r k'"
  by (simp add: live_def)

lemma live_DEL [simp]: "live now (snd (redis_DEL ks r)) k = (if k \<in> set ks then None else live now r k)"
  by (simp add: live_def redis_DEL_def)

lemma live_SET [simp]: "0 < ttl \<Longrightarrow> live now' (snd (redis_SET now k v ttl r)) k' =
    (if k' = k then (if now + ttl \<le> now' then None else Some (v, Some (now + ttl))) else live now' r k')"
  by (simp add: redis_SET_def live_upd)

lemma live_later: "live now r k = Some (v, e) \<Longrightarrow> now \<le> now' \<Longrightarrow>
    live now' r k = (case e of Some t \<Rightarrow> if t \<le> now' then None else Some (v, e) | None \<Rightarrow> Some (v, e))"
  by (auto simp: live_def split: option.splits if_splits prod.splits)

lemma live_earlier: "live now' r k = Some x \<Longrightarrow> now \<le> now' \<Longrightarrow> live now r k = Some x"
  by (auto simp: live_def split: option.splits if_splits prod.splits)

lemma live_expiry: "live now r k = Some (v, Some t) \<Longrightarrow> now < t"
  by (auto simp: live_def split: option.splits if_splits prod.splits)

subsection \<open>The contract of a store whose keys expire\<close>

text \<open>
  What a client that claims a key for a while relies on: a key is claimed only when nobody holds it, a
  claim is visible until its expiry, and only a command on the key ends it earlier.
\<close>

locale expiring_store =
  fixes holds :: "time \<Rightarrow> 's \<Rightarrow> 'k \<Rightarrow> ('v \<times> time option) option"
    and claim :: "time \<Rightarrow> 'k \<Rightarrow> 'v \<Rightarrow> time \<Rightarrow> 's \<Rightarrow> bool \<times> 's"
    and put :: "time \<Rightarrow> 'k \<Rightarrow> 'v \<Rightarrow> time \<Rightarrow> 's \<Rightarrow> unit \<times> 's"
  assumes claim_free: "holds now s k = None \<Longrightarrow> claim now k v ttl s = (True, snd (put now k v ttl s))"
    and claim_held: "holds now s k = Some x \<Longrightarrow> claim now k v ttl s = (False, s)"
    and put_same: "now \<le> now' \<Longrightarrow> now' < now + ttl \<Longrightarrow> holds now' (snd (put now k v ttl s)) k = Some (v, Some (now + ttl))"
    and put_other: "k' \<noteq> k \<Longrightarrow> holds now' (snd (put now k v ttl s)) k' = holds now' s k'"
    and held_earlier: "holds now' s k = Some x \<Longrightarrow> now \<le> now' \<Longrightarrow> holds now s k = Some x"
    and held_until: "holds now s k = Some (v, Some t) \<Longrightarrow> now \<le> now' \<Longrightarrow> now' < t \<Longrightarrow> holds now' s k = Some (v, Some t)"
begin

lemma claim_iff: "fst (claim now k v ttl s) \<longleftrightarrow> holds now s k = None"
  by (cases "holds now s k") (auto simp: claim_free claim_held)

lemma claim_other: "k' \<noteq> k \<Longrightarrow> holds now' (snd (claim now k v ttl s)) k' = holds now' s k'"
  by (cases "holds now s k") (auto simp: claim_free claim_held put_other)

text \<open>A claim excludes every other one until it expires.\<close>

lemma claim_exclusive:
  assumes "fst (claim now k v ttl s)" "now \<le> now'" "now' < now + ttl"
  shows "\<not> fst (claim now' k v' ttl' (snd (claim now k v ttl s)))"
proof -
  have "claim now k v ttl s = (True, snd (put now k v ttl s))"
    using assms(1) claim_free unfolding claim_iff by blast
  then have "holds now' (snd (claim now k v ttl s)) k = Some (v, Some (now + ttl))"
    using put_same [OF assms(2,3), of k v s] by simp
  then show ?thesis unfolding claim_iff by simp
qed

text \<open>What is held for the whole life of another key's claim is held after it.\<close>

lemma claim_keeps:
  assumes "holds now s k' = Some (x, Some t)" "now \<le> now'" "now' < t"
  shows "holds now' (snd (claim now k v ttl s)) k' = Some (x, Some t)"
proof (cases "k' = k")
  case True
  then have "holds now s k = Some (x, Some t)" using assms(1) by simp
  from claim_held [OF this] held_until [OF assms] True show ?thesis by simp
next
  case False
  then show ?thesis by (simp only: claim_other [OF False] held_until [OF assms])
qed

end

interpretation rs: expiring_store live redis_SETNX redis_SET
proof unfold_locales
  fix now now' ttl t :: time and s :: "'a redis" and k k' :: string and v :: 'a and x
  show "live now s k = None \<Longrightarrow> redis_SETNX now k v ttl s = (True, snd (redis_SET now k v ttl s))"
    by (simp add: redis_SETNX_def redis_SET_def)
  show "live now s k = Some x \<Longrightarrow> redis_SETNX now k v ttl s = (False, s)"
    by (simp add: redis_SETNX_def)
  show "now \<le> now' \<Longrightarrow> now' < now + ttl \<Longrightarrow> live now' (snd (redis_SET now k v ttl s)) k = Some (v, Some (now + ttl))"
    by (simp add: redis_SET_def live_upd)
  show "k' \<noteq> k \<Longrightarrow> live now' (snd (redis_SET now k v ttl s)) k' = live now' s k'"
    by (simp add: redis_SET_def live_other)
  show "live now' s k = Some x \<Longrightarrow> now \<le> now' \<Longrightarrow> live now s k = Some x"
    by (rule live_earlier)
  show "live now s k = Some (v, Some t) \<Longrightarrow> now \<le> now' \<Longrightarrow> now' < t \<Longrightarrow> live now' s k = Some (v, Some t)"
    by (simp add: live_later)
qed

end
