(* ===== verification/Worker_OTP.thy ===== *)
theory Worker_OTP
  imports Redis_Store
begin

text \<open>
  One-time login codes (\<open>internal/services/otp_service.go\<close>): three Redis keys per phone, the cooldown, the daily
  counter, the code's digest with its counter of guesses. The HMAC is the parameter \<open>BlindIndex\<close>, the random
  code an argument, and delivery a list of messages sent; \<open>available\<close> says whether Redis and a sender are configured.
\<close>

definition otpDigits :: nat where "otpDigits = 6"
definition otpTTL :: time where "otpTTL = 5 * 60 * 10 ^ 9"
definition otpResendCooldown :: time where "otpResendCooldown = 60 * 10 ^ 9"
definition maxOTPAttempts :: int where "maxOTPAttempts = 5"
definition maxOTPIssuesPerDay :: int where "maxOTPIssuesPerDay = 10"

definition ErrOTPUnavailable :: err where
  "ErrOTPUnavailable = ErrOther ''otp delivery is not configured''"

definition ErrOTPRateLimited :: err where
  "ErrOTPRateLimited = ErrOther ''too many otp requests for this phone''"

definition phoneKey :: "(string \<Rightarrow> string) \<Rightarrow> string \<Rightarrow> string" where
  "phoneKey BlindIndex phone = BlindIndex (''otp-phone:'' @ phone)"

definition codeDigest :: "(string \<Rightarrow> string) \<Rightarrow> string \<Rightarrow> string \<Rightarrow> string" where
  "codeDigest BlindIndex phone code = BlindIndex (''otp-code:'' @ phone @ '':'' @ code)"

definition cooldown_key :: "string \<Rightarrow> string" where "cooldown_key k = ''otp:cooldown:'' @ k"
definition daily_key :: "string \<Rightarrow> string" where "daily_key k = ''otp:daily:'' @ k"
definition code_key :: "string \<Rightarrow> string" where "code_key k = ''otp:code:'' @ k"
definition attempts_key :: "string \<Rightarrow> string" where "attempts_key k = ''otp:attempts:'' @ k"

lemma otp_keys_differ [simp]:
  "cooldown_key k \<noteq> daily_key k'" "cooldown_key k \<noteq> code_key k'" "cooldown_key k \<noteq> attempts_key k'"
  "daily_key k \<noteq> cooldown_key k'" "daily_key k \<noteq> code_key k'" "daily_key k \<noteq> attempts_key k'"
  "code_key k \<noteq> cooldown_key k'" "code_key k \<noteq> daily_key k'" "code_key k \<noteq> attempts_key k'"
  "attempts_key k \<noteq> cooldown_key k'" "attempts_key k \<noteq> daily_key k'" "attempts_key k \<noteq> code_key k'"
  "cooldown_key k = cooldown_key k' \<longleftrightarrow> k = k'" "daily_key k = daily_key k' \<longleftrightarrow> k = k'"
  "code_key k = code_key k' \<longleftrightarrow> k = k'" "attempts_key k = attempts_key k' \<longleftrightarrow> k = k'"
  by (simp_all add: cooldown_key_def daily_key_def code_key_def attempts_key_def)

text \<open>The replies of the four round trips of an issue: \<open>SETNX\<close>, \<open>INCR\<close>, \<open>EXPIRE\<close> (its error is ignored), the pipeline.\<close>

record issue_replies =
  rp_cooldown :: reply
  rp_daily :: reply
  rp_expire :: reply
  rp_store :: reply

definition claim_cooldown :: "issue_replies \<Rightarrow> time \<Rightarrow> string \<Rightarrow> counted redis \<Rightarrow> bool res \<times> counted redis" where
  "claim_cooldown rp now k r = redis_call (rp_cooldown rp) (redis_SETNX now (cooldown_key k) (Count 1) otpResendCooldown) r"

definition count_issue :: "issue_replies \<Rightarrow> time \<Rightarrow> string \<Rightarrow> counted redis \<Rightarrow> int res \<times> counted redis" where
  "count_issue rp now k r =
     (case redis_call (rp_daily rp) (redis_INCR now (daily_key k)) r of
        (Inl e, r') \<Rightarrow> (Inl e, r')
      | (Inr (Inl e), r') \<Rightarrow> (Inl e, r')
      | (Inr (Inr n), r') \<Rightarrow>
          (Inr n, if n = 1 then snd (redis_call (rp_expire rp) (redis_EXPIRE now (daily_key k) (24 * Hour)) r') else r'))"

definition store_code :: "time \<Rightarrow> string \<Rightarrow> string \<Rightarrow> counted redis \<Rightarrow> unit \<times> counted redis" where
  "store_code now k dig r = redis_DEL [attempts_key k] (snd (redis_SET now (code_key k) (Text dig) otpTTL r))"

text \<open>\<open>Issue\<close>: the result, the messages handed to the sender, the store. \<open>code\<close> is what \<open>generateOTP\<close> returns.\<close>

definition Issue ::
  "(string \<Rightarrow> string) \<Rightarrow> bool \<Rightarrow> issue_replies \<Rightarrow> time \<Rightarrow> string res \<Rightarrow> string \<Rightarrow> bool \<Rightarrow> counted redis
     \<Rightarrow> unit res \<times> (string \<times> string) list \<times> counted redis" where
  "Issue BlindIndex available rp now code phone deliver r =
     (if \<not> available then (Inl ErrOTPUnavailable, [], r)
      else let k = phoneKey BlindIndex phone in
        case claim_cooldown rp now k r of
          (Inl e, r1) \<Rightarrow> (Inl e, [], r1)
        | (Inr acquired, r1) \<Rightarrow>
            if \<not> acquired then (Inl ErrOTPRateLimited, [], r1)
            else (case count_issue rp now k r1 of
                    (Inl e, r2) \<Rightarrow> (Inl e, [], r2)
                  | (Inr n, r2) \<Rightarrow>
                      if maxOTPIssuesPerDay < n then (Inl ErrOTPRateLimited, [], r2)
                      else if \<not> deliver then (Inr (), [], r2)
                      else (case code of
                              Inl e \<Rightarrow> (Inl e, [], r2)
                            | Inr c \<Rightarrow>
                                (case redis_call (rp_store rp) (store_code now k (codeDigest BlindIndex phone c)) r2 of
                                   (Inl e, r3) \<Rightarrow> (Inl e, [], r3)
                                 | (Inr _, r3) \<Rightarrow> (Inr (), [(phone, c)], r3)))))"

text \<open>The Lua script, one atomic step: the code key, its counter, the digest. It fails when the counter is no number.\<close>

definition verifyScript :: "time \<Rightarrow> string \<Rightarrow> string \<Rightarrow> counted redis \<Rightarrow> int res \<times> counted redis" where
  "verifyScript now k dig r =
     (case live now r (code_key k) of
        None \<Rightarrow> (Inr 0, r)
      | Some (stored, _) \<Rightarrow>
          (case redis_INCR now (attempts_key k) r of
             (Inl e, r1) \<Rightarrow> (Inl e, r1)
           | (Inr n, r1) \<Rightarrow>
               let r2 = (if n = 1 then snd (redis_EXPIRE now (attempts_key k) otpTTL r1) else r1)
               in if maxOTPAttempts < n then (Inr 0, snd (redis_DEL [code_key k, attempts_key k] r2))
                  else if stored = Text dig then (Inr 1, snd (redis_DEL [code_key k, attempts_key k] r2))
                  else (Inr 0, r2)))"

definition Verify ::
  "(string \<Rightarrow> string) \<Rightarrow> bool \<Rightarrow> reply \<Rightarrow> time \<Rightarrow> string \<Rightarrow> string \<Rightarrow> counted redis \<Rightarrow> bool res \<times> counted redis" where
  "Verify BlindIndex available reply now phone code r =
     (if \<not> available then (Inl ErrOTPUnavailable, r)
      else if length code \<noteq> otpDigits then (Inr False, r)
      else (case redis_call reply (verifyScript now (phoneKey BlindIndex phone) (codeDigest BlindIndex phone code)) r of
              (Inl e, r') \<Rightarrow> (Inl e, r')
            | (Inr (Inl e), r') \<Rightarrow> (Inl e, r')
            | (Inr (Inr res), r') \<Rightarrow> (Inr (res = 1), r')))"

text \<open>Whether a verification reached the comparison of the digests, that is, was a guess.\<close>

definition guessed :: "time \<Rightarrow> string \<Rightarrow> counted redis \<Rightarrow> bool" where
  "guessed now k r \<longleftrightarrow> (case live now r (code_key k) of
     None \<Rightarrow> False
   | Some _ \<Rightarrow> (case fst (redis_INCR now (attempts_key k) r) of Inl _ \<Rightarrow> False | Inr n \<Rightarrow> n \<le> maxOTPAttempts))"


subsection \<open>What one event does to the keys of one phone\<close>

text \<open>Whether an issue reaches the counter, opens a new day's counter, and stores a code.\<close>

definition issue_counts :: "(string \<Rightarrow> string) \<Rightarrow> issue_replies \<Rightarrow> time \<Rightarrow> string \<Rightarrow> counted redis \<Rightarrow> bool" where
  "issue_counts B rp now phone r \<longleftrightarrow> fst (claim_cooldown rp now (phoneKey B phone) r) = Inr True"

definition opens_window :: "(string \<Rightarrow> string) \<Rightarrow> issue_replies \<Rightarrow> time \<Rightarrow> string \<Rightarrow> counted redis \<Rightarrow> bool" where
  "opens_window B rp now phone r \<longleftrightarrow>
     issue_counts B rp now phone r \<and> rp_daily rp \<noteq> Refused \<and> live now r (daily_key (phoneKey B phone)) = None"

definition stores_code :: "(string \<Rightarrow> string) \<Rightarrow> issue_replies \<Rightarrow> time \<Rightarrow> string res \<Rightarrow> string \<Rightarrow> bool \<Rightarrow> counted redis \<Rightarrow> bool" where
  "stores_code B rp now code phone deliver r \<longleftrightarrow>
     issue_counts B rp now phone r \<and> deliver \<and> (\<exists>c. code = Inr c) \<and> rp_store rp \<noteq> Refused \<and>
     (\<exists>n \<le> maxOTPIssuesPerDay. fst (count_issue rp now (phoneKey B phone) (snd (claim_cooldown rp now (phoneKey B phone) r))) = Inr n)"

lemma redis_call_cases:
  assumes "redis_call reply cmd r = (out, r')"
  obtains "reply = Refused" "out = Inl ErrRedis" "r' = r" | "reply = Lost" "out = Inl ErrRedis" "r' = snd (cmd r)"
    | "reply = Answered" "out = Inr (fst (cmd r))" "r' = snd (cmd r)"
  using assms by (cases reply) (auto simp: redis_call_def)

lemma claimed_other: "key \<noteq> cooldown_key k \<Longrightarrow> snd (claim_cooldown rp now k r) key = r key"
  by (simp add: claim_cooldown_def redis_call_def redis_SETNX_def split: reply.split)

lemma count_issue_other: "key \<noteq> daily_key k \<Longrightarrow> snd (count_issue rp now k r) key = r key"
  by (auto simp: count_issue_def redis_call_def redis_INCR_def redis_EXPIRE_def split: reply.splits option.splits counted.splits prod.splits sum.splits)

lemma Issue_store:
  assumes "code = Inr c \<or> \<not> stores_code B rp now code phone deliver r"
  shows "snd (snd (Issue B True rp now code phone deliver r)) =
     (let k = phoneKey B phone; r1 = snd (claim_cooldown rp now k r); r2 = snd (count_issue rp now k r1)
      in if stores_code B rp now code phone deliver r then snd (store_code now k (codeDigest B phone c) r2)
         else if issue_counts B rp now phone r then r2 else r1)"
proof -
  obtain out1 r1 where e1: "claim_cooldown rp now (phoneKey B phone) r = (out1, r1)" by fastforce
  obtain out2 r2 where e2: "count_issue rp now (phoneKey B phone) r1 = (out2, r2)" by fastforce
  show ?thesis
  proof (cases "out1 = Inr True")
    case False
    then show ?thesis using e1 by (auto simp: Issue_def Let_def stores_code_def issue_counts_def split: sum.split)
  next
    case True
    then show ?thesis using assms e1 e2
      by (cases out2; cases code; cases "rp_store rp")
         (auto simp: Issue_def Let_def stores_code_def issue_counts_def redis_call_def)
  qed
qed

lemma Issue_code:
  assumes k_def: "k = phoneKey B phone"
  shows "stores_code B rp now code phone deliver r \<Longrightarrow>
      \<exists>d. snd (snd (Issue B True rp now code phone deliver r)) (code_key k) = Some (Text d, Some (now + otpTTL)) \<and>
          snd (snd (Issue B True rp now code phone deliver r)) (attempts_key k) = None"
    and "\<not> stores_code B rp now code phone deliver r \<Longrightarrow> key = code_key k \<or> key = attempts_key k \<Longrightarrow>
      snd (snd (Issue B True rp now code phone deliver r)) key = r key"
proof -
  assume st: "stores_code B rp now code phone deliver r"
  then obtain c where "code = Inr c" by (auto simp: stores_code_def)
  then show "\<exists>d. snd (snd (Issue B True rp now code phone deliver r)) (code_key k) = Some (Text d, Some (now + otpTTL)) \<and>
          snd (snd (Issue B True rp now code phone deliver r)) (attempts_key k) = None"
    using st by (simp add: Issue_store Let_def k_def store_code_def redis_SET_def redis_DEL_def)
next
  assume "\<not> stores_code B rp now code phone deliver r" "key = code_key k \<or> key = attempts_key k"
  then show "snd (snd (Issue B True rp now code phone deliver r)) key = r key"
    by (auto simp: Issue_store Let_def k_def count_issue_other claimed_other)
qed

lemma stored_other: "key \<noteq> code_key k \<Longrightarrow> key \<noteq> attempts_key k \<Longrightarrow> snd (store_code now k d r) key = r key"
  by (simp add: store_code_def redis_SET_def redis_DEL_def)

lemma Issue_daily:
  assumes k_def: "k = phoneKey B phone"
  shows "snd (snd (Issue B True rp now code phone deliver r)) (daily_key k) =
    (if issue_counts B rp now phone r then snd (count_issue rp now k (snd (claim_cooldown rp now k r))) (daily_key k) else r (daily_key k))"
proof (cases "stores_code B rp now code phone deliver r")
  case True
  then obtain c where "code = Inr c" "issue_counts B rp now phone r" by (auto simp: stores_code_def)
  then show ?thesis using True by (simp add: Issue_store Let_def k_def stored_other)
next
  case False
  then show ?thesis by (simp add: Issue_store Let_def k_def claimed_other)
qed

lemma Issue_other:
  assumes "key \<notin> {cooldown_key (phoneKey B phone), daily_key (phoneKey B phone), code_key (phoneKey B phone), attempts_key (phoneKey B phone)}"
  shows "snd (snd (Issue B True rp now code phone deliver r)) key = r key"
proof (cases "stores_code B rp now code phone deliver r")
  case True
  then obtain c where "code = Inr c" by (auto simp: stores_code_def)
  then show ?thesis using True assms by (simp add: Issue_store Let_def stored_other count_issue_other claimed_other)
next
  case False
  then show ?thesis using assms by (simp add: Issue_store Let_def count_issue_other claimed_other)
qed

lemma verifyScript_other:
  "key \<noteq> code_key k \<Longrightarrow> key \<noteq> attempts_key k \<Longrightarrow> snd (verifyScript now k d r) key = r key"
  by (auto simp: verifyScript_def redis_INCR_def redis_EXPIRE_def redis_DEL_def Let_def split: option.splits counted.splits)

text \<open>What a verification leaves: the store, or what the script left.\<close>

lemma Verify_store:
  "snd (Verify B True reply now phone code r) =
     (if length code \<noteq> otpDigits \<or> reply = Refused then r
      else snd (verifyScript now (phoneKey B phone) (codeDigest B phone code) r))"
  by (cases "verifyScript now (phoneKey B phone) (codeDigest B phone code) r"; cases reply)
     (auto simp: Verify_def redis_call_def split: sum.splits)

lemma Verify_other:
  "key \<noteq> code_key (phoneKey B phone) \<Longrightarrow> key \<noteq> attempts_key (phoneKey B phone) \<Longrightarrow>
     snd (Verify B True reply now phone code r) key = r key"
  by (simp add: Verify_store verifyScript_other)


subsection \<open>Counting over a history\<close>

datatype otp_event =
    IssueAt issue_replies "string res" string bool
  | VerifyAt reply string string

text \<open>What is counted for one phone key: daily counters opened, codes stored, guesses since the last code, guesses, codes accepted.\<close>

record otp_counts =
  oc_windows :: int
  oc_codes :: int
  oc_since :: int
  oc_guesses :: int
  oc_accepted :: int

definition no_counts :: otp_counts where
  "no_counts = \<lparr>oc_windows = 0, oc_codes = 0, oc_since = 0, oc_guesses = 0, oc_accepted = 0\<rparr>"

fun otp_exec :: "(string \<Rightarrow> string) \<Rightarrow> time \<Rightarrow> otp_event \<Rightarrow> counted redis \<Rightarrow> counted redis" where
  "otp_exec B now (IssueAt rp code phone deliver) r = snd (snd (Issue B True rp now code phone deliver r))"
| "otp_exec B now (VerifyAt reply phone code) r = snd (Verify B True reply now phone code r)"

fun otp_count :: "(string \<Rightarrow> string) \<Rightarrow> string \<Rightarrow> time \<Rightarrow> otp_event \<Rightarrow> counted redis \<Rightarrow> otp_counts \<Rightarrow> otp_counts" where
  "otp_count B k now (IssueAt rp code phone deliver) r c =
     (if phoneKey B phone \<noteq> k then c
      else let c1 = (if opens_window B rp now phone r then c\<lparr>oc_windows := oc_windows c + 1\<rparr> else c)
           in if stores_code B rp now code phone deliver r then c1\<lparr>oc_codes := oc_codes c1 + 1, oc_since := 0\<rparr> else c1)"
| "otp_count B k now (VerifyAt reply phone code) r c =
     (if phoneKey B phone \<noteq> k \<or> length code \<noteq> otpDigits \<or> reply = Refused \<or> \<not> guessed now k r then c
      else c\<lparr>oc_since := oc_since c + 1, oc_guesses := oc_guesses c + 1,
              oc_accepted := oc_accepted c + (if fst (verifyScript now k (codeDigest B phone code) r) = Inr 1 then 1 else 0)\<rparr>)"

fun otp_run :: "(string \<Rightarrow> string) \<Rightarrow> string \<Rightarrow> (time \<times> otp_event) list \<Rightarrow> counted redis \<times> otp_counts \<Rightarrow> counted redis \<times> otp_counts" where
  "otp_run B k [] st = st"
| "otp_run B k ((now, ev) # evs) (r, c) = otp_run B k evs (otp_exec B now ev r, otp_count B k now ev r c)"

text \<open>The code and its guesses: at most \<open>maxOTPAttempts\<close> while it lives, and it is gone once accepted.\<close>

definition code_inv :: "time \<Rightarrow> string \<Rightarrow> counted redis \<times> otp_counts \<Rightarrow> bool" where
  "code_inv now k = (\<lambda>(r, c).
     0 \<le> oc_since c \<and> oc_since c \<le> maxOTPAttempts \<and> 0 \<le> oc_codes c \<and> 0 \<le> oc_accepted c \<and> (oc_codes c = 0 \<longrightarrow> oc_since c = 0) \<and>
     oc_guesses c + maxOTPAttempts \<le> maxOTPAttempts * oc_codes c + oc_since c + (if oc_codes c = 0 then maxOTPAttempts else 0) \<and>
     oc_accepted c \<le> oc_codes c \<and>
     (\<forall>v e. live now r (code_key k) = Some (v, e) \<longrightarrow> oc_accepted c + 1 \<le> oc_codes c \<and>
        (\<exists>t \<le> now + otpTTL. e = Some t \<and>
           ((oc_since c = 0 \<and> live now r (attempts_key k) = None) \<or>
            (\<exists>n t'. live now r (attempts_key k) = Some (Count n, Some t') \<and> t \<le> t' \<and> oc_since c \<le> n \<and> 1 \<le> n)))))"

definition daily_inv :: "time \<Rightarrow> time \<Rightarrow> string \<Rightarrow> counted redis \<times> otp_counts \<Rightarrow> bool" where
  "daily_inv start now k = (\<lambda>(r, c).
     oc_codes c \<le> maxOTPIssuesPerDay * oc_windows c \<and>
     (\<forall>n e. live now r (daily_key k) = Some (Count n, e) \<longrightarrow> 1 \<le> n \<and>
        oc_codes c \<le> maxOTPIssuesPerDay * (oc_windows c - 1) + min n maxOTPIssuesPerDay) \<and>
     (oc_windows c = 0 \<or>
      (\<exists>w. start + (oc_windows c - 1) * (24 * Hour) \<le> w \<and> w \<le> now \<and>
         (w + 24 * Hour \<le> now \<or> (\<exists>v e. live now r (daily_key k) = Some (v, e) \<and> (\<forall>t. e = Some t \<longrightarrow> w + 24 * Hour \<le> t))))))"

lemma code_inv_cong:
  assumes "code_inv now k (r, c)" "r' (code_key k) = r (code_key k)" "r' (attempts_key k) = r (attempts_key k)"
    and "oc_since c' = oc_since c" "oc_codes c' = oc_codes c" "oc_guesses c' = oc_guesses c" "oc_accepted c' = oc_accepted c"
  shows "code_inv now k (r', c')"
  using assms by (simp add: code_inv_def live_def)

lemma daily_inv_cong:
  assumes "daily_inv start now k (r, c)" "r' (daily_key k) = r (daily_key k)" "oc_codes c' = oc_codes c" "oc_windows c' = oc_windows c"
  shows "daily_inv start now k (r', c')"
  using assms by (simp add: daily_inv_def live_def)

lemma code_inv_later:
  assumes inv: "code_inv now k (r, c)" and t: "now \<le> now'"
  shows "code_inv now' k (r, c)"
proof -
  have "oc_accepted c + 1 \<le> oc_codes c \<and> (\<exists>t \<le> now' + otpTTL. e = Some t \<and>
           ((oc_since c = 0 \<and> live now' r (attempts_key k) = None) \<or>
            (\<exists>n t'. live now' r (attempts_key k) = Some (Count n, Some t') \<and> t \<le> t' \<and> oc_since c \<le> n \<and> 1 \<le> n)))"
    if v: "live now' r (code_key k) = Some (v, e)" for v e
  proof -
    have "live now r (code_key k) = Some (v, e)" using v t by (rule live_earlier)
    with inv obtain x where x: "oc_accepted c + 1 \<le> oc_codes c" "x \<le> now + otpTTL" "e = Some x"
      "(oc_since c = 0 \<and> live now r (attempts_key k) = None) \<or>
       (\<exists>n t'. live now r (attempts_key k) = Some (Count n, Some t') \<and> x \<le> t' \<and> oc_since c \<le> n \<and> 1 \<le> n)"
      unfolding code_inv_def by fastforce
    have "now' < x" using v x(3) live_expiry by fastforce
    then have "(oc_since c = 0 \<and> live now' r (attempts_key k) = None) \<or>
       (\<exists>n t'. live now' r (attempts_key k) = Some (Count n, Some t') \<and> x \<le> t' \<and> oc_since c \<le> n \<and> 1 \<le> n)"
      using x(4) t live_earlier [of now' r "attempts_key k" _ now] by (auto simp: live_later)
    then show ?thesis using x t by auto
  qed
  then show ?thesis using inv by (simp add: code_inv_def)
qed

lemma daily_inv_later:
  assumes inv: "daily_inv start now k (r, c)" and t: "now \<le> now'"
  shows "daily_inv start now' k (r, c)"
proof -
  have "(\<exists>w. start + (oc_windows c - 1) * (24 * Hour) \<le> w \<and> w \<le> now' \<and>
         (w + 24 * Hour \<le> now' \<or> (\<exists>v e. live now' r (daily_key k) = Some (v, e) \<and> (\<forall>t. e = Some t \<longrightarrow> w + 24 * Hour \<le> t))))"
    if nz: "oc_windows c \<noteq> 0"
  proof -
    obtain w where w: "start + (oc_windows c - 1) * (24 * Hour) \<le> w" "w \<le> now"
        "w + 24 * Hour \<le> now \<or> (\<exists>v e. live now r (daily_key k) = Some (v, e) \<and> (\<forall>t. e = Some t \<longrightarrow> w + 24 * Hour \<le> t))"
      using inv nz unfolding daily_inv_def prod.case by blast
    show ?thesis
    proof (cases "w + 24 * Hour \<le> now'")
      case True
      then show ?thesis using w t by (intro exI [of _ w]) simp
    next
      case False
      then obtain v e where ve: "live now r (daily_key k) = Some (v, e)" "\<forall>t. e = Some t \<longrightarrow> w + 24 * Hour \<le> t" using w t by auto
      then have "live now' r (daily_key k) = Some (v, e)" using False t by (cases e) (auto simp: live_later)
      then show ?thesis using w t ve(2) by (intro exI [of _ w]) auto
    qed
  qed
  moreover have "live now r (daily_key k) = Some x" if "live now' r (daily_key k) = Some x" for x
    using that t by (rule live_earlier)
  ultimately show ?thesis using inv unfolding daily_inv_def prod.case by blast
qed


lemma code_inv_issue:
  assumes inv: "code_inv now k (r, c)"
  shows "code_inv now k (otp_exec B now (IssueAt rp code phone deliver) r, otp_count B k now (IssueAt rp code phone deliver) r c)"
proof (cases "phoneKey B phone = k")
  case False
  then show ?thesis by (intro code_inv_cong [OF inv]) (simp_all add: Issue_other)
next
  case True
  show ?thesis
  proof (cases "stores_code B rp now code phone deliver r")
    case False
    then show ?thesis using True by (intro code_inv_cong [OF inv]) (simp_all add: Issue_code(2) Let_def)
  next
    case st: True
    let ?r = "otp_exec B now (IssueAt rp code phone deliver) r"
    obtain d where "?r (code_key k) = Some (Text d, Some (now + otpTTL))" "?r (attempts_key k) = None"
      using Issue_code(1) [OF True [symmetric] st] by auto
    then have "live now ?r (code_key k) = Some (Text d, Some (now + otpTTL))" "live now ?r (attempts_key k) = None"
      by (simp_all add: live_def otpTTL_def)
    then show ?thesis using inv True st
      by (auto simp: code_inv_def Let_def maxOTPAttempts_def split: if_splits)
  qed
qed

lemma script_cases:
  obtains (none) "live now r (code_key k) = None" "verifyScript now k d r = (Inr 0, r)"
  | (broken) e where "live now r (code_key k) \<noteq> None" "fst (redis_INCR now (attempts_key k) r) = Inl e" "snd (verifyScript now k d r) = r"
  | (over) n where "live now r (code_key k) \<noteq> None" "fst (redis_INCR now (attempts_key k) r) = Inr n" "maxOTPAttempts < n"
      "live now (snd (verifyScript now k d r)) (code_key k) = None"
  | (hit) n where "live now r (code_key k) \<noteq> None" "fst (redis_INCR now (attempts_key k) r) = Inr n" "n \<le> maxOTPAttempts"
      "live now (snd (verifyScript now k d r)) (code_key k) = None" "fst (verifyScript now k d r) = Inr 1"
  | (miss) n v e t where "live now r (code_key k) = Some (v, e)" "fst (redis_INCR now (attempts_key k) r) = Inr n" "n \<le> maxOTPAttempts"
      "live now (snd (verifyScript now k d r)) (code_key k) = Some (v, e)" "fst (verifyScript now k d r) = Inr 0"
      "live now (snd (verifyScript now k d r)) (attempts_key k) = Some (Count n, t)"
      "live now r (attempts_key k) = None \<and> n = 1 \<and> t = Some (now + otpTTL) \<or>
       (\<exists>m e'. live now r (attempts_key k) = Some (Count m, e') \<and> n = m + 1 \<and> (n \<noteq> 1 \<longrightarrow> t = e'))"
proof (cases "live now r (code_key k)")
  case None
  then show ?thesis using none by (simp add: verifyScript_def)
next
  case (Some a)
  then obtain v e where v: "live now r (code_key k) = Some (v, e)" by (cases a) simp
  obtain out r1 where i: "redis_INCR now (attempts_key k) r = (out, r1)" by fastforce
  show ?thesis
  proof (cases out)
    case (Inl e)
    then show ?thesis using v i by (intro broken [of e]) (auto simp: verifyScript_def redis_INCR_def split: option.splits counted.splits prod.splits if_splits)
  next
    case (Inr n)
    show ?thesis
    proof (cases "maxOTPAttempts < n")
      case True
      then show ?thesis using v i Inr by (intro over [of n]) (simp_all add: verifyScript_def Let_def)
    next
      case False
      show ?thesis
      proof (cases "v = Text d")
        case True
        then show ?thesis using v i Inr False by (intro hit [of n]) (simp_all add: verifyScript_def Let_def)
      next
        case nd: False
        let ?r2 = "if n = 1 then snd (redis_EXPIRE now (attempts_key k) otpTTL r1) else r1"
        have sc: "verifyScript now k d r = (Inr 0, ?r2)" using v i Inr False nd by (simp add: verifyScript_def Let_def)
        have "?r2 (code_key k) = r (code_key k)"
          using i Inr by (auto simp: redis_INCR_def redis_EXPIRE_def split: option.splits counted.splits prod.splits if_splits)
        then have cd: "live now ?r2 (code_key k) = Some (v, e)" using v by (simp add: live_def)
        have "\<exists>t. live now ?r2 (attempts_key k) = Some (Count n, t) \<and>
          (live now r (attempts_key k) = None \<and> n = 1 \<and> t = Some (now + otpTTL) \<or>
           (\<exists>m e'. live now r (attempts_key k) = Some (Count m, e') \<and> n = m + 1 \<and> (n \<noteq> 1 \<longrightarrow> t = e')))"
          using i Inr live_expiry [of now r "attempts_key k"]
          by (auto simp: redis_INCR_def redis_EXPIRE_def live_upd otpTTL_def split: option.splits counted.splits prod.splits if_splits)
        then obtain t where "live now ?r2 (attempts_key k) = Some (Count n, t)"
          "live now r (attempts_key k) = None \<and> n = 1 \<and> t = Some (now + otpTTL) \<or>
           (\<exists>m e'. live now r (attempts_key k) = Some (Count m, e') \<and> n = m + 1 \<and> (n \<noteq> 1 \<longrightarrow> t = e'))" by blast
        then show ?thesis using v i Inr False sc cd by (intro miss [of v e n t]) simp_all
      qed
    qed
  qed
qed

lemma code_inv_verify:
  assumes inv: "code_inv now k (r, c)"
  shows "code_inv now k (otp_exec B now (VerifyAt reply phone code) r, otp_count B k now (VerifyAt reply phone code) r c)"
proof (cases "phoneKey B phone \<noteq> k \<or> length code \<noteq> otpDigits \<or> reply = Refused")
  case True
  then show ?thesis by (intro code_inv_cong [OF inv]) (auto simp: Verify_store verifyScript_other)
next
  case False
  let ?d = "codeDigest B phone code"
  have st: "otp_exec B now (VerifyAt reply phone code) r = snd (verifyScript now k ?d r)"
    using False by (simp add: Verify_store)
  show ?thesis
  proof (cases rule: script_cases [where now = now and k = k and r = r and d = ?d])
    case none
    then show ?thesis using inv False unfolding st by (simp add: guessed_def)
  next
    case (broken e)
    then show ?thesis using inv False unfolding st by (auto simp: guessed_def)
  next
    case (over n)
    then show ?thesis using inv False unfolding st by (auto simp: guessed_def code_inv_def split: if_splits)
  next
    case (hit n)
    then obtain v e where "live now r (code_key k) = Some (v, e)" by auto
    with inv obtain t where "oc_accepted c + 1 \<le> oc_codes c"
      "(oc_since c = 0 \<and> live now r (attempts_key k) = None) \<or>
       (\<exists>n t'. live now r (attempts_key k) = Some (Count n, Some t') \<and> t \<le> t' \<and> oc_since c \<le> n \<and> 1 \<le> n)"
      unfolding code_inv_def by fastforce
    moreover from this(2) have "oc_since c + 1 \<le> maxOTPAttempts"
      using hit(2,3) by (auto simp: redis_INCR_def maxOTPAttempts_def split: if_splits)
    ultimately show ?thesis using inv False hit unfolding st by (auto simp: guessed_def code_inv_def split: if_splits)
  next
    case (miss n v e t)
    then obtain x where x: "oc_accepted c + 1 \<le> oc_codes c" "x \<le> now + otpTTL" "e = Some x"
      "(oc_since c = 0 \<and> live now r (attempts_key k) = None) \<or>
       (\<exists>n t'. live now r (attempts_key k) = Some (Count n, Some t') \<and> x \<le> t' \<and> oc_since c \<le> n \<and> 1 \<le> n)"
      using inv unfolding code_inv_def by fastforce
    have "\<exists>t'. t = Some t' \<and> x \<le> t' \<and> oc_since c + 1 \<le> n \<and> 1 \<le> n" using miss(7) x(2,4) by auto
    then show ?thesis using inv False x miss unfolding st by (auto simp: guessed_def code_inv_def split: if_splits)
  qed
qed


text \<open>The daily counter after an issue got past its cooldown.\<close>

lemma count_issue_cases:
  obtains (same) e where "fst (count_issue rp now k r) = Inl e" "snd (count_issue rp now k r) (daily_key k) = r (daily_key k)"
      "rp_daily rp = Refused \<or> live now r (daily_key k) \<noteq> None"
  | (opened) e where "live now r (daily_key k) = None" "rp_daily rp \<noteq> Refused" "fst (count_issue rp now k r) \<in> {Inr 1, Inl ErrRedis}"
      "live now (snd (count_issue rp now k r)) (daily_key k) = Some (Count 1, e)" "e = None \<or> e = Some (now + 24 * Hour)"
  | (counted) n e where "live now r (daily_key k) = Some (Count n, e)" "fst (count_issue rp now k r) = Inr (n + 1) \<or> (\<exists>x. fst (count_issue rp now k r) = Inl x)"
      "1 \<le> n \<longrightarrow> live now (snd (count_issue rp now k r)) (daily_key k) = Some (Count (n + 1), e)"
proof (cases "rp_daily rp = Refused")
  case True
  then show ?thesis by (intro same) (auto simp: count_issue_def redis_call_def)
next
  case False
  show ?thesis
  proof (cases "live now r (daily_key k)")
    case None
    then show ?thesis using False
      by (intro opened [of "if rp_daily rp = Answered \<and> rp_expire rp \<noteq> Refused then Some (now + 24 * Hour) else None"])
         (auto simp: count_issue_def redis_call_def redis_INCR_def redis_EXPIRE_def live_upd Hour_def split: reply.splits)
  next
    case (Some a)
    obtain v e where a: "a = (v, e)" by (cases a)
    show ?thesis
    proof (cases v)
      case (Text x)
      then show ?thesis using Some a by (intro same) (auto simp: count_issue_def redis_call_def redis_INCR_def split: reply.splits)
    next
      case (Count n)
      show ?thesis
      proof (cases "in64 (n + 1)")
        case True
        then show ?thesis using Some a Count False live_expiry [of now r "daily_key k" "Count n"]
          by (intro counted [of n e])
             (auto simp: count_issue_def redis_call_def redis_INCR_def live_upd split: reply.splits option.splits)
      next
        case False
        then show ?thesis using Some a Count by (intro same) (auto simp: count_issue_def redis_call_def redis_INCR_def split: reply.splits)
      qed
    qed
  qed
qed

lemma daily_inv_issue:
  assumes inv: "daily_inv start now k (r, c)" and st: "start \<le> now"
  shows "daily_inv start now k (otp_exec B now (IssueAt rp code phone deliver) r, otp_count B k now (IssueAt rp code phone deliver) r c)"
proof (cases "phoneKey B phone = k \<and> issue_counts B rp now phone r")
  case False
  then have "otp_exec B now (IssueAt rp code phone deliver) r (daily_key k) = r (daily_key k)"
    by (cases "phoneKey B phone = k") (simp_all add: Issue_other Issue_daily)
  then show ?thesis using False
    by (intro daily_inv_cong [OF inv]) (auto simp: opens_window_def stores_code_def)
next
  case True
  let ?r1 = "snd (claim_cooldown rp now k r)" and ?r = "otp_exec B now (IssueAt rp code phone deliver) r"
  let ?c = "otp_count B k now (IssueAt rp code phone deliver) r c"
  have r1: "live now ?r1 (daily_key k) = live now r (daily_key k)" "?r1 (daily_key k) = r (daily_key k)"
    by (simp_all add: live_def claimed_other)
  have after: "?r (daily_key k) = snd (count_issue rp now k ?r1) (daily_key k)"
    using True Issue_daily [OF refl, where B = B] by auto
  then have after': "live now ?r (daily_key k) = live now (snd (count_issue rp now k ?r1)) (daily_key k)" by (simp add: live_def)
  show ?thesis
  proof (cases rule: count_issue_cases [where rp = rp and now = now and k = k and r = ?r1])
    case (same e)
    then show ?thesis using True r1 after
      by (intro daily_inv_cong [OF inv]) (auto simp: opens_window_def stores_code_def)
  next
    case (opened e)
    have c: "oc_windows ?c = oc_windows c + 1" "oc_codes ?c \<le> oc_codes c + 1"
      using True opened(1,2) r1 by (simp_all add: opens_window_def Let_def)
    have "start + oc_windows c * (24 * Hour) \<le> now"
    proof (cases "oc_windows c = 0")
      case False
      then obtain w where "start + (oc_windows c - 1) * (24 * Hour) \<le> w" "w + 24 * Hour \<le> now"
        using inv opened(1) r1(1) unfolding daily_inv_def prod.case by auto
      then show ?thesis by (simp add: algebra_simps)
    qed (use st in simp)
    moreover have "oc_codes c \<le> maxOTPIssuesPerDay * oc_windows c" using inv by (simp add: daily_inv_def)
    ultimately show ?thesis using c opened(4,5) unfolding after' [symmetric] daily_inv_def prod.case
      by (auto simp: maxOTPIssuesPerDay_def intro!: exI [of _ now])
  next
    case (counted n e)
    then have n: "1 \<le> n" "oc_codes c \<le> maxOTPIssuesPerDay * (oc_windows c - 1) + min n maxOTPIssuesPerDay"
      using inv r1(1) by (auto simp: daily_inv_def)
    have c: "oc_windows ?c = oc_windows c" "oc_codes ?c = oc_codes c \<or> oc_codes ?c = oc_codes c + 1 \<and> n < maxOTPIssuesPerDay"
      using True counted(1,2) r1 by (auto simp: opens_window_def stores_code_def Let_def)
    from c(2) have "oc_codes ?c \<le> maxOTPIssuesPerDay * (oc_windows c - 1) + min (n + 1) maxOTPIssuesPerDay"
    proof (rule disjE)
      assume "oc_codes ?c = oc_codes c"
      then show ?thesis using n(2) by linarith
    next
      assume "oc_codes ?c = oc_codes c + 1 \<and> n < maxOTPIssuesPerDay"
      then show ?thesis using n(2) by linarith
    qed
    then show ?thesis using inv c(1) n counted(1,3) r1 unfolding after' [symmetric] daily_inv_def prod.case
      by (auto simp: maxOTPIssuesPerDay_def min_def split: if_splits)
  qed
qed

lemma code_inv_exec: "code_inv now k (r, c) \<Longrightarrow> code_inv now k (otp_exec B now ev r, otp_count B k now ev r c)"
  by (cases ev) (simp_all only: code_inv_issue code_inv_verify)

lemma daily_inv_exec:
  assumes "daily_inv start now k (r, c)" "start \<le> now"
  shows "daily_inv start now k (otp_exec B now ev r, otp_count B k now ev r c)"
proof (cases ev)
  case (IssueAt rp code phone deliver)
  then show ?thesis using daily_inv_issue [OF assms] by simp
next
  case (VerifyAt reply phone code)
  then show ?thesis by (intro daily_inv_cong [OF assms(1)]) (simp_all add: Verify_other)
qed

lemma otp_run_inv:
  assumes "code_inv now k (r, c)" "daily_inv start now k (r, c)" "start \<le> now"
    and "sorted (map fst evs)" "\<forall>t \<in> fst ` set evs. now \<le> t \<and> t \<le> end'" "now \<le> end'"
  shows "code_inv end' k (otp_run B k evs (r, c)) \<and> daily_inv start end' k (otp_run B k evs (r, c))"
  using assms
proof (induction evs arbitrary: now r c)
  case Nil
  then show ?case by (auto intro: code_inv_later daily_inv_later)
next
  case (Cons a evs)
  obtain t ev where a: "a = (t, ev)" by (cases a)
  have t: "now \<le> t" "t \<le> end'" "start \<le> t" using Cons.prems a by auto
  have "code_inv t k (r, c)" "daily_inv start t k (r, c)"
    using Cons.prems(1,2) t(1) code_inv_later daily_inv_later by blast+
  then have "code_inv t k (otp_exec B t ev r, otp_count B k t ev r c)"
    and "daily_inv start t k (otp_exec B t ev r, otp_count B k t ev r c)"
    using t(3) by (simp_all only: code_inv_exec daily_inv_exec)
  moreover have "sorted (map fst evs)" "\<forall>t' \<in> fst ` set evs. t \<le> t' \<and> t' \<le> end'" using Cons.prems(4,5) a by auto
  ultimately show ?case using Cons.IH [OF _ _ t(3)] t(2) a by simp
qed


text \<open>
  C26: guessing a login code. Whatever is requested and tried, by anybody, and whatever Redis does, over a
  period of \<open>d\<close> days a phone's codes are guessed at most 50 times for each day begun and no more codes are
  accepted than were stored: at most five guesses reach a code, an accepted code is gone, at most ten codes are stored per
  daily counter, and counters open at least 24 hours apart.
\<close>

theorem otp_guesses_bounded:
  assumes "sorted (map fst evs)" "\<forall>t \<in> fst ` set evs. start \<le> t \<and> t \<le> end'" "start \<le> end'"
    and run: "otp_run B k evs (Map.empty, no_counts) = (r, c)"
  shows "oc_guesses c \<le> 50 * (1 + (end' - start) div (24 * Hour)) \<and> oc_since c \<le> 5 \<and> oc_guesses c \<le> 5 * oc_codes c \<and>
    oc_accepted c \<le> oc_codes c \<and> oc_codes c \<le> 10 * oc_windows c \<and> (0 < oc_windows c \<longrightarrow> start + (oc_windows c - 1) * (24 * Hour) \<le> end')"
proof -
  have "code_inv start k (Map.empty, no_counts)" "daily_inv start start k (Map.empty, no_counts)"
    by (simp_all add: code_inv_def daily_inv_def no_counts_def maxOTPAttempts_def)
  then have "code_inv end' k (otp_run B k evs (Map.empty, no_counts)) \<and> daily_inv start end' k (otp_run B k evs (Map.empty, no_counts))"
    using assms(1-3) by (intro otp_run_inv [of start]) simp_all
  then have ci: "code_inv end' k (r, c)" and di: "daily_inv start end' k (r, c)" by (simp_all only: run)
  have since: "oc_since c \<le> 5" and acc: "oc_accepted c \<le> oc_codes c" and g: "oc_guesses c \<le> 5 * oc_codes c"
    using ci by (auto simp: code_inv_def maxOTPAttempts_def split: if_splits)
  have codes: "oc_codes c \<le> 10 * oc_windows c" using di by (simp add: daily_inv_def maxOTPIssuesPerDay_def)
  have opened: "start + (oc_windows c - 1) * (24 * Hour) \<le> end'" if nz: "0 < oc_windows c"
    using di nz unfolding daily_inv_def prod.case by auto
  have "oc_windows c - 1 \<le> (end' - start) div (24 * Hour)"
  proof (cases "0 < oc_windows c")
    case True
    then have "(oc_windows c - 1) * (24 * Hour) \<le> end' - start" using opened by linarith
    then have "((oc_windows c - 1) * (24 * Hour)) div (24 * Hour) \<le> (end' - start) div (24 * Hour)"
      by (rule zdiv_mono1) (simp add: Hour_def)
    then show ?thesis by (simp add: Hour_def)
  next
    case False
    have "0 \<le> (end' - start) div (24 * Hour)" using assms(3) by (simp add: pos_imp_zdiv_nonneg_iff Hour_def)
    then show ?thesis using False by linarith
  qed
  moreover have "G \<le> 50 * (1 + D)" if "W - 1 \<le> D" "G \<le> 5 * C" "C \<le> 10 * W" for G W C D :: int
    using that by presburger
  ultimately have "oc_guesses c \<le> 50 * (1 + (end' - start) div (24 * Hour))" using g codes by blast
  then show ?thesis using since acc g codes opened by blast
qed


text \<open>
  A counter whose \<open>EXPIRE\<close> was lost never expires: once it stands at ten, every later issue for the phone is
  refused, at any time.
\<close>

lemma lost_expire_locks_phone:
  assumes "r (daily_key (phoneKey B phone)) = Some (Count n, None)" "maxOTPIssuesPerDay \<le> n"
  shows "(\<exists>e. fst (Issue B True rp now code phone deliver r) = Inl e) \<and>
    (\<exists>m \<ge> n. snd (snd (Issue B True rp now code phone deliver r)) (daily_key (phoneKey B phone)) = Some (Count m, None))"
proof -
  let ?k = "phoneKey B phone"
  obtain out1 r1 where e1: "claim_cooldown rp now ?k r = (out1, r1)" by fastforce
  have "r1 (daily_key ?k) = Some (Count n, None)" using claimed_other [of "daily_key ?k" ?k rp now r] e1 assms(1) by simp
  then have "live now r1 (daily_key ?k) = Some (Count n, None)" by (simp add: live_def)
  moreover obtain out2 r2 where e2: "count_issue rp now ?k r1 = (out2, r2)" by fastforce
  ultimately have "(\<exists>e. out2 = Inl e) \<or> out2 = Inr (n + 1)" "\<exists>m \<ge> n. r2 (daily_key ?k) = Some (Count m, None)"
    using assms(2) \<open>r1 _ = _\<close>
    by (auto simp: count_issue_def redis_call_def redis_INCR_def maxOTPIssuesPerDay_def split: reply.splits if_splits)
  then show ?thesis using e1 e2 assms(2) \<open>r1 _ = _\<close> by (auto simp: Issue_def Let_def split: sum.split)
qed

definition demo_otp :: "(time \<times> otp_event) list" where
  "demo_otp = [(0, IssueAt \<lparr>rp_cooldown = Answered, rp_daily = Answered, rp_expire = Answered, rp_store = Answered\<rparr> (Inr ''123456'') ''080'' True),
     (1, VerifyAt Answered ''080'' ''123457''), (2, VerifyAt Answered ''080'' ''123456'')]"

lemma demo_otp_run: "\<exists>r. otp_run id (phoneKey id ''080'') demo_otp (Map.empty, no_counts) =
    (r, \<lparr>oc_windows = 1, oc_codes = 1, oc_since = 2, oc_guesses = 2, oc_accepted = 1\<rparr>)"
  by (simp add: demo_otp_def Issue_def claim_cooldown_def count_issue_def store_code_def redis_call_def redis_SETNX_def redis_SET_def redis_INCR_def
      redis_EXPIRE_def redis_DEL_def live_def Let_def Verify_def verifyScript_def opens_window_def stores_code_def issue_counts_def guessed_def
      no_counts_def maxOTPIssuesPerDay_def maxOTPAttempts_def otpDigits_def otpTTL_def Hour_def in64_def codeDigest_def)

theorem otp_guesses_bounded_witness:
  "\<exists>r c. otp_run id (phoneKey id ''080'') demo_otp (Map.empty, no_counts) = (r, c) \<and> oc_accepted c = 1 \<and> oc_guesses c = 2 \<and>
     oc_guesses c \<le> 50 * (1 + (2 - 0) div (24 * Hour))"
proof -
  obtain r where r: "otp_run id (phoneKey id ''080'') demo_otp (Map.empty, no_counts) =
    (r, \<lparr>oc_windows = 1, oc_codes = 1, oc_since = 2, oc_guesses = 2, oc_accepted = 1\<rparr>)" using demo_otp_run by blast
  have "oc_guesses \<lparr>oc_windows = 1, oc_codes = 1, oc_since = 2, oc_guesses = 2, oc_accepted = 1\<rparr> \<le> 50 * (1 + (2 - 0) div (24 * Hour))"
    using otp_guesses_bounded [OF _ _ _ r, of 0 2] by (simp add: demo_otp_def)
  then show ?thesis using r by fastforce
qed

end
