(* ===== verification/Access_Control.thy ===== *)
theory Access_Control
  imports Employer_Users Worker_OTP
begin

text \<open>
  Tokens, gates and the login handlers: \<open>middleware/auth.go\<close>, \<open>tenant.go\<close>, \<open>residency.go\<close>, \<open>auth_handler.go\<close>,
  \<open>worker_auth_handler.go\<close> and the route groups of \<open>routes.go\<close>. The JWT library is the record \<open>jwt_env\<close>: what
  \<open>SignedString\<close> returns for some claims, and the claims of a token whose HS256 signature checks. Times in claims are
  whole seconds. A gate answers the status it aborts with, or lets the request through.
\<close>

record Claims =
  cl_org :: string
  cl_employee :: string
  cl_role :: string
  cl_user :: string
  cl_must_change :: bool
  cl_auth_time :: int
  cl_expires :: "int option"

record jwt_env =
  je_sign :: "Claims \<Rightarrow> string res"
  je_verify :: "string \<Rightarrow> Claims option"

definition Unix :: "time \<Rightarrow> int" where
  "Unix t = t div 10 ^ 9"

definition MaxSessionAge :: time where
  "MaxSessionAge = 24 * Hour"

definition user_claims :: "time \<Rightarrow> string \<Rightarrow> string \<Rightarrow> string \<Rightarrow> bool \<Rightarrow> time \<Rightarrow> time \<Rightarrow> Claims" where
  "user_claims now orgID userID role mustChange authTime ttl =
     \<lparr>cl_org = orgID, cl_employee = [], cl_role = role, cl_user = userID, cl_must_change = mustChange,
      cl_auth_time = Unix authTime, cl_expires = Some (Unix (now + ttl))\<rparr>"

definition IssueUserToken :: "jwt_env \<Rightarrow> time \<Rightarrow> string \<Rightarrow> string \<Rightarrow> string \<Rightarrow> bool \<Rightarrow> time \<Rightarrow> time \<Rightarrow> string res" where
  "IssueUserToken j now orgID userID role mustChange authTime ttl = je_sign j (user_claims now orgID userID role mustChange authTime ttl)"

definition IssueRefreshedToken :: "jwt_env \<Rightarrow> time \<Rightarrow> string \<Rightarrow> string \<Rightarrow> time \<Rightarrow> time \<Rightarrow> string res" where
  "IssueRefreshedToken j now orgID role authTime ttl = IssueUserToken j now orgID [] role False authTime ttl"

definition IssueToken :: "jwt_env \<Rightarrow> time \<Rightarrow> string \<Rightarrow> string \<Rightarrow> time \<Rightarrow> string res" where
  "IssueToken j now orgID role ttl = IssueRefreshedToken j now orgID role now ttl"

definition IssueWorkerToken :: "jwt_env \<Rightarrow> time \<Rightarrow> string \<Rightarrow> string \<Rightarrow> time \<Rightarrow> string res" where
  "IssueWorkerToken j now orgID employeeID ttl = je_sign j
     \<lparr>cl_org = orgID, cl_employee = employeeID, cl_role = ''employee'', cl_user = [], cl_must_change = False,
      cl_auth_time = 0, cl_expires = Some (Unix (now + ttl))\<rparr>"

text \<open>The \<open>Authorization\<close> header: the claims of a signed token that carries an expiry in the future.\<close>

definition JWTAuth :: "jwt_env \<Rightarrow> time \<Rightarrow> string \<Rightarrow> nat + Claims" where
  "JWTAuth j now header =
     (case strip_prefix ''Bearer '' header of
        None \<Rightarrow> Inl 401
      | Some token \<Rightarrow>
          (case je_verify j token of
             None \<Rightarrow> Inl 401
           | Some c \<Rightarrow> (case cl_expires c of None \<Rightarrow> Inl 401 | Some e \<Rightarrow> if now < e * 10 ^ 9 then Inr c else Inl 401)))"

definition APIKeyAuth :: "string \<Rightarrow> string \<Rightarrow> nat option" where
  "APIKeyAuth requiredKey apiKey = (if apiKey \<noteq> requiredKey then Some 401 else None)"

subsection \<open>Gates\<close>

type_synonym gate = "Claims \<Rightarrow> nat option"

definition RequireRole :: "string \<Rightarrow> gate" where
  "RequireRole role c = (if cl_role c \<noteq> role then Some 403 else None)"

definition AuthTime :: "Claims \<Rightarrow> time option" where
  "AuthTime c = (if 0 < cl_auth_time c then Some (cl_auth_time c * 10 ^ 9) else None)"

definition ActorName :: "Claims \<Rightarrow> string" where
  "ActorName c = (if cl_user c \<noteq> [] then cl_user c else cl_role c)"

definition RequireWorker :: gate where
  "RequireWorker c = (if cl_role c \<noteq> ''employee'' then Some 403 else if cl_employee c = [] then Some 403 else None)"

definition RequireActiveWorker :: "(string \<Rightarrow> bool res) \<Rightarrow> gate" where
  "RequireActiveWorker isActive c = (if isActive (cl_employee c) = Inr True then None else Some 401)"

definition RequireEmployer :: gate where
  "RequireEmployer c = (if cl_role c = ''employee'' then Some 403 else None)"

definition RequirePasswordChanged :: gate where
  "RequirePasswordChanged c = (if cl_must_change c then Some 403 else None)"

definition RequireActiveEmployerUser :: "(string \<Rightarrow> string \<Rightarrow> bool res) \<Rightarrow> gate" where
  "RequireActiveEmployerUser isActive c =
     (if cl_user c = [] then None else if isActive (cl_org c) (cl_user c) = Inr True then None else Some 401)"

text \<open>The tenant gate hands its organization's region to the residency gate after it.\<close>

definition TenantMiddleware :: "('z identity_db_scheme) \<Rightarrow> Claims \<Rightarrow> nat + string" where
  "TenantMiddleware db c =
     (if cl_org c = [] then Inl 401
      else (case find_row (\<lambda>o1. org_id o1 = cl_org c) (organizations db) of
              Inl _ \<Rightarrow> Inl 401
            | Inr o1 \<Rightarrow> if \<not> org_active o1 then Inl 403 else Inr (org_region o1)))"

fun go_Split :: "char \<Rightarrow> string \<Rightarrow> string list" where
  "go_Split sep [] = [[]]"
| "go_Split sep (c # s) =
     (if c = sep then [] # go_Split sep s
      else (case go_Split sep s of [] \<Rightarrow> [[c]] | w # ws \<Rightarrow> (c # w) # ws))"

definition allowedRegions :: "identity_env \<Rightarrow> string \<Rightarrow> string list" where
  "allowedRegions env raw = (if raw = [] then [] else map (\<lambda>r. TrimSpace (ie_lower env r)) (go_Split CHR '','' raw))"

definition DataResidency :: "identity_env \<Rightarrow> string list \<Rightarrow> string \<Rightarrow> nat option" where
  "DataResidency env regions orgRegion =
     (if regions = [] then None
      else if ie_lower env (if orgRegion = [] then ''ng'' else orgRegion) \<notin> set regions then Some 403
      else None)"

fun run_gates :: "gate list \<Rightarrow> gate" where
  "run_gates [] c = None"
| "run_gates (g # gs) c = (case g c of Some code \<Rightarrow> Some code | None \<Rightarrow> run_gates gs c)"

text \<open>A request of the employer group, with the gates of its route; and of the worker group.\<close>

definition tenant_request ::
  "identity_env \<Rightarrow> jwt_env \<Rightarrow> string list \<Rightarrow> time \<Rightarrow> ('z identity_db_scheme) \<Rightarrow> gate list \<Rightarrow> string \<Rightarrow> nat + Claims" where
  "tenant_request env j regions now db gates header =
     (case JWTAuth j now header of
        Inl code \<Rightarrow> Inl code
      | Inr c \<Rightarrow>
          (case TenantMiddleware db c of
             Inl code \<Rightarrow> Inl code
           | Inr region \<Rightarrow>
               (case run_gates ((\<lambda>_. DataResidency env regions region) # gates) c of Some code \<Rightarrow> Inl code | None \<Rightarrow> Inr c)))"

definition employer_request ::
  "identity_env \<Rightarrow> jwt_env \<Rightarrow> string list \<Rightarrow> time \<Rightarrow> ('z identity_db_scheme) \<Rightarrow> gate list \<Rightarrow> string \<Rightarrow> nat + Claims" where
  "employer_request env j regions now db route header =
     tenant_request env j regions now db
       ([RequireEmployer, RequireActiveEmployerUser (employer_user_IsActive db), RequirePasswordChanged] @ route) header"

definition worker_IsActive :: "('z identity_db_scheme) \<Rightarrow> string \<Rightarrow> bool res" where
  "worker_IsActive db employeeID = rbind (find_row (\<lambda>u. usr_employee u = employeeID) (users db)) (\<lambda>u. Inr (usr_active u))"

definition worker_request ::
  "identity_env \<Rightarrow> jwt_env \<Rightarrow> string list \<Rightarrow> time \<Rightarrow> ('z identity_db_scheme) \<Rightarrow> string \<Rightarrow> nat + Claims" where
  "worker_request env j regions now db header =
     tenant_request env j regions now db [RequireWorker, RequireActiveWorker (worker_IsActive db)] header"

subsection \<open>Logging in\<close>

definition employer_loginUser ::
  "identity_env \<Rightarrow> jwt_env \<Rightarrow> time \<Rightarrow> ('z identity_db_scheme) \<Rightarrow> string \<Rightarrow> string \<Rightarrow> (nat \<times> string option) \<times> ('z identity_db_scheme)" where
  "employer_loginUser env j now db email password =
     (case Authenticate env now db email password of
        (Inl e, db') \<Rightarrow> ((if e = ErrEmployerUserNotFound then 401 else 500, None), db')
      | (Inr u, db') \<Rightarrow>
          (case IssueUserToken j now (eu_org u) (eu_id u) (eu_role u) (eu_must_change u) now (8 * Hour) of
             Inl _ \<Rightarrow> ((500, None), db')
           | Inr token \<Rightarrow> ((200, Some token), db')))"

record login_request =
  lr_email :: string
  lr_org :: string
  lr_password :: string

text \<open>\<open>orgPassword\<close> is the password column of the organizations, which nothing else reads.\<close>

definition Login ::
  "identity_env \<Rightarrow> jwt_env \<Rightarrow> (string \<Rightarrow> string) \<Rightarrow> time \<Rightarrow> ('z identity_db_scheme) \<Rightarrow> login_request option
     \<Rightarrow> (nat \<times> string option) \<times> ('z identity_db_scheme)" where
  "Login env j orgPassword now db body =
     (case body of
        None \<Rightarrow> ((400, None), db)
      | Some req \<Rightarrow>
          if lr_password req = [] \<or> (lr_email req = [] \<and> lr_org req = []) then ((400, None), db)
          else if lr_email req \<noteq> [] then employer_loginUser env j now db (lr_email req) (lr_password req)
          else (case find_row (\<lambda>o1. org_id o1 = lr_org req) (organizations db) of
                  Inl _ \<Rightarrow> ((401, None), db)
                | Inr o1 \<Rightarrow>
                    if \<not> ie_matches env (orgPassword (org_id o1)) (lr_password req) then ((401, None), db)
                    else if \<not> org_active o1 \<or> org_is_d2c o1 then ((401, None), db)
                    else (case IssueToken j now (org_id o1) (org_role o1) (8 * Hour) of
                            Inl _ \<Rightarrow> ((500, None), db)
                          | Inr token \<Rightarrow> ((200, Some token), db))))"

text \<open>\<open>RefreshToken\<close> behind the gates of its route.\<close>

definition RefreshToken :: "jwt_env \<Rightarrow> time \<Rightarrow> ('z identity_db_scheme) \<Rightarrow> string \<Rightarrow> nat \<times> string option" where
  "RefreshToken j now db header =
     (case JWTAuth j now header of
        Inl code \<Rightarrow> (code, None)
      | Inr c \<Rightarrow>
          (case RequireEmployer c of
             Some code \<Rightarrow> (code, None)
           | None \<Rightarrow>
               (case AuthTime c of
                  None \<Rightarrow> (401, None)
                | Some authTime \<Rightarrow>
                    if MaxSessionAge < now - authTime then (401, None)
                    else (case find_row (\<lambda>o1. org_id o1 = cl_org c) (organizations db) of
                            Inl _ \<Rightarrow> (401, None)
                          | Inr o1 \<Rightarrow>
                              if \<not> org_active o1 then (401, None)
                              else if cl_user c \<noteq> [] \<and> employer_user_IsActive db (cl_org c) (cl_user c) \<noteq> Inr True then (401, None)
                              else (case IssueUserToken j now (cl_org c) (cl_user c) (cl_role c) (cl_must_change c) authTime (8 * Hour) of
                                      Inl _ \<Rightarrow> (500, None)
                                    | Inr token \<Rightarrow> (200, Some token))))))"

text \<open>\<open>ChangePassword\<close> behind the gates of its route; the body is \<open>None\<close> when it does not bind.\<close>

definition handle_ChangePassword ::
  "identity_env \<Rightarrow> jwt_env \<Rightarrow> string \<Rightarrow> time \<Rightarrow> ('z identity_db_scheme) \<Rightarrow> string \<Rightarrow> (string \<times> string) option
     \<Rightarrow> (nat \<times> string option) \<times> ('z identity_db_scheme)" where
  "handle_ChangePassword env j ip now db header body =
     (case JWTAuth j now header of
        Inl code \<Rightarrow> ((code, None), db)
      | Inr c \<Rightarrow>
          (case run_gates [RequireEmployer, RequireActiveEmployerUser (employer_user_IsActive db)] c of
             Some code \<Rightarrow> ((code, None), db)
           | None \<Rightarrow>
               if cl_user c = [] then ((403, None), db)
               else (case body of
                       None \<Rightarrow> ((400, None), db)
                     | Some (current, nxt) \<Rightarrow>
                         if current = [] \<or> nxt = [] then ((400, None), db)
                         else (case employer_ChangePassword env now db (cl_org c) (cl_user c) current nxt ip of
                                 (Inr _, db') \<Rightarrow>
                                   (case IssueUserToken j now (cl_org c) (cl_user c) (cl_role c) False
                                           (case AuthTime c of None \<Rightarrow> ZeroTime | Some t \<Rightarrow> t) (8 * Hour) of
                                      Inl _ \<Rightarrow> ((200, None), db')
                                    | Inr token \<Rightarrow> ((200, Some token), db'))
                               | (Inl e, db') \<Rightarrow>
                                   ((if e = ErrWrongPassword then 401 else if e = ErrInvalidEmployerUser then 400 else 500, None), db')))))"

subsection \<open>Workers\<close>

definition FindByPhone :: "('z identity_db_scheme) \<Rightarrow> string \<Rightarrow> User res" where
  "FindByPhone db phone = find_row (\<lambda>u. usr_phone u = phone) (users db)"

definition RequestOTP ::
  "(string \<Rightarrow> string) \<Rightarrow> bool \<Rightarrow> issue_replies \<Rightarrow> time \<Rightarrow> string res \<Rightarrow> ('z identity_db_scheme) \<Rightarrow> string option \<Rightarrow> counted redis
     \<Rightarrow> nat \<times> (string \<times> string) list \<times> counted redis" where
  "RequestOTP BlindIndex available rp now code db phone r =
     (case phone of
        None \<Rightarrow> (400, [], r)
      | Some phone \<Rightarrow>
          if phone = [] then (400, [], r)
          else if \<not> available then (503, [], r)
          else
            let user = FindByPhone db phone;
                deliver = (case user of Inl _ \<Rightarrow> False | Inr u \<Rightarrow> usr_active u)
            in if (case user of Inl e \<Rightarrow> e \<noteq> ErrRecordNotFound | Inr _ \<Rightarrow> False) then (500, [], r)
               else (case Issue BlindIndex available rp now code phone deliver r of
                       (Inl e, sent, r') \<Rightarrow> (if e = ErrOTPRateLimited then 429 else 500, sent, r')
                     | (Inr _, sent, r') \<Rightarrow> (202, sent, r')))"

definition WorkerLogin ::
  "(string \<Rightarrow> string) \<Rightarrow> jwt_env \<Rightarrow> bool \<Rightarrow> reply \<Rightarrow> time \<Rightarrow> ('z identity_db_scheme) \<Rightarrow> (string \<times> string) option \<Rightarrow> counted redis
     \<Rightarrow> (nat \<times> string option) \<times> counted redis" where
  "WorkerLogin BlindIndex j available reply now db body r =
     (case body of
        None \<Rightarrow> ((400, None), r)
      | Some (phone, otp) \<Rightarrow>
          if phone = [] \<or> otp = [] then ((400, None), r)
          else if \<not> available then ((503, None), r)
          else (case Verify BlindIndex available reply now phone otp r of
                  (Inl _, r') \<Rightarrow> ((500, None), r')
                | (Inr ok, r') \<Rightarrow>
                    if \<not> ok then ((401, None), r')
                    else (case FindByPhone db phone of
                            Inl _ \<Rightarrow> ((401, None), r')
                          | Inr user \<Rightarrow>
                              if \<not> usr_active user then ((401, None), r')
                              else (case IssueWorkerToken j now (usr_org user) (usr_employee user) (8 * Hour) of
                                      Inl _ \<Rightarrow> ((500, None), r')
                                    | Inr token \<Rightarrow> ((200, Some token), r')))))"


subsection \<open>What an admitted request shows\<close>

lemma run_gates_append: "run_gates (gs @ hs) c = None \<longleftrightarrow> run_gates gs c = None \<and> run_gates hs c = None"
  by (induction gs) (auto split: option.split)

lemma run_gates_None: "run_gates gs c = None \<longleftrightarrow> (\<forall>g \<in> set gs. g c = None)"
  by (induction gs) (auto split: option.split)

lemma JWTAuth_Inr: "JWTAuth j now header = Inr c \<longleftrightarrow>
    (\<exists>token e. header = ''Bearer '' @ token \<and> je_verify j token = Some c \<and> cl_expires c = Some e \<and> now < e * 10 ^ 9)"
proof -
  have "strip_prefix p s = Some t \<longleftrightarrow> s = p @ t" for p s t :: string
    by (induction p s rule: strip_prefix.induct) auto
  then show ?thesis by (auto simp: JWTAuth_def split: option.splits if_splits)
qed

lemma tenant_request_Inr:
  "tenant_request env j regions now db gates header = Inr c \<longleftrightarrow>
     JWTAuth j now header = Inr c \<and> cl_org c \<noteq> [] \<and>
     (\<exists>o1. find_row (\<lambda>o1. org_id o1 = cl_org c) (organizations db) = Inr o1 \<and> org_active o1 \<and> DataResidency env regions (org_region o1) = None) \<and>
     run_gates gates c = None"
  by (auto simp: tenant_request_def TenantMiddleware_def split: sum.splits option.splits if_splits)

text \<open>
  Who gets past the gates. An employer request is admitted only on an unexpired token the server signed, for an
  existing active organization in an allowed region, held by no worker, after a forced password change, by a
  person who is active at that moment, and only if the route's role gate agrees; a worker request only for a worker whose login
  is active at that moment. No token opens both groups.
\<close>

theorem gates_sound:
  assumes "employer_request env j regions now db route header = Inr c \<or> worker_request env j regions now db header = Inr c"
  shows "(\<exists>token e. header = ''Bearer '' @ token \<and> je_verify j token = Some c \<and> cl_expires c = Some e \<and> now < e * 10 ^ 9) \<and>
    (\<exists>o1 \<in> set (organizations db). org_id o1 = cl_org c \<and> org_active o1 \<and> DataResidency env regions (org_region o1) = None) \<and>
    (employer_request env j regions now db route header = Inr c \<longrightarrow>
       cl_role c \<noteq> ''employee'' \<and> \<not> cl_must_change c \<and> (\<forall>g \<in> set route. g c = None) \<and>
       (cl_user c = [] \<or> (\<exists>u \<in> set (employer_users db). eu_id u = cl_user c \<and> eu_org u = cl_org c \<and> eu_active u)) \<and>
       (\<forall>d. worker_request env j regions now db header \<noteq> Inr d)) \<and>
    (worker_request env j regions now db header = Inr c \<longrightarrow>
       cl_role c = ''employee'' \<and> (\<exists>u \<in> set (users db). usr_employee u = cl_employee c \<and> usr_active u))"
proof -
  have auth: "JWTAuth j now header = Inr c" "\<exists>o1. find_row (\<lambda>o1. org_id o1 = cl_org c) (organizations db) = Inr o1 \<and> org_active o1 \<and>
      DataResidency env regions (org_region o1) = None"
    using assms by (auto simp: employer_request_def worker_request_def tenant_request_Inr)
  have "\<exists>u \<in> set (employer_users db). eu_id u = cl_user c \<and> eu_org u = cl_org c \<and> eu_active u"
    if "employer_user_IsActive db (cl_org c) (cl_user c) = Inr True"
    using that by (auto simp: employer_user_IsActive_def dest!: find_row_Inr split: sum.splits if_splits)
  moreover have "\<exists>u \<in> set (users db). usr_employee u = cl_employee c \<and> usr_active u" if "worker_IsActive db (cl_employee c) = Inr True"
    using that by (auto simp: worker_IsActive_def go_results dest!: find_row_Inr)
  moreover have "\<exists>o1 \<in> set (organizations db). org_id o1 = cl_org c \<and> org_active o1 \<and> DataResidency env regions (org_region o1) = None"
    using auth(2) by (auto dest!: find_row_Inr)
  ultimately show ?thesis using auth(1)
    unfolding employer_request_def worker_request_def tenant_request_Inr run_gates_append run_gates_None JWTAuth_Inr [symmetric]
    by (auto simp: RequireEmployer_def RequirePasswordChanged_def RequireActiveEmployerUser_def RequireWorker_def RequireActiveWorker_def split: if_splits)
qed

text \<open>What an update leaves in the row the gates look up.\<close>

lemma Update_row:
  assumes "employer_Update t0 db0 orgID userID upd actor = (Inr u, db)" "people_ok env (employer_users db0)"
  shows "find_row (\<lambda>r. eu_id r = userID \<and> eu_org r = orgID) (employer_users db) = Inr u \<and> organizations db = organizations db0 \<and>
    (case uu_role upd of None \<Rightarrow> True | Some r \<Rightarrow> eu_role u = r) \<and> (case uu_active upd of None \<Rightarrow> True | Some a \<Rightarrow> eu_active u = a)"
proof -
  from assms(1) have body: "update_user_body t0 orgID userID upd actor db0 = Inr (u, db)"
    by (auto simp: employer_Update_def WithOrgScope_def split: if_splits sum.splits prod.splits)
  then obtain u0 where u0: "find_row (\<lambda>u. eu_id u = userID \<and> eu_org u = orgID) (employer_users db0) = Inr u0"
    by (auto simp: update_user_body_def split: sum.splits)
  note in_u = find_row_Inr [OF u0]
  define f :: "EmployerUser \<Rightarrow> EmployerUser" where "f = (\<lambda>r. r\<lparr>eu_role := (case uu_role upd of None \<Rightarrow> eu_role u0 | Some r \<Rightarrow> r),
      eu_active := (case uu_active upd of None \<Rightarrow> eu_active u0 | Some a \<Rightarrow> a), eu_updated_at := t0\<rparr>)"
  have rows: "employer_users db = update_where (\<lambda>r. eu_id r = userID) f (employer_users db0)" and u: "u = f u0"
      and orgs: "organizations db = organizations db0"
    using body u0 in_u by (auto simp: update_user_body_def f_def Let_def go_results dest!: AppendAuditTx_Inr split: if_splits)
  have "u \<in> set (employer_users db)" unfolding rows in_update_where u using in_u by (intro bexI [of _ u0]) simp_all
  moreover have "eu_id u = userID \<and> eu_org u = orgID" using in_u u by (simp add: f_def)
  moreover have "distinct (map eu_id (employer_users db))"
    using assms(2) unfolding rows by (simp add: people_ok_def map_update_where_same f_def)
  ultimately have "find_row (\<lambda>r. eu_id r = userID \<and> eu_org r = orgID) (employer_users db) = Inr u"
    using find_row_exists [of u "employer_users db" "\<lambda>r. eu_id r = userID \<and> eu_org r = orgID"]
    by (metis (mono_tags, lifting) distinct_map find_row_Inr inj_onD)
  then show ?thesis using u orgs by (auto simp: f_def split: option.split)
qed


text \<open>
  Deactivating a person takes effect at once. As long as the person is inactive, and so from the moment an update
  made them so, no token of theirs passes an employer route, refreshes or changes the password, and their password
  no longer logs in.
\<close>

theorem deactivated_refused:
  assumes up: "employer_Update t0 db0 orgID userID upd actor = (Inr u, db1)" "uu_active upd = Some False" "people_ok env (employer_users db0)"
    and id: "userID \<noteq> []"
  shows "employer_user_IsActive db1 orgID userID = Inr False \<and>
    (\<forall>db c header. employer_user_IsActive db orgID userID = Inr False \<and> cl_org c = orgID \<and> cl_user c = userID \<longrightarrow>
       (\<forall>regions now route. employer_request env j regions now db route header \<noteq> Inr c) \<and>
       (\<forall>now body. JWTAuth j now header = Inr c \<longrightarrow> snd (RefreshToken j now db header) = None \<and>
          (\<exists>code. handle_ChangePassword env j ip now db header body = ((code, None), db)))) \<and>
    (\<forall>now password. fst (Authenticate env now db1 (eu_email u) password) \<noteq> Inr u)"
proof -
  note row = Update_row [OF up(1,3)]
  then have inactive: "\<not> eu_active u" using up(2) by simp
  have "employer_user_IsActive db1 orgID userID = Inr False" using row inactive by (simp add: employer_user_IsActive_def)
  moreover have "employer_request env j regions now db route header \<noteq> Inr c"
    if "employer_user_IsActive db orgID userID = Inr False" "cl_org c = orgID" "cl_user c = userID" for db c regions now route header
    using that id by (auto simp: employer_request_def tenant_request_Inr RequireActiveEmployerUser_def split: option.splits)
  moreover have "snd (RefreshToken j now db header) = None \<and> (\<exists>code. handle_ChangePassword env j ip now db header body = ((code, None), db))"
    if "employer_user_IsActive db orgID userID = Inr False" "cl_org c = orgID" "cl_user c = userID" "JWTAuth j now header = Inr c" for db c now header body
    using that id by (auto simp: RefreshToken_def handle_ChangePassword_def RequireActiveEmployerUser_def split: option.split sum.split)
  moreover have "fst (Authenticate env now db1 (eu_email u) password) \<noteq> Inr u" for now password
    using inactive by (auto simp: Authenticate_def Let_def split: option.splits sum.splits if_splits)
  ultimately show ?thesis by blast
qed

text \<open>
  C19: a demotion does not take effect. A token carries the role of its login, and neither the role gate nor the refresh
  looks at the person's row: after a successful demotion of an admin who stays active, the old token still opens every
  admin route, and refreshing it gives new tokens with the admin role for a day after the login.
\<close>

theorem demoted_admin_keeps_role:
  assumes up: "employer_Update t0 db0 orgID userID upd actor = (Inr u, db)" "people_ok env (employer_users db0)"
    and demoted: "uu_role upd = Some r" "r \<noteq> EmployerRoleAdmin" "eu_active u"
    and token: "JWTAuth j now header = Inr c" "cl_org c = orgID" "cl_user c = userID" "cl_role c = EmployerRoleAdmin" "\<not> cl_must_change c"
    and org: "find_row (\<lambda>o1. org_id o1 = orgID) (organizations db) = Inr o1" "org_active o1" "DataResidency env regions (org_region o1) = None" "orgID \<noteq> []"
    and fresh: "AuthTime c = Some a" "now - a \<le> MaxSessionAge"
    and sign: "je_sign j (user_claims now orgID userID EmployerRoleAdmin False a (8 * Hour)) = Inr tok"
  shows "eu_role u = r \<and> employer_request env j regions now db [RequireRole EmployerRoleAdmin] header = Inr c \<and>
    RefreshToken j now db header = (200, Some tok)"
proof -
  note row = Update_row [OF up]
  then have active: "employer_user_IsActive db orgID userID = Inr True" using demoted(3) by (simp add: employer_user_IsActive_def)
  have "cl_role c \<noteq> ''employee''" using token(4) by (simp add: EmployerRoleAdmin_def)
  then have "employer_request env j regions now db [RequireRole EmployerRoleAdmin] header = Inr c"
    and "RefreshToken j now db header = (200, Some tok)"
    using token org active fresh sign
    by (simp_all add: employer_request_def tenant_request_Inr RequireEmployer_def RequireActiveEmployerUser_def RequirePasswordChanged_def
        RequireRole_def RefreshToken_def IssueUserToken_def)
  then show ?thesis using row demoted(1) by simp
qed

text \<open>Sessions: a login's token, and the tokens its refreshes return.\<close>

inductive employer_session :: "jwt_env \<Rightarrow> time \<Rightarrow> Claims \<Rightarrow> Claims \<Rightarrow> bool" for j t login where
  logged_in: "employer_session j t login login"
| refreshed: "employer_session j t login c \<Longrightarrow> JWTAuth j now header = Inr c \<Longrightarrow>
    RefreshToken j now (db :: identity_db) header = (200, Some token) \<Longrightarrow> je_verify j token = Some c' \<Longrightarrow> employer_session j t login c'"

text \<open>
  A session is bounded. However often it is refreshed, a login's session keeps its organization, person, role
  and login time, and its last token expires at most \<open>MaxSessionAge\<close> and the life of one token after the login.
\<close>

theorem session_bounded:
  assumes jwt: "\<And>c tok. je_sign j c = Inr tok \<Longrightarrow> je_verify j tok = Some c"
    and s: "employer_session j t (user_claims t orgID userID role must t (8 * Hour)) c"
  shows "cl_org c = orgID \<and> cl_user c = userID \<and> cl_role c = role \<and> cl_must_change c = must \<and> cl_auth_time c = Unix t \<and>
    (\<exists>e. cl_expires c = Some e \<and> e \<le> Unix (t + MaxSessionAge + 8 * Hour))"
  using s
proof (induction rule: employer_session.induct)
  case logged_in
  show ?case by (simp add: user_claims_def Unix_def MaxSessionAge_def Hour_def zdiv_mono1)
next
  case (refreshed c now header db token c')
  from refreshed.hyps(2,3) obtain a where a: "AuthTime c = Some a" "now - a \<le> MaxSessionAge"
    and sg: "je_sign j (user_claims now (cl_org c) (cl_user c) (cl_role c) (cl_must_change c) a (8 * Hour)) = Inr token"
    by (auto simp: RefreshToken_def IssueUserToken_def split: option.splits sum.splits if_splits)
  have c': "c' = user_claims now (cl_org c) (cl_user c) (cl_role c) (cl_must_change c) a (8 * Hour)"
    using jwt [OF sg] refreshed.hyps(4) by simp
  have "a = Unix t * 10 ^ 9" using a(1) refreshed.IH by (auto simp: AuthTime_def split: if_splits)
  then have "a \<le> t" "Unix a = Unix t" by (simp_all add: Unix_def)
  then show ?case using a(2) refreshed.IH unfolding c'
    by (simp add: user_claims_def Unix_def zdiv_mono1)
qed


subsection \<open>Examples\<close>

definition demo_admin :: "string \<Rightarrow> EmployerUser" where
  "demo_admin i = \<lparr>eu_id = i, eu_org = ''ORG-1'', eu_email = i, eu_name = [], eu_password_hash = ''pw'', eu_role = ''admin'', eu_active = True,
     eu_must_change = False, eu_last_login = None, eu_password_changed = None, eu_created_at = 0, eu_updated_at = 0\<rparr>"

definition demo_office :: identity_db where
  "demo_office = demo_people [demo_admin ''U-1'', demo_admin ''U-2'']"

definition demo_claims :: "time \<Rightarrow> Claims" where
  "demo_claims now = user_claims now ''ORG-1'' ''U-1'' ''admin'' False (10 ^ 9) (8 * Hour)"

text \<open>A signer of two tokens: a login at second 1 and its refresh at second 2.\<close>

definition demo_jwt :: jwt_env where
  "demo_jwt = \<lparr>je_sign = (\<lambda>c. if c = demo_claims (10 ^ 9) then Inr ''t1'' else if c = demo_claims (2 * 10 ^ 9) then Inr ''t2'' else Inl ErrScan),
     je_verify = (\<lambda>t. if t = ''t1'' then Some (demo_claims (10 ^ 9)) else if t = ''t2'' then Some (demo_claims (2 * 10 ^ 9)) else None)\<rparr>"

definition demo_demoted :: "EmployerUser res \<times> identity_db" where
  "demo_demoted = employer_Update 5 demo_office ''ORG-1'' ''U-1'' \<lparr>uu_role = Some ''viewer'', uu_active = None\<rparr> \<lparr>actor_name = [], actor_ip = []\<rparr>"

definition demo_removed :: "EmployerUser res \<times> identity_db" where
  "demo_removed = employer_Update 5 demo_office ''ORG-1'' ''U-1'' \<lparr>uu_role = None, uu_active = Some False\<rparr> \<lparr>actor_name = [], actor_ip = []\<rparr>"

lemma demo_office_ok: "people_ok demo_env (employer_users demo_office)"
  by (simp add: people_ok_def demo_office_def demo_people_def demo_ewa_def ewa_db.defs identity_db.defs demo_admin_def demo_env_def)

theorem gates_sound_witness:
  "employer_request demo_env demo_jwt [''ng''] (2 * 10 ^ 9) demo_office [RequireRole ''admin''] ''Bearer t1'' = Inr (demo_claims (10 ^ 9)) \<and>
   (\<forall>d. worker_request demo_env demo_jwt [''ng''] (2 * 10 ^ 9) demo_office ''Bearer t1'' \<noteq> Inr d)"
proof -
  have "employer_request demo_env demo_jwt [''ng''] (2 * 10 ^ 9) demo_office [RequireRole ''admin''] ''Bearer t1'' = Inr (demo_claims (10 ^ 9))"
    by code_simp
  then show ?thesis using gates_sound [of demo_env demo_jwt "[''ng'']" "2 * 10 ^ 9" demo_office "[RequireRole ''admin'']" "''Bearer t1''"]
    by blast
qed

theorem deactivated_refused_witness:
  "employer_request demo_env demo_jwt [] (2 * 10 ^ 9) (snd demo_removed) [] ''Bearer t1'' \<noteq> Inr (demo_claims (10 ^ 9))"
proof -
  have ok: "case fst demo_removed of Inl _ \<Rightarrow> False | Inr u \<Rightarrow> True" by code_simp
  obtain r db where d: "demo_removed = (r, db)" by (cases demo_removed)
  from ok [unfolded d] obtain u where "r = Inr u" by (cases r) auto
  with d have run: "demo_removed = (Inr u, db)" by simp
  have c: "cl_org (demo_claims (10 ^ 9)) = ''ORG-1''" "cl_user (demo_claims (10 ^ 9)) = ''U-1''" by (simp_all add: demo_claims_def user_claims_def)
  have upd: "uu_active \<lparr>uu_role = None, uu_active = Some False\<rparr> = Some False" "''U-1'' \<noteq> []" by simp_all
  note ref = deactivated_refused [where j = demo_jwt and env = demo_env and ip = "[]", OF run [unfolded demo_removed_def] upd(1) demo_office_ok upd(2)]
  from ref have "employer_user_IsActive db ''ORG-1'' ''U-1'' = Inr False" by (rule conjunct1)
  with ref [THEN conjunct2, THEN conjunct1, THEN spec, of db, THEN spec, of "demo_claims (10 ^ 9)", THEN spec, of "''Bearer t1''"] c
  have "employer_request demo_env demo_jwt [] (2 * 10 ^ 9) db [] ''Bearer t1'' \<noteq> Inr (demo_claims (10 ^ 9))" by blast
  then show ?thesis unfolding run by simp
qed

theorem demoted_admin_keeps_role_witness:
  "\<exists>u db. demo_demoted = (Inr u, db) \<and> eu_role u = ''viewer'' \<and>
     employer_request demo_env demo_jwt [] (2 * 10 ^ 9) db [RequireRole EmployerRoleAdmin] ''Bearer t1'' = Inr (demo_claims (10 ^ 9)) \<and>
     RefreshToken demo_jwt (2 * 10 ^ 9) db ''Bearer t1'' = (200, Some ''t2'')"
proof -
  have ev: "case demo_demoted of (Inl _, _) \<Rightarrow> False | (Inr u, db) \<Rightarrow> eu_active u \<and> organizations db = [demo_organization]" by code_simp
  obtain r db where d: "demo_demoted = (r, db)" by (cases demo_demoted)
  from ev [unfolded d] obtain u where u: "r = Inr u" "eu_active u" "organizations db = [demo_organization]" by (cases r) auto
  note run = d [unfolded u(1)] u(2,3)
  have tok: "JWTAuth demo_jwt (2 * 10 ^ 9) ''Bearer t1'' = Inr (demo_claims (10 ^ 9))"
    "je_sign demo_jwt (user_claims (2 * 10 ^ 9) ''ORG-1'' ''U-1'' EmployerRoleAdmin False (10 ^ 9) (8 * Hour)) = Inr ''t2''"
    "AuthTime (demo_claims (10 ^ 9)) = Some (10 ^ 9)" by code_simp+
  have org: "find_row (\<lambda>o1. org_id o1 = ''ORG-1'') (organizations db) = Inr demo_organization" "org_active demo_organization"
      "DataResidency demo_env [] (org_region demo_organization) = None"
    using run(3) by (simp_all add: find_row_def demo_organization_def DataResidency_def)
  have "eu_role u = ''viewer'' \<and>
     employer_request demo_env demo_jwt [] (2 * 10 ^ 9) db [RequireRole EmployerRoleAdmin] ''Bearer t1'' = Inr (demo_claims (10 ^ 9)) \<and>
     RefreshToken demo_jwt (2 * 10 ^ 9) db ''Bearer t1'' = (200, Some ''t2'')"
    by (intro demoted_admin_keeps_role [OF run(1) [unfolded demo_demoted_def] demo_office_ok _ _ run(2) tok(1) _ _ _ _ org _ tok(3) _ tok(2)])
       (simp_all add: demo_claims_def user_claims_def EmployerRoleAdmin_def MaxSessionAge_def Hour_def)
  then show ?thesis using run(1) by blast
qed

theorem session_bounded_witness:
  "RefreshToken demo_jwt (2 * 10 ^ 9) demo_office ''Bearer t1'' = (200, Some ''t2'') \<and>
   (\<exists>e. cl_expires (demo_claims (2 * 10 ^ 9)) = Some e \<and> e \<le> Unix (10 ^ 9 + MaxSessionAge + 8 * Hour))"
proof -
  have r: "RefreshToken demo_jwt (2 * 10 ^ 9) demo_office ''Bearer t1'' = (200, Some ''t2'')"
    and a: "JWTAuth demo_jwt (2 * 10 ^ 9) ''Bearer t1'' = Inr (demo_claims (10 ^ 9))"
    and v: "je_verify demo_jwt ''t2'' = Some (demo_claims (2 * 10 ^ 9))" by code_simp+
  have "employer_session demo_jwt (10 ^ 9) (demo_claims (10 ^ 9)) (demo_claims (2 * 10 ^ 9))"
    by (rule employer_session.refreshed [OF employer_session.logged_in a r v])
  moreover have "je_verify demo_jwt tok = Some c" if "je_sign demo_jwt c = Inr tok" for c tok
    using that by (auto simp: demo_jwt_def split: if_splits)
  ultimately show ?thesis using session_bounded [of demo_jwt "10 ^ 9" "''ORG-1''" "''U-1''" "''admin''" False "demo_claims (2 * 10 ^ 9)"] r
    by (simp add: demo_claims_def)
qed

end
