(* ===== verification/Bank_Links.thy ===== *)
theory Bank_Links
  imports EWA_Service
begin

text \<open>
  The worker's linked bank account (\<open>d2c_bank_link_handler.go\<close>): linking, authorizing debits, and withdrawing
  either. The aggregator is the record of functions \<open>DebitProvider\<close>; a handler without one is given \<open>None\<close>.
  A handler returns the status code it answers and the database it leaves.
\<close>

record LinkedAccount =
  ProviderAccountRef :: string
  AccountName :: string
  BankName :: string

record DebitResult =
  dr_accepted :: bool
  dr_reference :: string
  dr_message :: string

record DebitProvider =
  dp_name :: string
  dp_initiate_link :: "string \<Rightarrow> (string \<times> string) res"
  dp_complete_link :: "string \<Rightarrow> LinkedAccount res"
  dp_transactions :: "string \<Rightarrow> time \<Rightarrow> Transaction list res"
  dp_authorize :: "string \<Rightarrow> string res"
  dp_debit :: "string \<Rightarrow> money \<Rightarrow> string \<Rightarrow> DebitResult res"

definition ConsentTypeD2CDebitMandate :: string where
  "ConsentTypeD2CDebitMandate = ''d2c_debit_mandate''"

text \<open>The row with the constraints of its table: the primary key and one linked account per provider.\<close>

definition insert_link :: "D2CBankLink \<Rightarrow> D2CBankLink list \<Rightarrow> D2CBankLink list res" where
  "insert_link l rows =
     (if list_ex (\<lambda>r. bl_org r = bl_org l \<and> bl_employee r = bl_employee l \<and> bl_provider r = bl_provider l \<and>
                      bl_status r = D2CBankLinkLinked \<and> bl_status l = D2CBankLinkLinked) rows
      then Inl ErrUniqueViolation else insert_row bl_id l rows)"

definition update_link :: "('z link_db_scheme) \<Rightarrow> D2CBankLink \<Rightarrow> (D2CBankLink \<Rightarrow> D2CBankLink) \<Rightarrow> ('z link_db_scheme)" where
  "update_link db link f = db\<lparr>bank_links := update_where (\<lambda>r. bl_id r = bl_id link) f (bank_links db)\<rparr>"

definition create_consent ::
  "('z link_db_scheme) \<Rightarrow> string \<Rightarrow> string \<Rightarrow> string \<Rightarrow> bool \<Rightarrow> string \<Rightarrow> string \<Rightarrow> time \<Rightarrow> time option \<Rightarrow> ('z link_db_scheme) res" where
  "create_consent db orgID employeeID consentType granted ip agent now expires =
     rbind (insert_row con_id (ConsentRecord_BeforeCreate db
              \<lparr>con_id = [], con_org = orgID, con_employee = employeeID, con_type = consentType, con_granted = granted,
               con_ip = ip, con_agent = agent, con_at = now, con_expires = expires\<rparr>) (consent_records db)) (\<lambda>rows.
     Inr ((take_uuid db)\<lparr>consent_records := rows\<rparr>))"

definition InitiateLink :: "DebitProvider option \<Rightarrow> string \<Rightarrow> nat \<times> (string \<times> string) option" where
  "InitiateLink provider employeeID =
     (case provider of
        None \<Rightarrow> (503, None)
      | Some p \<Rightarrow> (case dp_initiate_link p employeeID of Inl _ \<Rightarrow> (503, None) | Inr session \<Rightarrow> (200, Some session)))"

text \<open>
  A request body is \<open>None\<close> when it does not decode. A required boolean must be \<open>true\<close>, a required
  string not empty.
\<close>

definition CompleteLink ::
  "DebitProvider option \<Rightarrow> time \<Rightarrow> string \<Rightarrow> string \<Rightarrow> ('z link_db_scheme) \<Rightarrow> string \<Rightarrow> string \<Rightarrow> (string \<times> bool) option
     \<Rightarrow> nat \<times> ('z link_db_scheme)" where
  "CompleteLink provider now ip agent db orgID employeeID body =
     (case provider of
        None \<Rightarrow> (503, db)
      | Some p \<Rightarrow>
          (case body of
             None \<Rightarrow> (400, db)
           | Some (token, consent) \<Rightarrow>
               if token = [] \<or> \<not> consent then (400, db)
               else (case dp_complete_link p token of
                       Inl _ \<Rightarrow> (502, db)
                     | Inr account \<Rightarrow>
                         (case WithOrgScope db (\<lambda>db.
                            let link = D2CBankLink_BeforeCreate db
                                  \<lparr>bl_id = [], bl_org = orgID, bl_employee = employeeID, bl_provider = dp_name p,
                                   bl_account_ref = ProviderAccountRef account, bl_status = D2CBankLinkLinked, bl_mandate_ref = None,
                                   bl_debit_authorized_at = None, bl_linked_at = now, bl_revoked_at = None, bl_last_synced_at = None\<rparr>
                            in rbind (insert_link link (bank_links db)) (\<lambda>rows.
                               rbind (create_consent ((take_uuid db)\<lparr>bank_links := rows\<rparr>) orgID employeeID ConsentTypeD2CBankLinkRead True
                                        ip agent now (Some (AddDate now 1 0 0))) (\<lambda>db'. Inr ((), db'))))
                          of (Inl _, db') \<Rightarrow> (500, db') | (Inr _, db') \<Rightarrow> (201, db')))))"

definition AuthorizeDebit ::
  "DebitProvider option \<Rightarrow> time \<Rightarrow> string \<Rightarrow> string \<Rightarrow> ('z link_db_scheme) \<Rightarrow> string \<Rightarrow> string \<Rightarrow> bool option
     \<Rightarrow> nat \<times> ('z link_db_scheme)" where
  "AuthorizeDebit provider now ip agent db orgID employeeID body =
     (case provider of
        None \<Rightarrow> (503, db)
      | Some p \<Rightarrow>
          if body \<noteq> Some True then (400, db)
          else (case linked_account db orgID employeeID of
                  Inl e \<Rightarrow> (if e = ErrRecordNotFound then 404 else 500, db)
                | Inr link \<Rightarrow>
                    (case dp_authorize p (bl_account_ref link) of
                       Inl _ \<Rightarrow> (502, db)
                     | Inr mandateRef \<Rightarrow>
                         (case WithOrgScope db (\<lambda>db.
                            rbind (create_consent
                                     (update_link db link (\<lambda>l. l\<lparr>bl_mandate_ref := Some mandateRef, bl_debit_authorized_at := Some now\<rparr>))
                                     orgID employeeID ConsentTypeD2CDebitMandate True ip agent now (Some (AddDate now 1 0 0))) (\<lambda>db'.
                            Inr ((), db')))
                          of (Inl _, db') \<Rightarrow> (500, db') | (Inr _, db') \<Rightarrow> (200, db')))))"

text \<open>The answer of the two withdrawals.\<close>

definition withdrawal_code :: "unit res \<Rightarrow> nat" where
  "withdrawal_code r = (case r of Inl e \<Rightarrow> if e = ErrRecordNotFound then 404 else 500 | Inr _ \<Rightarrow> 200)"

definition RevokeDebitMandate ::
  "time \<Rightarrow> string \<Rightarrow> string \<Rightarrow> ('z link_db_scheme) \<Rightarrow> string \<Rightarrow> string \<Rightarrow> nat \<times> ('z link_db_scheme)" where
  "RevokeDebitMandate now ip agent db orgID employeeID =
     map_prod withdrawal_code id (WithOrgScope db (\<lambda>db.
       rbind (linked_account db orgID employeeID) (\<lambda>link.
         if bl_mandate_ref link = None then Inr ((), db)
         else
           rbind (create_consent (update_link db link (\<lambda>l. l\<lparr>bl_mandate_ref := None, bl_debit_authorized_at := None\<rparr>))
                    orgID employeeID ConsentTypeD2CDebitMandate False ip agent now None) (\<lambda>db'.
           Inr ((), db')))))"

definition Revoke ::
  "time \<Rightarrow> string \<Rightarrow> string \<Rightarrow> ('z link_db_scheme) \<Rightarrow> string \<Rightarrow> string \<Rightarrow> nat \<times> ('z link_db_scheme)" where
  "Revoke now ip agent db orgID employeeID =
     map_prod withdrawal_code id (WithOrgScope db (\<lambda>db.
       rbind (linked_account db orgID employeeID) (\<lambda>link.
       rbind (create_consent (update_link db link (\<lambda>l. l\<lparr>bl_status := D2CBankLinkRevoked, bl_revoked_at := Some now\<rparr>))
                orgID employeeID ConsentTypeD2CBankLinkRead False ip agent now None) (\<lambda>db1.
         if bl_mandate_ref link = None then Inr ((), db1)
         else
           rbind (create_consent db1 orgID employeeID ConsentTypeD2CDebitMandate False ip agent now None) (\<lambda>db2.
           Inr ((), db2))))))"

end
