(* ===== verification/D2C_Signup.thy ===== *)
theory D2C_Signup
  imports Employee_Records Access_Control Bank_Links
begin

text \<open>
  Signing up without an employer (\<open>d2c_handler.go\<close>): one transaction creates the worker's own organization, employee
  row, login and record of the disclosure; then a worker token is issued. The random password of the organization only
  closes its employer login, and matters here only by failing: the parameter \<open>password_set\<close>.
\<close>

record signup_request =
  ds_name :: string
  ds_phone :: string
  ds_email :: string
  ds_account :: string
  ds_bank :: string
  ds_bvn :: string
  ds_currency :: Currency
  ds_accepted :: bool

definition ConsentTypeD2CDisclosure :: string where
  "ConsentTypeD2CDisclosure = ''d2c_direct_debit_disclosure''"

definition signup_currency :: "signup_request \<Rightarrow> Currency" where
  "signup_currency req = (if ds_currency req = [] then NGN else ds_currency req)"

definition check_signup :: "(string \<Rightarrow> bool) \<Rightarrow> signup_request \<Rightarrow> bool" where
  "check_signup binds_email req \<longleftrightarrow>
     (let c = signup_currency req
      in ds_name req \<noteq> [] \<and> ds_phone req \<noteq> [] \<and> ds_email req \<noteq> [] \<and> binds_email (ds_email req) \<and> ds_account req \<noteq> [] \<and>
         ds_bank req \<noteq> [] \<and> ds_accepted req \<and> Currency_IsValid c \<and> (c = NGN \<longrightarrow> valid_BVN (ds_bvn req)) \<and>
         valid_Phone (ds_phone req) \<and> BankDetails c (ds_account req) (ds_bank req) = [])"

definition signup_body ::
  "(string \<Rightarrow> string) \<Rightarrow> time \<Rightarrow> signup_request \<Rightarrow> string \<Rightarrow> string \<Rightarrow> ('z ewa_db_scheme)
     \<Rightarrow> ((string \<times> string) \<times> 'z ewa_db_scheme) res" where
  "signup_body BlindIndex now req ip agent db =
     (let o1 = Organization_BeforeCreate db
            \<lparr>org_id = [], org_name = ds_name req, org_role = EmployerRoleAdmin, org_region = ''ng'',
             org_currency = signup_currency req, org_is_d2c = True, org_active = True\<rparr>
      in rbind (insert_row org_id o1 (organizations db)) (\<lambda>orgs.
         let db1 = (take_uuid db)\<lparr>organizations := orgs\<rparr>;
             emp = Employee_BeforeCreate db1
               \<lparr>emp_id = [], emp_org = org_id o1, emp_name = ds_name req, emp_email = ds_email req, emp_account_number = ds_account req,
                emp_bank_code = ds_bank req, emp_salary = 0, emp_wage_type = WageSalaried, emp_hourly_rate = 0, emp_active = True,
                emp_created_at = now\<rparr>
         in rbind (insert_employee BlindIndex emp (employees db1)) (\<lambda>emps.
            let db2 = (take_uuid db1)\<lparr>employees := emps\<rparr>
            in rbind (insert_login (new_login db2 (emp_id emp) (org_id o1) (ds_phone req)) (users db2)) (\<lambda>rows.
               let db3 = (take_uuid db2)\<lparr>users := rows\<rparr>;
                   record = ConsentRecord_BeforeCreate db3
                     \<lparr>con_id = [], con_org = org_id o1, con_employee = emp_id emp, con_type = ConsentTypeD2CDisclosure, con_granted = True,
                      con_ip = ip, con_agent = agent, con_at = now, con_expires = Some (AddDate now 1 0 0)\<rparr>
               in rbind (insert_row con_id record (consent_records db3)) (\<lambda>cons.
                  rbind (AppendAuditTx ((take_uuid db3)\<lparr>consent_records := cons\<rparr>) (org_id o1) ''Organization'' (org_id o1) ''d2c_signup''
                           [] (ds_name req) ip []) (\<lambda>db4.
                  Inr ((org_id o1, emp_id emp), db4)))))))"

text \<open>The answer (status; token, organization and employee on 201), the BVN checks queued, the database.\<close>

definition Signup ::
  "jwt_env \<Rightarrow> (string \<Rightarrow> bool) \<Rightarrow> (string \<Rightarrow> string) \<Rightarrow> bool \<Rightarrow> bool \<Rightarrow> time \<Rightarrow> ('z ewa_db_scheme) \<Rightarrow> signup_request \<Rightarrow> string \<Rightarrow> string
     \<Rightarrow> (nat \<times> (string \<times> string \<times> string) option) \<times> (string \<times> string \<times> string) list \<times> ('z ewa_db_scheme)" where
  "Signup j binds_email BlindIndex bankLinkUnavailable password_set now db req ip agent =
     (if bankLinkUnavailable then ((503, None), [], db)
      else if \<not> check_signup binds_email req then ((400, None), [], db)
      else if \<not> password_set then ((500, None), [], db)
      else (case WithOrgScope db (signup_body BlindIndex now req ip agent) of
              (Inl e, db') \<Rightarrow> ((if e = ErrUniqueViolation then 409 else 500, None), [], db')
            | (Inr (orgID, employeeID), db') \<Rightarrow>
                (case IssueWorkerToken j now orgID employeeID (8 * Hour) of
                   Inl _ \<Rightarrow> ((500, None), if signup_currency req = NGN then [(orgID, employeeID, ds_bvn req)] else [], db')
                 | Inr token \<Rightarrow> ((201, Some (token, orgID, employeeID)),
                     if signup_currency req = NGN then [(orgID, employeeID, ds_bvn req)] else [], db'))))"

lemma signup_body_Inr:
  assumes "signup_body BlindIndex now req ip agent db = Inr ((orgID, employeeID), db')"
  shows "(\<exists>o1 e l c. organizations db' = organizations db @ [o1] \<and> employees db' = employees db @ [e] \<and> users db' = users db @ [l] \<and>
      consent_records db' = consent_records db @ [c] \<and>
      org_id o1 = orgID \<and> org_is_d2c o1 \<and> org_active o1 \<and> org_region o1 = ''ng'' \<and> org_currency o1 = signup_currency req \<and>
      emp_id e = employeeID \<and> emp_org e = orgID \<and> emp_active e \<and> emp_account_number e = ds_account req \<and>
      usr_employee l = employeeID \<and> usr_org l = orgID \<and> usr_phone l = ds_phone req \<and> usr_active l \<and>
      con_org c = orgID \<and> con_employee c = employeeID \<and> con_type c = ConsentTypeD2CDisclosure \<and> con_granted c \<and>
      con_expires c = Some (AddDate now 1 0 0)) \<and>
    orgID \<notin> org_id ` set (organizations db) \<and> employeeID \<notin> emp_id ` set (employees db) \<and>
    (\<forall>l \<in> set (users db). usr_employee l \<noteq> employeeID \<and> usr_phone l \<noteq> ds_phone req)"
  using assms
  by (auto simp: signup_body_def Let_def go_results insert_employee_def insert_login_def new_login_def Employee_BeforeCreate_def
      Organization_BeforeCreate_def ConsentRecord_BeforeCreate_def list_ex_iff take_uuid_def split: if_splits dest!: AppendAuditTx_Inr)

lemma Signup_201:
  assumes "Signup j binds_email BlindIndex unavailable password_set now db req ip agent = ((201, x), bvn, db')"
  obtains token orgID employeeID where "x = Some (token, orgID, employeeID)" "check_signup binds_email req"
    "signup_body BlindIndex now req ip agent db = Inr ((orgID, employeeID), db')" "IssueWorkerToken j now orgID employeeID (8 * Hour) = Inr token"
    "bvn = (if signup_currency req = NGN then [(orgID, employeeID, ds_bvn req)] else [])"
  using assms by (auto simp: Signup_def WithOrgScope_def split: if_splits sum.splits prod.splits)

text \<open>
  A sign-up that answers 201 has made exactly one active D2C organization with one active employee, one login for a phone
  nobody had, and the disclosure the worker accepted, on record for a year; nothing of anybody else changed. One that
  answers 400, 409 or 503 has left no trace and queued no check.
\<close>

theorem signup_exact:
  assumes run: "Signup j binds_email BlindIndex unavailable password_set now db req ip agent = ((status, x), bvn, db')"
    and fk: "\<forall>c \<in> set (consent_records db). con_employee c \<in> emp_id ` set (employees db)"
  shows "(status \<in> {400, 409, 503} \<longrightarrow> db' = db \<and> bvn = [] \<and> x = None) \<and>
    (status = 201 \<longrightarrow> ds_accepted req \<and> (\<exists>token orgID employeeID o1 e l. x = Some (token, orgID, employeeID) \<and>
       organizations db' = organizations db @ [o1] \<and> org_id o1 = orgID \<and> org_is_d2c o1 \<and> org_active o1 \<and>
       employees db' = employees db @ [e] \<and> emp_id e = employeeID \<and> emp_org e = orgID \<and> emp_active e \<and>
       users db' = users db @ [l] \<and> usr_employee l = employeeID \<and> usr_phone l = ds_phone req \<and> ds_phone req \<notin> usr_phone ` set (users db) \<and>
       (\<forall>later. HasActiveConsent later db' orgID employeeID ConsentTypeD2CDisclosure = (later < AddDate now 1 0 0)) \<and>
       (\<forall>later o1 i ty. i \<noteq> employeeID \<longrightarrow> HasActiveConsent later db' o1 i ty = HasActiveConsent later db o1 i ty)))"
proof (intro conjI impI)
  assume "status \<in> {400, 409, 503}"
  then show "db' = db" "bvn = []" "x = None"
    using run by (auto simp: Signup_def WithOrgScope_def split: if_splits sum.splits prod.splits)
next
  assume "status = 201"
  then obtain token orgID employeeID where r: "x = Some (token, orgID, employeeID)" "check_signup binds_email req"
    "signup_body BlindIndex now req ip agent db = Inr ((orgID, employeeID), db')"
    using run by (auto elim: Signup_201)
  then show "ds_accepted req" by (simp add: check_signup_def Let_def)
  from signup_body_Inr [OF r(3)] obtain o1 e l c where rows:
    "organizations db' = organizations db @ [o1]" "employees db' = employees db @ [e]" "users db' = users db @ [l]"
    "consent_records db' = consent_records db @ [c]"
    and o1: "org_id o1 = orgID" "org_is_d2c o1" "org_active o1" and e: "emp_id e = employeeID" "emp_org e = orgID" "emp_active e"
    and l: "usr_employee l = employeeID" "usr_phone l = ds_phone req"
    and c: "con_org c = orgID" "con_employee c = employeeID" "con_type c = ConsentTypeD2CDisclosure" "con_granted c" "con_expires c = Some (AddDate now 1 0 0)"
    and new: "employeeID \<notin> emp_id ` set (employees db)" "\<forall>l \<in> set (users db). usr_employee l \<noteq> employeeID \<and> usr_phone l \<noteq> ds_phone req"
    by blast
  have old: "con_employee y \<noteq> employeeID" if "y \<in> set (consent_records db)" for y using fk new(1) that by metis
  then have "first_by (\<lambda>c. (- con_at c, con_id c))
      (\<lambda>c. con_org c = orgID \<and> con_employee c = employeeID \<and> con_type c = ConsentTypeD2CDisclosure) (consent_records db') = Inr c"
    using c rows by (intro first_by_unique) auto
  then have mine: "HasActiveConsent later db' orgID employeeID ConsentTypeD2CDisclosure = (later < AddDate now 1 0 0)" for later
    using c by (simp add: HasActiveConsent_def)
  have others: "HasActiveConsent later db' o2 i ty = HasActiveConsent later db o2 i ty" if "i \<noteq> employeeID" for later o2 i ty
    using that c by (simp add: HasActiveConsent_def first_by_def rows)
  have phone: "ds_phone req \<notin> usr_phone ` set (users db)" using new(2) by auto
  show "\<exists>token orgID employeeID o1 e l. x = Some (token, orgID, employeeID) \<and>
       organizations db' = organizations db @ [o1] \<and> org_id o1 = orgID \<and> org_is_d2c o1 \<and> org_active o1 \<and>
       employees db' = employees db @ [e] \<and> emp_id e = employeeID \<and> emp_org e = orgID \<and> emp_active e \<and>
       users db' = users db @ [l] \<and> usr_employee l = employeeID \<and> usr_phone l = ds_phone req \<and> ds_phone req \<notin> usr_phone ` set (users db) \<and>
       (\<forall>later. HasActiveConsent later db' orgID employeeID ConsentTypeD2CDisclosure = (later < AddDate now 1 0 0)) \<and>
       (\<forall>later o1 i ty. i \<noteq> employeeID \<longrightarrow> HasActiveConsent later db' o1 i ty = HasActiveConsent later db o1 i ty)"
    using r(1) rows o1 e l phone mine others by blast
qed

text \<open>
  The token of a sign-up opens the worker routes at once and for eight hours, as that worker of that organization and
  as nobody else, as long as the region gate admits \<open>ng\<close>; it opens no employer route.
\<close>

theorem signup_token_admits:
  fixes db :: "('z identity_db_scheme)"
  assumes run: "Signup j binds_email BlindIndex unavailable password_set now db req ip agent = ((201, Some (token, orgID, employeeID)), bvn, db')"
    and jwt: "\<And>c t. je_sign j c = Inr t \<Longrightarrow> je_verify j t = Some c"
    and region: "regions = [] \<or> ie_lower env ''ng'' \<in> set regions" and time: "later < Unix (now + 8 * Hour) * 10 ^ 9"
  shows "\<exists>c. worker_request env j regions later db' (''Bearer '' @ token) = Inr c \<and> cl_org c = orgID \<and> cl_employee c = employeeID \<and>
    employer_request env j regions later db' route (''Bearer '' @ token) = Inl 403"
proof -
  from run have b: "signup_body BlindIndex now req ip agent db = Inr ((orgID, employeeID), db')" and t: "IssueWorkerToken j now orgID employeeID (8 * Hour) = Inr token"
    by (auto elim: Signup_201)
  from signup_body_Inr [OF b] obtain o1 e l where rows: "organizations db' = organizations db @ [o1]" "users db' = users db @ [l]"
    and o1: "org_id o1 = orgID" "org_active o1" "org_region o1 = ''ng''" and l: "usr_employee l = employeeID" "usr_active l"
    and new: "orgID \<notin> org_id ` set (organizations db)" "\<forall>l \<in> set (users db). usr_employee l \<noteq> employeeID" by blast
  let ?c = "\<lparr>cl_org = orgID, cl_employee = employeeID, cl_role = ''employee'', cl_user = [], cl_must_change = False,
      cl_auth_time = 0, cl_expires = Some (Unix (now + 8 * Hour))\<rparr>"
  define h where "h = ''Bearer '' @ token"
  have verify: "JWTAuth j later h = Inr ?c"
    using jwt [of ?c token] t time by (simp add: h_def JWTAuth_def IssueWorkerToken_def)
  have ids: "orgID \<noteq> []" "employeeID \<noteq> []"
    using b by (auto simp: signup_body_def Let_def go_results Organization_BeforeCreate_def Employee_BeforeCreate_def fresh_id_def)
  have "find (\<lambda>o1. org_id o1 = orgID) (organizations db) = None" using new(1) by (simp add: find_None_iff) (metis image_eqI)
  then have "find_row (\<lambda>o1. org_id o1 = orgID) (organizations db') = Inr o1" using o1(1) by (simp add: rows find_row_def find_snoc)
  then have tenant: "TenantMiddleware db' ?c = Inr ''ng''" using o1 ids by (simp add: TenantMiddleware_def)
  have "find (\<lambda>u. usr_employee u = employeeID) (users db) = None" using new(2) by (simp add: find_None_iff)
  then have "find_row (\<lambda>u. usr_employee u = employeeID) (users db') = Inr l" using l(1) by (simp add: rows find_row_def find_snoc)
  then have "worker_IsActive db' employeeID = Inr True" using l by (simp add: worker_IsActive_def)
  then show ?thesis using region ids unfolding h_def [symmetric]
    by (auto simp: worker_request_def employer_request_def tenant_request_def verify tenant DataResidency_def RequireWorker_def
        RequireActiveWorker_def RequireEmployer_def)
qed

definition demo_signup :: signup_request where
  "demo_signup = \<lparr>ds_name = ''Ada'', ds_phone = ''+2348087654321'', ds_email = ''ada@b.ng'', ds_account = ''0123456789'',
     ds_bank = ''058'', ds_bvn = ''12345678901'', ds_currency = [], ds_accepted = True\<rparr>"

definition demo_worker_claims :: Claims where
  "demo_worker_claims = \<lparr>cl_org = ''ORG-00000000'', cl_employee = ''EMP-11111111'', cl_role = ''employee'', cl_user = [],
     cl_must_change = False, cl_auth_time = 0, cl_expires = Some 28800\<rparr>"

definition demo_worker_jwt :: jwt_env where
  "demo_worker_jwt = \<lparr>je_sign = (\<lambda>c. if c = demo_worker_claims then Inr ''t'' else Inl ErrScan),
     je_verify = (\<lambda>t. if t = ''t'' then Some demo_worker_claims else None)\<rparr>"

definition demo_empty :: identity_db where
  "demo_empty = ewa_db.extend (ewa_db.truncate demo_link) \<lparr>employer_users = []\<rparr>"

definition demo_signed_up :: "(nat \<times> (string \<times> string \<times> string) option) \<times> (string \<times> string \<times> string) list \<times> identity_db" where
  "demo_signed_up = Signup demo_worker_jwt (\<lambda>_. True) id False True 0 demo_empty demo_signup ''i'' ''a''"

lemma demo_signed_up_run:
  obtains bvn db where "demo_signed_up = ((201, Some (''t'', ''ORG-00000000'', ''EMP-11111111'')), bvn, db)"
proof -
  have "fst demo_signed_up = (201, Some (''t'', ''ORG-00000000'', ''EMP-11111111''))" by code_simp
  then show thesis using that by (metis prod.collapse)
qed

theorem signup_exact_witness:
  "\<exists>bvn db. demo_signed_up = ((201, Some (''t'', ''ORG-00000000'', ''EMP-11111111'')), bvn, db) \<and>
     length (users db) = Suc (length (users demo_empty)) \<and> HasActiveConsent 5 db ''ORG-00000000'' ''EMP-11111111'' ConsentTypeD2CDisclosure"
proof -
  obtain bvn db where run: "demo_signed_up = ((201, Some (''t'', ''ORG-00000000'', ''EMP-11111111'')), bvn, db)" by (rule demo_signed_up_run)
  have fk: "\<forall>c \<in> set (consent_records demo_empty). con_employee c \<in> emp_id ` set (employees demo_empty)" by code_simp
  have "5 < AddDate 0 1 0 0" by code_simp
  with signup_exact [OF run [unfolded demo_signed_up_def] fk]
  have "length (users db) = Suc (length (users demo_empty)) \<and> HasActiveConsent 5 db ''ORG-00000000'' ''EMP-11111111'' ConsentTypeD2CDisclosure"
    by auto
  with run show ?thesis by blast
qed

theorem signup_token_admits_witness:
  "\<exists>bvn db c. demo_signed_up = ((201, Some (''t'', ''ORG-00000000'', ''EMP-11111111'')), bvn, db) \<and>
     worker_request demo_env demo_worker_jwt [] 5 db (''Bearer '' @ ''t'') = Inr c \<and> cl_employee c = ''EMP-11111111''"
proof -
  obtain bvn db where run: "demo_signed_up = ((201, Some (''t'', ''ORG-00000000'', ''EMP-11111111'')), bvn, db)" by (rule demo_signed_up_run)
  have "5 < Unix (0 + 8 * Hour) * 10 ^ 9" by code_simp
  moreover have "je_sign demo_worker_jwt c = Inr t \<Longrightarrow> je_verify demo_worker_jwt t = Some c" for c t
    by (auto simp: demo_worker_jwt_def split: if_splits)
  ultimately have "\<exists>c. worker_request demo_env demo_worker_jwt [] 5 db (''Bearer '' @ ''t'') = Inr c \<and> cl_org c = ''ORG-00000000'' \<and>
      cl_employee c = ''EMP-11111111'' \<and> employer_request demo_env demo_worker_jwt [] 5 db [] (''Bearer '' @ ''t'') = Inl 403"
    by (intro signup_token_admits [OF run [unfolded demo_signed_up_def]]) simp_all
  with run show ?thesis by blast
qed

end
