(* ===== verification/Payroll_Reports.thy ===== *)
theory Payroll_Reports
  imports Payroll_Invariant
begin

text \<open>
  What workers and employers read off the payroll tables: a worker's payslips (\<open>payslip_service.go\<close>) and the cash
  forecast of an organization (\<open>analytics_service.go\<close>). The wallet balance is the answer of the Monnify client, a
  parameter. Page numbers are the positive ones \<open>pageParams\<close> lets through.
\<close>

subsection \<open>Payslips\<close>

datatype PayslipState = PayslipPaid | PayslipOnItsWay | PayslipFailed

record Payslip =
  ps_id :: string
  ps_payroll :: string
  ps_period :: string
  ps_state :: PayslipState
  ps_net :: Kobo
  ps_breakdown :: bool
  ps_gross :: "Kobo option"
  ps_advances :: "Kobo option"
  ps_savings :: "Kobo option"
  ps_paid_at :: "time option"
  ps_created_at :: time

definition toPayslip :: "PayrollItem \<times> string \<Rightarrow> Payslip" where
  "toPayslip = (\<lambda>(r, period).
     let p = \<lparr>ps_id = it_id r, ps_payroll = it_payroll r, ps_period = period, ps_state = PayslipOnItsWay, ps_net = it_amount r,
              ps_breakdown = (it_gross r \<noteq> None), ps_gross = it_gross r, ps_advances = it_advances r, ps_savings = it_savings r,
              ps_paid_at = None, ps_created_at = it_created_at r\<rparr>
     in (case it_status r of
           PayrollCompleted \<Rightarrow> p\<lparr>ps_state := PayslipPaid, ps_paid_at := it_settled_at r\<rparr>
         | PayrollFailed \<Rightarrow> p\<lparr>ps_state := PayslipFailed\<rparr>
         | _ \<Rightarrow> p))"

definition payslip_rows :: "('z payroll_db_scheme) \<Rightarrow> string \<Rightarrow> string \<Rightarrow> (PayrollItem \<times> string) list" where
  "payslip_rows db orgID employeeID =
     rev (sort_key (\<lambda>(i, _). (it_created_at i, it_id i))
       (concat (map (\<lambda>i. map (\<lambda>p. (i, pr_period p)) (filter (\<lambda>p. pr_id p = it_payroll i \<and> pr_org p = it_org i) (payrolls db)))
          (filter (\<lambda>i. it_org i = orgID \<and> it_employee i = employeeID) (payroll_items db)))))"

definition ListPayslips :: "('z payroll_db_scheme) \<Rightarrow> string \<Rightarrow> string \<Rightarrow> nat \<Rightarrow> nat \<Rightarrow> Payslip list \<times> nat" where
  "ListPayslips db orgID employeeID page pageSize =
     (map toPayslip (take pageSize (drop ((page - 1) * pageSize) (payslip_rows db orgID employeeID))),
      count_where (\<lambda>i. it_org i = orgID \<and> it_employee i = employeeID) (payroll_items db))"

lemma pages_concat: "concat (map (\<lambda>p. take psz (drop (p * psz) xs)) [0..<n]) = take (n * psz) xs"
proof (induction n)
  case (Suc n)
  then show ?case by (simp add: take_add [symmetric] add.commute [of psz])
qed simp

lemma joined_once:
  assumes "distinct (map pr_id ps)" "\<exists>p \<in> set ps. pr_id p = k \<and> pr_org p = o1"
  shows "length (filter (\<lambda>p. pr_id p = k \<and> pr_org p = o1) ps) = 1"
  using assms
proof (induction ps)
  case (Cons p ps)
  show ?case
  proof (cases "pr_id p = k \<and> pr_org p = o1")
    case True
    then have "filter (\<lambda>p. pr_id p = k \<and> pr_org p = o1) ps = []" using Cons.prems by (simp add: filter_empty_conv) (metis image_eqI)
    then show ?thesis using True by simp
  next
    case False
    then show ?thesis using Cons by auto
  qed
qed simp

lemma sorted_by_first: "sorted (map (\<lambda>x. (f x, g x)) xs) \<Longrightarrow> sorted (map f xs)"
  by (induction xs) (auto simp: less_eq_prod_def)

text \<open>
  A worker sees their own payslips and no others, each once: the pages put together are as many slips as the total says,
  newest first, and a slip says \<open>paid\<close> exactly for a payment that completed.
\<close>

theorem payslips_own_and_complete:
  assumes keys: "distinct (map pr_id (payrolls db))"
    and fk: "\<forall>i \<in> set (payroll_items db). \<exists>p \<in> set (payrolls db). pr_id p = it_payroll i \<and> pr_org p = it_org i"
    and psz: "0 < psz" "snd (ListPayslips db orgID employeeID 1 psz) \<le> pages * psz"
  shows "let slips = concat (map (\<lambda>p. fst (ListPayslips db orgID employeeID (Suc p) psz)) [0..<pages]) in
    length slips = snd (ListPayslips db orgID employeeID 1 psz) \<and> sorted (rev (map ps_created_at slips)) \<and>
    (\<forall>s \<in> set slips. \<exists>i \<in> set (payroll_items db). it_org i = orgID \<and> it_employee i = employeeID \<and> ps_id s = it_id i \<and>
       ps_net s = it_amount i \<and> (ps_state s = PayslipPaid \<longleftrightarrow> it_status i = PayrollCompleted))"
proof -
  let ?mine = "filter (\<lambda>i. it_org i = orgID \<and> it_employee i = employeeID) (payroll_items db)"
  let ?of = "\<lambda>i. filter (\<lambda>p. pr_id p = it_payroll i \<and> pr_org p = it_org i) (payrolls db)"
  let ?rows = "payslip_rows db orgID employeeID"
  have one: "length (?of i) = 1" if "i \<in> set (payroll_items db)" for i
    by (rule joined_once [OF keys]) (use fk that in blast)
  have "length ?rows = sum_list (map (\<lambda>i. length (?of i)) ?mine)"
    by (simp add: payslip_rows_def length_concat o_def)
  also have "\<dots> = sum_list (map (\<lambda>_. 1) ?mine)" by (rule arg_cong [of _ _ sum_list], rule map_cong) (use one in auto)
  finally have len: "length ?rows = length ?mine" by (simp add: sum_list_triv)
  have count: "snd (ListPayslips db orgID employeeID 1 psz) = length ?mine" by (simp add: ListPayslips_def count_where_def)
  have "concat (map (\<lambda>p. fst (ListPayslips db orgID employeeID (Suc p) psz)) [0..<pages]) =
      map toPayslip (concat (map (\<lambda>p. take psz (drop (p * psz) ?rows)) [0..<pages]))"
    by (simp add: ListPayslips_def map_concat o_def)
  also have "\<dots> = map toPayslip ?rows" unfolding pages_concat using psz(2) count len by simp
  finally have all: "concat (map (\<lambda>p. fst (ListPayslips db orgID employeeID (Suc p) psz)) [0..<pages]) = map toPayslip ?rows" .
  have created: "map ps_created_at (map toPayslip ?rows) = map (it_created_at \<circ> fst) ?rows"
    by (auto simp: toPayslip_def Let_def split: PayrollStatus.split)
  have "sorted (map (\<lambda>(i, _). (it_created_at i, it_id i)) (rev ?rows))" unfolding payslip_rows_def by simp
  then have "sorted (map (\<lambda>x. (it_created_at (fst x), it_id (fst x))) (rev ?rows))" by (simp add: case_prod_beta')
  from sorted_by_first [OF this] have "sorted (map (it_created_at \<circ> fst) (rev ?rows))" by (simp add: o_def)
  then have sorted: "sorted (rev (map ps_created_at (map toPayslip ?rows)))" unfolding created by (simp add: rev_map)
  have "\<exists>i \<in> set (payroll_items db). it_org i = orgID \<and> it_employee i = employeeID \<and> ps_id s = it_id i \<and>
       ps_net s = it_amount i \<and> (ps_state s = PayslipPaid \<longleftrightarrow> it_status i = PayrollCompleted)" if "s \<in> set (map toPayslip ?rows)" for s
    using that by (auto simp: payslip_rows_def toPayslip_def Let_def split: PayrollStatus.splits)
  then show ?thesis unfolding all Let_def using sorted len count by auto
qed

subsection \<open>The cash forecast\<close>

record PredictionResult =
  pd_amount :: Kobo
  pd_balance :: Kobo
  pd_risk :: string

definition FindCompleted :: "('z payroll_db_scheme) \<Rightarrow> string \<Rightarrow> nat \<Rightarrow> Payroll list" where
  "FindCompleted db orgID limit =
     take limit (sort_key (\<lambda>p. - pr_created_at p) (filter (\<lambda>p. pr_org p = orgID \<and> pr_status p = PayrollCompleted) (payrolls db)))"

text \<open>The loop over the payrolls and their weights: the weighted sum and the weight so far.\<close>

fun weigh :: "(Kobo \<times> int64) list \<Rightarrow> Kobo \<Rightarrow> int64 \<Rightarrow> (Kobo \<times> int64) res" where
  "weigh [] s w = Inr (s, w)"
| "weigh ((a, k) # xs) s w =
     rbind (Kobo_MulInt a k) (\<lambda>scaled. rbind (Kobo_Add s scaled) (\<lambda>s'. weigh xs s' (w + k)))"

definition forecast_weights :: "int64 list" where
  "forecast_weights = [3, 2, 1]"

definition predicted_amount :: "('z payroll_db_scheme) \<Rightarrow> string \<Rightarrow> Kobo res" where
  "predicted_amount db orgID =
     (let ps = FindCompleted db orgID 3
      in if ps = [] then Kobo_Sum (map emp_salary (filter (\<lambda>e. emp_org e = orgID \<and> emp_active e) (employees db)))
         else rbind (weigh (zip (map pr_total ps) forecast_weights) 0 0) (\<lambda>(s, w). Kobo_Percent s 1 w))"

definition risk_level :: "Kobo \<Rightarrow> Kobo \<Rightarrow> Kobo \<Rightarrow> string" where
  "risk_level bal predicted mediumThreshold =
     (if bal <s predicted then ''High'' else if bal <s mediumThreshold then ''Medium'' else ''Low'')"

definition GetPredictiveCashFlow :: "Kobo res \<Rightarrow> ('z payroll_db_scheme) \<Rightarrow> string \<Rightarrow> PredictionResult res" where
  "GetPredictiveCashFlow GetWalletBalance db orgID =
     rbind (predicted_amount db orgID) (\<lambda>predicted.
     rbind GetWalletBalance (\<lambda>bal.
     rbind (Kobo_Percent predicted 120 100) (\<lambda>mediumThreshold.
     Inr \<lparr>pd_amount = predicted, pd_balance = bal, pd_risk = risk_level bal predicted mediumThreshold\<rparr>)))"

lemma weigh_Inr:
  assumes "weigh xs s w = Inr (s', w')" "\<forall>(a, k) \<in> set xs. lo \<le> sint a \<and> sint a \<le> hi \<and> 0 \<le> sint k"
    "sint w + sum_list (map (sint \<circ> snd) xs) < 2 ^ 63" "0 \<le> sint w" "lo * sint w \<le> sint s" "sint s \<le> hi * sint w"
  shows "lo * sint w' \<le> sint s' \<and> sint s' \<le> hi * sint w' \<and> sint w' = sint w + sum_list (map (sint \<circ> snd) xs)"
  using assms
proof (induction xs arbitrary: s w)
  case (Cons x xs)
  obtain a k where x: "x = (a, k)" by (cases x)
  from Cons.prems(1) obtain sc s1 where m: "Kobo_MulInt a k = Inr sc" "Kobo_Add s sc = Inr s1" "weigh xs s1 (w + k) = Inr (s', w')"
    by (auto simp: x go_results)
  have k: "0 \<le> sint k" "lo \<le> sint a" "sint a \<le> hi" using Cons.prems(2) by (auto simp: x)
  have rest: "0 \<le> sum_list (map (sint \<circ> snd) xs)" using Cons.prems(2) by (intro sum_list_nonneg) (auto simp: x)
  have "in64 (sint w + sint k)" using Cons.prems(3,4) k rest by (intro in64_I) (auto simp: x o_def)
  then have w: "sint (w + k) = sint w + sint k" by (simp add: sint64_add)
  have "k \<noteq> - 1" using k(1) by auto
  then have sc: "sint sc = sint a * sint k" using m(1) by (auto simp: Kobo_MulInt_exact sint64_mult split: if_splits)
  have s1: "sint s1 = sint s + sint a * sint k" using m(2) sc by (auto simp: go_results)
  have "lo * sint k \<le> sint a * sint k" "sint a * sint k \<le> hi * sint k" using k by (simp_all add: mult_right_mono)
  then have "lo * (sint w + sint k) \<le> sint s + sint a * sint k" "sint s + sint a * sint k \<le> hi * (sint w + sint k)"
    using Cons.prems(5,6) by (simp_all add: distrib_left)
  then have "lo * sint (w + k) \<le> sint s1" "sint s1 \<le> hi * sint (w + k)" unfolding w s1 .
  from Cons.IH [OF m(3) _ _ _ this] Cons.prems k show ?case by (auto simp: x w)
qed simp

text \<open>
  The forecast lies between the least and the greatest of the completed payrolls it weighs, is the sum of the active
  salaries when there is none, and the risk is high exactly when the wallet holds less than that.
\<close>

theorem forecast_sound:
  assumes run: "GetPredictiveCashFlow (Inr bal) db orgID = Inr r"
  shows "(FindCompleted db orgID 3 = [] \<longrightarrow>
      sint (pd_amount r) = sum_list (map (sint \<circ> emp_salary) (filter (\<lambda>e. emp_org e = orgID \<and> emp_active e) (employees db)))) \<and>
    (\<forall>lo hi. FindCompleted db orgID 3 \<noteq> [] \<and> (\<forall>p \<in> set (FindCompleted db orgID 3). lo \<le> sint (pr_total p) \<and> sint (pr_total p) \<le> hi) \<longrightarrow>
      lo \<le> sint (pd_amount r) \<and> sint (pd_amount r) \<le> hi) \<and>
    (pd_risk r = ''High'' \<longleftrightarrow> sint bal < sint (pd_amount r))"
proof (intro conjI allI impI)
  obtain medium where p: "predicted_amount db orgID = Inr (pd_amount r)" and risk: "pd_risk r = risk_level bal (pd_amount r) medium"
    using run by (auto simp: GetPredictiveCashFlow_def go_results)
  show "pd_risk r = ''High'' \<longleftrightarrow> sint bal < sint (pd_amount r)" by (auto simp: risk risk_level_def sless_sint)
  show "sint (pd_amount r) = sum_list (map (sint \<circ> emp_salary) (filter (\<lambda>e. emp_org e = orgID \<and> emp_active e) (employees db)))"
    if "FindCompleted db orgID 3 = []"
    using p that Kobo_Sum_Inr [of "map emp_salary (filter (\<lambda>e. emp_org e = orgID \<and> emp_active e) (employees db))"]
    by (simp add: predicted_amount_def)
  fix lo hi
  let ?ps = "FindCompleted db orgID 3"
  assume h: "?ps \<noteq> [] \<and> (\<forall>p \<in> set ?ps. lo \<le> sint (pr_total p) \<and> sint (pr_total p) \<le> hi)"
  let ?xs = "zip (map pr_total ?ps) forecast_weights"
  obtain s w where w: "weigh ?xs 0 0 = Inr (s, w)" "Kobo_Percent s 1 w = Inr (pd_amount r)"
    using p h by (auto simp: predicted_amount_def go_results)
  have xs: "\<forall>(a, k) \<in> set ?xs. lo \<le> sint a \<and> sint a \<le> hi \<and> 0 \<le> sint k"
  proof clarify
    fix a k assume "(a, k) \<in> set ?xs"
    then have "a \<in> pr_total ` set ?ps" "k \<in> set forecast_weights" by (metis list.set_map set_zip_leftD, metis set_zip_rightD)
    then show "lo \<le> sint a \<and> sint a \<le> hi \<and> 0 \<le> sint k" using h by (auto simp: forecast_weights_def)
  qed
  have len: "length ?ps \<le> 3" by (simp add: FindCompleted_def)
  have snds: "map snd ?xs = take (length ?ps) forecast_weights" by (simp add: forecast_weights_def map_snd_zip_take min_def)
  then have tot: "sum_list (map (sint \<circ> snd) ?xs) = sum_list (map sint (take (length ?ps) forecast_weights))"
    by (metis map_map)
  have "length ?ps \<noteq> 0" using h by simp
  then consider "length ?ps = 1" | "length ?ps = 2" | "length ?ps = 3" using len by linarith
  then have total: "0 < sum_list (map (sint \<circ> snd) ?xs)" "sum_list (map (sint \<circ> snd) ?xs) \<le> 6"
    unfolding tot by (cases, simp_all add: forecast_weights_def, cases, simp_all)
  from weigh_Inr [OF w(1) xs] total have b: "lo * sint w \<le> sint s" "sint s \<le> hi * sint w" "0 < sint w" "sint w \<le> 6" by auto
  have "in64 (sint s * sint (1 :: int64))" by simp
  from Kobo_Percent_rounds [OF b(3) _ this] b(4) w(2) have rd: "rounds_half_even (sint s) (sint w) (sint (pd_amount r))" by auto
  have ends: "rounds_half_even (m * sint w) (sint w) m" for m using b(3) by (auto simp: rounds_half_even_exact)
  show "lo \<le> sint (pd_amount r)" by (rule rounds_half_even_mono [OF b(3) ends rd b(1)])
  show "sint (pd_amount r) \<le> hi" by (rule rounds_half_even_mono [OF b(3) rd ends b(2)])
qed

subsection \<open>Concrete tables\<close>

definition demo_slips :: payroll_db where
  "demo_slips = demo_run [demo_batch\<lparr>pr_total := 300\<rparr>] [demo_item ''I1'' ''EMP-1'' 100, demo_item ''I2'' ''EMP-2'' 200]"

theorem payslips_own_and_complete_witness:
  "(let slips = concat (map (\<lambda>p. fst (ListPayslips demo_slips ''ORG-1'' ''EMP-2'' (Suc p) 1)) [0..<1]) in
     length slips = 1 \<and> (\<forall>s \<in> set slips. ps_state s = PayslipPaid \<longrightarrow> ps_id s = ''I2''))"
proof -
  have "distinct (map pr_id (payrolls demo_slips))"
    "\<forall>i \<in> set (payroll_items demo_slips). \<exists>p \<in> set (payrolls demo_slips). pr_id p = it_payroll i \<and> pr_org p = it_org i"
    "snd (ListPayslips demo_slips ''ORG-1'' ''EMP-2'' 1 1) = 1"
    "\<forall>i \<in> set (payroll_items demo_slips). it_employee i = ''EMP-2'' \<longrightarrow> it_id i = ''I2''"
    by code_simp+
  with payslips_own_and_complete [of demo_slips 1 "''ORG-1''" "''EMP-2''" 1] show ?thesis by (auto simp: Let_def)
qed

definition demo_forecast_db :: payroll_db where
  "demo_forecast_db = demo_run [demo_batch\<lparr>pr_id := ''P1'', pr_total := 300, pr_status := PayrollCompleted\<rparr>,
     demo_batch\<lparr>pr_id := ''P2'', pr_total := 200, pr_status := PayrollCompleted\<rparr>] []"

theorem forecast_sound_witness:
  "\<exists>r. GetPredictiveCashFlow (Inr 100) demo_forecast_db ''ORG-1'' = Inr r \<and> 200 \<le> sint (pd_amount r) \<and> sint (pd_amount r) \<le> 300 \<and>
     pd_risk r = ''High''"
proof -
  let ?run = "GetPredictiveCashFlow (Inr 100) demo_forecast_db ''ORG-1''"
  have "case ?run of Inr _ \<Rightarrow> True | _ \<Rightarrow> False" by code_simp
  then obtain r where run: "?run = Inr r" by (auto split: sum.splits)
  have "FindCompleted demo_forecast_db ''ORG-1'' 3 \<noteq> []"
    "\<forall>p \<in> set (FindCompleted demo_forecast_db ''ORG-1'' 3). 200 \<le> sint (pr_total p) \<and> sint (pr_total p) \<le> 300" by code_simp+
  then have b: "200 \<le> sint (pd_amount r) \<and> sint (pd_amount r) \<le> 300"
    using forecast_sound [OF run] by blast
  moreover have "pd_risk r = ''High''" using forecast_sound [OF run] b by simp
  ultimately show ?thesis using run by blast
qed

end
