(* ===== verification/Worker_API.thy ===== *)
theory Worker_API
  imports Savings EWA_Bills
begin

text \<open>
  The worker's endpoints over the wage-access service (\<open>advance_handler.go\<close>): which request fields are refused before
  the service runs, and which status answers which outcome. A bound field that is absent is \<open>None\<close>. The payload is the
  row or the record the body is built from.
\<close>

type_synonym 'a answer = "nat \<times> 'a option"

definition answer_of :: "nat \<Rightarrow> (err \<Rightarrow> nat) \<Rightarrow> 'a res \<times> 'db \<Rightarrow> 'a answer \<times> 'db" where
  "answer_of okay code = (\<lambda>(r, db). case r of Inl e \<Rightarrow> ((code e, None), db) | Inr x \<Rightarrow> ((okay, Some x), db))"

definition not_found_or_500 :: "err \<Rightarrow> nat" where
  "not_found_or_500 e = (if e = ErrRecordNotFound then 404 else 500)"

definition handle_GetEarnedWages ::
  "bank_provider \<Rightarrow> time \<Rightarrow> ('z link_db_scheme) \<Rightarrow> string \<Rightarrow> string \<Rightarrow> Eligibility answer \<times> ('z link_db_scheme)" where
  "handle_GetEarnedWages provider now db orgID employeeID =
     answer_of 200 not_found_or_500 (GetEligibility provider now db orgID employeeID now)"

datatype advance_answer =
    AdvanceAccepted EWAAdvance
  | AdvanceRefused string

definition handle_RequestAdvance ::
  "bank_provider \<Rightarrow> bool \<Rightarrow> time \<Rightarrow> ('z link_db_scheme) \<Rightarrow> string \<Rightarrow> string \<Rightarrow> Kobo option \<Rightarrow> string \<Rightarrow> string
     \<Rightarrow> advance_answer answer \<times> ('z link_db_scheme)" where
  "handle_RequestAdvance provider enqueue_ok now db orgID employeeID amount key ip =
     (case amount of
        None \<Rightarrow> ((400, None), db)
      | Some a \<Rightarrow>
          if \<not> Kobo_IsPositive a then ((400, None), db)
          else (case RequestAdvance provider enqueue_ok now db orgID employeeID a key ip of
                  (Inr (adv, _), db') \<Rightarrow> ((202, Some (AdvanceAccepted adv)), db')
                | (Inl e, db') \<Rightarrow>
                    (case e of
                       ErrAdvanceDeclined reason \<Rightarrow> ((422, Some (AdvanceRefused reason)), db')
                     | _ \<Rightarrow> ((not_found_or_500 e, None), db'))))"

definition handle_SetProtectedPayday ::
  "time \<Rightarrow> ('z ewa_db_scheme) \<Rightarrow> string \<Rightarrow> string \<Rightarrow> Kobo option \<Rightarrow> EWAWorkerPreference answer \<times> ('z ewa_db_scheme)" where
  "handle_SetProtectedPayday now db orgID employeeID amount =
     (case amount of
        None \<Rightarrow> ((400, None), db)
      | Some a \<Rightarrow>
          if Kobo_IsNegative a then ((400, None), db)
          else answer_of 200 (\<lambda>e. if e = ErrFloorLoweringRateLimited then 422 else 500) (SetProtectedPayday db orgID employeeID a now))"

definition handle_SetSavingsPreference ::
  "('z savings_db_scheme) \<Rightarrow> string \<Rightarrow> string \<Rightarrow> SavingsPreferenceUpdate \<Rightarrow> EWASavingsPreference answer \<times> ('z savings_db_scheme)" where
  "handle_SetSavingsPreference db orgID employeeID upd =
     answer_of 200 (\<lambda>e. if e = ErrInvalidSavingsPreference then 400 else 500) (SetSavingsPreference db orgID employeeID upd)"

definition handle_GetSavings ::
  "('z savings_db_scheme) \<Rightarrow> string \<Rightarrow> string \<Rightarrow> (EWASavingsPreference \<times> Kobo) answer \<times> ('z savings_db_scheme)" where
  "handle_GetSavings db orgID employeeID =
     (let pref = GetSavingsPreference db orgID employeeID
      in answer_of 200 (\<lambda>_. 500) (case GetSavingsBalance db orgID employeeID of
           (Inl e, db') \<Rightarrow> (Inl e, db') | (Inr bal, db') \<Rightarrow> (Inr (pref, bal), db')))"

definition GetAdvanceHistory :: "('z ewa_db_scheme) \<Rightarrow> string \<Rightarrow> string \<Rightarrow> EWAAdvance list" where
  "GetAdvanceHistory db orgID employeeID =
     take 100 (sort_key (\<lambda>a. - adv_requested_at a) (filter (\<lambda>a. adv_org a = orgID \<and> adv_employee a = employeeID) (advances db)))"

definition handle_AddBill ::
  "('z bill_db_scheme) \<Rightarrow> string \<Rightarrow> string \<Rightarrow> string \<Rightarrow> Kobo \<Rightarrow> int \<Rightarrow> EWABill answer \<times> ('z bill_db_scheme)" where
  "handle_AddBill db orgID employeeID name amount dueDay =
     answer_of 201 (\<lambda>e. if e = ErrInvalidBill then 400 else 500) (AddBill db orgID employeeID name amount dueDay)"

definition handle_GetBills :: "('z bill_db_scheme) \<Rightarrow> string \<Rightarrow> string \<Rightarrow> EWABill list \<times> nat" where
  "handle_GetBills db orgID employeeID = (let bs = ListBills db orgID employeeID in (bs, length bs))"

definition handle_RemoveBill ::
  "('z bill_db_scheme) \<Rightarrow> string \<Rightarrow> string \<Rightarrow> string \<Rightarrow> unit answer \<times> ('z bill_db_scheme)" where
  "handle_RemoveBill db orgID employeeID billID = answer_of 204 not_found_or_500 (RemoveBill db orgID employeeID billID)"

definition handle_GetBillTiming ::
  "((EWABill \<times> time) list \<Rightarrow> (EWABill \<times> time) list) \<Rightarrow> bank_provider \<Rightarrow> time \<Rightarrow> ('z bill_db_scheme) \<Rightarrow> string \<Rightarrow> string
     \<Rightarrow> BillTimingPlan answer \<times> ('z bill_db_scheme)" where
  "handle_GetBillTiming arrange provider now db orgID employeeID =
     answer_of 200 (\<lambda>_. 500) (GetBillTimingPlan arrange provider now db orgID employeeID now)"

text \<open>
  The answer to an advance request says what is on the books: 202 comes with a row of the worker that is not a refusal,
  422 with a recorded refusal for the reason given and no balance moved, and every other status with nothing written (\<open>ErrAdvanceDeclined\<close>
  being the error of \<open>RequestAdvance\<close> alone, never one of the statements in its transaction).
\<close>

theorem advance_answer_recorded:
  assumes inv: "ewa_inv db" and emp: "employeeID \<noteq> []" and c: "OrgCurrencyTx db orgID = Inr c"
    and sentinel: "\<And>reason. request_body provider now db orgID employeeID (the amount) key ip \<noteq> Inl (ErrAdvanceDeclined reason)"
    and run: "handle_RequestAdvance provider ok now db orgID employeeID amount key ip = ((status, body), db')"
  shows "(\<forall>a. body = Some (AdvanceAccepted a) \<longrightarrow> status = 202 \<and> a \<in> set (advances db') \<and> adv_org a = orgID \<and>
        adv_employee a = employeeID \<and> adv_status a \<noteq> AdvanceDeclined) \<and>
    (\<forall>reason. body = Some (AdvanceRefused reason) \<longrightarrow> status = 422 \<and> ledger_balance db' = ledger_balance db \<and>
       (\<exists>a \<in> set (advances db'). adv_org a = orgID \<and> adv_employee a = employeeID \<and> adv_status a = AdvanceDeclined \<and> adv_decline_reason a = reason)) \<and>
    (body = None \<longrightarrow> status \<in> {400, 404, 500} \<and> db' = db)"
proof (cases "\<exists>a. amount = Some a \<and> Kobo_IsPositive a")
  case False
  then show ?thesis using run by (auto simp: handle_RequestAdvance_def split: option.splits if_splits)
next
  case True
  then obtain amt where amt: "amount = Some amt" "Kobo_IsPositive amt" by blast
  show ?thesis
  proof (cases "request_body provider now db orgID employeeID amt key ip")
    case (Inl e)
    then have "e \<noteq> ErrAdvanceDeclined reason" for reason using sentinel [of reason] amt(1) by auto
    then show ?thesis using run amt Inl
      by (auto simp: handle_RequestAdvance_def RequestAdvance_def not_found_or_500_def split: err.splits if_splits)
  next
    case (Inr x)
    obtain a oel db1 where x: "x = ((a, oel), db1)" by (cases x) auto
    note books = request_body_books [OF inv emp c Inr [unfolded x]]
    have mine: "adv_org a = orgID \<and> adv_employee a = employeeID"
      using Inr [unfolded x] books by (cases rule: request_body_cases) auto
    have row: "a \<in> set (advances db1)" using books by (auto split: if_splits)
    have bal: "ledger_balance db1 = ledger_balance db" if "adv_status a = AdvanceDeclined"
      using books that by (auto split: if_splits)
    show ?thesis using run amt Inr x mine row bal
      by (auto simp: handle_RequestAdvance_def RequestAdvance_def WithOrgScope_def split: if_splits)
  qed
qed

theorem advance_answer_recorded_witness:
  "\<exists>a db. handle_RequestAdvance None True (Date 2026 8 14) demo_link ''ORG-1'' ''EMP-h'' (Some 200000) ''k'' ''ip'' =
       ((202, Some (AdvanceAccepted a)), db) \<and> a \<in> set (advances db) \<and> adv_status a \<noteq> AdvanceDeclined"
proof -
  let ?run = "handle_RequestAdvance None True (Date 2026 8 14) demo_link ''ORG-1'' ''EMP-h'' (Some 200000) ''k'' ''ip''"
  obtain a el db where req: "demo_request = (Inr (a, Some el), db)" by (rule demo_request_run)
  have "Kobo_IsPositive 200000" by code_simp
  then have run: "?run = ((202, Some (AdvanceAccepted a)), db)" using req by (simp add: handle_RequestAdvance_def demo_request_def)
  have "request_body None (Date 2026 8 14) demo_link ''ORG-1'' ''EMP-h'' (the (Some 200000)) ''k'' ''ip'' \<noteq> Inl (ErrAdvanceDeclined reason)" for reason
    using req by (auto simp: demo_request_def RequestAdvance_def WithOrgScope_def split: sum.splits)
  from advance_answer_recorded [OF demo_link_facts(1) _ demo_link_facts(2) this run] run show ?thesis by auto
qed

end
