(* ===== verification/Termination.thy ===== *)
theory Termination
  imports Settlement Grants
begin

text \<open>
  The end of an employment (\<open>employee_termination_service.go\<close>): the employee and the worker's logins are
  deactivated and every outstanding advance is resolved, approved ones by cancelling, disbursed ones by writing off.
\<close>

definition resolve_on_exit :: "time \<Rightarrow> EWAAdvance \<Rightarrow> ('z ewa_db_scheme) \<Rightarrow> ('z ewa_db_scheme) res" where
  "resolve_on_exit now adv db =
     (case (if adv_status adv = AdvanceApproved then CancelAdvance now db adv AdvanceApproved ''employee_terminated''
            else WriteOffAdvance now db adv ''employee_terminated'') of
        Inl e \<Rightarrow> if e = ErrStaleStatus then Inr db else Inl e
      | Inr (_, db') \<Rightarrow> Inr db')"

fun resolve_all :: "time \<Rightarrow> EWAAdvance list \<Rightarrow> ('z ewa_db_scheme) \<Rightarrow> ('z ewa_db_scheme) res" where
  "resolve_all now [] db = Inr db"
| "resolve_all now (a # as) db = rbind (resolve_on_exit now a db) (resolve_all now as)"

definition deactivate ::
  "('z ewa_db_scheme) \<Rightarrow> string \<Rightarrow> string \<Rightarrow> string \<Rightarrow> string \<Rightarrow> ('z ewa_db_scheme) res" where
  "deactivate db orgID employeeID reason ip =
     AppendAuditTx (db\<lparr>employees := update_where (\<lambda>e. emp_id e = employeeID \<and> emp_org e = orgID) (\<lambda>e. e\<lparr>emp_active := False\<rparr>) (employees db),
                       users := update_where (\<lambda>u. usr_employee u = employeeID \<and> usr_org u = orgID) (\<lambda>u. u\<lparr>usr_active := False\<rparr>) (users db)\<rparr>)
       orgID ''Employee'' employeeID ''terminated'' ''active'' reason ip []"

definition Terminate ::
  "time \<Rightarrow> ('z ewa_db_scheme) \<Rightarrow> string \<Rightarrow> string \<Rightarrow> string \<Rightarrow> string \<Rightarrow> Employee res \<times> ('z ewa_db_scheme)" where
  "Terminate now db orgID employeeID reason ip = WithOrgScope db (\<lambda>db.
     rbind (find_row (\<lambda>e. emp_id e = employeeID \<and> emp_org e = orgID) (employees db)) (\<lambda>emp.
     rbind (if emp_active emp then deactivate db orgID employeeID reason ip else Inr db) (\<lambda>db1.
     rbind (resolve_all now (filter (\<lambda>a. adv_org a = orgID \<and> adv_employee a = employeeID \<and> EWAAdvance_IsOutstanding a) (advances db1)) db1) (\<lambda>db2.
     Inr (emp\<lparr>emp_active := False\<rparr>, db2)))))"

lemma find_row_update_pred:
  "find_row Q rows = Inr r \<Longrightarrow> (\<And>r. Q (f r) = Q r) \<Longrightarrow> find_row Q (update_where P f rows) = Inr (if P r then f r else r)"
  by (induction rows) (auto simp: find_row_def split: if_splits)

lemma WriteOffAdvance_not_stale:
  assumes "adv \<in> set (advances db)" "adv_status adv = AdvanceDisbursed"
  shows "WriteOffAdvance now db adv reason \<noteq> Inl ErrStaleStatus"
proof -
  have "\<exists>r. TransitionAdvance now db adv AdvanceDisbursed AdvanceWrittenOff = Inr r"
    using assms by (auto simp: TransitionAdvance_def cas_advance_def CanTransitionAdvance_iff count_where_eq_0_iff Let_def)
  then show ?thesis
    by (auto simp: WriteOffAdvance_def rbind_eq_Inl Let_def PostTransaction_not_stale EnsureAccount_not_stale
        AppendAuditTx_not_stale OrgCurrencyTx_not_stale split: prod.splits)
qed

lemma resolve_on_exit_Inr:
  assumes l: "ledger_inv db" and d: "distinct (map adv_id (advances db))"
    and a: "adv \<in> set (advances db)" "EWAAdvance_IsOutstanding adv" and r: "resolve_on_exit now adv db = Inr db1"
  obtains f where "advances db1 = update_where (\<lambda>r. adv_id r = adv_id adv) f (advances db)" "\<And>r. adv_id (f r) = adv_id r"
    "\<And>r. \<not> EWAAdvance_IsOutstanding (f r)" "\<And>r. adv_org (f r) = adv_org r \<and> adv_employee (f r) = adv_employee r"
    "ledger_inv db1" "employees db1 = employees db" "users db1 = users db"
proof (cases "adv_status adv = AdvanceApproved")
  case True
  then obtain adv' where c: "CancelAdvance now db adv AdvanceApproved ''employee_terminated'' = Inr (adv', db1)"
    using r CancelAdvance_not_stale [OF a(1) True] by (auto simp: resolve_on_exit_def split: sum.splits if_splits)
  note e = CancelAdvance_effect [OF l d a(1) True c]
  show thesis by (rule that [OF e(1) _ _ _ e(2-4)]) (simp_all add: EWAAdvance_IsOutstanding_def)
next
  case False
  then have st: "adv_status adv = AdvanceDisbursed" using a(2) by (simp add: EWAAdvance_IsOutstanding_def)
  then obtain adv' where c: "WriteOffAdvance now db adv ''employee_terminated'' = Inr (adv', db1)"
    using r WriteOffAdvance_not_stale [OF a(1) st] by (auto simp: resolve_on_exit_def split: sum.splits if_splits)
  note e = WriteOffAdvance_effect [OF l d a(1) st c]
  show thesis by (rule that [OF e(1) _ _ _ e(2-4)]) (simp_all add: EWAAdvance_IsOutstanding_def)
qed

lemma resolve_all_Inr:
  assumes "ledger_inv db" "distinct (map adv_id (advances db))" "\<forall>a \<in> set as. a \<in> set (advances db) \<and> EWAAdvance_IsOutstanding a"
    "distinct (map adv_id as)" "resolve_all now as db = Inr db'"
  shows "(\<forall>r \<in> set (advances db'). EWAAdvance_IsOutstanding r \<longrightarrow> r \<in> set (advances db) \<and> adv_id r \<notin> adv_id ` set as) \<and>
    employees db' = employees db \<and> users db' = users db"
  using assms
proof (induction as arbitrary: db)
  case (Cons a as)
  then obtain db1 where r: "resolve_on_exit now a db = Inr db1" "resolve_all now as db1 = Inr db'" by (auto simp: rbind_eq_Inr)
  have a: "a \<in> set (advances db)" "EWAAdvance_IsOutstanding a" using Cons.prems(3) by auto
  obtain f where f: "advances db1 = update_where (\<lambda>r. adv_id r = adv_id a) f (advances db)" "\<And>r. adv_id (f r) = adv_id r"
    "\<And>r. \<not> EWAAdvance_IsOutstanding (f r)" "ledger_inv db1" "employees db1 = employees db" "users db1 = users db"
    using resolve_on_exit_Inr [OF Cons.prems(1,2) a r(1)] by metis
  have mem: "r \<in> set (advances db1) \<longleftrightarrow> r = f a \<or> (r \<in> set (advances db) \<and> adv_id r \<noteq> adv_id a)" for r
    unfolding f(1) by (rule in_update_key [OF Cons.prems(2) a(1)])
  have d: "distinct (map adv_id (advances db1))" using Cons.prems(2) f(1,2) by (simp add: map_update_where_same)
  have "\<forall>b \<in> set as. b \<in> set (advances db1) \<and> EWAAdvance_IsOutstanding b"
    using Cons.prems(3,4) mem by (auto simp: image_iff)
  from Cons.IH [OF f(4) d this _ r(2)] Cons.prems(4) mem f(3,5,6) show ?case by auto
qed simp

lemma deactivate_Inr:
  assumes "deactivate db orgID employeeID reason ip = Inr db1"
  shows "advances db1 = advances db" "ledger_inv db1 = ledger_inv db"
    "employees db1 = update_where (\<lambda>e. emp_id e = employeeID \<and> emp_org e = orgID) (\<lambda>e. e\<lparr>emp_active := False\<rparr>) (employees db)"
    "users db1 = update_where (\<lambda>u. usr_employee u = employeeID \<and> usr_org u = orgID) (\<lambda>u. u\<lparr>usr_active := False\<rparr>) (users db)"
proof -
  obtain e where db1: "db1 = db\<lparr>employees := update_where (\<lambda>e. emp_id e = employeeID \<and> emp_org e = orgID) (\<lambda>e. e\<lparr>emp_active := False\<rparr>) (employees db),
      users := update_where (\<lambda>u. usr_employee u = employeeID \<and> usr_org u = orgID) (\<lambda>u. u\<lparr>usr_active := False\<rparr>) (users db),
      uuid_next := Suc (uuid_next db), audit_events := audit_events db @ [e]\<rparr>"
    using assms by (auto simp: deactivate_def dest!: AppendAuditTx_Inr)
  show "ledger_inv db1 = ledger_inv db" using ledger_cong(1) [of db1 db] db1 by simp
qed (use assms in \<open>auto simp: deactivate_def dest!: AppendAuditTx_Inr\<close>)

text \<open>
  C24: termination leaves nothing open. After a successful \<open>Terminate\<close> the employee is inactive, no
  advance of the employee is outstanding any more (each was cancelled or written off), the worker's logins are
  revoked if the employee was active before, and a second call changes nothing.
\<close>

theorem termination_resolves:
  assumes inv: "ewa_inv db" and emps: "distinct (map emp_id (employees db))"
    and t: "Terminate now db orgID employeeID reason ip = (Inr emp, db')"
  shows "emp_id emp = employeeID \<and> \<not> emp_active emp \<and> emp \<in> set (employees db') \<and>
    (\<forall>a \<in> set (advances db'). adv_org a = orgID \<and> adv_employee a = employeeID \<longrightarrow> \<not> EWAAdvance_IsOutstanding a) \<and>
    ((\<exists>e \<in> set (employees db). emp_id e = employeeID \<and> emp_active e) \<longrightarrow>
       (\<forall>u \<in> set (users db'). usr_employee u = employeeID \<and> usr_org u = orgID \<longrightarrow> \<not> usr_active u)) \<and>
    Terminate now2 db' orgID employeeID reason2 ip2 = (Inr emp, db')"
proof -
  let ?P = "\<lambda>e. emp_id e = employeeID \<and> emp_org e = orgID"
  let ?open = "\<lambda>a. adv_org a = orgID \<and> adv_employee a = employeeID \<and> EWAAdvance_IsOutstanding a"
  from t obtain e0 db1 where f: "find_row ?P (employees db) = Inr e0"
    and d1: "(if emp_active e0 then deactivate db orgID employeeID reason ip else Inr db) = Inr db1"
    and r: "resolve_all now (filter ?open (advances db1)) db1 = Inr db'" and emp: "emp = e0\<lparr>emp_active := False\<rparr>"
    by (auto simp: Terminate_def WithOrgScope_def rbind_eq_Inr split: sum.splits prod.splits)
  have e0: "?P e0" "e0 \<in> set (employees db)" using find_row_Inr [OF f] by auto
  have uniq: "e = e0" if "e \<in> set (employees db)" "emp_id e = employeeID" for e
    using that e0 emps by (auto simp: distinct_map inj_on_def)
  have l: "ledger_inv db1" "distinct (map adv_id (advances db1))"
    using d1 inv deactivate_Inr(1,2) [of db orgID employeeID reason ip db1] by (auto simp: ewa_inv_def split: if_splits)
  have R: "\<forall>x \<in> set (advances db'). EWAAdvance_IsOutstanding x \<longrightarrow> x \<in> set (advances db1) \<and> adv_id x \<notin> adv_id ` set (filter ?open (advances db1))"
    "employees db' = employees db1" "users db' = users db1"
    using resolve_all_Inr [OF l _ _ r] l(2) by (auto simp: distinct_map_filter)
  have open0: "filter ?open (advances db') = []" using R(1) by (fastforce simp: filter_empty_conv)
  have emps': "find_row ?P (employees db1) = Inr emp" "emp \<in> set (employees db1)"
  proof -
    have "find_row ?P (employees db1) = Inr emp \<and> emp \<in> set (employees db1)"
    proof (cases "emp_active e0")
      case True
      then have rows: "employees db1 = update_where ?P (\<lambda>e. e\<lparr>emp_active := False\<rparr>) (employees db)" 
        using d1 deactivate_Inr(3) [of db orgID employeeID reason ip db1] by auto
      have "find_row ?P (employees db1) = Inr emp"
        unfolding rows using find_row_update_pred [OF f, of "\<lambda>e. e\<lparr>emp_active := False\<rparr>" ?P] e0 emp by simp
      then show ?thesis using find_row_Inr by metis
    next
      case False
      then have "e0\<lparr>emp_active := False\<rparr> = e0" by (cases e0) simp
      moreover have "db1 = db" using False d1 by simp
      ultimately show ?thesis using f e0(2) unfolding emp by simp
    qed
    then show "find_row ?P (employees db1) = Inr emp" "emp \<in> set (employees db1)" by auto
  qed
  have "\<not> usr_active u" if m: "\<exists>e \<in> set (employees db). emp_id e = employeeID \<and> emp_active e" "u \<in> set (users db')"
    "usr_employee u = employeeID" "usr_org u = orgID" for u
  proof -
    have "emp_active e0" using m(1) uniq by auto
    then have "users db' = update_where (\<lambda>u. usr_employee u = employeeID \<and> usr_org u = orgID) (\<lambda>u. u\<lparr>usr_active := False\<rparr>) (users db)"
      using d1 deactivate_Inr(4) [of db orgID employeeID reason ip db1] R(3) by auto
    then obtain v where "u = (if usr_employee v = employeeID \<and> usr_org v = orgID then v\<lparr>usr_active := False\<rparr> else v)"
      using m(2) by (auto simp: in_update_where)
    then show ?thesis using m(3,4) by (cases "usr_employee v = employeeID \<and> usr_org v = orgID") simp_all
  qed
  moreover have "Terminate now2 db' orgID employeeID reason2 ip2 = (Inr emp, db')"
    unfolding Terminate_def R(2) emps'(1) open0 by (simp add: emps'(1) open0 R(2) WithOrgScope_def emp)
  moreover have "\<forall>a \<in> set (advances db'). adv_org a = orgID \<and> adv_employee a = employeeID \<longrightarrow> \<not> EWAAdvance_IsOutstanding a"
    using open0 unfolding filter_empty_conv by blast
  moreover have "emp_id emp = employeeID" "\<not> emp_active emp" "emp \<in> set (employees db')" using e0(1) emp emps'(2) R(2) by simp_all
  ultimately show ?thesis by blast
qed

definition demo_leaver :: ewa_db where
  "demo_leaver = demo_ewa\<lparr>employees := [demo_employee\<lparr>emp_id := ''EMP-1'', emp_org := ''ORG-1'', emp_active := True\<rparr>],
     users := [\<lparr>usr_id = ''U-1'', usr_employee = ''EMP-1'', usr_org = ''ORG-1'', usr_phone = [], usr_active = True\<rparr>]\<rparr>"

theorem termination_resolves_witness:
  "\<exists>emp db'. Terminate 0 demo_leaver ''ORG-1'' ''EMP-1'' ''resigned'' ''ip'' = (Inr emp, db') \<and> \<not> emp_active emp \<and>
     map adv_status (advances db') = [AdvanceWrittenOff] \<and> Terminate 1 db' ''ORG-1'' ''EMP-1'' ''again'' ''ip'' = (Inr emp, db')"
proof -
  let ?run = "Terminate 0 demo_leaver ''ORG-1'' ''EMP-1'' ''resigned'' ''ip''"
  have "case ?run of (Inr emp, db') \<Rightarrow> map adv_status (advances db') = [AdvanceWrittenOff] | _ \<Rightarrow> False" by code_simp
  then obtain emp db' where run: "?run = (Inr emp, db')" "map adv_status (advances db') = [AdvanceWrittenOff]"
    by (auto split: prod.splits sum.splits)
  have "OrgCurrencyTx demo_leaver = OrgCurrencyTx demo_ewa" by (simp add: OrgCurrencyTx_def fun_eq_iff demo_leaver_def)
  then have inv: "ewa_inv demo_leaver"
    using demo_ewa_inv ledger_cong [of demo_leaver demo_ewa] by (simp add: ewa_inv_def demo_leaver_def)
  from termination_resolves [OF inv _ run(1), of 1 "''again''" "''ip''"] run show ?thesis by (simp add: demo_leaver_def)
qed

end
