(* ===== verification/D2C_Collections.thy ===== *)
theory D2C_Collections
  imports Bank_Links
begin

text \<open>
  Collecting an advance by direct debit: \<open>d2c_debit_collection.go\<close>, \<open>d2c_ledger.go\<close>,
  \<open>d2c_collection_service.go\<close>, \<open>d2c_sweep_service.go\<close> and \<open>d2c_webhook_handler.go\<close>. One row is one attempt. The row is
  committed before the provider is called; \<open>others\<close> is what other transactions commit during the call. Besides
  its result a run returns the debits it asked the provider for: mandate, amount and our reference.
\<close>

datatype D2CDebitCollectionStatus = D2CCollectionPending | D2CCollectionSuccessful | D2CCollectionFailed

record D2CDebitCollection =
  dc_id :: string
  dc_org :: string
  dc_employee :: string
  dc_advance :: string
  dc_amount :: Kobo
  dc_attempt :: int
  dc_scheduled_for :: time
  dc_status :: D2CDebitCollectionStatus
  dc_provider :: string
  dc_provider_ref :: "string option"
  dc_attempted_at :: "time option"
  dc_created_at :: time
  dc_updated_at :: time

record d2c_db = link_db +
  debit_collections :: "D2CDebitCollection list"

type_synonym debit_request = "string \<times> money \<times> string"

definition D2CDebitCollection_BeforeCreate :: "('z base_db_scheme) \<Rightarrow> D2CDebitCollection \<Rightarrow> D2CDebitCollection" where
  "D2CDebitCollection_BeforeCreate db c = (if dc_id c = [] then c\<lparr>dc_id := fresh_id ''D2CDC-'' db\<rparr> else c)"

definition maxD2CCollectionAttempts :: nat where
  "maxD2CCollectionAttempts = 4"

definition ErrD2CCollectionAlreadyResolved :: err where
  "ErrD2CCollectionAlreadyResolved = ErrOther ''d2c collection: already resolved''"

definition ErrD2CAdvanceNotCollectible :: err where
  "ErrD2CAdvanceNotCollectible = ErrOther ''d2c collection: advance is not currently collectible''"

definition ErrNoMandate :: err where
  "ErrNoMandate = ErrOther ''banklink: no debit mandate authorized for this account''"

text \<open>The table's constraints: primary key, positive amount and number, one pending attempt per advance.\<close>

definition insert_collection :: "D2CDebitCollection \<Rightarrow> D2CDebitCollection list \<Rightarrow> D2CDebitCollection list res" where
  "insert_collection c rows =
     (if \<not> Kobo_IsPositive (dc_amount c) \<or> dc_attempt c \<le> 0 then Inl (ErrOther ''check constraint'')
      else if list_ex (\<lambda>r. dc_org r = dc_org c \<and> dc_advance r = dc_advance c \<and>
                           dc_status r = D2CCollectionPending \<and> dc_status c = D2CCollectionPending) rows
      then Inl ErrUniqueViolation
      else insert_row dc_id c rows)"

subsection \<open>Confirmation\<close>

definition resolve_collection ::
  "time \<Rightarrow> ('z d2c_db_scheme) \<Rightarrow> D2CDebitCollection \<Rightarrow> D2CDebitCollectionStatus \<Rightarrow> ('z d2c_db_scheme) res" where
  "resolve_collection now db c st =
     (let P = (\<lambda>r. dc_id r = dc_id c \<and> dc_status r = D2CCollectionPending)
      in if count_where P (debit_collections db) = 0 then Inl ErrD2CCollectionAlreadyResolved
         else Inr (db\<lparr>debit_collections := update_where P (\<lambda>r. r\<lparr>dc_status := st, dc_updated_at := now\<rparr>) (debit_collections db)\<rparr>))"

definition collection_key :: "string \<Rightarrow> string" where
  "collection_key i = ''d2c_collection:'' @ i"

definition settle_or_audit ::
  "time \<Rightarrow> ('z d2c_db_scheme) \<Rightarrow> D2CDebitCollection \<Rightarrow> EWAAdvance \<Rightarrow> ('z d2c_db_scheme) res" where
  "settle_or_audit now db c adv =
     (if \<not> adv_recovered adv <s adv_amount adv
      then (case TransitionAdvance now db adv AdvanceDisbursed AdvanceSettled of
              Inl e \<Rightarrow> if e = ErrStaleStatus then Inr db else Inl e
            | Inr (_, db1) \<Rightarrow>
                AppendAuditTx db1 (dc_org c) ''EWAAdvance'' (adv_id adv) ''settled_via_d2c_debit''
                  (AdvanceStatus_string AdvanceDisbursed) (AdvanceStatus_string AdvanceSettled) ''internal'' [])
      else AppendAuditTx db (dc_org c) ''D2CDebitCollection'' (dc_id c) ''collected'' [] (Kobo_String (dc_amount c)) ''internal'' [])"

definition ConfirmD2CCollectionSuccess ::
  "time \<Rightarrow> ('z d2c_db_scheme) \<Rightarrow> D2CDebitCollection \<Rightarrow> ('z d2c_db_scheme) res" where
  "ConfirmD2CCollectionSuccess now db c =
     rbind (resolve_collection now db c D2CCollectionSuccessful) (\<lambda>db1.
     rbind (find_row (\<lambda>a. adv_id a = dc_advance c \<and> adv_org a = dc_org c) (advances db1)) (\<lambda>adv.
     rbind (OrgCurrencyTx db1 (dc_org c)) (\<lambda>currency.
     rbind (EnsureAccount db1 (dc_org c) [] AccountCashSettlement currency) (\<lambda>(cash, db2).
     rbind (EnsureAccount db2 (dc_org c) (dc_employee c) AccountAdvanceReceivable currency) (\<lambda>(receivable, db3).
     rbind (PostTransaction db3 (pair_request (dc_org c) ''d2c_debit_collection'' (dc_id c) (collection_key (dc_id c))
              (acc_id cash) (acc_id receivable) (KoboIn currency (dc_amount c)))) (\<lambda>(_, db4).
     rbind (Kobo_Add (adv_recovered adv) (dc_amount c)) (\<lambda>recoveredTotal.
     rbind (record_recovery now db4 adv recoveredTotal) (\<lambda>db5.
     settle_or_audit now db5 c (adv\<lparr>adv_recovered := recoveredTotal\<rparr>)))))))))"

definition failed_attempts :: "('z d2c_db_scheme) \<Rightarrow> string \<Rightarrow> nat" where
  "failed_attempts db advanceID =
     count_where (\<lambda>r. dc_advance r = advanceID \<and> dc_status r = D2CCollectionFailed) (debit_collections db)"

definition ConfirmD2CCollectionFailure ::
  "time \<Rightarrow> ('z d2c_db_scheme) \<Rightarrow> D2CDebitCollection \<Rightarrow> string \<Rightarrow> ('z d2c_db_scheme) res" where
  "ConfirmD2CCollectionFailure now db c reason =
     rbind (resolve_collection now db c D2CCollectionFailed) (\<lambda>db1.
     rbind (AppendAuditTx db1 (dc_org c) ''D2CDebitCollection'' (dc_id c) ''collection_failed'' [] reason ''internal'' []) (\<lambda>db2.
       if failed_attempts db2 (dc_advance c) < maxD2CCollectionAttempts then Inr db2
       else
         rbind (find_row (\<lambda>a. adv_id a = dc_advance c \<and> adv_org a = dc_org c) (advances db2)) (\<lambda>adv.
           if adv_status adv \<noteq> AdvanceDisbursed then Inr db2
           else (case WriteOffAdvance now db2 adv ''d2c_debit_collection_exhausted'' of
                   Inl e \<Rightarrow> if e = ErrStaleStatus then Inr db2 else Inl e
                 | Inr (_, db3) \<Rightarrow> Inr db3))))"

record D2CDebitWebhookPayload =
  dw_reference :: string
  dw_status :: string
  dw_reason :: string

definition in_scope :: "('db \<Rightarrow> 'db res) \<Rightarrow> 'db \<Rightarrow> unit res \<times> 'db" where
  "in_scope fn db = WithOrgScope db (\<lambda>db. rbind (fn db) (\<lambda>db'. Inr ((), db')))"

definition HandleD2CDebitWebhook ::
  "time \<Rightarrow> ('z d2c_db_scheme) \<Rightarrow> D2CDebitWebhookPayload option \<Rightarrow> nat \<times> ('z d2c_db_scheme)" where
  "HandleD2CDebitWebhook now db decoded =
     (case decoded of
        None \<Rightarrow> (400, db)
      | Some payload \<Rightarrow>
          if dw_reference payload = [] \<or> dw_status payload = [] then (400, db)
          else (case find_row (\<lambda>c. dc_provider_ref c = Some (dw_reference payload)) (debit_collections db) of
                  Inl _ \<Rightarrow> (404, db)
                | Inr c \<Rightarrow>
                    if dc_status c \<noteq> D2CCollectionPending then (200, db)
                    else if dw_status payload \<noteq> ''successful'' \<and> dw_status payload \<noteq> ''failed'' then (400, db)
                    else (case in_scope (\<lambda>db. if dw_status payload = ''successful'' then ConfirmD2CCollectionSuccess now db c
                                              else ConfirmD2CCollectionFailure now db c (dw_reason payload)) db of
                            (Inl e, db') \<Rightarrow> (if e = ErrD2CCollectionAlreadyResolved then 200 else 500, db')
                          | (Inr _, db') \<Rightarrow> (200, db'))))"

subsection \<open>An attempt\<close>

definition last_attempt :: "('z d2c_db_scheme) \<Rightarrow> string \<Rightarrow> int" where
  "last_attempt db advanceID =
     foldl (\<lambda>m r. if dc_advance r = advanceID \<and> m < dc_attempt r then dc_attempt r else m) 0 (debit_collections db)"

text \<open>The first transaction of \<open>InitiateD2CCollection\<close>.\<close>

definition open_collection ::
  "DebitProvider \<Rightarrow> time \<Rightarrow> string \<Rightarrow> string \<Rightarrow> time \<Rightarrow> ('z d2c_db_scheme)
     \<Rightarrow> ((D2CDebitCollection \<times> debit_request) \<times> 'z d2c_db_scheme) res" where
  "open_collection p now orgID advanceID scheduledFor db =
     rbind (find_row (\<lambda>a. adv_id a = advanceID \<and> adv_org a = orgID) (advances db)) (\<lambda>adv.
       if adv_status adv \<noteq> AdvanceDisbursed then Inl ErrD2CAdvanceNotCollectible
       else if \<not> Kobo_IsPositive (EWAAdvance_RemainingKobo adv) then Inl ErrD2CAdvanceNotCollectible
       else
         rbind (linked_account db orgID (adv_employee adv)) (\<lambda>link.
           case bl_mandate_ref link of
             None \<Rightarrow> Inl ErrNoMandate
           | Some mandateRef \<Rightarrow>
               if \<not> HasActiveConsent now db orgID (adv_employee adv) ConsentTypeD2CDebitMandate then Inl ErrD2CConsentWithdrawn
               else
                 rbind (OrgCurrencyTx db orgID) (\<lambda>currency.
                 let c = D2CDebitCollection_BeforeCreate db
                       \<lparr>dc_id = [], dc_org = orgID, dc_employee = adv_employee adv, dc_advance = adv_id adv,
                        dc_amount = EWAAdvance_RemainingKobo adv, dc_attempt = last_attempt db advanceID + 1,
                        dc_scheduled_for = scheduledFor, dc_status = D2CCollectionPending, dc_provider = dp_name p,
                        dc_provider_ref = None, dc_attempted_at = None, dc_created_at = now, dc_updated_at = now\<rparr>
                 in rbind (insert_collection c (debit_collections db)) (\<lambda>rows.
                    Inr ((c, mandateRef, KoboIn currency (EWAAdvance_RemainingKobo adv), dc_id c),
                         (take_uuid db)\<lparr>debit_collections := rows\<rparr>)))))"

text \<open>The transaction after an accepted submission, with the unique index on \<open>provider_reference\<close>.\<close>

definition record_submission ::
  "time \<Rightarrow> D2CDebitCollection \<Rightarrow> string \<Rightarrow> ('z d2c_db_scheme) \<Rightarrow> ('z d2c_db_scheme) res" where
  "record_submission now c ref db =
     (if list_ex (\<lambda>r. dc_provider_ref r = Some ref \<and> dc_id r \<noteq> dc_id c) (debit_collections db) then Inl ErrUniqueViolation
      else Inr (db\<lparr>debit_collections := update_where (\<lambda>r. dc_id r = dc_id c)
             (\<lambda>r. r\<lparr>dc_provider_ref := Some ref, dc_attempted_at := Some now, dc_updated_at := now\<rparr>) (debit_collections db)\<rparr>))"

definition InitiateD2CCollection ::
  "DebitProvider \<Rightarrow> (('z d2c_db_scheme) \<Rightarrow> ('z d2c_db_scheme)) \<Rightarrow> time \<Rightarrow> ('z d2c_db_scheme) \<Rightarrow> string \<Rightarrow> string \<Rightarrow> time
     \<Rightarrow> D2CDebitCollection res \<times> debit_request list \<times> ('z d2c_db_scheme)" where
  "InitiateD2CCollection p others now db orgID advanceID scheduledFor =
     (case WithOrgScope db (open_collection p now orgID advanceID scheduledFor) of
        (Inl e, db') \<Rightarrow> (Inl e, [], db')
      | (Inr (c, req), db1) \<Rightarrow>
          (case req of (mandateRef, amount, ref) \<Rightarrow>
            let db2 = others db1;
                refuse = (\<lambda>e message.
                  case in_scope (\<lambda>db. ConfirmD2CCollectionFailure now db c (''submission_rejected: '' @ message)) db2 of
                    (Inl failErr, db') \<Rightarrow> (Inl failErr, [req], db')
                  | (Inr _, db') \<Rightarrow> (Inl e, [req], db'))
            in case dp_debit p mandateRef amount ref of
                 Inl submitErr \<Rightarrow> refuse submitErr ''rail unreachable''
               | Inr result \<Rightarrow>
                   if \<not> dr_accepted result then refuse (ErrOther (''debit submission rejected: '' @ dr_message result)) (dr_message result)
                   else (case in_scope (record_submission now c (dr_reference result)) db2 of
                           (Inl e, db') \<Rightarrow> (Inl e, [req], db')
                         | (Inr _, db') \<Rightarrow>
                             (Inr (c\<lparr>dc_provider_ref := Some (dr_reference result), dc_attempted_at := Some now\<rparr>), [req], db'))))"

subsection \<open>The daily sweep\<close>

record D2CSweepResult =
  sr_advance :: string
  sr_outcome :: "D2CDebitCollection option res"

definition attemptD2CCollectionForAdvance ::
  "DebitProvider \<Rightarrow> time \<Rightarrow> ('z d2c_db_scheme) \<Rightarrow> string \<Rightarrow> EWAAdvance \<Rightarrow> time
     \<Rightarrow> D2CSweepResult \<times> debit_request list \<times> ('z d2c_db_scheme)" where
  "attemptD2CCollectionForAdvance p now db orgID adv asOf =
     (let miss = (\<lambda>e. (\<lparr>sr_advance = adv_id adv, sr_outcome = Inl e\<rparr>, [], db))
      in case linked_account db orgID (adv_employee adv) of
           Inl e \<Rightarrow> miss e
         | Inr link \<Rightarrow>
             if \<not> HasActiveConsent now db orgID (adv_employee adv) ConsentTypeD2CBankLinkRead then miss ErrD2CConsentWithdrawn
             else if bl_mandate_ref link = None then miss ErrNoMandate
             else (case dp_transactions p (bl_account_ref link) (AddDate asOf 0 d2cTransactionLookback 0) of
                     Inl e \<Rightarrow> miss e
                   | Inr txs \<Rightarrow>
                       (case PredictNextPayday txs asOf of
                          Inl e \<Rightarrow> miss e
                        | Inr pred \<Rightarrow>
                            if asOf < NextPredictedDate pred then (\<lparr>sr_advance = adv_id adv, sr_outcome = Inr None\<rparr>, [], db)
                            else (case InitiateD2CCollection p id now db orgID (adv_id adv) (NextPredictedDate pred) of
                                    (r, reqs, db') \<Rightarrow>
                                      (\<lparr>sr_advance = adv_id adv, sr_outcome = map_sum id Some r\<rparr>, reqs, db')))))"

text \<open>The disbursed advances of an organization with no attempt in flight.\<close>

definition collectible :: "('z d2c_db_scheme) \<Rightarrow> string \<Rightarrow> EWAAdvance list" where
  "collectible db orgID =
     (let inFlight = map dc_advance (filter (\<lambda>c. dc_org c = orgID \<and> dc_status c = D2CCollectionPending) (debit_collections db))
      in filter (\<lambda>a. adv_org a = orgID \<and> adv_status a = AdvanceDisbursed \<and> adv_id a \<notin> set inFlight) (advances db))"

fun sweep_advances ::
  "DebitProvider \<Rightarrow> time \<Rightarrow> string \<Rightarrow> time \<Rightarrow> EWAAdvance list \<Rightarrow> D2CSweepResult list \<times> debit_request list \<times> ('z d2c_db_scheme)
     \<Rightarrow> D2CSweepResult list \<times> debit_request list \<times> ('z d2c_db_scheme)" where
  "sweep_advances p now orgID asOf [] st = st"
| "sweep_advances p now orgID asOf (a # as) (rs, reqs, db) =
     (case attemptD2CCollectionForAdvance p now db orgID a asOf of
        (r, qs, db') \<Rightarrow> sweep_advances p now orgID asOf as (rs @ [r], reqs @ qs, db'))"

fun sweep_orgs ::
  "DebitProvider \<Rightarrow> time \<Rightarrow> time \<Rightarrow> string list \<Rightarrow> D2CSweepResult list \<times> debit_request list \<times> ('z d2c_db_scheme)
     \<Rightarrow> D2CSweepResult list \<times> debit_request list \<times> ('z d2c_db_scheme)" where
  "sweep_orgs p now asOf [] st = st"
| "sweep_orgs p now asOf (orgID # os) (rs, reqs, db) =
     sweep_orgs p now asOf os (sweep_advances p now orgID asOf (collectible db orgID) (rs, reqs, db))"

definition SweepD2CCollections ::
  "DebitProvider \<Rightarrow> time \<Rightarrow> ('z d2c_db_scheme) \<Rightarrow> time \<Rightarrow> D2CSweepResult list \<times> debit_request list \<times> ('z d2c_db_scheme)" where
  "SweepD2CCollections p now db asOf = sweep_orgs p now asOf (map org_id (filter org_is_d2c (organizations db))) ([], [], db)"

end
