(* ===== verification/D2C_Machine.thy ===== *)
theory D2C_Machine
  imports D2C_Collections
begin

text \<open>
  What the direct debits do to the advances: the invariant of the collection rows against the recovered amounts, the
  transactions as a step relation with every other change to the advances as the environment's step, and the
  properties of the collections.
\<close>

subsection \<open>What collections leave of an advance\<close>

type_synonym core = "string \<times> string \<times> string \<times> Kobo \<times> Kobo"

definition adv_core :: "EWAAdvance \<Rightarrow> core" where
  "adv_core a = (adv_id a, adv_org a, adv_employee a, adv_amount a, adv_recovered a)"

definition collected :: "D2CDebitCollection list \<Rightarrow> string \<Rightarrow> int" where
  "collected cs i = sum_list (map (\<lambda>c. if dc_advance c = i \<and> dc_status c = D2CCollectionSuccessful then sint (dc_amount c) else 0) cs)"

abbreviation in_flight :: "string \<Rightarrow> D2CDebitCollection \<Rightarrow> bool" where
  "in_flight i c \<equiv> dc_advance c = i \<and> dc_status c = D2CCollectionPending"

definition core_ok :: "D2CDebitCollection list \<Rightarrow> core \<Rightarrow> bool" where
  "core_ok cs = (\<lambda>(i, orgID, e, m, r). 0 \<le> sint r \<and> sint r \<le> sint m \<and> collected cs i = sint r \<and>
     (\<forall>c \<in> set cs. in_flight i c \<longrightarrow> sint (dc_amount c) = sint m - sint r))"

definition d2c_ok :: "core list \<Rightarrow> D2CDebitCollection list \<Rightarrow> bool" where
  "d2c_ok cores cs \<longleftrightarrow>
     distinct (map dc_id cs) \<and> distinct (map fst cores) \<and> (\<forall>k \<in> set cores. core_ok cs k) \<and>
     (\<forall>c \<in> set cs. \<exists>e m r. (dc_advance c, dc_org c, e, m, r) \<in> set cores) \<and>
     (\<forall>c \<in> set cs. \<forall>d \<in> set cs. in_flight (dc_advance c) c \<longrightarrow> in_flight (dc_advance c) d \<longrightarrow> d = c)"

definition d2c_inv :: "('z d2c_db_scheme) \<Rightarrow> bool" where
  "d2c_inv db \<longleftrightarrow> d2c_ok (map adv_core (advances db)) (debit_collections db)"

lemma collected_simps [simp]:
  "collected [] i = 0"
  "collected (cs @ [c]) i = collected cs i + (if dc_advance c = i \<and> dc_status c = D2CCollectionSuccessful then sint (dc_amount c) else 0)"
  by (simp_all add: collected_def)

lemma collected_update:
  assumes "distinct (map dc_id cs)" "c \<in> set cs"
  shows "collected (update_where (\<lambda>r. dc_id r = dc_id c) f cs) i = collected cs i
     - (if dc_advance c = i \<and> dc_status c = D2CCollectionSuccessful then sint (dc_amount c) else 0)
     + (if dc_advance (f c) = i \<and> dc_status (f c) = D2CCollectionSuccessful then sint (dc_amount (f c)) else 0)"
  unfolding collected_def by (subst sum_update_key [where pk = dc_id and r = c]) (use assms in simp_all)

lemma core_unique: "d2c_ok cores cs \<Longrightarrow> (i, x) \<in> set cores \<Longrightarrow> (i, y) \<in> set cores \<Longrightarrow> x = y"
  unfolding d2c_ok_def by (metis eq_key_imp_eq_value)

lemma core_ok_mono:
  assumes "core_ok cs (i, k)" "collected cs' i = collected cs i"
    and "\<And>x. x \<in> set cs' \<Longrightarrow> in_flight i x \<Longrightarrow> \<exists>y \<in> set cs. in_flight i y \<and> dc_amount y = dc_amount x"
  shows "core_ok cs' (i, k)"
  using assms unfolding core_ok_def by (cases k) fastforce

lemma d2c_ok_one: "d2c_ok cores cs \<Longrightarrow> a \<in> set cs \<Longrightarrow> b \<in> set cs \<Longrightarrow> in_flight i a \<Longrightarrow> in_flight i b \<Longrightarrow> b = a"
  unfolding d2c_ok_def by blast

lemma d2c_ok_parent: "d2c_ok cores cs \<Longrightarrow> a \<in> set cs \<Longrightarrow> \<exists>e m r. (dc_advance a, dc_org a, e, m, r) \<in> set cores"
  unfolding d2c_ok_def by blast

lemma d2c_ok_core: "d2c_ok cores cs \<Longrightarrow> k \<in> set cores \<Longrightarrow> core_ok cs k"
  unfolding d2c_ok_def by blast

lemma d2c_okI:
  assumes "distinct (map dc_id cs)" "distinct (map fst cores)" "\<And>i k. (i, k) \<in> set cores \<Longrightarrow> core_ok cs (i, k)"
    "\<And>c. c \<in> set cs \<Longrightarrow> \<exists>e m r. (dc_advance c, dc_org c, e, m, r) \<in> set cores"
    "\<And>c d. c \<in> set cs \<Longrightarrow> d \<in> set cs \<Longrightarrow> in_flight (dc_advance c) c \<Longrightarrow> in_flight (dc_advance c) d \<Longrightarrow> d = c"
  shows "d2c_ok cores cs"
  unfolding d2c_ok_def using assms by (simp add: Ball_def split_paired_all)

lemma d2c_ok_open:
  assumes ok: "d2c_ok cores cs" and k: "(dc_advance c, dc_org c, e, m, r) \<in> set cores"
    and c: "dc_id c \<notin> dc_id ` set cs" "dc_status c = D2CCollectionPending" "sint (dc_amount c) = sint m - sint r"
    and free: "\<forall>d \<in> set cs. \<not> in_flight (dc_advance c) d"
  shows "d2c_ok cores (cs @ [c])"
proof -
  have "core_ok (cs @ [c]) q" if q: "q \<in> set cores" for q
  proof -
    obtain i o1 e1 m1 r1 where q1: "q = (i, o1, e1, m1, r1)" by (cases q)
    have "core_ok cs q" using ok q by (simp add: d2c_ok_def)
    moreover have "(o1, e1, m1, r1) = (dc_org c, e, m, r)" if "i = dc_advance c"
      using core_unique [OF ok _ k] q q1 that by blast
    ultimately show ?thesis using c(2,3) by (auto simp: core_ok_def q1)
  qed
  then show ?thesis using ok k c free by (auto simp: d2c_ok_def)
qed

text \<open>A row changed in place: to the same status, to failed, or, with the recovered total, to successful.\<close>

lemma d2c_ok_same:
  assumes ok: "d2c_ok cores cs" and c: "c \<in> set cs"
    and f: "\<And>r. dc_id (f r) = dc_id r" "\<And>r. dc_advance (f r) = dc_advance r" "\<And>r. dc_org (f r) = dc_org r"
      "\<And>r. dc_amount (f r) = dc_amount r"
    and st: "dc_status (f c) = dc_status c \<or> (dc_status c = D2CCollectionPending \<and> dc_status (f c) = D2CCollectionFailed)"
  shows "d2c_ok cores (update_where (\<lambda>r. dc_id r = dc_id c) f cs)"
proof -
  let ?cs = "update_where (\<lambda>r. dc_id r = dc_id c) f cs"
  have d: "distinct (map dc_id cs)" using ok by (simp add: d2c_ok_def)
  have pre: "\<exists>x0 \<in> set cs. in_flight i x0 \<and> x = (if dc_id x0 = dc_id c then f x0 else x0)"
    if "x \<in> set ?cs" "in_flight i x" for i x
  proof -
    from that(1) obtain r where r: "r \<in> set cs" "x = (if dc_id r = dc_id c then f r else r)" by (auto simp: in_update_where)
    have "r = c" if "dc_id r = dc_id c" using d c r(1) that by (simp add: distinct_map inj_on_def)
    then have "in_flight i r" using that(2) r(2) f(2) st by (cases "dc_id r = dc_id c") auto
    then show ?thesis using r by blast
  qed
  have col: "collected ?cs i = collected cs i" for i using st f(2,4) by (auto simp: collected_update [OF d c])
  have core: "core_ok ?cs (i, k)" if "(i, k) \<in> set cores" for i k
  proof (rule core_ok_mono [of cs])
    show "core_ok cs (i, k)" by (rule d2c_ok_core [OF ok that])
    show "collected ?cs i = collected cs i" by (rule col)
    show "\<exists>y \<in> set cs. in_flight i y \<and> dc_amount y = dc_amount x" if x: "x \<in> set ?cs" "in_flight i x" for x
    proof -
      from pre [OF x] obtain x0 where "x0 \<in> set cs" "in_flight i x0" "x = (if dc_id x0 = dc_id c then f x0 else x0)" by blast
      then show ?thesis using f(4) by (intro bexI [of _ x0]) auto
    qed
  qed
  have par: "\<exists>e m r. (dc_advance x, dc_org x, e, m, r) \<in> set cores" if "x \<in> set ?cs" for x
  proof -
    from that obtain r where "r \<in> set cs" "x = (if dc_id r = dc_id c then f r else r)" by (auto simp: in_update_where)
    then have "r \<in> set cs" "dc_advance x = dc_advance r" "dc_org x = dc_org r" using f(2,3) by auto
    then show ?thesis using d2c_ok_parent [OF ok, of r] by simp
  qed
  have one: "y = x" if m: "x \<in> set ?cs" "y \<in> set ?cs" "in_flight (dc_advance x) x" "in_flight (dc_advance x) y" for x y
  proof -
    obtain x0 y0 where p: "x0 \<in> set cs" "in_flight (dc_advance x) x0" "x = (if dc_id x0 = dc_id c then f x0 else x0)"
      "y0 \<in> set cs" "in_flight (dc_advance x) y0" "y = (if dc_id y0 = dc_id c then f y0 else y0)"
      using pre [OF m(1,3)] pre [OF m(2,4)] by blast
    have "y0 = x0" by (rule d2c_ok_one [OF ok p(1,4,2,5)])
    then show ?thesis using p(3,6) by metis
  qed
  have d': "distinct (map dc_id ?cs)" using d f(1) by (simp add: map_update_where_same)
  have cd: "distinct (map fst cores)" using ok by (simp add: d2c_ok_def)
  show ?thesis by (rule d2c_okI, rule d', rule cd, erule core, erule par, rule one)
qed

lemma d2c_ok_success:
  assumes ok: "d2c_ok cores cs" and c: "c \<in> set cs" "dc_status c = D2CCollectionPending"
    and f: "\<And>r. dc_id (f r) = dc_id r" "\<And>r. dc_advance (f r) = dc_advance r" "\<And>r. dc_org (f r) = dc_org r"
      "\<And>r. dc_amount (f r) = dc_amount r" "dc_status (f c) = D2CCollectionSuccessful"
    and k: "(dc_advance c, o1, e, m, r) \<in> set cores" and tot: "sint tot = sint r + sint (dc_amount c)"
    and pos: "0 \<le> sint (dc_amount c)"
    and cores': "distinct (map fst cores')"
      "set cores' = insert (dc_advance c, o1, e, m, tot) {q \<in> set cores. fst q \<noteq> dc_advance c}"
  shows "d2c_ok cores' (update_where (\<lambda>r. dc_id r = dc_id c) f cs)"
proof -
  let ?cs = "update_where (\<lambda>r. dc_id r = dc_id c) f cs"
  have d: "distinct (map dc_id cs)" using ok by (simp add: d2c_ok_def)
  note mem = in_update_key [OF d c(1)]
  have col: "collected ?cs i = collected cs i + (if i = dc_advance c then sint (dc_amount c) else 0)" for i
    using c f(2,4,5) by (auto simp: collected_update [OF d c(1)])
  have none: "\<not> in_flight (dc_advance c) x" if "x \<in> set ?cs" for x
  proof
    assume x: "in_flight (dc_advance c) x"
    then have "x \<in> set cs" "dc_id x \<noteq> dc_id c" using that f(5) unfolding mem by auto
    then show False using d2c_ok_one [OF ok c(1) _ _ x] c(2) by blast
  qed
  have k1: "core_ok cs (dc_advance c, o1, e, m, r)" using ok k by (simp add: d2c_ok_def)
  have new: "core_ok ?cs (dc_advance c, o1, e, m, tot)"
    using k1 c col [of "dc_advance c"] tot none pos unfolding core_ok_def by auto
  have old: "core_ok ?cs (i, q)" if q: "(i, q) \<in> set cores" "i \<noteq> dc_advance c" for i q
  proof (rule core_ok_mono [of cs])
    show "core_ok cs (i, q)" by (rule d2c_ok_core [OF ok q(1)])
    show "collected ?cs i = collected cs i" using col q(2) by simp
    show "\<exists>y \<in> set cs. in_flight i y \<and> dc_amount y = dc_amount x" if "x \<in> set ?cs" "in_flight i x" for x
      using that q(2) f(2) unfolding mem by auto
  qed
  have core: "core_ok ?cs (i, q)" if "(i, q) \<in> set cores'" for i q
  proof -
    have "(i, q) = (dc_advance c, o1, e, m, tot) \<or> (i, q) \<in> set cores \<and> i \<noteq> dc_advance c" using that cores'(2) by auto
    then show ?thesis using new old by metis
  qed
  have par: "\<exists>e m r. (dc_advance x, dc_org x, e, m, r) \<in> set cores'" if x: "x \<in> set ?cs" for x
  proof -
    obtain y where y: "y \<in> set cs" "dc_advance x = dc_advance y" "dc_org x = dc_org y"
    proof (cases "x = f c")
      case True then show thesis using that [OF c(1)] f(2,3) by simp
    next
      case False then show thesis using that [of x] x unfolding mem by simp
    qed
    then obtain e1 m1 r1 where q: "(dc_advance x, dc_org x, e1, m1, r1) \<in> set cores" using d2c_ok_parent [OF ok y(1)] by auto
    show ?thesis
    proof (cases "dc_advance x = dc_advance c")
      case True
      then show ?thesis using core_unique [OF ok _ k] q cores'(2) by auto
    qed (use q cores'(2) in auto)
  qed
  have one: "y = x" if "x \<in> set ?cs" "y \<in> set ?cs" "in_flight (dc_advance x) x" "in_flight (dc_advance x) y" for x y
  proof -
    have "x \<noteq> f c" "y \<noteq> f c" using that(3,4) f(5) by auto
    then have "x \<in> set cs" "y \<in> set cs" using that(1,2) unfolding mem by blast+
    then show ?thesis using d2c_ok_one [OF ok] that(3,4) by blast
  qed
  have d': "distinct (map dc_id ?cs)" using d f(1) by (simp add: map_update_where_same)
  show ?thesis by (rule d2c_okI, rule d', rule cores'(1), erule core, erule par, rule one)
qed

lemma ledger_frame_d2c:
  assumes "ledger_frame db db'"
  shows "advances db' = advances db" "debit_collections db' = debit_collections db"
proof -
  note e = assms [unfolded ledger_frame_def]
  show "advances db' = advances db" by (subst e) simp
  show "debit_collections db' = debit_collections db" by (subst e) simp
qed

definition same_money :: "('z d2c_db_scheme) \<Rightarrow> ('z d2c_db_scheme) \<Rightarrow> bool" where
  "same_money db db' \<longleftrightarrow> map adv_core (advances db') = map adv_core (advances db) \<and> debit_collections db' = debit_collections db"

lemma same_money_inv: "same_money db db' \<Longrightarrow> d2c_inv db \<Longrightarrow> d2c_inv db'"
  by (simp add: same_money_def d2c_inv_def)

lemma same_money_refl: "same_money db db"
  by (simp add: same_money_def)

lemma same_money_trans [trans]: "same_money a b \<Longrightarrow> same_money b c \<Longrightarrow> same_money a c"
  by (simp add: same_money_def)

lemma same_money_frame: "ledger_frame db db' \<Longrightarrow> same_money db db'"
  by (simp add: same_money_def ledger_frame_d2c)

lemma same_money_audit: "AppendAuditTx db a b c d e f g h = Inr db' \<Longrightarrow> same_money db db'"
  by (auto simp: same_money_def dest!: AppendAuditTx_Inr)

lemma adv_core_stamp [simp]: "adv_core (stamp_advance now st r) = adv_core r"
  by (simp add: adv_core_def)

lemma same_money_update:
  "(\<And>r. adv_core (f r) = adv_core r) \<Longrightarrow> same_money db (db\<lparr>advances := update_where P f (advances db)\<rparr>)"
  by (simp add: same_money_def map_update_where_same)

lemma same_money_transition: "TransitionAdvance now db adv a b = Inr (x, db') \<Longrightarrow> same_money db db'"
  by (auto simp: TransitionAdvance_def rbind_eq_Inr dest!: cas_advance_Inr intro!: same_money_update)

lemma same_money_reason: "same_money db (update_advance now db i (\<lambda>r. r\<lparr>adv_decline_reason := reason\<rparr>))"
  unfolding update_advance_def by (rule same_money_update) (simp add: adv_core_def)

lemma same_money_write_off:
  assumes "WriteOffAdvance now db adv reason = Inr (x, db')" shows "same_money db db'"
proof -
  from assms obtain db1 db2 db3 db4 where "same_money db db1"
    "same_money (update_advance now db1 (adv_id adv) (\<lambda>r. r\<lparr>adv_decline_reason := reason\<rparr>)) db2" "same_money db2 db3"
    "same_money db3 db4" "same_money db4 db'"
    by (auto simp: WriteOffAdvance_def rbind_eq_Inr Let_def
        dest!: same_money_transition same_money_frame [OF EnsureAccount_frame] same_money_frame [OF PostTransaction_frame] same_money_audit)
  then show ?thesis using same_money_reason [of db1 now "adv_id adv" reason] by (simp add: same_money_def)
qed

lemma settle_or_audit_same: "settle_or_audit now db c adv = Inr db' \<Longrightarrow> same_money db db'"
  by (auto simp: settle_or_audit_def split: if_splits sum.splits
      dest!: same_money_transition same_money_audit intro: same_money_trans same_money_refl)

lemma resolve_collection_Inr:
  assumes d: "distinct (map dc_id (debit_collections db))" and r: "resolve_collection now db c st = Inr db1"
  obtains c0 where "c0 \<in> set (debit_collections db)" "dc_id c0 = dc_id c" "dc_status c0 = D2CCollectionPending"
    "db1 = db\<lparr>debit_collections := update_where (\<lambda>r. dc_id r = dc_id c0) (\<lambda>r. r\<lparr>dc_status := st, dc_updated_at := now\<rparr>) (debit_collections db)\<rparr>"
proof -
  let ?P = "\<lambda>r. dc_id r = dc_id c \<and> dc_status r = D2CCollectionPending"
  from r obtain c0 where c0: "c0 \<in> set (debit_collections db)" "?P c0"
    by (auto simp: resolve_collection_def Let_def count_where_eq_0_iff split: if_splits)
  have "?P q \<longleftrightarrow> dc_id q = dc_id c0" if "q \<in> set (debit_collections db)" for q
    using d c0 that unfolding distinct_map inj_on_def by metis
  then have "update_where ?P f (debit_collections db) = update_where (\<lambda>r. dc_id r = dc_id c0) f (debit_collections db)" for f
    by (rule update_where_cong)
  then show thesis using that c0 r by (auto simp: resolve_collection_def Let_def split: if_splits)
qed

definition snapshot :: "('z d2c_db_scheme) \<Rightarrow> D2CDebitCollection \<Rightarrow> bool" where
  "snapshot db c \<longleftrightarrow> (\<exists>r \<in> set (debit_collections db). dc_id r = dc_id c \<and> dc_advance r = dc_advance c \<and> dc_org r = dc_org c \<and>
     dc_employee r = dc_employee c \<and> dc_amount r = dc_amount c)"

lemma snapshot_row:
  assumes "d2c_inv db" "snapshot db c" "c0 \<in> set (debit_collections db)" "dc_id c0 = dc_id c"
  shows "dc_advance c0 = dc_advance c" "dc_org c0 = dc_org c" "dc_amount c0 = dc_amount c"
  using assms unfolding snapshot_def d2c_inv_def d2c_ok_def distinct_map inj_on_def by metis+

lemma failure_Inr:
  assumes d: "distinct (map dc_id (debit_collections db))" and f: "ConfirmD2CCollectionFailure now db c reason = Inr db'"
  obtains c0 db1 where "c0 \<in> set (debit_collections db)" "dc_id c0 = dc_id c" "dc_status c0 = D2CCollectionPending" "same_money db1 db'"
    "db1 = db\<lparr>debit_collections := update_where (\<lambda>r. dc_id r = dc_id c0)
        (\<lambda>r. r\<lparr>dc_status := D2CCollectionFailed, dc_updated_at := now\<rparr>) (debit_collections db)\<rparr>"
proof -
  from f obtain db1 db2 where r: "resolve_collection now db c D2CCollectionFailed = Inr db1"
    and au: "AppendAuditTx db1 (dc_org c) ''D2CDebitCollection'' (dc_id c) ''collection_failed'' [] reason ''internal'' [] = Inr db2"
    and rest: "(if failed_attempts db2 (dc_advance c) < maxD2CCollectionAttempts then Inr db2
       else rbind (find_row (\<lambda>a. adv_id a = dc_advance c \<and> adv_org a = dc_org c) (advances db2)) (\<lambda>adv.
           if adv_status adv \<noteq> AdvanceDisbursed then Inr db2
           else (case WriteOffAdvance now db2 adv ''d2c_debit_collection_exhausted'' of
                   Inl e \<Rightarrow> if e = ErrStaleStatus then Inr db2 else Inl e
                 | Inr (_, db3) \<Rightarrow> Inr db3))) = Inr db'"
    by (auto simp: ConfirmD2CCollectionFailure_def rbind_eq_Inr)
  have w: "db' = db2 \<or> (\<exists>adv x. WriteOffAdvance now db2 adv ''d2c_debit_collection_exhausted'' = Inr (x, db'))"
    using rest by (auto simp: rbind_eq_Inr split: if_splits sum.splits)
  then have m: "same_money db1 db'"
    using same_money_write_off same_money_audit [OF au] by (blast intro: same_money_trans)
  show thesis by (rule resolve_collection_Inr [OF d r]) (rule that [OF _ _ _ m])
qed

lemma failure_inv:
  assumes inv: "d2c_inv db" and f: "ConfirmD2CCollectionFailure now db c reason = Inr db'"
  shows "d2c_inv db'"
proof -
  have "distinct (map dc_id (debit_collections db))" using inv by (simp add: d2c_inv_def d2c_ok_def)
  then obtain c0 db1 where c0: "c0 \<in> set (debit_collections db)" "dc_status c0 = D2CCollectionPending" and m: "same_money db1 db'"
    and db1: "db1 = db\<lparr>debit_collections := update_where (\<lambda>r. dc_id r = dc_id c0)
        (\<lambda>r. r\<lparr>dc_status := D2CCollectionFailed, dc_updated_at := now\<rparr>) (debit_collections db)\<rparr>"
    using f by (rule failure_Inr)
  have "d2c_inv db1" using d2c_ok_same [OF inv [unfolded d2c_inv_def] c0(1)] c0(2) by (simp add: d2c_inv_def db1)
  then show ?thesis using m same_money_inv by blast
qed

lemma success_Inr:
  assumes inv: "d2c_inv db" and s: "snapshot db c" and f: "ConfirmD2CCollectionSuccess now db c = Inr db'"
  obtains adv tot c0 where "adv \<in> set (advances db)" "adv_id adv = dc_advance c" "adv_org adv = dc_org c"
    "Kobo_Add (adv_recovered adv) (dc_amount c) = Inr tot"
    "c0 \<in> set (debit_collections db)" "dc_id c0 = dc_id c" "dc_status c0 = D2CCollectionPending"
    "map adv_core (advances db') = map adv_core (update_where (\<lambda>r. adv_id r = adv_id adv) (\<lambda>r. r\<lparr>adv_recovered := tot\<rparr>) (advances db))"
    "debit_collections db' = update_where (\<lambda>r. dc_id r = dc_id c0)
        (\<lambda>r. r\<lparr>dc_status := D2CCollectionSuccessful, dc_updated_at := now\<rparr>) (debit_collections db)"
proof -
  have d: "distinct (map dc_id (debit_collections db))" using inv by (simp add: d2c_inv_def d2c_ok_def)
  have da: "distinct (map adv_id (advances db))" using inv by (simp add: d2c_inv_def d2c_ok_def adv_core_def comp_def)
  from f obtain db1 adv currency cash db2 receivable db3 tx db4 tot db5 where
    r: "resolve_collection now db c D2CCollectionSuccessful = Inr db1"
    and a: "find_row (\<lambda>a. adv_id a = dc_advance c \<and> adv_org a = dc_org c) (advances db1) = Inr adv"
    and e1: "EnsureAccount db1 (dc_org c) [] AccountCashSettlement currency = Inr (cash, db2)"
    and e2: "EnsureAccount db2 (dc_org c) (dc_employee c) AccountAdvanceReceivable currency = Inr (receivable, db3)"
    and p: "PostTransaction db3 (pair_request (dc_org c) ''d2c_debit_collection'' (dc_id c) (collection_key (dc_id c))
              (acc_id cash) (acc_id receivable) (KoboIn currency (dc_amount c))) = Inr (tx, db4)"
    and t: "Kobo_Add (adv_recovered adv) (dc_amount c) = Inr tot"
    and rec: "record_recovery now db4 adv tot = Inr db5"
    and cl: "settle_or_audit now db5 c (adv\<lparr>adv_recovered := tot\<rparr>) = Inr db'"
    by (auto simp: ConfirmD2CCollectionSuccess_def rbind_eq_Inr)
  from d r obtain c0 where c0: "c0 \<in> set (debit_collections db)" "dc_id c0 = dc_id c" "dc_status c0 = D2CCollectionPending"
    and db1: "db1 = db\<lparr>debit_collections := update_where (\<lambda>r. dc_id r = dc_id c0)
        (\<lambda>r. r\<lparr>dc_status := D2CCollectionSuccessful, dc_updated_at := now\<rparr>) (debit_collections db)\<rparr>"
    by (rule resolve_collection_Inr)
  note fr = ledger_frame_d2c [OF EnsureAccount_frame [OF e1]] ledger_frame_d2c [OF EnsureAccount_frame [OF e2]]
    ledger_frame_d2c [OF PostTransaction_frame [OF p]]
  have adv: "adv \<in> set (advances db)" "adv_id adv = dc_advance c" "adv_org adv = dc_org c"
    using find_row_Inr [OF a] by (simp_all add: db1)
  have rows4: "advances db4 = advances db" "debit_collections db4 = debit_collections db1" using fr by (simp_all add: db1)
  let ?Q = "\<lambda>r. adv_id r = adv_id adv \<and> adv_recovered r = adv_recovered adv"
  have "update_where ?Q g (advances db) = update_where (\<lambda>r. adv_id r = adv_id adv) g (advances db)" for g
    by (rule update_pinned [OF da adv(1)]) simp_all
  then have rows5: "advances db5 = update_where (\<lambda>r. adv_id r = adv_id adv) (\<lambda>r. r\<lparr>adv_recovered := tot, adv_updated_at := now\<rparr>) (advances db)"
    "debit_collections db5 = debit_collections db1"
    using rec rows4 by (auto simp: record_recovery_def Let_def split: if_splits)
  have "map adv_core (advances db5) = map adv_core (update_where (\<lambda>r. adv_id r = adv_id adv) (\<lambda>r. r\<lparr>adv_recovered := tot\<rparr>) (advances db))"
    unfolding rows5 by (simp add: update_where_def adv_core_def)
  then show thesis using that [OF adv t c0] settle_or_audit_same [OF cl] rows5(2) by (simp add: same_money_def db1)
qed

lemma updated_cores:
  assumes d: "distinct (map adv_id rows)" and a: "adv \<in> set rows" and i: "adv_id adv = i"
    and r: "cores = map adv_core (update_where (\<lambda>r. adv_id r = adv_id adv) (\<lambda>r. r\<lparr>adv_recovered := tot\<rparr>) rows)"
  shows "set cores = insert (i, adv_org adv, adv_employee adv, adv_amount adv, tot) {q \<in> set (map adv_core rows). fst q \<noteq> i}"
proof -
  have "set (update_where (\<lambda>r. adv_id r = adv_id adv) (\<lambda>r. r\<lparr>adv_recovered := tot\<rparr>) rows) =
      insert (adv\<lparr>adv_recovered := tot\<rparr>) {r \<in> set rows. adv_id r \<noteq> i}"
    using i by (auto simp only: in_update_key [OF d a])
  then show ?thesis using i by (auto simp: r adv_core_def)
qed

lemma success_inv:
  assumes inv: "d2c_inv db" and s: "snapshot db c" and f: "ConfirmD2CCollectionSuccess now db c = Inr db'"
  shows "d2c_inv db'"
proof -
  from inv s f obtain adv tot c0 where a: "adv \<in> set (advances db)" "adv_id adv = dc_advance c" "adv_org adv = dc_org c"
    and t: "Kobo_Add (adv_recovered adv) (dc_amount c) = Inr tot"
    and c0: "c0 \<in> set (debit_collections db)" "dc_id c0 = dc_id c" "dc_status c0 = D2CCollectionPending"
    and rows: "map adv_core (advances db') = map adv_core (update_where (\<lambda>r. adv_id r = adv_id adv) (\<lambda>r. r\<lparr>adv_recovered := tot\<rparr>) (advances db))"
    and cs: "debit_collections db' = update_where (\<lambda>r. dc_id r = dc_id c0)
        (\<lambda>r. r\<lparr>dc_status := D2CCollectionSuccessful, dc_updated_at := now\<rparr>) (debit_collections db)"
    by (rule success_Inr)
  note ok = inv [unfolded d2c_inv_def] and row = snapshot_row [OF inv s c0(1,2)]
  have da: "distinct (map adv_id (advances db))" using inv by (simp add: d2c_inv_def d2c_ok_def adv_core_def comp_def)
  have k: "(dc_advance c0, adv_org adv, adv_employee adv, adv_amount adv, adv_recovered adv) \<in> set (map adv_core (advances db))"
    using a row(1) by (force simp: adv_core_def)
  have amt: "sint (dc_amount c0) = sint (adv_amount adv) - sint (adv_recovered adv)" "sint (adv_recovered adv) \<le> sint (adv_amount adv)"
    using d2c_ok_core [OF ok k] c0(1,3) by (auto simp: core_ok_def)
  show ?thesis unfolding d2c_inv_def cs
  proof (rule d2c_ok_success [OF ok c0(1,3) _ _ _ _ _ k])
    show "sint tot = sint (adv_recovered adv) + sint (dc_amount c0)" using t row(3) by (simp add: Kobo_Add_Inr)
    show "0 \<le> sint (dc_amount c0)" using amt by simp
    show "distinct (map fst (map adv_core (advances db')))"
      unfolding rows using da by (simp add: adv_core_def comp_def map_update_where_same)
    show "set (map adv_core (advances db')) = insert (dc_advance c0, adv_org adv, adv_employee adv, adv_amount adv, tot)
        {q \<in> set (map adv_core (advances db)). fst q \<noteq> dc_advance c0}"
      by (rule updated_cores [OF da a(1)]) (use a row(1) in \<open>simp_all add: rows\<close>)
  qed simp_all
qed

lemma open_collection_Inr:
  assumes "open_collection p now orgID advanceID scheduledFor db = Inr ((c, m, amount, ref), db1)"
  obtains adv link currency where "find_row (\<lambda>a. adv_id a = advanceID \<and> adv_org a = orgID) (advances db) = Inr adv"
    "adv_status adv = AdvanceDisbursed" "0 < sint (EWAAdvance_RemainingKobo adv)"
    "linked_account db orgID (adv_employee adv) = Inr link" "bl_mandate_ref link = Some m"
    "HasActiveConsent now db orgID (adv_employee adv) ConsentTypeD2CDebitMandate" "OrgCurrencyTx db orgID = Inr currency"
    "amount = KoboIn currency (EWAAdvance_RemainingKobo adv)" "ref = dc_id c"
    "dc_advance c = advanceID" "dc_org c = orgID" "dc_employee c = adv_employee adv" "dc_amount c = EWAAdvance_RemainingKobo adv"
    "dc_status c = D2CCollectionPending" "dc_provider_ref c = None" "dc_id c \<notin> dc_id ` set (debit_collections db)"
    "\<forall>d \<in> set (debit_collections db). \<not> (dc_org d = orgID \<and> in_flight advanceID d)"
    "db1 = (take_uuid db)\<lparr>debit_collections := debit_collections db @ [c]\<rparr>"
proof -
  from assms obtain adv link currency rows where
    a: "find_row (\<lambda>a. adv_id a = advanceID \<and> adv_org a = orgID) (advances db) = Inr adv"
    and st: "adv_status adv = AdvanceDisbursed" "Kobo_IsPositive (EWAAdvance_RemainingKobo adv)"
    and l: "linked_account db orgID (adv_employee adv) = Inr link" "bl_mandate_ref link = Some m"
    and h: "HasActiveConsent now db orgID (adv_employee adv) ConsentTypeD2CDebitMandate" "OrgCurrencyTx db orgID = Inr currency"
    and c: "c = D2CDebitCollection_BeforeCreate db
       \<lparr>dc_id = [], dc_org = orgID, dc_employee = adv_employee adv, dc_advance = adv_id adv,
        dc_amount = EWAAdvance_RemainingKobo adv, dc_attempt = last_attempt db advanceID + 1,
        dc_scheduled_for = scheduledFor, dc_status = D2CCollectionPending, dc_provider = dp_name p,
        dc_provider_ref = None, dc_attempted_at = None, dc_created_at = now, dc_updated_at = now\<rparr>"
    and ins: "insert_collection c (debit_collections db) = Inr rows"
    and rest: "amount = KoboIn currency (EWAAdvance_RemainingKobo adv)" "ref = dc_id c" "db1 = (take_uuid db)\<lparr>debit_collections := rows\<rparr>"
  proof -
    from assms obtain adv where a: "find_row (\<lambda>a. adv_id a = advanceID \<and> adv_org a = orgID) (advances db) = Inr adv"
      by (auto simp: open_collection_def rbind_eq_Inr)
    note e1 = assms [unfolded open_collection_def a rbind_simps]
    then have st: "adv_status adv = AdvanceDisbursed" "Kobo_IsPositive (EWAAdvance_RemainingKobo adv)" by (simp_all split: if_splits)
    obtain link where l: "linked_account db orgID (adv_employee adv) = Inr link"
      using e1 st by (cases "linked_account db orgID (adv_employee adv)") simp_all
    obtain m' where m': "bl_mandate_ref link = Some m'" using e1 st l by (cases "bl_mandate_ref link") simp_all
    have h: "HasActiveConsent now db orgID (adv_employee adv) ConsentTypeD2CDebitMandate" using e1 st l m' by (simp split: if_splits)
    show thesis using e1 st l m' h that [OF a st l _ h] by (auto simp: rbind_eq_Inr Let_def)
  qed
  have i: "adv_id adv = advanceID" using find_row_Inr [OF a] by simp
  have f: "dc_advance c = advanceID" "dc_org c = orgID" "dc_employee c = adv_employee adv" "dc_amount c = EWAAdvance_RemainingKobo adv"
    "dc_status c = D2CCollectionPending" "dc_provider_ref c = None"
    by (simp_all add: c D2CDebitCollection_BeforeCreate_def i)
  have r: "rows = debit_collections db @ [c]" "dc_id c \<notin> dc_id ` set (debit_collections db)"
    "\<forall>d \<in> set (debit_collections db). \<not> (dc_org d = orgID \<and> in_flight advanceID d)"
    using ins f by (auto simp: insert_collection_def insert_row_def list_ex_iff split: if_splits)
  have pos: "0 < sint (EWAAdvance_RemainingKobo adv)" using st(2) by (simp add: Kobo_IsPositive_def sless_sint)
  show thesis
    by (rule that [OF a st(1) pos l h rest(1,2) f r(2,3)]) (simp add: rest(3) r(1))
qed

lemma remaining_core:
  "0 \<le> sint (adv_recovered a) \<Longrightarrow> sint (adv_recovered a) \<le> sint (adv_amount a) \<Longrightarrow>
     sint (EWAAdvance_RemainingKobo a) = sint (adv_amount a) - sint (adv_recovered a)"
  using sint64_less [of "adv_amount a"]
  by (auto simp: EWAAdvance_RemainingKobo_def Kobo_Sub_exact Kobo_IsNegative_def sless_sint in64_def)

lemma core_of:
  assumes "d2c_inv db" "a \<in> set (advances db)"
  shows "core_ok (debit_collections db) (adv_core a)"
  using assms by (auto simp: d2c_inv_def intro: d2c_ok_core)

lemma open_inv:
  assumes inv: "d2c_inv db" and r: "open_collection p now orgID advanceID scheduledFor db = Inr (x, db1)"
  shows "d2c_inv db1"
proof -
  obtain c m amount ref where x: "x = (c, m, amount, ref)" by (cases x) auto
  from r [unfolded x] obtain adv where a: "find_row (\<lambda>a. adv_id a = advanceID \<and> adv_org a = orgID) (advances db) = Inr adv"
    and c: "dc_advance c = advanceID" "dc_org c = orgID" "dc_amount c = EWAAdvance_RemainingKobo adv"
      "dc_status c = D2CCollectionPending" "dc_id c \<notin> dc_id ` set (debit_collections db)"
      "\<forall>d \<in> set (debit_collections db). \<not> (dc_org d = orgID \<and> in_flight advanceID d)"
    and db1: "db1 = (take_uuid db)\<lparr>debit_collections := debit_collections db @ [c]\<rparr>"
    by (rule open_collection_Inr)
  note adv = find_row_Inr [OF a] and ok = inv [unfolded d2c_inv_def]
  have k: "(dc_advance c, dc_org c, adv_employee adv, adv_amount adv, adv_recovered adv) \<in> set (map adv_core (advances db))"
    using adv c(1,2) by (force simp: adv_core_def)
  have "core_ok (debit_collections db) (adv_core adv)" using core_of [OF inv] adv by blast
  then have amt: "sint (dc_amount c) = sint (adv_amount adv) - sint (adv_recovered adv)"
    using c(3) by (simp add: remaining_core core_ok_def adv_core_def)
  have free: "\<forall>d \<in> set (debit_collections db). \<not> in_flight (dc_advance c) d"
  proof (intro ballI notI)
    fix d assume d: "d \<in> set (debit_collections db)" "in_flight (dc_advance c) d"
    from d2c_ok_parent [OF ok d(1)] d(2) obtain e m r where "(dc_advance c, dc_org d, e, m, r) \<in> set (map adv_core (advances db))" by auto
    with core_unique [OF ok _ k] have "dc_org d = dc_org c" by blast
    then show False using c(1,2,6) d by auto
  qed
  show ?thesis using d2c_ok_open [OF ok k c(5,4) amt free] by (simp add: d2c_inv_def db1 take_uuid_def)
qed

lemma submission_inv:
  assumes inv: "d2c_inv db" and c: "c \<in> set (debit_collections db)" "dc_id c = dc_id c1" and r: "record_submission now c1 ref db = Inr db1"
  shows "d2c_inv db1"
proof -
  have "db1 = db\<lparr>debit_collections := update_where (\<lambda>r. dc_id r = dc_id c)
             (\<lambda>r. r\<lparr>dc_provider_ref := Some ref, dc_attempted_at := Some now, dc_updated_at := now\<rparr>) (debit_collections db)\<rparr>"
    using r c(2) by (auto simp: record_submission_def split: if_splits)
  then show ?thesis using d2c_ok_same [OF inv [unfolded d2c_inv_def] c(1)] by (simp add: d2c_inv_def)
qed

subsection \<open>Every interleaving\<close>

text \<open>
  The transactions on collections, in any order, with whatever else happens in between: the rest of the program may
  add advances nothing was recovered from, and change anything of an advance but its owner, amount and recovered
  amount. A settler works on a row it read earlier (\<open>snapshot\<close>).
\<close>

definition elsewhere :: "('z d2c_db_scheme) \<Rightarrow> ('z d2c_db_scheme) \<Rightarrow> bool" where
  "elsewhere db db' \<longleftrightarrow> debit_collections db' = debit_collections db \<and>
     (\<exists>new. map adv_core (advances db') = map adv_core (advances db) @ map adv_core new \<and>
        distinct (map adv_id (advances db')) \<and> (\<forall>a \<in> set new. adv_recovered a = 0 \<and> 0 \<le> sint (adv_amount a)))"

inductive d2c_step :: "('z d2c_db_scheme) \<Rightarrow> ('z d2c_db_scheme) \<Rightarrow> bool" where
  opened: "open_collection p now orgID advanceID scheduledFor db = Inr (x, db') \<Longrightarrow> d2c_step db db'"
| submitted: "snapshot db c \<Longrightarrow> record_submission now c ref db = Inr db' \<Longrightarrow> d2c_step db db'"
| succeeded: "snapshot db c \<Longrightarrow> ConfirmD2CCollectionSuccess now db c = Inr db' \<Longrightarrow> d2c_step db db'"
| failed: "snapshot db c \<Longrightarrow> ConfirmD2CCollectionFailure now db c reason = Inr db' \<Longrightarrow> d2c_step db db'"
| other: "elsewhere db db' \<Longrightarrow> d2c_step db db'"

inductive d2c_reachable :: "('z d2c_db_scheme) \<Rightarrow> bool" where
  initial: "debit_collections db = [] \<Longrightarrow> distinct (map adv_id (advances db)) \<Longrightarrow>
    (\<forall>a \<in> set (advances db). adv_recovered a = 0 \<and> 0 \<le> sint (adv_amount a)) \<Longrightarrow> d2c_reachable db"
| step: "d2c_reachable db \<Longrightarrow> d2c_step db db' \<Longrightarrow> d2c_reachable db'"

lemma fresh_core_ok: "(\<forall>c \<in> set cs. dc_advance c \<noteq> adv_id a) \<Longrightarrow> adv_recovered a = 0 \<Longrightarrow> 0 \<le> sint (adv_amount a) \<Longrightarrow> core_ok cs (adv_core a)"
proof (induction cs rule: rev_induct)
  case (snoc c cs) then show ?case by (auto simp: core_ok_def adv_core_def)
qed (simp add: core_ok_def adv_core_def)

lemma elsewhere_inv:
  assumes inv: "d2c_inv db" and e: "elsewhere db db'"
  shows "d2c_inv db'"
proof -
  note ok = inv [unfolded d2c_inv_def]
  from e obtain new where cs: "debit_collections db' = debit_collections db"
    and rows: "map adv_core (advances db') = map adv_core (advances db) @ map adv_core new"
    and d: "distinct (map adv_id (advances db'))" and new: "\<forall>a \<in> set new. adv_recovered a = 0 \<and> 0 \<le> sint (adv_amount a)"
    by (auto simp: elsewhere_def)
  have "map fst (map adv_core (advances db')) = map adv_id (advances db')" by (simp add: adv_core_def)
  then have df: "distinct (map fst (map adv_core (advances db) @ map adv_core new))" using d unfolding rows by simp
  have "dc_advance c \<noteq> adv_id a" if "a \<in> set new" "c \<in> set (debit_collections db)" for a c
  proof -
    from d2c_ok_parent [OF ok that(2)] obtain b where "b \<in> set (advances db)" "adv_id b = dc_advance c" by (auto simp: adv_core_def)
    then show ?thesis using df that(1) by (force simp: adv_core_def)
  qed
  then have "core_ok (debit_collections db) (adv_core a)" if "a \<in> set new" for a
    using that new by (intro fresh_core_ok) auto
  moreover have "core_ok (debit_collections db) (adv_core a)" if "a \<in> set (advances db)" for a using core_of [OF inv that] .
  ultimately have core: "core_ok (debit_collections db) (i, k)" if "(i, k) \<in> set (map adv_core (advances db) @ map adv_core new)" for i k
    using that by (auto simp: image_iff)
  show ?thesis unfolding d2c_inv_def cs rows
  proof (rule d2c_okI [OF _ df core])
    show "distinct (map dc_id (debit_collections db))" using ok by (simp add: d2c_ok_def)
    show "\<exists>e m r. (dc_advance c, dc_org c, e, m, r) \<in> set (map adv_core (advances db) @ map adv_core new)"
      if "c \<in> set (debit_collections db)" for c using d2c_ok_parent [OF ok that] by auto
    show "b = a" if "a \<in> set (debit_collections db)" "b \<in> set (debit_collections db)" "in_flight (dc_advance a) a" "in_flight (dc_advance a) b"
      for a b using d2c_ok_one [OF ok that] .
  qed
qed

lemma d2c_step_inv: "d2c_step db db' \<Longrightarrow> d2c_inv db \<Longrightarrow> d2c_inv db'"
proof (induction rule: d2c_step.induct)
  case (opened p now orgID advanceID scheduledFor db x db')
  then show ?case by (blast intro: open_inv)
next
  case (submitted db c now ref db')
  then show ?case by (auto simp: snapshot_def intro: submission_inv)
next
  case (succeeded db c now db')
  then show ?case by (blast intro: success_inv)
next
  case (failed db c now reason db')
  then show ?case by (blast intro: failure_inv)
next
  case (other db db')
  then show ?case by (blast intro: elsewhere_inv)
qed

lemma d2c_reachable_inv: "d2c_reachable db \<Longrightarrow> d2c_inv db"
proof (induction rule: d2c_reachable.induct)
  case (initial db)
  then show ?case by (auto simp: d2c_inv_def d2c_ok_def adv_core_def comp_def core_ok_def)
qed (blast intro: d2c_step_inv)

text \<open>The operations are made of these transactions.\<close>

lemma initiate_cases:
  assumes "InitiateD2CCollection p others now db orgID advanceID scheduledFor = (r, reqs, db')"
  obtains (refused) e where "r = Inl e" "reqs = []" "db' = db" "open_collection p now orgID advanceID scheduledFor db = Inl e"
  | (rejected) c m amount db1 reason where "open_collection p now orgID advanceID scheduledFor db = Inr ((c, m, amount, dc_id c), db1)"
      "reqs = [(m, amount, dc_id c)]" "\<forall>result. dp_debit p m amount (dc_id c) = Inr result \<longrightarrow> \<not> dr_accepted result"
      "db' = snd (in_scope (\<lambda>db. ConfirmD2CCollectionFailure now db c reason) (others db1))"
  | (accepted) c m amount db1 result where "open_collection p now orgID advanceID scheduledFor db = Inr ((c, m, amount, dc_id c), db1)"
      "reqs = [(m, amount, dc_id c)]" "dp_debit p m amount (dc_id c) = Inr result" "dr_accepted result"
      "db' = snd (in_scope (record_submission now c (dr_reference result)) (others db1))"
proof (cases "open_collection p now orgID advanceID scheduledFor db")
  case (Inl e)
  then show thesis using assms by (intro refused [of e]) (simp_all add: InitiateD2CCollection_def)
next
  case (Inr y)
  obtain c m amount ref db1 where y: "y = ((c, m, amount, ref), db1)" by (metis prod.exhaust)
  have o1: "open_collection p now orgID advanceID scheduledFor db = Inr ((c, m, amount, ref), db1)" using Inr y by simp
  have ref: "ref = dc_id c" using o1 by (rule open_collection_Inr)
  note run = assms [unfolded InitiateD2CCollection_def Let_def, simplified o1 ref WithOrgScope_def, simplified]
  show thesis
  proof (cases "dp_debit p m amount (dc_id c)")
    case (Inl e)
    show thesis
      by (rule rejected [OF o1 [unfolded ref], of "''submission_rejected: '' @ ''rail unreachable''"])
        (use run Inl in \<open>auto split: prod.splits sum.splits\<close>)
  next
    case i2: (Inr result)
    show thesis
    proof (cases "dr_accepted result")
      case True
      show thesis
        by (rule accepted [OF o1 [unfolded ref] _ i2 True]) (use run i2 True in \<open>auto split: prod.splits sum.splits\<close>)
    next
      case False
      show thesis
        by (rule rejected [OF o1 [unfolded ref], of "''submission_rejected: '' @ dr_message result"])
          (use run i2 False in \<open>auto split: prod.splits sum.splits\<close>)
    qed
  qed
qed

lemma in_scope_cases: "snd (in_scope fn db) = db \<or> fn db = Inr (snd (in_scope fn db))"
  by (cases "fn db") (simp_all add: in_scope_def WithOrgScope_def)

lemma initiate_run:
  assumes "InitiateD2CCollection p id now db orgID advanceID scheduledFor = (r, reqs, db')"
  shows "d2c_step\<^sup>*\<^sup>* db db'"
  using assms
proof (cases rule: initiate_cases)
  case (rejected c m amount db1 reason)
  have "snapshot db1 c" using rejected(1) by (rule open_collection_Inr) (auto simp: snapshot_def)
  then have "d2c_step\<^sup>*\<^sup>* db1 db'"
    using in_scope_cases [of "\<lambda>db. ConfirmD2CCollectionFailure now db c reason" db1] rejected(4) by (auto intro: d2c_step.failed)
  then show ?thesis using d2c_step.opened [OF rejected(1)] by (meson converse_rtranclp_into_rtranclp)
next
  case (accepted c m amount db1 result)
  have "snapshot db1 c" using accepted(1) by (rule open_collection_Inr) (auto simp: snapshot_def)
  then have "d2c_step\<^sup>*\<^sup>* db1 db'"
    using in_scope_cases [of "record_submission now c (dr_reference result)" db1] accepted(5) by (auto intro: d2c_step.submitted)
  then show ?thesis using d2c_step.opened [OF accepted(1)] by (meson converse_rtranclp_into_rtranclp)
qed simp

lemma attempt_run:
  assumes "attemptD2CCollectionForAdvance p now db orgID adv asOf = (r, reqs, db')"
  shows "d2c_step\<^sup>*\<^sup>* db db'"
  using assms by (auto simp: attemptD2CCollectionForAdvance_def Let_def split: sum.splits if_splits prod.splits intro: initiate_run)

lemma sweep_advances_run:
  "sweep_advances p now orgID asOf as (rs, reqs, db) = (rs', reqs', db') \<Longrightarrow> d2c_step\<^sup>*\<^sup>* db db'"
proof (induction as arbitrary: rs reqs db)
  case (Cons a as)
  obtain r qs db1 where a: "attemptD2CCollectionForAdvance p now db orgID a asOf = (r, qs, db1)" by (metis prod.exhaust)
  then have "d2c_step\<^sup>*\<^sup>* db1 db'" using Cons by simp
  then show ?case using attempt_run [OF a] by simp
qed simp

lemma sweep_run:
  "sweep_orgs p now asOf os (rs, reqs, db) = (rs', reqs', db') \<Longrightarrow> d2c_step\<^sup>*\<^sup>* db db'"
proof (induction os arbitrary: rs reqs db)
  case (Cons o1 os)
  obtain rs1 qs db1 where a: "sweep_advances p now o1 asOf (collectible db o1) (rs, reqs, db) = (rs1, qs, db1)" by (metis prod.exhaust)
  then have "d2c_step\<^sup>*\<^sup>* db1 db'" using Cons by simp
  then show ?case using sweep_advances_run [OF a] by simp
qed simp

lemma snd_answer: "snd (case x of (Inl e, d) \<Rightarrow> (f e, d) | (Inr y, d) \<Rightarrow> (g y, d)) = snd x"
  by (auto split: prod.splits sum.splits)

lemma webhook_run: "d2c_step\<^sup>*\<^sup>* db (snd (HandleD2CDebitWebhook now db decoded))"
proof (cases "\<exists>payload c. decoded = Some payload \<and> dw_reference payload \<noteq> [] \<and> dw_status payload \<noteq> [] \<and>
    find_row (\<lambda>c. dc_provider_ref c = Some (dw_reference payload)) (debit_collections db) = Inr c \<and>
    dc_status c = D2CCollectionPending \<and> (dw_status payload = ''successful'' \<or> dw_status payload = ''failed'')")
  case True
  then obtain payload c where c: "decoded = Some payload" "dw_reference payload \<noteq> []" "dw_status payload \<noteq> []"
    "find_row (\<lambda>c. dc_provider_ref c = Some (dw_reference payload)) (debit_collections db) = Inr c"
    "dc_status c = D2CCollectionPending" "dw_status payload = ''successful'' \<or> dw_status payload = ''failed''" by blast
  let ?fn = "\<lambda>db. if dw_status payload = ''successful'' then ConfirmD2CCollectionSuccess now db c
    else ConfirmD2CCollectionFailure now db c (dw_reason payload)"
  have "snapshot db c" using find_row_Inr [OF c(4)] by (auto simp: snapshot_def)
  then have "?fn db = Inr db' \<Longrightarrow> d2c_step db db'" for db' by (auto intro: d2c_step.intros split: if_splits)
  then have "d2c_step\<^sup>*\<^sup>* db (snd (in_scope ?fn db))" using in_scope_cases [of ?fn db] by fastforce
  moreover have "snd (HandleD2CDebitWebhook now db decoded) = snd (in_scope ?fn db)"
    using c by (auto simp: HandleD2CDebitWebhook_def snd_answer)
  ultimately show ?thesis by (simp only:)
next
  case False
  then have "snd (HandleD2CDebitWebhook now db decoded) = db"
    by (auto simp: HandleD2CDebitWebhook_def split: option.splits sum.splits)
  then show ?thesis by simp
qed

subsection \<open>Properties of the collections\<close>

lemma d2c_reachable_run:
  assumes "d2c_reachable db" "d2c_step\<^sup>*\<^sup>* db db'" shows "d2c_reachable db'"
  using assms(2) by (induction rule: rtranclp_induct) (blast intro: assms(1) d2c_reachable.step)+

lemma same_core:
  assumes "d2c_inv db" "adv_core x \<in> set (map adv_core (advances db))" "a \<in> set (advances db)" "adv_id x = adv_id a"
  shows "adv_core x = adv_core a"
proof -
  obtain y where y: "adv_core x = adv_core y" "y \<in> set (advances db)" using assms(2) by auto
  then have "adv_id y = adv_id a" using assms(4) by (simp add: adv_core_def)
  moreover have "distinct (map adv_id (advances db))" using assms(1) by (simp add: d2c_inv_def d2c_ok_def adv_core_def comp_def)
  ultimately show ?thesis using by_id assms(3) y by metis
qed


lemma create_consent_Inr:
  assumes "create_consent db orgID emp ty granted ip agent now ex = Inr db'"
  obtains c where "db' = (take_uuid db)\<lparr>consent_records := consent_records db @ [c]\<rparr>" "con_org c = orgID" "con_employee c = emp"
    "con_type c = ty" "con_granted c = granted" "con_at c = now"
  using assms by (auto simp: create_consent_def rbind_eq_Inr insert_row_Inr ConsentRecord_BeforeCreate_def)

lemma withdrawn_inactive:
  assumes "w \<in> set (consent_records db)" "con_org w = orgID" "con_employee w = emp" "con_type w = ty" "\<not> con_granted w"
    and "\<forall>c \<in> set (consent_records db). con_org c = orgID \<and> con_employee c = emp \<and> con_type c = ty \<longrightarrow> c = w \<or> con_at c < con_at w"
  shows "\<not> HasActiveConsent later db orgID emp ty"
proof -
  have "first_by (\<lambda>c. (- con_at c, con_id c)) (\<lambda>c. con_org c = orgID \<and> con_employee c = emp \<and> con_type c = ty) (consent_records db) = Inr w"
    using assms by (intro first_by_unique) auto
  then show ?thesis using assms(5) by (simp add: HasActiveConsent_def)
qed

lemma withdrawal_effect:
  assumes link: "linked_account db orgID emp = Inr link"
    and only: "\<forall>l \<in> set (bank_links db). bl_org l = orgID \<and> bl_employee l = emp \<and> bl_status l = D2CBankLinkLinked \<longrightarrow> l = link"
    and earlier: "\<forall>c \<in> set (consent_records db). con_at c < now"
    and revoked: "RevokeDebitMandate now ip agent db orgID emp = (200, db') \<or> Revoke now ip agent db orgID emp = (200, db')"
  shows "advances db' = advances db" "linked_account db' orgID emp = Inr l \<Longrightarrow> bl_mandate_ref l = None"
    "bl_mandate_ref link \<noteq> None \<Longrightarrow> \<not> HasActiveConsent later db' orgID emp ConsentTypeD2CDebitMandate"
proof -
  consider (kept) "bl_mandate_ref link = None" "db' = db"
    | (mandate) "create_consent (update_link db link (\<lambda>l. l\<lparr>bl_mandate_ref := None, bl_debit_authorized_at := None\<rparr>))
        orgID emp ConsentTypeD2CDebitMandate False ip agent now None = Inr db'"
    | (all) db1 where "create_consent (update_link db link (\<lambda>l. l\<lparr>bl_status := D2CBankLinkRevoked, bl_revoked_at := Some now\<rparr>))
        orgID emp ConsentTypeD2CBankLinkRead False ip agent now None = Inr db1"
        "(bl_mandate_ref link = None \<and> db' = db1) \<or> create_consent db1 orgID emp ConsentTypeD2CDebitMandate False ip agent now None = Inr db'"
    using revoked link
    by (auto simp: RevokeDebitMandate_def Revoke_def WithOrgScope_def withdrawal_code_def rbind_eq_Inr split: sum.splits if_splits)
  then have "advances db' = advances db \<and> (linked_account db' orgID emp = Inr l \<longrightarrow> bl_mandate_ref l = None) \<and>
    (bl_mandate_ref link \<noteq> None \<longrightarrow> \<not> HasActiveConsent later db' orgID emp ConsentTypeD2CDebitMandate)"
  proof cases
    case kept
    then show ?thesis using link by auto
  next
    case mandate
    then obtain c where c: "db' = (take_uuid (update_link db link (\<lambda>l. l\<lparr>bl_mandate_ref := None, bl_debit_authorized_at := None\<rparr>)))
        \<lparr>consent_records := consent_records db @ [c]\<rparr>" "con_org c = orgID" "con_employee c = emp"
      "con_type c = ConsentTypeD2CDebitMandate" "\<not> con_granted c" "con_at c = now"
      by (rule create_consent_Inr) (simp add: update_link_def)
    have "\<not> HasActiveConsent later db' orgID emp ConsentTypeD2CDebitMandate"
      by (rule withdrawn_inactive [of c]) (use c earlier in auto)
    moreover have "bl_mandate_ref l = None" if "linked_account db' orgID emp = Inr l"
      using first_by_Inr [OF that [unfolded linked_account_def]] only by (auto simp: c(1) update_link_def take_uuid_def in_update_where)
    ultimately show ?thesis by (simp add: c(1) update_link_def take_uuid_def)
  next
    case all
    from all(1) obtain c1 where c1: "db1 = (take_uuid (update_link db link (\<lambda>l. l\<lparr>bl_status := D2CBankLinkRevoked, bl_revoked_at := Some now\<rparr>)))
        \<lparr>consent_records := consent_records db @ [c1]\<rparr>" "con_type c1 = ConsentTypeD2CBankLinkRead"
      by (rule create_consent_Inr) (simp add: update_link_def)
    have un: "linked_account d orgID emp \<noteq> Inr l" if "bank_links d = bank_links db1" for d :: "'a link_db_scheme"
    proof
      assume "linked_account d orgID emp = Inr l"
      from first_by_Inr [OF this [unfolded linked_account_def]]
      have l: "bl_org l = orgID" "bl_employee l = emp" "bl_status l = D2CBankLinkLinked" "l \<in> set (bank_links db1)" using that by auto
      from l(4) obtain r where r: "r \<in> set (bank_links db)"
        "l = (if bl_id r = bl_id link then r\<lparr>bl_status := D2CBankLinkRevoked, bl_revoked_at := Some now\<rparr> else r)"
        by (auto simp: c1(1) update_link_def take_uuid_def in_update_where)
      then have "l = r" "bl_id r \<noteq> bl_id link" using l(3) by (cases "bl_id r = bl_id link"; simp)+
      then show False using only r(1) l(1-3) by auto
    qed
    show ?thesis
    proof (cases "bl_mandate_ref link = None \<and> db' = db1")
      case True then show ?thesis using un [of db'] by (simp add: c1(1) update_link_def take_uuid_def)
    next
      case False
      then obtain c where c: "db' = (take_uuid db1)\<lparr>consent_records := consent_records db1 @ [c]\<rparr>" "con_org c = orgID" "con_employee c = emp"
        "con_type c = ConsentTypeD2CDebitMandate" "\<not> con_granted c" "con_at c = now"
        using all(2) by (auto elim!: create_consent_Inr)
      have "\<not> HasActiveConsent later db' orgID emp ConsentTypeD2CDebitMandate"
        by (rule withdrawn_inactive [of c])
          (use c c1 earlier in \<open>auto simp: ConsentTypeD2CDebitMandate_def ConsentTypeD2CBankLinkRead_def\<close>)
      then show ?thesis using un [of db'] by (simp add: c(1) c1(1) update_link_def take_uuid_def)
    qed
  qed
  then show "advances db' = advances db" "linked_account db' orgID emp = Inr l \<Longrightarrow> bl_mandate_ref l = None"
    "bl_mandate_ref link \<noteq> None \<Longrightarrow> \<not> HasActiveConsent later db' orgID emp ConsentTypeD2CDebitMandate" by blast+
qed

text \<open>
  C25: withdrawing the authorization stops the debits. For a worker with one linked account, once
  \<open>RevokeDebitMandate\<close> or \<open>Revoke\<close> has answered 200 no attempt on any of the worker's advances asks the provider for
  money or changes anything; and when a mandate was standing, the worker's debit consent is inactive from then on.
\<close>

theorem revocation_stops_debits:
  assumes link: "linked_account db orgID emp = Inr link"
    and only: "\<forall>l \<in> set (bank_links db). bl_org l = orgID \<and> bl_employee l = emp \<and> bl_status l = D2CBankLinkLinked \<longrightarrow> l = link"
    and earlier: "\<forall>c \<in> set (consent_records db). con_at c < now"
    and revoked: "RevokeDebitMandate now ip agent db orgID emp = (200, db') \<or> Revoke now ip agent db orgID emp = (200, db')"
    and mine: "\<forall>a \<in> set (advances db). adv_id a = advanceID \<and> adv_org a = orgID \<longrightarrow> adv_employee a = emp"
  shows "(\<exists>e. InitiateD2CCollection p others now2 db' orgID advanceID scheduledFor = (Inl e, [], db')) \<and>
    (bl_mandate_ref link \<noteq> None \<longrightarrow> \<not> HasActiveConsent later db' orgID emp ConsentTypeD2CDebitMandate)"
proof -
  note w = withdrawal_effect [OF link only earlier revoked]
  have kept: "advances db' = advances db" and gone: "bl_mandate_ref link \<noteq> None \<Longrightarrow> \<not> HasActiveConsent later db' orgID emp ConsentTypeD2CDebitMandate"
    using w(1,3) by blast+
  have none: "linked_account db' orgID emp = Inr l \<Longrightarrow> bl_mandate_ref l = None" for l using w(2) .
  have "\<exists>e. open_collection p now2 orgID advanceID scheduledFor db' = Inl e"
  proof (cases "open_collection p now2 orgID advanceID scheduledFor db'")
    case (Inr y)
    obtain c m amount ref db1 where y: "y = ((c, m, amount, ref), db1)" by (metis prod.exhaust)
    from Inr [unfolded y] show ?thesis
    proof (rule open_collection_Inr)
      fix adv l assume "find_row (\<lambda>a. adv_id a = advanceID \<and> adv_org a = orgID) (advances db') = Inr adv"
        "linked_account db' orgID (adv_employee adv) = Inr l" "bl_mandate_ref l = Some m"
      then show ?thesis using mine kept none by (auto dest!: find_row_Inr)
    qed
  qed simp
  then show ?thesis using gone by (auto simp: InitiateD2CCollection_def WithOrgScope_def)
qed

text \<open>
  C17: an unreachable rail lets the same money be pulled twice. A debit whose outcome is unknown (\<open>InitiateDebit\<close>
  returned an error) is recorded as failed without a provider reference, so no later callback finds it; and the next
  attempt that reaches the provider asks for the same full amount again, under another reference.
\<close>

theorem unknown_debit_repeats:
  assumes r: "d2c_reachable db"
    and run1: "InitiateD2CCollection p id now db orgID advanceID s1 = (r1, [(m1, amount1, ref1)], db1)"
    and unknown: "dp_debit p m1 amount1 ref1 = Inl e"
    and run2: "InitiateD2CCollection p2 others now2 db1 orgID advanceID s2 = (r2, [(m2, amount2, ref2)], db2)"
  shows "Minor amount2 = Minor amount1 \<and> ref2 \<noteq> ref1 \<and>
    (\<exists>c \<in> set (debit_collections db1). dc_id c = ref1 \<and> dc_status c = D2CCollectionFailed \<and> dc_provider_ref c = None)"
proof -
  have inv: "d2c_inv db" using d2c_reachable_inv [OF r] .
  from run1 unknown obtain c da reason where o1: "open_collection p now orgID advanceID s1 db = Inr ((c, m1, amount1, ref1), da)"
    and ref1: "ref1 = dc_id c" and db1: "db1 = snd (in_scope (\<lambda>db. ConfirmD2CCollectionFailure now db c reason) da)"
    by (cases rule: initiate_cases) auto
  from run2 obtain c2 dx where o2: "open_collection p2 now2 orgID advanceID s2 db1 = Inr ((c2, m2, amount2, ref2), dx)"
    by (cases rule: initiate_cases) auto
  have inva: "d2c_inv da" by (rule open_inv [OF inv o1])
  from o1 obtain adv cur where a: "find_row (\<lambda>a. adv_id a = advanceID \<and> adv_org a = orgID) (advances db) = Inr adv"
    and c: "amount1 = KoboIn cur (EWAAdvance_RemainingKobo adv)" "dc_advance c = advanceID" "dc_org c = orgID"
      "dc_status c = D2CCollectionPending" "dc_provider_ref c = None"
    and da: "da = (take_uuid db)\<lparr>debit_collections := debit_collections db @ [c]\<rparr>" by (rule open_collection_Inr)
  from o2 obtain adv2 cur2 where a2: "find_row (\<lambda>a. adv_id a = advanceID \<and> adv_org a = orgID) (advances db1) = Inr adv2"
    and c2: "amount2 = KoboIn cur2 (EWAAdvance_RemainingKobo adv2)" "ref2 = dc_id c2" "dc_id c2 \<notin> dc_id ` set (debit_collections db1)"
    and free: "\<forall>d \<in> set (debit_collections db1). \<not> (dc_org d = orgID \<and> in_flight advanceID d)" by (rule open_collection_Inr)
  have ids: "distinct (map dc_id (debit_collections da))" using inva by (simp add: d2c_inv_def d2c_ok_def)
  have "db1 \<noteq> da" using free c da by auto
  then have "ConfirmD2CCollectionFailure now da c reason = Inr db1"
    using in_scope_cases [of "\<lambda>db. ConfirmD2CCollectionFailure now db c reason" da] unfolding db1 by blast
  with ids obtain c0 dm where c0: "c0 \<in> set (debit_collections da)" "dc_id c0 = dc_id c" and m: "same_money dm db1"
    and dm: "dm = da\<lparr>debit_collections := update_where (\<lambda>r. dc_id r = dc_id c0)
        (\<lambda>r. r\<lparr>dc_status := D2CCollectionFailed, dc_updated_at := now\<rparr>) (debit_collections da)\<rparr>"
    by (rule failure_Inr)
  have rows: "map adv_core (advances db1) = map adv_core (advances db)"
    "debit_collections db1 = update_where (\<lambda>r. dc_id r = dc_id c0)
        (\<lambda>r. r\<lparr>dc_status := D2CCollectionFailed, dc_updated_at := now\<rparr>) (debit_collections da)"
    using m by (simp_all add: same_money_def dm da take_uuid_def)
  have failed: "c\<lparr>dc_status := D2CCollectionFailed, dc_updated_at := now\<rparr> \<in> set (debit_collections db1)"
    unfolding rows in_update_where using c0(2) by (intro bexI [of _ c]) (simp_all add: da)
  have "adv_core adv2 \<in> set (map adv_core (advances db1))" using find_row_Inr [OF a2] by simp
  then have "adv_core adv2 \<in> set (map adv_core (advances db))" unfolding rows(1) .
  then have "adv_core adv2 = adv_core adv" using same_core [OF inv] find_row_Inr [OF a] find_row_Inr [OF a2] by metis
  then have "adv_amount adv2 = adv_amount adv" "adv_recovered adv2 = adv_recovered adv" by (simp_all add: adv_core_def)
  then have "Minor amount2 = Minor amount1" using c(1) c2(1) by (simp add: KoboIn_def EWAAdvance_RemainingKobo_def)
  moreover have "ref2 \<noteq> ref1" using failed c2(2,3) ref1 by (auto simp: image_iff)
  moreover have "\<exists>x \<in> set (debit_collections db1). dc_id x = ref1 \<and> dc_status x = D2CCollectionFailed \<and> dc_provider_ref x = None"
    by (rule bexI [OF _ failed]) (simp add: ref1 c(5))
  ultimately show ?thesis by blast
qed

subsection \<open>Instances\<close>

text \<open>A consumer organization, one disbursed advance of 100 and a linked account with a mandate.\<close>

definition demo_d2c :: d2c_db where
  "demo_d2c = link_db.extend (demo_link\<lparr>
       advances := [demo_advance\<lparr>adv_employee := ''EMP-h'', adv_recovered := 0\<rparr>],
       consent_records := [\<lparr>con_id = ''CON-d'', con_org = ''ORG-1'', con_employee = ''EMP-h'', con_type = ''d2c_debit_mandate'',
         con_granted = True, con_ip = [], con_agent = [], con_at = 1, con_expires = None\<rparr>],
       bank_links := [\<lparr>bl_id = ''D2CBL-1'', bl_org = ''ORG-1'', bl_employee = ''EMP-h'', bl_provider = ''mock'', bl_account_ref = ''acc'',
         bl_status = D2CBankLinkLinked, bl_mandate_ref = Some ''mandate'', bl_debit_authorized_at = Some 1, bl_linked_at = 1,
         bl_revoked_at = None, bl_last_synced_at = None\<rparr>]\<rparr>)
     \<lparr>debit_collections = []\<rparr>"

definition demo_rail :: "DebitResult res \<Rightarrow> DebitProvider" where
  "demo_rail answer = \<lparr>dp_name = ''mock'', dp_initiate_link = (\<lambda>_. Inl (ErrOther [])), dp_complete_link = (\<lambda>_. Inl (ErrOther [])),
     dp_transactions = (\<lambda>_ _. Inr []), dp_authorize = (\<lambda>_. Inr ''mandate''), dp_debit = (\<lambda>_ _ _. answer)\<rparr>"

definition demo_debit :: "DebitResult res \<Rightarrow> d2c_db \<Rightarrow> D2CDebitCollection res \<times> debit_request list \<times> d2c_db" where
  "demo_debit answer db = InitiateD2CCollection (demo_rail answer) id 10 db ''ORG-1'' ''EWA-1'' 9"

definition demo_accepted :: "DebitResult res" where
  "demo_accepted = Inr \<lparr>dr_accepted = True, dr_reference = ''R-1'', dr_message = []\<rparr>"

lemma demo_d2c_reachable: "d2c_reachable demo_d2c"
  by (rule d2c_reachable.initial) (simp_all add: demo_d2c_def link_db.defs demo_advance_def)

lemma demo_d2c_rows:
  "bank_links demo_d2c = [hd (bank_links demo_d2c)]" "\<forall>c \<in> set (consent_records demo_d2c). con_at c < 5"
  "\<forall>a \<in> set (advances demo_d2c). adv_employee a = ''EMP-h''"
  by (simp_all add: demo_d2c_def link_db.defs demo_advance_def)

text \<open>The debit of 100 is submitted, then reported successful.\<close>

definition demo_collected :: d2c_db where
  "demo_collected = snd (HandleD2CDebitWebhook 11 (snd (snd (demo_debit demo_accepted demo_d2c)))
     (Some \<lparr>dw_reference = ''R-1'', dw_status = ''successful'', dw_reason = []\<rparr>))"


theorem revocation_stops_debits_witness:
  "\<exists>reqs db'. snd (demo_debit demo_accepted demo_d2c) = (reqs, db') \<and> reqs \<noteq> [] \<and>
     fst (Revoke 5 ''ip'' ''ua'' demo_d2c ''ORG-1'' ''EMP-h'') = 200 \<and>
     fst (snd (demo_debit demo_accepted (snd (Revoke 5 ''ip'' ''ua'' demo_d2c ''ORG-1'' ''EMP-h'')))) = []"
proof -
  have link: "linked_account demo_d2c ''ORG-1'' ''EMP-h'' = Inr (hd (bank_links demo_d2c))"
    by (simp add: linked_account_def first_by_def demo_d2c_def link_db.defs)
  have only: "\<forall>l \<in> set (bank_links demo_d2c). bl_org l = ''ORG-1'' \<and> bl_employee l = ''EMP-h'' \<and> bl_status l = D2CBankLinkLinked \<longrightarrow>
      l = hd (bank_links demo_d2c)"
    by (subst demo_d2c_rows(1)) simp
  have "fst (Revoke 5 ''ip'' ''ua'' demo_d2c ''ORG-1'' ''EMP-h'') = 200" by code_simp
  then have rev: "Revoke 5 ''ip'' ''ua'' demo_d2c ''ORG-1'' ''EMP-h'' = (200, snd (Revoke 5 ''ip'' ''ua'' demo_d2c ''ORG-1'' ''EMP-h''))"
    by (simp add: prod_eq_iff)
  have "fst (snd (demo_debit demo_accepted demo_d2c)) \<noteq> []" by code_simp
  moreover have "fst (snd (demo_debit demo_accepted (snd (Revoke 5 ''ip'' ''ua'' demo_d2c ''ORG-1'' ''EMP-h'')))) = []"
    using revocation_stops_debits [OF link only _ disjI2 [OF rev], of "''EWA-1''" "demo_rail demo_accepted" id 10 9 0] demo_d2c_rows(2,3)
    by (auto simp: demo_debit_def)
  ultimately show ?thesis using rev by (metis fst_conv prod.collapse)
qed

theorem unknown_debit_repeats_witness:
  "\<exists>m1 m2 a1 a2 ref1 ref2 db1. snd (demo_debit (Inl (ErrOther ''timeout'')) demo_d2c) = ([(m1, a1, ref1)], db1) \<and>
     fst (snd (demo_debit demo_accepted db1)) = [(m2, a2, ref2)] \<and> Minor a1 = 100 \<and> Minor a2 = Minor a1 \<and> ref2 \<noteq> ref1"
proof -
  let ?one = "demo_debit (Inl (ErrOther ''timeout'')) demo_d2c"
  let ?two = "demo_debit demo_accepted (snd (snd ?one))"
  have "case fst (snd ?one) of [(_, a, _)] \<Rightarrow> Minor a = 100 | _ \<Rightarrow> False" by code_simp
  then obtain m1 a1 ref1 where one: "?one = (fst ?one, [(m1, a1, ref1)], snd (snd ?one))" "Minor a1 = 100"
    by (cases ?one) (auto split: list.splits prod.splits)
  have "length (fst (snd ?two)) = 1" by code_simp
  then obtain m2 a2 ref2 where two: "?two = (fst ?two, [(m2, a2, ref2)], snd (snd ?two))"
    by (cases ?two) (auto simp: length_Suc_conv)
  have "dp_debit (demo_rail (Inl (ErrOther ''timeout''))) m1 a1 ref1 = Inl (ErrOther ''timeout'')" by (simp add: demo_rail_def)
  from unknown_debit_repeats [OF demo_d2c_reachable one(1) [unfolded demo_debit_def] this two [unfolded demo_debit_def]]
  show ?thesis using one two by (metis snd_conv fst_conv)
qed

end
