(* ===== verification/Idempotency.thy ===== *)
theory Idempotency
  imports Redis_Store
begin

text \<open>
  The idempotency middleware (\<open>internal/api/middleware/idempotency.go\<close>). A request is answered from the cache,
  refused, or let through to its handler; afterwards the response is cached or the key released. SHA-256 is the
  parameter \<open>digest\<close>; a stored value is the sentinel, a cached response, or text that does not decode (the JSON
  round trip of a cached response is the identity). The handler is its answer, \<open>None\<close> when it panics.
\<close>

definition idempotencyTTL :: time where
  "idempotencyTTL = 24 * Hour"

definition inflightTTL :: time where
  "inflightTTL = 60 * 10 ^ 9"

definition maxIdempotencyKeyLen :: nat where
  "maxIdempotencyKeyLen = 255"

record cachedResponse =
  cr_status :: nat
  cr_body :: string
  cr_hash :: string

datatype idem_entry = InFlight | Response cachedResponse | Undecodable string

record idem_request =
  ir_org :: string
  ir_method :: string
  ir_route :: string
  ir_path :: string
  ir_key :: string
  ir_body :: "string option"

text \<open>The key holds the route's pattern (\<open>FullPath\<close>), not the request's own path.\<close>

definition idem_key :: "idem_request \<Rightarrow> string" where
  "idem_key q = ''idempotency:'' @ ir_org q @ '':'' @ ir_method q @ '':'' @ ir_route q @ '':'' @ ir_key q"

datatype idem_answer = Answer nat "string option" | Proceed string

text \<open>Everything before the claim: the checks and the \<open>GET\<close>. \<open>Proceed\<close> carries the digest.\<close>

definition idem_lookup :: "(string \<Rightarrow> string) \<Rightarrow> reply \<Rightarrow> time \<Rightarrow> idem_request \<Rightarrow> idem_entry redis \<Rightarrow> idem_answer" where
  "idem_lookup digest reply now q r =
     (if ir_key q = [] then Answer 400 None
      else if maxIdempotencyKeyLen < length (ir_key q) then Answer 400 None
      else (case ir_body q of
              None \<Rightarrow> Answer 400 None
            | Some body \<Rightarrow>
                (case fst (redis_call reply (redis_GET now (idem_key q)) r) of
                   Inr (Some InFlight) \<Rightarrow> Answer 409 None
                 | Inr (Some (Response resp)) \<Rightarrow>
                     if cr_hash resp \<noteq> digest body then Answer 422 None
                     else Answer (cr_status resp) (Some (cr_body resp))
                 | _ \<Rightarrow> Proceed (digest body))))"

definition idem_claim :: "reply \<Rightarrow> time \<Rightarrow> idem_request \<Rightarrow> idem_entry redis \<Rightarrow> bool res \<times> idem_entry redis" where
  "idem_claim reply now q r = redis_call reply (redis_SETNX now (idem_key q) InFlight inflightTTL) r"

definition idem_finish ::
  "reply \<Rightarrow> time \<Rightarrow> string \<Rightarrow> string \<Rightarrow> nat \<times> string \<Rightarrow> idem_entry redis \<Rightarrow> idem_entry redis" where
  "idem_finish reply now k hash = (\<lambda>(status, body) r.
     if 200 \<le> status \<and> status < 300
     then snd (redis_call reply (redis_SET now k (Response \<lparr>cr_status = status, cr_body = body, cr_hash = hash\<rparr>) idempotencyTTL) r)
     else snd (redis_call reply (redis_DEL [k]) r))"

record idem_timing =
  it_lookup :: "reply \<times> time"
  it_claim :: "reply \<times> time"
  it_finish :: "reply \<times> time"

text \<open>
  The middleware around a handler: the answer (\<open>None\<close> when the handler panicked), whether the handler ran, and the
  store. \<open>before\<close> and \<open>during\<close> are what other requests do to the store before the claim and while the handler runs.
\<close>

definition Idempotency ::
  "(string \<Rightarrow> string) \<Rightarrow> idem_timing \<Rightarrow> (idem_entry redis \<Rightarrow> idem_entry redis) \<Rightarrow> (idem_entry redis \<Rightarrow> idem_entry redis)
     \<Rightarrow> (idem_request \<Rightarrow> (nat \<times> string) option) \<Rightarrow> idem_request \<Rightarrow> idem_entry redis
     \<Rightarrow> (nat \<times> string option) option \<times> bool \<times> idem_entry redis" where
  "Idempotency digest t before during handler q r =
     (case idem_lookup digest (fst (it_lookup t)) (snd (it_lookup t)) q r of
        Answer status body \<Rightarrow> (Some (status, body), False, r)
      | Proceed hash \<Rightarrow>
          (case idem_claim (fst (it_claim t)) (snd (it_claim t)) q (before r) of
             (Inl _, r') \<Rightarrow> (Some (500, None), False, r')
           | (Inr acquired, r') \<Rightarrow>
               if \<not> acquired then (Some (409, None), False, r')
               else (case handler q of
                       None \<Rightarrow> (None, True, during r')
                     | Some (status, body) \<Rightarrow>
                         (Some (status, Some body), True,
                          idem_finish (fst (it_finish t)) (snd (it_finish t)) (idem_key q) hash (status, body) (during r')))))"


subsection \<open>Any number of requests at once\<close>

text \<open>
  \<open>is_running\<close> are the handlers that run, \<open>is_done\<close> the 2xx responses that were written to the cache. Claims, ends of
  handlers and crashes come in any order and Redis may fail at any command; the one assumption is in \<open>tick\<close>: a
  handler ends within \<open>inflightTTL\<close> of its claim.
\<close>

record idem_run =
  ru_key :: string
  ru_hash :: string
  ru_at :: time

record idem_done =
  id_key :: string
  id_at :: time
  id_response :: cachedResponse

record idem_state =
  is_store :: "idem_entry redis"
  is_now :: time
  is_running :: "idem_run list"
  is_done :: "idem_done list"

inductive idem_step :: "idem_state \<Rightarrow> idem_state \<Rightarrow> bool" where
  tick: "is_now s \<le> t \<Longrightarrow> \<forall>u \<in> set (is_running s). t < ru_at u + inflightTTL \<Longrightarrow> idem_step s (s\<lparr>is_now := t\<rparr>)"
| claimed: "idem_claim reply (is_now s) q (is_store s) = (out, r') \<Longrightarrow>
    idem_step s (s\<lparr>is_store := r', is_running := (if out = Inr True
      then \<lparr>ru_key = idem_key q, ru_hash = h, ru_at = is_now s\<rparr> # is_running s else is_running s)\<rparr>)"
| ended: "is_running s = us @ u # vs \<Longrightarrow>
    idem_step s (s\<lparr>is_store := idem_finish reply (is_now s) (ru_key u) (ru_hash u) (status, body) (is_store s), is_running := us @ vs,
      is_done := (if 200 \<le> status \<and> status < 300 \<and> reply \<noteq> Refused
        then \<lparr>id_key = ru_key u, id_at = is_now s, id_response = \<lparr>cr_status = status, cr_body = body, cr_hash = ru_hash u\<rparr>\<rparr> # is_done s
        else is_done s)\<rparr>)"
| crashed: "is_running s = us @ u # vs \<Longrightarrow> idem_step s (s\<lparr>is_running := us @ vs\<rparr>)"

inductive idem_reachable :: "idem_state \<Rightarrow> bool" where
  initial: "is_running s = [] \<Longrightarrow> is_done s = [] \<Longrightarrow> idem_reachable s"
| step: "idem_reachable s \<Longrightarrow> idem_step s s' \<Longrightarrow> idem_reachable s'"

definition run_held :: "idem_state \<Rightarrow> idem_run \<Rightarrow> bool" where
  "run_held s u \<longleftrightarrow> live (is_now s) (is_store s) (ru_key u) = Some (InFlight, Some (ru_at u + inflightTTL))"

definition done_cached :: "idem_state \<Rightarrow> idem_done \<Rightarrow> bool" where
  "done_cached s d \<longleftrightarrow> id_at d \<le> is_now s \<and> (is_now s < id_at d + idempotencyTTL \<longrightarrow>
     live (is_now s) (is_store s) (id_key d) = Some (Response (id_response d), Some (id_at d + idempotencyTTL)))"

definition apart :: "idem_done \<Rightarrow> idem_done \<Rightarrow> bool" where
  "apart d d' \<longleftrightarrow> (id_key d = id_key d' \<longrightarrow> id_at d' + idempotencyTTL \<le> id_at d)"

definition idem_inv :: "idem_state \<Rightarrow> bool" where
  "idem_inv s \<longleftrightarrow> distinct (map ru_key (is_running s)) \<and> list_all (run_held s) (is_running s) \<and>
     list_all (done_cached s) (is_done s) \<and> sorted_wrt apart (is_done s)"

lemma idem_inv_tick:
  assumes inv: "idem_inv s" and t: "is_now s \<le> t" and p: "\<forall>u \<in> set (is_running s). t < ru_at u + inflightTTL"
  shows "idem_inv (s\<lparr>is_now := t\<rparr>)"
proof -
  have "run_held (s\<lparr>is_now := t\<rparr>) u" if "u \<in> set (is_running s)" for u
  proof -
    have "run_held s u" using inv that by (simp add: idem_inv_def list_all_iff)
    moreover have "\<not> ru_at u + inflightTTL \<le> t" using p that by force
    ultimately show ?thesis using t unfolding run_held_def by (simp add: live_later)
  qed
  moreover have "done_cached (s\<lparr>is_now := t\<rparr>) d" if "d \<in> set (is_done s)" for d
  proof -
    have "done_cached s d" using inv that by (simp add: idem_inv_def list_all_iff)
    then show ?thesis using t unfolding done_cached_def by (auto simp: live_later)
  qed
  ultimately show ?thesis using inv by (simp add: idem_inv_def list_all_iff)
qed

text \<open>A change of the store at a key nobody runs under and nothing is cached under.\<close>

lemma idem_inv_elsewhere:
  assumes inv: "idem_inv s" and other: "\<And>k'. k' \<noteq> k \<Longrightarrow> live (is_now s) r k' = live (is_now s) (is_store s) k'"
    and free: "\<forall>u \<in> set (is_running s). ru_key u \<noteq> k" "\<forall>d \<in> set (is_done s). id_key d = k \<longrightarrow> id_at d + idempotencyTTL \<le> is_now s"
  shows "idem_inv (s\<lparr>is_store := r\<rparr>)"
proof -
  have "run_held (s\<lparr>is_store := r\<rparr>) u" if "u \<in> set (is_running s)" for u
  proof -
    have "run_held s u" using inv that by (simp add: idem_inv_def list_all_iff)
    then show ?thesis using other [of "ru_key u"] free(1) that by (simp add: run_held_def)
  qed
  moreover have "done_cached (s\<lparr>is_store := r\<rparr>) d" if "d \<in> set (is_done s)" for d
  proof -
    have "done_cached s d" using inv that by (simp add: idem_inv_def list_all_iff)
    then show ?thesis using other [of "id_key d"] free(2) that unfolding done_cached_def by (cases "id_key d = k") auto
  qed
  ultimately show ?thesis using inv by (simp add: idem_inv_def list_all_iff)
qed

lemma idem_inv_drop:
  assumes "idem_inv s" "is_running s = us @ u # vs"
  shows "idem_inv (s\<lparr>is_running := us @ vs\<rparr>)"
  using assms by (auto simp: idem_inv_def list_all_iff run_held_def done_cached_def)

text \<open>A key that is held in flight, or held by nobody, has no cached response of this life.\<close>

lemma not_cached:
  assumes "idem_inv s" "d \<in> set (is_done s)" "id_key d = k"
    and "live (is_now s) (is_store s) k = None \<or> live (is_now s) (is_store s) k = Some (InFlight, e)"
  shows "id_at d + idempotencyTTL \<le> is_now s"
proof (rule ccontr)
  assume "\<not> id_at d + idempotencyTTL \<le> is_now s"
  moreover have "done_cached s d" using assms(1,2) by (simp add: idem_inv_def list_all_iff)
  ultimately show False using assms(3,4) by (auto simp: done_cached_def)
qed

lemma not_running:
  assumes "idem_inv s" "u \<in> set (is_running s)" "live (is_now s) (is_store s) k = None"
  shows "ru_key u \<noteq> k"
proof -
  have "run_held s u" using assms(1,2) by (simp add: idem_inv_def list_all_iff)
  then show ?thesis using assms(3) by (auto simp: run_held_def)
qed

lemma idem_inv_add:
  assumes "idem_inv s" "run_held s u" "ru_key u \<notin> ru_key ` set (is_running s)"
  shows "idem_inv (s\<lparr>is_running := u # is_running s\<rparr>)"
  using assms by (simp add: idem_inv_def list_all_iff run_held_def done_cached_def)

lemma idem_inv_claim:
  assumes inv: "idem_inv s" and c: "idem_claim reply (is_now s) q (is_store s) = (out, r')"
  shows "idem_inv (s\<lparr>is_store := r', is_running := (if out = Inr True
      then \<lparr>ru_key = idem_key q, ru_hash = h, ru_at = is_now s\<rparr> # is_running s else is_running s)\<rparr>)"
proof (cases "r' = is_store s")
  case True
  have "out \<noteq> Inr True"
  proof
    assume "out = Inr True"
    then have "live (is_now s) (is_store s) (idem_key q) = None"
      and "r' = snd (redis_SET (is_now s) (idem_key q) InFlight inflightTTL (is_store s))"
      using c by (auto simp: idem_claim_def redis_call_def redis_SETNX_def redis_SET_def split: reply.splits if_splits)
    moreover have "live (is_now s) (snd (redis_SET (is_now s) (idem_key q) InFlight inflightTTL (is_store s))) (idem_key q) \<noteq> None"
      by (simp add: rs.put_same inflightTTL_def)
    ultimately show False using True by simp
  qed
  then show ?thesis using inv True by simp
next
  case False
  then have free: "live (is_now s) (is_store s) (idem_key q) = None"
    and r': "r' = snd (redis_SET (is_now s) (idem_key q) InFlight inflightTTL (is_store s))"
    using c by (auto simp: idem_claim_def redis_call_def redis_SETNX_def redis_SET_def split: reply.splits if_splits)
  have el: "idem_inv (s\<lparr>is_store := r'\<rparr>)"
    using inv
  proof (rule idem_inv_elsewhere)
    show "live (is_now s) r' k' = live (is_now s) (is_store s) k'" if "k' \<noteq> idem_key q" for k'
      unfolding r' by (rule rs.put_other [OF that])
    show "\<forall>u \<in> set (is_running s). ru_key u \<noteq> idem_key q" using not_running [OF inv _ free] by blast
    show "\<forall>d \<in> set (is_done s). id_key d = idem_key q \<longrightarrow> id_at d + idempotencyTTL \<le> is_now s"
      using not_cached [OF inv] free by blast
  qed
  show ?thesis
  proof (cases "out = Inr True")
    case True
    have "live (is_now s) r' (idem_key q) = Some (InFlight, Some (is_now s + inflightTTL))"
      unfolding r' by (rule rs.put_same) (simp_all add: inflightTTL_def)
    moreover have "idem_key q \<notin> ru_key ` set (is_running s)"
    proof
      assume "idem_key q \<in> ru_key ` set (is_running s)"
      then obtain u where u: "u \<in> set (is_running s)" "ru_key u = idem_key q" by force
      show False using not_running [OF inv u(1) free] u(2) by simp
    qed
    ultimately have "idem_inv (s\<lparr>is_store := r'\<rparr>\<lparr>is_running :=
        \<lparr>ru_key = idem_key q, ru_hash = h, ru_at = is_now s\<rparr> # is_running (s\<lparr>is_store := r'\<rparr>)\<rparr>)"
      by (intro idem_inv_add el) (simp_all add: run_held_def)
    then show ?thesis using True by simp
  next
    case False
    then show ?thesis using el by simp
  qed
qed


lemma idem_inv_end:
  assumes inv: "idem_inv s" and u: "is_running s = us @ u # vs"
    and out: "ok \<longleftrightarrow> 200 \<le> status \<and> status < 300 \<and> reply \<noteq> Refused"
  shows "idem_inv (s\<lparr>is_store := idem_finish reply (is_now s) (ru_key u) h (status, body) (is_store s), is_running := us @ vs,
      is_done := (if ok then \<lparr>id_key = ru_key u, id_at = is_now s, id_response = \<lparr>cr_status = status, cr_body = body, cr_hash = h\<rparr>\<rparr> # is_done s
        else is_done s)\<rparr>)"
proof -
  let ?s = "s\<lparr>is_running := us @ vs\<rparr>" and ?r = "idem_finish reply (is_now s) (ru_key u) h (status, body) (is_store s)"
  have held: "live (is_now s) (is_store s) (ru_key u) = Some (InFlight, Some (ru_at u + inflightTTL))"
    using inv u by (simp add: idem_inv_def run_held_def)
  have inv': "idem_inv ?s" using inv u by (rule idem_inv_drop)
  have old: "\<forall>d \<in> set (is_done s). id_key d = ru_key u \<longrightarrow> id_at d + idempotencyTTL \<le> is_now s"
    using not_cached [OF inv] held by blast
  have el: "idem_inv (?s\<lparr>is_store := ?r\<rparr>)"
    using inv'
  proof (rule idem_inv_elsewhere)
    show "live (is_now ?s) ?r k' = live (is_now ?s) (is_store ?s) k'" if "k' \<noteq> ru_key u" for k'
      using that by (simp add: idem_finish_def redis_call_def rs.put_other split: reply.splits)
    show "\<forall>u' \<in> set (is_running ?s). ru_key u' \<noteq> ru_key u"
      using inv u by (simp add: idem_inv_def) (metis image_eqI Un_iff)
    show "\<forall>d \<in> set (is_done ?s). id_key d = ru_key u \<longrightarrow> id_at d + idempotencyTTL \<le> is_now ?s"
      using old by simp
  qed
  have "?s\<lparr>is_store := ?r\<rparr> = s\<lparr>is_store := ?r, is_running := us @ vs\<rparr>" by simp
  then have el: "idem_inv (s\<lparr>is_store := ?r, is_running := us @ vs\<rparr>)" using el by argo
  show ?thesis
  proof (cases ok)
    case True
    let ?resp = "\<lparr>cr_status = status, cr_body = body, cr_hash = h\<rparr>"
    have "?r = snd (redis_SET (is_now s) (ru_key u) (Response ?resp) idempotencyTTL (is_store s))"
      using True out by (cases reply) (simp_all add: idem_finish_def redis_call_def)
    then have "live (is_now s) ?r (ru_key u) = Some (Response ?resp, Some (is_now s + idempotencyTTL))"
      by (simp add: rs.put_same idempotencyTTL_def Hour_def)
    then show ?thesis using el True old
      by (auto simp: idem_inv_def list_all_iff run_held_def done_cached_def apart_def)
  next
    case False
    then show ?thesis using el by simp
  qed
qed

lemma idem_inv_step: "idem_step s s' \<Longrightarrow> idem_inv s \<Longrightarrow> idem_inv s'"
proof (induction rule: idem_step.induct)
  case (ended s us u vs reply status body)
  show ?case by (rule idem_inv_end [OF ended(2,1)]) simp
next
  case (claimed reply s q out r' h)
  then show ?case by (intro idem_inv_claim)
qed (auto intro: idem_inv_tick idem_inv_drop)

lemma idem_reachable_inv: "idem_reachable s \<Longrightarrow> idem_inv s"
proof (induction rule: idem_reachable.induct)
  case (initial s)
  then show ?case by (simp add: idem_inv_def)
qed (rule idem_inv_step)


text \<open>
  C27: what the key leaves out. Two requests of one tenant to one route with the same key and the same
  body are one request to the middleware, even for different resources (\<open>/payrolls/:id/retry\<close> has no body at all):
  the second is answered with the first's response and its handler never runs.
\<close>

theorem other_resource_replayed:
  assumes q: "ir_org q' = ir_org q" "ir_method q' = ir_method q" "ir_route q' = ir_route q" "ir_key q' = ir_key q" "ir_body q' = ir_body q"
    and first: "Idempotency digest t b d handler q r = (Some (status, Some body), True, r1)" "200 \<le> status" "status < 300"
    and redis: "fst (it_finish t) = Answered" "fst (it_lookup t') = Answered"
    and time: "snd (it_finish t) \<le> snd (it_lookup t')" "snd (it_lookup t') < snd (it_finish t) + idempotencyTTL"
  shows "Idempotency digest t' b' d' handler' q' r1 = (Some (status, Some body), False, r1)"
proof -
  obtain hash where look: "idem_lookup digest (fst (it_lookup t)) (snd (it_lookup t)) q r = Proceed hash"
    and r1: "\<exists>x. r1 = idem_finish Answered (snd (it_finish t)) (idem_key q) hash (status, body) x"
    using first(1) redis(1) by (auto simp: Idempotency_def split: idem_answer.splits prod.splits sum.splits if_splits option.splits)
  from look have body: "ir_key q \<noteq> []" "length (ir_key q) \<le> maxIdempotencyKeyLen" "map_option digest (ir_body q) = Some hash"
    by (auto simp: idem_lookup_def split: if_splits option.splits sum.splits idem_entry.splits)
  have "live (snd (it_lookup t')) r1 (idem_key q) =
      Some (Response \<lparr>cr_status = status, cr_body = body, cr_hash = hash\<rparr>, Some (snd (it_finish t) + idempotencyTTL))"
    using r1 first(2,3) time by (auto simp: idem_finish_def redis_call_def rs.put_same)
  moreover have "idem_key q' = idem_key q" using q by (simp add: idem_key_def)
  ultimately show ?thesis using q body redis(2)
    by (auto simp: Idempotency_def idem_lookup_def redis_call_def redis_GET_def)
qed


text \<open>
  A handler slower than \<open>inflightTTL\<close> loses its claim: a retry that arrives after the claim expired runs the handler a
  second time, while the first one still runs.
\<close>

lemma slow_handler_runs_twice:
  assumes "idem_lookup digest (fst (it_lookup t)) (snd (it_lookup t)) q r = Proceed h" "idem_claim (fst (it_claim t)) (snd (it_claim t)) q (b r) = (Inr True, r1)"
    and "fst (it_lookup t') = Answered" "fst (it_claim t') = Answered"
    and "snd (it_claim t) + inflightTTL \<le> snd (it_lookup t')" "snd (it_lookup t') \<le> snd (it_claim t')"
    and "handler q \<noteq> None"
  shows "fst (snd (Idempotency digest t b (\<lambda>r. snd (snd (Idempotency digest t' id id handler q r))) handler q r)) \<and>
         fst (snd (Idempotency digest t' id id handler q r1))"
proof -
  from assms(2) have r1: "r1 = snd (redis_SET (snd (it_claim t)) (idem_key q) InFlight inflightTTL (b r))"
    by (auto simp: idem_claim_def redis_call_def redis_SETNX_def redis_SET_def split: reply.splits if_splits)
  have gone: "live now r1 (idem_key q) = None" if "snd (it_claim t) + inflightTTL \<le> now" for now
    using that unfolding r1 by (simp add: redis_SET_def live_upd)
  have look: "idem_lookup digest Answered (snd (it_lookup t')) q r1 = Proceed h"
    using assms(1) gone [OF assms(5)] by (auto simp: idem_lookup_def redis_call_def redis_GET_def split: if_splits option.splits sum.splits idem_entry.splits)
  have "fst (idem_claim Answered (snd (it_claim t')) q r1) = Inr True"
    using gone assms(5,6) by (simp add: idem_claim_def redis_call_def rs.claim_iff)
  then show ?thesis using assms(1-4,7) look
    by (cases "idem_claim Answered (snd (it_claim t')) q r1") (auto simp: Idempotency_def)
qed

subsection \<open>Examples\<close>

definition demo_idem :: "string \<Rightarrow> idem_request" where
  "demo_idem path = \<lparr>ir_org = ''ORG-1'', ir_method = ''POST'', ir_route = ''/payrolls/:id/retry'', ir_path = path, ir_key = ''k1'', ir_body = Some []\<rparr>"

definition demo_at :: "time \<Rightarrow> idem_timing" where
  "demo_at now = \<lparr>it_lookup = (Answered, now), it_claim = (Answered, now), it_finish = (Answered, now)\<rparr>"

definition demo_store :: "idem_entry redis" where
  "demo_store = snd (snd (Idempotency id (demo_at 5) id id (\<lambda>q. Some (200, ir_path q)) (demo_idem ''/payrolls/A/retry'') Map.empty))"

definition demo_idem_state :: idem_state where
  "demo_idem_state = \<lparr>is_store = demo_store, is_now = 5, is_running = [],
     is_done = [\<lparr>id_key = idem_key (demo_idem []), id_at = 5,
                 id_response = \<lparr>cr_status = 200, cr_body = ''/payrolls/A/retry'', cr_hash = []\<rparr>\<rparr>]\<rparr>"

lemma demo_idem_first:
  "Idempotency id (demo_at 5) id id (\<lambda>q. Some (200, ir_path q)) (demo_idem ''/payrolls/A/retry'') Map.empty =
     (Some (200, Some ''/payrolls/A/retry''), True, demo_store)"
  by (simp add: demo_store_def Idempotency_def idem_lookup_def idem_claim_def redis_call_def redis_GET_def redis_SETNX_def demo_idem_def
      demo_at_def maxIdempotencyKeyLen_def)

lemma demo_idem_reachable: "idem_reachable demo_idem_state"
proof -
  let ?q = "demo_idem []" and ?s0 = "\<lparr>is_store = Map.empty, is_now = 5, is_running = [], is_done = []\<rparr>"
  let ?r = "[idem_key ?q \<mapsto> (InFlight, Some (5 + inflightTTL))]"
  let ?s1 = "\<lparr>is_store = ?r, is_now = 5, is_running = [\<lparr>ru_key = idem_key ?q, ru_hash = [], ru_at = 5\<rparr>], is_done = []\<rparr>"
  have "idem_claim Answered 5 ?q Map.empty = (Inr True, ?r)"
    by (simp add: idem_claim_def redis_call_def redis_SETNX_def)
  then have "idem_step ?s0 ?s1" using idem_step.claimed [of Answered ?s0 ?q "Inr True" ?r "[]"] by simp
  moreover have "idem_step ?s1 demo_idem_state"
    using idem_step.ended [of ?s1 "[]" "\<lparr>ru_key = idem_key ?q, ru_hash = [], ru_at = 5\<rparr>" "[]", where reply = Answered
        and status = 200 and body = "''/payrolls/A/retry''"]
    by (simp add: demo_idem_state_def demo_store_def Idempotency_def idem_lookup_def idem_claim_def idem_finish_def redis_call_def redis_GET_def
        redis_SETNX_def redis_SET_def demo_at_def demo_idem_def idem_key_def maxIdempotencyKeyLen_def)
  moreover have "idem_reachable ?s0" by (rule idem_reachable.initial) simp_all
  ultimately show ?thesis by (meson idem_reachable.step)
qed


theorem other_resource_replayed_witness:
  "Idempotency id (demo_at 6) id id (\<lambda>q. Some (200, ir_path q)) (demo_idem ''/payrolls/B/retry'') demo_store =
     (Some (200, Some ''/payrolls/A/retry''), False, demo_store)"
  by (rule other_resource_replayed [OF _ _ _ _ _ demo_idem_first])
     (simp_all add: demo_idem_def idem_key_def demo_at_def idempotencyTTL_def Hour_def)

end
