(* ===== verification/Spec2Isabelle.thy ===== *)
theory Spec2Isabelle
  imports Payroll_API BVN_Verification EWA_Policies EWA_Bills Employee_Records Employer_Dashboard Reconciliation Accrual_Snapshots D2C_Signup Payroll_Reports Worker_API Disbursement Termination D2C_Machine Idempotency Access_Control
begin

text \<open>
  Verification of the payroll and earned-wage-access engine.

  The program. A multi-tenant Go service on PostgreSQL, Redis, a task queue (asynq) and two payment rails. Employers
  run payrolls; their workers draw part of the wages they have earned before payday (an advance, recovered from the
  next payroll item); workers without an employer (D2C) draw against a predicted payday and repay by direct debit.
  Everything that moves money is posted to a double-entry ledger in the same transaction as the row it belongs to.
  Money goes out through a task: the worker reads its rows in one transaction, calls the bank outside any
  transaction, and records the answer in another; what really happened arrives later as a webhook.

  How the model reads. A database is a record of tables and a table a list of rows in insertion order; the records are
  extended from theory to theory, so an operation is polymorphic in the tables it does not know. A transaction is a
  function from a database to an error or a result with the new database; \<open>WithOrgScope\<close> keeps the old one on an
  error, which is the rollback. \<open>int64\<close> is a 64-bit word read through \<open>sint\<close>; \<open>float64\<close> is a rational rounded
  after every operation to 53 bits; a string is a list of bytes; every \<open>time.Now()\<close> of a call is the argument
  \<open>now\<close>. Go errors are the values of \<open>err\<close>, HTTP answers their status code. Definitions carry the names of the
  functions they translate; where the source has one long function, its loops and closures are definitions of their own,
  composed in the order of the source.

  Theories, bottom up, with the sources they translate (all paths under src/).

  Foundations. \<open>Prelude\<close> (errors, results, checked words, theorem collections), \<open>Go_Strings\<close> (strings, strconv),
  \<open>Float64\<close> (rounding; locale \<open>rounding\<close>), \<open>Store\<close> (tables, transactions, UUIDs, audit rows, locale
  \<open>cas_transition\<close> of a state machine driven by \<open>UPDATE ... WHERE status = ?\<close>; internal/models/db.go),
  \<open>Calendar\<close> (time in UTC), \<open>Redis_Store\<close> (commands with expiry and lost answers; locale \<open>expiring_store\<close>).

  Money and books. \<open>Money\<close> and \<open>Currency\<close> (pkg/money), \<open>Organization\<close> (models/organization.go, consent),
  \<open>Ledger\<close> (models/ledger.go; locale \<open>double_entry\<close>: what its clients use of a posting).

  Earned wages. \<open>Advances\<close> (models/ewa.go, ewa_ledger.go), \<open>Grants\<close> (funding.go, hardship_grant.go and their
  services), \<open>Dependency\<close> (ewa_dependency.go), \<open>Accrual\<close>, \<open>Payday_Prediction\<close>, \<open>Time_Entries\<close>,
  \<open>Hourly_Pay\<close>, \<open>Settlement\<close>, \<open>EWA_Service\<close> (ewa_service.go: eligibility and requests), \<open>Savings\<close>,
  \<open>EWA_Policies\<close>, \<open>EWA_Bills\<close>, \<open>Accrual_Snapshots\<close>, \<open>Worker_API\<close> (handlers/advance_handler.go).

  Payroll. \<open>Payroll_Batch\<close> (rows, settlement of an item), \<open>Payroll_Lifecycle\<close> (workers/payroll_worker.go, retry,
  resolution), \<open>Payroll_Invariant\<close>, \<open>Webhooks\<close> (handlers/webhook_handler.go), \<open>Payroll_Machine\<close> (all of them
  interleaved), \<open>Payroll_Service\<close> (creation), \<open>Disbursement\<close> (single transfers), \<open>Termination\<close>,
  \<open>Payroll_Reports\<close>, \<open>Payroll_API\<close> (payroll, user and policy handlers), \<open>Payment_Rails\<close> (integrations/monnify and paystack; locale \<open>payment_rail\<close>),
  \<open>Reconciliation\<close>, \<open>Employer_Dashboard\<close>.

  Direct debits. \<open>Bank_Links\<close>, \<open>D2C_Collections\<close>, \<open>D2C_Machine\<close>, \<open>D2C_Signup\<close>.

  Access. \<open>Employee_Records\<close>, \<open>BVN_Verification\<close> (workers/bvn_worker.go), \<open>Employer_Users\<close>, \<open>Worker_OTP\<close>, \<open>Access_Control\<close> (middleware and login
  handlers), \<open>Idempotency\<close>.

  What the lemmas show. Arithmetic: every checked operation is exact or reports overflow, rounding is half to even,
  parsers and printers are inverse. Ledger: every operation keeps every transaction balanced per currency, a replayed key posts
  nothing, a posting changes exactly the balances it names (a refinement to a map of balances). Advances: only legal
  edges, terminal states stay, requests stay within accrual, cap, policy and floor, settlement is first-in first-out and
  exact, termination resolves everything. Payroll: \<open>payroll_step\<close> is the relation of all committed transactions and
  lost workers, \<open>payroll_reachable\<close> its states; the counters are exact in every reachable state, a paid item is never
  resent, the callbacks of a batch in any order close it, and the worker's code is a path of the relation. Webhooks:
  a second delivery has no effect, only an exact amount completes an item. Debits: \<open>d2c_step\<close> likewise; the debits of an
  advance sum to its recovered amount and never exceed it. Redis: the cached answer excludes the handler, guesses per
  code are bounded over all histories. Access: an organization never loses its last admin.

  Locales and where they are used. \<open>cas_transition\<close> is interpreted on the advance, batch, item and time-entry machines;
  \<open>double_entry\<close> on the ledger, and carries the postings of advances, grants and savings; \<open>rounding\<close> on
  \<open>rnd64\<close>; \<open>expiring_store\<close> on the Redis commands; \<open>payment_rail\<close> on Monnify. Paystack fails that contract,
  which \<open>paystack_gateway_error_cancels\<close> shows on an input.

  Parameters and hypotheses. Code outside the repository is an argument: the bank's answers (\<open>http_reply\<close>, \<open>bank\<close>,
  \<open>provide\<close>, \<open>reserve\<close>), the account aggregator (\<open>provider\<close>, \<open>DebitProvider\<close>), HMAC, SHA-256, bcrypt, JWT
  and mail parsing (\<open>hmac\<close>, \<open>BlindIndex\<close>, \<open>digest\<close>, \<open>identity_env\<close>, \<open>jwt_env\<close>), JSON decoders and
  encoders, the unstable sort (\<open>arrange\<close>), and what other transactions commit during an external call (\<open>others\<close>).
  \<open>fresh_run\<close> and the like say that new UUIDs do not collide. The guards of \<open>payroll_step\<close> that concern the
  environment are two: the bank calls back only about a batch it has answered for, and an operator resolves no item of a
  batch that is just being submitted. A property that needs a hypothesis has a witness on a concrete database.

  Bounds. No definition takes fuel: every loop of the sources that is modelled runs over a list or counts down, and
  the recursions over integers have termination proofs by a measure. Statements about sums carry the bound under which
  \<open>int64\<close> holds them; the float boundary is exact up to 2^50 kobo.

  Not modelled. Transport (most handlers of other services, routing tables, JSON shapes, headers, metrics, logging, rate limiting, health), start-up and
  configuration, encryption of columns (they hold plaintext), the SMS client, the SOC 2 and compliance
  exports, seed data and test doubles. Transactions are serial: a lock only orders them, and the read-then-write gaps of the
  code between two transactions are separate steps.
\<close>

end
